(* ===== verification/Prelude.thy ===== *)
theory Prelude
  imports Main "HOL-Library.Word"
begin

text \<open>
  Shared vocabulary of the development: the machine types of the Rust source, results and early
  returns, big-endian integers, UTF-8, decimal text, and the list operations (\<open>position\<close>,
  \<open>find\<close> with update, \<open>remove\<close>) that several components use.

  A Rust \<open>uN\<close> is an \<open>N word\<close>, so \<open>+\<close> wraps as it does in the release profile (the manifest
  \<open>Cargo.toml\<close> does not enable overflow checks). A \<open>usize\<close> is a \<open>nat\<close>: it only ever holds
  lengths of things in memory. A Rust \<open>String\<close> is the list of its Unicode scalar values, and
  \<open>utf8\<close> gives its bytes.
\<close>

type_synonym u8 = "8 word"
type_synonym u16 = "16 word"
type_synonym u32 = "32 word"
type_synonym u64 = "64 word"
type_synonym bytes = "u8 list"
type_synonym rstring = "nat list"

text \<open>Ids are transparent \<open>u64\<close> wrappers in the source.\<close>

type_synonym connection_id = u64
type_synonym member_id = u64
type_synonym request_id = u64

text \<open>A \<open>std::time::Duration\<close> counted in nanoseconds.\<close>

type_synonym duration = nat

definition secs :: "nat \<Rightarrow> duration" where
  "secs s = s * 1000000000"

named_theorems handler_defs \<open>definitions of the event handlers, unfolded together\<close>
named_theorems result_simps \<open>equations of the result combinators\<close>

section \<open>Results\<close>

text \<open>\<open>Result<A, E>\<close> is \<open>'e + 'a\<close>; \<open>bindE r f\<close> is \<open>f(r?)\<close>.\<close>

definition bindE :: "'e + 'a \<Rightarrow> ('a \<Rightarrow> 'e + 'b) \<Rightarrow> 'e + 'b" where
  "bindE r f = (case r of Inl e \<Rightarrow> Inl e | Inr x \<Rightarrow> f x)"

definition map_errE :: "('e \<Rightarrow> 'f) \<Rightarrow> 'e + 'a \<Rightarrow> 'f + 'a" where
  "map_errE f r = (case r of Inl e \<Rightarrow> Inl (f e) | Inr x \<Rightarrow> Inr x)"

definition ok_or :: "'e \<Rightarrow> 'a option \<Rightarrow> 'e + 'a" where
  "ok_or e v = (case v of None \<Rightarrow> Inl e | Some x \<Rightarrow> Inr x)"

text \<open>
  A method on \<open>&mut self\<close> returns the result and the state: the state is kept on an early
  return too, as the Rust method keeps whatever it mutated before the \<open>?\<close>.
\<close>

definition tryS :: "('e + 'a) \<times> 's \<Rightarrow> ('a \<Rightarrow> 's \<Rightarrow> ('e + 'b) \<times> 's) \<Rightarrow> ('e + 'b) \<times> 's" where
  "tryS m f = (case m of (Inl e, s) \<Rightarrow> (Inl e, s) | (Inr x, s) \<Rightarrow> f x s)"

lemma bindE_simps [simp, result_simps]:
  "bindE (Inl e) f = Inl e" "bindE (Inr x) f = f x"
  by (simp_all add: bindE_def)

lemma map_errE_simps [simp, result_simps]:
  "map_errE g (Inl e) = Inl (g e)" "map_errE g (Inr x) = Inr x"
  by (simp_all add: map_errE_def)

lemma ok_or_simps [simp, result_simps]:
  "ok_or e None = Inl e" "ok_or e (Some x) = Inr x"
  by (simp_all add: ok_or_def)

lemma tryS_simps [simp, result_simps]:
  "tryS (Inl e, s) f = (Inl e, s)" "tryS (Inr x, s) f = f x s"
  by (simp_all add: tryS_def)

lemma bindE_eq_Inr: "bindE r f = Inr y \<longleftrightarrow> (\<exists>x. r = Inr x \<and> f x = Inr y)"
  by (cases r) auto

lemma bindE_eq_Inl: "bindE r f = Inl e \<longleftrightarrow> r = Inl e \<or> (\<exists>x. r = Inr x \<and> f x = Inl e)"
  by (cases r) auto

lemma map_errE_eq_Inr [simp]: "map_errE g r = Inr y \<longleftrightarrow> r = Inr y"
  by (cases r) auto

lemma ok_or_eq_Inr [simp]: "ok_or e v = Inr y \<longleftrightarrow> v = Some y"
  by (cases v) auto

lemma tryS_cases:
  assumes "tryS m f = (r, s')"
  obtains (err) e where "m = (Inl e, s')" "r = Inl e"
  | (ok) x s where "m = (Inr x, s)" "f x s = (r, s')"
  using assms by (cases m; cases "fst m") auto

text \<open>A property of the state that both steps keep is kept by their sequence.\<close>

lemma tryS_inv:
  assumes "P (snd m)" and "\<And>x s. m = (Inr x, s) \<Longrightarrow> P s \<Longrightarrow> P (snd (f x s))"
  shows "P (snd (tryS m f))"
  using assms by (cases m; cases "fst m") auto

section \<open>Lists\<close>

text \<open>
  \<open>iter().position(p)\<close> followed by \<open>remove(index)\<close>: the first element that satisfies the test
  and the list without it.
\<close>

fun take_first :: "('a \<Rightarrow> bool) \<Rightarrow> 'a list \<Rightarrow> ('a \<times> 'a list) option" where
  "take_first p [] = None"
| "take_first p (x # xs) =
     (if p x then Some (x, xs) else map_option (\<lambda>(y, ys). (y, x # ys)) (take_first p xs))"

text \<open>\<open>iter_mut().find(p)\<close> followed by a write through the reference.\<close>

fun update_first :: "('a \<Rightarrow> bool) \<Rightarrow> ('a \<Rightarrow> 'a) \<Rightarrow> 'a list \<Rightarrow> 'a list" where
  "update_first p f [] = []"
| "update_first p f (x # xs) = (if p x then f x # xs else x # update_first p f xs)"

lemma take_first_None: "take_first p xs = None \<longleftrightarrow> (\<forall>x \<in> set xs. \<not> p x)"
  by (induction xs) auto

lemma take_first_Some:
  assumes "take_first p xs = Some (x, ys)"
  shows "\<exists>as bs. xs = as @ x # bs \<and> ys = as @ bs \<and> p x \<and> (\<forall>a \<in> set as. \<not> p a)"
  using assms
proof (induction xs arbitrary: x ys)
  case Nil
  then show ?case by simp
next
  case (Cons z zs)
  show ?case
  proof (cases "p z")
    case True
    with Cons.prems show ?thesis
      by (intro exI [of _ "[]"] exI [of _ zs]) auto
  next
    case False
    with Cons.prems obtain ys' where t: "take_first p zs = Some (x, ys')" and y: "ys = z # ys'"
      by (auto split: option.splits)
    from Cons.IH [OF t] obtain as bs where
      "zs = as @ x # bs" "ys' = as @ bs" "p x" "\<forall>a \<in> set as. \<not> p a"
      by blast
    with False y show ?thesis
      by (intro exI [of _ "z # as"] exI [of _ bs]) auto
  qed
qed

lemma take_first_find: "map_option fst (take_first p xs) = List.find p xs"
  by (induction xs) (auto simp: option.map_comp comp_def case_prod_beta)

lemma take_first_length:
  "take_first p xs = Some (x, ys) \<Longrightarrow> length xs = Suc (length ys)"
  by (auto dest: take_first_Some)

text \<open>When the test picks an element by a key that is distinct, removal is a filter.\<close>

lemma take_first_filter:
  assumes "distinct (map f xs)" and "take_first (\<lambda>x. f x = k) xs = Some (x, ys)"
  shows "ys = filter (\<lambda>x. f x \<noteq> k) xs \<and> x \<in> set xs \<and> f x = k"
proof -
  obtain as bs where *: "xs = as @ x # bs" "ys = as @ bs" "f x = k" "\<forall>a \<in> set as. f a \<noteq> k"
    using take_first_Some [OF assms(2)] by blast
  with assms(1) have b: "\<forall>b \<in> set bs. f b \<noteq> k" by (auto simp: image_iff)
  then have "filter (\<lambda>x. f x \<noteq> k) bs = bs" by (simp add: filter_id_conv)
  moreover from * have "filter (\<lambda>x. f x \<noteq> k) as = as" by (simp add: filter_id_conv)
  ultimately show ?thesis using * by simp
qed

lemma find_SomeD: "List.find p xs = Some x \<Longrightarrow> x \<in> set xs \<and> p x"
  by (induction xs) (auto split: if_splits)

lemma find_NoneD: "List.find p xs = None \<Longrightarrow> x \<in> set xs \<Longrightarrow> \<not> p x"
  by (induction xs) (auto split: if_splits)

lemma find_distinct:
  "distinct (map f xs) \<Longrightarrow> x \<in> set xs \<Longrightarrow> f x = k \<Longrightarrow> List.find (\<lambda>y. f y = k) xs = Some x"
  by (induction xs) (auto simp: rev_image_eqI)

lemma set_update_first: "set (update_first p f xs) \<subseteq> set xs \<union> f ` set xs"
  by (induction xs) auto

lemma length_update_first [simp]: "length (update_first p f xs) = length xs"
  by (induction xs) auto

lemma map_update_first:
  "(\<And>x. g (f x) = g x) \<Longrightarrow> map g (update_first p f xs) = map g xs"
  by (induction xs) auto

section \<open>Counters\<close>

text \<open>A counter that has not reached its last value grows when it is incremented.\<close>

lemma unat_inc: "w + 1 \<noteq> 0 \<Longrightarrow> unat (w + 1) = Suc (unat w)"
  by (metis add.commute unatSuc)

lemma word_less_inc:
  fixes w :: "'a::len word"
  shows "w + 1 \<noteq> 0 \<Longrightarrow> w < w + 1"
  by (simp add: word_less_nat_alt unat_inc)

lemma word_less_inc_iff:
  fixes w :: "'a::len word"
  shows "w + 1 \<noteq> 0 \<Longrightarrow> v < w + 1 \<longleftrightarrow> v \<le> w"
  by (simp add: word_less_nat_alt word_le_nat_alt unat_inc less_Suc_eq_le)

section \<open>Big-endian integers\<close>

fun be :: "nat \<Rightarrow> nat \<Rightarrow> bytes" where
  "be 0 x = []"
| "be (Suc n) x = be n (x div 256) @ [word_of_nat (x mod 256)]"

definition from_be :: "bytes \<Rightarrow> nat" where
  "from_be bs = foldl (\<lambda>a b. a * 256 + unat b) 0 bs"

definition be16 :: "u16 \<Rightarrow> bytes" where "be16 w = be 2 (unat w)"
definition be32 :: "u32 \<Rightarrow> bytes" where "be32 w = be 4 (unat w)"
definition be64 :: "u64 \<Rightarrow> bytes" where "be64 w = be 8 (unat w)"

definition from_be64 :: "bytes \<Rightarrow> u64" where
  "from_be64 bs = word_of_nat (from_be bs)"

lemma length_be [simp]: "length (be n x) = n"
  by (induction n arbitrary: x) auto

lemma length_be_w [simp]: "length (be16 a) = 2" "length (be32 b) = 4" "length (be64 c) = 8"
  by (simp_all add: be16_def be32_def be64_def)

lemma unat_byte [simp]: "unat (word_of_nat (x mod 256) :: u8) = x mod 256"
  by (simp add: unat_of_nat)

lemma from_be_snoc [simp]: "from_be (bs @ [b]) = from_be bs * 256 + unat b"
  by (simp add: from_be_def)

lemma from_be_be: "from_be (be n x) = x mod 256 ^ n"
proof (induction n arbitrary: x)
  case 0
  then show ?case by (simp add: from_be_def)
next
  case (Suc n)
  have "from_be (be (Suc n) x) = (x div 256) mod 256 ^ n * 256 + x mod 256"
    by (simp add: Suc.IH)
  also have "\<dots> = x mod (256 * 256 ^ n)"
    by (simp add: mod_mult2_eq)
  finally show ?case by simp
qed

lemma be_inj:
  assumes "x < 256 ^ n" and "y < 256 ^ n" and "be n x = be n y"
  shows "x = y"
  using assms by (metis from_be_be mod_less)

lemma from_be_be16 [simp]: "from_be (be16 a) = unat a"
  using unsigned_less [where ?'a = nat, of a] by (simp add: be16_def from_be_be)

lemma from_be_be32 [simp]: "from_be (be32 b) = unat b"
  using unsigned_less [where ?'a = nat, of b] by (simp add: be32_def from_be_be)

lemma from_be_be64 [simp]: "from_be (be64 c) = unat c"
  using unsigned_less [where ?'a = nat, of c] by (simp add: be64_def from_be_be)

lemma from_be64_be64 [simp]: "from_be64 (be64 c) = c"
  by (simp add: from_be64_def)

lemma be_w_inj [simp]:
  "be16 a = be16 a' \<longleftrightarrow> a = a'" "be32 b = be32 b' \<longleftrightarrow> b = b'" "be64 c = be64 c' \<longleftrightarrow> c = c'"
  by (metis from_be_be16 word_unat_eq_iff, metis from_be_be32 word_unat_eq_iff,
      metis from_be64_be64)


section \<open>Text\<close>

text \<open>ASCII literals of the source, as scalar values and as bytes.\<close>

definition rs :: "string \<Rightarrow> rstring" where
  "rs s = map of_char s"

definition scalar :: "nat \<Rightarrow> bool" where
  "scalar c \<longleftrightarrow> c < 0x110000 \<and> \<not> (0xD800 \<le> c \<and> c \<le> 0xDFFF)"

definition utf8_char :: "nat \<Rightarrow> nat list" where
  "utf8_char c =
     (if c < 0x80 then [c]
      else if c < 0x800 then [0xC0 + c div 64, 0x80 + c mod 64]
      else if c < 0x10000 then [0xE0 + c div 4096, 0x80 + c div 64 mod 64, 0x80 + c mod 64]
      else [0xF0 + c div 262144, 0x80 + c div 4096 mod 64, 0x80 + c div 64 mod 64, 0x80 + c mod 64])"

text \<open>\<open>str::as_bytes\<close> and \<open>str::len\<close>.\<close>

definition utf8 :: "rstring \<Rightarrow> bytes" where
  "utf8 s = concat (map (\<lambda>c. map word_of_nat (utf8_char c)) s)"

definition str_len :: "rstring \<Rightarrow> nat" where
  "str_len s = length (utf8 s)"

definition is_cont :: "nat \<Rightarrow> bool" where
  "is_cont n \<longleftrightarrow> 0x80 \<le> n \<and> n < 0xC0"

text \<open>
  \<open>String::from_utf8\<close> on the byte values: overlong forms, surrogates and values above
  \<open>U+10FFFF\<close> are refused.
\<close>

fun decode_units :: "nat list \<Rightarrow> rstring option" where
  "decode_units [] = Some []"
| "decode_units (a # r) =
     (if a < 0x80 then map_option ((#) a) (decode_units r)
      else if 0xC2 \<le> a \<and> a < 0xE0 then
        (case r of
           b # r' \<Rightarrow>
             if is_cont b then map_option ((#) ((a - 0xC0) * 64 + (b - 0x80))) (decode_units r')
             else None
         | [] \<Rightarrow> None)
      else if 0xE0 \<le> a \<and> a < 0xF0 then
        (case r of
           b # c # r' \<Rightarrow>
             (let v = (a - 0xE0) * 4096 + (b - 0x80) * 64 + (c - 0x80)
              in if is_cont b \<and> is_cont c \<and> 0x800 \<le> v \<and> scalar v
                 then map_option ((#) v) (decode_units r') else None)
         | _ \<Rightarrow> None)
      else if 0xF0 \<le> a \<and> a < 0xF5 then
        (case r of
           b # c # d # r' \<Rightarrow>
             (let v = (a - 0xF0) * 262144 + (b - 0x80) * 4096 + (c - 0x80) * 64 + (d - 0x80)
              in if is_cont b \<and> is_cont c \<and> is_cont d \<and> 0x10000 \<le> v \<and> scalar v
                 then map_option ((#) v) (decode_units r') else None)
         | _ \<Rightarrow> None)
      else None)"

definition from_utf8 :: "bytes \<Rightarrow> rstring option" where
  "from_utf8 bs = decode_units (map unat bs)"

lemma utf8_Nil [simp]: "utf8 [] = []"
  by (simp add: utf8_def)

lemma utf8_append [simp]: "utf8 (s @ t) = utf8 s @ utf8 t"
  by (simp add: utf8_def)

lemma str_len_Nil [simp]: "str_len [] = 0"
  by (simp add: str_len_def)

lemma utf8_char_bytes: "scalar c \<Longrightarrow> n \<in> set (utf8_char c) \<Longrightarrow> n < 256"
  by (auto simp: utf8_char_def scalar_def split: if_splits)

lemma utf8_char_nonempty [simp]: "utf8_char c \<noteq> []"
  by (simp add: utf8_char_def)

lemma recombine2: "x = p * 64 + q \<Longrightarrow> c = x * 64 + r \<Longrightarrow> p * 4096 + q * 64 + r = (c :: nat)"
  by simp

lemma recombine3:
  "y = o' * 64 + p \<Longrightarrow> x = y * 64 + q \<Longrightarrow> c = x * 64 + r \<Longrightarrow>
   o' * 262144 + p * 4096 + q * 64 + r = (c :: nat)"
  by simp

lemma div_4096: "c div 4096 = c div 64 div (64 :: nat)"
  using div_mult2_eq [of c 64 64] by simp

lemma div_262144: "c div 262144 = c div 64 div 64 div (64 :: nat)"
  using div_mult2_eq [of c 64 4096] by (simp add: div_4096)

lemma decode_units_char:
  assumes "scalar c"
  shows "decode_units (utf8_char c @ r) = map_option ((#) c) (decode_units r)"
proof -
  consider (1) "c < 0x80" | (2) "0x80 \<le> c" "c < 0x800" | (3) "0x800 \<le> c" "c < 0x10000"
    | (4) "0x10000 \<le> c" "c < 0x110000"
    using assms unfolding scalar_def by linarith
  then show ?thesis
  proof cases
    case 1
    then show ?thesis by (simp add: utf8_char_def)
  next
    case 2
    have "is_cont (0x80 + c mod 64)" by (simp add: is_cont_def)
    moreover have "c div 64 * 64 + c mod 64 = c" by simp
    moreover have "2 \<le> c div 64" "c div 64 < 32" using 2 by auto
    ultimately show ?thesis using 2 by (simp add: utf8_char_def)
  next
    case 3
    have v: "c div 4096 * 4096 + c div 64 mod 64 * 64 + c mod 64 = c"
      by (rule recombine2 [of "c div 64"]) (simp_all add: div_4096)
    have "is_cont (0x80 + c div 64 mod 64)" "is_cont (0x80 + c mod 64)" by (simp_all add: is_cont_def)
    moreover have "c div 4096 < 16" using 3 by auto
    ultimately show ?thesis using 3 v assms by (simp add: utf8_char_def Let_def)
  next
    case 4
    have v: "c div 262144 * 262144 + c div 4096 mod 64 * 4096 + c div 64 mod 64 * 64 + c mod 64 = c"
      by (rule recombine3 [of "c div 64 div 64" _ _ "c div 64"])
        (simp_all add: div_4096 div_262144)
    have "is_cont (0x80 + c div 4096 mod 64)" "is_cont (0x80 + c div 64 mod 64)"
      "is_cont (0x80 + c mod 64)" by (simp_all add: is_cont_def)
    moreover have "c div 262144 < 5" using 4 by auto
    ultimately show ?thesis using 4 v assms by (simp add: utf8_char_def Let_def)
  qed
qed

lemma decode_units_text:
  "\<forall>c \<in> set s. scalar c \<Longrightarrow> decode_units (concat (map utf8_char s)) = Some s"
  by (induction s) (simp_all add: decode_units_char)

lemma unat_utf8: "\<forall>c \<in> set s. scalar c \<Longrightarrow> map unat (utf8 s) = concat (map utf8_char s)"
proof (induction s)
  case Nil
  then show ?case by simp
next
  case (Cons c s)
  have "\<forall>n \<in> set (utf8_char c). unat (word_of_nat n :: u8) = n"
    using Cons.prems utf8_char_bytes [of c] by (auto simp: unat_of_nat)
  then have "map (unat \<circ> (word_of_nat :: nat \<Rightarrow> u8)) (utf8_char c) = utf8_char c"
    by (simp add: map_idI)
  with Cons show ?case by (simp add: utf8_def)
qed

text \<open>Every string decodes from its own bytes.\<close>

lemma from_utf8_utf8: "\<forall>c \<in> set s. scalar c \<Longrightarrow> from_utf8 (utf8 s) = Some s"
  by (simp add: from_utf8_def unat_utf8 decode_units_text)

lemma utf8_inj:
  "\<forall>c \<in> set s. scalar c \<Longrightarrow> \<forall>c \<in> set t. scalar c \<Longrightarrow> utf8 s = utf8 t \<Longrightarrow> s = t"
  by (metis from_utf8_utf8 option.inject)

lemma scalar_small: "c < 0x800 \<Longrightarrow> scalar c"
  by (simp add: scalar_def)

lemma decode_units_scalar: "decode_units ns = Some s \<Longrightarrow> \<forall>c \<in> set s. scalar c"
proof (induction ns arbitrary: s rule: decode_units.induct)
  case 1
  then show ?case by simp
next
  case (2 a r)
  consider (one) "a < 0x80" | (two) "0xC2 \<le> a" "a < 0xE0" | (three) "0xE0 \<le> a" "a < 0xF0"
    | (four) "0xF0 \<le> a" "a < 0xF5" | (bad) "\<not> a < 0x80" "\<not> (0xC2 \<le> a \<and> a < 0xF5)"
    by linarith
  then show ?case
  proof cases
    case one
    with "2.prems" "2.IH"(1) show ?thesis by (auto simp: scalar_small)
  next
    case two
    with "2.prems" obtain b r' t where r: "r = b # r'" "is_cont b" "decode_units r' = Some t"
      and s: "s = ((a - 0xC0) * 64 + (b - 0x80)) # t"
      by (auto split: list.splits if_splits)
    have "scalar ((a - 0xC0) * 64 + (b - 0x80))"
      using two r(2) by (intro scalar_small) (auto simp: is_cont_def)
    with two r s "2.IH"(2) show ?thesis by auto
  next
    case three
    with "2.prems" obtain b c r' t v where r: "r = b # c # r'" "decode_units r' = Some t"
      and v: "v = (a - 0xE0) * 4096 + (b - 0x80) * 64 + (c - 0x80)"
        "is_cont b \<and> is_cont c \<and> 0x800 \<le> v \<and> scalar v" and s: "s = v # t"
      by (auto simp: Let_def split: list.splits if_splits)
    have "\<forall>c \<in> set t. scalar c" using three r v by (intro "2.IH"(3)) auto
    with v s show ?thesis by simp
  next
    case four
    with "2.prems" obtain b c d r' t v where r: "r = b # c # d # r'" "decode_units r' = Some t"
      and v: "v = (a - 0xF0) * 262144 + (b - 0x80) * 4096 + (c - 0x80) * 64 + (d - 0x80)"
        "is_cont b \<and> is_cont c \<and> is_cont d \<and> 0x10000 \<le> v \<and> scalar v" and s: "s = v # t"
      by (auto simp: Let_def split: list.splits if_splits)
    have "\<forall>c \<in> set t. scalar c" using four r v by (intro "2.IH"(4)) auto
    with v s show ?thesis by simp
  next
    case bad
    with "2.prems" show ?thesis by (auto split: if_splits)
  qed
qed

lemma from_utf8_Some: "from_utf8 bs = Some s \<Longrightarrow> \<forall>c \<in> set s. scalar c"
  unfolding from_utf8_def by (rule decode_units_scalar)

lemma ascii_utf8: "\<forall>c \<in> set s. c < 0x80 \<Longrightarrow> utf8 s = map word_of_nat s"
  by (induction s) (simp_all add: utf8_def utf8_char_def)

subsection \<open>Decimal numbers\<close>

text \<open>The \<open>Display\<close> of an unsigned integer.\<close>

fun dec :: "nat \<Rightarrow> rstring" where
  "dec n = (if n < 10 then [0x30 + n] else dec (n div 10) @ [0x30 + n mod 10])"

declare dec.simps [simp del]

definition is_digit :: "nat \<Rightarrow> bool" where
  "is_digit c \<longleftrightarrow> 0x30 \<le> c \<and> c \<le> 0x39"

definition digits_value :: "rstring \<Rightarrow> nat" where
  "digits_value s = foldl (\<lambda>a c. a * 10 + (c - 0x30)) 0 s"

text \<open>
  \<open>str::parse\<close> into an unsigned type with largest value \<open>m\<close>: one leading \<open>+\<close> is accepted, the
  rest is one or more digits, and a value above \<open>m\<close> is an error.
\<close>

definition parse_uint :: "nat \<Rightarrow> rstring \<Rightarrow> nat option" where
  "parse_uint m s =
     (let d = (case s of [] \<Rightarrow> [] | c # r \<Rightarrow> if c = 0x2B then r else s)
      in if d = [] \<or> \<not> list_all is_digit d \<or> digits_value d > m then None
         else Some (digits_value d))"

lemma digits_value_snoc [simp]: "digits_value (s @ [c]) = digits_value s * 10 + (c - 0x30)"
  by (simp add: digits_value_def)

lemma dec_digits: "list_all is_digit (dec n) \<and> dec n \<noteq> [] \<and> digits_value (dec n) = n"
proof (induction n rule: dec.induct)
  case (1 n)
  show ?case
  proof (cases "n < 10")
    case True
    then show ?thesis
      by (simp add: dec.simps [of n] is_digit_def digits_value_def)
  next
    case False
    with 1 show ?thesis
      by (simp add: dec.simps [of n] is_digit_def)
  qed
qed

lemma dec_ascii: "c \<in> set (dec n) \<Longrightarrow> c < 0x80"
  using dec_digits [of n] by (fastforce simp: list_all_iff is_digit_def)

lemma parse_uint_digits:
  "list_all is_digit s \<Longrightarrow> s \<noteq> [] \<Longrightarrow> digits_value s \<le> m \<Longrightarrow>
   parse_uint m s = Some (digits_value s)"
  by (cases s) (auto simp: parse_uint_def is_digit_def)

lemma parse_uint_dec: "n \<le> m \<Longrightarrow> parse_uint m (dec n) = Some n"
  using dec_digits [of n] parse_uint_digits [of "dec n" m] by simp

lemma parse_uint_bound: "parse_uint m s = Some n \<Longrightarrow> n \<le> m"
  by (auto simp: parse_uint_def Let_def split: if_splits)

section \<open>Prefix codes\<close>

text \<open>
  The transcripts and bodies that are signed are concatenations of fields. What makes them
  unambiguous is that each field's encoding is a prefix code: from two equal byte strings that
  start with an encoded field, the field and the rest can be read back.
\<close>

locale prefix_code =
  fixes enc :: "'a \<Rightarrow> bytes" and ok :: "'a \<Rightarrow> bool"
  assumes prefix_free: "ok x \<Longrightarrow> ok y \<Longrightarrow> enc x @ r = enc y @ s \<Longrightarrow> x = y \<and> r = s"
begin

lemma enc_inj: "ok x \<Longrightarrow> ok y \<Longrightarrow> enc x = enc y \<Longrightarrow> x = y"
  using prefix_free [of x y "[]" "[]"] by simp

lemma enc_append_iff: "ok x \<Longrightarrow> ok y \<Longrightarrow> enc x @ r = enc y @ s \<longleftrightarrow> x = y \<and> r = s"
  using prefix_free by blast

text \<open>A list of fields whose number is already known.\<close>

lemma enc_list:
  "length xs = length ys \<Longrightarrow> \<forall>x \<in> set xs. ok x \<Longrightarrow> \<forall>y \<in> set ys. ok y \<Longrightarrow>
   concat (map enc xs) @ r = concat (map enc ys) @ s \<Longrightarrow> xs = ys \<and> r = s"
proof (induction xs ys rule: list_induct2)
  case Nil
  then show ?case by simp
next
  case (Cons x xs y ys)
  then have "x = y \<and> concat (map enc xs) @ r = concat (map enc ys) @ s"
    by (intro prefix_free) auto
  with Cons show ?case by auto
qed

end

text \<open>An encoding of constant length that is injective is a prefix code.\<close>

locale fixed_width_code =
  fixes enc :: "'a \<Rightarrow> bytes" and ok :: "'a \<Rightarrow> bool" and w :: nat
  assumes width: "ok x \<Longrightarrow> length (enc x) = w"
    and width_inj: "ok x \<Longrightarrow> ok y \<Longrightarrow> enc x = enc y \<Longrightarrow> x = y"

sublocale fixed_width_code \<subseteq> prefix_code
  by unfold_locales (use width width_inj in \<open>metis append_eq_append_conv\<close>)

text \<open>The length-prefixed byte string of the transcripts.\<close>

definition len_bytes :: "bytes \<Rightarrow> bytes" where
  "len_bytes bs = be32 (word_of_nat (length bs)) @ bs"

interpretation code8: fixed_width_code "\<lambda>b. [b]" "\<lambda>_. True" 1
  by unfold_locales auto

interpretation code16: fixed_width_code be16 "\<lambda>_. True" 2
  by unfold_locales auto

interpretation code32: fixed_width_code be32 "\<lambda>_. True" 4
  by unfold_locales auto

interpretation code64: fixed_width_code be64 "\<lambda>_. True" 8
  by unfold_locales auto

interpretation code_fixed: fixed_width_code "\<lambda>bs. bs" "\<lambda>bs. length bs = n" n for n
  by unfold_locales auto

interpretation code_bytes: prefix_code len_bytes "\<lambda>bs. length bs < 2 ^ 32"
proof
  fix x y r s :: bytes
  assume len: "length x < 2 ^ 32" "length y < 2 ^ 32"
    and eq: "len_bytes x @ r = len_bytes y @ s"
  have "(word_of_nat (length x) :: u32) = word_of_nat (length y) \<and> x @ r = y @ s"
    using eq by (intro code32.prefix_free) (simp_all add: len_bytes_def)
  moreover from this have "unat (word_of_nat (length x) :: u32) = unat (word_of_nat (length y) :: u32)"
    by simp
  then have "length x = length y"
    using len unfolding unat_of_nat by simp
  ultimately show "x = y \<and> r = s" by simp
qed

section \<open>Randomness\<close>

text \<open>
  \<open>getrandom::fill\<close> is the operating system's generator. Its outcomes are an input of the
  model: a list of results, one per call, where \<open>None\<close> is a refusal. A call fills an array of
  exactly \<open>n\<close> bytes; a call after the end of the list is refused.
\<close>

type_synonym entropy = "bytes option list"

fun random_bytes :: "nat \<Rightarrow> entropy \<Rightarrow> bytes option \<times> entropy" where
  "random_bytes n [] = (None, [])"
| "random_bytes n (None # es) = (None, es)"
| "random_bytes n (Some b # es) = (Some (take n (b @ replicate n 0)), es)"

lemma random_bytes_length: "random_bytes n es = (Some b, es') \<Longrightarrow> length b = n"
  by (cases "(n, es)" rule: random_bytes.cases) auto

end
