(* ===== verification/Outbound.thy ===== *)
theory Outbound
  imports Prelude
begin

text \<open>
  The bounded outgoing queue of a connection (\<open>chat/outbound.rs\<close>). \<open>bounded_fifo\<close> is the contract
  of a queue that refuses rather than drops: what comes out is what went in, in order, and a
  refused item changes nothing.
\<close>

record 'a outbound_queue =
  oq_capacity :: nat
  oq_items :: "'a list"

definition outbound_new :: "nat \<Rightarrow> 'a outbound_queue" where
  "outbound_new c = \<lparr>oq_capacity = c, oq_items = []\<rparr>"

definition outbound_len :: "'a outbound_queue \<Rightarrow> nat" where
  "outbound_len q = length (oq_items q)"

definition outbound_is_empty :: "'a outbound_queue \<Rightarrow> bool" where
  "outbound_is_empty q \<longleftrightarrow> oq_items q = []"

definition outbound_is_full :: "'a outbound_queue \<Rightarrow> bool" where
  "outbound_is_full q \<longleftrightarrow> length (oq_items q) \<ge> oq_capacity q"

datatype queue_full = QueueFull

definition outbound_push :: "'a outbound_queue \<Rightarrow> 'a \<Rightarrow> (queue_full + unit) \<times> 'a outbound_queue" where
  "outbound_push q x =
     (if outbound_is_full q then (Inl QueueFull, q) else (Inr (), q\<lparr>oq_items := oq_items q @ [x]\<rparr>))"

definition outbound_pop :: "'a outbound_queue \<Rightarrow> 'a option \<times> 'a outbound_queue" where
  "outbound_pop q =
     (case oq_items q of [] \<Rightarrow> (None, q) | x # xs \<Rightarrow> (Some x, q\<lparr>oq_items := xs\<rparr>))"

text \<open>A user's sequence of operations: \<open>Some x\<close> pushes, \<open>None\<close> pops.\<close>

fun queue_run :: "('q \<Rightarrow> 'a \<Rightarrow> ('f + unit) \<times> 'q) \<Rightarrow> ('q \<Rightarrow> 'a option \<times> 'q) \<Rightarrow>
    'a option list \<Rightarrow> 'q \<Rightarrow> 'a list \<times> 'a list \<times> 'q" where
  "queue_run push pop [] q = ([], [], q)"
| "queue_run push pop (Some x # ops) q =
     (case push q x of (r, q') \<Rightarrow>
        (case queue_run push pop ops q' of (taken, out, q'') \<Rightarrow>
           (case r of Inl _ \<Rightarrow> (taken, out, q'') | Inr _ \<Rightarrow> (x # taken, out, q''))))"
| "queue_run push pop (None # ops) q =
     (case pop q of (r, q') \<Rightarrow>
        (case queue_run push pop ops q' of (taken, out, q'') \<Rightarrow>
           (case r of None \<Rightarrow> (taken, out, q'') | Some x \<Rightarrow> (taken, x # out, q''))))"

locale bounded_fifo =
  fixes push :: "'q \<Rightarrow> 'a \<Rightarrow> ('f + unit) \<times> 'q"
    and pop :: "'q \<Rightarrow> 'a option \<times> 'q"
    and content :: "'q \<Rightarrow> 'a list"
    and capacity :: "'q \<Rightarrow> nat"
  assumes push_ok: "length (content q) < capacity q \<Longrightarrow>
      \<exists>q'. push q x = (Inr (), q') \<and> content q' = content q @ [x] \<and> capacity q' = capacity q"
    and push_full: "capacity q \<le> length (content q) \<Longrightarrow> \<exists>f. push q x = (Inl f, q)"
    and pop_empty: "content q = [] \<Longrightarrow> pop q = (None, q)"
    and pop_first: "content q = x # xs \<Longrightarrow>
      \<exists>q'. pop q = (Some x, q') \<and> content q' = xs \<and> capacity q' = capacity q"
begin

lemma run_fifo:
  "queue_run push pop ops q = (taken, out, q') \<Longrightarrow> content q @ taken = out @ content q'"
proof (induction ops arbitrary: q taken out)
  case Nil
  then show ?case by simp
next
  case (Cons op ops)
  show ?case
  proof (cases op)
    case None
    show ?thesis
    proof (cases "content q")
      case Nil
      then show ?thesis using Cons.prems Cons.IH [of q] None pop_empty [of q] by (auto split: prod.splits)
    next
      case (Cons x xs)
      then obtain q1 where "pop q = (Some x, q1)" "content q1 = xs" using pop_first by blast
      with Cons.prems Cons.IH Cons None show ?thesis by (fastforce split: prod.splits)
    qed
  next
    case (Some x)
    show ?thesis
    proof (cases "length (content q) < capacity q")
      case True
      then obtain q1 where "push q x = (Inr (), q1)" "content q1 = content q @ [x]"
        using push_ok by blast
      with Cons.prems Cons.IH [of q1] Some show ?thesis by (auto split: prod.splits)
    next
      case False
      then obtain f where "push q x = (Inl f, q)" using push_full [of q x] by auto
      with Cons.prems Cons.IH [of q] Some show ?thesis by (auto split: prod.splits)
    qed
  qed
qed

lemma run_bounded:
  "queue_run push pop ops q = (taken, out, q') \<Longrightarrow> length (content q) \<le> capacity q \<Longrightarrow>
   length (content q') \<le> capacity q' \<and> capacity q' = capacity q"
proof (induction ops arbitrary: q taken out)
  case Nil
  then show ?case by simp
next
  case (Cons op ops)
  show ?case
  proof (cases op)
    case None
    show ?thesis
    proof (cases "content q")
      case Nil
      then show ?thesis using Cons.prems Cons.IH [of q] None pop_empty [of q] by (auto split: prod.splits)
    next
      case (Cons x xs)
      then obtain q1 where "pop q = (Some x, q1)" "content q1 = xs" "capacity q1 = capacity q"
        using pop_first by blast
      with Cons.prems Cons.IH [of q1] Cons None show ?thesis by (auto split: prod.splits)
    qed
  next
    case (Some x)
    show ?thesis
    proof (cases "length (content q) < capacity q")
      case True
      then obtain q1 where "push q x = (Inr (), q1)" "content q1 = content q @ [x]"
        "capacity q1 = capacity q"
        using push_ok by blast
      with Cons.prems Cons.IH [of q1] True Some show ?thesis by (auto split: prod.splits)
    next
      case False
      then obtain f where "push q x = (Inl f, q)" using push_full [of q x] by auto
      with Cons.prems Cons.IH [of q] Some show ?thesis by (auto split: prod.splits)
    qed
  qed
qed

end

interpretation outbound: bounded_fifo outbound_push outbound_pop oq_items oq_capacity
  by unfold_locales (auto simp: outbound_push_def outbound_pop_def outbound_is_full_def)

text \<open>
  An outbound queue never drops, duplicates or reorders: after any sequence of pushes and
  pops on a new queue, the items popped followed by those still queued are exactly the accepted
  items in order, and no more than the capacity is ever held.
\<close>

theorem outbound_never_drops:
  "case queue_run outbound_push outbound_pop ops (outbound_new c) of
     (accepted, popped, q) \<Rightarrow>
       accepted = popped @ oq_items q \<and> outbound_len q \<le> c"
proof -
  obtain accepted popped q where run: "queue_run outbound_push outbound_pop ops (outbound_new c) = (accepted, popped, q)"
    by (metis prod_cases3)
  from outbound.run_fifo [OF run] outbound.run_bounded [OF run] run show ?thesis
    by (simp add: outbound_new_def outbound_len_def)
qed

end
