(* ===== verification/RoomLimits.thy ===== *)
theory RoomLimits
  imports Prelude
begin

text \<open>
  The protocol constants (\<open>constants.rs\<close>), the resource limits and per-state timeouts
  (\<open>limits.rs\<close>) and the validation errors (\<open>error.rs\<close>). The limits are one record with the
  source's fields; \<open>validate_limits\<close> is \<open>Limits::validate\<close>.
\<close>

section \<open>Constants\<close>

definition PROTOCOL_MAJOR_VERSION :: u8 where "PROTOCOL_MAJOR_VERSION = 1"
definition MIN_TOKEN_BYTES :: nat where "MIN_TOKEN_BYTES = 16"
definition MAX_TOKEN_BYTES :: nat where "MAX_TOKEN_BYTES = 32"
definition NONCE_LEN :: nat where "NONCE_LEN = 16"
definition SALT_LEN :: nat where "SALT_LEN = 16"
definition ROOM_SESSION_ID_LEN :: nat where "ROOM_SESSION_ID_LEN = 32"
definition ED25519_PUBKEY_LEN :: nat where "ED25519_PUBKEY_LEN = 32"
definition ED25519_SIGNATURE_LEN :: nat where "ED25519_SIGNATURE_LEN = 64"
definition X25519_PUBKEY_LEN :: nat where "X25519_PUBKEY_LEN = 32"
definition HMAC_LEN :: nat where "HMAC_LEN = 32"
definition XCHACHA_NONCE_LEN :: nat where "XCHACHA_NONCE_LEN = 24"
definition XCHACHA_TAG_LEN :: nat where "XCHACHA_TAG_LEN = 16"
definition EPOCH_KEY_LEN :: nat where "EPOCH_KEY_LEN = 32"
definition EPOCH_WRAP_CIPHERTEXT_LEN :: nat where
  "EPOCH_WRAP_CIPHERTEXT_LEN = EPOCH_KEY_LEN + XCHACHA_TAG_LEN"
definition CHAT_MIN_CIPHERTEXT_LEN :: nat where
  "CHAT_MIN_CIPHERTEXT_LEN = 1 + XCHACHA_TAG_LEN"
definition CHAT_MAX_CIPHERTEXT_LEN :: nat where
  "CHAT_MAX_CIPHERTEXT_LEN = 4096 + XCHACHA_TAG_LEN"
definition ARGON2_M_COST :: u32 where "ARGON2_M_COST = 19 * 1024"
definition ARGON2_T_COST :: u32 where "ARGON2_T_COST = 2"
definition ARGON2_P_COST :: u8 where "ARGON2_P_COST = 1"

lemmas length_constants =
  NONCE_LEN_def SALT_LEN_def ROOM_SESSION_ID_LEN_def ED25519_PUBKEY_LEN_def
  ED25519_SIGNATURE_LEN_def X25519_PUBKEY_LEN_def HMAC_LEN_def XCHACHA_NONCE_LEN_def
  XCHACHA_TAG_LEN_def EPOCH_KEY_LEN_def EPOCH_WRAP_CIPHERTEXT_LEN_def
  CHAT_MIN_CIPHERTEXT_LEN_def CHAT_MAX_CIPHERTEXT_LEN_def

section \<open>Timeout kinds and limits\<close>

datatype timeout_kind =
    TK_ProtocolHandshake
  | TK_TokenValidation
  | TK_PasswordVerification
  | TK_JoinFormSubmission
  | TK_HostDecision
  | TK_EpochAcknowledgement
  | TK_Keepalive
  | TK_GracefulShutdown

record limits =
  max_active_members :: nat
  max_pending_requests :: nat
  max_pre_auth_connections :: nat
  max_frame_size :: nat
  max_chat_text_bytes :: nat
  max_nickname_scalars :: nat
  max_intro_scalars :: nat
  max_cbor_nesting_depth :: nat
  max_cbor_map_entries :: nat
  max_cbor_array_entries :: nat
  max_cbor_text_bytes :: nat
  max_cbor_bytes_len :: nat

definition default_limits :: limits where
  "default_limits =
     \<lparr>max_active_members = 16, max_pending_requests = 8, max_pre_auth_connections = 16,
      max_frame_size = 16 * 1024, max_chat_text_bytes = 4096, max_nickname_scalars = 32,
      max_intro_scalars = 160, max_cbor_nesting_depth = 8, max_cbor_map_entries = 64,
      max_cbor_array_entries = 256, max_cbor_text_bytes = 4096, max_cbor_bytes_len = 4096\<rparr>"

definition with_max_active_members :: "nat \<Rightarrow> limits" where
  "with_max_active_members n = default_limits\<lparr>max_active_members := n\<rparr>"

text \<open>\<open>InvalidLimits\<close> carries the description of the first violated rule.\<close>

definition validate_limits :: "limits \<Rightarrow> rstring + unit" where
  "validate_limits l =
     (if max_active_members l = 0 then
        Inl (rs ''max_active_members must be greater than zero'')
      else if max_pending_requests l = 0 then
        Inl (rs ''max_pending_requests must be greater than zero'')
      else if max_pre_auth_connections l = 0 then
        Inl (rs ''max_pre_auth_connections must be greater than zero'')
      else if max_frame_size l = 0 then
        Inl (rs ''max_frame_size must be greater than zero'')
      else if max_chat_text_bytes l = 0 then
        Inl (rs ''max_chat_text_bytes must be greater than zero'')
      else if max_nickname_scalars l = 0 then
        Inl (rs ''max_nickname_scalars must be greater than zero'')
      else if max_intro_scalars l = 0 then
        Inl (rs ''max_intro_scalars must be greater than zero'')
      else if max_frame_size l < max_chat_text_bytes l then
        Inl (rs ''max_frame_size must be at least max_chat_text_bytes'')
      else if max_cbor_nesting_depth l = 0 then
        Inl (rs ''max_cbor_nesting_depth must be greater than zero'')
      else if max_cbor_map_entries l = 0 then
        Inl (rs ''max_cbor_map_entries must be greater than zero'')
      else if max_cbor_array_entries l = 0 then
        Inl (rs ''max_cbor_array_entries must be greater than zero'')
      else if max_cbor_text_bytes l = 0 then
        Inl (rs ''max_cbor_text_bytes must be greater than zero'')
      else if max_cbor_bytes_len l = 0 then
        Inl (rs ''max_cbor_bytes_len must be greater than zero'')
      else Inr ())"

record timeouts =
  t_protocol_handshake :: duration
  t_token_validation :: duration
  t_password_verification :: duration
  t_join_form_submission :: duration
  t_host_decision :: duration
  t_epoch_acknowledgement :: duration
  t_keepalive_interval :: duration
  t_graceful_shutdown :: duration

definition default_timeouts :: timeouts where
  "default_timeouts =
     \<lparr>t_protocol_handshake = secs 30, t_token_validation = secs 30,
      t_password_verification = secs 60, t_join_form_submission = secs 120,
      t_host_decision = secs 300, t_epoch_acknowledgement = secs 30,
      t_keepalive_interval = secs 30, t_graceful_shutdown = secs 10\<rparr>"

fun timeouts_get :: "timeouts \<Rightarrow> timeout_kind \<Rightarrow> duration" where
  "timeouts_get t TK_ProtocolHandshake = t_protocol_handshake t"
| "timeouts_get t TK_TokenValidation = t_token_validation t"
| "timeouts_get t TK_PasswordVerification = t_password_verification t"
| "timeouts_get t TK_JoinFormSubmission = t_join_form_submission t"
| "timeouts_get t TK_HostDecision = t_host_decision t"
| "timeouts_get t TK_EpochAcknowledgement = t_epoch_acknowledgement t"
| "timeouts_get t TK_Keepalive = t_keepalive_interval t"
| "timeouts_get t TK_GracefulShutdown = t_graceful_shutdown t"

lemma default_limits_valid: "validate_limits default_limits = Inr ()"
  by (simp add: validate_limits_def default_limits_def)

section \<open>Validation errors\<close>

datatype validation_error =
    EmptyNickname
  | ControlCharacterNotAllowed
  | NicknameTooLong nat
  | ExoticWhitespaceNotAllowed
  | NotSingleLine
  | IntroTooLong nat
  | ChatTextTooLong nat

text \<open>Their \<open>Display\<close> texts (the \<open>#[error]\<close> attributes).\<close>

fun validation_error_text :: "validation_error \<Rightarrow> rstring" where
  "validation_error_text EmptyNickname = rs ''nickname must not be empty''"
| "validation_error_text ControlCharacterNotAllowed =
     rs ''input contains control characters or ANSI escape sequences''"
| "validation_error_text (NicknameTooLong n) =
     rs ''nickname exceeds the limit of '' @ dec n @ rs '' Unicode scalar values''"
| "validation_error_text ExoticWhitespaceNotAllowed =
     rs ''nickname must not contain whitespace other than a plain space''"
| "validation_error_text NotSingleLine = rs ''introduction must be a single line''"
| "validation_error_text (IntroTooLong n) =
     rs ''introduction exceeds the limit of '' @ dec n @ rs '' Unicode scalar values''"
| "validation_error_text (ChatTextTooLong n) =
     rs ''chat message exceeds the limit of '' @ dec n @ rs '' UTF-8 bytes''"

end
