(* ===== verification/Validation.thy ===== *)
theory Validation
  imports RoomLimits
begin

text \<open>
  \<open>validation.rs\<close> and \<open>ui/sanitize.rs\<close>: which characters may reach the wire or the terminal,
  and the checks on nicknames, introductions and chat text. NFC normalization is the
  \<open>unicode-normalization\<close> crate: a parameter \<open>nfc\<close>. \<open>char::is_control\<close> and
  \<open>char::is_whitespace\<close> are the standard library's: the general category \<open>Cc\<close> and the
  property \<open>White_Space\<close>.
\<close>

definition char_is_control :: "nat \<Rightarrow> bool" where
  "char_is_control c \<longleftrightarrow> c \<le> 0x1F \<or> (0x7F \<le> c \<and> c \<le> 0x9F)"

definition char_is_whitespace :: "nat \<Rightarrow> bool" where
  "char_is_whitespace c \<longleftrightarrow>
     (0x09 \<le> c \<and> c \<le> 0x0D) \<or> c = 0x20 \<or> c = 0x85 \<or> c = 0xA0 \<or> c = 0x1680 \<or>
     (0x2000 \<le> c \<and> c \<le> 0x200A) \<or> c = 0x2028 \<or> c = 0x2029 \<or> c = 0x202F \<or> c = 0x205F \<or>
     c = 0x3000"

definition is_dangerous_format_char :: "nat \<Rightarrow> bool" where
  "is_dangerous_format_char c \<longleftrightarrow>
     (0x200B \<le> c \<and> c \<le> 0x200F) \<or> (0x202A \<le> c \<and> c \<le> 0x202E) \<or>
     (0x2060 \<le> c \<and> c \<le> 0x2064) \<or> (0x2066 \<le> c \<and> c \<le> 0x2069) \<or> c = 0xFEFF"

definition is_unsafe_display_char :: "nat \<Rightarrow> bool" where
  "is_unsafe_display_char c \<longleftrightarrow> char_is_control c \<or> is_dangerous_format_char c"

definition contains_control_char :: "rstring \<Rightarrow> bool" where
  "contains_control_char s \<longleftrightarrow> list_ex is_unsafe_display_char s"

text \<open>
  \<open>collapse_spaces\<close>: the words between single spaces (\<open>split(' ')\<close>), the empty ones dropped,
  joined by one space.
\<close>

fun split_on :: "nat \<Rightarrow> rstring \<Rightarrow> rstring list" where
  "split_on d [] = [[]]"
| "split_on d (c # s) =
     (if c = d then [] # split_on d s
      else case split_on d s of [] \<Rightarrow> [[c]] | w # ws \<Rightarrow> (c # w) # ws)"

definition push_word :: "rstring \<Rightarrow> rstring \<Rightarrow> rstring" where
  "push_word out w = (if out \<noteq> [] then out @ [0x20] else out) @ w"

definition collapse_spaces :: "rstring \<Rightarrow> rstring" where
  "collapse_spaces s = foldl push_word [] (filter (\<lambda>w. w \<noteq> []) (split_on 0x20 s))"

definition validate_nickname ::
  "(rstring \<Rightarrow> rstring) \<Rightarrow> rstring \<Rightarrow> limits \<Rightarrow> validation_error + rstring" where
  "validate_nickname nfc s l =
     (if s = [] then Inl EmptyNickname
      else
        let composed = nfc s
        in if contains_control_char composed then Inl ControlCharacterNotAllowed
           else if list_ex (\<lambda>c. char_is_whitespace c \<and> c \<noteq> 0x20) composed then
             Inl ExoticWhitespaceNotAllowed
           else
             let normalized = collapse_spaces composed
             in if normalized = [] then Inl EmptyNickname
                else if length normalized > max_nickname_scalars l then
                  Inl (NicknameTooLong (max_nickname_scalars l))
                else Inr normalized)"

definition validate_intro :: "rstring \<Rightarrow> limits \<Rightarrow> validation_error + unit" where
  "validate_intro s l =
     (if s = [] then Inr ()
      else if list_ex (\<lambda>c. c = 0x0A \<or> c = 0x0D) s then Inl NotSingleLine
      else if contains_control_char s then Inl ControlCharacterNotAllowed
      else if length s > max_intro_scalars l then Inl (IntroTooLong (max_intro_scalars l))
      else Inr ())"

definition validate_chat_text :: "rstring \<Rightarrow> limits \<Rightarrow> validation_error + unit" where
  "validate_chat_text s l =
     (if contains_control_char s then Inl ControlCharacterNotAllowed
      else if str_len s > max_chat_text_bytes l then
        Inl (ChatTextTooLong (max_chat_text_bytes l))
      else Inr ())"

definition sanitize_for_display :: "rstring \<Rightarrow> rstring" where
  "sanitize_for_display s =
     concat (map (\<lambda>c. if is_unsafe_display_char c
                      then (if c = 0x09 \<or> c = 0x0A \<or> c = 0x0D then [0x20] else [])
                      else [c]) s)"

section \<open>Collapsing spaces\<close>

text \<open>
  A word list has no empty word and no space in a word; \<open>join\<close> puts one space between words.
\<close>

fun join :: "rstring list \<Rightarrow> rstring" where
  "join [] = []"
| "join [w] = w"
| "join (w # v # ws) = w @ [0x20] @ join (v # ws)"

definition words_ok :: "rstring list \<Rightarrow> bool" where
  "words_ok ws \<longleftrightarrow> (\<forall>w \<in> set ws. w \<noteq> [] \<and> 0x20 \<notin> set w)"

lemma split_on_nonempty [simp]: "split_on d s \<noteq> []"
  by (induction s) (auto split: list.splits)

lemma split_on_sep: "w \<in> set (split_on d s) \<Longrightarrow> d \<notin> set w"
  by (induction s arbitrary: w) (auto split: list.splits if_splits)

lemma split_on_chars: "w \<in> set (split_on d s) \<Longrightarrow> set w \<subseteq> set s"
proof (induction s arbitrary: w)
  case Nil
  then show ?case by simp
next
  case (Cons c s)
  then show ?case
    by (cases "split_on d s") (fastforce split: if_splits)+
qed

lemma push_word_ne: "out \<noteq> [] \<Longrightarrow> push_word out w = out @ 0x20 # w"
  by (simp add: push_word_def)

lemma foldl_push_word:
  "out \<noteq> [] \<Longrightarrow> foldl push_word out ws = (if ws = [] then out else out @ [0x20] @ join ws)"
proof (induction ws arbitrary: out)
  case Nil
  then show ?case by simp
next
  case (Cons w ws)
  have "foldl push_word out (w # ws) = foldl push_word (out @ 0x20 # w) ws"
    using Cons.prems by (simp add: push_word_ne)
  also have "\<dots> = (if ws = [] then out @ 0x20 # w else (out @ 0x20 # w) @ [0x20] @ join ws)"
    by (rule Cons.IH) simp
  finally show ?case by (cases ws) simp_all
qed

lemma foldl_push_words: "words_ok ws \<Longrightarrow> foldl push_word [] ws = join ws"
  by (cases ws) (auto simp: push_word_def words_ok_def foldl_push_word neq_Nil_conv)

lemma words_ok_split: "words_ok (filter (\<lambda>w. w \<noteq> []) (split_on 0x20 s))"
  by (auto simp: words_ok_def dest: split_on_sep)

lemma collapse_spaces_join:
  "collapse_spaces s = join (filter (\<lambda>w. w \<noteq> []) (split_on 0x20 s))"
  by (simp add: collapse_spaces_def foldl_push_words words_ok_split)

lemma split_on_word: "0x20 \<notin> set w \<Longrightarrow> split_on 0x20 (w @ 0x20 # s) = w # split_on 0x20 s"
  by (induction w) auto

lemma split_on_single: "0x20 \<notin> set w \<Longrightarrow> split_on 0x20 w = [w]"
  by (induction w) auto

lemma split_on_join: "words_ok ws \<Longrightarrow> ws \<noteq> [] \<Longrightarrow> split_on 0x20 (join ws) = ws"
  by (induction ws rule: join.induct) (auto simp: words_ok_def split_on_single split_on_word)

lemma collapse_join: "words_ok ws \<Longrightarrow> collapse_spaces (join ws) = join ws"
proof (cases "ws = []")
  case True
  then show ?thesis by (simp add: collapse_spaces_def)
next
  case False
  assume "words_ok ws"
  then have "filter (\<lambda>w. w \<noteq> []) ws = ws" by (auto simp: words_ok_def filter_id_conv)
  with False \<open>words_ok ws\<close> show ?thesis by (simp add: collapse_spaces_join split_on_join)
qed

lemma collapse_idem: "collapse_spaces (collapse_spaces s) = collapse_spaces s"
  by (simp add: collapse_spaces_join [of s] collapse_join words_ok_split)

lemma set_join: "set (join ws) \<subseteq> insert 0x20 (\<Union> (set ` set ws))"
  by (induction ws rule: join.induct) auto

lemma collapse_chars: "c \<in> set (collapse_spaces s) \<Longrightarrow> c = 0x20 \<or> c \<in> set s"
  using set_join [of "filter (\<lambda>w. w \<noteq> []) (split_on 0x20 s)"] split_on_chars
  unfolding collapse_spaces_join by fastforce

lemma list_ex_collapse:
  "\<not> list_ex P s \<Longrightarrow> \<not> P 0x20 \<Longrightarrow> \<not> list_ex P (collapse_spaces s)"
  by (auto simp: list_ex_iff dest!: collapse_chars)

section \<open>What the checks promise\<close>

lemma space_safe [simp]: "\<not> is_unsafe_display_char 0x20"
  by (simp add: is_unsafe_display_char_def char_is_control_def is_dangerous_format_char_def)

lemma validate_nickname_parts:
  assumes "validate_nickname nfc s l = Inr n"
  shows "n = collapse_spaces (nfc s)" "n \<noteq> []" "length n \<le> max_nickname_scalars l"
    "\<not> contains_control_char n" "\<not> list_ex (\<lambda>c. char_is_whitespace c \<and> c \<noteq> 0x20) n"
  using assms list_ex_collapse [of _ "nfc s"]
  by (auto simp: validate_nickname_def Let_def contains_control_char_def split: if_splits)

lemma validate_nickname_again:
  assumes "validate_nickname nfc s l = Inr n" and "nfc n = n"
  shows "validate_nickname nfc n l = Inr n"
proof -
  note p = validate_nickname_parts [OF assms(1)]
  have "collapse_spaces n = n" by (simp add: p(1) collapse_idem)
  then show ?thesis using p(2-) assms(2) by (simp add: validate_nickname_def Let_def)
qed

text \<open>
  Two nicknames that differ only in spaces are the same identity: an accepted nickname is
  trimmed and has no two spaces in a row, holds no control, spoofing or exotic whitespace
  character, respects the limit, and is accepted unchanged when it is presented again (\<open>nfc\<close> is
  only required to fix the normalized text).
\<close>

theorem validate_nickname_canonical:
  assumes "validate_nickname nfc s l = Inr n" and "nfc n = n"
  shows "validate_nickname nfc n l = Inr n \<and> n \<noteq> [] \<and> length n \<le> max_nickname_scalars l \<and>
     \<not> contains_control_char n \<and> (\<forall>c \<in> set n. char_is_whitespace c \<longrightarrow> c = 0x20) \<and>
     (\<exists>ws. ws \<noteq> [] \<and> words_ok ws \<and> n = join ws)"
proof -
  note p = validate_nickname_parts [OF assms(1)]
  let ?ws = "filter (\<lambda>w. w \<noteq> []) (split_on 0x20 (nfc s))"
  have "n = join ?ws" by (simp add: p(1) collapse_spaces_join)
  moreover have "?ws \<noteq> []" using \<open>n = join ?ws\<close> p(2) by auto
  ultimately show ?thesis
    using p(2-) validate_nickname_again [OF assms] words_ok_split by (fastforce simp: list_ex_iff)
qed

lemma validate_nickname_canonical_witness:
  "validate_nickname id (rs ''  de  niz '') default_limits = Inr (rs ''de niz'') \<and>
   validate_nickname id (rs ''de niz'') default_limits = Inr (rs ''de niz'')"
proof -
  have h: "validate_nickname id (rs ''  de  niz '') default_limits = Inr (rs ''de niz'')"
    by (simp add: rs_def validate_nickname_def Let_def contains_control_char_def
        is_unsafe_display_char_def char_is_control_def is_dangerous_format_char_def
        char_is_whitespace_def collapse_spaces_def push_word_def default_limits_def)
  show ?thesis using h validate_nickname_canonical [OF h] by simp
qed

text \<open>Sanitized text is safe, and safe text is unchanged.\<close>

lemma sanitize_safe: "\<not> contains_control_char (sanitize_for_display s)"
  by (induction s) (auto simp: sanitize_for_display_def contains_control_char_def)

lemma sanitize_id: "\<not> contains_control_char s \<Longrightarrow> sanitize_for_display s = s"
  by (induction s) (auto simp: sanitize_for_display_def contains_control_char_def)

text \<open>
  Whatever a peer sends, the text handed to the terminal holds no control or
  display-spoofing character; text that holds none is shown unchanged, and sanitizing twice
  changes nothing more.
\<close>

theorem sanitize_for_display_safe:
  "\<not> list_ex is_unsafe_display_char (sanitize_for_display s) \<and>
   (sanitize_for_display s = s \<longleftrightarrow> \<not> contains_control_char s) \<and>
   sanitize_for_display (sanitize_for_display s) = sanitize_for_display s"
  using sanitize_safe [of s] sanitize_id [of s] sanitize_id [of "sanitize_for_display s"]
  unfolding contains_control_char_def by metis

end
