(* ===== verification/Ids.thy ===== *)
theory Ids
  imports Prelude
begin

text \<open>
  The wire registry (\<open>protocol/ids.rs\<close>): message types with their fixed numeric ids, message
  classes and stable error codes; and the connection and room states with the table of
  acceptable message classes (\<open>state.rs\<close>).
\<close>

datatype message_type =
    MT_HostHello | MT_ClientHello | MT_TokenVerify | MT_PasswordChallenge | MT_ChallengeProof
  | MT_JoinRequest | MT_JoinAccepted | MT_JoinRejected
  | MT_MemberJoined | MT_MemberLeft | MT_MemberKicked | MT_JoinPolicyChanged | MT_MemberSnapshot
  | MT_ChatMessage | MT_ColorChange | MT_TimeoutRequest | MT_TimeoutChanged
  | MT_EpochWrap | MT_EpochAck
  | MT_Keepalive | MT_Error | MT_Shutdown

definition message_type_from_u8 :: "u8 \<Rightarrow> message_type option" where
  "message_type_from_u8 i =
     (if i = 0x01 then Some MT_HostHello
      else if i = 0x02 then Some MT_ClientHello
      else if i = 0x03 then Some MT_TokenVerify
      else if i = 0x04 then Some MT_PasswordChallenge
      else if i = 0x05 then Some MT_ChallengeProof
      else if i = 0x06 then Some MT_JoinRequest
      else if i = 0x07 then Some MT_JoinAccepted
      else if i = 0x08 then Some MT_JoinRejected
      else if i = 0x20 then Some MT_MemberJoined
      else if i = 0x21 then Some MT_MemberLeft
      else if i = 0x22 then Some MT_MemberKicked
      else if i = 0x23 then Some MT_JoinPolicyChanged
      else if i = 0x24 then Some MT_MemberSnapshot
      else if i = 0x40 then Some MT_ChatMessage
      else if i = 0x41 then Some MT_ColorChange
      else if i = 0x42 then Some MT_TimeoutRequest
      else if i = 0x43 then Some MT_TimeoutChanged
      else if i = 0x60 then Some MT_EpochWrap
      else if i = 0x61 then Some MT_EpochAck
      else if i = 0x80 then Some MT_Keepalive
      else if i = 0x81 then Some MT_Error
      else if i = 0x82 then Some MT_Shutdown
      else None)"

fun message_type_as_u8 :: "message_type \<Rightarrow> u8" where
  "message_type_as_u8 MT_HostHello = 0x01"
| "message_type_as_u8 MT_ClientHello = 0x02"
| "message_type_as_u8 MT_TokenVerify = 0x03"
| "message_type_as_u8 MT_PasswordChallenge = 0x04"
| "message_type_as_u8 MT_ChallengeProof = 0x05"
| "message_type_as_u8 MT_JoinRequest = 0x06"
| "message_type_as_u8 MT_JoinAccepted = 0x07"
| "message_type_as_u8 MT_JoinRejected = 0x08"
| "message_type_as_u8 MT_MemberJoined = 0x20"
| "message_type_as_u8 MT_MemberLeft = 0x21"
| "message_type_as_u8 MT_MemberKicked = 0x22"
| "message_type_as_u8 MT_JoinPolicyChanged = 0x23"
| "message_type_as_u8 MT_MemberSnapshot = 0x24"
| "message_type_as_u8 MT_ChatMessage = 0x40"
| "message_type_as_u8 MT_ColorChange = 0x41"
| "message_type_as_u8 MT_TimeoutRequest = 0x42"
| "message_type_as_u8 MT_TimeoutChanged = 0x43"
| "message_type_as_u8 MT_EpochWrap = 0x60"
| "message_type_as_u8 MT_EpochAck = 0x61"
| "message_type_as_u8 MT_Keepalive = 0x80"
| "message_type_as_u8 MT_Error = 0x81"
| "message_type_as_u8 MT_Shutdown = 0x82"

datatype message_class =
    MC_Handshake | MC_Authentication | MC_Join | MC_Membership | MC_Chat | MC_Epoch | MC_Control

fun message_type_class :: "message_type \<Rightarrow> message_class" where
  "message_type_class MT_HostHello = MC_Handshake"
| "message_type_class MT_ClientHello = MC_Handshake"
| "message_type_class MT_TokenVerify = MC_Authentication"
| "message_type_class MT_PasswordChallenge = MC_Authentication"
| "message_type_class MT_ChallengeProof = MC_Authentication"
| "message_type_class MT_JoinRequest = MC_Join"
| "message_type_class MT_JoinAccepted = MC_Join"
| "message_type_class MT_JoinRejected = MC_Join"
| "message_type_class MT_MemberJoined = MC_Membership"
| "message_type_class MT_MemberLeft = MC_Membership"
| "message_type_class MT_MemberKicked = MC_Membership"
| "message_type_class MT_JoinPolicyChanged = MC_Membership"
| "message_type_class MT_MemberSnapshot = MC_Membership"
| "message_type_class MT_ChatMessage = MC_Chat"
| "message_type_class MT_ColorChange = MC_Chat"
| "message_type_class MT_TimeoutRequest = MC_Chat"
| "message_type_class MT_TimeoutChanged = MC_Chat"
| "message_type_class MT_EpochWrap = MC_Epoch"
| "message_type_class MT_EpochAck = MC_Epoch"
| "message_type_class MT_Keepalive = MC_Control"
| "message_type_class MT_Error = MC_Control"
| "message_type_class MT_Shutdown = MC_Control"

datatype error_code =
    EC_ProtocolViolation | EC_UnsupportedVersion | EC_InvalidInvitation | EC_RoomLocked
  | EC_InvalidPasswordProof | EC_ConnectionTimeout | EC_RoomClosed | EC_RateLimited | EC_Internal

definition error_code_from_u8 :: "u8 \<Rightarrow> error_code option" where
  "error_code_from_u8 c =
     (if c = 1 then Some EC_ProtocolViolation
      else if c = 2 then Some EC_UnsupportedVersion
      else if c = 3 then Some EC_InvalidInvitation
      else if c = 4 then Some EC_RoomLocked
      else if c = 5 then Some EC_InvalidPasswordProof
      else if c = 6 then Some EC_ConnectionTimeout
      else if c = 7 then Some EC_RoomClosed
      else if c = 8 then Some EC_RateLimited
      else if c = 9 then Some EC_Internal
      else None)"

definition error_code_is_recoverable :: "error_code \<Rightarrow> bool" where
  "error_code_is_recoverable c \<longleftrightarrow> c = EC_RateLimited"

fun error_code_as_u8 :: "error_code \<Rightarrow> u8" where
  "error_code_as_u8 EC_ProtocolViolation = 1"
| "error_code_as_u8 EC_UnsupportedVersion = 2"
| "error_code_as_u8 EC_InvalidInvitation = 3"
| "error_code_as_u8 EC_RoomLocked = 4"
| "error_code_as_u8 EC_InvalidPasswordProof = 5"
| "error_code_as_u8 EC_ConnectionTimeout = 6"
| "error_code_as_u8 EC_RoomClosed = 7"
| "error_code_as_u8 EC_RateLimited = 8"
| "error_code_as_u8 EC_Internal = 9"

section \<open>States\<close>

datatype connection_state =
    CS_Disconnected | CS_TorConnecting | CS_ProtocolHandshake | CS_PreAuth | CS_PasswordVerified
  | CS_JoinPending | CS_Active | CS_Closing

datatype room_state =
    RS_Creating | RS_Open | RS_Locked | RS_EpochTransition | RS_InviteRotating | RS_Closing
  | RS_Destroyed

definition connection_accepts :: "connection_state \<Rightarrow> message_class \<Rightarrow> bool" where
  "connection_accepts s c =
     (case s of
        CS_ProtocolHandshake \<Rightarrow> c = MC_Handshake \<or> c = MC_Control
      | CS_PreAuth \<Rightarrow> c = MC_Authentication \<or> c = MC_Control
      | CS_PasswordVerified \<Rightarrow> c = MC_Join \<or> c = MC_Control
      | CS_JoinPending \<Rightarrow> c = MC_Control
      | CS_Active \<Rightarrow> c = MC_Membership \<or> c = MC_Chat \<or> c = MC_Epoch \<or> c = MC_Control
      | CS_Closing \<Rightarrow> c = MC_Control
      | _ \<Rightarrow> False)"

definition room_accepts_join_requests :: "room_state \<Rightarrow> bool" where
  "room_accepts_join_requests s \<longleftrightarrow> s = RS_Open"

section \<open>The registry is a bijection onto its ids\<close>

lemma message_type_roundtrip [simp]: "message_type_from_u8 (message_type_as_u8 t) = Some t"
  by (cases t) (simp_all add: message_type_from_u8_def)

lemma error_code_roundtrip [simp]: "error_code_from_u8 (error_code_as_u8 c) = Some c"
  by (cases c) (simp_all add: error_code_from_u8_def)

lemma message_type_from_u8_Some: "message_type_from_u8 i = Some t \<Longrightarrow> i = message_type_as_u8 t"
  by (auto simp: message_type_from_u8_def split: if_splits)

lemma error_code_from_u8_Some: "error_code_from_u8 i = Some c \<Longrightarrow> i = error_code_as_u8 c"
  by (auto simp: error_code_from_u8_def split: if_splits)

text \<open>
  The numeric registries are exact: an id decodes to a message type (an error code) if and
  only if it is the id of that type (code), so no two types share an id and no unregistered id
  is accepted.
\<close>

theorem registry_exact:
  "(message_type_from_u8 i = Some t \<longleftrightarrow> message_type_as_u8 t = i) \<and>
   (error_code_from_u8 i = Some c \<longleftrightarrow> error_code_as_u8 c = i)"
  by (auto dest: message_type_from_u8_Some error_code_from_u8_Some)

end
