(* ===== verification/Frame.thy ===== *)
theory Frame
  imports RoomLimits Ids
begin

text \<open>
  The length-prefixed frame codec (\<open>protocol/frame.rs\<close>). \<open>encode_frame\<close> is the writer,
  \<open>frame_decoder\<close> the reader with its buffer; \<open>frame_loop\<close> is the loop of
  \<open>FrameDecoder::feed\<close>, which takes complete frames off the front of the buffer until there is
  none left or the stream violates the protocol. The lemmas say that the reader inverts the
  writer however the stream is cut into chunks, and that its buffer stays bounded.
\<close>

definition FRAME_HEADER_LEN :: nat where "FRAME_HEADER_LEN = 8"
definition LENGTH_FIELD_LEN :: nat where "LENGTH_FIELD_LEN = 4"
definition MIN_FRAME_BODY_LEN :: nat where "MIN_FRAME_BODY_LEN = 4"

lemmas frame_constants = FRAME_HEADER_LEN_def LENGTH_FIELD_LEN_def MIN_FRAME_BODY_LEN_def

datatype frame_error =
    FrameTooLarge nat nat
  | PayloadTooLarge nat nat
  | FrameTooShort nat
  | UnexpectedEof
  | FrameUnsupportedVersion u8
  | UnknownMessageType u8
  | NonZeroFlags u16

record frame =
  frame_type :: message_type
  frame_payload :: bytes

definition encode_frame :: "message_type \<Rightarrow> bytes \<Rightarrow> limits \<Rightarrow> frame_error + bytes" where
  "encode_frame t payload l =
     (let body_len = length payload + MIN_FRAME_BODY_LEN
      in if body_len > max_frame_size l then Inl (PayloadTooLarge body_len (max_frame_size l))
         else Inr (be32 (word_of_nat body_len) @ [PROTOCOL_MAJOR_VERSION] @ [message_type_as_u8 t]
                   @ be16 0 @ payload))"

definition frame_encode :: "frame \<Rightarrow> limits \<Rightarrow> frame_error + bytes" where
  "frame_encode f l = encode_frame (frame_type f) (frame_payload f) l"

record frame_decoder =
  fd_buf :: bytes
  fd_max_frame_size :: nat

definition frame_decoder_new :: "limits \<Rightarrow> frame_decoder" where
  "frame_decoder_new l = \<lparr>fd_buf = [], fd_max_frame_size = max_frame_size l\<rparr>"

text \<open>The header checks of one complete body (version, type, flags and payload).\<close>

definition decode_frame_body :: "bytes \<Rightarrow> frame_error + frame" where
  "decode_frame_body body =
     (if body ! 0 \<noteq> PROTOCOL_MAJOR_VERSION then Inl (FrameUnsupportedVersion (body ! 0))
      else case message_type_from_u8 (body ! 1) of
             None \<Rightarrow> Inl (UnknownMessageType (body ! 1))
           | Some t \<Rightarrow>
               (let flags = word_of_nat (from_be [body ! 2, body ! 3]) :: u16
                in if flags \<noteq> 0 then Inl (NonZeroFlags flags)
                   else Inr \<lparr>frame_type = t, frame_payload = drop 4 body\<rparr>))"

function frame_loop :: "nat \<Rightarrow> bytes \<Rightarrow> frame list \<Rightarrow> (frame_error + frame list) \<times> bytes" where
  "frame_loop m buf frames =
     (if length buf < FRAME_HEADER_LEN then (Inr frames, buf)
      else
        let declared = from_be (take 4 buf)
        in if declared > m then (Inl (FrameTooLarge declared m), buf)
           else if declared < MIN_FRAME_BODY_LEN then (Inl (FrameTooShort MIN_FRAME_BODY_LEN), buf)
           else if length buf < LENGTH_FIELD_LEN + declared then (Inr frames, buf)
           else
             case decode_frame_body (take declared (drop LENGTH_FIELD_LEN buf)) of
               Inl e \<Rightarrow> (Inl e, buf)
             | Inr f \<Rightarrow> frame_loop m (drop (LENGTH_FIELD_LEN + declared) buf) (frames @ [f]))"
  by pat_completeness auto
termination
  by (relation "measure (\<lambda>(m, buf, frames). length buf)") (auto simp: frame_constants)

declare frame_loop.simps [simp del]

definition feed :: "frame_decoder \<Rightarrow> bytes \<Rightarrow> (frame_error + frame list) \<times> frame_decoder" where
  "feed d chunk =
     (case frame_loop (fd_max_frame_size d) (fd_buf d @ chunk) [] of
        (r, buf) \<Rightarrow> (r, d\<lparr>fd_buf := buf\<rparr>))"

definition decoder_finish :: "frame_decoder \<Rightarrow> frame_error + unit" where
  "decoder_finish d = (if fd_buf d = [] then Inr () else Inl UnexpectedEof)"

text \<open>
  The reading loop of a connection: chunks in order, stopping at the first error, which is
  terminal.
\<close>

fun feed_all :: "frame_decoder \<Rightarrow> bytes list \<Rightarrow> (frame_error + frame list) \<times> frame_decoder" where
  "feed_all d [] = (Inr [], d)"
| "feed_all d (c # cs) =
     tryS (feed d c) (\<lambda>fs d'. tryS (feed_all d' cs) (\<lambda>gs d''. (Inr (fs @ gs), d'')))"

section \<open>The loop\<close>

text \<open>The frames found so far are only a prefix of the result.\<close>

definition prepend :: "frame list \<Rightarrow> (frame_error + frame list) \<times> bytes \<Rightarrow>
    (frame_error + frame list) \<times> bytes" where
  "prepend fs r = (case r of (Inl e, b) \<Rightarrow> (Inl e, b) | (Inr gs, b) \<Rightarrow> (Inr (fs @ gs), b))"

lemma prepend_simps [simp]:
  "prepend fs (Inl e, b) = (Inl e, b)" "prepend fs (Inr gs, b) = (Inr (fs @ gs), b)"
  "prepend [] r = r" "prepend fs (prepend gs r) = prepend (fs @ gs) r"
  by (auto simp: prepend_def split: prod.splits sum.splits)

lemma frame_loop_acc: "frame_loop m buf fs = prepend fs (frame_loop m buf [])"
proof (induction "length buf" arbitrary: buf fs rule: less_induct)
  case less
  show ?case
  proof (cases "length buf < FRAME_HEADER_LEN \<or> length buf < LENGTH_FIELD_LEN + from_be (take 4 buf)")
    case True
    then show ?thesis
      by (auto simp: frame_loop.simps [of m buf] Let_def split: sum.splits)
  next
    case False
    let ?rest = "drop (LENGTH_FIELD_LEN + from_be (take 4 buf)) buf"
    have "length ?rest < length buf" using False by (auto simp: frame_constants)
    from less [OF this] have "frame_loop m ?rest (fs @ [f]) = prepend fs (frame_loop m ?rest [f])" for f
      by (metis prepend_simps(4))
    with False show ?thesis
      by (simp add: frame_loop.simps [of m buf] Let_def split: sum.splits)
  qed
qed

text \<open>
  More input behind the buffer changes nothing about the frames already complete, and a
  violation found once is found again.
\<close>

lemma frame_loop_append:
  "frame_loop m (buf @ tl_in) [] =
     (case frame_loop m buf [] of
        (Inl e, b) \<Rightarrow> (Inl e, b @ tl_in)
      | (Inr fs, b) \<Rightarrow> prepend fs (frame_loop m (b @ tl_in) []))"
proof (induction "length buf" arbitrary: buf rule: less_induct)
  case less
  let ?d = "from_be (take 4 buf)"
  show ?case
  proof (cases "length buf < FRAME_HEADER_LEN")
    case True
    then show ?thesis by (simp add: frame_loop.simps [of m buf])
  next
    case False
    then have t4: "take 4 (buf @ tl_in) = take 4 buf" and long: "\<not> length (buf @ tl_in) < FRAME_HEADER_LEN"
      by (auto simp: frame_constants)
    consider (bad) "?d > m \<or> ?d < MIN_FRAME_BODY_LEN"
      | (part) "\<not> ?d > m" "\<not> ?d < MIN_FRAME_BODY_LEN" "length buf < LENGTH_FIELD_LEN + ?d"
      | (full) "\<not> ?d > m" "\<not> ?d < MIN_FRAME_BODY_LEN" "\<not> length buf < LENGTH_FIELD_LEN + ?d"
      by blast
    then show ?thesis
    proof cases
      case bad
      then show ?thesis
        using False long t4
        by (auto simp: frame_loop.simps [of m "buf @ tl_in"] frame_loop.simps [of m buf] Let_def
            simp del: take_append drop_append)
    next
      case part
      then show ?thesis
        using False by (simp add: frame_loop.simps [of m buf] Let_def)
    next
      case full
      let ?rest = "drop (LENGTH_FIELD_LEN + ?d) buf" and ?body = "take ?d (drop LENGTH_FIELD_LEN buf)"
      have body: "take ?d (drop LENGTH_FIELD_LEN (buf @ tl_in)) = ?body"
        and rest: "drop (LENGTH_FIELD_LEN + ?d) (buf @ tl_in) = ?rest @ tl_in"
        using full False by (auto simp: frame_constants)
      have "length ?rest < length buf" using False by (auto simp: frame_constants)
      note IH = less [OF this]
      show ?thesis
      proof (cases "decode_frame_body ?body")
        case (Inl e)
        then show ?thesis
          using full False long t4 body
          by (simp add: frame_loop.simps [of m "buf @ tl_in"] frame_loop.simps [of m buf] Let_def
              del: take_append drop_append)
      next
        case (Inr f)
        then have "frame_loop m (buf @ tl_in) [] = prepend [f] (frame_loop m (?rest @ tl_in) [])"
          "frame_loop m buf [] = prepend [f] (frame_loop m ?rest [])"
          using full False long t4 body rest
          by (simp_all add: frame_loop.simps [of m "buf @ tl_in"] frame_loop.simps [of m buf] Let_def
              frame_loop_acc [of m _ "[f]"] del: take_append drop_append)
        with IH show ?thesis
          by (auto split: prod.splits sum.splits)
      qed
    qed
  qed
qed

text \<open>What is left in the buffer is at most one incomplete frame.\<close>

lemma frame_loop_rest:
  "frame_loop m buf fs = (Inr gs, b) \<Longrightarrow>
   length b < FRAME_HEADER_LEN \<or> length b < LENGTH_FIELD_LEN + m"
proof (induction "length buf" arbitrary: buf fs rule: less_induct)
  case less
  show ?case
  proof (cases "length buf < FRAME_HEADER_LEN \<or> length buf < LENGTH_FIELD_LEN + from_be (take 4 buf)")
    case True
    with less.prems show ?thesis
      by (auto simp: frame_loop.simps [of m buf] Let_def split: if_splits sum.splits)
  next
    case False
    then have "length (drop (LENGTH_FIELD_LEN + from_be (take 4 buf)) buf) < length buf"
      by (auto simp: frame_constants)
    from less.hyps [OF this] less.prems False show ?thesis
      by (auto simp: frame_loop.simps [of m buf fs] Let_def split: if_splits sum.splits)
  qed
qed

section \<open>Chunks\<close>

lemma feed_max [simp]: "feed d c = (r, d') \<Longrightarrow> fd_max_frame_size d' = fd_max_frame_size d"
  by (auto simp: feed_def split: prod.splits)

text \<open>
  Feeding a stream in one piece or in two gives the same frames, the same buffer and the same
  error: where the network cuts the stream is invisible.
\<close>

theorem feed_append:
  "feed d (a @ b) =
     (case feed d a of
        (Inl e, d') \<Rightarrow> (Inl e, d'\<lparr>fd_buf := fd_buf d' @ b\<rparr>)
      | (Inr fs, d') \<Rightarrow> tryS (feed d' b) (\<lambda>gs d''. (Inr (fs @ gs), d'')))"
proof -
  obtain r b1 where 1: "frame_loop (fd_max_frame_size d) (fd_buf d @ a) [] = (r, b1)"
    by (metis surj_pair)
  obtain r2 b2 where 2: "frame_loop (fd_max_frame_size d) (b1 @ b) [] = (r2, b2)"
    by (metis surj_pair)
  from 1 2 show ?thesis
    using frame_loop_append [of "fd_max_frame_size d" "fd_buf d @ a" b]
    by (cases r; cases r2) (simp_all add: feed_def)
qed

text \<open>
  The decoder buffers at most one incomplete frame: after every feed that did not fail, fewer
  bytes are held than the header plus the largest body take.
\<close>

theorem feed_bounded:
  assumes "feed d chunk = (Inr fs, d')"
  shows "length (fd_buf d') < max FRAME_HEADER_LEN (LENGTH_FIELD_LEN + fd_max_frame_size d)"
proof -
  obtain r b where loop: "frame_loop (fd_max_frame_size d) (fd_buf d @ chunk) [] = (r, b)"
    by (metis surj_pair)
  with assms have "r = Inr fs" "fd_buf d' = b" by (auto simp: feed_def)
  with loop frame_loop_rest show ?thesis unfolding less_max_iff_disj by blast
qed

lemma feed_bounded_witness:
  "length (fd_buf (snd (feed (frame_decoder_new default_limits) [0, 0, 0]))) < 16388"
proof -
  have h: "feed (frame_decoder_new default_limits) [0, 0, 0] =
      (Inr [], \<lparr>fd_buf = [0, 0, 0], fd_max_frame_size = 16384\<rparr>)"
    by code_simp
  show ?thesis
    using feed_bounded [OF h] unfolding h by (simp add: frame_decoder_new_def default_limits_def frame_constants)
qed

lemma feed_all_concat:
  assumes "cs \<noteq> []" and "feed d (concat cs) = (Inr fs, d')"
  shows "feed_all d cs = (Inr fs, d')"
  using assms
proof (induction cs arbitrary: d fs)
  case Nil
  then show ?case by simp
next
  case (Cons c cs)
  from Cons.prems(2) obtain fs1 d1 fs2 where
    c: "feed d c = (Inr fs1, d1)" and rest: "feed d1 (concat cs) = (Inr fs2, d')" and fs: "fs = fs1 @ fs2"
    using feed_append [of d c "concat cs"] by (auto split: prod.splits sum.splits elim!: tryS_cases)
  show ?case
  proof (cases "cs = []")
    case True
    have "feed d c = (Inr fs, d')" using Cons.prems(2) True by simp
    then show ?thesis using True by simp
  next
    case False
    then have "feed_all d1 cs = (Inr fs2, d')" using Cons.IH [OF False rest] by simp
    with c fs show ?thesis by simp
  qed
qed

section \<open>Round trip\<close>

lemma frame_loop_encoded:
  assumes "encode_frame t p l = Inr bs" and "max_frame_size l < 2 ^ 32"
  shows "frame_loop (max_frame_size l) (bs @ tl_in) [] =
    prepend [\<lparr>frame_type = t, frame_payload = p\<rparr>] (frame_loop (max_frame_size l) tl_in [])"
proof -
  let ?n = "length p + 4"
  from assms(1) have n: "?n \<le> max_frame_size l"
    and bs: "bs = be32 (word_of_nat ?n) @ [1, message_type_as_u8 t] @ be16 0 @ p"
    by (auto simp: encode_frame_def frame_constants PROTOCOL_MAJOR_VERSION_def Let_def split: if_splits)
  have u: "unat (word_of_nat ?n :: u32) = ?n"
    using n assms(2) by (simp only: unat_of_nat) simp
  have t4: "take 4 (bs @ tl_in) = be32 (word_of_nat ?n)" by (simp add: bs)
  have z: "be16 0 = [0, 0]" by (simp add: be16_def numeral_2_eq_2)
  have body: "take ?n (drop 4 (bs @ tl_in)) = [1, message_type_as_u8 t, 0, 0] @ p"
    by (simp add: bs z numeral_eq_Suc)
  have "length bs = 4 + ?n" by (simp add: bs)
  then have rest: "drop (4 + ?n) (bs @ tl_in) = tl_in" by simp
  have "decode_frame_body ([1, message_type_as_u8 t, 0, 0] @ p) = Inr \<lparr>frame_type = t, frame_payload = p\<rparr>"
    by (simp add: decode_frame_body_def PROTOCOL_MAJOR_VERSION_def from_be_def)
  with n u t4 body rest show ?thesis
    by (simp add: frame_loop.simps [of _ "bs @ tl_in"] frame_constants Let_def
        frame_loop_acc [of _ tl_in "[_]"]) (simp add: bs)
qed

lemma frame_loop_encoded_list:
  assumes "max_frame_size l < 2 ^ 32"
  shows "list_all2 (\<lambda>f b. frame_encode f l = Inr b) fs bss \<Longrightarrow>
   frame_loop (max_frame_size l) (concat bss) [] = (Inr fs, [])"
proof (induction fs bss rule: list_all2_induct)
  case Nil
  then show ?case by (simp add: frame_loop.simps frame_constants)
next
  case (Cons f fs b bss)
  then show ?case
    using frame_loop_encoded [of "frame_type f" "frame_payload f" l b "concat bss"] assms
    by (simp add: frame_encode_def)
qed

text \<open>
  Whatever sequence of frames was encoded and however the network cuts the byte stream into
  (at least one) chunks, the decoder returns exactly those frames in order, without an error,
  and ends with an empty buffer, so \<open>finish\<close> succeeds. The frame limit must fit the 32-bit
  length field, as every valid limit of this program does.
\<close>

theorem frame_stream_roundtrip:
  assumes "max_frame_size l < 2 ^ 32"
    and "list_all2 (\<lambda>f b. frame_encode f l = Inr b) fs bss"
    and "concat chunks = concat bss" and "chunks \<noteq> []"
  shows "\<exists>d. feed_all (frame_decoder_new l) chunks = (Inr fs, d) \<and> decoder_finish d = Inr ()"
proof -
  let ?d = "(frame_decoder_new l)\<lparr>fd_buf := []\<rparr>"
  have "feed (frame_decoder_new l) (concat chunks) = (Inr fs, ?d)"
    using frame_loop_encoded_list [OF assms(1,2)] assms(3) by (simp add: feed_def frame_decoder_new_def)
  from feed_all_concat [OF assms(4) this]
  have "feed_all (frame_decoder_new l) chunks = (Inr fs, ?d)" .
  moreover have "decoder_finish ?d = Inr ()" by (simp add: decoder_finish_def)
  ultimately show ?thesis by blast
qed

lemma frame_stream_roundtrip_witness:
  "\<exists>d. feed_all (frame_decoder_new default_limits) [[0, 0, 0], [5, 1, 0x80, 0, 0, 0xA0]] =
     (Inr [\<lparr>frame_type = MT_Keepalive, frame_payload = [0xA0]\<rparr>], d) \<and> decoder_finish d = Inr ()"
proof (rule frame_stream_roundtrip)
  show "max_frame_size default_limits < 2 ^ 32" by (simp add: default_limits_def)
  show "list_all2 (\<lambda>f b. frame_encode f default_limits = Inr b)
     [\<lparr>frame_type = MT_Keepalive, frame_payload = [0xA0]\<rparr>] [[0, 0, 0, 5, 1, 0x80, 0, 0, 0xA0]]"
    by code_simp
qed simp_all

text \<open>Errors are found before the payload is waited for: an oversized length is refused at once.\<close>

lemma feed_oversized:
  assumes "length (fd_buf d @ chunk) \<ge> 8" and "from_be (take 4 (fd_buf d @ chunk)) > fd_max_frame_size d"
  shows "fst (feed d chunk) =
    Inl (FrameTooLarge (from_be (take 4 (fd_buf d @ chunk))) (fd_max_frame_size d))"
  using assms
  by (simp add: feed_def frame_loop.simps [of _ "fd_buf d @ chunk"] frame_constants Let_def)

end
