(* ===== verification/Strict.thy ===== *)
theory Strict
  imports RoomLimits
begin

text \<open>
  The strict CBOR reader (\<open>protocol/strict.rs\<close>). The token decoder underneath is the \<open>minicbor\<close>
  crate: a record \<open>cbor\<close> of functions, one per reading method, that return the value and the
  remaining input, and one per writing method. \<open>cbor_ok\<close> states the documented behaviour of the
  crate that the codecs rely on: reading what was written gives it back, whatever follows, and the
  text it returns is a Rust \<open>str\<close>, a list of Unicode scalar values.

  A decoder state is the remaining input, the nesting depth and the limits. A closure passed to
  \<open>map_entries\<close> becomes a step function on the entries read so far.
\<close>

record cbor =
  d_uint :: "bytes \<Rightarrow> rstring + (nat \<times> bytes)"
  d_str :: "bytes \<Rightarrow> rstring + (rstring \<times> bytes)"
  d_bytes :: "bytes \<Rightarrow> rstring + (bytes \<times> bytes)"
  d_bool :: "bytes \<Rightarrow> rstring + (bool \<times> bytes)"
  d_null :: "bytes \<Rightarrow> rstring + (unit \<times> bytes)"
  d_map :: "bytes \<Rightarrow> rstring + (nat option \<times> bytes)"
  d_array :: "bytes \<Rightarrow> rstring + (nat option \<times> bytes)"
  d_range :: rstring
  e_uint :: "nat \<Rightarrow> bytes"
  e_str :: "rstring \<Rightarrow> bytes"
  e_bytes :: "bytes \<Rightarrow> bytes"
  e_bool :: "bool \<Rightarrow> bytes"
  e_map :: "nat \<Rightarrow> bytes"
  e_array :: "nat \<Rightarrow> bytes"

text \<open>
  \<open>d_uint\<close> reads an unsigned integer of any width; \<open>u8\<close> to \<open>u64\<close> refuse one that does not fit
  with the crate's out-of-range error, whose text is \<open>d_range\<close>. The crate's error type is
  represented by the text it displays.
\<close>

definition cbor_ok :: "cbor \<Rightarrow> bool" where
  "cbor_ok B \<longleftrightarrow>
     (\<forall>n r. n < 2 ^ 64 \<longrightarrow> d_uint B (e_uint B n @ r) = Inr (n, r)) \<and>
     (\<forall>s r. (\<forall>c \<in> set s. scalar c) \<and> str_len s < 2 ^ 64 \<longrightarrow> d_str B (e_str B s @ r) = Inr (s, r)) \<and>
     (\<forall>b s r. d_str B b = Inr (s, r) \<longrightarrow> (\<forall>c \<in> set s. scalar c)) \<and>
     (\<forall>b r. length b < 2 ^ 64 \<longrightarrow> d_bytes B (e_bytes B b @ r) = Inr (b, r)) \<and>
     (\<forall>b r. d_bool B (e_bool B b @ r) = Inr (b, r)) \<and>
     (\<forall>n r. n < 2 ^ 64 \<longrightarrow> d_map B (e_map B n @ r) = Inr (Some n, r)) \<and>
     (\<forall>n r. n < 2 ^ 64 \<longrightarrow> d_array B (e_array B n @ r) = Inr (Some n, r))"

datatype strict_error =
    SE_Cbor rstring
  | SE_IndefiniteNotAllowed
  | SE_NestingTooDeep nat
  | SE_MapTooLarge nat nat
  | SE_ArrayTooLarge nat nat
  | SE_DuplicateMapKey u64
  | SE_TextTooLong nat nat
  | SE_BytesTooLong nat nat
  | SE_TrailingData

record strict_decoder =
  sd_inner :: bytes
  sd_depth :: nat
  sd_limits :: limits

definition strict_new :: "bytes \<Rightarrow> limits \<Rightarrow> strict_decoder" where
  "strict_new input l = \<lparr>sd_inner = input, sd_depth = 0, sd_limits = l\<rparr>"

text \<open>Reading one token moves the decoder; an error of the crate keeps the position.\<close>

definition read_token :: "(bytes \<Rightarrow> rstring + ('a \<times> bytes)) \<Rightarrow> strict_decoder \<Rightarrow>
    (strict_error + 'a) \<times> strict_decoder" where
  "read_token rd d =
     (case rd (sd_inner d) of
        Inl e \<Rightarrow> (Inl (SE_Cbor e), d)
      | Inr (x, rest) \<Rightarrow> (Inr x, d\<lparr>sd_inner := rest\<rparr>))"

definition read_uint :: "cbor \<Rightarrow> nat \<Rightarrow> strict_decoder \<Rightarrow> (strict_error + nat) \<times> strict_decoder" where
  "read_uint B m d =
     tryS (read_token (d_uint B) d)
       (\<lambda>n d'. if n \<le> m then (Inr n, d') else (Inl (SE_Cbor (d_range B)), d'))"

definition strict_u8 :: "cbor \<Rightarrow> strict_decoder \<Rightarrow> (strict_error + u8) \<times> strict_decoder" where
  "strict_u8 B d = tryS (read_uint B (2 ^ 8 - 1) d) (\<lambda>n d'. (Inr (word_of_nat n), d'))"

definition strict_u16 :: "cbor \<Rightarrow> strict_decoder \<Rightarrow> (strict_error + u16) \<times> strict_decoder" where
  "strict_u16 B d = tryS (read_uint B (2 ^ 16 - 1) d) (\<lambda>n d'. (Inr (word_of_nat n), d'))"

definition strict_u32 :: "cbor \<Rightarrow> strict_decoder \<Rightarrow> (strict_error + u32) \<times> strict_decoder" where
  "strict_u32 B d = tryS (read_uint B (2 ^ 32 - 1) d) (\<lambda>n d'. (Inr (word_of_nat n), d'))"

definition strict_u64 :: "cbor \<Rightarrow> strict_decoder \<Rightarrow> (strict_error + u64) \<times> strict_decoder" where
  "strict_u64 B d = tryS (read_uint B (2 ^ 64 - 1) d) (\<lambda>n d'. (Inr (word_of_nat n), d'))"

definition strict_str :: "cbor \<Rightarrow> strict_decoder \<Rightarrow> (strict_error + rstring) \<times> strict_decoder" where
  "strict_str B d =
     tryS (read_token (d_str B) d)
       (\<lambda>s d'. let m = max_cbor_text_bytes (sd_limits d')
               in if str_len s > m then (Inl (SE_TextTooLong (str_len s) m), d') else (Inr s, d'))"

definition strict_bytes :: "cbor \<Rightarrow> strict_decoder \<Rightarrow> (strict_error + bytes) \<times> strict_decoder" where
  "strict_bytes B d =
     tryS (read_token (d_bytes B) d)
       (\<lambda>b d'. let m = max_cbor_bytes_len (sd_limits d')
               in if length b > m then (Inl (SE_BytesTooLong (length b) m), d') else (Inr b, d'))"

definition strict_bool :: "cbor \<Rightarrow> strict_decoder \<Rightarrow> (strict_error + bool) \<times> strict_decoder" where
  "strict_bool B d = read_token (d_bool B) d"

definition strict_null :: "cbor \<Rightarrow> strict_decoder \<Rightarrow> (strict_error + unit) \<times> strict_decoder" where
  "strict_null B d = read_token (d_null B) d"

definition strict_finish :: "strict_decoder \<Rightarrow> strict_error + unit" where
  "strict_finish d = (if sd_inner d = [] then Inr () else Inl SE_TrailingData)"

datatype container_kind = CK_Map | CK_Array

definition enter_container :: "nat \<Rightarrow> nat \<Rightarrow> container_kind \<Rightarrow> strict_decoder \<Rightarrow>
    (strict_error + unit) \<times> strict_decoder" where
  "enter_container declared limit kind d =
     (if sd_depth d \<ge> max_cbor_nesting_depth (sd_limits d) then
        (Inl (SE_NestingTooDeep (max_cbor_nesting_depth (sd_limits d))), d)
      else if declared > limit then
        (Inl (case kind of CK_Map \<Rightarrow> SE_MapTooLarge declared limit
                         | CK_Array \<Rightarrow> SE_ArrayTooLarge declared limit), d)
      else (Inr (), d\<lparr>sd_depth := sd_depth d + 1\<rparr>))"

text \<open>
  The loops over the declared number of entries. \<open>wrap\<close> is \<open>E::from\<close>, \<open>acc\<close> the variables the
  closure assigns.
\<close>

fun read_map_entries :: "cbor \<Rightarrow> (strict_error \<Rightarrow> 'e) \<Rightarrow>
    (u64 \<Rightarrow> 'a \<Rightarrow> strict_decoder \<Rightarrow> ('e + 'a) \<times> strict_decoder) \<Rightarrow>
    nat \<Rightarrow> u64 list \<Rightarrow> 'a \<Rightarrow> strict_decoder \<Rightarrow> ('e + 'a) \<times> strict_decoder" where
  "read_map_entries B wrap entry 0 seen acc d = (Inr acc, d)"
| "read_map_entries B wrap entry (Suc n) seen acc d =
     (case strict_u64 B d of
        (Inl e, d1) \<Rightarrow> (Inl (wrap e), d1)
      | (Inr key, d1) \<Rightarrow>
          if key \<in> set seen then (Inl (wrap (SE_DuplicateMapKey key)), d1)
          else tryS (entry key acc d1)
                 (\<lambda>acc' d2. read_map_entries B wrap entry n (seen @ [key]) acc' d2))"

fun read_array_entries ::
    "('a \<Rightarrow> strict_decoder \<Rightarrow> ('e + 'a) \<times> strict_decoder) \<Rightarrow>
    nat \<Rightarrow> 'a \<Rightarrow> strict_decoder \<Rightarrow> ('e + 'a) \<times> strict_decoder" where
  "read_array_entries element 0 acc d = (Inr acc, d)"
| "read_array_entries element (Suc n) acc d =
     tryS (element acc d) (\<lambda>acc' d1. read_array_entries element n acc' d1)"

definition leave_container :: "('e + 'a) \<times> strict_decoder \<Rightarrow> ('e + 'a) \<times> strict_decoder" where
  "leave_container r = (fst r, (snd r)\<lparr>sd_depth := sd_depth (snd r) - 1\<rparr>)"

definition map_entries :: "cbor \<Rightarrow> (strict_error \<Rightarrow> 'e) \<Rightarrow>
    (u64 \<Rightarrow> 'a \<Rightarrow> strict_decoder \<Rightarrow> ('e + 'a) \<times> strict_decoder) \<Rightarrow>
    'a \<Rightarrow> strict_decoder \<Rightarrow> ('e + 'a) \<times> strict_decoder" where
  "map_entries B wrap entry acc d =
     (case read_token (d_map B) d of
        (Inl e, d1) \<Rightarrow> (Inl (wrap e), d1)
      | (Inr None, d1) \<Rightarrow> (Inl (wrap SE_IndefiniteNotAllowed), d1)
      | (Inr (Some declared), d1) \<Rightarrow>
          (case enter_container declared (max_cbor_map_entries (sd_limits d1)) CK_Map d1 of
             (Inl e, d2) \<Rightarrow> (Inl (wrap e), d2)
           | (Inr _, d2) \<Rightarrow>
               leave_container (read_map_entries B wrap entry declared [] acc d2)))"

definition array_entries :: "cbor \<Rightarrow> (strict_error \<Rightarrow> 'e) \<Rightarrow>
    ('a \<Rightarrow> strict_decoder \<Rightarrow> ('e + 'a) \<times> strict_decoder) \<Rightarrow>
    'a \<Rightarrow> strict_decoder \<Rightarrow> ('e + 'a) \<times> strict_decoder" where
  "array_entries B wrap element acc d =
     (case read_token (d_array B) d of
        (Inl e, d1) \<Rightarrow> (Inl (wrap e), d1)
      | (Inr None, d1) \<Rightarrow> (Inl (wrap SE_IndefiniteNotAllowed), d1)
      | (Inr (Some declared), d1) \<Rightarrow>
          (case enter_container declared (max_cbor_array_entries (sd_limits d1)) CK_Array d1 of
             (Inl e, d2) \<Rightarrow> (Inl (wrap e), d2)
           | (Inr _, d2) \<Rightarrow>
               leave_container (read_array_entries element declared acc d2)))"

end
