(* ===== verification/Wire.thy ===== *)
theory Wire
  imports Validation Ids Frame Strict
begin

text \<open>
  The typed messages (\<open>protocol/messages.rs\<close>, \<open>handshake.rs\<close>, \<open>membership.rs\<close>, \<open>epoch.rs\<close>,
  \<open>chat.rs\<close>): one record per payload with the source's fields, the sum type \<open>message\<close>, and the
  validating constructors. A fixed-size byte array is a byte list; where its length matters a
  well-formedness predicate says so. The colors (\<open>command.rs\<close>) travel as an index.
\<close>

section \<open>Colors\<close>

datatype color_choice = Red | Green | Yellow | Blue | Magenta | Cyan | White

definition color_default :: color_choice where "color_default = White"

fun color_name :: "color_choice \<Rightarrow> rstring" where
  "color_name Red = rs ''red''"
| "color_name Green = rs ''green''"
| "color_name Yellow = rs ''yellow''"
| "color_name Blue = rs ''blue''"
| "color_name Magenta = rs ''magenta''"
| "color_name Cyan = rs ''cyan''"
| "color_name White = rs ''white''"

fun color_as_index :: "color_choice \<Rightarrow> u8" where
  "color_as_index Red = 0"
| "color_as_index Green = 1"
| "color_as_index Yellow = 2"
| "color_as_index Blue = 3"
| "color_as_index Magenta = 4"
| "color_as_index Cyan = 5"
| "color_as_index White = 6"

definition color_from_index :: "u8 \<Rightarrow> color_choice option" where
  "color_from_index i =
     (if i = 0 then Some Red else if i = 1 then Some Green else if i = 2 then Some Yellow
      else if i = 3 then Some Blue else if i = 4 then Some Magenta else if i = 5 then Some Cyan
      else if i = 6 then Some White else None)"

lemma color_from_index_as_index [simp]: "color_from_index (color_as_index c) = Some c"
  by (cases c) (simp_all add: color_from_index_def)

lemma color_from_index_Some: "color_from_index i = Some c \<longleftrightarrow> i = color_as_index c"
  by (cases c) (auto simp: color_from_index_def split: if_splits)

section \<open>Errors\<close>

datatype protocol_error =
    PE_Frame frame_error
  | PE_Cbor strict_error
  | PE_UnknownField u64
  | PE_MissingField u64
  | PE_InvalidField u64 rstring
  | PE_Validation validation_error
  | PE_UnknownErrorCode u8
  | PE_InvalidReasonText
  | PE_ReasonTooLong nat nat
  | PE_UnsupportedMessage u8

section \<open>Control messages\<close>

definition MAX_ERROR_REASON_BYTES :: nat where "MAX_ERROR_REASON_BYTES = 256"
definition MAX_REJECT_REASON_BYTES :: nat where "MAX_REJECT_REASON_BYTES = 256"

record error_message =
  em_code :: error_code
  em_reason :: "rstring option"

definition validate_reason :: "rstring \<Rightarrow> protocol_error + unit" where
  "validate_reason s =
     (if str_len s > MAX_ERROR_REASON_BYTES then
        Inl (PE_ReasonTooLong (str_len s) MAX_ERROR_REASON_BYTES)
      else if contains_control_char s then Inl PE_InvalidReasonText
      else Inr ())"

definition error_message_new :: "error_code \<Rightarrow> rstring option \<Rightarrow> protocol_error + error_message" where
  "error_message_new c reason =
     (case reason of
        None \<Rightarrow> Inr \<lparr>em_code = c, em_reason = None\<rparr>
      | Some s \<Rightarrow>
          if s = [] then Inr \<lparr>em_code = c, em_reason = None\<rparr>
          else bindE (validate_reason s) (\<lambda>_. Inr \<lparr>em_code = c, em_reason = Some s\<rparr>))"

section \<open>Handshake and admission messages\<close>

record client_hello =
  ch_version :: u8
  ch_client_nonce :: bytes
  ch_features :: u32

record host_hello =
  hh_version :: u8
  hh_room_session_id :: bytes
  hh_host_ed25519_pubkey :: bytes
  hh_host_x25519_pubkey :: bytes
  hh_server_nonce :: bytes
  hh_host_signature :: bytes

record token_verify =
  tv_token :: bytes

definition token_verify_new :: "bytes \<Rightarrow> protocol_error + token_verify" where
  "token_verify_new token =
     (if \<not> (16 \<le> length token \<and> length token \<le> 32) then
        Inl (PE_InvalidField 1 (rs ''token must be 16..=32 bytes, found '' @ dec (length token)))
      else Inr \<lparr>tv_token = token\<rparr>)"

record password_challenge =
  pc_m_cost :: u32
  pc_t_cost :: u32
  pc_p_cost :: u8
  pc_salt :: bytes
  pc_challenge_nonce :: bytes

record challenge_proof =
  cp_proof :: bytes

record join_request_msg =
  jr_nickname :: rstring
  jr_introduction :: "rstring option"
  jr_ed25519_pubkey :: bytes
  jr_x25519_pubkey :: bytes
  jr_signature :: bytes

definition join_request_new ::
  "(rstring \<Rightarrow> rstring) \<Rightarrow> rstring \<Rightarrow> rstring option \<Rightarrow> bytes \<Rightarrow> bytes \<Rightarrow> bytes \<Rightarrow>
   protocol_error + join_request_msg" where
  "join_request_new nfc nickname introduction ed x sig =
     bindE (map_errE PE_Validation (validate_nickname nfc nickname default_limits)) (\<lambda>nickname'.
     bindE (case introduction of
              None \<Rightarrow> Inr ()
            | Some s \<Rightarrow> map_errE PE_Validation (validate_intro s default_limits)) (\<lambda>_.
     Inr \<lparr>jr_nickname = nickname', jr_introduction = introduction, jr_ed25519_pubkey = ed,
          jr_x25519_pubkey = x, jr_signature = sig\<rparr>))"

record join_accepted =
  ja_member_id :: u64

record join_rejected =
  jx_reason :: "rstring option"

definition join_rejected_new :: "rstring option \<Rightarrow> protocol_error + join_rejected" where
  "join_rejected_new reason =
     (case reason of
        None \<Rightarrow> Inr \<lparr>jx_reason = None\<rparr>
      | Some s \<Rightarrow>
          if s = [] then Inr \<lparr>jx_reason = None\<rparr>
          else if str_len s > MAX_REJECT_REASON_BYTES then
            Inl (PE_InvalidField 1 (rs ''reason must be at most '' @ dec MAX_REJECT_REASON_BYTES @
                 rs '' bytes, found '' @ dec (str_len s)))
          else if contains_control_char s then
            Inl (PE_InvalidField 1 (rs ''reason contains control characters''))
          else Inr \<lparr>jx_reason = Some s\<rparr>)"

section \<open>Epoch messages\<close>

record epoch_wrap =
  ew_epoch :: u64
  ew_nonce :: bytes
  ew_ciphertext :: bytes

definition epoch_wrap_new :: "u64 \<Rightarrow> bytes \<Rightarrow> bytes \<Rightarrow> protocol_error + epoch_wrap" where
  "epoch_wrap_new epoch nonce c =
     (if length c \<noteq> EPOCH_WRAP_CIPHERTEXT_LEN then
        Inl (PE_InvalidField 3 (rs ''ciphertext must be '' @ dec EPOCH_WRAP_CIPHERTEXT_LEN @
             rs '' bytes, found '' @ dec (length c)))
      else Inr \<lparr>ew_epoch = epoch, ew_nonce = nonce, ew_ciphertext = c\<rparr>)"

record epoch_ack =
  ea_epoch :: u64

section \<open>Membership broadcasts\<close>

record snapshot_member =
  sm_member_id :: u64
  sm_nickname :: rstring
  sm_color :: u8
  sm_is_host :: bool
  sm_ed25519_pubkey :: bytes

record member_joined =
  mj_sequence :: u64
  mj_epoch :: u64
  mj_member_id :: u64
  mj_nickname :: rstring
  mj_ed25519_pubkey :: bytes
  mj_signature :: bytes

record member_gone =
  mg_sequence :: u64
  mg_epoch :: u64
  mg_member_id :: u64
  mg_signature :: bytes

record join_policy_changed =
  jp_sequence :: u64
  jp_epoch :: u64
  jp_open :: bool
  jp_signature :: bytes

record member_snapshot =
  ms_sequence :: u64
  ms_epoch :: u64
  ms_members :: "snapshot_member list"
  ms_signature :: bytes

section \<open>Encrypted envelopes\<close>

record envelope =
  env_epoch :: u64
  env_sender_id :: u64
  env_sender_sequence :: u64
  env_nonce :: bytes
  env_ciphertext :: bytes
  env_signature :: bytes

definition envelope_new ::
  "u64 \<Rightarrow> u64 \<Rightarrow> u64 \<Rightarrow> bytes \<Rightarrow> bytes \<Rightarrow> bytes \<Rightarrow> protocol_error + envelope" where
  "envelope_new epoch sender sequence nonce c sig =
     (if \<not> (CHAT_MIN_CIPHERTEXT_LEN \<le> length c \<and> length c \<le> CHAT_MAX_CIPHERTEXT_LEN) then
        Inl (PE_InvalidField 5 (rs ''ciphertext must be '' @ dec CHAT_MIN_CIPHERTEXT_LEN @
             rs ''..='' @ dec CHAT_MAX_CIPHERTEXT_LEN @ rs '' bytes, found '' @ dec (length c)))
      else Inr \<lparr>env_epoch = epoch, env_sender_id = sender, env_sender_sequence = sequence,
                env_nonce = nonce, env_ciphertext = c, env_signature = sig\<rparr>)"

section \<open>Messages\<close>

text \<open>\<open>MemberLeft\<close> and \<open>MemberKicked\<close> have the same four fields.\<close>

datatype message =
    M_Keepalive
  | M_Error error_message
  | M_Shutdown
  | M_HostHello host_hello
  | M_ClientHello client_hello
  | M_TokenVerify token_verify
  | M_PasswordChallenge password_challenge
  | M_ChallengeProof challenge_proof
  | M_JoinRequest join_request_msg
  | M_JoinAccepted join_accepted
  | M_JoinRejected join_rejected
  | M_EpochWrap epoch_wrap
  | M_EpochAck epoch_ack
  | M_MemberJoined member_joined
  | M_MemberLeft member_gone
  | M_MemberKicked member_gone
  | M_JoinPolicyChanged join_policy_changed
  | M_MemberSnapshot member_snapshot
  | M_ChatMessage envelope
  | M_ColorChange envelope
  | M_TimeoutRequest envelope
  | M_TimeoutChanged envelope

fun message_message_type :: "message \<Rightarrow> message_type" where
  "message_message_type M_Keepalive = MT_Keepalive"
| "message_message_type (M_Error _) = MT_Error"
| "message_message_type M_Shutdown = MT_Shutdown"
| "message_message_type (M_HostHello _) = MT_HostHello"
| "message_message_type (M_ClientHello _) = MT_ClientHello"
| "message_message_type (M_TokenVerify _) = MT_TokenVerify"
| "message_message_type (M_PasswordChallenge _) = MT_PasswordChallenge"
| "message_message_type (M_ChallengeProof _) = MT_ChallengeProof"
| "message_message_type (M_JoinRequest _) = MT_JoinRequest"
| "message_message_type (M_JoinAccepted _) = MT_JoinAccepted"
| "message_message_type (M_JoinRejected _) = MT_JoinRejected"
| "message_message_type (M_EpochWrap _) = MT_EpochWrap"
| "message_message_type (M_EpochAck _) = MT_EpochAck"
| "message_message_type (M_MemberJoined _) = MT_MemberJoined"
| "message_message_type (M_MemberLeft _) = MT_MemberLeft"
| "message_message_type (M_MemberKicked _) = MT_MemberKicked"
| "message_message_type (M_JoinPolicyChanged _) = MT_JoinPolicyChanged"
| "message_message_type (M_MemberSnapshot _) = MT_MemberSnapshot"
| "message_message_type (M_ChatMessage _) = MT_ChatMessage"
| "message_message_type (M_ColorChange _) = MT_ColorChange"
| "message_message_type (M_TimeoutRequest _) = MT_TimeoutRequest"
| "message_message_type (M_TimeoutChanged _) = MT_TimeoutChanged"

end
