(* ===== verification/Codec.thy ===== *)
theory Codec
  imports Wire
begin

text \<open>
  The encoders and strict decoders of every message (\<open>protocol/messages.rs\<close>, \<open>handshake.rs\<close>,
  \<open>membership.rs\<close>, \<open>epoch.rs\<close>, \<open>chat.rs\<close>) over the CBOR tokens of \<open>Strict\<close>.

  The \<open>let mut x = None\<close> variables of a decoder are the tuple that its closure updates, the
  \<open>match\<close> on the key is the chain of tests, and the result is built from the tuple after the map
  has been read.
\<close>

section \<open>Reading and writing fields\<close>

text \<open>\<open>?\<close> on a result of the strict decoder converts its error with \<open>ProtocolError::from\<close>.\<close>

definition strictly ::
  "(strict_error + 'a) \<times> strict_decoder \<Rightarrow> (protocol_error + 'a) \<times> strict_decoder" where
  "strictly r = (map_errE PE_Cbor (fst r), snd r)"

definition field ::
  "('e + 'v) \<times> strict_decoder \<Rightarrow> ('v \<Rightarrow> 'a) \<Rightarrow> ('e + 'a) \<times> strict_decoder" where
  "field r put_in = tryS r (\<lambda>v d. (Inr (put_in v), d))"

definition required :: "u64 \<Rightarrow> 'a option \<Rightarrow> protocol_error + 'a" where
  "required f v = ok_or (PE_MissingField f) v"

text \<open>A byte string that must have the length of an array type (\<open>try_into\<close>).\<close>

definition sized_bytes ::
  "cbor \<Rightarrow> nat \<Rightarrow> u64 \<Rightarrow> (bytes \<Rightarrow> rstring) \<Rightarrow> strict_decoder \<Rightarrow> (protocol_error + bytes) \<times> strict_decoder" where
  "sized_bytes B n f detail d =
     tryS (strictly (strict_bytes B d))
       (\<lambda>b d. if length b = n then (Inr b, d) else (Inl (PE_InvalidField f (detail b)), d))"

definition fixed_bytes ::
  "cbor \<Rightarrow> nat \<Rightarrow> u64 \<Rightarrow> strict_decoder \<Rightarrow> (protocol_error + bytes) \<times> strict_decoder" where
  "fixed_bytes B n f d =
     sized_bytes B n f (\<lambda>b. rs ''expected '' @ dec n @ rs '' bytes, found '' @ dec (length b)) d"

definition read_signature ::
  "cbor \<Rightarrow> u64 \<Rightarrow> strict_decoder \<Rightarrow> (protocol_error + bytes) \<times> strict_decoder" where
  "read_signature B f d = sized_bytes B 64 f (\<lambda>_. rs ''signature must be 64 bytes'') d"

definition pubkey_field ::
  "cbor \<Rightarrow> strict_decoder \<Rightarrow> (protocol_error + bytes) \<times> strict_decoder" where
  "pubkey_field B d =
     sized_bytes B ED25519_PUBKEY_LEN 5
       (\<lambda>_. rs ''ed25519 pubkey must be '' @ dec ED25519_PUBKEY_LEN @ rs '' bytes'') d"

text \<open>\<open>Encoder::u8\<close> to \<open>u64\<close>: the value of the machine integer.\<close>

definition put :: "cbor \<Rightarrow> 'a::len word \<Rightarrow> bytes" where
  "put B w = e_uint B (unat w)"

section \<open>Handshake and admission\<close>

definition client_hello_decode ::
  "cbor \<Rightarrow> strict_decoder \<Rightarrow> (protocol_error + client_hello) \<times> strict_decoder" where
  "client_hello_decode B d =
     tryS (map_entries B PE_Cbor (\<lambda>key (version, nonce, features) d.
         if key = 1 then field (strictly (strict_u8 B d)) (\<lambda>v. (Some v, nonce, features))
         else if key = 2 then
           field (fixed_bytes B NONCE_LEN key d) (\<lambda>v. (version, Some v, features))
         else if key = 3 then field (strictly (strict_u32 B d)) (\<lambda>v. (version, nonce, Some v))
         else (Inl (PE_UnknownField key), d)) (None, None, None) d)
       (\<lambda>(version, nonce, features) d.
         (bindE (required 1 version) (\<lambda>version.
          bindE (required 2 nonce) (\<lambda>nonce.
          bindE (required 3 features) (\<lambda>features.
          Inr \<lparr>ch_version = version, ch_client_nonce = nonce, ch_features = features\<rparr>))),
               d))"

definition client_hello_encode :: "cbor \<Rightarrow> client_hello \<Rightarrow> bytes" where
  "client_hello_encode B m =
     e_map B 3 @
     put B (1 :: u8) @ put B (ch_version m) @
     put B (2 :: u8) @ e_bytes B (ch_client_nonce m) @
     put B (3 :: u8) @ put B (ch_features m)"

definition host_hello_decode ::
  "cbor \<Rightarrow> strict_decoder \<Rightarrow> (protocol_error + host_hello) \<times> strict_decoder" where
  "host_hello_decode B d =
     tryS (map_entries B PE_Cbor (\<lambda>key (version, session, ed, x, nonce, signature) d.
         if key = 1 then
           field (strictly (strict_u8 B d)) (\<lambda>v. (Some v, session, ed, x, nonce, signature))
         else if key = 2 then
           field (fixed_bytes B ROOM_SESSION_ID_LEN key d)
             (\<lambda>v. (version, Some v, ed, x, nonce, signature))
         else if key = 3 then
           field (fixed_bytes B ED25519_PUBKEY_LEN key d)
             (\<lambda>v. (version, session, Some v, x, nonce, signature))
         else if key = 4 then
           field (fixed_bytes B X25519_PUBKEY_LEN key d)
             (\<lambda>v. (version, session, ed, Some v, nonce, signature))
         else if key = 5 then
           field (fixed_bytes B NONCE_LEN key d)
             (\<lambda>v. (version, session, ed, x, Some v, signature))
         else if key = 6 then
           field (fixed_bytes B ED25519_SIGNATURE_LEN key d)
             (\<lambda>v. (version, session, ed, x, nonce, Some v))
         else (Inl (PE_UnknownField key), d)) (None, None, None, None, None, None) d)
       (\<lambda>(version, session, ed, x, nonce, signature) d.
         (bindE (required 1 version) (\<lambda>version.
          bindE (required 2 session) (\<lambda>session.
          bindE (required 3 ed) (\<lambda>ed.
          bindE (required 4 x) (\<lambda>x.
          bindE (required 5 nonce) (\<lambda>nonce.
          bindE (required 6 signature) (\<lambda>signature.
          Inr \<lparr>hh_version = version, hh_room_session_id = session, hh_host_ed25519_pubkey = ed,
               hh_host_x25519_pubkey = x, hh_server_nonce = nonce,
               hh_host_signature = signature\<rparr>)))))), d))"

definition host_hello_encode :: "cbor \<Rightarrow> host_hello \<Rightarrow> bytes" where
  "host_hello_encode B m =
     e_map B 6 @
     put B (1 :: u8) @ put B (hh_version m) @
     put B (2 :: u8) @ e_bytes B (hh_room_session_id m) @
     put B (3 :: u8) @ e_bytes B (hh_host_ed25519_pubkey m) @
     put B (4 :: u8) @ e_bytes B (hh_host_x25519_pubkey m) @
     put B (5 :: u8) @ e_bytes B (hh_server_nonce m) @
     put B (6 :: u8) @ e_bytes B (hh_host_signature m)"

definition token_verify_decode ::
  "cbor \<Rightarrow> strict_decoder \<Rightarrow> (protocol_error + token_verify) \<times> strict_decoder" where
  "token_verify_decode B d =
     tryS (map_entries B PE_Cbor (\<lambda>key token d.
         if key = 1 then field (strictly (strict_bytes B d)) (\<lambda>v. Some v)
         else (Inl (PE_UnknownField key), d)) None d)
       (\<lambda>token d.
         (bindE (required 1 token) (\<lambda>token.
          token_verify_new token), d))"

definition token_verify_encode :: "cbor \<Rightarrow> token_verify \<Rightarrow> bytes" where
  "token_verify_encode B m =
     e_map B 1 @
     put B (1 :: u8) @ e_bytes B (tv_token m)"

definition password_challenge_decode ::
  "cbor \<Rightarrow> strict_decoder \<Rightarrow> (protocol_error + password_challenge) \<times> strict_decoder" where
  "password_challenge_decode B d =
     tryS (map_entries B PE_Cbor (\<lambda>key (m, t, p, salt, nonce) d.
         if key = 1 then field (strictly (strict_u32 B d)) (\<lambda>v. (Some v, t, p, salt, nonce))
         else if key = 2 then
           field (strictly (strict_u32 B d)) (\<lambda>v. (m, Some v, p, salt, nonce))
         else if key = 3 then field (strictly (strict_u8 B d)) (\<lambda>v. (m, t, Some v, salt, nonce))
         else if key = 4 then
           field (fixed_bytes B SALT_LEN key d) (\<lambda>v. (m, t, p, Some v, nonce))
         else if key = 5 then
           field (fixed_bytes B NONCE_LEN key d) (\<lambda>v. (m, t, p, salt, Some v))
         else (Inl (PE_UnknownField key), d)) (None, None, None, None, None) d)
       (\<lambda>(m, t, p, salt, nonce) d.
         (bindE (required 1 m) (\<lambda>m.
          bindE (required 2 t) (\<lambda>t.
          bindE (required 3 p) (\<lambda>p.
          bindE (required 4 salt) (\<lambda>salt.
          bindE (required 5 nonce) (\<lambda>nonce.
          Inr \<lparr>pc_m_cost = m, pc_t_cost = t, pc_p_cost = p, pc_salt = salt,
               pc_challenge_nonce = nonce\<rparr>))))), d))"

definition password_challenge_encode ::
  "cbor \<Rightarrow> password_challenge \<Rightarrow> bytes" where
  "password_challenge_encode B m =
     e_map B 5 @
     put B (1 :: u8) @ put B (pc_m_cost m) @
     put B (2 :: u8) @ put B (pc_t_cost m) @
     put B (3 :: u8) @ put B (pc_p_cost m) @
     put B (4 :: u8) @ e_bytes B (pc_salt m) @
     put B (5 :: u8) @ e_bytes B (pc_challenge_nonce m)"

definition challenge_proof_decode ::
  "cbor \<Rightarrow> strict_decoder \<Rightarrow> (protocol_error + challenge_proof) \<times> strict_decoder" where
  "challenge_proof_decode B d =
     tryS (map_entries B PE_Cbor (\<lambda>key proof d.
         if key = 1 then field (fixed_bytes B HMAC_LEN key d) (\<lambda>v. Some v)
         else (Inl (PE_UnknownField key), d)) None d)
       (\<lambda>proof d.
         (bindE (required 1 proof) (\<lambda>proof.
          Inr \<lparr>cp_proof = proof\<rparr>), d))"

definition challenge_proof_encode :: "cbor \<Rightarrow> challenge_proof \<Rightarrow> bytes" where
  "challenge_proof_encode B m =
     e_map B 1 @
     put B (1 :: u8) @ e_bytes B (cp_proof m)"

definition join_request_decode ::
  "(rstring \<Rightarrow> rstring) \<Rightarrow> cbor \<Rightarrow> strict_decoder \<Rightarrow> (protocol_error + join_request_msg) \<times> strict_decoder" where
  "join_request_decode nfc B d =
     tryS (map_entries B PE_Cbor (\<lambda>key (nickname, introduction, ed, x, signature) d.
         if key = 1 then
           field (strictly (strict_str B d)) (\<lambda>v. (Some v, introduction, ed, x, signature))
         else if key = 2 then
           field (strictly (strict_str B d)) (\<lambda>v. (nickname, Some v, ed, x, signature))
         else if key = 3 then
           field (fixed_bytes B ED25519_PUBKEY_LEN key d)
             (\<lambda>v. (nickname, introduction, Some v, x, signature))
         else if key = 4 then
           field (fixed_bytes B X25519_PUBKEY_LEN key d)
             (\<lambda>v. (nickname, introduction, ed, Some v, signature))
         else if key = 5 then
           field (fixed_bytes B ED25519_SIGNATURE_LEN key d)
             (\<lambda>v. (nickname, introduction, ed, x, Some v))
         else (Inl (PE_UnknownField key), d)) (None, None, None, None, None) d)
       (\<lambda>(nickname, introduction, ed, x, signature) d.
         (bindE (required 1 nickname) (\<lambda>nickname.
          bindE (required 3 ed) (\<lambda>ed.
          bindE (required 4 x) (\<lambda>x.
          bindE (required 5 signature) (\<lambda>signature.
          join_request_new nfc nickname introduction ed x signature)))), d))"

definition join_request_encode :: "cbor \<Rightarrow> join_request_msg \<Rightarrow> bytes" where
  "join_request_encode B m =
     e_map B (if jr_introduction m \<noteq> None then 5 else 4) @
     put B (1 :: u8) @ e_str B (jr_nickname m) @
     (case jr_introduction m of Some i \<Rightarrow> put B (2 :: u8) @ e_str B i | None \<Rightarrow> []) @
     put B (3 :: u8) @ e_bytes B (jr_ed25519_pubkey m) @
     put B (4 :: u8) @ e_bytes B (jr_x25519_pubkey m) @
     put B (5 :: u8) @ e_bytes B (jr_signature m)"

definition join_accepted_decode ::
  "cbor \<Rightarrow> strict_decoder \<Rightarrow> (protocol_error + join_accepted) \<times> strict_decoder" where
  "join_accepted_decode B d =
     tryS (map_entries B PE_Cbor (\<lambda>key member_id d.
         if key = 1 then field (strictly (strict_u64 B d)) (\<lambda>v. Some v)
         else (Inl (PE_UnknownField key), d)) None d)
       (\<lambda>member_id d.
         (bindE (required 1 member_id) (\<lambda>member_id.
          Inr \<lparr>ja_member_id = member_id\<rparr>), d))"

definition join_accepted_encode :: "cbor \<Rightarrow> join_accepted \<Rightarrow> bytes" where
  "join_accepted_encode B m =
     e_map B 1 @
     put B (1 :: u8) @ put B (ja_member_id m)"

definition join_rejected_decode ::
  "cbor \<Rightarrow> strict_decoder \<Rightarrow> (protocol_error + join_rejected) \<times> strict_decoder" where
  "join_rejected_decode B d =
     tryS (map_entries B PE_Cbor (\<lambda>key reason d.
         if key = 1 then field (strictly (strict_str B d)) (\<lambda>v. Some v)
         else (Inl (PE_UnknownField key), d)) None d)
       (\<lambda>reason d.
         (join_rejected_new reason, d))"

definition join_rejected_encode :: "cbor \<Rightarrow> join_rejected \<Rightarrow> bytes" where
  "join_rejected_encode B m =
     (case jx_reason m of
        Some r \<Rightarrow> e_map B 1 @ put B (1 :: u8) @ e_str B r
      | None \<Rightarrow> e_map B 0)"

section \<open>Epochs, membership and envelopes\<close>

definition epoch_wrap_decode ::
  "cbor \<Rightarrow> strict_decoder \<Rightarrow> (protocol_error + epoch_wrap) \<times> strict_decoder" where
  "epoch_wrap_decode B d =
     tryS (map_entries B PE_Cbor (\<lambda>key (epoch, nonce, ciphertext) d.
         if key = 1 then field (strictly (strict_u64 B d)) (\<lambda>v. (Some v, nonce, ciphertext))
         else if key = 2 then
           field (sized_bytes B XCHACHA_NONCE_LEN 2 (\<lambda>b. rs ''nonce must be '' @ dec XCHACHA_NONCE_LEN @
             rs '' bytes, found '' @ dec (length b)) d) (\<lambda>v. (epoch, Some v, ciphertext))
         else if key = 3 then field (strictly (strict_bytes B d)) (\<lambda>v. (epoch, nonce, Some v))
         else (Inl (PE_UnknownField key), d)) (None, None, None) d)
       (\<lambda>(epoch, nonce, ciphertext) d.
         (bindE (required 1 epoch) (\<lambda>epoch.
          bindE (required 2 nonce) (\<lambda>nonce.
          bindE (required 3 ciphertext) (\<lambda>ciphertext.
          epoch_wrap_new epoch nonce ciphertext))), d))"

definition epoch_wrap_encode :: "cbor \<Rightarrow> epoch_wrap \<Rightarrow> bytes" where
  "epoch_wrap_encode B m =
     e_map B 3 @
     put B (1 :: u8) @ put B (ew_epoch m) @
     put B (2 :: u8) @ e_bytes B (ew_nonce m) @
     put B (3 :: u8) @ e_bytes B (ew_ciphertext m)"

definition epoch_ack_decode ::
  "cbor \<Rightarrow> strict_decoder \<Rightarrow> (protocol_error + epoch_ack) \<times> strict_decoder" where
  "epoch_ack_decode B d =
     tryS (map_entries B PE_Cbor (\<lambda>key epoch d.
         if key = 1 then field (strictly (strict_u64 B d)) (\<lambda>v. Some v)
         else (Inl (PE_UnknownField key), d)) None d)
       (\<lambda>epoch d.
         (bindE (required 1 epoch) (\<lambda>epoch.
          Inr \<lparr>ea_epoch = epoch\<rparr>), d))"

definition epoch_ack_encode :: "cbor \<Rightarrow> epoch_ack \<Rightarrow> bytes" where
  "epoch_ack_encode B m =
     e_map B 1 @
     put B (1 :: u8) @ put B (ea_epoch m)"

definition snapshot_member_decode ::
  "cbor \<Rightarrow> strict_decoder \<Rightarrow> (protocol_error + snapshot_member) \<times> strict_decoder" where
  "snapshot_member_decode B d =
     tryS (map_entries B PE_Cbor (\<lambda>key (member_id, nickname, color, is_host, pubkey) d.
         if key = 1 then
           field (strictly (strict_u64 B d)) (\<lambda>v. (Some v, nickname, color, is_host, pubkey))
         else if key = 2 then
           field (strictly (strict_str B d)) (\<lambda>v. (member_id, Some v, color, is_host, pubkey))
         else if key = 3 then
           field (strictly (strict_u8 B d)) (\<lambda>v. (member_id, nickname, Some v, is_host, pubkey))
         else if key = 4 then
           field (strictly (strict_bool B d)) (\<lambda>v. (member_id, nickname, color, Some v, pubkey))
         else if key = 5 then
           field (pubkey_field B d) (\<lambda>v. (member_id, nickname, color, is_host, Some v))
         else (Inl (PE_UnknownField key), d)) (None, None, None, None, None) d)
       (\<lambda>(member_id, nickname, color, is_host, pubkey) d.
         (bindE (required 1 member_id) (\<lambda>member_id.
          bindE (required 2 nickname) (\<lambda>nickname.
          bindE (required 3 color) (\<lambda>color.
          bindE (required 4 is_host) (\<lambda>is_host.
          bindE (required 5 pubkey) (\<lambda>pubkey.
          Inr \<lparr>sm_member_id = member_id, sm_nickname = nickname, sm_color = color,
               sm_is_host = is_host, sm_ed25519_pubkey = pubkey\<rparr>))))), d))"

definition snapshot_member_encode :: "cbor \<Rightarrow> snapshot_member \<Rightarrow> bytes" where
  "snapshot_member_encode B m =
     e_map B 5 @
     put B (1 :: u8) @ put B (sm_member_id m) @
     put B (2 :: u8) @ e_str B (sm_nickname m) @
     put B (3 :: u8) @ put B (sm_color m) @
     put B (4 :: u8) @ e_bool B (sm_is_host m) @
     put B (5 :: u8) @ e_bytes B (sm_ed25519_pubkey m)"

definition member_joined_decode ::
  "cbor \<Rightarrow> strict_decoder \<Rightarrow> (protocol_error + member_joined) \<times> strict_decoder" where
  "member_joined_decode B d =
     tryS (map_entries B PE_Cbor (\<lambda>key (sequence, epoch, member_id, nickname, pubkey, signature) d.
         if key = 1 then
           field (strictly (strict_u64 B d))
             (\<lambda>v. (Some v, epoch, member_id, nickname, pubkey, signature))
         else if key = 2 then
           field (strictly (strict_u64 B d))
             (\<lambda>v. (sequence, Some v, member_id, nickname, pubkey, signature))
         else if key = 3 then
           field (strictly (strict_u64 B d))
             (\<lambda>v. (sequence, epoch, Some v, nickname, pubkey, signature))
         else if key = 4 then
           field (strictly (strict_str B d))
             (\<lambda>v. (sequence, epoch, member_id, Some v, pubkey, signature))
         else if key = 5 then
           field (pubkey_field B d)
             (\<lambda>v. (sequence, epoch, member_id, nickname, Some v, signature))
         else if key = 6 then
           field (read_signature B key d)
             (\<lambda>v. (sequence, epoch, member_id, nickname, pubkey, Some v))
         else (Inl (PE_UnknownField key), d)) (None, None, None, None, None, None) d)
       (\<lambda>(sequence, epoch, member_id, nickname, pubkey, signature) d.
         (bindE (required 1 sequence) (\<lambda>sequence.
          bindE (required 2 epoch) (\<lambda>epoch.
          bindE (required 3 member_id) (\<lambda>member_id.
          bindE (required 4 nickname) (\<lambda>nickname.
          bindE (required 5 pubkey) (\<lambda>pubkey.
          bindE (required 6 signature) (\<lambda>signature.
          Inr \<lparr>mj_sequence = sequence, mj_epoch = epoch, mj_member_id = member_id,
               mj_nickname = nickname, mj_ed25519_pubkey = pubkey,
               mj_signature = signature\<rparr>)))))), d))"

definition member_joined_encode :: "cbor \<Rightarrow> member_joined \<Rightarrow> bytes" where
  "member_joined_encode B m =
     e_map B 6 @
     put B (1 :: u8) @ put B (mj_sequence m) @
     put B (2 :: u8) @ put B (mj_epoch m) @
     put B (3 :: u8) @ put B (mj_member_id m) @
     put B (4 :: u8) @ e_str B (mj_nickname m) @
     put B (5 :: u8) @ e_bytes B (mj_ed25519_pubkey m) @
     put B (6 :: u8) @ e_bytes B (mj_signature m)"

definition member_gone_decode ::
  "cbor \<Rightarrow> strict_decoder \<Rightarrow> (protocol_error + member_gone) \<times> strict_decoder" where
  "member_gone_decode B d =
     tryS (map_entries B PE_Cbor (\<lambda>key (sequence, epoch, member_id, signature) d.
         if key = 1 then
           field (strictly (strict_u64 B d)) (\<lambda>v. (Some v, epoch, member_id, signature))
         else if key = 2 then
           field (strictly (strict_u64 B d)) (\<lambda>v. (sequence, Some v, member_id, signature))
         else if key = 3 then
           field (strictly (strict_u64 B d)) (\<lambda>v. (sequence, epoch, Some v, signature))
         else if key = 4 then
           field (read_signature B key d) (\<lambda>v. (sequence, epoch, member_id, Some v))
         else (Inl (PE_UnknownField key), d)) (None, None, None, None) d)
       (\<lambda>(sequence, epoch, member_id, signature) d.
         (bindE (required 1 sequence) (\<lambda>sequence.
          bindE (required 2 epoch) (\<lambda>epoch.
          bindE (required 3 member_id) (\<lambda>member_id.
          bindE (required 4 signature) (\<lambda>signature.
          Inr \<lparr>mg_sequence = sequence, mg_epoch = epoch, mg_member_id = member_id,
               mg_signature = signature\<rparr>)))), d))"

definition member_gone_encode :: "cbor \<Rightarrow> member_gone \<Rightarrow> bytes" where
  "member_gone_encode B m =
     e_map B 4 @
     put B (1 :: u8) @ put B (mg_sequence m) @
     put B (2 :: u8) @ put B (mg_epoch m) @
     put B (3 :: u8) @ put B (mg_member_id m) @
     put B (4 :: u8) @ e_bytes B (mg_signature m)"

definition join_policy_decode ::
  "cbor \<Rightarrow> strict_decoder \<Rightarrow> (protocol_error + join_policy_changed) \<times> strict_decoder" where
  "join_policy_decode B d =
     tryS (map_entries B PE_Cbor (\<lambda>key (sequence, epoch, opn, signature) d.
         if key = 1 then field (strictly (strict_u64 B d)) (\<lambda>v. (Some v, epoch, opn, signature))
         else if key = 2 then
           field (strictly (strict_u64 B d)) (\<lambda>v. (sequence, Some v, opn, signature))
         else if key = 3 then
           field (strictly (strict_bool B d)) (\<lambda>v. (sequence, epoch, Some v, signature))
         else if key = 4 then
           field (read_signature B key d) (\<lambda>v. (sequence, epoch, opn, Some v))
         else (Inl (PE_UnknownField key), d)) (None, None, None, None) d)
       (\<lambda>(sequence, epoch, opn, signature) d.
         (bindE (required 1 sequence) (\<lambda>sequence.
          bindE (required 2 epoch) (\<lambda>epoch.
          bindE (required 3 opn) (\<lambda>opn.
          bindE (required 4 signature) (\<lambda>signature.
          Inr \<lparr>jp_sequence = sequence, jp_epoch = epoch, jp_open = opn,
               jp_signature = signature\<rparr>)))), d))"

definition join_policy_encode :: "cbor \<Rightarrow> join_policy_changed \<Rightarrow> bytes" where
  "join_policy_encode B m =
     e_map B 4 @
     put B (1 :: u8) @ put B (jp_sequence m) @
     put B (2 :: u8) @ put B (jp_epoch m) @
     put B (3 :: u8) @ e_bool B (jp_open m) @
     put B (4 :: u8) @ e_bytes B (jp_signature m)"

definition member_snapshot_decode ::
  "cbor \<Rightarrow> strict_decoder \<Rightarrow> (protocol_error + member_snapshot) \<times> strict_decoder" where
  "member_snapshot_decode B d =
     tryS (map_entries B PE_Cbor (\<lambda>key (sequence, epoch, members, signature) d.
         if key = 1 then
           field (strictly (strict_u64 B d)) (\<lambda>v. (Some v, epoch, members, signature))
         else if key = 2 then
           field (strictly (strict_u64 B d)) (\<lambda>v. (sequence, Some v, members, signature))
         else if key = 3 then field (array_entries B PE_Cbor (\<lambda>decoded d.
             field (snapshot_member_decode B d) (\<lambda>m. decoded @ [m])) [] d) (\<lambda>v. (sequence, epoch, Some v, signature))
         else if key = 4 then
           field (read_signature B key d) (\<lambda>v. (sequence, epoch, members, Some v))
         else (Inl (PE_UnknownField key), d)) (None, None, None, None) d)
       (\<lambda>(sequence, epoch, members, signature) d.
         (bindE (required 1 sequence) (\<lambda>sequence.
          bindE (required 2 epoch) (\<lambda>epoch.
          bindE (required 3 members) (\<lambda>members.
          bindE (required 4 signature) (\<lambda>signature.
          Inr \<lparr>ms_sequence = sequence, ms_epoch = epoch, ms_members = members,
               ms_signature = signature\<rparr>)))), d))"

definition member_snapshot_encode :: "cbor \<Rightarrow> member_snapshot \<Rightarrow> bytes" where
  "member_snapshot_encode B m =
     e_map B 4 @
     put B (1 :: u8) @ put B (ms_sequence m) @
     put B (2 :: u8) @ put B (ms_epoch m) @
     put B (3 :: u8) @ e_array B (length (ms_members m)) @
       concat (map (snapshot_member_encode B) (ms_members m)) @
     put B (4 :: u8) @ e_bytes B (ms_signature m)"

definition envelope_decode ::
  "cbor \<Rightarrow> strict_decoder \<Rightarrow> (protocol_error + envelope) \<times> strict_decoder" where
  "envelope_decode B d =
     tryS (map_entries B PE_Cbor (\<lambda>key (epoch, sender, sequence, nonce, ciphertext, signature) d.
         if key = 1 then
           field (strictly (strict_u64 B d))
             (\<lambda>v. (Some v, sender, sequence, nonce, ciphertext, signature))
         else if key = 2 then
           field (strictly (strict_u64 B d))
             (\<lambda>v. (epoch, Some v, sequence, nonce, ciphertext, signature))
         else if key = 3 then
           field (strictly (strict_u64 B d))
             (\<lambda>v. (epoch, sender, Some v, nonce, ciphertext, signature))
         else if key = 4 then
           field (sized_bytes B XCHACHA_NONCE_LEN 4 (\<lambda>b. rs ''nonce must be '' @ dec XCHACHA_NONCE_LEN @
             rs '' bytes, found '' @ dec (length b)) d) (\<lambda>v. (epoch, sender, sequence, Some v, ciphertext, signature))
         else if key = 5 then
           field (strictly (strict_bytes B d))
             (\<lambda>v. (epoch, sender, sequence, nonce, Some v, signature))
         else if key = 6 then field (sized_bytes B ED25519_SIGNATURE_LEN 6
             (\<lambda>_. rs ''signature must be '' @ dec ED25519_SIGNATURE_LEN @ rs '' bytes'') d) (\<lambda>v. (epoch, sender, sequence, nonce, ciphertext, Some v))
         else (Inl (PE_UnknownField key), d)) (None, None, None, None, None, None) d)
       (\<lambda>(epoch, sender, sequence, nonce, ciphertext, signature) d.
         (bindE (required 1 epoch) (\<lambda>epoch.
          bindE (required 2 sender) (\<lambda>sender.
          bindE (required 3 sequence) (\<lambda>sequence.
          bindE (required 4 nonce) (\<lambda>nonce.
          bindE (required 5 ciphertext) (\<lambda>ciphertext.
          bindE (required 6 signature) (\<lambda>signature.
          envelope_new epoch sender sequence nonce ciphertext signature)))))), d))"

definition envelope_encode :: "cbor \<Rightarrow> envelope \<Rightarrow> bytes" where
  "envelope_encode B m =
     e_map B 6 @
     put B (1 :: u8) @ put B (env_epoch m) @
     put B (2 :: u8) @ put B (env_sender_id m) @
     put B (3 :: u8) @ put B (env_sender_sequence m) @
     put B (4 :: u8) @ e_bytes B (env_nonce m) @
     put B (5 :: u8) @ e_bytes B (env_ciphertext m) @
     put B (6 :: u8) @ e_bytes B (env_signature m)"

section \<open>Control messages\<close>

text \<open>\<open>Keepalive\<close> and \<open>Shutdown\<close>: the empty map.\<close>

definition empty_decode ::
  "cbor \<Rightarrow> strict_decoder \<Rightarrow> (protocol_error + unit) \<times> strict_decoder" where
  "empty_decode B d = map_entries B PE_Cbor (\<lambda>key _ d. (Inl (PE_UnknownField key), d)) () d"

definition empty_encode :: "cbor \<Rightarrow> bytes" where
  "empty_encode B = e_map B 0"

definition error_message_decode ::
  "cbor \<Rightarrow> strict_decoder \<Rightarrow> (protocol_error + error_message) \<times> strict_decoder" where
  "error_message_decode B d =
     tryS (map_entries B PE_Cbor (\<lambda>key (code, reason) d.
         if key = 1 then
           tryS (strictly (strict_u8 B d)) (\<lambda>raw d.
             (bindE (ok_or (PE_UnknownErrorCode raw) (error_code_from_u8 raw)) (\<lambda>c. Inr (Some c, reason)), d))
         else if key = 2 then
           tryS (strictly (strict_str B d)) (\<lambda>t d.
             (bindE (validate_reason t) (\<lambda>_. Inr (code, Some t)), d))
         else (Inl (PE_UnknownField key), d)) (None, None) d)
       (\<lambda>(code, reason) d.
         (bindE (required 1 code) (\<lambda>code. Inr \<lparr>em_code = code,
                                                       em_reason = reason\<rparr>), d))"

definition error_message_encode :: "cbor \<Rightarrow> error_message \<Rightarrow> bytes" where
  "error_message_encode B m =
     e_map B (if em_reason m \<noteq> None then 2 else 1) @
     put B (1 :: u8) @ put B (error_code_as_u8 (em_code m)) @
     (case em_reason m of Some r \<Rightarrow> put B (2 :: u8) @ e_str B r | None \<Rightarrow> [])"

section \<open>Messages and frames\<close>

fun encode_body :: "cbor \<Rightarrow> message \<Rightarrow> bytes" where
  "encode_body B M_Keepalive = empty_encode B"
| "encode_body B (M_Error m) = error_message_encode B m"
| "encode_body B M_Shutdown = empty_encode B"
| "encode_body B (M_HostHello m) = host_hello_encode B m"
| "encode_body B (M_ClientHello m) = client_hello_encode B m"
| "encode_body B (M_TokenVerify m) = token_verify_encode B m"
| "encode_body B (M_PasswordChallenge m) = password_challenge_encode B m"
| "encode_body B (M_ChallengeProof m) = challenge_proof_encode B m"
| "encode_body B (M_JoinRequest m) = join_request_encode B m"
| "encode_body B (M_JoinAccepted m) = join_accepted_encode B m"
| "encode_body B (M_JoinRejected m) = join_rejected_encode B m"
| "encode_body B (M_EpochWrap m) = epoch_wrap_encode B m"
| "encode_body B (M_EpochAck m) = epoch_ack_encode B m"
| "encode_body B (M_MemberJoined m) = member_joined_encode B m"
| "encode_body B (M_MemberLeft m) = member_gone_encode B m"
| "encode_body B (M_MemberKicked m) = member_gone_encode B m"
| "encode_body B (M_JoinPolicyChanged m) = join_policy_encode B m"
| "encode_body B (M_MemberSnapshot m) = member_snapshot_encode B m"
| "encode_body B (M_ChatMessage m) = envelope_encode B m"
| "encode_body B (M_ColorChange m) = envelope_encode B m"
| "encode_body B (M_TimeoutRequest m) = envelope_encode B m"
| "encode_body B (M_TimeoutChanged m) = envelope_encode B m"

definition encode_message ::
  "cbor \<Rightarrow> message \<Rightarrow> limits \<Rightarrow> protocol_error + bytes" where
  "encode_message B m l = map_errE PE_Frame (encode_frame (message_message_type m) (encode_body B m) l)"

definition decode_message_body ::
  "frame \<Rightarrow> (strict_decoder \<Rightarrow> (protocol_error + 'a) \<times> strict_decoder) \<Rightarrow> limits \<Rightarrow> protocol_error + 'a" where
  "decode_message_body f schema l =
     (let (r, d) = schema (strict_new (frame_payload f) l)
      in bindE r (\<lambda>value. bindE (map_errE PE_Cbor (strict_finish d)) (\<lambda>_. Inr value)))"

definition decode_message ::
  "(rstring \<Rightarrow> rstring) \<Rightarrow> cbor \<Rightarrow> frame \<Rightarrow> limits \<Rightarrow> protocol_error + message" where
  "decode_message nfc B f l =
     (case frame_type f of
        MT_Keepalive \<Rightarrow> bindE (decode_message_body f (empty_decode B) l) (\<lambda>_. Inr M_Keepalive)
      | MT_Error \<Rightarrow> bindE (decode_message_body f (error_message_decode B) l) (\<lambda>m. Inr (M_Error m))
      | MT_Shutdown \<Rightarrow> bindE (decode_message_body f (empty_decode B) l) (\<lambda>_. Inr M_Shutdown)
      | MT_HostHello \<Rightarrow>
          bindE (decode_message_body f (host_hello_decode B) l) (\<lambda>m. Inr (M_HostHello m))
      | MT_ClientHello \<Rightarrow>
          bindE (decode_message_body f (client_hello_decode B) l) (\<lambda>m. Inr (M_ClientHello m))
      | MT_TokenVerify \<Rightarrow>
          bindE (decode_message_body f (token_verify_decode B) l) (\<lambda>m. Inr (M_TokenVerify m))
      | MT_PasswordChallenge \<Rightarrow>
          bindE (decode_message_body f (password_challenge_decode B) l) (\<lambda>m. Inr (M_PasswordChallenge m))
      | MT_ChallengeProof \<Rightarrow>
          bindE (decode_message_body f (challenge_proof_decode B) l) (\<lambda>m. Inr (M_ChallengeProof m))
      | MT_JoinRequest \<Rightarrow>
          bindE (decode_message_body f (join_request_decode nfc B) l) (\<lambda>m. Inr (M_JoinRequest m))
      | MT_JoinAccepted \<Rightarrow>
          bindE (decode_message_body f (join_accepted_decode B) l) (\<lambda>m. Inr (M_JoinAccepted m))
      | MT_JoinRejected \<Rightarrow>
          bindE (decode_message_body f (join_rejected_decode B) l) (\<lambda>m. Inr (M_JoinRejected m))
      | MT_EpochWrap \<Rightarrow>
          bindE (decode_message_body f (epoch_wrap_decode B) l) (\<lambda>m. Inr (M_EpochWrap m))
      | MT_EpochAck \<Rightarrow>
          bindE (decode_message_body f (epoch_ack_decode B) l) (\<lambda>m. Inr (M_EpochAck m))
      | MT_MemberJoined \<Rightarrow>
          bindE (decode_message_body f (member_joined_decode B) l) (\<lambda>m. Inr (M_MemberJoined m))
      | MT_MemberLeft \<Rightarrow>
          bindE (decode_message_body f (member_gone_decode B) l) (\<lambda>m. Inr (M_MemberLeft m))
      | MT_MemberKicked \<Rightarrow>
          bindE (decode_message_body f (member_gone_decode B) l) (\<lambda>m. Inr (M_MemberKicked m))
      | MT_JoinPolicyChanged \<Rightarrow>
          bindE (decode_message_body f (join_policy_decode B) l) (\<lambda>m. Inr (M_JoinPolicyChanged m))
      | MT_MemberSnapshot \<Rightarrow>
          bindE (decode_message_body f (member_snapshot_decode B) l) (\<lambda>m. Inr (M_MemberSnapshot m))
      | MT_ChatMessage \<Rightarrow>
          bindE (decode_message_body f (envelope_decode B) l) (\<lambda>m. Inr (M_ChatMessage m))
      | MT_ColorChange \<Rightarrow>
          bindE (decode_message_body f (envelope_decode B) l) (\<lambda>m. Inr (M_ColorChange m))
      | MT_TimeoutRequest \<Rightarrow>
          bindE (decode_message_body f (envelope_decode B) l) (\<lambda>m. Inr (M_TimeoutRequest m))
      | MT_TimeoutChanged \<Rightarrow>
          bindE (decode_message_body f (envelope_decode B) l) (\<lambda>m. Inr (M_TimeoutChanged m)))"

end
