(* ===== verification/Cbor.thy ===== *)
theory Cbor
  imports Strict
begin

text \<open>
  A concrete CBOR token codec that follows RFC 8949: a head byte with the major type and the
  argument, in one of five widths. It instantiates the \<open>cbor\<close> parameter of the message codecs, so
  their theorems about \<open>cbor_ok\<close> codecs hold of at least one.
\<close>

definition head_byte :: "nat \<Rightarrow> nat \<Rightarrow> u8" where
  "head_byte major a = word_of_nat (major * 32 + a)"

definition cbor_head :: "nat \<Rightarrow> nat \<Rightarrow> bytes" where
  "cbor_head major n =
     (if n < 24 then [head_byte major n]
      else if n < 2 ^ 8 then head_byte major 24 # be 1 n
      else if n < 2 ^ 16 then head_byte major 25 # be 2 n
      else if n < 2 ^ 32 then head_byte major 26 # be 4 n
      else head_byte major 27 # be 8 n)"

definition cbor_argument :: "nat \<Rightarrow> bytes \<Rightarrow> rstring + (nat option \<times> bytes)" where
  "cbor_argument k r =
     (if length r < k then Inl (rs ''end of input'') else Inr (Some (from_be (take k r)), drop k r))"

fun read_head :: "nat \<Rightarrow> bytes \<Rightarrow> rstring + (nat option \<times> bytes)" where
  "read_head major [] = Inl (rs ''end of input'')"
| "read_head major (b # r) =
     (if unat b div 32 \<noteq> major then Inl (rs ''unexpected type'')
      else let a = unat b mod 32 in
        if a < 24 then Inr (Some a, r)
        else if a = 24 then cbor_argument 1 r
        else if a = 25 then cbor_argument 2 r
        else if a = 26 then cbor_argument 4 r
        else if a = 27 then cbor_argument 8 r
        else if a = 31 then Inr (None, r)
        else Inl (rs ''unexpected type''))"

definition read_definite :: "nat \<Rightarrow> bytes \<Rightarrow> rstring + (nat \<times> bytes)" where
  "read_definite major b =
     bindE (read_head major b) (\<lambda>(n, r).
       case n of Some k \<Rightarrow> Inr (k, r) | None \<Rightarrow> Inl (rs ''unexpected type''))"

definition read_block :: "nat \<Rightarrow> bytes \<Rightarrow> rstring + (bytes \<times> bytes)" where
  "read_block major b =
     bindE (read_definite major b) (\<lambda>(k, r).
       if length r < k then Inl (rs ''end of input'') else Inr (take k r, drop k r))"

definition rfc_cbor :: cbor where
  "rfc_cbor =
     \<lparr>d_uint = read_definite 0,
      d_str = (\<lambda>b. bindE (read_block 3 b) (\<lambda>(x, r).
                 case from_utf8 x of Some s \<Rightarrow> Inr (s, r) | None \<Rightarrow> Inl (rs ''invalid utf-8''))),
      d_bytes = read_block 2,
      d_bool = (\<lambda>b. case b of x # r \<Rightarrow> if x = 0xF4 then Inr (False, r)
                  else if x = 0xF5 then Inr (True, r) else Inl (rs ''unexpected type'')
                | [] \<Rightarrow> Inl (rs ''end of input'')),
      d_null = (\<lambda>b. case b of x # r \<Rightarrow> if x = 0xF6 then Inr ((), r) else Inl (rs ''unexpected type'')
                | [] \<Rightarrow> Inl (rs ''end of input'')),
      d_map = read_head 5, d_array = read_head 4, d_range = rs ''integer out of range'',
      e_uint = cbor_head 0, e_str = (\<lambda>s. cbor_head 3 (str_len s) @ utf8 s),
      e_bytes = (\<lambda>b. cbor_head 2 (length b) @ b), e_bool = (\<lambda>b. [if b then 0xF5 else 0xF4]),
      e_map = cbor_head 5, e_array = cbor_head 4\<rparr>"

lemma read_head_cbor_head:
  assumes "n < 2 ^ 64" and "major < 8"
  shows "read_head major (cbor_head major n @ r) = Inr (Some n, r)"
proof -
  have head: "unat (head_byte major k) = major * 32 + k" if "k < 32" for k
    using assms(2) that unfolding head_byte_def by (intro of_nat_inverse [OF refl]) simp
  have arg: "cbor_argument k (be k n @ r) = Inr (Some n, r)" if "n < 256 ^ k" for k
    using that by (simp add: cbor_argument_def from_be_be)
  have one: "cbor_argument (Suc 0) (word_of_nat n # r) = Inr (Some n, r)" if "n < 2 ^ 8"
    using arg [of 1] that by simp
  consider "n < 24" | "24 \<le> n" "n < 2 ^ 8" | "2 ^ 8 \<le> n" "n < 2 ^ 16" | "2 ^ 16 \<le> n" "n < 2 ^ 32" | "2 ^ 32 \<le> n"
    by linarith
  then show ?thesis
    by cases (use assms(1) in \<open>simp_all add: cbor_head_def head arg one\<close>)
qed

lemma read_block_cbor_head:
  assumes "length x < 2 ^ 64" and "major < 8"
  shows "read_block major (cbor_head major (length x) @ x @ r) = Inr (x, r)"
  using read_head_cbor_head [OF assms] by (simp add: read_block_def read_definite_def)

lemma rfc_cbor_ok: "cbor_ok rfc_cbor"
proof -
  have str: "d_str rfc_cbor (e_str rfc_cbor s @ r) = Inr (s, r)"
    if "\<forall>c \<in> set s. scalar c" "str_len s < 2 ^ 64" for s r
    using read_block_cbor_head [of "utf8 s" 3 r] that by (simp add: rfc_cbor_def str_len_def from_utf8_utf8)
  have scalars: "\<forall>c \<in> set s. scalar c" if "d_str rfc_cbor b = Inr (s, r)" for b s r
    using that by (auto simp: rfc_cbor_def bindE_eq_Inr dest: from_utf8_Some split: option.splits)
  have blk: "d_bytes rfc_cbor (e_bytes rfc_cbor b @ r) = Inr (b, r)" if "length b < 2 ^ 64" for b r
    using read_block_cbor_head [of b 2 r] that by (simp add: rfc_cbor_def)
  show ?thesis
    unfolding cbor_ok_def using str scalars blk
    by (auto simp: rfc_cbor_def read_definite_def read_head_cbor_head)
qed

text \<open>The empty map is the byte \<open>A0\<close>, as the protocol document has it.\<close>

lemma rfc_cbor_empty_map: "e_map rfc_cbor 0 = [0xA0]"
  by (simp add: rfc_cbor_def cbor_head_def head_byte_def)

end
