(* ===== verification/CodecRules.thy ===== *)
theory CodecRules
  imports Codec Cbor
begin

text \<open>
  What the codecs promise: a well-formed message is read back from its encoding, and a message that
  the decoder accepts, whatever bytes a peer sent, is well-formed. Each payload is an instance of
  the locale \<open>schema\<close>; the theorems for whole messages and byte streams are in \<open>CodecStream\<close>.
\<close>

section \<open>Well-formed messages\<close>

definition text_fits :: "limits \<Rightarrow> rstring \<Rightarrow> bool" where
  "text_fits l s \<longleftrightarrow> (\<forall>c \<in> set s. scalar c) \<and> str_len s \<le> max_cbor_text_bytes l"

text \<open>Limits that leave room for every fixed-size field and for a nickname.\<close>

definition roomy :: "limits \<Rightarrow> bool" where
  "roomy l \<longleftrightarrow>
     6 \<le> max_cbor_map_entries l \<and> 3 \<le> max_cbor_nesting_depth l \<and>
     64 \<le> max_cbor_bytes_len l \<and> 128 \<le> max_cbor_text_bytes l \<and>
     max_cbor_bytes_len l < 2 ^ 64 \<and> max_cbor_text_bytes l < 2 ^ 64 \<and> max_cbor_array_entries l < 2 ^ 64"

text \<open>
  Unicode normalization returns text that stays normalized when runs of spaces are collapsed, and
  keeps it a list of scalar values.
\<close>

definition nfc_ok :: "(rstring \<Rightarrow> rstring) \<Rightarrow> bool" where
  "nfc_ok nfc \<longleftrightarrow> (\<forall>s. (\<forall>c \<in> set s. scalar c) \<longrightarrow>
     (\<forall>c \<in> set (nfc s). scalar c) \<and> nfc (collapse_spaces (nfc s)) = collapse_spaces (nfc s))"

definition client_hello_ok :: "limits \<Rightarrow> client_hello \<Rightarrow> bool" where
  "client_hello_ok l m \<longleftrightarrow> length (ch_client_nonce m) = NONCE_LEN"

definition host_hello_ok :: "limits \<Rightarrow> host_hello \<Rightarrow> bool" where
  "host_hello_ok l m \<longleftrightarrow>
     length (hh_room_session_id m) = ROOM_SESSION_ID_LEN \<and>
     length (hh_host_ed25519_pubkey m) = ED25519_PUBKEY_LEN \<and>
     length (hh_host_x25519_pubkey m) = X25519_PUBKEY_LEN \<and>
     length (hh_server_nonce m) = NONCE_LEN \<and> length (hh_host_signature m) = ED25519_SIGNATURE_LEN"

definition token_verify_ok :: "limits \<Rightarrow> token_verify \<Rightarrow> bool" where
  "token_verify_ok l m \<longleftrightarrow> 16 \<le> length (tv_token m) \<and> length (tv_token m) \<le> 32"

definition password_challenge_ok :: "limits \<Rightarrow> password_challenge \<Rightarrow> bool" where
  "password_challenge_ok l m \<longleftrightarrow>
     length (pc_salt m) = SALT_LEN \<and> length (pc_challenge_nonce m) = NONCE_LEN"

definition challenge_proof_ok :: "limits \<Rightarrow> challenge_proof \<Rightarrow> bool" where
  "challenge_proof_ok l m \<longleftrightarrow> length (cp_proof m) = HMAC_LEN"

definition join_request_ok :: "(rstring \<Rightarrow> rstring) \<Rightarrow> limits \<Rightarrow> join_request_msg \<Rightarrow> bool" where
  "join_request_ok nfc l m \<longleftrightarrow>
     validate_nickname nfc (jr_nickname m) default_limits = Inr (jr_nickname m) \<and>
     text_fits l (jr_nickname m) \<and>
     (\<forall>i. jr_introduction m = Some i \<longrightarrow> validate_intro i default_limits = Inr () \<and> text_fits l i) \<and>
     length (jr_ed25519_pubkey m) = ED25519_PUBKEY_LEN \<and>
     length (jr_x25519_pubkey m) = X25519_PUBKEY_LEN \<and> length (jr_signature m) = ED25519_SIGNATURE_LEN"

definition join_accepted_ok :: "limits \<Rightarrow> join_accepted \<Rightarrow> bool" where
  "join_accepted_ok l m \<longleftrightarrow> True"

definition join_rejected_ok :: "limits \<Rightarrow> join_rejected \<Rightarrow> bool" where
  "join_rejected_ok l m \<longleftrightarrow>
     (\<forall>r. jx_reason m = Some r \<longrightarrow> r \<noteq> [] \<and> str_len r \<le> MAX_REJECT_REASON_BYTES \<and>
        \<not> contains_control_char r \<and> text_fits l r)"

definition epoch_wrap_ok :: "limits \<Rightarrow> epoch_wrap \<Rightarrow> bool" where
  "epoch_wrap_ok l m \<longleftrightarrow>
     length (ew_nonce m) = XCHACHA_NONCE_LEN \<and> length (ew_ciphertext m) = EPOCH_WRAP_CIPHERTEXT_LEN"

definition epoch_ack_ok :: "limits \<Rightarrow> epoch_ack \<Rightarrow> bool" where
  "epoch_ack_ok l m \<longleftrightarrow> True"

definition snapshot_member_ok :: "limits \<Rightarrow> snapshot_member \<Rightarrow> bool" where
  "snapshot_member_ok l m \<longleftrightarrow>
     text_fits l (sm_nickname m) \<and> length (sm_ed25519_pubkey m) = ED25519_PUBKEY_LEN"

definition member_joined_ok :: "limits \<Rightarrow> member_joined \<Rightarrow> bool" where
  "member_joined_ok l m \<longleftrightarrow>
     text_fits l (mj_nickname m) \<and> length (mj_ed25519_pubkey m) = ED25519_PUBKEY_LEN \<and>
     length (mj_signature m) = 64"

definition member_gone_ok :: "limits \<Rightarrow> member_gone \<Rightarrow> bool" where
  "member_gone_ok l m \<longleftrightarrow> length (mg_signature m) = 64"

definition join_policy_ok :: "limits \<Rightarrow> join_policy_changed \<Rightarrow> bool" where
  "join_policy_ok l m \<longleftrightarrow> length (jp_signature m) = 64"

definition member_snapshot_ok :: "limits \<Rightarrow> member_snapshot \<Rightarrow> bool" where
  "member_snapshot_ok l m \<longleftrightarrow>
     length (ms_members m) \<le> max_cbor_array_entries l \<and>
     (\<forall>s \<in> set (ms_members m). snapshot_member_ok l s) \<and> length (ms_signature m) = 64"

definition envelope_ok :: "limits \<Rightarrow> envelope \<Rightarrow> bool" where
  "envelope_ok l m \<longleftrightarrow>
     length (env_nonce m) = XCHACHA_NONCE_LEN \<and> length (env_signature m) = ED25519_SIGNATURE_LEN \<and>
     CHAT_MIN_CIPHERTEXT_LEN \<le> length (env_ciphertext m) \<and>
     length (env_ciphertext m) \<le> CHAT_MAX_CIPHERTEXT_LEN \<and>
     length (env_ciphertext m) \<le> max_cbor_bytes_len l"

definition empty_ok :: "limits \<Rightarrow> unit \<Rightarrow> bool" where
  "empty_ok l m \<longleftrightarrow> True"

definition error_message_ok :: "limits \<Rightarrow> error_message \<Rightarrow> bool" where
  "error_message_ok l m \<longleftrightarrow>
     (\<forall>r. em_reason m = Some r \<longrightarrow> validate_reason r = Inr () \<and> text_fits l r)"

lemmas schema_ok_defs =
  client_hello_ok_def host_hello_ok_def token_verify_ok_def password_challenge_ok_def
  challenge_proof_ok_def join_request_ok_def join_accepted_ok_def join_rejected_ok_def
  epoch_wrap_ok_def epoch_ack_ok_def snapshot_member_ok_def member_joined_ok_def member_gone_ok_def
  join_policy_ok_def member_snapshot_ok_def envelope_ok_def empty_ok_def error_message_ok_def

lemmas size_defs =
  NONCE_LEN_def SALT_LEN_def ROOM_SESSION_ID_LEN_def ED25519_PUBKEY_LEN_def ED25519_SIGNATURE_LEN_def
  X25519_PUBKEY_LEN_def HMAC_LEN_def XCHACHA_NONCE_LEN_def EPOCH_WRAP_CIPHERTEXT_LEN_def
  EPOCH_KEY_LEN_def XCHACHA_TAG_LEN_def

section \<open>Reading what was written\<close>

abbreviation sd_at :: "limits \<Rightarrow> nat \<Rightarrow> bytes \<Rightarrow> strict_decoder" where
  "sd_at l k r \<equiv> \<lparr>sd_inner = r, sd_depth = k, sd_limits = l\<rparr>"

lemma read_put:
  "cbor_ok B \<Longrightarrow> unat (w :: 'a::len word) < 2 ^ 64 \<Longrightarrow> d_uint B (put B w @ r) = Inr (unat w, r)"
  by (simp add: cbor_ok_def put_def)

lemma unat_u8: "unat (w :: u8) < 256" and unat_u32: "unat (v :: u32) < 2 ^ 32"
  and unat_u64: "unat (u :: u64) < 2 ^ 64"
  using unsigned_less [where ?'a = nat, of w] unsigned_less [where ?'a = nat, of v]
    unsigned_less [where ?'a = nat, of u] by simp_all

lemma strict_put:
  assumes "cbor_ok B"
  shows "strict_u8 B (sd_at l k (put B (w :: u8) @ r)) = (Inr w, sd_at l k r)"
    and "strict_u32 B (sd_at l k (put B (v :: u32) @ r)) = (Inr v, sd_at l k r)"
    and "strict_u64 B (sd_at l k (put B (u :: u64) @ r)) = (Inr u, sd_at l k r)"
    and "strict_u64 B (sd_at l k (put B (w :: u8) @ r)) = (Inr (ucast w), sd_at l k r)"
  using unat_u8 [of w] unat_u32 [of v] unat_u64 [of u]
  by (simp_all add: strict_u8_def strict_u32_def strict_u64_def read_uint_def read_token_def read_put [OF assms])

lemma strict_str_e:
  "cbor_ok B \<Longrightarrow> text_fits l s \<Longrightarrow> roomy l \<Longrightarrow> strict_str B (sd_at l k (e_str B s @ r)) = (Inr s, sd_at l k r)"
  by (simp add: strict_str_def read_token_def cbor_ok_def text_fits_def roomy_def)

lemma strict_bytes_e:
  "cbor_ok B \<Longrightarrow> length b \<le> max_cbor_bytes_len l \<Longrightarrow> roomy l \<Longrightarrow>
   strict_bytes B (sd_at l k (e_bytes B b @ r)) = (Inr b, sd_at l k r)"
  by (simp add: strict_bytes_def read_token_def cbor_ok_def roomy_def)

lemma strict_bool_e: "cbor_ok B \<Longrightarrow> strict_bool B (sd_at l k (e_bool B b @ r)) = (Inr b, sd_at l k r)"
  by (simp add: strict_bool_def read_token_def cbor_ok_def)

lemma sized_bytes_e:
  "cbor_ok B \<Longrightarrow> roomy l \<Longrightarrow> n \<le> 64 \<Longrightarrow> length b = n \<Longrightarrow>
   sized_bytes B n f detail (sd_at l k (e_bytes B b @ r)) = (Inr b, sd_at l k r)"
  by (simp add: sized_bytes_def strictly_def strict_bytes_e roomy_def)

lemma map_entries_e:
  assumes "cbor_ok B" and "roomy l" and "n \<le> 6" and "k < max_cbor_nesting_depth l"
  shows "map_entries B wrap entry acc (sd_at l k (e_map B n @ r)) =
    leave_container (read_map_entries B wrap entry n [] acc (sd_at l (Suc k) r))"
proof -
  have "d_map B (e_map B n @ r) = Inr (Some n, r)" using assms(1,3) by (simp add: cbor_ok_def)
  then show ?thesis using assms(2-4)
    by (simp add: map_entries_def read_token_def enter_container_def roomy_def)
qed

lemma read_map_entries_numeral [simp]:
  "read_map_entries B wrap entry (numeral n) seen acc d =
     (case strict_u64 B d of
        (Inl e, d1) \<Rightarrow> (Inl (wrap e), d1)
      | (Inr key, d1) \<Rightarrow>
          if key \<in> set seen then (Inl (wrap (SE_DuplicateMapKey key)), d1)
          else tryS (entry key acc d1)
                 (\<lambda>acc' d2. read_map_entries B wrap entry (pred_numeral n) (seen @ [key]) acc' d2))"
  by (simp add: numeral_eq_Suc)

lemma leave_simps [simp]:
  "leave_container (Inr x, sd_at l (Suc k) r) = (Inr x, sd_at l k r)"
  by (simp add: leave_container_def)

lemmas reading = strict_put strict_str_e strict_bytes_e strict_bool_e sized_bytes_e map_entries_e
  field_def strictly_def required_def fixed_bytes_def read_signature_def pubkey_field_def size_defs

lemma client_hello_reads:
  "cbor_ok B \<Longrightarrow> roomy l \<Longrightarrow> client_hello_ok l m \<Longrightarrow>
   client_hello_decode B (sd_at l 0 (client_hello_encode B m @ r)) = (Inr m, sd_at l 0 r)"
  by (simp add: client_hello_decode_def client_hello_encode_def client_hello_ok_def reading roomy_def)

lemma host_hello_reads:
  "cbor_ok B \<Longrightarrow> roomy l \<Longrightarrow> host_hello_ok l m \<Longrightarrow>
   host_hello_decode B (sd_at l 0 (host_hello_encode B m @ r)) = (Inr m, sd_at l 0 r)"
  by (simp add: host_hello_decode_def host_hello_encode_def host_hello_ok_def reading roomy_def)

lemma token_verify_reads:
  "cbor_ok B \<Longrightarrow> roomy l \<Longrightarrow> token_verify_ok l m \<Longrightarrow>
   token_verify_decode B (sd_at l 0 (token_verify_encode B m @ r)) = (Inr m, sd_at l 0 r)"
  by (simp add: token_verify_decode_def token_verify_encode_def token_verify_ok_def token_verify_new_def reading roomy_def)

lemma password_challenge_reads:
  "cbor_ok B \<Longrightarrow> roomy l \<Longrightarrow> password_challenge_ok l m \<Longrightarrow>
   password_challenge_decode B (sd_at l 0 (password_challenge_encode B m @ r)) = (Inr m, sd_at l 0 r)"
  by (simp add: password_challenge_decode_def password_challenge_encode_def password_challenge_ok_def reading roomy_def)

lemma challenge_proof_reads:
  "cbor_ok B \<Longrightarrow> roomy l \<Longrightarrow> challenge_proof_ok l m \<Longrightarrow>
   challenge_proof_decode B (sd_at l 0 (challenge_proof_encode B m @ r)) = (Inr m, sd_at l 0 r)"
  by (simp add: challenge_proof_decode_def challenge_proof_encode_def challenge_proof_ok_def reading roomy_def)

lemma join_accepted_reads:
  "cbor_ok B \<Longrightarrow> roomy l \<Longrightarrow> join_accepted_ok l m \<Longrightarrow>
   join_accepted_decode B (sd_at l 0 (join_accepted_encode B m @ r)) = (Inr m, sd_at l 0 r)"
  by (simp add: join_accepted_decode_def join_accepted_encode_def join_accepted_ok_def reading roomy_def)

lemma epoch_wrap_reads:
  "cbor_ok B \<Longrightarrow> roomy l \<Longrightarrow> epoch_wrap_ok l m \<Longrightarrow>
   epoch_wrap_decode B (sd_at l 0 (epoch_wrap_encode B m @ r)) = (Inr m, sd_at l 0 r)"
  by (simp add: epoch_wrap_decode_def epoch_wrap_encode_def epoch_wrap_ok_def epoch_wrap_new_def reading roomy_def)

lemma epoch_ack_reads:
  "cbor_ok B \<Longrightarrow> roomy l \<Longrightarrow> epoch_ack_ok l m \<Longrightarrow>
   epoch_ack_decode B (sd_at l 0 (epoch_ack_encode B m @ r)) = (Inr m, sd_at l 0 r)"
  by (simp add: epoch_ack_decode_def epoch_ack_encode_def epoch_ack_ok_def reading roomy_def)

lemma member_joined_reads:
  "cbor_ok B \<Longrightarrow> roomy l \<Longrightarrow> member_joined_ok l m \<Longrightarrow>
   member_joined_decode B (sd_at l 0 (member_joined_encode B m @ r)) = (Inr m, sd_at l 0 r)"
  by (simp add: member_joined_decode_def member_joined_encode_def member_joined_ok_def reading roomy_def)

lemma member_gone_reads:
  "cbor_ok B \<Longrightarrow> roomy l \<Longrightarrow> member_gone_ok l m \<Longrightarrow>
   member_gone_decode B (sd_at l 0 (member_gone_encode B m @ r)) = (Inr m, sd_at l 0 r)"
  by (simp add: member_gone_decode_def member_gone_encode_def member_gone_ok_def reading roomy_def)

lemma join_policy_reads:
  "cbor_ok B \<Longrightarrow> roomy l \<Longrightarrow> join_policy_ok l m \<Longrightarrow>
   join_policy_decode B (sd_at l 0 (join_policy_encode B m @ r)) = (Inr m, sd_at l 0 r)"
  by (simp add: join_policy_decode_def join_policy_encode_def join_policy_ok_def reading roomy_def)

lemma envelope_reads:
  "cbor_ok B \<Longrightarrow> roomy l \<Longrightarrow> envelope_ok l m \<Longrightarrow>
   envelope_decode B (sd_at l 0 (envelope_encode B m @ r)) = (Inr m, sd_at l 0 r)"
  by (simp add: envelope_decode_def envelope_encode_def envelope_ok_def envelope_new_def CHAT_MIN_CIPHERTEXT_LEN_def CHAT_MAX_CIPHERTEXT_LEN_def reading roomy_def)

lemma join_request_reads:
  "cbor_ok B \<Longrightarrow> roomy l \<Longrightarrow> join_request_ok nfc l m \<Longrightarrow>
   join_request_decode nfc B (sd_at l 0 (join_request_encode B m @ r)) = (Inr m, sd_at l 0 r)"
  by (cases "jr_introduction m")
    (simp_all add: join_request_decode_def join_request_encode_def join_request_ok_def join_request_new_def
      reading roomy_def)

lemma join_rejected_reads:
  "cbor_ok B \<Longrightarrow> roomy l \<Longrightarrow> join_rejected_ok l m \<Longrightarrow>
   join_rejected_decode B (sd_at l 0 (join_rejected_encode B m @ r)) = (Inr m, sd_at l 0 r)"
  by (cases "jx_reason m")
    (simp_all add: join_rejected_decode_def join_rejected_encode_def join_rejected_ok_def join_rejected_new_def
      reading roomy_def)

lemma error_message_reads:
  "cbor_ok B \<Longrightarrow> roomy l \<Longrightarrow> error_message_ok l m \<Longrightarrow>
   error_message_decode B (sd_at l 0 (error_message_encode B m @ r)) = (Inr m, sd_at l 0 r)"
  by (cases "em_reason m")
    (simp_all add: error_message_decode_def error_message_encode_def error_message_ok_def reading roomy_def)

lemma empty_reads:
  "cbor_ok B \<Longrightarrow> roomy l \<Longrightarrow> empty_decode B (sd_at l 0 (empty_encode B @ r)) = (Inr (), sd_at l 0 r)"
  by (simp add: empty_decode_def empty_encode_def reading roomy_def)

lemma snapshot_member_reads:
  "cbor_ok B \<Longrightarrow> roomy l \<Longrightarrow> snapshot_member_ok l m \<Longrightarrow>
   snapshot_member_decode B (sd_at l 2 (snapshot_member_encode B m @ r)) = (Inr m, sd_at l 2 r)"
  by (simp add: snapshot_member_decode_def snapshot_member_encode_def snapshot_member_ok_def reading roomy_def
      leave_container_def)

lemma snapshot_members_read:
  assumes "cbor_ok B" and "roomy l"
  shows "\<forall>m \<in> set ms. snapshot_member_ok l m \<Longrightarrow>
   read_array_entries (\<lambda>decoded d. field (snapshot_member_decode B d) (\<lambda>m. decoded @ [m])) (length ms) acc
     (sd_at l 2 (concat (map (snapshot_member_encode B) ms) @ r)) = (Inr (acc @ ms), sd_at l 2 r)"
  by (induction ms arbitrary: acc) (simp_all add: field_def snapshot_member_reads [OF assms])

lemma member_snapshot_reads:
  assumes "cbor_ok B" and "roomy l" and "member_snapshot_ok l m"
  shows "member_snapshot_decode B (sd_at l 0 (member_snapshot_encode B m @ r)) = (Inr m, sd_at l 0 r)"
proof -
  let ?read = "\<lambda>decoded d. field (snapshot_member_decode B d) (\<lambda>m. decoded @ [m])"
  have arr: "d_array B (e_array B (length (ms_members m)) @ q) = Inr (Some (length (ms_members m)), q)" for q
    using assms by (simp add: cbor_ok_def roomy_def member_snapshot_ok_def)
  have "array_entries B PE_Cbor ?read [] (sd_at l 1
      (e_array B (length (ms_members m)) @ concat (map (snapshot_member_encode B) (ms_members m)) @ q)) =
    (Inr (ms_members m), sd_at l 1 q)" for q
    using assms snapshot_members_read [OF assms(1,2), of "ms_members m" "[]"]
    by (simp add: array_entries_def read_token_def arr enter_container_def roomy_def member_snapshot_ok_def
        leave_container_def numeral_2_eq_2)
  with assms show ?thesis
    by (simp add: member_snapshot_decode_def member_snapshot_encode_def member_snapshot_ok_def reading roomy_def)
qed

section \<open>What an accepted payload satisfies\<close>

text \<open>Every reading step leaves the limits alone; a step that succeeds says what it read.\<close>

lemma read_token_limits: "read_token rd d = (Inr x, d') \<Longrightarrow> sd_limits d' = sd_limits d \<and> (\<exists>r. rd (sd_inner d) = Inr (x, r))"
  by (auto simp: read_token_def split: sum.splits)

lemma tryS_eq_Inr: "tryS m f = (Inr y, s') \<longleftrightarrow> (\<exists>x s. m = (Inr x, s) \<and> f x s = (Inr y, s'))"
  by (cases m; cases "fst m") auto

lemma strictly_eq: "strictly r = (Inr x, d') \<longleftrightarrow> r = (Inr x, d')"
  by (cases r; cases "fst r") (auto simp: strictly_def)

lemma field_eq: "field r p = (Inr a, d') \<longleftrightarrow> (\<exists>v. r = (Inr v, d') \<and> a = p v)"
  by (auto simp: field_def tryS_eq_Inr)

lemma strict_uint_limits:
  "strict_u8 B d = (Inr x, d') \<Longrightarrow> sd_limits d' = sd_limits d"
  "strict_u32 B d = (Inr y, d') \<Longrightarrow> sd_limits d' = sd_limits d"
  "strict_u64 B d = (Inr z, d') \<Longrightarrow> sd_limits d' = sd_limits d"
  "strict_bool B d = (Inr b, d') \<Longrightarrow> sd_limits d' = sd_limits d"
  by (auto simp: strict_u8_def strict_u32_def strict_u64_def strict_bool_def read_uint_def tryS_eq_Inr
      dest!: read_token_limits split: if_splits)

lemma d_str_scalar: "cbor_ok B \<Longrightarrow> d_str B b = Inr (s, r) \<Longrightarrow> \<forall>c \<in> set s. scalar c"
  unfolding cbor_ok_def by blast

lemma strict_str_sound:
  "cbor_ok B \<Longrightarrow> strict_str B d = (Inr s, d') \<Longrightarrow> text_fits (sd_limits d) s \<and> sd_limits d' = sd_limits d"
  by (auto simp: strict_str_def tryS_eq_Inr Let_def text_fits_def
      dest: d_str_scalar dest!: read_token_limits split: if_splits)

lemma strict_bytes_sound:
  "strict_bytes B d = (Inr b, d') \<Longrightarrow> length b \<le> max_cbor_bytes_len (sd_limits d) \<and> sd_limits d' = sd_limits d"
  by (auto simp: strict_bytes_def tryS_eq_Inr Let_def dest!: read_token_limits split: if_splits)

lemma sized_bytes_sound:
  "sized_bytes B n f detail d = (Inr b, d') \<Longrightarrow> length b = n \<and> sd_limits d' = sd_limits d"
  by (auto simp: sized_bytes_def tryS_eq_Inr strictly_eq dest!: strict_bytes_sound split: if_splits)

lemma fixed_bytes_sound:
  "fixed_bytes B n f d = (Inr b, d') \<Longrightarrow> length b = n \<and> sd_limits d' = sd_limits d"
  "read_signature B f d = (Inr b, d') \<Longrightarrow> length b = 64 \<and> sd_limits d' = sd_limits d"
  "pubkey_field B d = (Inr b, d') \<Longrightarrow> length b = ED25519_PUBKEY_LEN \<and> sd_limits d' = sd_limits d"
  by (auto simp: fixed_bytes_def read_signature_def pubkey_field_def dest: sized_bytes_sound)

text \<open>
  The loop rule: an invariant of the variables that every accepted entry keeps holds after the map,
  and so does one that every element keeps after the array.
\<close>

lemma read_map_entries_inv:
  assumes "read_map_entries B wrap entry n seen acc d = (Inr acc', d')" and "P acc" and "sd_limits d = l"
    and step: "\<And>k a s a' s'. entry k a s = (Inr a', s') \<Longrightarrow> P a \<Longrightarrow> sd_limits s = l \<Longrightarrow> P a' \<and> sd_limits s' = l"
  shows "P acc' \<and> sd_limits d' = l"
  using assms(1-3)
proof (induction n arbitrary: seen acc d)
  case 0
  then show ?case by simp
next
  case (Suc n)
  from Suc.prems(1) obtain key d1 a d2 where "strict_u64 B d = (Inr key, d1)" "entry key acc d1 = (Inr a, d2)"
    "read_map_entries B wrap entry n (seen @ [key]) a d2 = (Inr acc', d')"
    by (auto simp: tryS_eq_Inr split: prod.splits sum.splits if_splits)
  with Suc.IH Suc.prems(2,3) step strict_uint_limits(3) show ?case by metis
qed

lemma leave_container_eq:
  "leave_container r = (Inr x, d') \<Longrightarrow> \<exists>d. r = (Inr x, d) \<and> sd_limits d' = sd_limits d"
  by (cases r) (auto simp: leave_container_def)

lemma enter_container_limits: "enter_container n m kind d = (Inr u, d') \<Longrightarrow> sd_limits d' = sd_limits d \<and> n \<le> m"
  by (auto simp: enter_container_def split: if_splits)

lemma map_entries_inv:
  assumes "map_entries B wrap entry acc d = (Inr acc', d')" and "P acc"
    and step: "\<And>k a s a' s'. entry k a s = (Inr a', s') \<Longrightarrow> P a \<Longrightarrow> sd_limits s = sd_limits d \<Longrightarrow>
      P a' \<and> sd_limits s' = sd_limits d"
  shows "P acc' \<and> sd_limits d' = sd_limits d"
proof -
  from assms(1) obtain n d1 d2 where d1: "read_token (d_map B) d = (Inr (Some n), d1)"
    and d2: "enter_container n (max_cbor_map_entries (sd_limits d1)) CK_Map d1 = (Inr (), d2)"
    and r: "leave_container (read_map_entries B wrap entry n [] acc d2) = (Inr acc', d')"
    by (auto simp: map_entries_def split: prod.splits sum.splits option.splits)
  have l: "sd_limits d2 = sd_limits d" using read_token_limits [OF d1] enter_container_limits [OF d2] by simp
  from leave_container_eq [OF r] obtain d3 where
    "read_map_entries B wrap entry n [] acc d2 = (Inr acc', d3)" "sd_limits d' = sd_limits d3" by blast
  with read_map_entries_inv [where P = P, OF this(1) assms(2) l step] show ?thesis by simp
qed

lemma schema_inv:
  assumes "tryS (map_entries B PE_Cbor entry acc0 d) build = (Inr m, d')" and "P acc0"
    and "\<And>k a s a' s'. entry k a s = (Inr a', s') \<Longrightarrow> P a \<Longrightarrow> sd_limits s = sd_limits d \<Longrightarrow>
      P a' \<and> sd_limits s' = sd_limits d"
    and "\<And>a s. P a \<Longrightarrow> sd_limits s = sd_limits d \<Longrightarrow> build a s = (Inr m, d') \<Longrightarrow> R"
  shows R
  using assms map_entries_inv [where P = P, of B PE_Cbor entry acc0 d] by (auto simp: tryS_eq_Inr)

lemmas accepting = field_eq strictly_eq bindE_eq_Inr required_def
lemmas accepted = strict_uint_limits strict_bytes_sound fixed_bytes_sound sized_bytes_sound

lemma client_hello_accepts:
  assumes "client_hello_decode B d = (Inr m, d')"
  shows "client_hello_ok (sd_limits d) m \<and> sd_limits d' = sd_limits d"
  by (rule schema_inv [OF assms [unfolded client_hello_decode_def],
        where P = "\<lambda>(v, n, f). (\<forall>y. n = Some y \<longrightarrow> length y = NONCE_LEN)"])
    (auto simp: accepting client_hello_ok_def dest!: accepted split: if_splits)

lemma host_hello_accepts:
  assumes "host_hello_decode B d = (Inr m, d')"
  shows "host_hello_ok (sd_limits d) m \<and> sd_limits d' = sd_limits d"
  by (rule schema_inv [OF assms [unfolded host_hello_decode_def],
        where P = "\<lambda>(v, s, e, x, n, g). (\<forall>y. s = Some y \<longrightarrow> length y = ROOM_SESSION_ID_LEN) \<and>
          (\<forall>y. e = Some y \<longrightarrow> length y = ED25519_PUBKEY_LEN) \<and>
          (\<forall>y. x = Some y \<longrightarrow> length y = X25519_PUBKEY_LEN) \<and>
          (\<forall>y. n = Some y \<longrightarrow> length y = NONCE_LEN) \<and>
          (\<forall>y. g = Some y \<longrightarrow> length y = ED25519_SIGNATURE_LEN)"])
    (auto simp: accepting host_hello_ok_def dest!: accepted split: if_splits)

lemma token_verify_accepts:
  assumes "token_verify_decode B d = (Inr m, d')"
  shows "token_verify_ok (sd_limits d) m \<and> sd_limits d' = sd_limits d"
  by (rule schema_inv [OF assms [unfolded token_verify_decode_def],
        where P = "\<lambda>_. True"])
    (auto simp: accepting token_verify_ok_def token_verify_new_def dest!: accepted split: if_splits)

lemma password_challenge_accepts:
  assumes "password_challenge_decode B d = (Inr m, d')"
  shows "password_challenge_ok (sd_limits d) m \<and> sd_limits d' = sd_limits d"
  by (rule schema_inv [OF assms [unfolded password_challenge_decode_def],
        where P = "\<lambda>(m, t, p, s, n). (\<forall>y. s = Some y \<longrightarrow> length y = SALT_LEN) \<and>
          (\<forall>y. n = Some y \<longrightarrow> length y = NONCE_LEN)"])
    (auto simp: accepting password_challenge_ok_def dest!: accepted split: if_splits)

lemma challenge_proof_accepts:
  assumes "challenge_proof_decode B d = (Inr m, d')"
  shows "challenge_proof_ok (sd_limits d) m \<and> sd_limits d' = sd_limits d"
  by (rule schema_inv [OF assms [unfolded challenge_proof_decode_def],
        where P = "\<lambda>p. (\<forall>y. p = Some y \<longrightarrow> length y = HMAC_LEN)"])
    (auto simp: accepting challenge_proof_ok_def dest!: accepted split: if_splits)

lemma join_accepted_accepts:
  assumes "join_accepted_decode B d = (Inr m, d')"
  shows "join_accepted_ok (sd_limits d) m \<and> sd_limits d' = sd_limits d"
  by (rule schema_inv [OF assms [unfolded join_accepted_decode_def],
        where P = "\<lambda>_. True"])
    (auto simp: accepting join_accepted_ok_def dest!: accepted split: if_splits)

lemma join_rejected_accepts:
  assumes "cbor_ok B" and "join_rejected_decode B d = (Inr m, d')"
  shows "join_rejected_ok (sd_limits d) m \<and> sd_limits d' = sd_limits d"
  by (rule schema_inv [OF assms(2) [unfolded join_rejected_decode_def],
        where P = "\<lambda>r. (\<forall>y. r = Some y \<longrightarrow> text_fits (sd_limits d) y)"])
    (auto simp: accepting join_rejected_ok_def join_rejected_new_def dest!: accepted strict_str_sound [OF assms(1)] split: if_splits option.splits)

lemma epoch_wrap_accepts:
  assumes "epoch_wrap_decode B d = (Inr m, d')"
  shows "epoch_wrap_ok (sd_limits d) m \<and> sd_limits d' = sd_limits d"
  by (rule schema_inv [OF assms [unfolded epoch_wrap_decode_def],
        where P = "\<lambda>(e, n, c). (\<forall>y. n = Some y \<longrightarrow> length y = XCHACHA_NONCE_LEN)"])
    (auto simp: accepting epoch_wrap_ok_def epoch_wrap_new_def dest!: accepted split: if_splits)

lemma epoch_ack_accepts:
  assumes "epoch_ack_decode B d = (Inr m, d')"
  shows "epoch_ack_ok (sd_limits d) m \<and> sd_limits d' = sd_limits d"
  by (rule schema_inv [OF assms [unfolded epoch_ack_decode_def],
        where P = "\<lambda>_. True"])
    (auto simp: accepting epoch_ack_ok_def dest!: accepted split: if_splits)

lemma snapshot_member_accepts:
  assumes "cbor_ok B" and "snapshot_member_decode B d = (Inr m, d')"
  shows "snapshot_member_ok (sd_limits d) m \<and> sd_limits d' = sd_limits d"
  by (rule schema_inv [OF assms(2) [unfolded snapshot_member_decode_def],
        where P = "\<lambda>(i, n, c, h, k). (\<forall>y. n = Some y \<longrightarrow> text_fits (sd_limits d) y) \<and>
          (\<forall>y. k = Some y \<longrightarrow> length y = ED25519_PUBKEY_LEN)"])
    (auto simp: accepting snapshot_member_ok_def dest!: accepted strict_str_sound [OF assms(1)] split: if_splits)

lemma member_joined_accepts:
  assumes "cbor_ok B" and "member_joined_decode B d = (Inr m, d')"
  shows "member_joined_ok (sd_limits d) m \<and> sd_limits d' = sd_limits d"
  by (rule schema_inv [OF assms(2) [unfolded member_joined_decode_def],
        where P = "\<lambda>(s, e, i, n, k, g). (\<forall>y. n = Some y \<longrightarrow> text_fits (sd_limits d) y) \<and>
          (\<forall>y. k = Some y \<longrightarrow> length y = ED25519_PUBKEY_LEN) \<and>
          (\<forall>y. g = Some y \<longrightarrow> length y = 64)"])
    (auto simp: accepting member_joined_ok_def dest!: accepted strict_str_sound [OF assms(1)] split: if_splits)

lemma member_gone_accepts:
  assumes "member_gone_decode B d = (Inr m, d')"
  shows "member_gone_ok (sd_limits d) m \<and> sd_limits d' = sd_limits d"
  by (rule schema_inv [OF assms [unfolded member_gone_decode_def],
        where P = "\<lambda>(s, e, i, g). (\<forall>y. g = Some y \<longrightarrow> length y = 64)"])
    (auto simp: accepting member_gone_ok_def dest!: accepted split: if_splits)

lemma join_policy_accepts:
  assumes "join_policy_decode B d = (Inr m, d')"
  shows "join_policy_ok (sd_limits d) m \<and> sd_limits d' = sd_limits d"
  by (rule schema_inv [OF assms [unfolded join_policy_decode_def],
        where P = "\<lambda>(s, e, b, g). (\<forall>y. g = Some y \<longrightarrow> length y = 64)"])
    (auto simp: accepting join_policy_ok_def dest!: accepted split: if_splits)

lemma envelope_accepts:
  assumes "envelope_decode B d = (Inr m, d')"
  shows "envelope_ok (sd_limits d) m \<and> sd_limits d' = sd_limits d"
  by (rule schema_inv [OF assms [unfolded envelope_decode_def],
        where P = "\<lambda>(e, i, s, n, c, g). (\<forall>y. n = Some y \<longrightarrow> length y = XCHACHA_NONCE_LEN) \<and>
          (\<forall>y. g = Some y \<longrightarrow> length y = ED25519_SIGNATURE_LEN) \<and>
          (\<forall>y. c = Some y \<longrightarrow> length y \<le> max_cbor_bytes_len (sd_limits d))"])
    (auto simp: accepting envelope_ok_def envelope_new_def dest!: accepted split: if_splits)

lemma error_message_accepts:
  assumes "cbor_ok B" and "error_message_decode B d = (Inr m, d')"
  shows "error_message_ok (sd_limits d) m \<and> sd_limits d' = sd_limits d"
  by (rule schema_inv [OF assms(2) [unfolded error_message_decode_def],
        where P = "\<lambda>(c, r). (\<forall>y. r = Some y \<longrightarrow> validate_reason y = Inr () \<and> text_fits (sd_limits d) y)"])
    (auto simp: accepting error_message_ok_def tryS_eq_Inr dest!: accepted strict_str_sound [OF assms(1)] split: if_splits)

lemma empty_accepts: "empty_decode B d = (Inr u, d') \<Longrightarrow> sd_limits d' = sd_limits d"
  using map_entries_inv [where P = "\<lambda>_. True"] by (fastforce simp: empty_decode_def)

lemma utf8_length: "str_len s \<le> 4 * length s"
  by (induction s) (auto simp: str_len_def utf8_def utf8_char_def)

lemma nickname_fits:
  assumes "nfc_ok nfc" and "roomy l" and "\<forall>c \<in> set s. scalar c" and "validate_nickname nfc s default_limits = Inr n"
  shows "validate_nickname nfc n default_limits = Inr n \<and> text_fits l n"
proof -
  note p = validate_nickname_parts [OF assms(4)]
  have nfc: "\<forall>c \<in> set (nfc s). scalar c" "nfc n = n" using assms(1,3) p(1) by (simp_all add: nfc_ok_def)
  have "c = 0x20 \<or> c \<in> set (nfc s)" if "c \<in> set n" for c using that p(1) collapse_chars by blast
  moreover have "scalar 0x20" by (simp add: scalar_def)
  ultimately have "\<forall>c \<in> set n. scalar c" using nfc(1) by metis
  moreover have "str_len n \<le> 128" using p(3) utf8_length [of n] by (simp add: default_limits_def)
  ultimately show ?thesis
    using validate_nickname_again [OF assms(4) nfc(2)] assms(2) by (simp add: text_fits_def roomy_def)
qed

lemma join_request_new_ok:
  assumes "join_request_new nfc n i e x g = Inr m" and "nfc_ok nfc" and "roomy l" and "text_fits l n"
    and "\<forall>y. i = Some y \<longrightarrow> text_fits l y" and "length e = ED25519_PUBKEY_LEN" and "length x = X25519_PUBKEY_LEN"
    and "length g = ED25519_SIGNATURE_LEN"
  shows "join_request_ok nfc l m"
proof -
  from assms(1) obtain n' where n: "validate_nickname nfc n default_limits = Inr n'"
    and i: "\<forall>y. i = Some y \<longrightarrow> validate_intro y default_limits = Inr ()"
    and m: "m = \<lparr>jr_nickname = n', jr_introduction = i, jr_ed25519_pubkey = e, jr_x25519_pubkey = x, jr_signature = g\<rparr>"
    by (auto simp: join_request_new_def bindE_eq_Inr split: option.splits)
  from nickname_fits [OF assms(2,3) _ n] assms(4) have "validate_nickname nfc n' default_limits = Inr n' \<and> text_fits l n'"
    by (simp add: text_fits_def)
  with m i assms(5-8) show ?thesis by (simp add: join_request_ok_def)
qed

lemma join_request_accepts:
  assumes "cbor_ok B" and "join_request_decode nfc B d = (Inr m, d')" and "nfc_ok nfc" and "roomy (sd_limits d)"
  shows "join_request_ok nfc (sd_limits d) m \<and> sd_limits d' = sd_limits d"
  by (rule schema_inv [OF assms(2) [unfolded join_request_decode_def],
        where P = "\<lambda>(n, i, e, x, g). (\<forall>y. n = Some y \<longrightarrow> text_fits (sd_limits d) y) \<and>
          (\<forall>y. i = Some y \<longrightarrow> text_fits (sd_limits d) y) \<and> (\<forall>y. e = Some y \<longrightarrow> length y = ED25519_PUBKEY_LEN) \<and>
          (\<forall>y. x = Some y \<longrightarrow> length y = X25519_PUBKEY_LEN) \<and> (\<forall>y. g = Some y \<longrightarrow> length y = ED25519_SIGNATURE_LEN)"])
    (auto simp: accepting dest!: accepted strict_str_sound [OF assms(1)] split: if_splits,
      erule join_request_new_ok [OF _ assms(3,4)], simp_all)

lemma read_array_entries_inv:
  assumes "read_array_entries element n acc d = (Inr acc', d')" and "P acc" and "sd_limits d = l"
    and step: "\<And>a s a' s'. element a s = (Inr a', s') \<Longrightarrow> P a \<Longrightarrow> sd_limits s = l \<Longrightarrow>
      P a' \<and> sd_limits s' = l \<and> length a' = Suc (length a)"
  shows "P acc' \<and> sd_limits d' = l \<and> length acc' = length acc + n"
  using assms(1-3)
proof (induction n arbitrary: acc d)
  case 0
  then show ?case by simp
next
  case (Suc n)
  from Suc.prems(1) obtain a d1 where "element acc d = (Inr a, d1)" "read_array_entries element n a d1 = (Inr acc', d')"
    by (auto simp: tryS_eq_Inr)
  with Suc.IH [of a d1] step Suc.prems(2,3) show ?case by fastforce
qed

lemma array_entries_inv:
  assumes "array_entries B wrap element [] d = (Inr acc', d')" and "P []"
    and step: "\<And>a s a' s'. element a s = (Inr a', s') \<Longrightarrow> P a \<Longrightarrow> sd_limits s = sd_limits d \<Longrightarrow>
      P a' \<and> sd_limits s' = sd_limits d \<and> length a' = Suc (length a)"
  shows "P acc' \<and> sd_limits d' = sd_limits d \<and> length acc' \<le> max_cbor_array_entries (sd_limits d)"
proof -
  from assms(1) obtain n d1 d2 where d1: "read_token (d_array B) d = (Inr (Some n), d1)"
    and d2: "enter_container n (max_cbor_array_entries (sd_limits d1)) CK_Array d1 = (Inr (), d2)"
    and r: "leave_container (read_array_entries element n [] d2) = (Inr acc', d')"
    by (auto simp: array_entries_def split: prod.splits sum.splits option.splits)
  have l: "sd_limits d2 = sd_limits d" "n \<le> max_cbor_array_entries (sd_limits d)"
    using read_token_limits [OF d1] enter_container_limits [OF d2] by simp_all
  from leave_container_eq [OF r] obtain d3 where
    "read_array_entries element n [] d2 = (Inr acc', d3)" "sd_limits d' = sd_limits d3" by blast
  with read_array_entries_inv [where P = P, OF this(1) assms(2) l(1) step] l(2) show ?thesis by simp
qed

lemma snapshot_array_accepts:
  assumes "cbor_ok B"
    and "array_entries B PE_Cbor (\<lambda>decoded d. field (snapshot_member_decode B d) (\<lambda>m. decoded @ [m])) [] d = (Inr ms, d')"
  shows "(\<forall>m \<in> set ms. snapshot_member_ok (sd_limits d) m) \<and> sd_limits d' = sd_limits d \<and>
    length ms \<le> max_cbor_array_entries (sd_limits d)"
  by (rule array_entries_inv [OF assms(2)])
    (auto simp: field_eq dest!: snapshot_member_accepts [OF assms(1)])

lemma member_snapshot_accepts:
  assumes "cbor_ok B" and "member_snapshot_decode B d = (Inr m, d')"
  shows "member_snapshot_ok (sd_limits d) m \<and> sd_limits d' = sd_limits d"
  by (rule schema_inv [OF assms(2) [unfolded member_snapshot_decode_def],
        where P = "\<lambda>(s, e, ms, g). (\<forall>y. ms = Some y \<longrightarrow> length y \<le> max_cbor_array_entries (sd_limits d) \<and>
          (\<forall>x \<in> set y. snapshot_member_ok (sd_limits d) x)) \<and> (\<forall>y. g = Some y \<longrightarrow> length y = 64)"])
    (auto simp: accepting member_snapshot_ok_def dest!: accepted snapshot_array_accepts [OF assms(1)] split: if_splits)

section \<open>The contract of a schema\<close>

text \<open>
  What \<open>decode_message_body\<close> needs of a payload's encoder and decoder: written payloads are read
  back, and accepted ones are well-formed. \<open>side\<close> is what a schema needs of the other library
  functions it calls.
\<close>

locale schema =
  fixes B :: cbor
    and dec :: "strict_decoder \<Rightarrow> (protocol_error + 'a) \<times> strict_decoder"
    and enc :: "'a \<Rightarrow> bytes"
    and ok :: "limits \<Rightarrow> 'a \<Rightarrow> bool"
    and side :: bool
  assumes reads: "cbor_ok B \<Longrightarrow> roomy l \<Longrightarrow> ok l m \<Longrightarrow>
      dec \<lparr>sd_inner = enc m @ r, sd_depth = 0, sd_limits = l\<rparr> =
        (Inr m, \<lparr>sd_inner = r, sd_depth = 0, sd_limits = l\<rparr>)"
    and accepts: "cbor_ok B \<Longrightarrow> side \<Longrightarrow> roomy (sd_limits d) \<Longrightarrow> dec d = (Inr m, d') \<Longrightarrow> ok (sd_limits d) m"
begin

lemma body_reads:
  assumes "cbor_ok B" and "roomy l" and "ok l m" and "frame_payload f = enc m @ r"
  shows "decode_message_body f dec l = (if r = [] then Inr m else Inl (PE_Cbor SE_TrailingData))"
  using reads [OF assms(1-3), of r] assms(4)
  by (simp add: decode_message_body_def strict_new_def strict_finish_def)

lemma body_accepts:
  assumes "cbor_ok B" and "side" and "roomy l" and "decode_message_body f dec l = Inr m"
  shows "ok l m"
  using accepts [OF assms(1,2), of "strict_new (frame_payload f) l" m] assms(3,4)
  by (auto simp: decode_message_body_def strict_new_def bindE_eq_Inr Let_def split: prod.splits)

end

interpretation client_hello: schema B "client_hello_decode B" "client_hello_encode B" client_hello_ok True for B
  by unfold_locales (simp_all add: client_hello_reads client_hello_accepts)

interpretation host_hello: schema B "host_hello_decode B" "host_hello_encode B" host_hello_ok True for B
  by unfold_locales (simp_all add: host_hello_reads host_hello_accepts)

interpretation token_verify: schema B "token_verify_decode B" "token_verify_encode B" token_verify_ok True for B
  by unfold_locales (simp_all add: token_verify_reads token_verify_accepts)

interpretation password_challenge: schema B "password_challenge_decode B" "password_challenge_encode B" password_challenge_ok True for B
  by unfold_locales (simp_all add: password_challenge_reads password_challenge_accepts)

interpretation challenge_proof: schema B "challenge_proof_decode B" "challenge_proof_encode B" challenge_proof_ok True for B
  by unfold_locales (simp_all add: challenge_proof_reads challenge_proof_accepts)

interpretation join_request: schema B "join_request_decode nfc B" "join_request_encode B" "join_request_ok nfc" "nfc_ok nfc" for nfc B
  by unfold_locales (simp_all add: join_request_reads join_request_accepts)

interpretation join_accepted: schema B "join_accepted_decode B" "join_accepted_encode B" join_accepted_ok True for B
  by unfold_locales (simp_all add: join_accepted_reads join_accepted_accepts)

interpretation join_rejected: schema B "join_rejected_decode B" "join_rejected_encode B" join_rejected_ok True for B
  by unfold_locales (simp_all add: join_rejected_reads join_rejected_accepts)

interpretation epoch_wrap: schema B "epoch_wrap_decode B" "epoch_wrap_encode B" epoch_wrap_ok True for B
  by unfold_locales (simp_all add: epoch_wrap_reads epoch_wrap_accepts)

interpretation epoch_ack: schema B "epoch_ack_decode B" "epoch_ack_encode B" epoch_ack_ok True for B
  by unfold_locales (simp_all add: epoch_ack_reads epoch_ack_accepts)

interpretation member_joined: schema B "member_joined_decode B" "member_joined_encode B" member_joined_ok True for B
  by unfold_locales (simp_all add: member_joined_reads member_joined_accepts)

interpretation member_gone: schema B "member_gone_decode B" "member_gone_encode B" member_gone_ok True for B
  by unfold_locales (simp_all add: member_gone_reads member_gone_accepts)

interpretation join_policy: schema B "join_policy_decode B" "join_policy_encode B" join_policy_ok True for B
  by unfold_locales (simp_all add: join_policy_reads join_policy_accepts)

interpretation member_snapshot: schema B "member_snapshot_decode B" "member_snapshot_encode B" member_snapshot_ok True for B
  by unfold_locales (simp_all add: member_snapshot_reads member_snapshot_accepts)

interpretation envelope: schema B "envelope_decode B" "envelope_encode B" envelope_ok True for B
  by unfold_locales (simp_all add: envelope_reads envelope_accepts)

interpretation error_message: schema B "error_message_decode B" "error_message_encode B" error_message_ok True for B
  by unfold_locales (simp_all add: error_message_reads error_message_accepts)

interpretation empty: schema B "empty_decode B" "\<lambda>_. empty_encode B" empty_ok True for B
  by unfold_locales (simp_all add: empty_reads empty_ok_def)

end
