(* ===== verification/CodecStream.thy ===== *)
theory CodecStream
  imports CodecRules
begin

text \<open>
  The codec theorems for whole messages: round trip with trailing data refused, well-formedness of
  everything that is accepted, and the round trip of a stream of messages through the frame layer.
\<close>

fun message_ok :: "(rstring \<Rightarrow> rstring) \<Rightarrow> limits \<Rightarrow> message \<Rightarrow> bool" where
  "message_ok nfc l M_Keepalive \<longleftrightarrow> True"
| "message_ok nfc l M_Shutdown \<longleftrightarrow> True"
| "message_ok nfc l (M_Error m) \<longleftrightarrow> error_message_ok l m"
| "message_ok nfc l (M_HostHello m) \<longleftrightarrow> host_hello_ok l m"
| "message_ok nfc l (M_ClientHello m) \<longleftrightarrow> client_hello_ok l m"
| "message_ok nfc l (M_TokenVerify m) \<longleftrightarrow> token_verify_ok l m"
| "message_ok nfc l (M_PasswordChallenge m) \<longleftrightarrow> password_challenge_ok l m"
| "message_ok nfc l (M_ChallengeProof m) \<longleftrightarrow> challenge_proof_ok l m"
| "message_ok nfc l (M_JoinRequest m) \<longleftrightarrow> join_request_ok nfc l m"
| "message_ok nfc l (M_JoinAccepted m) \<longleftrightarrow> join_accepted_ok l m"
| "message_ok nfc l (M_JoinRejected m) \<longleftrightarrow> join_rejected_ok l m"
| "message_ok nfc l (M_EpochWrap m) \<longleftrightarrow> epoch_wrap_ok l m"
| "message_ok nfc l (M_EpochAck m) \<longleftrightarrow> epoch_ack_ok l m"
| "message_ok nfc l (M_MemberJoined m) \<longleftrightarrow> member_joined_ok l m"
| "message_ok nfc l (M_MemberLeft m) \<longleftrightarrow> member_gone_ok l m"
| "message_ok nfc l (M_MemberKicked m) \<longleftrightarrow> member_gone_ok l m"
| "message_ok nfc l (M_JoinPolicyChanged m) \<longleftrightarrow> join_policy_ok l m"
| "message_ok nfc l (M_MemberSnapshot m) \<longleftrightarrow> member_snapshot_ok l m"
| "message_ok nfc l (M_ChatMessage m) \<longleftrightarrow> envelope_ok l m"
| "message_ok nfc l (M_ColorChange m) \<longleftrightarrow> envelope_ok l m"
| "message_ok nfc l (M_TimeoutRequest m) \<longleftrightarrow> envelope_ok l m"
| "message_ok nfc l (M_TimeoutChanged m) \<longleftrightarrow> envelope_ok l m"

lemmas bodies_read =
  client_hello.body_reads host_hello.body_reads token_verify.body_reads password_challenge.body_reads challenge_proof.body_reads join_request.body_reads join_accepted.body_reads join_rejected.body_reads epoch_wrap.body_reads epoch_ack.body_reads member_joined.body_reads member_gone.body_reads join_policy.body_reads member_snapshot.body_reads envelope.body_reads error_message.body_reads empty.body_reads

lemmas bodies_accepted =
  client_hello.body_accepts host_hello.body_accepts token_verify.body_accepts password_challenge.body_accepts challenge_proof.body_accepts join_request.body_accepts join_accepted.body_accepts join_rejected.body_accepts epoch_wrap.body_accepts epoch_ack.body_accepts member_joined.body_accepts member_gone.body_accepts join_policy.body_accepts member_snapshot.body_accepts envelope.body_accepts error_message.body_accepts

lemma empty_body: "cbor_ok B \<Longrightarrow> roomy l \<Longrightarrow> frame_payload f = empty_encode B @ r \<Longrightarrow>
   decode_message_body f (empty_decode B) l = (if r = [] then Inr () else Inl (PE_Cbor SE_TrailingData))"
  by (rule empty.body_reads) (simp_all add: empty_ok_def)

lemma decode_encoded:
  assumes "cbor_ok B" and "roomy l" and "message_ok nfc l m"
    and "frame_type f = message_message_type m" and "frame_payload f = encode_body B m @ r"
  shows "decode_message nfc B f l = (if r = [] then Inr m else Inl (PE_Cbor SE_TrailingData))"
  using assms(3-5)
  by (cases m) (simp_all add: decode_message_def empty_body [OF assms(1,2)] bodies_read [OF assms(1,2)])

text \<open>
  C17: the encoding of a well-formed message, in a frame of its type, decodes to that message, and
  with anything after it the payload is refused as trailing data: no encoding is a prefix of
  another payload that is accepted.
\<close>

theorem codec_roundtrip:
  assumes "cbor_ok B" and "roomy l" and "message_ok nfc l m"
  shows "decode_message nfc B \<lparr>frame_type = message_message_type m, frame_payload = encode_body B m @ r\<rparr> l =
    (if r = [] then Inr m else Inl (PE_Cbor SE_TrailingData))"
  by (rule decode_encoded [OF assms]) simp_all

lemma decoded_ok:
  assumes "cbor_ok B" and "nfc_ok nfc" and "roomy l" and "decode_message nfc B f l = Inr m"
  shows "message_ok nfc l m \<and> message_message_type m = frame_type f"
  using assms(4)
  by (cases "frame_type f")
    (auto simp: decode_message_def bindE_eq_Inr assms(2) dest!: bodies_accepted [OF assms(1) _ assms(3), rotated])

text \<open>
  C18: whatever bytes a peer sends, a message that the decoder accepts has the type of its frame and
  is well-formed: keys, nonces and signatures have their exact sizes, tokens and ciphertexts are
  within their bounds, nicknames are canonical, reasons and introductions are printable, every text
  is a list of Unicode scalar values. Encoding it again gives a payload that is accepted as the
  same message.
\<close>

theorem decoded_message_ok:
  assumes "cbor_ok B" and "nfc_ok nfc" and "roomy l" and "decode_message nfc B f l = Inr m"
  shows "message_ok nfc l m \<and> message_message_type m = frame_type f \<and>
    decode_message nfc B \<lparr>frame_type = frame_type f, frame_payload = encode_body B m\<rparr> l = Inr m"
proof -
  note ok = decoded_ok [OF assms]
  with decode_encoded [OF assms(1,3), of nfc m "\<lparr>frame_type = frame_type f, frame_payload = encode_body B m\<rparr>" "[]"]
  show ?thesis by simp
qed

section \<open>Streams\<close>

lemma encode_message_frame:
  "encode_message B m l = Inr bs \<longleftrightarrow>
   frame_encode \<lparr>frame_type = message_message_type m, frame_payload = encode_body B m\<rparr> l = Inr bs"
  by (simp add: encode_message_def frame_encode_def)

definition message_frame :: "cbor \<Rightarrow> message \<Rightarrow> frame" where
  "message_frame B m = \<lparr>frame_type = message_message_type m, frame_payload = encode_body B m\<rparr>"

text \<open>
  The messages that one side encodes arrive as their frames at the other, in order, however the network cuts the
  byte stream into chunks; those that are well-formed decode to themselves.
\<close>

lemma message_stream_frames:
  assumes "max_frame_size l < 2 ^ 32"
    and "list_all2 (\<lambda>m bs. encode_message B m l = Inr bs) ms bss" and "concat chunks = concat bss"
  shows "feed_all (frame_decoder_new l) chunks = (Inr (map (message_frame B) ms), frame_decoder_new l)"
proof -
  let ?d = "frame_decoder_new l"
  have "list_all2 (\<lambda>f bs. frame_encode f l = Inr bs) (map (message_frame B) ms) bss"
    using assms(2) by (simp add: list.rel_map encode_message_frame message_frame_def)
  then have fed: "feed ?d (concat chunks) = (Inr (map (message_frame B) ms), ?d)"
    using frame_loop_encoded_list [OF assms(1)] assms(3) by (simp add: feed_def frame_decoder_new_def)
  show ?thesis
  proof (cases chunks)
    case Nil
    with fed show ?thesis by (simp add: feed_def frame_decoder_new_def frame_loop.simps FRAME_HEADER_LEN_def)
  next
    case Cons
    with feed_all_concat [OF _ fed] show ?thesis by simp
  qed
qed

lemma message_frame_decodes:
  "cbor_ok B \<Longrightarrow> roomy l \<Longrightarrow> message_ok nfc l m \<Longrightarrow> decode_message nfc B (message_frame B m) l = Inr m"
  using decode_encoded [where r = "[]"] by (simp add: message_frame_def)

section \<open>Concrete messages\<close>

lemma default_roomy: "roomy default_limits"
  by (simp add: roomy_def default_limits_def)

lemma nfc_ok_id: "nfc_ok id"
  by (simp add: nfc_ok_def)

definition demo_join :: message where
  "demo_join = M_JoinRequest \<lparr>jr_nickname = [97], jr_introduction = Some [104, 105],
     jr_ed25519_pubkey = replicate 32 1, jr_x25519_pubkey = replicate 32 2, jr_signature = replicate 64 3\<rparr>"

lemma demo_join_ok: "message_ok id default_limits demo_join"
proof -
  have safe: "\<not> contains_control_char [97]" "\<not> contains_control_char [104, 105]"
    by (simp_all add: contains_control_char_def is_unsafe_display_char_def char_is_control_def
        is_dangerous_format_char_def)
  have nick: "validate_nickname id [97] default_limits = Inr [97]"
    by (simp add: validate_nickname_def safe char_is_whitespace_def collapse_spaces_def push_word_def
        default_limits_def Let_def)
  have intro: "validate_intro [104, 105] default_limits = Inr ()"
    by (simp add: validate_intro_def safe default_limits_def)
  have fits: "text_fits default_limits [97]" "text_fits default_limits [104, 105]"
    by (simp_all add: text_fits_def scalar_def str_len_def utf8_def utf8_char_def default_limits_def)
  show ?thesis
    by (simp add: demo_join_def join_request_ok_def nick intro fits size_defs)
qed

lemma codec_roundtrip_witness:
  "decode_message id rfc_cbor \<lparr>frame_type = MT_JoinRequest, frame_payload = encode_body rfc_cbor demo_join\<rparr>
     default_limits = Inr demo_join \<and>
   decode_message id rfc_cbor \<lparr>frame_type = MT_JoinRequest, frame_payload = encode_body rfc_cbor demo_join @ [0]\<rparr>
     default_limits = Inl (PE_Cbor SE_TrailingData)"
proof -
  have t: "message_message_type demo_join = MT_JoinRequest" by (simp add: demo_join_def)
  note r = codec_roundtrip [OF rfc_cbor_ok default_roomy demo_join_ok, unfolded t]
  from r [of "[]"] r [of "[0]"] show ?thesis by simp
qed

lemma decoded_message_ok_witness:
  "\<exists>m. decode_message id rfc_cbor \<lparr>frame_type = MT_JoinRequest, frame_payload = encode_body rfc_cbor demo_join\<rparr>
     default_limits = Inr m \<and> message_ok id default_limits m"
proof -
  have "decode_message id rfc_cbor \<lparr>frame_type = MT_JoinRequest, frame_payload = encode_body rfc_cbor demo_join\<rparr>
     default_limits = Inr demo_join"
    by (subst decode_encoded [OF rfc_cbor_ok default_roomy demo_join_ok, where r = "[]"]) (simp_all add: demo_join_def)
  with decoded_message_ok [OF rfc_cbor_ok nfc_ok_id default_roomy this] show ?thesis by blast
qed

end
