(* ===== verification/Conn.thy ===== *)
theory Conn
  imports CodecStream
begin

text \<open>
  The task of one connection (\<open>net/conn.rs\<close>): it decodes what the peer writes into messages for the
  supervisor, writes the queued messages and keepalives, and reports the end of the connection.

  A run is the list of the branches that its \<open>select!\<close> took: each event says what the socket or the
  channel returned. Of a write, the event says how many bytes the socket took before it failed or
  the ten seconds were over; a write is complete when it took them all. The receiver of the inbound
  channel lives as long as the connection.
\<close>

definition KEEPALIVE_INTERVAL :: duration where "KEEPALIVE_INTERVAL = secs 30"

datatype peer_send_error = PSE_QueueFull | PSE_Closed

definition OUTBOUND_QUEUE_CAPACITY :: nat where "OUTBOUND_QUEUE_CAPACITY = 64"

text \<open>The supervisor's end of a connection: the queue to the task, and whether the task still holds it.\<close>

record peer_connection =
  pc_outbound :: "message list"
  pc_open :: bool

definition peer_send :: "message \<Rightarrow> peer_connection \<Rightarrow> (peer_send_error + unit) \<times> peer_connection" where
  "peer_send m p =
     (if \<not> pc_open p then (Inl PSE_Closed, p)
      else if OUTBOUND_QUEUE_CAPACITY \<le> length (pc_outbound p) then (Inl PSE_QueueFull, p)
      else (Inr (), p\<lparr>pc_outbound := pc_outbound p @ [m]\<rparr>))"

record conn_env =
  cn_cbor :: cbor
  cn_nfc :: "rstring \<Rightarrow> rstring"
  cn_limits :: limits

datatype conn_event =
    CV_Tick nat
  | CV_Outbound "message option" nat
  | CV_Read bytes nat
  | CV_ReadFailed

datatype conn_effect = CF_Inbound "message option" | CF_Write bytes

record conn_task =
  ct_decoder :: frame_decoder
  ct_running :: bool

definition conn_start :: "conn_env \<Rightarrow> conn_task" where
  "conn_start N = \<lparr>ct_decoder = frame_decoder_new (cn_limits N), ct_running = True\<rparr>"

definition encode_write :: "conn_env \<Rightarrow> message \<Rightarrow> nat \<Rightarrow> conn_effect list \<times> bool" where
  "encode_write N m written =
     (case encode_message (cn_cbor N) m (cn_limits N) of
        Inl _ \<Rightarrow> ([], False)
      | Inr bs \<Rightarrow> ([CF_Write (take written bs)], length bs \<le> written))"

text \<open>\<open>read\<close> returns an empty chunk at the end of the stream.\<close>

definition read_frames :: "bytes \<Rightarrow> frame_decoder \<Rightarrow> (frame_error + frame list option) \<times> frame_decoder" where
  "read_frames chunk d =
     (if chunk = [] then (bindE (decoder_finish d) (\<lambda>_. Inr None), d)
      else tryS (feed d chunk) (\<lambda>frames d. (Inr (Some frames), d)))"

definition undecodable :: message where
  "undecodable =
     M_Error (case error_message_new EC_ProtocolViolation (Some (rs ''undecodable frame'')) of
                Inr m \<Rightarrow> m
              | Inl _ \<Rightarrow> \<lparr>em_code = EC_ProtocolViolation, em_reason = None\<rparr>)"

text \<open>The loop over the frames of one read; it ends at the first that does not decode.\<close>

fun deliver_frames :: "conn_env \<Rightarrow> nat \<Rightarrow> frame list \<Rightarrow> conn_effect list \<times> bool" where
  "deliver_frames N written [] = ([], True)"
| "deliver_frames N written (f # fs) =
     (case decode_message (cn_nfc N) (cn_cbor N) f (cn_limits N) of
        Inr m \<Rightarrow> (case deliver_frames N written fs of (out, go_on) \<Rightarrow> (CF_Inbound (Some m) # out, go_on))
      | Inl _ \<Rightarrow>
          (CF_Inbound (Some undecodable) # fst (encode_write N undecodable written) @ [CF_Inbound None], False))"

definition finish_write :: "conn_effect list \<times> bool \<Rightarrow> conn_task \<Rightarrow> conn_effect list \<times> conn_task" where
  "finish_write w t =
     (case w of (out, ok) \<Rightarrow>
        if ok then (out, t) else (out @ [CF_Inbound None], t\<lparr>ct_running := False\<rparr>))"

definition conn_step :: "conn_env \<Rightarrow> conn_event \<Rightarrow> conn_task \<Rightarrow> conn_effect list \<times> conn_task" where
  "conn_step N ev t =
     (if \<not> ct_running t then ([], t)
      else case ev of
        CV_Tick written \<Rightarrow> finish_write (encode_write N M_Keepalive written) t
      | CV_Outbound None _ \<Rightarrow> ([CF_Inbound None], t\<lparr>ct_running := False\<rparr>)
      | CV_Outbound (Some m) written \<Rightarrow> finish_write (encode_write N m written) t
      | CV_Read chunk written \<Rightarrow>
          (case read_frames chunk (ct_decoder t) of
             (Inr (Some frames), d) \<Rightarrow>
               (case deliver_frames N written frames of (out, go_on) \<Rightarrow>
                  (out, t\<lparr>ct_decoder := d, ct_running := go_on\<rparr>))
           | (_, d) \<Rightarrow> ([CF_Inbound None], t\<lparr>ct_decoder := d, ct_running := False\<rparr>))
      | CV_ReadFailed \<Rightarrow> ([CF_Inbound None], t\<lparr>ct_running := False\<rparr>))"

fun conn_run :: "conn_env \<Rightarrow> conn_event list \<Rightarrow> conn_task \<Rightarrow> conn_effect list \<times> conn_task" where
  "conn_run N [] t = ([], t)"
| "conn_run N (ev # evs) t =
     (case conn_step N ev t of (out, t') \<Rightarrow>
        (case conn_run N evs t' of (outs, t'') \<Rightarrow> (out @ outs, t'')))"

lemma conn_run_append:
  "conn_run N (evs @ evs') t =
     (case conn_run N evs t of (out, t') \<Rightarrow> (case conn_run N evs' t' of (out', t'') \<Rightarrow> (out @ out', t'')))"
  by (induction evs arbitrary: t) (simp_all split: prod.splits)

section \<open>What reaches the supervisor\<close>

fun inbound_of :: "conn_effect list \<Rightarrow> message option list" where
  "inbound_of [] = []"
| "inbound_of (CF_Inbound m # out) = m # inbound_of out"
| "inbound_of (CF_Write _ # out) = inbound_of out"

fun written_of :: "conn_effect list \<Rightarrow> bytes" where
  "written_of [] = []"
| "written_of (CF_Inbound _ # out) = written_of out"
| "written_of (CF_Write bs # out) = bs @ written_of out"

lemma effects_append [simp]:
  "inbound_of (xs @ ys) = inbound_of xs @ inbound_of ys" "written_of (xs @ ys) = written_of xs @ written_of ys"
  by (induction xs rule: inbound_of.induct) simp_all

text \<open>Messages that are well-formed, followed by at most one report of the end, when the task has ended.\<close>

definition inbound_ok :: "conn_env \<Rightarrow> message option list \<Rightarrow> bool \<Rightarrow> bool" where
  "inbound_ok N ins running \<longleftrightarrow>
     (\<exists>ms. ins = map Some ms @ (if running then [] else [None]) \<and>
        (\<forall>m \<in> set ms. message_ok (cn_nfc N) (cn_limits N) m))"

definition conn_env_ok :: "conn_env \<Rightarrow> bool" where
  "conn_env_ok N \<longleftrightarrow> cbor_ok (cn_cbor N) \<and> nfc_ok (cn_nfc N) \<and> roomy (cn_limits N)"

lemma undecodable_ok: "roomy l \<Longrightarrow> message_ok nfc l undecodable"
proof -
  have "\<not> contains_control_char (rs ''undecodable frame'')"
    by (simp add: rs_def contains_control_char_def is_unsafe_display_char_def char_is_control_def
        is_dangerous_format_char_def)
  moreover have "str_len (rs ''undecodable frame'') = 17"
    by (simp add: rs_def str_len_def utf8_def utf8_char_def)
  moreover have "\<forall>c \<in> set (rs ''undecodable frame''). scalar c" by (simp add: rs_def scalar_def)
  ultimately show "roomy l \<Longrightarrow> message_ok nfc l undecodable"
    by (simp add: undecodable_def error_message_new_def validate_reason_def MAX_ERROR_REASON_BYTES_def rs_def
        error_message_ok_def text_fits_def roomy_def)
qed

lemma inbound_of_write [simp]: "inbound_of (fst (encode_write N m w)) = []"
  by (simp add: encode_write_def split: sum.splits)

lemma inbound_ok_Cons: "message_ok (cn_nfc N) (cn_limits N) m \<Longrightarrow> inbound_ok N ins b \<Longrightarrow> inbound_ok N (Some m # ins) b"
  unfolding inbound_ok_def by (metis append_Cons list.simps(9) set_ConsD)

lemma inbound_ok_end: "inbound_ok N [] True" "inbound_ok N [None] False"
  by (simp_all add: inbound_ok_def)

lemma inbound_ok_append: "inbound_ok N ins True \<Longrightarrow> inbound_ok N ins' b \<Longrightarrow> inbound_ok N (ins @ ins') b"
  unfolding inbound_ok_def by (metis (no_types, lifting) Un_iff append.assoc append_Nil2 map_append set_append)

lemma deliver_frames_ok:
  assumes "conn_env_ok N"
  shows "deliver_frames N w fs = (out, go_on) \<Longrightarrow> inbound_ok N (inbound_of out) go_on"
proof (induction fs arbitrary: out go_on)
  case Nil
  then show ?case by (simp add: inbound_ok_end)
next
  case (Cons f fs)
  show ?case
  proof (cases "decode_message (cn_nfc N) (cn_cbor N) f (cn_limits N)")
    case (Inl e)
    with Cons.prems assms show ?thesis
      by (auto intro!: inbound_ok_Cons inbound_ok_end undecodable_ok simp: conn_env_ok_def)
  next
    case (Inr m)
    then have "message_ok (cn_nfc N) (cn_limits N) m"
      using assms decoded_ok unfolding conn_env_ok_def by blast
    with Inr Cons show ?thesis by (auto intro!: inbound_ok_Cons split: prod.splits)
  qed
qed

lemma finish_write_ok:
  "finish_write (encode_write N m w) t = (out, t') \<Longrightarrow> ct_running t \<Longrightarrow> inbound_ok N (inbound_of out) (ct_running t')"
  by (auto simp: finish_write_def encode_write_def inbound_ok_end split: sum.splits if_splits)

lemma conn_step_ok:
  assumes "conn_env_ok N" and "conn_step N ev t = (out, t')" and "ct_running t"
  shows "inbound_ok N (inbound_of out) (ct_running t')"
proof (cases ev)
  case (CV_Read chunk w)
  with assms(2,3) show ?thesis
    by (auto simp: conn_step_def inbound_ok_end split: prod.splits sum.splits option.splits
        dest!: deliver_frames_ok [OF assms(1)])
next
  case (CV_Outbound m w)
  with assms(2,3) show ?thesis
    by (cases m) (auto simp: conn_step_def inbound_ok_end intro: finish_write_ok)
qed (use assms(2,3) in \<open>auto simp: conn_step_def inbound_ok_end intro: finish_write_ok\<close>)

lemma conn_run_stopped: "\<not> ct_running t \<Longrightarrow> conn_run N evs t = ([], t)"
  by (induction evs) (simp_all add: conn_step_def)

lemma conn_run_ok:
  assumes "conn_env_ok N"
  shows "conn_run N evs t = (out, t') \<Longrightarrow> ct_running t \<Longrightarrow> inbound_ok N (inbound_of out) (ct_running t')"
proof (induction evs arbitrary: t out)
  case Nil
  then show ?case by (simp add: inbound_ok_end)
next
  case (Cons ev evs)
  obtain o1 t1 o2 where run: "conn_step N ev t = (o1, t1)" "conn_run N evs t1 = (o2, t')" "out = o1 @ o2"
    using Cons.prems(1) by (auto split: prod.splits)
  note first = conn_step_ok [OF assms run(1) Cons.prems(2)]
  show ?case
  proof (cases "ct_running t1")
    case True
    with Cons.IH [OF run(2)] first run(3) show ?thesis by (simp add: inbound_ok_append)
  next
    case False
    with conn_run_stopped run(2) first run(3) show ?thesis by auto
  qed
qed

text \<open>
  Whatever bytes, failures and queued messages a connection task meets, what the supervisor
  receives of it is a sequence of well-formed messages, and then exactly one report of the end of
  the connection if the task has ended and none if it still runs; nothing follows that report.
\<close>

theorem connection_reports:
  assumes "conn_env_ok N" and "conn_run N evs (conn_start N) = (out, t)"
  shows "inbound_ok N (inbound_of out) (ct_running t)"
  using conn_run_ok [OF assms] by (simp add: conn_start_def)

section \<open>Two tasks over one stream\<close>

text \<open>The messages that the branches of a run encode, and the chunks that they read.\<close>

fun sent_of :: "conn_event list \<Rightarrow> message list" where
  "sent_of [] = []"
| "sent_of (CV_Tick _ # evs) = M_Keepalive # sent_of evs"
| "sent_of (CV_Outbound (Some m) _ # evs) = m # sent_of evs"
| "sent_of (_ # evs) = sent_of evs"

fun reads_of :: "conn_event list \<Rightarrow> bytes list" where
  "reads_of [] = []"
| "reads_of (CV_Read chunk _ # evs) = chunk # reads_of evs"
| "reads_of (_ # evs) = reads_of evs"

text \<open>Branches that meet no failure of the socket or of the task's own writes.\<close>

fun undisturbed :: "conn_env \<Rightarrow> conn_event \<Rightarrow> bool" where
  "undisturbed N (CV_Tick w) = snd (encode_write N M_Keepalive w)"
| "undisturbed N (CV_Outbound (Some m) w) = snd (encode_write N m w)"
| "undisturbed N (CV_Outbound None _) = False"
| "undisturbed N (CV_Read chunk _) = (chunk \<noteq> [])"
| "undisturbed N CV_ReadFailed = False"

lemma encode_writeE:
  assumes "encode_write N m w = (out, True)"
  obtains bs where "encode_message (cn_cbor N) m (cn_limits N) = Inr bs" "out = [CF_Write bs]"
  using assms by (auto simp: encode_write_def split: sum.splits)

lemma deliver_frames_silent: "deliver_frames N w fs = (out, True) \<Longrightarrow> written_of out = []"
  by (induction fs arbitrary: out) (auto split: sum.splits prod.splits)

lemma conn_step_stopped [simp]: "\<not> ct_running t \<Longrightarrow> conn_step N ev t = ([], t)"
  by (simp add: conn_step_def)

lemma finish_write_running:
  assumes "finish_write (encode_write N m w) t = (out, t')" and "ct_running t'" and "ct_running t"
  shows "\<exists>bs. encode_message (cn_cbor N) m (cn_limits N) = Inr bs \<and> written_of out = bs"
  using assms by (auto simp: finish_write_def encode_write_def split: sum.splits if_splits)

text \<open>A branch after which the task still runs has written its messages completely.\<close>

lemma conn_step_written:
  assumes "conn_step N ev t = (out, t')" and "ct_running t'" and "ct_running t"
  shows "\<exists>bss. list_all2 (\<lambda>m bs. encode_message (cn_cbor N) m (cn_limits N) = Inr bs) (sent_of [ev]) bss \<and>
    written_of out = concat bss"
proof (cases ev)
  case (CV_Tick w)
  with assms finish_write_running show ?thesis by (fastforce simp: conn_step_def list_all2_Cons1)
next
  case (CV_Outbound m w)
  with assms finish_write_running show ?thesis by (cases m) (fastforce simp: conn_step_def list_all2_Cons1)+
next
  case (CV_Read chunk w)
  with assms show ?thesis
    by (auto simp: conn_step_def split: prod.splits sum.splits option.splits dest!: deliver_frames_silent)
next
  case CV_ReadFailed
  with assms show ?thesis by (auto simp: conn_step_def)
qed

lemma sent_of_Cons: "sent_of (ev # evs) = sent_of [ev] @ sent_of evs"
  by (cases "[ev]" rule: sent_of.cases) simp_all

lemma conn_run_written:
  assumes "conn_run N evs t = (out, t')" and "ct_running t'"
  shows "\<exists>bss. list_all2 (\<lambda>m bs. encode_message (cn_cbor N) m (cn_limits N) = Inr bs) (sent_of evs) bss \<and>
    written_of out = concat bss"
  using assms
proof (induction evs arbitrary: t out)
  case Nil
  then show ?case by simp
next
  case (Cons ev evs)
  obtain o1 t1 o2 where run: "conn_step N ev t = (o1, t1)" "conn_run N evs t1 = (o2, t')" "out = o1 @ o2"
    using Cons.prems(1) by (auto split: prod.splits)
  with Cons.prems(2) conn_run_stopped have "ct_running t1" by fastforce
  moreover from this run(1) have "ct_running t" by (cases "ct_running t") auto
  ultimately obtain bss1 where
    "list_all2 (\<lambda>m bs. encode_message (cn_cbor N) m (cn_limits N) = Inr bs) (sent_of [ev]) bss1"
    "written_of o1 = concat bss1"
    using conn_step_written [OF run(1)] by blast
  moreover obtain bss2 where
    "list_all2 (\<lambda>m bs. encode_message (cn_cbor N) m (cn_limits N) = Inr bs) (sent_of evs) bss2"
    "written_of o2 = concat bss2"
    using Cons.IH [OF run(2) Cons.prems(2)] by blast
  ultimately have
    "list_all2 (\<lambda>m bs. encode_message (cn_cbor N) m (cn_limits N) = Inr bs) (sent_of (ev # evs)) (bss1 @ bss2)"
    "written_of out = concat (bss1 @ bss2)"
    by (simp_all add: sent_of_Cons [of ev evs] list_all2_appendI run(3))
  then show ?case by blast
qed

text \<open>
  What a sequence of frames comes to at the supervisor when the stream ends behind it: each message, up to the
  first frame that does not decode, for which the protocol violation is reported and the connection ended.
\<close>

fun delivered :: "conn_env \<Rightarrow> frame list \<Rightarrow> message option list" where
  "delivered N [] = [None]"
| "delivered N (f # fs) =
     (case decode_message (cn_nfc N) (cn_cbor N) f (cn_limits N) of
        Inr m \<Rightarrow> Some m # delivered N fs
      | Inl _ \<Rightarrow> [Some undecodable, None])"

lemma deliver_frames_delivered:
  "deliver_frames N w fs = (out, go_on) \<Longrightarrow>
   delivered N (fs @ fs') = inbound_of out @ (if go_on then delivered N fs' else [])"
  by (induction fs arbitrary: out) (auto split: sum.splits prod.splits)

lemma finish_write_complete:
  "snd (encode_write N m w) \<Longrightarrow> finish_write (encode_write N m w) t = (fst (encode_write N m w), t)"
  by (simp add: finish_write_def split_beta)

lemma conn_run_delivers:
  assumes "\<forall>ev \<in> set evs. undisturbed N ev" and "ct_running t"
    and "feed_all (ct_decoder t) (reads_of evs) = (Inr fs, d)"
  shows "inbound_of (fst (conn_run N (evs @ [CV_Read [] w]) t)) = delivered N fs"
  using assms
proof (induction evs arbitrary: t fs)
  case Nil
  then show ?case
    by (auto simp: conn_step_def read_frames_def bindE_def split: sum.splits prod.splits)
next
  case (Cons ev evs)
  show ?case
  proof (cases ev)
    case (CV_Read chunk w')
    from Cons.prems(3) CV_Read obtain fs1 d1 fs2 where
      fed: "feed (ct_decoder t) chunk = (Inr fs1, d1)" "feed_all d1 (reads_of evs) = (Inr fs2, d)" "fs = fs1 @ fs2"
      by (auto simp: tryS_def split: prod.splits sum.splits)
    obtain out go_on where del: "deliver_frames N w' fs1 = (out, go_on)" by fastforce
    let ?t = "t\<lparr>ct_decoder := d1, ct_running := go_on\<rparr>"
    have step: "conn_step N ev t = (out, ?t)"
      using CV_Read Cons.prems(1,2) fed(1) del by (simp add: conn_step_def read_frames_def)
    show ?thesis
    proof (cases go_on)
      case True
      with Cons.IH [of ?t fs2] Cons.prems(1) fed(2) step deliver_frames_delivered [OF del, of fs2] fed(3)
      show ?thesis by (simp add: split_beta)
    next
      case False
      with conn_run_stopped [of ?t N "evs @ [CV_Read [] w]"] step deliver_frames_delivered [OF del, of fs2] fed(3)
      show ?thesis by simp
    qed
  next
    case (CV_Tick w')
    with Cons show ?thesis by (simp add: conn_step_def finish_write_complete split_beta)
  next
    case (CV_Outbound m w')
    with Cons show ?thesis by (cases m) (simp_all add: conn_step_def finish_write_complete split_beta)
  qed (use Cons.prems(1) in simp)
qed

text \<open>
  C37: what one connection task sends, its keepalives and the messages queued for it, is what the task at the other
  end of the stream decodes, in order, however the stream cuts the bytes into chunks, and whatever the receiving
  task itself ticks and sends in between. Its supervisor gets every message up to the first whose encoding the
  strict decoder refuses, which it gets as an undecodable frame; then, or at the end of the stream, it gets one
  report of the end. A well-formed message is never refused: it arrives as it was sent.
\<close>

theorem connection_transports:
  assumes "conn_env_ok N" and "max_frame_size (cn_limits N) < 2 ^ 32"
    and "conn_run N evs (conn_start N) = (out, t)" and "ct_running t"
    and "\<forall>ev \<in> set evs'. undisturbed N ev" and "concat (reads_of evs') = written_of out"
  shows "inbound_of (fst (conn_run N (evs' @ [CV_Read [] w]) (conn_start N))) =
      delivered N (map (message_frame (cn_cbor N)) (sent_of evs)) \<and>
    (\<forall>m. message_ok (cn_nfc N) (cn_limits N) m \<longrightarrow>
      decode_message (cn_nfc N) (cn_cbor N) (message_frame (cn_cbor N) m) (cn_limits N) = Inr m)"
proof -
  obtain bss where bss: "list_all2 (\<lambda>m bs. encode_message (cn_cbor N) m (cn_limits N) = Inr bs) (sent_of evs) bss"
    "written_of out = concat bss"
    using conn_run_written [OF assms(3,4)] by blast
  have "feed_all (frame_decoder_new (cn_limits N)) (reads_of evs') =
      (Inr (map (message_frame (cn_cbor N)) (sent_of evs)), frame_decoder_new (cn_limits N))"
    using message_stream_frames [OF assms(2) bss(1), of "reads_of evs'"] assms(6) bss(2) by simp
  then have "inbound_of (fst (conn_run N (evs' @ [CV_Read [] w]) (conn_start N))) =
      delivered N (map (message_frame (cn_cbor N)) (sent_of evs))"
    by (intro conn_run_delivers [OF assms(5)]) (simp_all add: conn_start_def)
  moreover have "\<forall>m. message_ok (cn_nfc N) (cn_limits N) m \<longrightarrow>
      decode_message (cn_nfc N) (cn_cbor N) (message_frame (cn_cbor N) m) (cn_limits N) = Inr m"
    using assms(1) message_frame_decodes by (simp add: conn_env_ok_def)
  ultimately show ?thesis ..
qed

section \<open>Concrete connections\<close>

definition demo_conn :: conn_env where
  "demo_conn = \<lparr>cn_cbor = rfc_cbor, cn_nfc = id, cn_limits = default_limits\<rparr>"

lemma demo_conn_ok: "conn_env_ok demo_conn"
  by (simp add: conn_env_ok_def demo_conn_def rfc_cbor_ok nfc_ok_id default_roomy)

lemma demo_encodings:
  "encode_message (cn_cbor demo_conn) M_Keepalive (cn_limits demo_conn) = Inr [0, 0, 0, 5, 1, 0x80, 0, 0, 0xA0]"
  "encode_message (cn_cbor demo_conn) M_Shutdown (cn_limits demo_conn) = Inr [0, 0, 0, 5, 1, 0x82, 0, 0, 0xA0]"
  by (simp_all add: encode_message_def empty_encode_def rfc_cbor_empty_map demo_conn_def) code_simp+

text \<open>The peer takes only four bytes of the shutdown: the end is reported, and no keepalive follows.\<close>

lemma connection_reports_witness:
  "\<exists>out t. conn_run demo_conn [CV_Outbound (Some M_Shutdown) 4, CV_Tick 9] (conn_start demo_conn) = (out, t) \<and>
     inbound_ok demo_conn (inbound_of out) (ct_running t) \<and> inbound_of out = [None] \<and> written_of out = [0, 0, 0, 5]"
proof -
  let ?run = "conn_run demo_conn [CV_Outbound (Some M_Shutdown) 4, CV_Tick 9] (conn_start demo_conn)"
  have "?run = ([CF_Write [0, 0, 0, 5], CF_Inbound None], (conn_start demo_conn)\<lparr>ct_running := False\<rparr>)"
    by (simp add: conn_start_def conn_step_def encode_write_def finish_write_def demo_encodings)
  with connection_reports [OF demo_conn_ok this] show ?thesis by simp
qed

lemma connection_transports_witness:
  "inbound_of (fst (conn_run demo_conn
     ([CV_Read [0, 0, 0, 5, 1, 0x80, 0] 0, CV_Tick 9, CV_Read [0, 0xA0, 0, 0, 0, 5, 1, 0x82, 0, 0, 0xA0] 0] @ [CV_Read [] 0])
     (conn_start demo_conn))) = [Some M_Keepalive, Some M_Shutdown, None]"
proof -
  let ?evs = "[CV_Tick 9, CV_Outbound (Some M_Shutdown) 9]"
  let ?reads = "[CV_Read [0, 0, 0, 5, 1, 0x80, 0] 0, CV_Tick 9, CV_Read [0, 0xA0, 0, 0, 0, 5, 1, 0x82, 0, 0, 0xA0] 0]"
  have run: "conn_run demo_conn ?evs (conn_start demo_conn) =
    ([CF_Write [0, 0, 0, 5, 1, 0x80, 0, 0, 0xA0], CF_Write [0, 0, 0, 5, 1, 0x82, 0, 0, 0xA0]], conn_start demo_conn)"
    by (simp add: conn_start_def conn_step_def encode_write_def finish_write_def demo_encodings)
  have size: "max_frame_size (cn_limits demo_conn) < 2 ^ 32" by (simp add: demo_conn_def default_limits_def)
  have reads: "\<forall>ev \<in> set ?reads. undisturbed demo_conn ev" "ct_running (conn_start demo_conn)"
    "concat (reads_of ?reads) = written_of [CF_Write [0, 0, 0, 5, 1, 0x80, 0, 0, 0xA0], CF_Write [0, 0, 0, 5, 1, 0x82, 0, 0, 0xA0]]"
    by (simp_all add: conn_start_def encode_write_def demo_encodings)
  note moved = connection_transports [OF demo_conn_ok size run reads(2,1,3), of 0]
  then have "decode_message (cn_nfc demo_conn) (cn_cbor demo_conn) (message_frame (cn_cbor demo_conn) m) (cn_limits demo_conn) = Inr m"
    if "m = M_Keepalive \<or> m = M_Shutdown" for m using that by auto
  with moved show ?thesis by simp
qed

end
