(* ===== verification/HostNet.thy ===== *)
theory HostNet
  imports Conn "HOL-Library.AList"
begin

text \<open>
  The host's network adapter (\<open>net/host.rs\<close>): the map of live connections, its operations, and the
  accept loop as one step for each outcome of \<open>accept\<close>.

  The hash map is an association list; nothing depends on its order. The ids of accepted connections
  go to the supervisor through \<open>hn_connects\<close>; that channel is bounded, so a full one only delays
  the next accept. What the supervisor reads of the peers is the input of \<open>Gate\<close>.
\<close>

definition MAX_CONSECUTIVE_ACCEPT_ERRORS :: u32 where "MAX_CONSECUTIVE_ACCEPT_ERRORS = 64"

record peer =
  pr_connection :: peer_connection
  pr_admitted :: bool

record host_network =
  hn_peers :: "(u64 \<times> peer) list"
  hn_connects :: "u64 list"
  hn_next_id :: u64
  hn_consecutive_errors :: u32
  hn_listening :: bool

definition listen :: host_network where
  "listen = \<lparr>hn_peers = [], hn_connects = [], hn_next_id = 1, hn_consecutive_errors = 0, hn_listening = True\<rparr>"

definition pre_auth_count :: "(u64 \<times> peer) list \<Rightarrow> nat" where
  "pre_auth_count peers = length (filter (\<lambda>p. \<not> pr_admitted (snd p)) peers)"

definition pre_auth_connections :: "host_network \<Rightarrow> nat" where
  "pre_auth_connections n = pre_auth_count (hn_peers n)"

definition mark_admitted :: "u64 \<Rightarrow> host_network \<Rightarrow> host_network" where
  "mark_admitted c n =
     (case map_of (hn_peers n) c of
        None \<Rightarrow> n
      | Some p \<Rightarrow> n\<lparr>hn_peers := AList.update c (p\<lparr>pr_admitted := True\<rparr>) (hn_peers n)\<rparr>)"

definition send_to :: "u64 \<Rightarrow> message \<Rightarrow> host_network \<Rightarrow> (peer_send_error + unit) \<times> host_network" where
  "send_to c m n =
     (case map_of (hn_peers n) c of
        None \<Rightarrow> (Inl PSE_Closed, n)
      | Some p \<Rightarrow>
          (case peer_send m (pr_connection p) of
             (r, k) \<Rightarrow> (r, n\<lparr>hn_peers := AList.update c (p\<lparr>pr_connection := k\<rparr>) (hn_peers n)\<rparr>)))"

definition network_close :: "u64 \<Rightarrow> host_network \<Rightarrow> host_network" where
  "network_close c n = n\<lparr>hn_peers := AList.delete c (hn_peers n)\<rparr>"

definition close_all :: "host_network \<Rightarrow> host_network" where
  "close_all n = n\<lparr>hn_peers := []\<rparr>"

definition network_stop :: "host_network \<Rightarrow> host_network" where
  "network_stop n = n\<lparr>hn_listening := False\<rparr>"

definition peer_spawn :: peer where
  "peer_spawn = \<lparr>pr_connection = \<lparr>pc_outbound = [], pc_open = True\<rparr>, pr_admitted = False\<rparr>"

text \<open>One turn of the accept loop: \<open>accepted\<close> says whether \<open>accept\<close> returned a stream.\<close>

definition accept_step :: "limits \<Rightarrow> bool \<Rightarrow> host_network \<Rightarrow> host_network" where
  "accept_step l accepted n =
     (if \<not> hn_listening n then n
      else if \<not> accepted then
        (let errors = hn_consecutive_errors n + 1
         in n\<lparr>hn_consecutive_errors := errors, hn_listening := errors < MAX_CONSECUTIVE_ACCEPT_ERRORS\<rparr>)
      else
        (let n1 = n\<lparr>hn_consecutive_errors := 0\<rparr>
         in if max_pre_auth_connections l \<le> pre_auth_count (hn_peers n1) then n1
            else n1\<lparr>hn_peers := AList.update (hn_next_id n1) peer_spawn (hn_peers n1),
                    hn_connects := hn_connects n1 @ [hn_next_id n1], hn_next_id := hn_next_id n1 + 1\<rparr>))"

text \<open>What the task of a connection does to the map: it takes the next message, or it ends.\<close>

definition task_takes :: "u64 \<Rightarrow> host_network \<Rightarrow> host_network" where
  "task_takes c n =
     (case map_of (hn_peers n) c of
        None \<Rightarrow> n
      | Some p \<Rightarrow> n\<lparr>hn_peers := AList.update c
          (p\<lparr>pr_connection := (pr_connection p)\<lparr>pc_outbound := tl (pc_outbound (pr_connection p))\<rparr>\<rparr>) (hn_peers n)\<rparr>)"

definition task_ends :: "u64 \<Rightarrow> host_network \<Rightarrow> host_network" where
  "task_ends c n =
     (case map_of (hn_peers n) c of
        None \<Rightarrow> n
      | Some p \<Rightarrow> n\<lparr>hn_peers := AList.update c
          (p\<lparr>pr_connection := (pr_connection p)\<lparr>pc_open := False\<rparr>\<rparr>) (hn_peers n)\<rparr>)"

datatype net_op =
    NO_Accept bool | NO_MarkAdmitted u64 | NO_SendTo u64 message | NO_Close u64 | NO_CloseAll | NO_Stop
  | NO_TaskTakes u64 | NO_TaskEnds u64

fun net_step :: "limits \<Rightarrow> net_op \<Rightarrow> host_network \<Rightarrow> host_network" where
  "net_step l (NO_Accept ok) n = accept_step l ok n"
| "net_step l (NO_MarkAdmitted c) n = mark_admitted c n"
| "net_step l (NO_SendTo c m) n = snd (send_to c m n)"
| "net_step l (NO_Close c) n = network_close c n"
| "net_step l NO_CloseAll n = close_all n"
| "net_step l NO_Stop n = network_stop n"
| "net_step l (NO_TaskTakes c) n = task_takes c n"
| "net_step l (NO_TaskEnds c) n = task_ends c n"

abbreviation net_run :: "limits \<Rightarrow> net_op list \<Rightarrow> host_network \<Rightarrow> host_network" where
  "net_run l ops n \<equiv> fold (net_step l) ops n"

section \<open>Bounds\<close>

definition queues_bounded :: "(u64 \<times> peer) list \<Rightarrow> bool" where
  "queues_bounded peers \<longleftrightarrow>
     (\<forall>(c, p) \<in> set peers. length (pc_outbound (pr_connection p)) \<le> OUTBOUND_QUEUE_CAPACITY)"

definition network_ok :: "limits \<Rightarrow> host_network \<Rightarrow> bool" where
  "network_ok l n \<longleftrightarrow>
     distinct (map fst (hn_peers n)) \<and> pre_auth_connections n \<le> max_pre_auth_connections l \<and>
     queues_bounded (hn_peers n)"

lemma pre_auth_count_simps [simp]:
  "pre_auth_count [] = 0"
  "pre_auth_count (p # ps) = (if pr_admitted (snd p) then 0 else 1) + pre_auth_count ps"
  by (simp_all add: pre_auth_count_def)

lemma pre_auth_count_delete: "pre_auth_count (AList.delete c ps) \<le> pre_auth_count ps"
  by (induction ps) auto

lemma pre_auth_count_update_new: "pre_auth_count (AList.update c p ps) \<le> Suc (pre_auth_count ps)"
  by (induction ps) auto

lemma pre_auth_count_update:
  "map_of ps c = Some p \<Longrightarrow> (pr_admitted p \<longrightarrow> pr_admitted q) \<Longrightarrow>
   pre_auth_count (AList.update c q ps) \<le> pre_auth_count ps"
  by (induction ps) (auto split: if_splits)

lemma set_update_subset: "set (AList.update c p ps) \<subseteq> insert (c, p) (set ps)"
  by (induction ps) auto

lemma queues_bounded_update:
  "queues_bounded ps \<Longrightarrow> length (pc_outbound (pr_connection p)) \<le> OUTBOUND_QUEUE_CAPACITY \<Longrightarrow>
   queues_bounded (AList.update c p ps)"
  using set_update_subset [of c p ps] by (fastforce simp: queues_bounded_def)

lemma queues_bounded_delete: "queues_bounded ps \<Longrightarrow> queues_bounded (AList.delete c ps)"
  by (auto simp: queues_bounded_def AList.delete_eq)

lemma queues_boundedD:
  "queues_bounded ps \<Longrightarrow> map_of ps c = Some p \<Longrightarrow> length (pc_outbound (pr_connection p)) \<le> OUTBOUND_QUEUE_CAPACITY"
  using map_of_SomeD by (fastforce simp: queues_bounded_def)

text \<open>Replacing the entry of a connection by one that is admitted when the old one was.\<close>

lemma network_ok_update:
  assumes "network_ok l n" and "map_of (hn_peers n) c = Some p" and "pr_admitted p \<longrightarrow> pr_admitted q"
    and "length (pc_outbound (pr_connection q)) \<le> OUTBOUND_QUEUE_CAPACITY"
  shows "network_ok l (n\<lparr>hn_peers := AList.update c q (hn_peers n)\<rparr>)"
  using assms pre_auth_count_update [OF assms(2,3)]
  by (simp add: network_ok_def pre_auth_connections_def distinct_update queues_bounded_update)

lemma peer_send_bounded:
  "length (pc_outbound k) \<le> OUTBOUND_QUEUE_CAPACITY \<Longrightarrow> peer_send m k = (r, k') \<Longrightarrow>
   length (pc_outbound k') \<le> OUTBOUND_QUEUE_CAPACITY"
  by (auto simp: peer_send_def split: if_splits)

lemma network_ok_step:
  assumes "network_ok l n" shows "network_ok l (net_step l op n)"
proof -
  have bounded: "map_of (hn_peers n) c = Some p \<Longrightarrow> length (pc_outbound (pr_connection p)) \<le> OUTBOUND_QUEUE_CAPACITY"
    for c p
    using assms queues_boundedD unfolding network_ok_def by blast
  show ?thesis
  proof (cases op)
    case (NO_Accept ok)
    have "network_ok l (n\<lparr>hn_peers := AList.update (hn_next_id n) peer_spawn (hn_peers n)\<rparr>)"
      if "pre_auth_count (hn_peers n) < max_pre_auth_connections l"
      using assms that pre_auth_count_update_new [of "hn_next_id n" peer_spawn "hn_peers n"]
      by (simp add: network_ok_def pre_auth_connections_def distinct_update queues_bounded_update peer_spawn_def)
    with assms NO_Accept show ?thesis
      by (simp add: accept_step_def Let_def network_ok_def pre_auth_connections_def not_le)
  next
    case (NO_MarkAdmitted c)
    show ?thesis
    proof (cases "map_of (hn_peers n) c")
      case (Some p)
      with NO_MarkAdmitted bounded network_ok_update [OF assms Some] show ?thesis by (simp add: mark_admitted_def)
    qed (simp add: assms NO_MarkAdmitted mark_admitted_def)
  next
    case (NO_SendTo c m)
    show ?thesis
    proof (cases "map_of (hn_peers n) c")
      case (Some p)
      obtain r k where k: "peer_send m (pr_connection p) = (r, k)" by fastforce
      with NO_SendTo bounded Some peer_send_bounded [OF _ k] network_ok_update [OF assms Some] show ?thesis
        by (simp add: send_to_def)
    qed (simp add: assms NO_SendTo send_to_def)
  next
    case (NO_TaskTakes c)
    show ?thesis
    proof (cases "map_of (hn_peers n) c")
      case (Some p)
      with NO_TaskTakes bounded [OF Some] network_ok_update [OF assms Some] show ?thesis by (simp add: task_takes_def)
    qed (simp add: assms NO_TaskTakes task_takes_def)
  next
    case (NO_TaskEnds c)
    show ?thesis
    proof (cases "map_of (hn_peers n) c")
      case (Some p)
      with NO_TaskEnds bounded [OF Some] network_ok_update [OF assms Some] show ?thesis by (simp add: task_ends_def)
    qed (simp add: assms NO_TaskEnds task_ends_def)
  next
    case (NO_Close c)
    with assms pre_auth_count_delete [of c "hn_peers n"] show ?thesis
      by (simp add: network_close_def network_ok_def pre_auth_connections_def distinct_delete queues_bounded_delete)
  qed (use assms in \<open>simp_all add: close_all_def network_stop_def network_ok_def pre_auth_connections_def
      queues_bounded_def\<close>)
qed

text \<open>
  Whatever the listener accepts, the supervisor sends, admits and closes, and the tasks of the
  connections do, no connection has two entries, never more than the limit of them are unadmitted at
  the same time, and no peer has more than 64 messages queued: a peer that does not read, or
  never authenticates, cannot exhaust the room.
\<close>

theorem network_bounded: "network_ok l (net_run l ops listen)"
proof -
  have "network_ok l n \<Longrightarrow> network_ok l (net_run l ops n)" for n
    by (induction ops arbitrary: n) (simp_all add: network_ok_step)
  moreover have "network_ok l listen"
    by (simp add: network_ok_def listen_def pre_auth_connections_def queues_bounded_def)
  ultimately show ?thesis by simp
qed

end
