(* ===== verification/Crypto.thy ===== *)
theory Crypto
  imports Wire
begin

text \<open>
  Transcripts and cryptographic operations (\<open>crypto/transcript.rs\<close>, \<open>crypto/identity.rs\<close>,
  \<open>crypto/chat.rs\<close>). The primitives are third-party crates: the record \<open>crypto\<close> holds one
  function per call, and \<open>crypto_ok\<close> states their documented correctness (a signature verifies
  under its own key, both sides of a key exchange agree, decryption inverts encryption, sizes).
  No secrecy or unforgeability is assumed.
\<close>

record crypto =
  c_ed_public :: "bytes \<Rightarrow> bytes"
  c_ed_key_ok :: "bytes \<Rightarrow> bool"
  c_ed_sign :: "bytes \<Rightarrow> bytes \<Rightarrow> bytes"
  c_ed_verify :: "bytes \<Rightarrow> bytes \<Rightarrow> bytes \<Rightarrow> bool"
  c_x_public :: "bytes \<Rightarrow> bytes"
  c_x_dh :: "bytes \<Rightarrow> bytes \<Rightarrow> bytes"
  c_x_contributory :: "bytes \<Rightarrow> bool"
  c_hkdf :: "bytes \<Rightarrow> bytes \<Rightarrow> bytes \<Rightarrow> bytes"
  c_encrypt :: "bytes \<Rightarrow> bytes \<Rightarrow> bytes \<Rightarrow> bytes \<Rightarrow> bytes option"
  c_decrypt :: "bytes \<Rightarrow> bytes \<Rightarrow> bytes \<Rightarrow> bytes \<Rightarrow> bytes option"
  c_sha256 :: "bytes \<Rightarrow> bytes"

definition crypto_ok :: "crypto \<Rightarrow> bool" where
  "crypto_ok C \<longleftrightarrow>
     (\<forall>s. c_ed_key_ok C (c_ed_public C s)) \<and>
     (\<forall>s m. c_ed_verify C (c_ed_public C s) m (c_ed_sign C s m)) \<and>
     (\<forall>a b. c_x_dh C a (c_x_public C b) = c_x_dh C b (c_x_public C a)) \<and>
     (\<forall>a b. c_x_contributory C (c_x_dh C a (c_x_public C b))) \<and>
     (\<forall>k n a m. \<exists>c. c_encrypt C k n a m = Some c \<and> length c = length m + XCHACHA_TAG_LEN \<and>
                   c_decrypt C k n a c = Some m) \<and>
     (\<forall>s. length (c_ed_public C s) = 32 \<and> length (c_x_public C s) = 32) \<and>
     (\<forall>s m. length (c_ed_sign C s m) = 64) \<and> (\<forall>m. length (c_sha256 C m) = 32)"

datatype crypto_error =
    CE_Randomness
  | CE_Argon2
  | CE_InvalidHmacKey
  | CE_Aead
  | CE_Hkdf
  | CE_InvalidEpochKeyLength
  | CE_NonContributoryX25519

text \<open>\<open>random_bytes::<N>\<close> with its error.\<close>

definition fill_random :: "nat \<Rightarrow> entropy \<Rightarrow> (crypto_error + bytes) \<times> entropy" where
  "fill_random n es =
     (case random_bytes n es of (None, es') \<Rightarrow> (Inl CE_Randomness, es') | (Some b, es') \<Rightarrow> (Inr b, es'))"

lemma fill_random_length: "fill_random n es = (Inr b, es') \<Longrightarrow> length b = n"
  by (auto simp: fill_random_def dest: random_bytes_length split: prod.splits option.splits)

section \<open>Transcripts\<close>

text \<open>
  \<open>TranscriptBuilder\<close> appends to a buffer: a label and a byte string with a 32-bit length
  (\<open>len_bytes\<close>), integers big-endian, fixed-size fields raw.
\<close>

definition t_label :: "rstring \<Rightarrow> bytes" where "t_label s = len_bytes (utf8 s)"
definition t_u8 :: "u8 \<Rightarrow> bytes" where "t_u8 b = [b]"
definition t_str :: "rstring \<Rightarrow> bytes" where "t_str s = len_bytes (utf8 s)"

definition HOST_HELLO_LABEL :: rstring where "HOST_HELLO_LABEL = rs ''VEILROOM-HOST-HELLO-V1''"
definition JOIN_REQUEST_LABEL :: rstring where "JOIN_REQUEST_LABEL = rs ''VEILROOM-JOIN-REQUEST-V1''"
definition ROOM_EVENT_LABEL :: rstring where "ROOM_EVENT_LABEL = rs ''VEILROOM-ROOM-EVENT-V1''"
definition CHAT_MESSAGE_LABEL :: rstring where "CHAT_MESSAGE_LABEL = rs ''VEILROOM-CHAT-MESSAGE-V1''"
definition EPOCH_WRAP_LABEL :: rstring where "EPOCH_WRAP_LABEL = rs ''VEILROOM-EPOCH-WRAP-V1''"
definition MEMBER_WRAP_KEY_LABEL :: rstring where
  "MEMBER_WRAP_KEY_LABEL = rs ''VEILROOM-MEMBER-WRAP-KEY-V1''"
definition CHAT_AAD_LABEL :: rstring where "CHAT_AAD_LABEL = rs ''VEILROOM-CHAT-AAD-V1''"

definition room_event_transcript :: "u8 \<Rightarrow> bytes \<Rightarrow> u64 \<Rightarrow> u64 \<Rightarrow> u8 \<Rightarrow> bytes \<Rightarrow> bytes" where
  "room_event_transcript version session sequence epoch event_type body =
     t_label ROOM_EVENT_LABEL @ t_u8 version @ session @ be64 sequence @ be64 epoch @
     t_u8 event_type @ len_bytes body"

definition member_joined_body :: "u64 \<Rightarrow> rstring \<Rightarrow> bytes \<Rightarrow> bytes" where
  "member_joined_body member_id nickname pubkey = be64 member_id @ t_str nickname @ pubkey"

definition member_gone_body :: "u64 \<Rightarrow> bytes" where
  "member_gone_body member_id = be64 member_id"

definition join_policy_body :: "bool \<Rightarrow> bytes" where
  "join_policy_body open_flag = [if open_flag then 1 else 0]"

definition snapshot_entry :: "snapshot_member \<Rightarrow> bytes" where
  "snapshot_entry m =
     be64 (sm_member_id m) @ t_str (sm_nickname m) @ t_u8 (sm_color m) @
     t_u8 (if sm_is_host m then 1 else 0) @ sm_ed25519_pubkey m"

definition member_snapshot_body :: "snapshot_member list \<Rightarrow> bytes" where
  "member_snapshot_body ms = be64 (word_of_nat (length ms)) @ concat (map snapshot_entry ms)"

definition sha256 :: "crypto \<Rightarrow> bytes \<Rightarrow> bytes" where
  "sha256 C input = c_sha256 C input"

record host_hello_input =
  hi_version :: u8
  hi_onion_address :: rstring
  hi_virtual_port :: u16
  hi_room_session_id :: bytes
  hi_host_ed25519_pubkey :: bytes
  hi_host_x25519_pubkey :: bytes
  hi_client_nonce :: bytes
  hi_server_nonce :: bytes
  hi_token_hash :: bytes
  hi_offered_version :: u8
  hi_client_features :: u32

definition host_hello_transcript :: "host_hello_input \<Rightarrow> bytes" where
  "host_hello_transcript i =
     t_label HOST_HELLO_LABEL @ t_u8 (hi_version i) @ t_str (hi_onion_address i) @
     be16 (hi_virtual_port i) @ hi_room_session_id i @ hi_host_ed25519_pubkey i @
     hi_host_x25519_pubkey i @ hi_client_nonce i @ hi_server_nonce i @ hi_token_hash i @
     t_u8 (hi_offered_version i) @ be32 (hi_client_features i)"

record join_request_input =
  ji_version :: u8
  ji_room_session_id :: bytes
  ji_client_nonce :: bytes
  ji_server_nonce :: bytes
  ji_nickname :: rstring
  ji_introduction_hash :: bytes
  ji_ed25519_pubkey :: bytes
  ji_x25519_pubkey :: bytes
  ji_onion_address :: rstring
  ji_token_hash :: bytes

definition join_request_transcript :: "join_request_input \<Rightarrow> bytes" where
  "join_request_transcript i =
     t_label JOIN_REQUEST_LABEL @ t_u8 (ji_version i) @ ji_room_session_id i @
     ji_client_nonce i @ ji_server_nonce i @ t_str (ji_nickname i) @ ji_introduction_hash i @
     ji_ed25519_pubkey i @ ji_x25519_pubkey i @ t_str (ji_onion_address i) @ ji_token_hash i"

definition chat_aad :: "u8 \<Rightarrow> bytes \<Rightarrow> u64 \<Rightarrow> u64 \<Rightarrow> u64 \<Rightarrow> u8 \<Rightarrow> bytes" where
  "chat_aad version session epoch sender sequence message_type =
     utf8 CHAT_AAD_LABEL @ [version] @ session @ be64 epoch @ be64 sender @ be64 sequence @
     [message_type]"

definition chat_transcript ::
  "u8 \<Rightarrow> bytes \<Rightarrow> u64 \<Rightarrow> u64 \<Rightarrow> u64 \<Rightarrow> u8 \<Rightarrow> bytes \<Rightarrow> bytes \<Rightarrow> bytes" where
  "chat_transcript version session epoch sender sequence message_type nonce ciphertext =
     t_label CHAT_MESSAGE_LABEL @ t_u8 version @ session @ be64 epoch @ be64 sender @
     be64 sequence @ t_u8 message_type @ nonce @ len_bytes ciphertext"

section \<open>Identities and epoch keys\<close>

text \<open>\<open>HostIdentity\<close> and \<open>MemberIdentity\<close> hold the two secret keys.\<close>

record identity =
  id_ed25519 :: bytes
  id_x25519 :: bytes

definition identity_generate :: "entropy \<Rightarrow> (crypto_error + identity) \<times> entropy" where
  "identity_generate es =
     tryS (fill_random 32 es) (\<lambda>ed es1.
     tryS (fill_random 32 es1) (\<lambda>x es2. (Inr \<lparr>id_ed25519 = ed, id_x25519 = x\<rparr>, es2)))"

definition identity_ed25519_pubkey :: "crypto \<Rightarrow> identity \<Rightarrow> bytes" where
  "identity_ed25519_pubkey C i = c_ed_public C (id_ed25519 i)"

definition identity_x25519_pubkey :: "crypto \<Rightarrow> identity \<Rightarrow> bytes" where
  "identity_x25519_pubkey C i = c_x_public C (id_x25519 i)"

definition identity_sign :: "crypto \<Rightarrow> identity \<Rightarrow> bytes \<Rightarrow> bytes" where
  "identity_sign C i m = c_ed_sign C (id_ed25519 i) m"

definition verify_ed25519 :: "crypto \<Rightarrow> bytes \<Rightarrow> bytes \<Rightarrow> bytes \<Rightarrow> bool" where
  "verify_ed25519 C pubkey m sig \<longleftrightarrow> c_ed_key_ok C pubkey \<and> c_ed_verify C pubkey m sig"

definition derive_checked :: "crypto \<Rightarrow> bytes \<Rightarrow> bytes \<Rightarrow> u64 \<Rightarrow> crypto_error + bytes" where
  "derive_checked C shared session member_id =
     (if \<not> c_x_contributory C shared then Inl CE_NonContributoryX25519
      else Inr (c_hkdf C session shared (utf8 MEMBER_WRAP_KEY_LABEL @ be64 member_id)))"

text \<open>
  \<open>try_derive_host\<close> and \<open>try_derive_member\<close> are the same computation on the own secret key and
  the peer's public key.
\<close>

definition try_wrap_key_for :: "crypto \<Rightarrow> identity \<Rightarrow> bytes \<Rightarrow> bytes \<Rightarrow> u64 \<Rightarrow> crypto_error + bytes" where
  "try_wrap_key_for C i peer_pubkey session member_id =
     derive_checked C (c_x_dh C (id_x25519 i) peer_pubkey) session member_id"

definition epoch_key_generate :: "entropy \<Rightarrow> (crypto_error + bytes) \<times> entropy" where
  "epoch_key_generate es = fill_random EPOCH_KEY_LEN es"

definition epoch_aad :: "u64 \<Rightarrow> bytes \<Rightarrow> bytes" where
  "epoch_aad epoch session = utf8 EPOCH_WRAP_LABEL @ session @ be64 epoch"

definition wrap_epoch_key :: "crypto \<Rightarrow> bytes \<Rightarrow> bytes \<Rightarrow> u64 \<Rightarrow> bytes \<Rightarrow> entropy \<Rightarrow>
    (crypto_error + (bytes \<times> bytes)) \<times> entropy" where
  "wrap_epoch_key C wrap_key epoch_key epoch session es =
     tryS (fill_random XCHACHA_NONCE_LEN es) (\<lambda>nonce es1.
       (case c_encrypt C wrap_key nonce (epoch_aad epoch session) epoch_key of
          None \<Rightarrow> (Inl CE_Aead, es1)
        | Some c \<Rightarrow> (Inr (nonce, c), es1)))"

definition unwrap_epoch_key :: "crypto \<Rightarrow> bytes \<Rightarrow> u64 \<Rightarrow> bytes \<Rightarrow> bytes \<Rightarrow> bytes \<Rightarrow> crypto_error + bytes" where
  "unwrap_epoch_key C wrap_key epoch session nonce c =
     (case c_decrypt C wrap_key nonce (epoch_aad epoch session) c of
        None \<Rightarrow> Inl CE_Aead
      | Some key \<Rightarrow> if length key \<noteq> EPOCH_KEY_LEN then Inl CE_InvalidEpochKeyLength else Inr key)"

section \<open>Chat envelopes\<close>

record sealed_envelope =
  se_nonce :: bytes
  se_ciphertext :: bytes
  se_signature :: bytes

datatype chat_open_error = COE_InvalidSignature | COE_Decrypt crypto_error

definition seal_envelope :: "crypto \<Rightarrow> bytes \<Rightarrow> identity \<Rightarrow> u8 \<Rightarrow> bytes \<Rightarrow> u64 \<Rightarrow> u64 \<Rightarrow> u64 \<Rightarrow> u8 \<Rightarrow>
    bytes \<Rightarrow> entropy \<Rightarrow> (crypto_error + sealed_envelope) \<times> entropy" where
  "seal_envelope C key i version session epoch sender sequence message_type plaintext es =
     tryS (fill_random XCHACHA_NONCE_LEN es) (\<lambda>nonce es1.
       (case c_encrypt C key nonce (chat_aad version session epoch sender sequence message_type) plaintext of
          None \<Rightarrow> (Inl CE_Aead, es1)
        | Some c \<Rightarrow>
            (Inr \<lparr>se_nonce = nonce, se_ciphertext = c,
                  se_signature = identity_sign C i
                    (chat_transcript version session epoch sender sequence message_type nonce c)\<rparr>, es1)))"

definition open_envelope :: "crypto \<Rightarrow> bytes \<Rightarrow> bytes \<Rightarrow> u8 \<Rightarrow> bytes \<Rightarrow> u64 \<Rightarrow> u64 \<Rightarrow> u64 \<Rightarrow> u8 \<Rightarrow>
    bytes \<Rightarrow> bytes \<Rightarrow> bytes \<Rightarrow> chat_open_error + bytes" where
  "open_envelope C key sender_pubkey version session epoch sender sequence message_type nonce c sig =
     (if \<not> verify_ed25519 C sender_pubkey
           (chat_transcript version session epoch sender sequence message_type nonce c) sig
      then Inl COE_InvalidSignature
      else case c_decrypt C key nonce (chat_aad version session epoch sender sequence message_type) c of
             None \<Rightarrow> Inl (COE_Decrypt CE_Aead)
           | Some p \<Rightarrow> Inr p)"

section \<open>Transcripts are unambiguous\<close>

definition text_ok :: "rstring \<Rightarrow> bool" where
  "text_ok s \<longleftrightarrow> (\<forall>c \<in> set s. scalar c) \<and> str_len s < 2 ^ 32"

interpretation code_str: prefix_code t_str text_ok
proof
  fix x y :: rstring and r s :: bytes
  assume ok: "text_ok x" "text_ok y" and eq: "t_str x @ r = t_str y @ s"
  have "utf8 x = utf8 y \<and> r = s"
    using eq ok by (intro code_bytes.prefix_free) (simp_all add: t_str_def text_ok_def str_len_def)
  then show "x = y \<and> r = s" using ok utf8_inj by (simp add: text_ok_def)
qed

interpretation code_snapshot: prefix_code snapshot_entry
  "\<lambda>m. text_ok (sm_nickname m) \<and> length (sm_ed25519_pubkey m) = 32"
proof
  fix x y :: snapshot_member and r s :: bytes
  assume ok: "text_ok (sm_nickname x) \<and> length (sm_ed25519_pubkey x) = 32"
    "text_ok (sm_nickname y) \<and> length (sm_ed25519_pubkey y) = 32"
    and eq: "snapshot_entry x @ r = snapshot_entry y @ s"
  from eq ok show "x = y \<and> r = s"
    by (auto simp: snapshot_entry_def t_u8_def code64.enc_append_iff code_str.enc_append_iff
        append_eq_append_conv split: if_splits intro!: snapshot_member.equality)
qed

text \<open>Everything the program signs, by kind.\<close>

datatype event_body =
    EB_Joined u64 rstring bytes
  | EB_Left u64
  | EB_Kicked u64
  | EB_Policy bool
  | EB_Snapshot "snapshot_member list"

fun event_type_of :: "event_body \<Rightarrow> u8" where
  "event_type_of (EB_Joined _ _ _) = 0x20"
| "event_type_of (EB_Left _) = 0x21"
| "event_type_of (EB_Kicked _) = 0x22"
| "event_type_of (EB_Policy _) = 0x23"
| "event_type_of (EB_Snapshot _) = 0x24"

fun event_body_bytes :: "event_body \<Rightarrow> bytes" where
  "event_body_bytes (EB_Joined i n k) = member_joined_body i n k"
| "event_body_bytes (EB_Left i) = member_gone_body i"
| "event_body_bytes (EB_Kicked i) = member_gone_body i"
| "event_body_bytes (EB_Policy b) = join_policy_body b"
| "event_body_bytes (EB_Snapshot ms) = member_snapshot_body ms"

fun event_body_ok :: "event_body \<Rightarrow> bool" where
  "event_body_ok (EB_Joined _ n k) \<longleftrightarrow> text_ok n \<and> length k = 32"
| "event_body_ok (EB_Snapshot ms) \<longleftrightarrow> length ms < 2 ^ 64 \<and>
     (\<forall>m \<in> set ms. text_ok (sm_nickname m) \<and> length (sm_ed25519_pubkey m) = 32)"
| "event_body_ok _ \<longleftrightarrow> True"

lemma member_snapshot_body_inj:
  assumes "length ms < 2 ^ 64" "length ns < 2 ^ 64"
    and "\<forall>m \<in> set ms. text_ok (sm_nickname m) \<and> length (sm_ed25519_pubkey m) = 32"
    and "\<forall>m \<in> set ns. text_ok (sm_nickname m) \<and> length (sm_ed25519_pubkey m) = 32"
    and eq: "member_snapshot_body ms = member_snapshot_body ns"
  shows "ms = ns"
proof -
  from eq have l: "(word_of_nat (length ms) :: u64) = word_of_nat (length ns)"
    and b: "concat (map snapshot_entry ms) @ [] = concat (map snapshot_entry ns) @ []"
    by (auto simp: member_snapshot_body_def code64.enc_append_iff)
  from l have "unat (word_of_nat (length ms) :: u64) = unat (word_of_nat (length ns) :: u64)" by simp
  with assms(1,2) have "length ms = length ns" unfolding unat_of_nat by simp
  with code_snapshot.enc_list [OF _ assms(3,4) b] show ?thesis by blast
qed

lemma event_body_inj:
  assumes "event_body_ok x" "event_body_ok y" "event_type_of x = event_type_of y"
    and "event_body_bytes x = event_body_bytes y"
  shows "x = y"
  using assms
  by (cases x; cases y)
    (auto simp: member_joined_body_def member_gone_body_def join_policy_body_def
      code64.enc_append_iff code_str.enc_append_iff split: if_splits
      intro: member_snapshot_body_inj code_str.enc_inj)

datatype signed_input =
    SI_HostHello host_hello_input
  | SI_JoinRequest join_request_input
  | SI_RoomEvent u8 bytes u64 u64 event_body
  | SI_Chat u8 bytes u64 u64 u64 u8 bytes bytes

fun signed_bytes :: "signed_input \<Rightarrow> bytes" where
  "signed_bytes (SI_HostHello i) = host_hello_transcript i"
| "signed_bytes (SI_JoinRequest i) = join_request_transcript i"
| "signed_bytes (SI_RoomEvent v s n e b) =
     room_event_transcript v s n e (event_type_of b) (event_body_bytes b)"
| "signed_bytes (SI_Chat v s e i n t nonce c) = chat_transcript v s e i n t nonce c"

text \<open>The sizes the Rust types fix (\<open>[u8; 32]\<close> and so on) and the 32-bit length fields impose.\<close>

fun signed_ok :: "signed_input \<Rightarrow> bool" where
  "signed_ok (SI_HostHello i) \<longleftrightarrow> text_ok (hi_onion_address i) \<and> length (hi_room_session_id i) = 32 \<and>
     length (hi_host_ed25519_pubkey i) = 32 \<and> length (hi_host_x25519_pubkey i) = 32 \<and>
     length (hi_client_nonce i) = 16 \<and> length (hi_server_nonce i) = 16 \<and> length (hi_token_hash i) = 32"
| "signed_ok (SI_JoinRequest i) \<longleftrightarrow> text_ok (ji_nickname i) \<and> text_ok (ji_onion_address i) \<and>
     length (ji_room_session_id i) = 32 \<and> length (ji_client_nonce i) = 16 \<and>
     length (ji_server_nonce i) = 16 \<and> length (ji_introduction_hash i) = 32 \<and>
     length (ji_ed25519_pubkey i) = 32 \<and> length (ji_x25519_pubkey i) = 32 \<and>
     length (ji_token_hash i) = 32"
| "signed_ok (SI_RoomEvent v s n e b) \<longleftrightarrow>
     length s = 32 \<and> event_body_ok b \<and> length (event_body_bytes b) < 2 ^ 32"
| "signed_ok (SI_Chat v s e i n t nonce c) \<longleftrightarrow>
     length s = 32 \<and> length nonce = 24 \<and> length c < 2 ^ 32"

fun signed_label :: "signed_input \<Rightarrow> rstring" where
  "signed_label (SI_HostHello _) = HOST_HELLO_LABEL"
| "signed_label (SI_JoinRequest _) = JOIN_REQUEST_LABEL"
| "signed_label (SI_RoomEvent _ _ _ _ _) = ROOM_EVENT_LABEL"
| "signed_label (SI_Chat _ _ _ _ _ _ _ _) = CHAT_MESSAGE_LABEL"

lemmas label_defs = HOST_HELLO_LABEL_def JOIN_REQUEST_LABEL_def ROOM_EVENT_LABEL_def
  CHAT_MESSAGE_LABEL_def

lemma label_ascii: "c \<in> set (signed_label x) \<Longrightarrow> c < 0x80"
  by (cases x) (auto simp: label_defs rs_def)

lemma label_text_ok: "text_ok (signed_label x)"
proof -
  have a: "\<forall>c \<in> set (signed_label x). c < 0x80" using label_ascii by blast
  then have "\<forall>c \<in> set (signed_label x). scalar c" by (intro ballI scalar_small) fastforce
  moreover have "length (signed_label x) \<le> 24" by (cases x) (simp_all add: label_defs rs_def)
  ultimately show ?thesis
    by (simp add: text_ok_def str_len_def ascii_utf8 [OF a])
qed

lemma signed_bytes_label: "\<exists>r. signed_bytes x = t_str (signed_label x) @ r"
  by (cases x) (auto simp: host_hello_transcript_def join_request_transcript_def
      room_event_transcript_def chat_transcript_def t_label_def t_str_def)

lemma label_kind:
  "signed_label (SI_HostHello a) \<noteq> signed_label (SI_JoinRequest b)"
  "signed_label (SI_HostHello a) \<noteq> signed_label (SI_RoomEvent v s n e w)"
  "signed_label (SI_HostHello a) \<noteq> signed_label (SI_Chat v' s' e' i' n' t' o' c')"
  "signed_label (SI_JoinRequest b) \<noteq> signed_label (SI_RoomEvent v s n e w)"
  "signed_label (SI_JoinRequest b) \<noteq> signed_label (SI_Chat v' s' e' i' n' t' o' c')"
  "signed_label (SI_RoomEvent v s n e w) \<noteq> signed_label (SI_Chat v' s' e' i' n' t' o' c')"
  by (simp_all add: label_defs rs_def)

lemma room_event_transcript_inj:
  assumes "length s = 32" "length s' = 32" "length b < 2 ^ 32" "length b' < 2 ^ 32"
    and "room_event_transcript v s n e t b = room_event_transcript v' s' n' e' t' b'"
  shows "v = v' \<and> s = s' \<and> n = n' \<and> e = e' \<and> t = t' \<and> b = b'"
  using assms
  by (auto simp: room_event_transcript_def t_u8_def append_eq_append_conv code64.enc_append_iff
      intro: code_bytes.enc_inj)

lemma chat_transcript_inj:
  assumes "length s = 32" "length s' = 32" "length o1 = 24" "length o2 = 24"
    "length c < 2 ^ 32" "length c' < 2 ^ 32"
    and "chat_transcript v s e i n t o1 c = chat_transcript v' s' e' i' n' t' o2 c'"
  shows "v = v' \<and> s = s' \<and> e = e' \<and> i = i' \<and> n = n' \<and> t = t' \<and> o1 = o2 \<and> c = c'"
  using assms
  by (auto simp: chat_transcript_def t_u8_def append_eq_append_conv code64.enc_append_iff
      intro: code_bytes.enc_inj)

lemma host_hello_transcript_inj:
  assumes "signed_ok (SI_HostHello i)" "signed_ok (SI_HostHello j)"
    and "host_hello_transcript i = host_hello_transcript j"
  shows "i = j"
  using assms
  by (auto simp: host_hello_transcript_def t_u8_def append_eq_append_conv code_str.enc_append_iff
      code16.enc_append_iff intro!: host_hello_input.equality intro: code_str.enc_inj)

lemma join_request_transcript_inj:
  assumes "signed_ok (SI_JoinRequest i)" "signed_ok (SI_JoinRequest j)"
    and "join_request_transcript i = join_request_transcript j"
  shows "i = j"
  using assms
  by (auto simp: join_request_transcript_def t_u8_def append_eq_append_conv
      code_str.enc_append_iff intro!: join_request_input.equality intro: code_str.enc_inj)

text \<open>
  C39: signature inputs are unambiguous across the whole protocol: two well-sized inputs, of any
  of the four signed kinds, that produce the same transcript bytes are the same input, every
  field included. A signature made for one message can be used for no other one.
\<close>

theorem transcripts_unambiguous:
  assumes "signed_ok x" and "signed_ok y" and "signed_bytes x = signed_bytes y"
  shows "x = y"
proof -
  obtain r s where "signed_bytes x = t_str (signed_label x) @ r" "signed_bytes y = t_str (signed_label y) @ s"
    using signed_bytes_label by metis
  with assms(3) have lab: "signed_label x = signed_label y"
    using code_str.prefix_free [OF label_text_ok label_text_ok] by metis
  show ?thesis
    using assms lab label_kind
    by (cases x; cases y)
      (auto dest: host_hello_transcript_inj [rotated 2] join_request_transcript_inj [rotated 2]
        room_event_transcript_inj [rotated 4] chat_transcript_inj [rotated 6] intro: event_body_inj)
qed

lemma transcripts_unambiguous_witness:
  "signed_bytes (SI_Chat 1 (replicate 32 7) 2 1 1 0x40 (replicate 24 0) [1, 2]) \<noteq>
   signed_bytes (SI_Chat 1 (replicate 32 7) 2 1 2 0x40 (replicate 24 0) [1, 2])"
  using transcripts_unambiguous
    [of "SI_Chat 1 (replicate 32 7) 2 1 1 0x40 (replicate 24 0) [1, 2]"
        "SI_Chat 1 (replicate 32 7) 2 1 2 0x40 (replicate 24 0) [1, 2]"]
  by (auto simp del: signed_bytes.simps)

section \<open>Sealing and opening\<close>

lemma open_sealed:
  assumes "crypto_ok C"
    and "seal_envelope C key i v session epoch sender sequence t p es = (Inr e, es')"
  shows "open_envelope C key (identity_ed25519_pubkey C i) v session epoch sender sequence t
    (se_nonce e) (se_ciphertext e) (se_signature e) = Inr p \<and>
    length (se_ciphertext e) = length p + XCHACHA_TAG_LEN"
proof -
  from assms(2) obtain nonce es1 c where
    c: "c_encrypt C key nonce (chat_aad v session epoch sender sequence t) p = Some c"
    and e: "e = \<lparr>se_nonce = nonce, se_ciphertext = c, se_signature = identity_sign C i
       (chat_transcript v session epoch sender sequence t nonce c)\<rparr>"
    by (auto simp: seal_envelope_def split: option.splits elim!: tryS_cases)
  from assms(1) c have "c_decrypt C key nonce (chat_aad v session epoch sender sequence t) c = Some p"
    "length c = length p + XCHACHA_TAG_LEN"
    unfolding crypto_ok_def by (metis option.inject)+
  with assms(1) e show ?thesis
    by (simp add: open_envelope_def verify_ed25519_def identity_sign_def identity_ed25519_pubkey_def
        crypto_ok_def)
qed

lemma seal_succeeds:
  assumes "crypto_ok C" and "fill_random 24 es = (Inr nonce, es')"
  shows "\<exists>e. seal_envelope C key i v session epoch sender sequence t p es = (Inr e, es')"
  using assms unfolding crypto_ok_def seal_envelope_def XCHACHA_NONCE_LEN_def
  by (metis (no_types, lifting) option.simps(5) tryS_simps(2))

lemma wrap_keys_agree:
  assumes "crypto_ok C"
  shows "try_wrap_key_for C h (identity_x25519_pubkey C m) session k =
         try_wrap_key_for C m (identity_x25519_pubkey C h) session k"
  using assms by (simp add: try_wrap_key_for_def identity_x25519_pubkey_def crypto_ok_def)

lemma unwrap_wrapped:
  assumes "crypto_ok C" and "wrap_epoch_key C wk key epoch session es = (Inr (nonce, c), es')"
    and "length key = EPOCH_KEY_LEN"
  shows "unwrap_epoch_key C wk epoch session nonce c = Inr key \<and> length c = EPOCH_WRAP_CIPHERTEXT_LEN"
proof -
  from assms(2) have c: "c_encrypt C wk nonce (epoch_aad epoch session) key = Some c"
    by (auto simp: wrap_epoch_key_def split: option.splits elim!: tryS_cases)
  from assms(1) c have "c_decrypt C wk nonce (epoch_aad epoch session) c = Some key"
    "length c = length key + XCHACHA_TAG_LEN"
    unfolding crypto_ok_def by (metis option.inject)+
  with assms(3) show ?thesis by (simp add: unwrap_epoch_key_def EPOCH_WRAP_CIPHERTEXT_LEN_def)
qed

section \<open>A concrete instance\<close>

text \<open>
  A transparent stand-in for the primitives that satisfies \<open>crypto_ok\<close>, for evaluating the
  development on concrete inputs: keys are their own public halves, encryption appends a tag.
\<close>

definition pad :: "nat \<Rightarrow> bytes \<Rightarrow> bytes" where
  "pad n b = take n (b @ replicate n 0)"

definition mix_bytes :: "bytes \<Rightarrow> bytes \<Rightarrow> bytes" where
  "mix_bytes a b = map (\<lambda>(x, y). x + y) (zip (pad 32 a) (pad 32 b))"

definition plain_crypto :: crypto where
  "plain_crypto =
     \<lparr>c_ed_public = pad 32, c_ed_key_ok = (\<lambda>_. True),
      c_ed_sign = (\<lambda>s m. pad 64 (pad 32 s @ m)),
      c_ed_verify = (\<lambda>p m sig. sig = pad 64 (p @ m)),
      c_x_public = pad 32, c_x_dh = mix_bytes, c_x_contributory = (\<lambda>_. True),
      c_hkdf = (\<lambda>salt ikm info. pad 32 (ikm @ info)),
      c_encrypt = (\<lambda>k n a m. Some (m @ replicate 16 0)),
      c_decrypt = (\<lambda>k n a c. if length c < 16 then None else Some (take (length c - 16) c)),
      c_sha256 = pad 32\<rparr>"

lemma length_pad [simp]: "length (pad n b) = n"
  by (simp add: pad_def)

lemma pad_pad [simp]: "pad n (pad n b) = pad n b"
  by (simp add: pad_def)

lemma mix_bytes_comm: "mix_bytes a b = mix_bytes b a"
  unfolding mix_bytes_def by (rule nth_equalityI) (simp_all add: add.commute)

lemma plain_crypto_ok: "crypto_ok plain_crypto"
proof -
  have "mix_bytes a (pad 32 b) = mix_bytes b (pad 32 a)" for a b
    using mix_bytes_comm [of a b] by (simp add: mix_bytes_def)
  then show ?thesis by (simp add: crypto_ok_def plain_crypto_def XCHACHA_TAG_LEN_def)
qed

end
