(* ===== verification/Password.thy ===== *)
theory Password
  imports Crypto
begin

text \<open>
  The password proof (\<open>crypto/password.rs\<close>) and the room-level brake on guessing
  (\<open>admission/guard.rs\<close>). Argon2id and HMAC are third-party crates: the record \<open>kdf\<close> holds one
  function per call, and nothing is assumed of them but that they are functions. An \<open>Instant\<close> is a natural number of nanoseconds on the monotonic clock, whose second counter is a
  signed 64-bit integer.
\<close>

record kdf =
  k_argon2id :: "bytes \<Rightarrow> bytes \<Rightarrow> u32 \<Rightarrow> u32 \<Rightarrow> u32 \<Rightarrow> bytes option"
  k_hmac_sha256 :: "bytes \<Rightarrow> bytes \<Rightarrow> bytes"

section \<open>The proof\<close>

definition PASSWORD_PROOF_LABEL :: rstring where
  "PASSWORD_PROOF_LABEL = rs ''VEILROOM-PASSWORD-PROOF-V1''"

record password_verifier =
  pv_salt :: bytes
  pv_m_cost :: u32
  pv_t_cost :: u32
  pv_p_cost :: u8
  pv_derived_key :: bytes

definition derive_key :: "kdf \<Rightarrow> bytes \<Rightarrow> bytes \<Rightarrow> u32 \<Rightarrow> u32 \<Rightarrow> u8 \<Rightarrow> crypto_error + bytes" where
  "derive_key K password salt m t p = ok_or CE_Argon2 (k_argon2id K password salt m t (ucast p))"

definition verifier_derive :: "kdf \<Rightarrow> bytes \<Rightarrow> entropy \<Rightarrow> (crypto_error + password_verifier) \<times> entropy" where
  "verifier_derive K password es =
     tryS (fill_random SALT_LEN es) (\<lambda>salt es1.
       (bindE (derive_key K password salt ARGON2_M_COST ARGON2_T_COST ARGON2_P_COST) (\<lambda>key.
          Inr \<lparr>pv_salt = salt, pv_m_cost = ARGON2_M_COST, pv_t_cost = ARGON2_T_COST,
               pv_p_cost = ARGON2_P_COST, pv_derived_key = key\<rparr>), es1))"

definition compute_proof :: "kdf \<Rightarrow> bytes \<Rightarrow> bytes \<Rightarrow> bytes \<Rightarrow> bytes" where
  "compute_proof K key challenge_nonce client_nonce =
     k_hmac_sha256 K key (utf8 PASSWORD_PROOF_LABEL @ challenge_nonce @ client_nonce)"

definition expected_proof :: "kdf \<Rightarrow> password_verifier \<Rightarrow> bytes \<Rightarrow> bytes \<Rightarrow> bytes" where
  "expected_proof K v challenge_nonce client_nonce =
     compute_proof K (pv_derived_key v) challenge_nonce client_nonce"

definition verify_proof :: "kdf \<Rightarrow> password_verifier \<Rightarrow> bytes \<Rightarrow> bytes \<Rightarrow> bytes \<Rightarrow> bool" where
  "verify_proof K v challenge_nonce client_nonce proof \<longleftrightarrow>
     proof = expected_proof K v challenge_nonce client_nonce"

definition compute_password_proof ::
  "kdf \<Rightarrow> bytes \<Rightarrow> bytes \<Rightarrow> u32 \<Rightarrow> u32 \<Rightarrow> u8 \<Rightarrow> bytes \<Rightarrow> bytes \<Rightarrow> crypto_error + bytes" where
  "compute_password_proof K password salt m t p challenge_nonce client_nonce =
     bindE (derive_key K password salt m t p) (\<lambda>key.
       Inr (compute_proof K key challenge_nonce client_nonce))"

lemma verifier_derive_Inr:
  assumes "verifier_derive K password es = (Inr v, es')"
  shows "derive_key K password (pv_salt v) ARGON2_M_COST ARGON2_T_COST ARGON2_P_COST = Inr (pv_derived_key v) \<and>
    pv_m_cost v = ARGON2_M_COST \<and> pv_t_cost v = ARGON2_T_COST \<and> pv_p_cost v = ARGON2_P_COST \<and>
    length (pv_salt v) = SALT_LEN"
  using assms fill_random_length [of SALT_LEN es]
  by (auto simp: verifier_derive_def bindE_eq_Inr elim!: tryS_cases)

lemma derived_key_proves:
  assumes "derive_key K password (pv_salt v) m t p = Inr (pv_derived_key v)"
  shows "compute_password_proof K password (pv_salt v) m t p ch cn = Inr (expected_proof K v ch cn)"
  using assms by (simp add: compute_password_proof_def expected_proof_def)

text \<open>
  \<open>compute_proof\<close> concatenates the nonces without their lengths; they are arrays of 16 bytes, so
  the input of the HMAC still determines both.
\<close>

lemma proof_input_unambiguous:
  assumes "length ch = NONCE_LEN" and "length ch' = NONCE_LEN"
    and "utf8 PASSWORD_PROOF_LABEL @ ch @ cn = utf8 PASSWORD_PROOF_LABEL @ ch' @ cn'"
  shows "ch = ch' \<and> cn = cn'"
  using assms by simp

text \<open>A concrete instance, for evaluating the development.\<close>

definition plain_kdf :: kdf where
  "plain_kdf = \<lparr>k_argon2id = (\<lambda>pw salt m t p. Some (pad 32 (pw @ salt))),
                k_hmac_sha256 = (\<lambda>key m. mix_bytes key (drop 26 m))\<rparr>"

lemma length_mix_bytes [simp]: "length (mix_bytes a b) = 32"
  by (simp add: mix_bytes_def)

section \<open>The guard against guessing\<close>

definition PASSWORD_FAILURE_THRESHOLD :: u32 where "PASSWORD_FAILURE_THRESHOLD = 5"
definition PASSWORD_LOCKOUT_BASE :: duration where "PASSWORD_LOCKOUT_BASE = secs 30"
definition PASSWORD_LOCKOUT_MAX :: duration where "PASSWORD_LOCKOUT_MAX = secs (15 * 60)"

record password_guard =
  pg_failures :: u32
  pg_lockouts :: u32
  pg_locked_until :: "duration option"

definition guard_new :: password_guard where
  "guard_new = \<lparr>pg_failures = 0, pg_lockouts = 0, pg_locked_until = None\<rparr>"

text \<open>\<open>Duration::checked_mul\<close>, \<open>u32::checked_shl\<close> and \<open>Instant::checked_add\<close>.\<close>

definition duration_checked_mul :: "duration \<Rightarrow> u32 \<Rightarrow> duration option" where
  "duration_checked_mul d w = (if d * unat w < secs (2 ^ 64) then Some (d * unat w) else None)"

definition checked_shl :: "u32 \<Rightarrow> u32 \<Rightarrow> u32 option" where
  "checked_shl w shift = (if shift < 32 then Some (push_bit (unat shift) w) else None)"

definition instant_checked_add :: "duration \<Rightarrow> duration \<Rightarrow> duration option" where
  "instant_checked_add now d = (if now + d < secs (2 ^ 63) then Some (now + d) else None)"

definition next_window :: "password_guard \<Rightarrow> duration" where
  "next_window g =
     (let shift = min (pg_lockouts g) 31
      in min (case duration_checked_mul PASSWORD_LOCKOUT_BASE
                     (case checked_shl 1 shift of Some f \<Rightarrow> f | None \<Rightarrow> - 1) of
                Some w \<Rightarrow> w
              | None \<Rightarrow> PASSWORD_LOCKOUT_MAX)
             PASSWORD_LOCKOUT_MAX)"

definition record_failure :: "duration \<Rightarrow> password_guard \<Rightarrow> duration option \<times> password_guard" where
  "record_failure now g =
     (let g1 = g\<lparr>pg_failures := pg_failures g + 1\<rparr>
      in if pg_failures g1 mod PASSWORD_FAILURE_THRESHOLD \<noteq> 0 then (None, g1)
         else
           let window = next_window g1
           in (Some window,
               g1\<lparr>pg_lockouts := pg_lockouts g1 + 1,
                  pg_locked_until := (case instant_checked_add now window of
                                        Some t \<Rightarrow> Some t | None \<Rightarrow> pg_locked_until g1)\<rparr>))"

definition guard_is_locked :: "duration \<Rightarrow> password_guard \<Rightarrow> bool" where
  "guard_is_locked now g \<longleftrightarrow> (case pg_locked_until g of Some t \<Rightarrow> now < t | None \<Rightarrow> False)"

definition guard_remaining :: "duration \<Rightarrow> password_guard \<Rightarrow> duration option" where
  "guard_remaining now g =
     (case pg_locked_until g of
        Some t \<Rightarrow> if now < t then Some (t - now) else None
      | None \<Rightarrow> None)"

lemma guard_remaining_locked: "guard_remaining now g \<noteq> None \<longleftrightarrow> guard_is_locked now g"
  by (simp add: guard_remaining_def guard_is_locked_def split: option.splits)

definition window_after :: "nat \<Rightarrow> duration" where
  "window_after k = min (secs 30 * 2 ^ k) (secs 900)"

lemma window_saturates: "5 \<le> k \<Longrightarrow> window_after k = secs 900"
proof -
  assume "5 \<le> k"
  then have "(2 :: nat) ^ 5 \<le> 2 ^ k" by (rule power_increasing) simp
  then show ?thesis by (simp add: window_after_def secs_def)
qed

lemma next_window_eq: "next_window g = window_after (unat (pg_lockouts g))"
proof -
  define n where "n = unat (pg_lockouts g)"
  define shift where "shift = min (pg_lockouts g) 31"
  have k: "unat shift = min n 31"
    by (simp add: shift_def n_def min_def word_le_nat_alt)
  then have "shift < 32" by (simp add: word_less_nat_alt)
  then have shl: "checked_shl 1 shift = Some (2 ^ min n 31)"
    using k by (simp add: checked_shl_def push_bit_eq_mult)
  have u: "unat (2 ^ min n 31 :: u32) = 2 ^ min n 31"
    using unat_of_nat [where ?'a = 32, of "2 ^ min n 31"] power_strict_increasing [of "min n 31" 32 "2 :: nat"] by simp
  have "(2 :: nat) ^ min n 31 \<le> 2 ^ 31" by (rule power_increasing) simp_all
  then have "duration_checked_mul PASSWORD_LOCKOUT_BASE (2 ^ min n 31) = Some (secs 30 * 2 ^ min n 31)"
    by (simp add: duration_checked_mul_def PASSWORD_LOCKOUT_BASE_def u secs_def)
  then have "next_window g = window_after (min n 31)"
    by (simp add: next_window_def Let_def shl [unfolded shift_def] window_after_def PASSWORD_LOCKOUT_MAX_def)
  also have "\<dots> = window_after n"
    by (cases "n \<le> 31") (simp_all add: window_saturates)
  finally show ?thesis by (simp add: n_def)
qed

definition guard_after :: "duration list \<Rightarrow> password_guard" where
  "guard_after ts = fold (\<lambda>now g. snd (record_failure now g)) ts guard_new"

lemma unat_mod_threshold: "unat (w mod PASSWORD_FAILURE_THRESHOLD) = unat w mod 5"
  by (simp add: PASSWORD_FAILURE_THRESHOLD_def unat_mod)

lemma threshold_dvd: "w mod PASSWORD_FAILURE_THRESHOLD = 0 \<longleftrightarrow> unat w mod 5 = 0"
  by (metis unat_mod_threshold unat_eq_zero)

lemma guard_counters:
  "length ts < 2 ^ 32 \<Longrightarrow>
   unat (pg_failures (guard_after ts)) = length ts \<and> unat (pg_lockouts (guard_after ts)) = length ts div 5"
proof (induction ts rule: rev_induct)
  case Nil
  show ?case by (simp add: guard_after_def guard_new_def)
next
  case (snoc now ts)
  then have IH: "unat (pg_failures (guard_after ts)) = length ts"
    "unat (pg_lockouts (guard_after ts)) = length ts div 5" by simp_all
  let ?g = "guard_after ts"
  have step: "guard_after (ts @ [now]) = snd (record_failure now ?g)" by (simp add: guard_after_def)
  have f: "unat (pg_failures ?g + 1) = length ts + 1"
    using snoc.prems IH by (simp add: unat_word_ariths)
  have l: "unat (pg_lockouts ?g + 1) = length ts div 5 + 1"
    using snoc.prems IH by (simp add: unat_word_ariths)
  show ?case
    by (auto simp: step record_failure_def Let_def threshold_dvd f l IH div_Suc mod_Suc split: if_splits)
qed

text \<open>
  The guard against password guessing. After any failed proofs, the next one starts a lockout
  exactly when it is the fifth, tenth, and so on; the lockout lasts 30 seconds at first and doubles
  each time up to 15 minutes, and the room is locked exactly until it ends. Any other failure
  changes nothing about when the room is locked.
\<close>

theorem lockout_schedule:
  assumes "length ts + 1 < 2 ^ 32" and "now + secs 900 < secs (2 ^ 63)"
  defines "window \<equiv> fst (record_failure now (guard_after ts))"
    and "g \<equiv> snd (record_failure now (guard_after ts))"
  shows "window = (if 5 dvd length ts + 1 then Some (min (secs 30 * 2 ^ (length ts div 5)) (secs 900)) else None) \<and>
    (\<forall>t. guard_is_locked t g \<longleftrightarrow>
      (case window of Some w \<Rightarrow> t < now + w | None \<Rightarrow> guard_is_locked t (guard_after ts)))"
proof -
  have f: "unat (pg_failures (guard_after ts)) = length ts"
    and l: "unat (pg_lockouts (guard_after ts)) = length ts div 5"
    using guard_counters [of ts] assms(1) by simp_all
  have "unat (pg_failures (guard_after ts) + 1) = length ts + 1"
    using assms(1) f by (simp add: unat_word_ariths)
  then have due: "(pg_failures (guard_after ts) + 1) mod PASSWORD_FAILURE_THRESHOLD = 0 \<longleftrightarrow> 5 dvd length ts + 1"
    by (simp add: threshold_dvd dvd_eq_mod_eq_0)
  have "window_after (length ts div 5) \<le> secs 900" by (simp add: window_after_def)
  then have add: "instant_checked_add now (window_after (length ts div 5)) = Some (now + window_after (length ts div 5))"
    using assms(2) by (simp add: instant_checked_add_def)
  show ?thesis
    unfolding window_def g_def
    by (simp add: record_failure_def Let_def due next_window_eq l add guard_is_locked_def)
      (simp add: window_after_def)
qed

lemma lockout_schedule_witness:
  "fst (record_failure (secs 9) (guard_after (replicate 4 0))) = Some (secs 30) \<and>
   guard_is_locked (secs 38) (snd (record_failure (secs 9) (guard_after (replicate 4 0)))) \<and>
   \<not> guard_is_locked (secs 39) (snd (record_failure (secs 9) (guard_after (replicate 4 0))))"
  using lockout_schedule [of "replicate 4 0" "secs 9"] by (simp add: secs_def)

end
