(* ===== verification/Members.thy ===== *)
theory Members
  imports Wire "HOL-Library.AList"
begin

text \<open>
  The member table (\<open>room/member.rs\<close>), the join-request queue (\<open>admission/queue.rs\<close>) and the
  connection registry (\<open>room/connections.rs\<close>): the three stores of the room actor, with their
  invariants and the laws the actor relies on. The registry's hash map is an association list
  with distinct keys; the order in which it is iterated is a parameter of the operations that
  expose it.
\<close>

section \<open>The member table\<close>

record member =
  m_member_id :: u64
  m_connection :: u64
  m_nickname :: rstring
  m_color :: color_choice
  m_is_host :: bool
  m_ed25519_pubkey :: bytes
  m_x25519_pubkey :: bytes
  m_joined_epoch :: u64

record member_info =
  mi_member_id :: u64
  mi_nickname :: rstring
  mi_color :: color_choice
  mi_is_host :: bool

definition member_info_from :: "member \<Rightarrow> member_info" where
  "member_info_from m =
     \<lparr>mi_member_id = m_member_id m, mi_nickname = m_nickname m, mi_color = m_color m,
      mi_is_host = m_is_host m\<rparr>"

datatype member_error =
    ME_Full nat
  | ME_NicknameTaken rstring
  | ME_ConnectionTaken u64
  | ME_IdentityTaken
  | ME_UnknownId u64

fun member_error_text :: "member_error \<Rightarrow> rstring" where
  "member_error_text (ME_Full n) = rs ''the room is full (maximum '' @ dec n @ rs '' members)''"
| "member_error_text (ME_NicknameTaken s) = rs ''nickname `'' @ s @ rs ''` is already in use''"
| "member_error_text (ME_ConnectionTaken c) =
     rs ''connection '' @ dec (unat c) @ rs '' is already active''"
| "member_error_text ME_IdentityTaken = rs ''the ephemeral member identity is already active''"
| "member_error_text (ME_UnknownId i) = rs ''no member with id '' @ dec (unat i)"

record member_table =
  mt_limit :: nat
  mt_next_id :: u64
  mt_members :: "member list"

definition table_new :: "limits \<Rightarrow> member_table" where
  "table_new l = \<lparr>mt_limit = max_active_members l, mt_next_id = 1, mt_members = []\<rparr>"

definition table_is_full :: "member_table \<Rightarrow> bool" where
  "table_is_full t \<longleftrightarrow> length (mt_members t) \<ge> mt_limit t"

definition by_id :: "u64 \<Rightarrow> member_table \<Rightarrow> member option" where
  "by_id i t = List.find (\<lambda>m. m_member_id m = i) (mt_members t)"

definition by_nickname :: "rstring \<Rightarrow> member_table \<Rightarrow> member option" where
  "by_nickname n t = List.find (\<lambda>m. m_nickname m = n) (mt_members t)"

definition by_connection :: "u64 \<Rightarrow> member_table \<Rightarrow> member option" where
  "by_connection c t = List.find (\<lambda>m. m_connection m = c) (mt_members t)"

definition nickname_taken :: "rstring \<Rightarrow> member_table \<Rightarrow> bool" where
  "nickname_taken n t \<longleftrightarrow> list_ex (\<lambda>m. m_nickname m = n) (mt_members t)"

definition table_add_host :: "u64 \<Rightarrow> rstring \<Rightarrow> bytes \<Rightarrow> bytes \<Rightarrow> member_table \<Rightarrow> member \<times> member_table" where
  "table_add_host c n ed x t =
     (let m = \<lparr>m_member_id = 0, m_connection = c, m_nickname = n, m_color = color_default,
               m_is_host = True, m_ed25519_pubkey = ed, m_x25519_pubkey = x, m_joined_epoch = 1\<rparr>
      in (m, t\<lparr>mt_members := mt_members t @ [m]\<rparr>))"

definition table_add :: "u64 \<Rightarrow> rstring \<Rightarrow> bytes \<Rightarrow> bytes \<Rightarrow> u64 \<Rightarrow> member_table \<Rightarrow>
    (member_error + member) \<times> member_table" where
  "table_add c n ed x epoch t =
     (if table_is_full t then (Inl (ME_Full (mt_limit t)), t)
      else if nickname_taken n t then (Inl (ME_NicknameTaken n), t)
      else if by_connection c t \<noteq> None then (Inl (ME_ConnectionTaken c), t)
      else if list_ex (\<lambda>m. m_ed25519_pubkey m = ed \<or> m_x25519_pubkey m = x) (mt_members t) then
        (Inl ME_IdentityTaken, t)
      else
        let m = \<lparr>m_member_id = mt_next_id t, m_connection = c, m_nickname = n,
                 m_color = color_default, m_is_host = False, m_ed25519_pubkey = ed,
                 m_x25519_pubkey = x, m_joined_epoch = epoch\<rparr>
        in (Inr m, t\<lparr>mt_next_id := mt_next_id t + 1, mt_members := mt_members t @ [m]\<rparr>))"

definition table_remove :: "u64 \<Rightarrow> member_table \<Rightarrow> member option \<times> member_table" where
  "table_remove i t =
     (case take_first (\<lambda>m. m_member_id m = i) (mt_members t) of
        None \<Rightarrow> (None, t)
      | Some (m, ms) \<Rightarrow> (Some m, t\<lparr>mt_members := ms\<rparr>))"

text \<open>\<open>by_id_mut\<close> followed by the assignment of the color.\<close>

definition table_set_color :: "u64 \<Rightarrow> color_choice \<Rightarrow> member_table \<Rightarrow> member_table" where
  "table_set_color i c t =
     t\<lparr>mt_members := update_first (\<lambda>m. m_member_id m = i) (\<lambda>m. m\<lparr>m_color := c\<rparr>) (mt_members t)\<rparr>"

text \<open>
  The table's invariant: ids, nicknames, connections and both identity keys are pairwise
  distinct, member 0 is the host and the only one, every other id has been handed out before
  the next one, and the capacity is respected.
\<close>

definition table_ok :: "member_table \<Rightarrow> bool" where
  "table_ok t \<longleftrightarrow>
     distinct (map m_member_id (mt_members t)) \<and> distinct (map m_nickname (mt_members t)) \<and>
     distinct (map m_connection (mt_members t)) \<and> distinct (map m_ed25519_pubkey (mt_members t)) \<and>
     distinct (map m_x25519_pubkey (mt_members t)) \<and>
     (\<forall>m \<in> set (mt_members t). m_is_host m \<longleftrightarrow> m_member_id m = 0) \<and>
     (\<forall>m \<in> set (mt_members t). m_member_id m < mt_next_id t) \<and>
     0 < mt_next_id t \<and> length (mt_members t) \<le> mt_limit t"

lemma by_id_SomeD: "by_id i t = Some m \<Longrightarrow> m \<in> set (mt_members t) \<and> m_member_id m = i"
  unfolding by_id_def by (rule find_SomeD)

lemma by_id_None: "by_id i t = None \<longleftrightarrow> (\<forall>m \<in> set (mt_members t). m_member_id m \<noteq> i)"
  by (auto simp: by_id_def find_None_iff)

lemma by_connection_SomeD:
  "by_connection c t = Some m \<Longrightarrow> m \<in> set (mt_members t) \<and> m_connection m = c"
  unfolding by_connection_def by (rule find_SomeD)

lemma by_connection_None: "by_connection c t = None \<longleftrightarrow> (\<forall>m \<in> set (mt_members t). m_connection m \<noteq> c)"
  by (auto simp: by_connection_def find_None_iff)

lemma by_id_iff:
  "table_ok t \<Longrightarrow> by_id i t = Some m \<longleftrightarrow> m \<in> set (mt_members t) \<and> m_member_id m = i"
  by (auto simp: table_ok_def by_id_def dest: find_SomeD intro: find_distinct)

lemma table_ok_eqI:
  assumes "table_ok t" "m \<in> set (mt_members t)" "m' \<in> set (mt_members t)"
  shows "m_member_id m = m_member_id m' \<Longrightarrow> m = m'" "m_connection m = m_connection m' \<Longrightarrow> m = m'"
    "m_nickname m = m_nickname m' \<Longrightarrow> m = m'"
  using assms by (auto simp: table_ok_def distinct_map dest: inj_onD)

lemma table_remove_filter:
  assumes "table_ok t"
  shows "table_remove i t =
    (by_id i t, t\<lparr>mt_members := filter (\<lambda>m. m_member_id m \<noteq> i) (mt_members t)\<rparr>)"
proof (cases "take_first (\<lambda>m. m_member_id m = i) (mt_members t)")
  case None
  then have "filter (\<lambda>m. m_member_id m \<noteq> i) (mt_members t) = mt_members t"
    by (auto simp: take_first_None filter_id_conv)
  moreover have "by_id i t = None" using None by (auto simp: take_first_None by_id_None)
  ultimately show ?thesis by (simp add: table_remove_def None)
next
  case (Some p)
  obtain m ms where p: "p = (m, ms)" by (cases p)
  have "distinct (map m_member_id (mt_members t))" using assms by (simp add: table_ok_def)
  from take_first_filter [OF this, of i m ms] Some p
  have "ms = filter (\<lambda>m. m_member_id m \<noteq> i) (mt_members t)" "m \<in> set (mt_members t)" "m_member_id m = i"
    by auto
  moreover from this assms have "by_id i t = Some m" by (simp add: by_id_iff)
  ultimately show ?thesis using Some p by (simp add: table_remove_def)
qed

lemma table_ok_remove:
  assumes "table_ok t"
  shows "table_ok (snd (table_remove i t))"
  using assms le_trans [OF length_filter_le]
  by (auto simp: table_remove_filter table_ok_def distinct_map_filter)

lemma table_add_Inr:
  assumes "table_add c n ed x epoch t = (Inr m, t')"
  shows "m = \<lparr>m_member_id = mt_next_id t, m_connection = c, m_nickname = n, m_color = color_default,
      m_is_host = False, m_ed25519_pubkey = ed, m_x25519_pubkey = x, m_joined_epoch = epoch\<rparr>"
    and "t' = t\<lparr>mt_next_id := mt_next_id t + 1, mt_members := mt_members t @ [m]\<rparr>"
    and "length (mt_members t) < mt_limit t"
    and "\<forall>m' \<in> set (mt_members t). m_nickname m' \<noteq> n \<and> m_connection m' \<noteq> c \<and>
           m_ed25519_pubkey m' \<noteq> ed \<and> m_x25519_pubkey m' \<noteq> x"
  using assms
  by (auto simp: table_add_def table_is_full_def nickname_taken_def by_connection_None Let_def
      list_ex_iff split: if_splits)

lemma table_add_Inl: "table_add c n ed x epoch t = (Inl e, t') \<Longrightarrow> t' = t"
  by (auto simp: table_add_def Let_def split: if_splits)

lemma table_ok_add:
  assumes ok: "table_ok t" and next_id: "mt_next_id t + 1 \<noteq> 0"
    and add: "table_add c n ed x epoch t = (Inr m, t')"
  shows "table_ok t'"
proof -
  note a = table_add_Inr [OF add]
  have lt: "mt_next_id t < mt_next_id t + 1" using next_id by (rule word_less_inc)
  have "\<forall>m' \<in> set (mt_members t). m_member_id m' < mt_next_id t + 1"
    using ok lt by (auto simp: table_ok_def intro: less_trans)
  moreover have "\<forall>m' \<in> set (mt_members t). m_member_id m' \<noteq> mt_next_id t"
    using ok by (auto simp: table_ok_def)
  moreover have "0 < mt_next_id t + 1" "mt_next_id t \<noteq> 0"
    using ok lt by (auto simp: table_ok_def)
  ultimately show ?thesis
    using ok lt a(3,4) by (auto simp: a(1,2) table_ok_def)
qed

lemma table_ok_set_color: "table_ok t \<Longrightarrow> table_ok (table_set_color i c t)"
proof -
  assume ok: "table_ok t"
  have "\<forall>m \<in> set (mt_members (table_set_color i c t)).
      (m_is_host m \<longleftrightarrow> m_member_id m = 0) \<and> m_member_id m < mt_next_id t"
    using ok set_update_first [of "\<lambda>m. m_member_id m = i" "\<lambda>m. m\<lparr>m_color := c\<rparr>" "mt_members t"]
    by (auto simp: table_set_color_def table_ok_def)
  with ok show ?thesis
    by (auto simp: table_ok_def table_set_color_def map_update_first)
qed

lemma table_ok_add_host:
  "max_active_members l > 0 \<Longrightarrow> table_ok (snd (table_add_host c n ed x (table_new l)))"
  by (simp add: table_ok_def table_add_host_def table_new_def Let_def)

section \<open>The join-request queue\<close>

record join_application =
  ap_nickname :: rstring
  ap_introduction :: "rstring option"
  ap_ed25519_pubkey :: bytes
  ap_x25519_pubkey :: bytes
  ap_signature :: bytes

record join_request =
  rq_id :: u64
  rq_connection :: u64
  rq_application :: join_application

datatype queue_error = QE_Full nat | QE_Unknown u64

record request_queue =
  qu_limit :: nat
  qu_next_id :: u64
  qu_requests :: "join_request list"

definition queue_new :: "limits \<Rightarrow> request_queue" where
  "queue_new l = \<lparr>qu_limit = max_pending_requests l, qu_next_id = 0, qu_requests = []\<rparr>"

definition queue_allocate_id :: "request_queue \<Rightarrow> u64 \<times> request_queue" where
  "queue_allocate_id q = (qu_next_id q, q\<lparr>qu_next_id := qu_next_id q + 1\<rparr>)"

definition queue_push :: "u64 \<Rightarrow> join_application \<Rightarrow> request_queue \<Rightarrow> (queue_error + u64) \<times> request_queue" where
  "queue_push c a q =
     (if length (qu_requests q) \<ge> qu_limit q then (Inl (QE_Full (qu_limit q)), q)
      else case queue_allocate_id q of
             (i, q') \<Rightarrow>
               (Inr i, q'\<lparr>qu_requests := qu_requests q' @
                  [\<lparr>rq_id = i, rq_connection = c, rq_application = a\<rparr>]\<rparr>))"

definition queue_take :: "u64 \<Rightarrow> request_queue \<Rightarrow> (queue_error + join_request) \<times> request_queue" where
  "queue_take i q =
     (case take_first (\<lambda>r. rq_id r = i) (qu_requests q) of
        None \<Rightarrow> (Inl (QE_Unknown i), q)
      | Some (r, rest) \<Rightarrow> (Inr r, q\<lparr>qu_requests := rest\<rparr>))"

definition queue_drain :: "request_queue \<Rightarrow> join_request list \<times> request_queue" where
  "queue_drain q = (qu_requests q, q\<lparr>qu_requests := []\<rparr>)"

definition queue_ok :: "request_queue \<Rightarrow> bool" where
  "queue_ok q \<longleftrightarrow>
     distinct (map rq_id (qu_requests q)) \<and> (\<forall>r \<in> set (qu_requests q). rq_id r < qu_next_id q) \<and>
     length (qu_requests q) \<le> qu_limit q"

lemma queue_push_Inr:
  "queue_push c a q = (Inr i, q') \<longleftrightarrow>
     length (qu_requests q) < qu_limit q \<and> i = qu_next_id q \<and>
     q' = q\<lparr>qu_next_id := qu_next_id q + 1,
            qu_requests := qu_requests q @ [\<lparr>rq_id = i, rq_connection = c, rq_application = a\<rparr>]\<rparr>"
  by (auto simp: queue_push_def queue_allocate_id_def)

lemma queue_push_Inl: "queue_push c a q = (Inl e, q') \<Longrightarrow> q' = q"
  by (auto simp: queue_push_def queue_allocate_id_def split: if_splits)

lemma queue_ok_push:
  "queue_ok q \<Longrightarrow> qu_next_id q + 1 \<noteq> 0 \<Longrightarrow> queue_push c a q = (Inr i, q') \<Longrightarrow> queue_ok q'"
  using word_less_inc [of "qu_next_id q"]
  by (auto simp: queue_push_Inr queue_ok_def intro: less_trans)

lemma queue_ok_allocate:
  "queue_ok q \<Longrightarrow> qu_next_id q + 1 \<noteq> 0 \<Longrightarrow> queue_ok (snd (queue_allocate_id q))"
  using word_less_inc [of "qu_next_id q"]
  by (auto simp: queue_allocate_id_def queue_ok_def intro: less_trans)

lemma queue_take_Inr:
  assumes "queue_ok q" and "queue_take i q = (Inr r, q')"
  shows "r \<in> set (qu_requests q) \<and> rq_id r = i \<and>
    q' = q\<lparr>qu_requests := filter (\<lambda>r. rq_id r \<noteq> i) (qu_requests q)\<rparr>"
  using assms take_first_filter [of rq_id "qu_requests q" i]
  by (auto simp: queue_take_def queue_ok_def split: option.splits)

lemma queue_take_Inl:
  "queue_take i q = (Inl e, q') \<Longrightarrow> q' = q \<and> e = QE_Unknown i \<and> (\<forall>r \<in> set (qu_requests q). rq_id r \<noteq> i)"
  by (auto simp: queue_take_def take_first_None split: option.splits)

lemma queue_take_present:
  "r \<in> set (qu_requests q) \<Longrightarrow> rq_id r = i \<Longrightarrow> \<exists>r' q'. queue_take i q = (Inr r', q')"
  using queue_take_Inl [of i q] by (metis old.sum.exhaust surj_pair)

lemma queue_ok_take: "queue_ok q \<Longrightarrow> queue_ok (snd (queue_take i q))"
proof -
  assume ok: "queue_ok q"
  show ?thesis
  proof (cases "queue_take i q")
    case (Pair r q')
    show ?thesis
    proof (cases r)
      case (Inl e)
      then show ?thesis using queue_take_Inl [of i q e q'] ok Pair by simp
    next
      case (Inr x)
      then have "q' = q\<lparr>qu_requests := filter (\<lambda>r. rq_id r \<noteq> i) (qu_requests q)\<rparr>"
        using queue_take_Inr [OF ok] Pair by blast
      then show ?thesis using ok Pair le_trans [OF length_filter_le]
        by (auto simp: queue_ok_def distinct_map_filter)
    qed
  qed
qed

lemma queue_ok_drain: "queue_ok q \<Longrightarrow> queue_ok (snd (queue_drain q))"
  by (simp add: queue_ok_def queue_drain_def)

section \<open>The connection registry\<close>

datatype connection_role = CR_Admission | CR_Pending u64 | CR_Member u64

record connection_entry =
  ce_id :: u64
  ce_password_verified :: bool
  ce_role :: connection_role

type_synonym connections = "(u64 \<times> connection_entry) list"

definition conn_new :: connections where "conn_new = []"

definition conn_get :: "u64 \<Rightarrow> connections \<Rightarrow> connection_entry option" where
  "conn_get c cs = map_of cs c"

definition conn_register :: "u64 \<Rightarrow> connections \<Rightarrow> connections" where
  "conn_register c cs =
     (case conn_get c cs of
        Some _ \<Rightarrow> cs
      | None \<Rightarrow> AList.update c \<lparr>ce_id = c, ce_password_verified = False, ce_role = CR_Admission\<rparr> cs)"

text \<open>\<open>get_mut\<close> and a write: the result says whether the connection is known.\<close>

definition conn_modify :: "u64 \<Rightarrow> (connection_entry \<Rightarrow> connection_entry) \<Rightarrow> connections \<Rightarrow>
    unit option \<times> connections" where
  "conn_modify c f cs =
     (case conn_get c cs of None \<Rightarrow> (None, cs) | Some e \<Rightarrow> (Some (), AList.update c (f e) cs))"

definition conn_mark_password_verified :: "u64 \<Rightarrow> connections \<Rightarrow> unit option \<times> connections" where
  "conn_mark_password_verified c = conn_modify c (\<lambda>e. e\<lparr>ce_password_verified := True\<rparr>)"

definition conn_attach_request :: "u64 \<Rightarrow> u64 \<Rightarrow> connections \<Rightarrow> unit option \<times> connections" where
  "conn_attach_request c i = conn_modify c (\<lambda>e. e\<lparr>ce_role := CR_Pending i\<rparr>)"

definition conn_promote :: "u64 \<Rightarrow> u64 \<Rightarrow> connections \<Rightarrow> unit option \<times> connections" where
  "conn_promote c i = conn_modify c (\<lambda>e. e\<lparr>ce_role := CR_Member i\<rparr>)"

definition conn_request_id :: "u64 \<Rightarrow> connections \<Rightarrow> u64 option" where
  "conn_request_id c cs =
     (case conn_get c cs of
        None \<Rightarrow> None
      | Some e \<Rightarrow> (case ce_role e of CR_Pending i \<Rightarrow> Some i | _ \<Rightarrow> None))"

definition conn_member_id :: "u64 \<Rightarrow> connections \<Rightarrow> u64 option" where
  "conn_member_id c cs =
     (case conn_get c cs of
        None \<Rightarrow> None
      | Some e \<Rightarrow> (case ce_role e of CR_Member i \<Rightarrow> Some i | _ \<Rightarrow> None))"

definition conn_remove :: "u64 \<Rightarrow> connections \<Rightarrow> connections" where
  "conn_remove c cs = AList.delete c cs"

definition is_member_role :: "connection_role \<Rightarrow> bool" where
  "is_member_role r = (case r of CR_Member _ \<Rightarrow> True | _ \<Rightarrow> False)"

text \<open>
  \<open>ids\<close> and \<open>non_member_ids\<close> iterate the hash map; \<open>order\<close> is its iteration order.
\<close>

definition conn_ids :: "(u64 list \<Rightarrow> u64 list) \<Rightarrow> connections \<Rightarrow> u64 list" where
  "conn_ids order cs = order (map fst cs)"

definition conn_non_member_ids :: "(u64 list \<Rightarrow> u64 list) \<Rightarrow> connections \<Rightarrow> u64 list" where
  "conn_non_member_ids order cs =
     order (map fst (filter (\<lambda>(c, e). \<not> is_member_role (ce_role e)) cs))"

definition order_ok :: "(u64 list \<Rightarrow> u64 list) \<Rightarrow> bool" where
  "order_ok order \<longleftrightarrow> (\<forall>xs. set (order xs) = set xs \<and> length (order xs) = length xs)"

definition conn_role :: "u64 \<Rightarrow> connections \<Rightarrow> connection_role option" where
  "conn_role c cs = map_option ce_role (conn_get c cs)"

definition conn_ok :: "connections \<Rightarrow> bool" where
  "conn_ok cs \<longleftrightarrow> distinct (map fst cs) \<and> (\<forall>(c, e) \<in> set cs. ce_id e = c)"

text \<open>The registry seen as a map of roles: one law per operation.\<close>

lemma conn_role_new [simp]: "conn_role c conn_new = None"
  by (simp add: conn_role_def conn_get_def conn_new_def)

lemma conn_get_update: "conn_get c' (AList.update c e cs) = (if c' = c then Some e else conn_get c' cs)"
  by (simp add: conn_get_def update_conv)

lemma conn_role_register:
  "conn_role c' (conn_register c cs) =
     (if c' = c \<and> conn_role c cs = None then Some CR_Admission else conn_role c' cs)"
  by (auto simp: conn_role_def conn_register_def conn_get_update split: option.splits)

lemma conn_role_modify:
  "conn_role c' (snd (conn_modify c f cs)) =
     (if c' = c then map_option (\<lambda>e. ce_role (f e)) (conn_get c cs) else conn_role c' cs)"
  by (auto simp: conn_role_def conn_modify_def conn_get_update split: option.splits)

lemma conn_role_mark [simp]: "conn_role c' (snd (conn_mark_password_verified c cs)) = conn_role c' cs"
  unfolding conn_mark_password_verified_def conn_role_modify
  by (simp add: conn_role_def)

lemma conn_role_attach:
  "conn_role c' (snd (conn_attach_request c i cs)) =
     (if c' = c \<and> conn_role c cs \<noteq> None then Some (CR_Pending i) else conn_role c' cs)"
  unfolding conn_attach_request_def conn_role_modify
  by (auto simp: conn_role_def split: option.splits)

lemma conn_role_promote:
  "conn_role c' (snd (conn_promote c i cs)) =
     (if c' = c \<and> conn_role c cs \<noteq> None then Some (CR_Member i) else conn_role c' cs)"
  unfolding conn_promote_def conn_role_modify
  by (auto simp: conn_role_def split: option.splits)

lemma conn_role_remove: "conn_role c' (conn_remove c cs) = (if c' = c then None else conn_role c' cs)"
  by (simp add: conn_role_def conn_get_def conn_remove_def delete_conv)

lemmas conn_role_laws = conn_role_register conn_role_attach conn_role_promote conn_role_remove

lemma conn_request_id_role: "conn_request_id c cs = Some i \<longleftrightarrow> conn_role c cs = Some (CR_Pending i)"
  by (auto simp: conn_request_id_def conn_role_def split: option.splits connection_role.splits)

lemma conn_member_id_role: "conn_member_id c cs = Some i \<longleftrightarrow> conn_role c cs = Some (CR_Member i)"
  by (auto simp: conn_member_id_def conn_role_def split: option.splits connection_role.splits)

lemma conn_ok_update: "conn_ok cs \<Longrightarrow> ce_id e = c \<Longrightarrow> conn_ok (AList.update c e cs)"
  unfolding conn_ok_def
proof (intro conjI)
  assume ok: "distinct (map fst cs) \<and> (\<forall>(c, e) \<in> set cs. ce_id e = c)" and e: "ce_id e = c"
  show "distinct (map fst (AList.update c e cs))" using ok by (simp add: distinct_update)
  have "set (AList.update c e cs) \<subseteq> insert (c, e) (set cs)" by (induction cs) auto
  with ok e show "\<forall>(c, e) \<in> set (AList.update c e cs). ce_id e = c" by auto
qed

lemma conn_get_id: "conn_ok cs \<Longrightarrow> conn_get c cs = Some e \<Longrightarrow> ce_id e = c"
  by (auto simp: conn_ok_def conn_get_def dest: map_of_SomeD)

lemma conn_ok_modify:
  "conn_ok cs \<Longrightarrow> (\<And>e. ce_id (f e) = ce_id e) \<Longrightarrow> conn_ok (snd (conn_modify c f cs))"
  by (auto simp: conn_modify_def conn_get_id conn_ok_update split: option.splits)

lemma conn_ok_new [simp]: "conn_ok conn_new"
  by (simp add: conn_ok_def conn_new_def)

lemma conn_ok_register [simp]: "conn_ok cs \<Longrightarrow> conn_ok (conn_register c cs)"
  by (auto simp: conn_register_def conn_ok_update split: option.splits)

lemma conn_ok_mark [simp]: "conn_ok cs \<Longrightarrow> conn_ok (snd (conn_mark_password_verified c cs))"
  by (simp add: conn_mark_password_verified_def conn_ok_modify)

lemma conn_ok_attach [simp]: "conn_ok cs \<Longrightarrow> conn_ok (snd (conn_attach_request c i cs))"
  by (simp add: conn_attach_request_def conn_ok_modify)

lemma conn_ok_promote [simp]: "conn_ok cs \<Longrightarrow> conn_ok (snd (conn_promote c i cs))"
  by (simp add: conn_promote_def conn_ok_modify)

lemma conn_ok_remove [simp]: "conn_ok cs \<Longrightarrow> conn_ok (conn_remove c cs)"
  by (auto simp: conn_ok_def conn_remove_def AList.delete_eq distinct_map_filter)

lemma set_conn_ids: "order_ok order \<Longrightarrow> c \<in> set (conn_ids order cs) \<longleftrightarrow> conn_role c cs \<noteq> None"
  by (simp add: order_ok_def conn_ids_def conn_role_def conn_get_def map_of_eq_None_iff)

lemma set_conn_non_member_ids:
  assumes "order_ok order" "conn_ok cs"
  shows "c \<in> set (conn_non_member_ids order cs) \<longleftrightarrow>
    (\<exists>r. conn_role c cs = Some r \<and> \<not> is_member_role r)"
proof -
  have "c \<in> set (conn_non_member_ids order cs) \<longleftrightarrow> (\<exists>e. (c, e) \<in> set cs \<and> \<not> is_member_role (ce_role e))"
    using assms(1) by (force simp: order_ok_def conn_non_member_ids_def)
  also have "\<dots> \<longleftrightarrow> (\<exists>e. map_of cs c = Some e \<and> \<not> is_member_role (ce_role e))"
    using assms(2) by (auto simp: conn_ok_def)
  finally show ?thesis by (auto simp: conn_role_def conn_get_def)
qed

end
