(* ===== verification/Replay.thy ===== *)
theory Replay
  imports Prelude
begin

text \<open>
  Replay tracking (\<open>chat/replay.rs\<close>). The tracker's hash map from \<open>(sender, epoch)\<close> to the last
  accepted sequence is a map. \<open>replay_guard\<close> is the contract both users of the tracker rely on
  (the participant's \<open>ChatSession\<close> and the host's \<open>RoomActor\<close>): a message is accepted only if
  its sequence exceeds the last one accepted for its sender and epoch.
\<close>

type_synonym replay_tracker = "u64 \<times> u64 \<rightharpoonup> u64"

definition replay_new :: replay_tracker where
  "replay_new = Map.empty"

definition replay_accept :: "u64 \<Rightarrow> u64 \<Rightarrow> u64 \<Rightarrow> replay_tracker \<Rightarrow> bool \<times> replay_tracker" where
  "replay_accept sender epoch sequence t =
     (case t (sender, epoch) of
        Some l \<Rightarrow> if sequence \<le> l then (False, t) else (True, t((sender, epoch) \<mapsto> sequence))
      | None \<Rightarrow> (True, t((sender, epoch) \<mapsto> sequence)))"

definition replay_last_accepted :: "u64 \<Rightarrow> u64 \<Rightarrow> replay_tracker \<Rightarrow> u64 option" where
  "replay_last_accepted sender epoch t = t (sender, epoch)"

definition replay_retain_epoch :: "u64 \<Rightarrow> replay_tracker \<Rightarrow> replay_tracker" where
  "replay_retain_epoch current t = (\<lambda>k. if snd k = current then t k else None)"

text \<open>
  A history of offers \<open>(sender, epoch, sequence)\<close>: the accepted ones, in order.
\<close>

fun accepted_offers ::
  "(u64 \<Rightarrow> u64 \<Rightarrow> u64 \<Rightarrow> 't \<Rightarrow> bool \<times> 't) \<Rightarrow> (u64 \<times> u64 \<times> u64) list \<Rightarrow> 't \<Rightarrow> (u64 \<times> u64 \<times> u64) list" where
  "accepted_offers accept [] t = []"
| "accepted_offers accept ((s, e, n) # xs) t =
     (case accept s e n t of
        (ok, t') \<Rightarrow> (if ok then [(s, e, n)] else []) @ accepted_offers accept xs t')"

section \<open>The contract\<close>

locale replay_guard =
  fixes accept :: "u64 \<Rightarrow> u64 \<Rightarrow> u64 \<Rightarrow> 't \<Rightarrow> bool \<times> 't"
    and last_of :: "u64 \<Rightarrow> u64 \<Rightarrow> 't \<Rightarrow> u64 option"
    and retain :: "u64 \<Rightarrow> 't \<Rightarrow> 't"
  assumes accept_iff: "fst (accept s e n t) \<longleftrightarrow> (\<forall>l. last_of s e t = Some l \<longrightarrow> l < n)"
    and accept_same: "fst (accept s e n t) \<Longrightarrow> last_of s e (snd (accept s e n t)) = Some n"
    and accept_other: "(s', e') \<noteq> (s, e) \<Longrightarrow> last_of s' e' (snd (accept s e n t)) = last_of s' e' t"
    and accept_refused: "\<not> fst (accept s e n t) \<Longrightarrow> snd (accept s e n t) = t"
    and retain_last: "last_of s e (retain c t) = (if e = c then last_of s e t else None)"
begin

lemma last_after:
  "last_of s' e' (snd (accept s e n t)) =
     (if fst (accept s e n t) \<and> s' = s \<and> e' = e then Some n else last_of s' e' t)"
  using accept_same accept_other accept_refused by (cases "(s', e') = (s, e)") auto

lemma accepted_above:
  "last_of s e t = Some l \<Longrightarrow> (s, e, n) \<in> set (accepted_offers accept xs t) \<Longrightarrow> l < n"
proof (induction xs arbitrary: t l)
  case Nil
  then show ?case by simp
next
  case (Cons x xs)
  obtain s' e' n' where x: "x = (s', e', n')" by (cases x)
  obtain ok t' where a: "accept s' e' n' t = (ok, t')" by (metis surj_pair)
  consider (here) "ok" "(s, e, n) = (s', e', n')" | (later) "(s, e, n) \<in> set (accepted_offers accept xs t')"
    using Cons.prems(2) x a by (auto split: if_splits)
  then show ?case
  proof cases
    case here
    then show ?thesis using accept_iff [of s' e' n' t] a Cons.prems(1) by simp
  next
    case later
    show ?thesis
    proof (cases "ok \<and> s = s' \<and> e = e'")
      case True
      then have "last_of s e t' = Some n'" using last_after [of s e s' e' n' t] a by simp
      with Cons.IH later have "n' < n" by blast
      moreover have "l < n'" using accept_iff [of s' e' n' t] a True Cons.prems(1) by simp
      ultimately show ?thesis by simp
    next
      case False
      then have "last_of s e t' = Some l" using last_after [of s e s' e' n' t] a Cons.prems(1) by auto
      with Cons.IH later show ?thesis by blast
    qed
  qed
qed

text \<open>Per sender and epoch the accepted sequences strictly increase.\<close>

lemma accepted_increasing:
  "sorted_wrt (\<lambda>x y. fst x = fst y \<and> fst (snd x) = fst (snd y) \<longrightarrow> snd (snd x) < snd (snd y))
     (accepted_offers accept xs t)"
proof (induction xs arbitrary: t)
  case Nil
  then show ?case by simp
next
  case (Cons x xs)
  obtain s e n where x: "x = (s, e, n)" by (cases x)
  obtain ok t' where a: "accept s e n t = (ok, t')" by (metis surj_pair)
  have "ok \<Longrightarrow> last_of s e t' = Some n" using accept_same [of s e n t] a by simp
  then have "ok \<Longrightarrow> (s, e, m) \<in> set (accepted_offers accept xs t') \<Longrightarrow> n < m" for m
    using accepted_above by blast
  with Cons.IH [of t'] show ?case using x a by auto
qed

lemma accepted_distinct: "distinct (accepted_offers accept xs t)"
proof -
  have "distinct ys"
    if "sorted_wrt (\<lambda>x y. fst x = fst y \<and> fst (snd x) = fst (snd y) \<longrightarrow> snd (snd x) < snd (snd y)) ys"
    for ys :: "(u64 \<times> u64 \<times> u64) list"
    using that by (induction ys) auto
  from this [OF accepted_increasing] show ?thesis .
qed

end

interpretation tracker: replay_guard replay_accept replay_last_accepted replay_retain_epoch
  by unfold_locales
    (auto simp: replay_accept_def replay_last_accepted_def replay_retain_epoch_def
      split: option.splits if_splits)

text \<open>
  Whatever offers a tracker sees, in whatever order, the messages it accepts are pairwise
  distinct, and per sender and epoch their sequences strictly increase: no message is accepted
  twice and none out of order.
\<close>

theorem replay_no_duplicates:
  "distinct (accepted_offers replay_accept xs t) \<and>
   sorted_wrt (<) [n. (s', e', n) \<leftarrow> accepted_offers replay_accept xs t, s' = s \<and> e' = e]"
proof
  show "distinct (accepted_offers replay_accept xs t)" by (rule tracker.accepted_distinct)
  have "sorted_wrt (<) [n. (s', e', n) \<leftarrow> ys, s' = s \<and> e' = e]"
    if "sorted_wrt (\<lambda>x y. fst x = fst y \<and> fst (snd x) = fst (snd y) \<longrightarrow> snd (snd x) < snd (snd y)) ys"
    for ys :: "(u64 \<times> u64 \<times> u64) list"
    using that by (induction ys) (auto simp: sorted_wrt_append)
  from this [OF tracker.accepted_increasing]
  show "sorted_wrt (<) [n. (s', e', n) \<leftarrow> accepted_offers replay_accept xs t, s' = s \<and> e' = e]" .
qed

end
