(* ===== verification/RateLimit.thy ===== *)
theory RateLimit
  imports Prelude Complex_Main
begin

text \<open>
  The token bucket (\<open>chat/ratelimit.rs\<close>). Its fields are \<open>f64\<close>: the values here are the
  rationals that IEEE 754 binary64 numbers denote, and \<open>round64\<close> rounds the exact result of an
  operation to the nearest of them, ties to even. The magnitudes of this component (between
  one nanosecond and \<open>2 ^ 96\<close>) are inside the normal range, so the exponent is unbounded here.
\<close>

section \<open>Binary64 rounding\<close>

fun bits :: "nat \<Rightarrow> nat" where
  "bits n = (if n = 0 then 0 else Suc (bits (n div 2)))"

declare bits.simps [simp del]

lemma bits_bounds: "0 < n \<Longrightarrow> 2 ^ (bits n - 1) \<le> n \<and> n < 2 ^ bits n \<and> 0 < bits n"
proof (induction n rule: bits.induct)
  case (1 n)
  show ?case
  proof (cases "n div 2 = 0")
    case True
    then have "n = 1" using 1(2) by simp
    then show ?thesis by (simp add: bits.simps)
  next
    case False
    with 1 have IH: "2 ^ (bits (n div 2) - 1) \<le> n div 2" "n div 2 < 2 ^ bits (n div 2)"
      "0 < bits (n div 2)" by auto
    have b: "bits n = Suc (bits (n div 2))" using 1(2) by (simp add: bits.simps [of n])
    have "(2::nat) ^ bits (n div 2) = 2 * 2 ^ (bits (n div 2) - 1)"
      using IH(3) by (metis power_minus_mult mult.commute)
    moreover have "2 * (n div 2) \<le> n" "n < 2 * (n div 2) + 2" by simp_all
    ultimately show ?thesis using IH unfolding b by (simp del: mult_Suc) linarith
  qed
qed

text \<open>The exponent of a positive number: \<open>2 powi flog2 x \<le> x < 2 powi (flog2 x + 1)\<close>.\<close>

definition flog2 :: "rat \<Rightarrow> int" where
  "flog2 x =
     (if 1 \<le> x then int (bits (nat \<lfloor>x\<rfloor>)) - 1 else - int (bits (nat \<lceil>1 / x\<rceil> - 1)))"

definition round_half_even :: "rat \<Rightarrow> int" where
  "round_half_even x =
     (let f = \<lfloor>x\<rfloor>; d = x - of_int f
      in if d < 1 / 2 then f else if d > 1 / 2 then f + 1 else if even f then f else f + 1)"

definition round64 :: "rat \<Rightarrow> rat" where
  "round64 x =
     (if x \<le> 0 then 0
      else let u = 2 powi (flog2 x - 52) in of_int (round_half_even (x / u)) * u)"

lemma flog2_bounds:
  assumes "0 < x"
  shows "2 powi flog2 x \<le> x \<and> x < 2 powi (flog2 x + 1)"
proof (cases "1 \<le> x")
  case True
  define n where "n = nat \<lfloor>x\<rfloor>"
  have n: "0 < n" "of_nat n \<le> x" "x < of_nat n + 1"
    using True by (auto simp: n_def) linarith+
  from bits_bounds [OF n(1)] have b: "2 ^ (bits n - 1) \<le> n" "n + 1 \<le> 2 ^ bits n" "0 < bits n" by auto
  from b(1) have "(of_nat (2 ^ (bits n - 1)) :: rat) \<le> of_nat n" by (rule of_nat_mono)
  then have "2 ^ (bits n - 1) \<le> (of_nat n :: rat)" by (simp only: of_nat_power of_nat_numeral)
  moreover from b(2) have "(of_nat (n + 1) :: rat) \<le> of_nat (2 ^ bits n)" by (rule of_nat_mono)
  then have "of_nat n + 1 \<le> (2 ^ bits n :: rat)"
    by (simp only: of_nat_power of_nat_numeral of_nat_add of_nat_1)
  moreover have "flog2 x = int (bits n - 1)" "flog2 x + 1 = int (bits n)"
    using True b(3) by (simp_all add: flog2_def n_def)
  then have "(2 :: rat) powi flog2 x = 2 ^ (bits n - 1)" "(2 :: rat) powi (flog2 x + 1) = 2 ^ bits n"
    by (simp_all only: power_int_of_nat)
  ultimately show ?thesis using n by linarith
next
  case False
  define n where "n = nat \<lceil>1 / x\<rceil> - 1"
  have gt: "1 < 1 / x" using False assms by (simp add: field_simps)
  then have "2 \<le> \<lceil>1 / x\<rceil>" by linarith
  then have "int n = \<lceil>1 / x\<rceil> - 1" unfolding n_def by linarith
  then have n: "0 < n" "of_nat n < 1 / x" "1 / x \<le> of_nat n + 1"
    using \<open>2 \<le> \<lceil>1 / x\<rceil>\<close> by linarith+
  from bits_bounds [OF n(1)] have b: "2 ^ (bits n - 1) \<le> n" "n + 1 \<le> 2 ^ bits n" "0 < bits n" by auto
  from b(1) have "(of_nat (2 ^ (bits n - 1)) :: rat) \<le> of_nat n" by (rule of_nat_mono)
  then have l: "2 ^ (bits n - 1) \<le> (of_nat n :: rat)" by (simp only: of_nat_power of_nat_numeral)
  from b(2) have "(of_nat (n + 1) :: rat) \<le> of_nat (2 ^ bits n)" by (rule of_nat_mono)
  then have u: "of_nat n + 1 \<le> (2 ^ bits n :: rat)"
    by (simp only: of_nat_power of_nat_numeral of_nat_add of_nat_1)
  have f: "flog2 x = - int (bits n)" "flog2 x + 1 = - int (bits n - 1)"
    using False b(3) by (simp_all add: flog2_def n_def)
  have "1 / x \<le> 2 ^ bits n" "2 ^ (bits n - 1) < 1 / x" using l u n by linarith+
  then have "inverse (2 ^ bits n) \<le> x" "x < inverse (2 ^ (bits n - 1))"
    using assms by (auto simp: field_simps)
  moreover have "(2 :: rat) powi flog2 x = inverse (2 ^ bits n)"
    unfolding f(1) power_int_minus by (simp only: power_int_of_nat)
  moreover have "(2 :: rat) powi (flog2 x + 1) = inverse (2 ^ (bits n - 1))"
    unfolding f(2) power_int_minus by (simp only: power_int_of_nat)
  ultimately show ?thesis by simp
qed

lemma flog2_mono:
  assumes "0 < x" "x \<le> y"
  shows "flog2 x \<le> flog2 y"
proof (rule ccontr)
  assume "\<not> flog2 x \<le> flog2 y"
  then have "(2 :: rat) powi (flog2 y + 1) \<le> 2 powi flog2 x" by (intro power_int_increasing) auto
  with flog2_bounds [of x] flog2_bounds [of y] assms show False by linarith
qed

lemma round_half_even_of_int [simp]: "round_half_even (of_int k) = k"
  by (simp add: round_half_even_def)

lemma round_half_even_mono: "x \<le> y \<Longrightarrow> round_half_even x \<le> round_half_even y"
proof -
  assume le: "x \<le> y"
  have b: "\<lfloor>z\<rfloor> \<le> round_half_even z \<and> round_half_even z \<le> \<lfloor>z\<rfloor> + 1" for z
    by (simp add: round_half_even_def Let_def)
  show ?thesis
  proof (cases "\<lfloor>x\<rfloor> = \<lfloor>y\<rfloor>")
    case True
    with le show ?thesis by (auto simp: round_half_even_def Let_def)
  next
    case False
    with le have "\<lfloor>x\<rfloor> + 1 \<le> \<lfloor>y\<rfloor>" using floor_mono [OF le] by linarith
    with b [of x] b [of y] show ?thesis by linarith
  qed
qed

lemma unit_pos: "(0 :: rat) < 2 powi k"
  by simp

lemma round64_nonneg: "0 \<le> round64 x"
proof (cases "0 < x")
  case True
  then have "round_half_even 0 \<le> round_half_even (x / 2 powi (flog2 x - 52))"
    by (intro round_half_even_mono) simp
  then have "0 \<le> round_half_even (x / 2 powi (flog2 x - 52))"
    using round_half_even_of_int [of 0] by simp
  with True show ?thesis by (simp add: round64_def Let_def)
qed (simp add: round64_def)

lemma powi_split: "(2 :: rat) powi (a + b) = 2 powi a * 2 powi b"
  by (simp add: power_int_add)

text \<open>Rounding stays inside the binade of its argument, ends included.\<close>

lemma round64_binade:
  assumes "0 < x"
  shows "2 powi flog2 x \<le> round64 x \<and> round64 x \<le> 2 powi (flog2 x + 1)"
proof -
  define u :: rat where "u = 2 powi (flog2 x - 52)"
  have u: "0 < u" by (simp add: u_def)
  have e: "2 powi flog2 x = of_int (2 ^ 52) * u" "2 powi (flog2 x + 1) = of_int (2 ^ 53) * u"
    using powi_split [of 52 "flog2 x - 52"] powi_split [of 53 "flog2 x - 52"]
    by (simp_all add: u_def add.commute)
  from flog2_bounds [OF assms] u have "of_int (2 ^ 52) \<le> x / u" "x / u \<le> of_int (2 ^ 53)"
    unfolding e by (simp_all add: pos_le_divide_eq pos_divide_le_eq)
  then have "2 ^ 52 \<le> round_half_even (x / u)" "round_half_even (x / u) \<le> 2 ^ 53"
    using round_half_even_mono round_half_even_of_int by metis+
  then have "of_int (2 ^ 52) \<le> (of_int (round_half_even (x / u)) :: rat)"
    "(of_int (round_half_even (x / u)) :: rat) \<le> of_int (2 ^ 53)"
    by (simp_all only: of_int_le_iff)
  with u assms show ?thesis
    unfolding e by (simp add: round64_def u_def [symmetric] Let_def)
qed

lemma round64_mono: "x \<le> y \<Longrightarrow> round64 x \<le> round64 y"
proof (cases "0 < x")
  case False
  then have "round64 x = 0" by (simp add: round64_def)
  then show ?thesis using round64_nonneg [of y] by simp
next
  case True
  assume le: "x \<le> y"
  then have y: "0 < y" using True by simp
  show ?thesis
  proof (cases "flog2 x = flog2 y")
    case True
    have "x / 2 powi (flog2 y - 52) \<le> y / 2 powi (flog2 y - 52)"
      using le by (simp add: divide_right_mono)
    from round_half_even_mono [OF this] show ?thesis
      using \<open>0 < x\<close> y True by (simp add: round64_def Let_def)
  next
    case False
    then have "flog2 x + 1 \<le> flog2 y" using flog2_mono [OF \<open>0 < x\<close> le] by simp
    then have "(2 :: rat) powi (flog2 x + 1) \<le> 2 powi flog2 y" by (intro power_int_increasing) auto
    with round64_binade [OF \<open>0 < x\<close>] round64_binade [OF y] show ?thesis by linarith
  qed
qed

text \<open>Integers of at most 53 bits are exact.\<close>

lemma round64_of_nat:
  assumes "n \<le> 2 ^ 53"
  shows "round64 (of_nat n) = of_nat n"
proof (cases "n = 0")
  case True
  then show ?thesis by (simp add: round64_def)
next
  case False
  define u :: rat where "u = 2 powi (flog2 (of_nat n) - 52)"
  have u: "0 < u" by (simp add: u_def)
  have "\<exists>k :: int. of_nat n = of_int k * u"
  proof (cases "flog2 (of_nat n) \<le> 52")
    case True
    define j where "j = nat (52 - flog2 (of_nat n))"
    have "flog2 (of_nat n) - 52 = - int j" using True by (simp add: j_def)
    then have "u * 2 ^ j = 1" by (simp add: u_def power_int_minus power_int_of_nat)
    then have "of_nat n = of_int (int n * 2 ^ j) * u"
      by (simp add: mult.assoc) (metis mult.commute mult.right_neutral)
    then show ?thesis by blast
  next
    case False
    then have "(2 :: rat) powi 53 \<le> 2 powi flog2 (of_nat n)" by (intro power_int_increasing) auto
    also have "\<dots> \<le> of_nat n" using flog2_bounds \<open>n \<noteq> 0\<close> by simp
    finally have "(of_nat (2 ^ 53) :: rat) \<le> of_nat n" by simp
    then have n: "n = 2 ^ 53" using assms of_nat_le_iff antisym by blast
    have "flog2 (of_nat n) = 53"
    proof -
      have "(2 :: rat) powi flog2 (of_nat n) \<le> 2 powi 53"
        using flog2_bounds [of "of_nat n"] \<open>n \<noteq> 0\<close> n by simp
      moreover have "53 < flog2 (of_nat n) \<Longrightarrow> (2 :: rat) powi 53 < 2 powi flog2 (of_nat n)"
        by (rule power_int_strict_increasing) auto
      ultimately show ?thesis using False by linarith
    qed
    then have "u = 2" by (simp add: u_def)
    with n have "of_nat n = of_int (2 ^ 52) * u" by simp
    then show ?thesis by blast
  qed
  then obtain k :: int where "of_nat n = of_int k * u" by blast
  then have k: "of_int (round_half_even (of_nat n / u)) * u = of_nat n" using u by simp
  have "round64 (of_nat n) = of_int (round_half_even (of_nat n / u)) * u"
    using False by (simp add: round64_def u_def Let_def)
  with k show ?thesis by simp
qed

lemma round64_le_nat: "x \<le> of_nat n \<Longrightarrow> n \<le> 2 ^ 53 \<Longrightarrow> round64 x \<le> of_nat n"
  using round64_mono [of x "of_nat n"] by (simp add: round64_of_nat)

lemma round64_ge_nat: "of_nat n \<le> x \<Longrightarrow> n \<le> 2 ^ 53 \<Longrightarrow> of_nat n \<le> round64 x"
  using round64_mono [of "of_nat n" x] by (simp add: round64_of_nat)

section \<open>The limiter\<close>

record rate_limiter =
  rl_capacity :: rat
  rl_tokens :: rat
  rl_refill_per_second :: rat
  rl_last_refill :: duration
  rl_consecutive_violations :: u32

definition rate_limiter_new :: "u32 \<Rightarrow> u32 \<Rightarrow> rate_limiter" where
  "rate_limiter_new burst sustained =
     \<lparr>rl_capacity = of_nat (unat burst), rl_tokens = of_nat (unat burst),
      rl_refill_per_second = of_nat (unat sustained), rl_last_refill = 0,
      rl_consecutive_violations = 0\<rparr>"

text \<open>\<open>Duration::as_secs_f64\<close>: whole seconds plus the nanoseconds divided by \<open>1e9\<close>.\<close>

definition as_secs_f64 :: "duration \<Rightarrow> rat" where
  "as_secs_f64 d =
     round64 (round64 (of_nat (d div 1000000000)) + round64 (of_nat (d mod 1000000000) / 1000000000))"

definition limiter_refill :: "duration \<Rightarrow> rate_limiter \<Rightarrow> rate_limiter" where
  "limiter_refill now l =
     (let elapsed = now - rl_last_refill l
      in if elapsed = 0 then l
         else
           let added = round64 (as_secs_f64 elapsed * rl_refill_per_second l)
           in l\<lparr>rl_last_refill := now,
                rl_tokens := min (round64 (rl_tokens l + added)) (rl_capacity l)\<rparr>)"

definition limiter_allow :: "duration \<Rightarrow> rate_limiter \<Rightarrow> bool \<times> rate_limiter" where
  "limiter_allow now l =
     (let l1 = limiter_refill now l
      in if rl_tokens l1 \<ge> 1
         then (True, l1\<lparr>rl_tokens := round64 (rl_tokens l1 - 1), rl_consecutive_violations := 0\<rparr>)
         else (False, l1\<lparr>rl_consecutive_violations := rl_consecutive_violations l1 + 1\<rparr>))"

definition limiter_is_abusive :: "u32 \<Rightarrow> rate_limiter \<Rightarrow> bool" where
  "limiter_is_abusive threshold l \<longleftrightarrow> rl_consecutive_violations l \<ge> threshold"

text \<open>Messages offered at the given times, in order.\<close>

fun limiter_run :: "duration list \<Rightarrow> rate_limiter \<Rightarrow> bool list \<times> rate_limiter" where
  "limiter_run [] l = ([], l)"
| "limiter_run (t # ts) l =
     (case limiter_allow t l of (ok, l1) \<Rightarrow>
        (case limiter_run ts l1 of (oks, l2) \<Rightarrow> (ok # oks, l2)))"

definition limiter_ok :: "nat \<Rightarrow> rate_limiter \<Rightarrow> bool" where
  "limiter_ok burst l \<longleftrightarrow>
     rl_capacity l = of_nat burst \<and> 0 \<le> rl_tokens l \<and> rl_tokens l \<le> of_nat burst \<and> burst \<le> 2 ^ 53"

lemma limiter_ok_new: "limiter_ok (unat burst) (rate_limiter_new burst sustained)"
proof -
  have "unat burst < 2 ^ 32" using unsigned_less [of burst] by simp
  then have "unat burst \<le> 2 ^ 53" by simp
  then show ?thesis by (simp add: limiter_ok_def rate_limiter_new_def del: of_nat_unat)
qed

lemma limiter_ok_refill: "limiter_ok n l \<Longrightarrow> limiter_ok n (limiter_refill now l)"
  by (auto simp: limiter_ok_def limiter_refill_def Let_def round64_nonneg)

lemma limiter_allow_ok:
  assumes "limiter_ok n l"
  shows "limiter_ok n (snd (limiter_allow now l))"
proof -
  have "round64 (rl_tokens (limiter_refill now l) - 1) \<le> of_nat n"
    using limiter_ok_refill [OF assms, of now] by (intro round64_le_nat) (auto simp: limiter_ok_def)
  with limiter_ok_refill [OF assms, of now] show ?thesis
    by (auto simp: limiter_allow_def limiter_ok_def Let_def round64_nonneg)
qed

lemma limiter_refill_time: "rl_last_refill (limiter_refill now l) = max now (rl_last_refill l)"
  by (auto simp: limiter_refill_def Let_def)

lemma limiter_allow_time: "rl_last_refill (snd (limiter_allow now l)) = max now (rl_last_refill l)"
  by (simp add: limiter_allow_def Let_def limiter_refill_time)

lemma limiter_refill_same: "now \<le> rl_last_refill l \<Longrightarrow> limiter_refill now l = l"
  by (simp add: limiter_refill_def)

text \<open>With no time passing, the tokens bound what is still allowed.\<close>

lemma run_instant_bound:
  "rl_tokens l \<le> of_nat k \<Longrightarrow> k \<le> 2 ^ 53 \<Longrightarrow> \<forall>t \<in> set ts. t \<le> rl_last_refill l \<Longrightarrow>
   length (filter (\<lambda>ok. ok) (fst (limiter_run ts l))) \<le> k"
proof (induction ts arbitrary: l k)
  case Nil
  then show ?case by simp
next
  case (Cons t ts)
  have same: "limiter_refill t l = l" using Cons.prems(3) by (simp add: limiter_refill_same)
  have time: "rl_last_refill (snd (limiter_allow t l)) = rl_last_refill l"
    using Cons.prems(3) by (simp add: limiter_allow_time)
  show ?case
  proof (cases "rl_tokens l \<ge> 1")
    case True
    with Cons.prems(1) have "(1 :: rat) \<le> of_nat k" by linarith
    then obtain j where k: "k = Suc j" by (cases k) auto
    have "rl_tokens (snd (limiter_allow t l)) \<le> of_nat j"
      using True Cons.prems(1,2) k
      by (auto simp: limiter_allow_def same Let_def intro!: round64_le_nat)
    from Cons.IH [OF this] Cons.prems(2,3) k time
    have "length (filter (\<lambda>ok. ok) (fst (limiter_run ts (snd (limiter_allow t l))))) \<le> j" by simp
    with k True show ?thesis by (simp add: limiter_allow_def same Let_def case_prod_beta)
  next
    case False
    with Cons.prems have "rl_tokens (snd (limiter_allow t l)) \<le> of_nat k"
      by (simp add: limiter_allow_def same Let_def)
    from Cons.IH [OF this] Cons.prems(2,3) time False show ?thesis
      by (simp add: limiter_allow_def same Let_def case_prod_beta)
  qed
qed

text \<open>With no time passing and enough tokens, everything is allowed.\<close>

lemma run_instant_all:
  "of_nat (length ts) \<le> rl_tokens l \<Longrightarrow> length ts \<le> 2 ^ 53 \<Longrightarrow> \<forall>t \<in> set ts. t \<le> rl_last_refill l \<Longrightarrow>
   fst (limiter_run ts l) = replicate (length ts) True"
proof (induction ts arbitrary: l)
  case Nil
  then show ?case by simp
next
  case (Cons t ts)
  have same: "limiter_refill t l = l" using Cons.prems(3) by (simp add: limiter_refill_same)
  have time: "rl_last_refill (snd (limiter_allow t l)) = rl_last_refill l"
    using Cons.prems(3) by (simp add: limiter_allow_time)
  have one: "1 \<le> rl_tokens l" using Cons.prems(1) by simp
  have "of_nat (length ts) \<le> rl_tokens (snd (limiter_allow t l))"
    using one Cons.prems(1,2)
    by (auto simp: limiter_allow_def same Let_def intro!: round64_ge_nat)
  from Cons.IH [OF this] Cons.prems(2,3) time one show ?case
    by (simp add: limiter_allow_def same Let_def case_prod_beta)
qed

text \<open>After a pause of as many seconds as the bucket holds the bucket is full again.\<close>

lemma refill_full:
  assumes ok: "limiter_ok n l" and rate: "1 \<le> rl_refill_per_second l"
    and pause: "rl_last_refill l + secs n \<le> now" and "0 < n"
  shows "rl_tokens (limiter_refill now l) = of_nat n"
proof -
  let ?e = "now - rl_last_refill l"
  have n53: "n \<le> 2 ^ 53" using ok by (simp add: limiter_ok_def)
  have e: "secs n \<le> ?e" "?e \<noteq> 0" using pause \<open>0 < n\<close> by (auto simp: secs_def)
  then have "n \<le> ?e div 1000000000" by (simp add: secs_def less_eq_div_iff_mult_less_eq)
  then have "of_nat n \<le> round64 (of_nat (?e div 1000000000))" using n53 by (intro round64_ge_nat) auto
  then have "of_nat n \<le> as_secs_f64 ?e"
    unfolding as_secs_f64_def using n53 round64_nonneg [of "of_nat (?e mod 1000000000) / 1000000000"]
    by (intro round64_ge_nat) auto
  moreover from this have "as_secs_f64 ?e \<le> as_secs_f64 ?e * rl_refill_per_second l"
    using rate by (simp add: mult_le_cancel_left1)
  ultimately have "of_nat n \<le> round64 (as_secs_f64 ?e * rl_refill_per_second l)"
    using n53 by (intro round64_ge_nat) linarith+
  then have "of_nat n \<le> round64 (rl_tokens l + round64 (as_secs_f64 ?e * rl_refill_per_second l))"
    using n53 ok by (intro round64_ge_nat) (auto simp: limiter_ok_def)
  with e ok show ?thesis by (simp add: limiter_refill_def limiter_ok_def Let_def min_def)
qed

lemma instant_bound:
  assumes "limiter_ok burst l"
  shows "length (filter (\<lambda>ok. ok) (fst (limiter_run (replicate k now) l))) \<le> burst"
proof -
  have "length (filter (\<lambda>ok. ok) (fst (limiter_run (replicate k now) (limiter_refill now l)))) \<le> burst"
    using limiter_ok_refill [OF assms, of now] by (intro run_instant_bound) (auto simp: limiter_ok_def limiter_refill_time)
  then show ?thesis by (cases k) (simp_all add: limiter_allow_def limiter_refill_same limiter_refill_time Let_def)
qed

lemma instant_after_pause:
  assumes "limiter_ok burst l" and "0 < burst" and "1 \<le> rl_refill_per_second l"
    and "rl_last_refill l + secs burst \<le> now" and "k \<le> burst"
  shows "fst (limiter_run (replicate k now) l) = replicate k True"
proof -
  have "fst (limiter_run (replicate k now) (limiter_refill now l)) = replicate (length (replicate k now)) True"
    using limiter_ok_refill [OF assms(1), of now] refill_full [OF assms(1,3,4,2)] assms(5)
    by (intro run_instant_all) (auto simp: limiter_ok_def limiter_refill_time)
  then show ?thesis by (cases k) (simp_all add: limiter_allow_def limiter_refill_same limiter_refill_time Let_def)
qed

text \<open>
  The token bucket allows a burst and no more, whatever happened before: after any earlier
  traffic, at most \<open>burst\<close> of the messages offered at one instant are allowed; and once the
  sender has been quiet for \<open>burst\<close> seconds (at one or more tokens per second) a full burst at
  one instant is allowed again.
\<close>

theorem rate_limit_burst:
  assumes "limiter_ok burst l" and "0 < burst" and "1 \<le> rl_refill_per_second l"
  shows "length (filter (\<lambda>ok. ok) (fst (limiter_run (replicate k now) l))) \<le> burst \<and>
    (rl_last_refill l + secs burst \<le> now \<longrightarrow> k \<le> burst \<longrightarrow>
      fst (limiter_run (replicate k now) l) = replicate k True)"
  using instant_bound [OF assms(1)] instant_after_pause [OF assms] by blast

lemma rate_limit_burst_witness:
  "length (filter (\<lambda>ok. ok) (fst (limiter_run (replicate 9 7) (rate_limiter_new 5 1)))) \<le> 5 \<and>
   fst (limiter_run (replicate 5 (secs 5)) (rate_limiter_new 5 1)) = replicate 5 True"
proof -
  have ok: "limiter_ok 5 (rate_limiter_new 5 1)" using limiter_ok_new [of 5 1] by simp
  have "1 \<le> rl_refill_per_second (rate_limiter_new 5 1)" by (simp add: rate_limiter_new_def)
  with rate_limit_burst [OF ok] show ?thesis by (simp add: rate_limiter_new_def)
qed

end
