(* ===== verification/Actor.thy ===== *)
theory Actor
  imports Crypto Members Replay RateLimit
begin

text \<open>
  The room actor (\<open>room/actor.rs\<close>, with the events of \<open>event.rs\<close>, the actions of
  \<open>room/action.rs\<close> and the chat errors of \<open>chat/mod.rs\<close>): the sole writer of the room state.
  \<open>room_actor\<close> has the source's fields, plus \<open>ra_entropy\<close>, the outcomes still to come from the
  operating system's random generator. Every handler is one definition that returns the result
  and the state; an early return keeps what was mutated before it. \<open>room_env\<close> carries what the
  code calls outside the repository: the cryptographic primitives and the iteration order of
  the connection hash map.
\<close>

section \<open>Events, actions and errors\<close>

datatype chat_error =
    ChE_NoEpochKey
  | ChE_OldEpoch u64 u64
  | ChE_UnknownSender u64
  | ChE_ReplayRejected u64 u64
  | ChE_InvalidSignature
  | ChE_InvalidCiphertext
  | ChE_InvalidPlaintext rstring
  | ChE_UnknownColor u8

datatype member_ref = MR_Id u64 | MR_Nickname rstring

datatype host_command =
    HC_Kick member_ref
  | HC_NewId
  | HC_ReqOn
  | HC_ReqOff
  | HC_Requests
  | HC_Accept u64
  | HC_Reject u64

datatype member_command = MCmd_Leave | MCmd_Color color_choice | MCmd_List | MCmd_Whois rstring

datatype room_event =
    EV_ClientConnected u64
  | EV_PasswordVerified u64
  | EV_JoinRequested u64 join_application
  | EV_HostAccepted u64
  | EV_HostRejected u64
  | EV_ChatReceived u64 u8 envelope
  | EV_MemberLeft u64
  | EV_ConnectionLost u64
  | EV_HostCommand host_command
  | EV_MemberCommand u64 member_command
  | EV_EpochAck u64 u64
  | EV_CloseRequested
  | EV_TimeoutExpired u64 timeout_kind
  | EV_EpochMaintenance
  | EV_TorStopped

datatype join_policy = JP_Open | JP_Locked

definition allows_join_requests :: "join_policy \<Rightarrow> bool" where
  "allows_join_requests p \<longleftrightarrow> p = JP_Open"

record request_info =
  ri_request_id :: u64
  ri_connection :: u64
  ri_nickname :: rstring
  ri_introduction :: "rstring option"

record timeout_request_info =
  ti_request_id :: u64
  ti_member_id :: u64
  ti_nickname :: rstring
  ti_seconds :: u64

datatype host_notice =
    HN_JoinRequestPending u64 u64 rstring "rstring option"
  | HN_JoinRequestWithdrawn u64
  | HN_TimeoutRequestPending u64 u64 rstring u64
  | HN_TimeoutRequestAccepted u64 u64
  | HN_TimeoutRequestRejected u64
  | HN_TimeoutRebroadcast u64
  | HN_MemberJoined u64 rstring
  | HN_MemberLeft u64 rstring
  | HN_MemberKicked u64 rstring
  | HN_JoinPolicyChanged join_policy
  | HN_InvitationRotated bytes
  | HN_RequestsSnapshot "request_info list" "timeout_request_info list"
  | HN_ListSnapshot "member_info list"
  | HN_WhoisResult member_info
  | HN_RoomClosed
  | HN_Error rstring

datatype room_action =
    RA_SendTo u64 message
  | RA_CloseConnection u64
  | RA_NotifyHost host_notice

datatype room_error =
    RE_Queue queue_error
  | RE_Member member_error
  | RE_UnknownRequest u64
  | RE_UnknownMember member_ref
  | RE_UnknownConnection u64
  | RE_HostCannotLeave
  | RE_CannotKickHost
  | RE_EmptyMemberRef
  | RE_PolicyLocked
  | RE_NotAMember u64
  | RE_RoomClosed
  | RE_EpochTransitionInProgress
  | RE_OldEpoch u64 u64
  | RE_ReplayRejected u64 u64
  | RE_Chat chat_error
  | RE_UnknownColor u8
  | RE_UnsupportedEvent
  | RE_InvalidNickname validation_error
  | RE_Protocol protocol_error
  | RE_Crypto crypto_error

definition room_error_is_transient :: "room_error \<Rightarrow> bool" where
  "room_error_is_transient e \<longleftrightarrow> e = RE_EpochTransitionInProgress"

section \<open>State\<close>

record pending_epoch =
  pe_epoch :: u64
  pe_key :: bytes
  pe_awaiting :: "u64 list"
  pe_started_at :: duration

record pending_timeout_request =
  pt_request_id :: u64
  pt_connection :: u64
  pt_member_id :: u64
  pt_nickname :: rstring
  pt_seconds :: u64

record room_actor =
  ra_session_id :: bytes
  ra_token :: bytes
  ra_state :: room_state
  ra_policy :: join_policy
  ra_members :: member_table
  ra_connections :: connections
  ra_requests :: request_queue
  ra_timeout_requests :: "pending_timeout_request list"
  ra_room_timeout :: "u64 option"
  ra_host_connection :: u64
  ra_host_identity :: identity
  ra_timeouts :: timeouts
  ra_epoch :: u64
  ra_epoch_key :: "bytes option"
  ra_pending_epoch :: "pending_epoch option"
  ra_room_sequence :: u64
  ra_chat_replay :: replay_tracker
  ra_rate_limits :: "u64 \<rightharpoonup> rate_limiter"
  ra_pending_membership :: "room_action list"
  ra_now :: duration
  ra_entropy :: entropy

record room_env =
  en_crypto :: crypto
  en_order :: "u64 list \<Rightarrow> u64 list"

type_synonym room_result = "(room_error + room_action list) \<times> room_actor"

definition MSG_CHAT :: u8 where "MSG_CHAT = 0x40"
definition MSG_COLOR :: u8 where "MSG_COLOR = 0x41"
definition MSG_TIMEOUT_REQUEST :: u8 where "MSG_TIMEOUT_REQUEST = 0x42"
definition MSG_TIMEOUT_CHANGED :: u8 where "MSG_TIMEOUT_CHANGED = 0x43"
definition MSG_MEMBER_JOINED :: u8 where "MSG_MEMBER_JOINED = 0x20"
definition MSG_MEMBER_LEFT :: u8 where "MSG_MEMBER_LEFT = 0x21"
definition MSG_MEMBER_KICKED :: u8 where "MSG_MEMBER_KICKED = 0x22"
definition MSG_MEMBER_SNAPSHOT :: u8 where "MSG_MEMBER_SNAPSHOT = 0x24"
definition RATE_LIMIT_TERMINATION :: u32 where "RATE_LIMIT_TERMINATION = 10"
definition MAX_MESSAGE_TIMEOUT_SECONDS :: u64 where "MAX_MESSAGE_TIMEOUT_SECONDS = 3600"
definition HOST_CONNECTION :: u64 where "HOST_CONNECTION = 0"

lemmas msg_constants =
  MSG_CHAT_def MSG_COLOR_def MSG_TIMEOUT_REQUEST_def MSG_TIMEOUT_CHANGED_def
  MSG_MEMBER_JOINED_def MSG_MEMBER_LEFT_def MSG_MEMBER_KICKED_def MSG_MEMBER_SNAPSHOT_def

text \<open>A call of the random generator from the actor.\<close>

definition room_random :: "(entropy \<Rightarrow> (crypto_error + 'a) \<times> entropy) \<Rightarrow> room_actor \<Rightarrow>
    (room_error + 'a) \<times> room_actor" where
  "room_random gen a =
     (case gen (ra_entropy a) of (r, es) \<Rightarrow> (map_errE RE_Crypto r, a\<lparr>ra_entropy := es\<rparr>))"

section \<open>Signed membership broadcasts\<close>

definition sign_room_event :: "room_env \<Rightarrow> u8 \<Rightarrow> bytes \<Rightarrow> room_actor \<Rightarrow> bytes" where
  "sign_room_event E event_type body a =
     identity_sign (en_crypto E) (ra_host_identity a)
       (room_event_transcript 1 (ra_session_id a) (ra_room_sequence a) (ra_epoch a) event_type body)"

definition snapshot_member_from :: "member \<Rightarrow> snapshot_member" where
  "snapshot_member_from m =
     \<lparr>sm_member_id = m_member_id m, sm_nickname = m_nickname m,
      sm_color = color_as_index (m_color m), sm_is_host = m_is_host m,
      sm_ed25519_pubkey = m_ed25519_pubkey m\<rparr>"

definition queue_member_snapshot :: "room_env \<Rightarrow> u64 \<Rightarrow> room_actor \<Rightarrow> room_actor" where
  "queue_member_snapshot E connection a0 =
     (let a = a0\<lparr>ra_room_sequence := ra_room_sequence a0 + 1\<rparr>;
          ms = map snapshot_member_from (mt_members (ra_members a));
          sig = sign_room_event E MSG_MEMBER_SNAPSHOT (member_snapshot_body ms) a
      in a\<lparr>ra_pending_membership := ra_pending_membership a @
             [RA_SendTo connection (M_MemberSnapshot
                \<lparr>ms_sequence = ra_room_sequence a, ms_epoch = ra_epoch a, ms_members = ms,
                 ms_signature = sig\<rparr>)]\<rparr>)"

definition queue_member_joined :: "room_env \<Rightarrow> member \<Rightarrow> room_actor \<Rightarrow> room_actor" where
  "queue_member_joined E m a0 =
     (let a = a0\<lparr>ra_room_sequence := ra_room_sequence a0 + 1\<rparr>;
          body = member_joined_body (m_member_id m) (m_nickname m) (m_ed25519_pubkey m);
          sig = sign_room_event E MSG_MEMBER_JOINED body a;
          msg = M_MemberJoined
            \<lparr>mj_sequence = ra_room_sequence a, mj_epoch = ra_epoch a, mj_member_id = m_member_id m,
             mj_nickname = m_nickname m, mj_ed25519_pubkey = m_ed25519_pubkey m, mj_signature = sig\<rparr>;
          sends = map (\<lambda>other. RA_SendTo (m_connection other) msg)
            (filter (\<lambda>other. m_member_id other \<noteq> m_member_id m) (mt_members (ra_members a)))
      in queue_member_snapshot E (m_connection m)
           (a\<lparr>ra_pending_membership := ra_pending_membership a @ sends\<rparr>))"

definition queue_member_gone :: "room_env \<Rightarrow> u64 \<Rightarrow> u8 \<Rightarrow> room_actor \<Rightarrow> room_actor" where
  "queue_member_gone E member_id event_type a0 =
     (let a = a0\<lparr>ra_room_sequence := ra_room_sequence a0 + 1\<rparr>;
          gone = \<lparr>mg_sequence = ra_room_sequence a, mg_epoch = ra_epoch a, mg_member_id = member_id,
                  mg_signature = sign_room_event E event_type (member_gone_body member_id) a\<rparr>;
          msg = (if event_type = MSG_MEMBER_KICKED then M_MemberKicked gone else M_MemberLeft gone)
      in a\<lparr>ra_pending_membership := ra_pending_membership a @
             map (\<lambda>m. RA_SendTo (m_connection m) msg) (mt_members (ra_members a))\<rparr>)"

definition rejected_message :: "rstring option \<Rightarrow> message" where
  "rejected_message reason =
     M_JoinRejected
       (case reason of
          None \<Rightarrow> \<lparr>jx_reason = None\<rparr>
        | Some s \<Rightarrow>
            if str_len s \<le> 256 \<and> \<not> contains_control_char s \<and> s \<noteq> []
            then (case join_rejected_new (Some s) of Inl _ \<Rightarrow> \<lparr>jx_reason = None\<rparr> | Inr m \<Rightarrow> m)
            else \<lparr>jx_reason = None\<rparr>)"

section \<open>Epoch transitions\<close>

text \<open>The loop that wraps the new key for every member and collects the messages.\<close>

fun wrap_members :: "crypto \<Rightarrow> identity \<Rightarrow> bytes \<Rightarrow> bytes \<Rightarrow> u64 \<Rightarrow> member list \<Rightarrow> entropy \<Rightarrow>
    (room_error + room_action list) \<times> entropy" where
  "wrap_members C h session key epoch [] es = (Inr [], es)"
| "wrap_members C h session key epoch (m # ms) es =
     (case try_wrap_key_for C h (m_x25519_pubkey m) session (m_member_id m) of
        Inl e \<Rightarrow> (Inl (RE_Crypto e), es)
      | Inr wk \<Rightarrow>
          (case wrap_epoch_key C wk key epoch session es of
             (Inl e, es1) \<Rightarrow> (Inl (RE_Crypto e), es1)
           | (Inr (nonce, c), es1) \<Rightarrow>
               (case epoch_wrap_new epoch nonce c of
                  Inl e \<Rightarrow> (Inl (RE_Protocol e), es1)
                | Inr w \<Rightarrow>
                    tryS (wrap_members C h session key epoch ms es1)
                      (\<lambda>acts es2. (Inr (RA_SendTo (m_connection m) (M_EpochWrap w) # acts), es2)))))"

definition begin_epoch_transition :: "room_env \<Rightarrow> room_actor \<Rightarrow> room_result" where
  "begin_epoch_transition E a0 =
     (let a = a0\<lparr>ra_epoch := ra_epoch a0 + 1,
                 ra_chat_replay := replay_retain_epoch (ra_epoch a0 + 1) (ra_chat_replay a0),
                 ra_room_sequence := ra_room_sequence a0 + 1\<rparr>
      in tryS (room_random epoch_key_generate a) (\<lambda>key a1.
           let ms = mt_members (ra_members a1)
           in (case wrap_members (en_crypto E) (ra_host_identity a1) (ra_session_id a1) key
                      (ra_epoch a1) ms (ra_entropy a1) of
                 (Inl e, es) \<Rightarrow> (Inl e, a1\<lparr>ra_entropy := es\<rparr>)
               | (Inr acts, es) \<Rightarrow>
                   (Inr acts,
                    a1\<lparr>ra_entropy := es, ra_state := RS_EpochTransition,
                       ra_pending_epoch := Some
                         \<lparr>pe_epoch = ra_epoch a1, pe_key = key,
                          pe_awaiting = map m_member_id ms, pe_started_at = ra_now a1\<rparr>\<rparr>))))"

definition room_create :: "(rstring \<Rightarrow> rstring) \<Rightarrow> crypto \<Rightarrow> limits \<Rightarrow> u64 \<Rightarrow> rstring \<Rightarrow> identity \<Rightarrow> identity \<Rightarrow>
    timeouts \<Rightarrow> entropy \<Rightarrow> (room_error + room_actor) \<times> entropy" where
  "room_create nfc C l host_connection host_nickname host_identity host_client_identity ts es =
     (case validate_nickname nfc host_nickname l of
        Inl e \<Rightarrow> (Inl (RE_InvalidNickname e), es)
      | Inr nickname \<Rightarrow>
          (let members = snd (table_add_host host_connection nickname
                 (identity_ed25519_pubkey C host_client_identity)
                 (identity_x25519_pubkey C host_client_identity) (table_new l))
           in case fill_random ROOM_SESSION_ID_LEN es of
                (Inl e, es1) \<Rightarrow> (Inl (RE_Crypto e), es1)
              | (Inr session, es1) \<Rightarrow>
                  (case fill_random 32 es1 of
                     (Inl e, es2) \<Rightarrow> (Inl (RE_Crypto e), es2)
                   | (Inr token, es2) \<Rightarrow>
                       (Inr \<lparr>ra_session_id = session, ra_token = token, ra_state = RS_Creating,
                             ra_policy = JP_Open, ra_members = members, ra_connections = conn_new,
                             ra_requests = queue_new l, ra_timeout_requests = [],
                             ra_room_timeout = None, ra_host_connection = host_connection,
                             ra_host_identity = host_identity, ra_timeouts = ts, ra_epoch = 0,
                             ra_epoch_key = None, ra_pending_epoch = None, ra_room_sequence = 0,
                             ra_chat_replay = replay_new, ra_rate_limits = Map.empty,
                             ra_pending_membership = [], ra_now = 0, ra_entropy = es2\<rparr>, es2))))"

definition room_start :: "room_env \<Rightarrow> room_actor \<Rightarrow> room_result" where
  "room_start E a =
     (if ra_state a \<noteq> RS_Creating then (Inl RE_RoomClosed, a)
      else
        let cs = snd (conn_promote (ra_host_connection a) 0
                   (conn_register (ra_host_connection a) (ra_connections a)))
        in tryS (begin_epoch_transition E (a\<lparr>ra_connections := cs\<rparr>))
             (\<lambda>acts a1. (Inr (RA_NotifyHost (HN_InvitationRotated (ra_token a)) # acts), a1)))"

definition remove_member :: "room_env \<Rightarrow> u64 \<Rightarrow> u8 \<Rightarrow> room_actor \<Rightarrow>
    (room_error + (member option \<times> room_action list)) \<times> room_actor" where
  "remove_member E member_id event_type a =
     (if member_id = 0 then (Inl RE_HostCannotLeave, a)
      else case table_remove member_id (ra_members a) of
             (None, _) \<Rightarrow> (Inr (None, []), a)
           | (Some m, t) \<Rightarrow>
               tryS (begin_epoch_transition E
                       (a\<lparr>ra_members := t,
                          ra_connections := conn_remove (m_connection m) (ra_connections a),
                          ra_rate_limits := (ra_rate_limits a)(member_id := None)\<rparr>))
                 (\<lambda>acts a1. (Inr (Some m, acts), queue_member_gone E member_id event_type a1)))"

definition close_room :: "room_env \<Rightarrow> room_actor \<Rightarrow> room_result" where
  "close_room E a =
     (if ra_state a = RS_Destroyed then (Inl RE_RoomClosed, a)
      else
        (Inr (concat (map (\<lambda>c. [RA_SendTo c M_Shutdown, RA_CloseConnection c])
                 (conn_ids (en_order E) (ra_connections a))) @ [RA_NotifyHost HN_RoomClosed]),
         a\<lparr>ra_state := RS_Destroyed\<rparr>))"

definition on_epoch_ack :: "u64 \<Rightarrow> u64 \<Rightarrow> room_actor \<Rightarrow> room_result" where
  "on_epoch_ack connection epoch a =
     (case ra_pending_epoch a of
        None \<Rightarrow> (Inr [], a)
      | Some p \<Rightarrow>
          if epoch \<noteq> pe_epoch p then (Inr [], a)
          else case conn_member_id connection (ra_connections a) of
                 None \<Rightarrow> (Inr [], a)
               | Some i \<Rightarrow>
                   let awaiting = filter (\<lambda>j. j \<noteq> i) (pe_awaiting p);
                       p' = p\<lparr>pe_awaiting := awaiting\<rparr>
                   in if length awaiting = length (pe_awaiting p) then (Inr [], a\<lparr>ra_pending_epoch := Some p'\<rparr>)
                      else if awaiting = [] then
                        (Inr (ra_pending_membership a @
                              (case ra_room_timeout a of
                                 None \<Rightarrow> []
                               | Some s \<Rightarrow> [RA_NotifyHost (HN_TimeoutRebroadcast s)])),
                         a\<lparr>ra_pending_epoch := None, ra_epoch_key := Some (pe_key p),
                           ra_state := (if ra_policy a = JP_Open then RS_Open else RS_Locked),
                           ra_pending_membership := []\<rparr>)
                      else (Inr [], a\<lparr>ra_pending_epoch := Some p'\<rparr>))"

text \<open>The loop over the members that withheld their acknowledgement.\<close>

fun evict_members :: "u64 list \<Rightarrow> room_actor \<Rightarrow> (u64 list \<times> room_action list) \<times> room_actor" where
  "evict_members [] a = (([], []), a)"
| "evict_members (i # ids) a =
     (case table_remove i (ra_members a) of
        (None, _) \<Rightarrow> evict_members ids a
      | (Some m, t) \<Rightarrow>
          (case evict_members ids
                  (a\<lparr>ra_members := t,
                     ra_connections := conn_remove (m_connection m) (ra_connections a),
                     ra_rate_limits := (ra_rate_limits a)(i := None)\<rparr>) of
             ((removed, acts), a1) \<Rightarrow>
               ((i # removed,
                 RA_CloseConnection (m_connection m) #
                 RA_NotifyHost (HN_MemberLeft i (m_nickname m)) # acts), a1)))"

definition on_epoch_timeout :: "room_env \<Rightarrow> room_actor \<Rightarrow> room_result" where
  "on_epoch_timeout E a =
     (case ra_pending_epoch a of
        None \<Rightarrow> (Inr [], a)
      | Some p \<Rightarrow>
          if ra_now a - pe_started_at p < timeouts_get (ra_timeouts a) TK_EpochAcknowledgement
          then (Inr [], a)
          else
            let timed_out = pe_awaiting p; a1 = a\<lparr>ra_pending_epoch := None\<rparr>
            in if 0 \<in> set timed_out then close_room E a1
               else case evict_members timed_out a1 of
                      ((removed, acts), a2) \<Rightarrow>
                        tryS (begin_epoch_transition E a2) (\<lambda>wraps a3.
                          (Inr (acts @ wraps),
                           foldl (\<lambda>a i. queue_member_gone E i MSG_MEMBER_LEFT a) a3 removed)))"

section \<open>Admission and administration\<close>

definition on_join_requested :: "u64 \<Rightarrow> join_application \<Rightarrow> room_actor \<Rightarrow> room_result" where
  "on_join_requested connection application a =
     (if \<not> allows_join_requests (ra_policy a) then (Inl RE_PolicyLocked, a)
      else case conn_get connection (ra_connections a) of
             None \<Rightarrow> (Inl (RE_UnknownConnection connection), a)
           | Some entry \<Rightarrow>
               if \<not> ce_password_verified entry \<or> ce_role entry \<noteq> CR_Admission then
                 (Inl (RE_NotAMember connection), a)
               else case queue_push connection application (ra_requests a) of
                      (Inl e, _) \<Rightarrow> (Inl (RE_Queue e), a)
                    | (Inr i, q) \<Rightarrow>
                        (case conn_attach_request connection i (ra_connections a) of
                           (None, cs) \<Rightarrow>
                             (Inl (RE_UnknownConnection connection),
                              a\<lparr>ra_requests := q, ra_connections := cs\<rparr>)
                         | (Some _, cs) \<Rightarrow>
                             (Inr [RA_NotifyHost (HN_JoinRequestPending i connection
                                     (ap_nickname application) (ap_introduction application))],
                              a\<lparr>ra_requests := q, ra_connections := cs,
                                ra_room_sequence := ra_room_sequence a + 1\<rparr>)))"

definition take_request :: "u64 \<Rightarrow> room_actor \<Rightarrow> (room_error + join_request) \<times> room_actor" where
  "take_request i a =
     (case queue_take i (ra_requests a) of
        (r, q) \<Rightarrow>
          (map_errE (\<lambda>e. case e of QE_Unknown j \<Rightarrow> RE_UnknownRequest j | other \<Rightarrow> RE_Queue other) r,
           a\<lparr>ra_requests := q\<rparr>))"

definition on_accept :: "room_env \<Rightarrow> u64 \<Rightarrow> room_actor \<Rightarrow> room_result" where
  "on_accept E i a =
     (case take_first (\<lambda>t. pt_request_id t = i) (ra_timeout_requests a) of
        Some (t, rest) \<Rightarrow>
          (Inr [RA_NotifyHost (HN_TimeoutRequestAccepted i (pt_seconds t))],
           a\<lparr>ra_timeout_requests := rest\<rparr>)
      | None \<Rightarrow>
          tryS (take_request i a) (\<lambda>request a1.
            let connection = rq_connection request; ap = rq_application request
            in case table_add connection (ap_nickname ap) (ap_ed25519_pubkey ap)
                      (ap_x25519_pubkey ap) (ra_epoch a1 + 1) (ra_members a1) of
                 (Inr m, t) \<Rightarrow>
                   tryS (begin_epoch_transition E
                           (a1\<lparr>ra_members := t,
                               ra_connections := snd (conn_promote connection (m_member_id m)
                                 (conn_register connection (ra_connections a1)))\<rparr>))
                     (\<lambda>wraps a2.
                       (Inr (RA_SendTo connection (M_JoinAccepted \<lparr>ja_member_id = m_member_id m\<rparr>) #
                             RA_NotifyHost (HN_MemberJoined (m_member_id m) (m_nickname m)) # wraps),
                        queue_member_joined E m a2))
               | (Inl e, _) \<Rightarrow>
                   (Inr ([RA_SendTo connection (rejected_message (Some (member_error_text e))),
                          RA_CloseConnection connection,
                          RA_NotifyHost (HN_Error (member_error_text e))] @
                         (case conn_request_id connection (ra_connections a1) of
                            None \<Rightarrow> []
                          | Some j \<Rightarrow> [RA_NotifyHost (HN_JoinRequestWithdrawn j)])),
                    a1\<lparr>ra_connections := conn_remove connection (ra_connections a1)\<rparr>)))"

definition on_reject :: "u64 \<Rightarrow> room_actor \<Rightarrow> room_result" where
  "on_reject i a =
     (case take_first (\<lambda>t. pt_request_id t = i) (ra_timeout_requests a) of
        Some (_, rest) \<Rightarrow>
          (Inr [RA_NotifyHost (HN_TimeoutRequestRejected i)], a\<lparr>ra_timeout_requests := rest\<rparr>)
      | None \<Rightarrow>
          tryS (take_request i a) (\<lambda>request a1.
            (Inr [RA_SendTo (rq_connection request) (rejected_message None),
                  RA_CloseConnection (rq_connection request)],
             a1\<lparr>ra_connections := conn_remove (rq_connection request) (ra_connections a1)\<rparr>)))"

definition resolve_member :: "member_ref \<Rightarrow> room_actor \<Rightarrow> room_error + member" where
  "resolve_member target a =
     (case target of
        MR_Id i \<Rightarrow> ok_or (RE_UnknownMember target) (by_id i (ra_members a))
      | MR_Nickname n \<Rightarrow>
          if n = [] then Inl RE_EmptyMemberRef
          else ok_or (RE_UnknownMember target) (by_nickname n (ra_members a)))"

definition on_leave :: "room_env \<Rightarrow> u64 \<Rightarrow> room_actor \<Rightarrow> room_result" where
  "on_leave E connection a =
     (if connection = ra_host_connection a then (Inl RE_HostCannotLeave, a)
      else case conn_member_id connection (ra_connections a) of
             None \<Rightarrow> (Inl (RE_NotAMember connection), a)
           | Some i \<Rightarrow>
               tryS (remove_member E i MSG_MEMBER_LEFT a) (\<lambda>(r, acts) a1.
                 case r of
                   None \<Rightarrow> (Inr [], a1)
                 | Some m \<Rightarrow>
                     (Inr (acts @ [RA_SendTo connection M_Shutdown, RA_CloseConnection connection,
                                   RA_NotifyHost (HN_MemberLeft i (m_nickname m))]), a1)))"

definition on_color :: "u64 \<Rightarrow> color_choice \<Rightarrow> room_actor \<Rightarrow> room_result" where
  "on_color connection color a =
     (case conn_member_id connection (ra_connections a) of
        Some i \<Rightarrow> (Inr [], a\<lparr>ra_members := table_set_color i color (ra_members a)\<rparr>)
      | None \<Rightarrow>
          if connection = ra_host_connection a
          then (Inr [], a\<lparr>ra_members := table_set_color 0 color (ra_members a)\<rparr>)
          else (Inl (RE_NotAMember connection), a))"

definition on_kick :: "room_env \<Rightarrow> member_ref \<Rightarrow> room_actor \<Rightarrow> room_result" where
  "on_kick E target a =
     (case resolve_member target a of
        Inl e \<Rightarrow> (Inl e, a)
      | Inr found \<Rightarrow>
          (case by_id (m_member_id found) (ra_members a) of
             None \<Rightarrow> (Inl (RE_UnknownMember target), a)
           | Some m \<Rightarrow>
               if m_is_host m then (Inl RE_CannotKickHost, a)
               else
                 tryS (remove_member E (m_member_id found) MSG_MEMBER_KICKED a) (\<lambda>(r, acts) a1.
                   case r of
                     None \<Rightarrow> (Inr [], a1)
                   | Some gone \<Rightarrow>
                       (Inr (acts @ [RA_CloseConnection (m_connection m),
                                     RA_NotifyHost (HN_MemberKicked (m_member_id found) (m_nickname gone))]),
                        a1))))"

definition on_connection_lost :: "room_env \<Rightarrow> u64 \<Rightarrow> room_actor \<Rightarrow> room_result" where
  "on_connection_lost E connection a =
     (if connection = ra_host_connection a then close_room E a
      else
        let withdrawn = map pt_request_id
              (filter (\<lambda>t. pt_connection t = connection) (ra_timeout_requests a));
            a1 = a\<lparr>ra_timeout_requests :=
                   filter (\<lambda>t. pt_connection t \<noteq> connection) (ra_timeout_requests a)\<rparr>;
            acts = map (\<lambda>i. RA_NotifyHost (HN_TimeoutRequestRejected i)) withdrawn;
            member_id = (case conn_member_id connection (ra_connections a1) of
                           Some i \<Rightarrow> Some i
                         | None \<Rightarrow> map_option m_member_id (by_connection connection (ra_members a1)));
            finish = (\<lambda>acts' a'. (Inr acts',
                        a'\<lparr>ra_connections := conn_remove connection (ra_connections a')\<rparr>))
        in case member_id of
             Some i \<Rightarrow>
               tryS (remove_member E i MSG_MEMBER_LEFT a1) (\<lambda>(r, wraps) a2.
                 finish (acts @ wraps @
                         (case r of
                            None \<Rightarrow> []
                          | Some m \<Rightarrow> [RA_NotifyHost (HN_MemberLeft i (m_nickname m))])) a2)
           | None \<Rightarrow>
               (case conn_request_id connection (ra_connections a1) of
                  None \<Rightarrow> finish acts a1
                | Some q \<Rightarrow>
                    (case queue_take q (ra_requests a1) of
                       (Inl _, requests) \<Rightarrow> finish acts (a1\<lparr>ra_requests := requests\<rparr>)
                     | (Inr _, requests) \<Rightarrow>
                         finish (acts @ [RA_NotifyHost (HN_JoinRequestWithdrawn q)])
                           (a1\<lparr>ra_requests := requests\<rparr>))))"

definition on_member_left :: "room_env \<Rightarrow> u64 \<Rightarrow> room_actor \<Rightarrow> room_result" where
  "on_member_left E i a =
     tryS (remove_member E i MSG_MEMBER_LEFT a) (\<lambda>(r, acts) a1.
       case r of
         None \<Rightarrow> (Inr [], a1)
       | Some m \<Rightarrow> (Inr (acts @ [RA_NotifyHost (HN_MemberLeft i (m_nickname m))]), a1))"

text \<open>
  \<open>/newid\<close> and \<open>/reqoff\<close> both reject every pending application and close every connection that
  is not a member.
\<close>

definition close_admissions :: "room_env \<Rightarrow> room_actor \<Rightarrow> room_action list \<times> room_actor" where
  "close_admissions E a =
     (case queue_drain (ra_requests a) of
        (drained, q) \<Rightarrow>
          let acts = concat (map (\<lambda>r. [RA_CloseConnection (rq_connection r),
                       RA_NotifyHost (HN_JoinRequestWithdrawn (rq_id r))]) drained);
              cs = foldl (\<lambda>cs r. conn_remove (rq_connection r) cs) (ra_connections a) drained;
              others = conn_non_member_ids (en_order E) cs
          in (acts @ map RA_CloseConnection others,
              a\<lparr>ra_requests := q, ra_connections := foldl (\<lambda>cs c. conn_remove c cs) cs others\<rparr>))"

definition on_new_id :: "room_env \<Rightarrow> room_actor \<Rightarrow> room_result" where
  "on_new_id E a =
     tryS (room_random (fill_random 32) a) (\<lambda>token a1.
       (case close_admissions E
               (a1\<lparr>ra_token := token, ra_room_sequence := ra_room_sequence a1 + 1\<rparr>) of
          (acts, a2) \<Rightarrow> (Inr (acts @ [RA_NotifyHost (HN_InvitationRotated token)]), a2)))"

definition set_policy :: "room_env \<Rightarrow> join_policy \<Rightarrow> room_actor \<Rightarrow> room_result" where
  "set_policy E policy a =
     (case (if policy = JP_Locked then close_admissions E a else ([], a)) of
        (acts, a1) \<Rightarrow>
          let a2 = a1\<lparr>ra_policy := policy,
                      ra_state := (if policy = JP_Open then RS_Open else RS_Locked),
                      ra_room_sequence := ra_room_sequence a1 + 1\<rparr>;
              sig = sign_room_event E 0x23 (join_policy_body (policy = JP_Open)) a2;
              msg = M_JoinPolicyChanged
                \<lparr>jp_sequence = ra_room_sequence a2, jp_epoch = ra_epoch a2,
                 jp_open = (policy = JP_Open), jp_signature = sig\<rparr>
          in (Inr (acts @
                   map (\<lambda>m. RA_SendTo (m_connection m) msg)
                     (filter (\<lambda>m. \<not> m_is_host m) (mt_members (ra_members a2))) @
                   [RA_NotifyHost (HN_JoinPolicyChanged policy)]), a2))"

definition requests_snapshot :: "room_actor \<Rightarrow> host_notice" where
  "requests_snapshot a =
     HN_RequestsSnapshot
       (map (\<lambda>r. \<lparr>ri_request_id = rq_id r, ri_connection = rq_connection r,
                  ri_nickname = ap_nickname (rq_application r),
                  ri_introduction = ap_introduction (rq_application r)\<rparr>) (qu_requests (ra_requests a)))
       (map (\<lambda>t. \<lparr>ti_request_id = pt_request_id t, ti_member_id = pt_member_id t,
                  ti_nickname = pt_nickname t, ti_seconds = pt_seconds t\<rparr>) (ra_timeout_requests a))"

fun on_host_command :: "room_env \<Rightarrow> host_command \<Rightarrow> room_actor \<Rightarrow> room_result" where
  "on_host_command E (HC_Kick target) a = on_kick E target a"
| "on_host_command E HC_NewId a = on_new_id E a"
| "on_host_command E HC_ReqOn a = set_policy E JP_Open a"
| "on_host_command E HC_ReqOff a = set_policy E JP_Locked a"
| "on_host_command E HC_Requests a = (Inr [RA_NotifyHost (requests_snapshot a)], a)"
| "on_host_command E (HC_Accept i) a = on_accept E i a"
| "on_host_command E (HC_Reject i) a = on_reject i a"

fun on_member_command :: "room_env \<Rightarrow> u64 \<Rightarrow> member_command \<Rightarrow> room_actor \<Rightarrow> room_result" where
  "on_member_command E connection MCmd_Leave a = on_leave E connection a"
| "on_member_command E connection (MCmd_Color color) a = on_color connection color a"
| "on_member_command E connection MCmd_List a =
     (Inr [RA_NotifyHost (HN_ListSnapshot (map member_info_from (mt_members (ra_members a))))], a)"
| "on_member_command E connection (MCmd_Whois target) a =
     (case resolve_member (MR_Nickname target) a of
        Inl e \<Rightarrow> (Inl e, a)
      | Inr m \<Rightarrow> (Inr [RA_NotifyHost (HN_WhoisResult (member_info_from m))], a))"

section \<open>Chat relay\<close>

definition reject_during_transition :: "u64 \<Rightarrow> room_actor \<Rightarrow> room_result" where
  "reject_during_transition connection a =
     (if connection = ra_host_connection a then
        (Inr [RA_NotifyHost (HN_Error
           (rs ''the room was rotating keys; that action was not applied''))], a)
      else case error_message_new EC_RateLimited
             (Some (rs ''the room was rotating keys; that message was not delivered, please send it again'')) of
             Inl e \<Rightarrow> (Inl (RE_Protocol e), a)
           | Inr m \<Rightarrow> (Inr [RA_SendTo connection (M_Error m)], a))"

definition member_has_acked_pending_epoch :: "u64 \<Rightarrow> room_actor \<Rightarrow> bool" where
  "member_has_acked_pending_epoch connection a =
     (case ra_pending_epoch a of
        None \<Rightarrow> True
      | Some p \<Rightarrow>
          (case conn_member_id connection (ra_connections a) of
             None \<Rightarrow> False
           | Some i \<Rightarrow> i \<notin> set (pe_awaiting p)))"

definition chat_plaintext :: "room_env \<Rightarrow> u64 \<Rightarrow> u8 \<Rightarrow> envelope \<Rightarrow> room_actor \<Rightarrow> room_error + bytes" where
  "chat_plaintext E sender_id message_type env a =
     (case (case ra_pending_epoch a of
              Some p \<Rightarrow> Some (pe_epoch p, pe_key p)
            | None \<Rightarrow> map_option (\<lambda>k. (ra_epoch a, k)) (ra_epoch_key a)) of
        None \<Rightarrow> Inl (RE_Chat ChE_NoEpochKey)
      | Some (epoch, key) \<Rightarrow>
          (case by_id sender_id (ra_members a) of
             None \<Rightarrow> Inl (RE_Chat (ChE_UnknownSender (env_sender_id env)))
           | Some m \<Rightarrow>
               map_errE (\<lambda>e. case e of COE_InvalidSignature \<Rightarrow> RE_Chat ChE_InvalidSignature
                                     | COE_Decrypt _ \<Rightarrow> RE_Chat ChE_InvalidCiphertext)
                 (open_envelope (en_crypto E) key (m_ed25519_pubkey m) 1 (ra_session_id a) epoch
                    (env_sender_id env) (env_sender_sequence env) message_type (env_nonce env)
                    (env_ciphertext env) (env_signature env))))"

definition relay :: "u64 \<Rightarrow> message \<Rightarrow> room_actor \<Rightarrow> room_result" where
  "relay connection msg a =
     (Inr (map (\<lambda>m. RA_SendTo (m_connection m) msg)
             (filter (\<lambda>m. m_connection m \<noteq> connection) (mt_members (ra_members a)))), a)"

definition invalid_plaintext :: "string \<Rightarrow> room_error" where
  "invalid_plaintext s = RE_Chat (ChE_InvalidPlaintext (rs s))"

definition timeout_in_range :: "u64 \<Rightarrow> bool" where
  "timeout_in_range s \<longleftrightarrow> 1 \<le> s \<and> s \<le> MAX_MESSAGE_TIMEOUT_SECONDS"

text \<open>The four branches on the message type, after the envelope was opened.\<close>

definition on_color_payload :: "u64 \<Rightarrow> u64 \<Rightarrow> envelope \<Rightarrow> bytes \<Rightarrow> room_actor \<Rightarrow> room_result" where
  "on_color_payload connection sender_id env plaintext a =
     (if length plaintext \<noteq> 1 then (Inl (invalid_plaintext ''color payload must be one byte''), a)
      else case color_from_index (plaintext ! 0) of
             None \<Rightarrow> (Inl (RE_UnknownColor (plaintext ! 0)), a)
           | Some color \<Rightarrow>
               relay connection (M_ColorChange env)
                 (a\<lparr>ra_members := table_set_color sender_id color (ra_members a)\<rparr>))"

definition on_timeout_request_payload :: "u64 \<Rightarrow> u64 \<Rightarrow> bytes \<Rightarrow> room_actor \<Rightarrow> room_result" where
  "on_timeout_request_payload connection sender_id plaintext a =
     (if sender_id = 0 then (Inl (invalid_plaintext ''the host cannot submit a timeout request''), a)
      else if length plaintext \<noteq> 8 then
        (Inl (invalid_plaintext ''timeout request must contain eight bytes''), a)
      else
        let seconds = from_be64 plaintext
        in if \<not> timeout_in_range seconds then
             (Inl (invalid_plaintext ''timeout request is out of range''), a)
           else if length (qu_requests (ra_requests a)) + length (ra_timeout_requests a)
                   \<ge> qu_limit (ra_requests a) then
             (Inl (RE_Queue (QE_Full (qu_limit (ra_requests a)))), a)
           else
             let nickname = (case by_id sender_id (ra_members a) of Some m \<Rightarrow> m_nickname m | None \<Rightarrow> [])
             in case queue_allocate_id (ra_requests a) of
                  (i, q) \<Rightarrow>
                    (Inr [RA_NotifyHost (HN_TimeoutRequestPending i sender_id nickname seconds)],
                     a\<lparr>ra_requests := q,
                       ra_timeout_requests := ra_timeout_requests a @
                         [\<lparr>pt_request_id = i, pt_connection = connection, pt_member_id = sender_id,
                           pt_nickname = nickname, pt_seconds = seconds\<rparr>]\<rparr>))"

definition on_timeout_changed_payload :: "u64 \<Rightarrow> u64 \<Rightarrow> envelope \<Rightarrow> bytes \<Rightarrow> room_actor \<Rightarrow> room_result" where
  "on_timeout_changed_payload connection sender_id env plaintext a =
     (if sender_id \<noteq> 0 then
        (Inl (invalid_plaintext ''only the host can change the room timeout''), a)
      else if length plaintext \<noteq> 9 then
        (Inl (invalid_plaintext ''timeout setting must contain nine bytes''), a)
      else
        let flag = plaintext ! 0; seconds = from_be64 (drop 1 plaintext);
            valid = (if flag = 0 then list_all (\<lambda>b. b = 0) (drop 1 plaintext)
                     else if flag = 1 then timeout_in_range seconds else False)
        in if \<not> valid then (Inl (invalid_plaintext ''invalid timeout setting''), a)
           else relay connection (M_TimeoutChanged env)
                  (a\<lparr>ra_room_timeout := (if flag = 0 then None else Some seconds)\<rparr>))"

definition on_chat_payload :: "u64 \<Rightarrow> envelope \<Rightarrow> bytes \<Rightarrow> room_actor \<Rightarrow> room_result" where
  "on_chat_payload connection env plaintext a =
     (case from_utf8 plaintext of
        None \<Rightarrow> (Inl (invalid_plaintext ''not UTF-8''), a)
      | Some text \<Rightarrow>
          (case validate_chat_text text default_limits of
             Inl e \<Rightarrow> (Inl (RE_Chat (ChE_InvalidPlaintext (validation_error_text e))), a)
           | Inr _ \<Rightarrow> relay connection (M_ChatMessage env) a))"

definition relay_opened :: "room_env \<Rightarrow> u64 \<Rightarrow> u64 \<Rightarrow> u8 \<Rightarrow> envelope \<Rightarrow> room_actor \<Rightarrow> room_result" where
  "relay_opened E connection sender_id message_type env a =
     (if env_epoch env \<noteq> ra_epoch a then (Inl (RE_OldEpoch (env_epoch env) (ra_epoch a)), a)
      else if (case replay_last_accepted sender_id (ra_epoch a) (ra_chat_replay a) of
                 Some l \<Rightarrow> env_sender_sequence env \<le> l | None \<Rightarrow> False)
      then (Inl (RE_ReplayRejected (env_sender_id env) (env_sender_sequence env)), a)
      else case chat_plaintext E sender_id message_type env a of
             Inl e \<Rightarrow> (Inl e, a)
           | Inr plaintext \<Rightarrow>
               (let a1 = a\<lparr>ra_chat_replay := snd (replay_accept sender_id (ra_epoch a)
                              (env_sender_sequence env) (ra_chat_replay a))\<rparr>
                in if message_type = MSG_COLOR then on_color_payload connection sender_id env plaintext a1
                   else if message_type = MSG_TIMEOUT_REQUEST then
                     on_timeout_request_payload connection sender_id plaintext a1
                   else if message_type = MSG_TIMEOUT_CHANGED then
                     on_timeout_changed_payload connection sender_id env plaintext a1
                   else on_chat_payload connection env plaintext a1))"

definition rate_limited :: "room_env \<Rightarrow> u64 \<Rightarrow> u64 \<Rightarrow> bool \<Rightarrow> room_actor \<Rightarrow> room_result" where
  "rate_limited E connection sender_id abusive a =
     (case error_message_new EC_RateLimited
             (Some (rs ''the room rate limit rejected that message; send more slowly'')) of
        Inl e \<Rightarrow> (Inl (RE_Protocol e), a)
      | Inr m \<Rightarrow>
          (let acts = [RA_SendTo connection (M_Error m),
                       RA_NotifyHost (HN_Error (rs ''member exceeded the message rate limit''))]
           in if abusive then
                tryS (remove_member E sender_id MSG_MEMBER_KICKED a) (\<lambda>(r, wraps) a1.
                  (Inr (acts @ wraps @
                        (case r of
                           None \<Rightarrow> []
                         | Some m' \<Rightarrow> [RA_CloseConnection connection,
                                       RA_NotifyHost (HN_MemberKicked sender_id (m_nickname m'))])), a1))
              else (Inr acts, a)))"

definition on_chat_received :: "room_env \<Rightarrow> u64 \<Rightarrow> u8 \<Rightarrow> envelope \<Rightarrow> room_actor \<Rightarrow> room_result" where
  "on_chat_received E connection message_type env a =
     (if message_type \<notin> {MSG_CHAT, MSG_COLOR, MSG_TIMEOUT_REQUEST, MSG_TIMEOUT_CHANGED} then
        (Inl (invalid_plaintext ''not a chat-type message''), a)
      else case conn_member_id connection (ra_connections a) of
             None \<Rightarrow> (Inl (RE_NotAMember connection), a)
           | Some sender_id \<Rightarrow>
               if env_sender_id env \<noteq> sender_id then
                 (Inl (RE_Chat (ChE_UnknownSender (env_sender_id env))), a)
               else if by_id sender_id (ra_members a) = None then (Inl (RE_NotAMember connection), a)
               else if message_type = MSG_TIMEOUT_CHANGED then
                 relay_opened E connection sender_id message_type env a
               else
                 (let limiter = (case ra_rate_limits a sender_id of
                                   Some l \<Rightarrow> l | None \<Rightarrow> rate_limiter_new 5 1)
                  in case limiter_allow (ra_now a) limiter of
                       (allowed, limiter') \<Rightarrow>
                         (let a1 = a\<lparr>ra_rate_limits := (ra_rate_limits a)(sender_id \<mapsto> limiter')\<rparr>
                          in if allowed then relay_opened E connection sender_id message_type env a1
                             else rate_limited E connection sender_id
                                    (limiter_is_abusive RATE_LIMIT_TERMINATION limiter') a1)))"

section \<open>Dispatch\<close>

fun handle_in_transition :: "room_env \<Rightarrow> room_event \<Rightarrow> room_actor \<Rightarrow> room_result" where
  "handle_in_transition E (EV_EpochAck c epoch) a = on_epoch_ack c epoch a"
| "handle_in_transition E (EV_ConnectionLost c) a = on_connection_lost E c a"
| "handle_in_transition E (EV_TimeoutExpired c kind) a =
     (if kind = TK_EpochAcknowledgement then on_epoch_timeout E a else on_connection_lost E c a)"
| "handle_in_transition E EV_EpochMaintenance a = on_epoch_timeout E a"
| "handle_in_transition E EV_CloseRequested a = close_room E a"
| "handle_in_transition E EV_TorStopped a = close_room E a"
| "handle_in_transition E (EV_HostCommand HC_Requests) a = on_host_command E HC_Requests a"
| "handle_in_transition E (EV_ChatReceived c t env) a =
     (if member_has_acked_pending_epoch c a then on_chat_received E c t env a
      else reject_during_transition c a)"
| "handle_in_transition E _ a = (Inl RE_EpochTransitionInProgress, a)"

fun handle_settled :: "room_env \<Rightarrow> room_event \<Rightarrow> room_actor \<Rightarrow> room_result" where
  "handle_settled E (EV_ClientConnected c) a =
     (Inr [], a\<lparr>ra_connections := conn_register c (ra_connections a)\<rparr>)"
| "handle_settled E (EV_PasswordVerified c) a =
     (Inr [], a\<lparr>ra_connections := snd (conn_mark_password_verified c (ra_connections a))\<rparr>)"
| "handle_settled E (EV_EpochAck c epoch) a = on_epoch_ack c epoch a"
| "handle_settled E (EV_JoinRequested c application) a = on_join_requested c application a"
| "handle_settled E (EV_HostCommand command) a = on_host_command E command a"
| "handle_settled E (EV_MemberCommand c command) a = on_member_command E c command a"
| "handle_settled E (EV_HostAccepted i) a = on_accept E i a"
| "handle_settled E (EV_HostRejected i) a = on_reject i a"
| "handle_settled E (EV_ConnectionLost c) a = on_connection_lost E c a"
| "handle_settled E (EV_TimeoutExpired c kind) a = on_connection_lost E c a"
| "handle_settled E EV_EpochMaintenance a = (Inr [], a)"
| "handle_settled E (EV_MemberLeft i) a = on_member_left E i a"
| "handle_settled E (EV_ChatReceived c t env) a = on_chat_received E c t env a"
| "handle_settled E EV_TorStopped a = close_room E a"
| "handle_settled E EV_CloseRequested a = close_room E a"

definition handle_event_at :: "room_env \<Rightarrow> room_event \<Rightarrow> duration \<Rightarrow> room_actor \<Rightarrow> room_result" where
  "handle_event_at E ev now a0 =
     (let a = a0\<lparr>ra_now := now\<rparr>
      in if ra_state a = RS_Closing \<or> ra_state a = RS_Destroyed then (Inl RE_RoomClosed, a)
         else if ra_state a = RS_EpochTransition then handle_in_transition E ev a
         else handle_settled E ev a)"

definition handle_event :: "room_env \<Rightarrow> room_event \<Rightarrow> room_actor \<Rightarrow> room_result" where
  "handle_event E ev a = handle_event_at E ev (ra_now a) a"

end
