(* ===== verification/ChatSession.thy ===== *)
theory ChatSession
  imports Actor
begin

text \<open>
  The participant's side of the chat (\<open>chat/session.rs\<close>). \<open>chat_session\<close> has the source's fields
  and \<open>cs_entropy\<close>, the random outcomes still to come. Every method is one definition; the ones
  on \<open>&mut self\<close> return the state too, as it is on an early return.
\<close>

record member_view =
  mv_member_id :: u64
  mv_nickname :: rstring
  mv_color :: color_choice
  mv_is_host :: bool
  mv_ed25519_pubkey :: bytes

record chat_session =
  cs_room_session_id :: bytes
  cs_host_ed25519_pubkey :: bytes
  cs_host_x25519_pubkey :: bytes
  cs_member_id :: u64
  cs_current_epoch :: "(u64 \<times> bytes) option"
  cs_sender_sequence :: u64
  cs_members :: "member_view list"
  cs_replay :: replay_tracker
  cs_last_room_sequence :: "u64 option"
  cs_join_policy_open :: bool
  cs_entropy :: entropy

type_synonym 'a session_result = "(chat_error + 'a) \<times> chat_session"

definition session_new :: "bytes \<Rightarrow> bytes \<Rightarrow> bytes \<Rightarrow> u64 \<Rightarrow> entropy \<Rightarrow> chat_session" where
  "session_new room_session_id host_ed host_x member_id es =
     \<lparr>cs_room_session_id = room_session_id, cs_host_ed25519_pubkey = host_ed,
      cs_host_x25519_pubkey = host_x, cs_member_id = member_id, cs_current_epoch = None,
      cs_sender_sequence = 0, cs_members = [], cs_replay = replay_new,
      cs_last_room_sequence = None, cs_join_policy_open = True, cs_entropy = es\<rparr>"

definition session_epoch :: "chat_session \<Rightarrow> u64 option" where
  "session_epoch s = map_option fst (cs_current_epoch s)"

section \<open>Epochs\<close>

definition install_epoch :: "u64 \<Rightarrow> bytes \<Rightarrow> chat_session \<Rightarrow> chat_session" where
  "install_epoch epoch key s =
     (if (case session_epoch s of Some current \<Rightarrow> epoch \<le> current | None \<Rightarrow> False) then s
      else s\<lparr>cs_current_epoch := Some (epoch, key), cs_replay := replay_retain_epoch epoch (cs_replay s)\<rparr>)"

definition set_epoch_from_wrap :: "crypto \<Rightarrow> identity \<Rightarrow> epoch_wrap \<Rightarrow> chat_session \<Rightarrow> u64 session_result" where
  "set_epoch_from_wrap C i w s =
     (case (case session_epoch s of
              Some current \<Rightarrow> if ew_epoch w \<le> current then Some current else None
            | None \<Rightarrow> None) of
        Some current \<Rightarrow> (Inl (ChE_OldEpoch (ew_epoch w) current), s)
      | None \<Rightarrow>
          (case try_wrap_key_for C i (cs_host_x25519_pubkey s) (cs_room_session_id s) (cs_member_id s) of
             Inl _ \<Rightarrow> (Inl ChE_InvalidCiphertext, s)
           | Inr wk \<Rightarrow>
               (case unwrap_epoch_key C wk (ew_epoch w) (cs_room_session_id s) (ew_nonce w) (ew_ciphertext w) of
                  Inl _ \<Rightarrow> (Inl ChE_InvalidCiphertext, s)
                | Inr key \<Rightarrow> (Inr (ew_epoch w), install_epoch (ew_epoch w) key s))))"

section \<open>Members\<close>

definition session_member :: "u64 \<Rightarrow> chat_session \<Rightarrow> member_view option" where
  "session_member i s = List.find (\<lambda>m. mv_member_id m = i) (cs_members s)"

definition install_member :: "member_view \<Rightarrow> chat_session \<Rightarrow> chat_session" where
  "install_member v s =
     s\<lparr>cs_members :=
         (if list_ex (\<lambda>m. mv_member_id m = mv_member_id v) (cs_members s)
          then update_first (\<lambda>m. mv_member_id m = mv_member_id v) (\<lambda>_. v) (cs_members s)
          else cs_members s @ [v])\<rparr>"

definition session_remove_member :: "u64 \<Rightarrow> chat_session \<Rightarrow> chat_session" where
  "session_remove_member i s = s\<lparr>cs_members := filter (\<lambda>m. mv_member_id m \<noteq> i) (cs_members s)\<rparr>"

definition view_of_snapshot :: "snapshot_member \<Rightarrow> member_view" where
  "view_of_snapshot m =
     \<lparr>mv_member_id = sm_member_id m, mv_nickname = sm_nickname m,
      mv_color = (case color_from_index (sm_color m) of Some c \<Rightarrow> c | None \<Rightarrow> color_default),
      mv_is_host = sm_is_host m, mv_ed25519_pubkey = sm_ed25519_pubkey m\<rparr>"

definition install_snapshot :: "snapshot_member list \<Rightarrow> chat_session \<Rightarrow> chat_session" where
  "install_snapshot ms s = s\<lparr>cs_members := map view_of_snapshot ms\<rparr>"

section \<open>Sending\<close>

definition validate_timeout_seconds :: "u64 \<Rightarrow> chat_error + unit" where
  "validate_timeout_seconds seconds =
     (if timeout_in_range seconds then Inr ()
      else Inl (ChE_InvalidPlaintext (rs ''timeout must be 1..='' @
             dec (unat MAX_MESSAGE_TIMEOUT_SECONDS) @ rs '' seconds'')))"

definition session_seal :: "crypto \<Rightarrow> identity \<Rightarrow> u8 \<Rightarrow> bytes \<Rightarrow> chat_session \<Rightarrow> envelope session_result" where
  "session_seal C i message_type plaintext s0 =
     (case cs_current_epoch s0 of
        None \<Rightarrow> (Inl ChE_NoEpochKey, s0)
      | Some (epoch, key) \<Rightarrow>
          (let s = s0\<lparr>cs_sender_sequence := cs_sender_sequence s0 + 1\<rparr>
           in case seal_envelope C key i 1 (cs_room_session_id s) epoch (cs_member_id s)
                     (cs_sender_sequence s) message_type plaintext (cs_entropy s) of
                (Inl _, es) \<Rightarrow> (Inl ChE_InvalidCiphertext, s\<lparr>cs_entropy := es\<rparr>)
              | (Inr e, es) \<Rightarrow>
                  (map_errE (\<lambda>_. ChE_InvalidCiphertext)
                     (envelope_new epoch (cs_member_id s) (cs_sender_sequence s) (se_nonce e)
                        (se_ciphertext e) (se_signature e)),
                   s\<lparr>cs_entropy := es\<rparr>)))"

definition seal_message :: "(envelope \<Rightarrow> message) \<Rightarrow> envelope session_result \<Rightarrow> message session_result" where
  "seal_message f r = tryS r (\<lambda>env s. (Inr (f env), s))"

definition send_chat :: "crypto \<Rightarrow> identity \<Rightarrow> rstring \<Rightarrow> chat_session \<Rightarrow> message session_result" where
  "send_chat C i text s =
     (case validate_chat_text text default_limits of
        Inl e \<Rightarrow> (Inl (ChE_InvalidPlaintext (validation_error_text e)), s)
      | Inr _ \<Rightarrow> seal_message M_ChatMessage (session_seal C i MSG_CHAT (utf8 text) s))"

definition send_color :: "crypto \<Rightarrow> identity \<Rightarrow> color_choice \<Rightarrow> chat_session \<Rightarrow> message session_result" where
  "send_color C i color s =
     seal_message M_ColorChange (session_seal C i MSG_COLOR [color_as_index color] s)"

definition send_timeout_request :: "crypto \<Rightarrow> identity \<Rightarrow> u64 \<Rightarrow> chat_session \<Rightarrow> message session_result" where
  "send_timeout_request C i seconds s =
     (case validate_timeout_seconds seconds of
        Inl e \<Rightarrow> (Inl e, s)
      | Inr _ \<Rightarrow> seal_message M_TimeoutRequest (session_seal C i MSG_TIMEOUT_REQUEST (be64 seconds) s))"

definition send_timeout_changed :: "crypto \<Rightarrow> identity \<Rightarrow> u64 option \<Rightarrow> chat_session \<Rightarrow> message session_result" where
  "send_timeout_changed C i interval s =
     (case (case interval of None \<Rightarrow> Inr () | Some seconds \<Rightarrow> validate_timeout_seconds seconds) of
        Inl e \<Rightarrow> (Inl e, s)
      | Inr _ \<Rightarrow>
          seal_message M_TimeoutChanged (session_seal C i MSG_TIMEOUT_CHANGED
            (case interval of None \<Rightarrow> replicate 9 0 | Some seconds \<Rightarrow> 1 # be64 seconds) s))"

section \<open>Receiving\<close>

definition session_open :: "crypto \<Rightarrow> u8 \<Rightarrow> envelope \<Rightarrow> chat_session \<Rightarrow> bytes session_result" where
  "session_open C message_type env s =
     (case cs_current_epoch s of
        None \<Rightarrow> (Inl ChE_NoEpochKey, s)
      | Some (epoch, key) \<Rightarrow>
          if env_epoch env \<noteq> epoch then (Inl (ChE_OldEpoch (env_epoch env) epoch), s)
          else case session_member (env_sender_id env) s of
                 None \<Rightarrow> (Inl (ChE_UnknownSender (env_sender_id env)), s)
               | Some m \<Rightarrow>
                   if (case replay_last_accepted (env_sender_id env) epoch (cs_replay s) of
                         Some l \<Rightarrow> env_sender_sequence env \<le> l | None \<Rightarrow> False)
                   then (Inl (ChE_ReplayRejected (env_sender_id env) (env_sender_sequence env)), s)
                   else case open_envelope C key (mv_ed25519_pubkey m) 1 (cs_room_session_id s) epoch
                               (env_sender_id env) (env_sender_sequence env) message_type
                               (env_nonce env) (env_ciphertext env) (env_signature env) of
                          Inl COE_InvalidSignature \<Rightarrow> (Inl ChE_InvalidSignature, s)
                        | Inl (COE_Decrypt _) \<Rightarrow> (Inl ChE_InvalidCiphertext, s)
                        | Inr plaintext \<Rightarrow>
                            (Inr plaintext,
                             s\<lparr>cs_replay := snd (replay_accept (env_sender_id env) epoch
                                  (env_sender_sequence env) (cs_replay s))\<rparr>))"

definition receive_chat :: "crypto \<Rightarrow> envelope \<Rightarrow> chat_session \<Rightarrow> rstring session_result" where
  "receive_chat C env s =
     tryS (session_open C MSG_CHAT env s) (\<lambda>plaintext s1.
       (case from_utf8 plaintext of
          None \<Rightarrow> (Inl (ChE_InvalidPlaintext (rs ''not valid UTF-8'')), s1)
        | Some text \<Rightarrow>
            (case validate_chat_text text default_limits of
               Inl e \<Rightarrow> (Inl (ChE_InvalidPlaintext (validation_error_text e)), s1)
             | Inr _ \<Rightarrow> (Inr text, s1))))"

definition receive_color :: "crypto \<Rightarrow> envelope \<Rightarrow> chat_session \<Rightarrow> color_choice session_result" where
  "receive_color C env s =
     tryS (session_open C MSG_COLOR env s) (\<lambda>plaintext s1.
       if length plaintext \<noteq> 1 then
         (Inl (ChE_InvalidPlaintext (rs ''color payload must be one byte'')), s1)
       else (ok_or (ChE_UnknownColor (plaintext ! 0)) (color_from_index (plaintext ! 0)), s1))"

definition receive_timeout_request :: "crypto \<Rightarrow> envelope \<Rightarrow> chat_session \<Rightarrow> u64 session_result" where
  "receive_timeout_request C env s =
     tryS (session_open C MSG_TIMEOUT_REQUEST env s) (\<lambda>plaintext s1.
       if length plaintext \<noteq> 8 then
         (Inl (ChE_InvalidPlaintext (rs ''timeout request must contain eight bytes'')), s1)
       else (bindE (validate_timeout_seconds (from_be64 plaintext)) (\<lambda>_. Inr (from_be64 plaintext)), s1))"

definition receive_timeout_changed :: "crypto \<Rightarrow> envelope \<Rightarrow> chat_session \<Rightarrow> u64 option session_result" where
  "receive_timeout_changed C env s =
     (if env_sender_id env \<noteq> 0 then
        (Inl (ChE_InvalidPlaintext (rs ''only the host can change the room timeout'')), s)
      else
        tryS (session_open C MSG_TIMEOUT_CHANGED env s) (\<lambda>plaintext s1.
          if length plaintext \<noteq> 9 then
            (Inl (ChE_InvalidPlaintext (rs ''timeout setting must contain nine bytes'')), s1)
          else if plaintext ! 0 = 0 \<and> list_all (\<lambda>b. b = 0) (drop 1 plaintext) then (Inr None, s1)
          else if plaintext ! 0 = 1 then
            (bindE (validate_timeout_seconds (from_be64 (drop 1 plaintext)))
               (\<lambda>_. Inr (Some (from_be64 (drop 1 plaintext)))), s1)
          else (Inl (ChE_InvalidPlaintext (rs ''invalid timeout setting flag'')), s1)))"

section \<open>Signed membership broadcasts\<close>

definition verify_room_event :: "crypto \<Rightarrow> u64 \<Rightarrow> u64 \<Rightarrow> u8 \<Rightarrow> bytes \<Rightarrow> bytes \<Rightarrow> chat_session \<Rightarrow>
    unit session_result" where
  "verify_room_event C sequence epoch event_type body signature s =
     (if \<not> verify_ed25519 C (cs_host_ed25519_pubkey s)
             (room_event_transcript 1 (cs_room_session_id s) sequence epoch event_type body) signature
      then (Inl ChE_InvalidSignature, s)
      else case (case session_epoch s of
                   Some current \<Rightarrow> if epoch \<noteq> current then Some current else None
                 | None \<Rightarrow> None) of
             Some current \<Rightarrow> (Inl (ChE_OldEpoch epoch current), s)
           | None \<Rightarrow>
               if (case cs_last_room_sequence s of Some l \<Rightarrow> sequence \<le> l | None \<Rightarrow> False)
               then (Inl (ChE_ReplayRejected 0 sequence), s)
               else (Inr (), s\<lparr>cs_last_room_sequence := Some sequence\<rparr>))"

definition invalid_event :: "string \<Rightarrow> chat_error" where
  "invalid_event t = ChE_InvalidPlaintext (rs t)"

definition handle_member_joined :: "(rstring \<Rightarrow> rstring) \<Rightarrow> crypto \<Rightarrow> member_joined \<Rightarrow> chat_session \<Rightarrow>
    unit session_result" where
  "handle_member_joined nfc C ev s =
     (case validate_nickname nfc (mj_nickname ev) default_limits of
        Inl e \<Rightarrow> (Inl (ChE_InvalidPlaintext (validation_error_text e)), s)
      | Inr _ \<Rightarrow>
          if mj_member_id ev = 0 \<or>
             list_ex (\<lambda>m. mv_member_id m = mj_member_id ev \<or> mv_nickname m = mj_nickname ev \<or>
                          mv_ed25519_pubkey m = mj_ed25519_pubkey ev) (cs_members s)
          then (Inl (invalid_event ''duplicate or invalid member identity''), s)
          else
            tryS (verify_room_event C (mj_sequence ev) (mj_epoch ev) 0x20
                    (member_joined_body (mj_member_id ev) (mj_nickname ev) (mj_ed25519_pubkey ev))
                    (mj_signature ev) s)
              (\<lambda>_ s1. (Inr (), install_member
                 \<lparr>mv_member_id = mj_member_id ev, mv_nickname = mj_nickname ev, mv_color = color_default,
                  mv_is_host = False, mv_ed25519_pubkey = mj_ed25519_pubkey ev\<rparr> s1)))"

definition handle_member_gone :: "crypto \<Rightarrow> u8 \<Rightarrow> u64 \<Rightarrow> u64 \<Rightarrow> u64 \<Rightarrow> bytes \<Rightarrow> chat_session \<Rightarrow>
    unit session_result" where
  "handle_member_gone C event_type sequence epoch member_id signature s =
     tryS (verify_room_event C sequence epoch event_type (member_gone_body member_id) signature s)
       (\<lambda>_ s1. (Inr (), session_remove_member member_id s1))"

text \<open>The loop over the entries: each is compared with the ones before it.\<close>

fun validate_snapshot_entries :: "(rstring \<Rightarrow> rstring) \<Rightarrow> snapshot_member list \<Rightarrow> snapshot_member list \<Rightarrow>
    chat_error + unit" where
  "validate_snapshot_entries nfc prior [] = Inr ()"
| "validate_snapshot_entries nfc prior (m # ms) =
     (case validate_nickname nfc (sm_nickname m) default_limits of
        Inl e \<Rightarrow> Inl (ChE_InvalidPlaintext (validation_error_text e))
      | Inr _ \<Rightarrow>
          if color_from_index (sm_color m) = None then Inl (ChE_UnknownColor (sm_color m))
          else if list_ex (\<lambda>p. sm_member_id p = sm_member_id m \<or> sm_nickname p = sm_nickname m \<or>
                               sm_ed25519_pubkey p = sm_ed25519_pubkey m) prior
          then Inl (invalid_event ''member snapshot contains duplicate identities'')
          else validate_snapshot_entries nfc (prior @ [m]) ms)"

definition validate_snapshot :: "(rstring \<Rightarrow> rstring) \<Rightarrow> snapshot_member list \<Rightarrow> u64 \<Rightarrow> chat_error + unit" where
  "validate_snapshot nfc ms own_id =
     (if ms = [] \<or> \<not> list_ex (\<lambda>m. sm_member_id m = own_id) ms then
        Inl (invalid_event ''member snapshot omits the local member'')
      else if length ms > max_active_members default_limits then
        Inl (ChE_InvalidPlaintext (rs ''member snapshot lists '' @ dec (length ms) @
             rs '' members, the room limit is '' @ dec (max_active_members default_limits)))
      else if length (filter (\<lambda>m. sm_is_host m \<and> sm_member_id m = 0) ms) \<noteq> 1 \<or>
              list_ex (\<lambda>m. sm_is_host m \<noteq> (sm_member_id m = 0)) ms then
        Inl (invalid_event ''member snapshot has an invalid host entry'')
      else validate_snapshot_entries nfc [] ms)"

definition handle_member_snapshot :: "(rstring \<Rightarrow> rstring) \<Rightarrow> crypto \<Rightarrow> member_snapshot \<Rightarrow> chat_session \<Rightarrow>
    unit session_result" where
  "handle_member_snapshot nfc C ev s =
     (case validate_snapshot nfc (ms_members ev) (cs_member_id s) of
        Inl e \<Rightarrow> (Inl e, s)
      | Inr _ \<Rightarrow>
          tryS (verify_room_event C (ms_sequence ev) (ms_epoch ev) 0x24
                  (member_snapshot_body (ms_members ev)) (ms_signature ev) s)
            (\<lambda>_ s1. (Inr (), install_snapshot (ms_members ev) s1)))"

definition handle_membership_message :: "(rstring \<Rightarrow> rstring) \<Rightarrow> crypto \<Rightarrow> message \<Rightarrow> chat_session \<Rightarrow>
    unit session_result" where
  "handle_membership_message nfc C msg s =
     (case msg of
        M_MemberJoined ev \<Rightarrow> handle_member_joined nfc C ev s
      | M_MemberLeft ev \<Rightarrow>
          handle_member_gone C 0x21 (mg_sequence ev) (mg_epoch ev) (mg_member_id ev) (mg_signature ev) s
      | M_MemberKicked ev \<Rightarrow>
          handle_member_gone C 0x22 (mg_sequence ev) (mg_epoch ev) (mg_member_id ev) (mg_signature ev) s
      | M_JoinPolicyChanged ev \<Rightarrow>
          tryS (verify_room_event C (jp_sequence ev) (jp_epoch ev) 0x23 (join_policy_body (jp_open ev))
                  (jp_signature ev) s)
            (\<lambda>_ s1. (Inr (), s1\<lparr>cs_join_policy_open := jp_open ev\<rparr>))
      | M_MemberSnapshot ev \<Rightarrow> handle_member_snapshot nfc C ev s
      | _ \<Rightarrow> (Inl (invalid_event ''not a membership message''), s))"

end
