(* ===== verification/Uri.thy ===== *)
theory Uri
  imports Validation "HOL-Library.Sublist"
begin

unbundle bit_operations_syntax

text \<open>
  The strict invitation parser (\<open>uri.rs\<close>). Base64 and SHA3-256 come from crates and are the record
  \<open>uri_env\<close>; \<open>uri_env_ok\<close> states what the round trip needs of them: decoding undoes encoding, and
  encoded text is not empty and uses the URL-safe alphabet.
\<close>

record uri_env =
  u_b64_encode :: "bytes \<Rightarrow> rstring"
  u_b64_decode :: "rstring \<Rightarrow> bytes option"
  u_sha3_256 :: "bytes \<Rightarrow> bytes"

definition url_safe :: "nat \<Rightarrow> bool" where
  "url_safe c \<longleftrightarrow> (0x41 \<le> c \<and> c \<le> 0x5A) \<or> (0x61 \<le> c \<and> c \<le> 0x7A) \<or> is_digit c \<or> c = 0x2D \<or> c = 0x5F"

definition uri_env_ok :: "uri_env \<Rightarrow> bool" where
  "uri_env_ok U \<longleftrightarrow>
     (\<forall>b. b \<noteq> [] \<longrightarrow> u_b64_encode U b \<noteq> []) \<and> (\<forall>b. list_all url_safe (u_b64_encode U b)) \<and>
     (\<forall>b. u_b64_decode U (u_b64_encode U b) = Some b)"

datatype uri_error =
    UE_InvalidScheme
  | UE_UserInfoNotAllowed
  | UE_FragmentNotAllowed
  | UE_PathNotAllowed
  | UE_MalformedOnionAddress
  | UE_InvalidOnionAlphabet
  | UE_MissingPort
  | UE_InvalidPort
  | UE_MissingVersion
  | UE_InvalidVersion
  | UE_UnsupportedVersion u8
  | UE_MissingToken
  | UE_InvalidToken
  | UE_InvalidTokenLength nat
  | UE_UnknownQueryParameter rstring
  | UE_DuplicateQueryParameter rstring
  | UE_InvalidQueryParameter rstring

definition INVITATION_SCHEME :: rstring where "INVITATION_SCHEME = rs ''veilroom''"
definition URI_PARAM_VERSION :: rstring where "URI_PARAM_VERSION = rs ''v''"
definition URI_PARAM_TOKEN :: rstring where "URI_PARAM_TOKEN = rs ''token''"
definition ONION_V3_BODY_LENGTH :: nat where "ONION_V3_BODY_LENGTH = 56"
definition ONION_V3_SUFFIX :: rstring where "ONION_V3_SUFFIX = rs ''.onion''"
definition ONION_V3_ALPHABET :: rstring where
  "ONION_V3_ALPHABET = rs ''abcdefghijklmnopqrstuvwxyz234567''"

section \<open>String functions\<close>

text \<open>\<open>str::find\<close> of a pattern with the slices before it and after it.\<close>

fun split_at_str :: "rstring \<Rightarrow> rstring \<Rightarrow> (rstring \<times> rstring) option" where
  "split_at_str p [] = (if p = [] then Some ([], []) else None)"
| "split_at_str p (c # s) =
     (if take (length p) (c # s) = p then Some ([], drop (length p) (c # s))
      else map_option (\<lambda>(a, b). (c # a, b)) (split_at_str p s))"

definition split_once :: "nat \<Rightarrow> rstring \<Rightarrow> (rstring \<times> rstring) option" where
  "split_once c s = split_at_str [c] s"

fun rsplit_once :: "nat \<Rightarrow> rstring \<Rightarrow> (rstring \<times> rstring) option" where
  "rsplit_once d [] = None"
| "rsplit_once d (c # s) =
     (case rsplit_once d s of
        Some (a, b) \<Rightarrow> Some (c # a, b)
      | None \<Rightarrow> if c = d then Some ([], s) else None)"

definition strip_prefix :: "rstring \<Rightarrow> rstring \<Rightarrow> rstring option" where
  "strip_prefix p s = (if prefix p s then Some (drop (length p) s) else None)"

definition strip_suffix :: "rstring \<Rightarrow> rstring \<Rightarrow> rstring option" where
  "strip_suffix t s =
     (let n = length s - length t
      in if length t \<le> length s \<and> drop n s = t then Some (take n s) else None)"

section \<open>Onion addresses\<close>

text \<open>
  The base32 decoder: a \<open>u32\<close> accumulator and the number of bits in it. One character adds five
  bits, so at most one byte is ready after it.
\<close>

definition base32_value :: "nat \<Rightarrow> u32 option" where
  "base32_value c =
     (if 0x61 \<le> c \<and> c \<le> 0x7A then Some (word_of_nat (c - 0x61))
      else if 0x32 \<le> c \<and> c \<le> 0x37 then Some (word_of_nat (c - 0x32 + 26))
      else None)"

definition base32_push :: "u32 \<Rightarrow> u32 \<Rightarrow> nat \<Rightarrow> bytes \<times> u32 \<times> nat" where
  "base32_push v acc bits =
     (let acc = push_bit 5 acc OR v; bits = bits + 5
      in if bits \<ge> 8 then
           ([ucast (drop_bit (bits - 8) acc)], acc AND (push_bit (bits - 8) 1 - 1), bits - 8)
         else ([], acc, bits))"

fun decode_base32_from :: "rstring \<Rightarrow> u32 \<Rightarrow> nat \<Rightarrow> bytes option" where
  "decode_base32_from [] acc bits = (if bits \<noteq> 0 \<and> acc \<noteq> 0 then None else Some [])"
| "decode_base32_from (c # s) acc bits =
     (case base32_value c of
        None \<Rightarrow> None
      | Some v \<Rightarrow>
          (case base32_push v acc bits of (out, acc', bits') \<Rightarrow>
             map_option ((@) out) (decode_base32_from s acc' bits')))"

definition decode_base32 :: "rstring \<Rightarrow> bytes option" where
  "decode_base32 s = decode_base32_from s 0 0"

definition is_valid_onion_v3_body :: "uri_env \<Rightarrow> rstring \<Rightarrow> bool" where
  "is_valid_onion_v3_body U body =
     (case decode_base32 body of
        None \<Rightarrow> False
      | Some decoded \<Rightarrow>
          length decoded = 35 \<and> decoded ! 34 = 3 \<and>
          take 2 (drop 32 decoded) =
            take 2 (u_sha3_256 U (utf8 (rs ''.onion checksum'') @ take 32 decoded @ [3])))"

definition validate_onion_address :: "uri_env \<Rightarrow> rstring \<Rightarrow> uri_error + unit" where
  "validate_onion_address U address =
     (case strip_suffix ONION_V3_SUFFIX address of
        None \<Rightarrow> Inl UE_MalformedOnionAddress
      | Some body \<Rightarrow>
          if str_len body \<noteq> ONION_V3_BODY_LENGTH then Inl UE_MalformedOnionAddress
          else if \<not> list_all (\<lambda>c. c \<in> set ONION_V3_ALPHABET) body then Inl UE_InvalidOnionAlphabet
          else if \<not> is_valid_onion_v3_body U body then Inl UE_MalformedOnionAddress
          else Inr ())"

section \<open>Invitations\<close>

record invitation =
  inv_onion_address :: rstring
  inv_port :: u16
  inv_token :: bytes

definition invitation_new :: "uri_env \<Rightarrow> rstring \<Rightarrow> u16 \<Rightarrow> bytes \<Rightarrow> uri_error + invitation" where
  "invitation_new U onion port token =
     bindE (validate_onion_address U onion) (\<lambda>_.
     if port = 0 then Inl UE_InvalidPort
     else if \<not> (MIN_TOKEN_BYTES \<le> length token \<and> length token \<le> MAX_TOKEN_BYTES) then
       Inl (UE_InvalidTokenLength (length token))
     else Inr \<lparr>inv_onion_address = onion, inv_port = port, inv_token = token\<rparr>)"

definition to_uri_string :: "uri_env \<Rightarrow> invitation \<Rightarrow> rstring" where
  "to_uri_string U i =
     INVITATION_SCHEME @ rs ''://'' @ inv_onion_address i @ rs '':'' @ dec (unat (inv_port i)) @
     rs ''?'' @ URI_PARAM_VERSION @ rs ''='' @ dec (unat PROTOCOL_MAJOR_VERSION) @
     rs ''&'' @ URI_PARAM_TOKEN @ rs ''='' @ u_b64_encode U (inv_token i)"

definition parse_port :: "rstring \<Rightarrow> uri_error + u16" where
  "parse_port s =
     (if s = [] then Inl UE_MissingPort
      else if \<not> list_all is_digit s then Inl UE_InvalidPort
      else case parse_uint (2 ^ 16 - 1) s of
             None \<Rightarrow> Inl UE_InvalidPort
           | Some n \<Rightarrow> if n = 0 then Inl UE_InvalidPort else Inr (word_of_nat n))"

text \<open>One query parameter: the version and the token found so far and the names seen.\<close>

record query_state =
  qs_version :: "u8 option"
  qs_token :: "bytes option"
  qs_seen :: "rstring list"

definition read_parameter :: "uri_env \<Rightarrow> rstring \<Rightarrow> query_state \<Rightarrow> uri_error + query_state" where
  "read_parameter U parameter q =
     (case split_once 0x3D parameter of
        None \<Rightarrow> Inl (UE_InvalidQueryParameter parameter)
      | Some (name, value) \<Rightarrow>
          if name = [] \<or> value = [] then Inl (UE_InvalidQueryParameter name)
          else if name \<in> set (qs_seen q) then Inl (UE_DuplicateQueryParameter name)
          else
            let q = q\<lparr>qs_seen := qs_seen q @ [name]\<rparr>
            in if name = URI_PARAM_VERSION then
                 (if \<not> list_all is_digit value then Inl UE_InvalidVersion
                  else case parse_uint (2 ^ 8 - 1) value of
                         None \<Rightarrow> Inl UE_InvalidVersion
                       | Some v \<Rightarrow> Inr (q\<lparr>qs_version := Some (word_of_nat v)\<rparr>))
               else if name = URI_PARAM_TOKEN then
                 (case u_b64_decode U value of
                    None \<Rightarrow> Inl UE_InvalidToken
                  | Some decoded \<Rightarrow>
                      if \<not> (MIN_TOKEN_BYTES \<le> length decoded \<and> length decoded \<le> MAX_TOKEN_BYTES)
                      then Inl (UE_InvalidTokenLength (length decoded))
                      else Inr (q\<lparr>qs_token := Some decoded\<rparr>))
               else Inl (UE_UnknownQueryParameter name))"

fun read_parameters :: "uri_env \<Rightarrow> rstring list \<Rightarrow> query_state \<Rightarrow> uri_error + query_state" where
  "read_parameters U [] q = Inr q"
| "read_parameters U (p # ps) q = bindE (read_parameter U p q) (read_parameters U ps)"

definition parse_invitation :: "uri_env \<Rightarrow> rstring \<Rightarrow> uri_error + invitation" where
  "parse_invitation U input =
     (if 0x23 \<in> set input then Inl UE_FragmentNotAllowed
      else case split_at_str (rs ''://'') input of
        None \<Rightarrow> Inl UE_InvalidScheme
      | Some (scheme, rest) \<Rightarrow>
          if 0x40 \<in> set scheme \<or> 0x3A \<in> set scheme then Inl UE_UserInfoNotAllowed
          else if scheme \<noteq> INVITATION_SCHEME then Inl UE_InvalidScheme
          else
            let (authority, query) = (case split_once 0x3F rest of Some p \<Rightarrow> p | None \<Rightarrow> (rest, []))
            in if 0x2F \<in> set authority then Inl UE_PathNotAllowed
               else bindE (ok_or UE_MissingPort (rsplit_once 0x3A authority)) (\<lambda>(host, port_text).
                 bindE (validate_onion_address U host) (\<lambda>_.
                 bindE (parse_port port_text) (\<lambda>port.
                 if query = [] then Inl UE_MissingVersion
                 else bindE (read_parameters U (split_on 0x26 query)
                        \<lparr>qs_version = None, qs_token = None, qs_seen = []\<rparr>) (\<lambda>q.
                   bindE (ok_or UE_MissingVersion (qs_version q)) (\<lambda>version.
                   if version \<noteq> PROTOCOL_MAJOR_VERSION then Inl (UE_UnsupportedVersion version)
                   else bindE (ok_or UE_MissingToken (qs_token q)) (\<lambda>token.
                     Inr \<lparr>inv_onion_address = host, inv_port = port, inv_token = token\<rparr>)))))))"

section \<open>Finding separators\<close>

lemma split_once_at: "c \<notin> set a \<Longrightarrow> split_once c (a @ c # b) = Some (a, b)"
  unfolding split_once_def by (induction a) auto

lemma split_once_none: "c \<notin> set s \<Longrightarrow> split_once c s = None"
  unfolding split_once_def by (induction s) auto

lemma split_at_str_first: "hd p \<notin> set a \<Longrightarrow> p \<noteq> [] \<Longrightarrow> split_at_str p (a @ p @ b) = Some (a, b)"
  by (induction a) (cases p; auto)+

lemma rsplit_once_none: "c \<notin> set s \<Longrightarrow> rsplit_once c s = None"
  by (induction s) auto

lemma rsplit_once_at: "c \<notin> set b \<Longrightarrow> rsplit_once c (a @ c # b) = Some (a, b)"
  by (induction a) (simp_all add: rsplit_once_none)

lemma split_on_none: "d \<notin> set s \<Longrightarrow> split_on d s = [s]"
  by (induction s) auto

lemma split_on_at: "d \<notin> set a \<Longrightarrow> split_on d (a @ d # b) = a # split_on d b"
  by (induction a) auto

section \<open>Round trip\<close>

text \<open>The characters of a valid address: lowercase letters, digits and the dot.\<close>

lemma valid_onion_chars:
  assumes "validate_onion_address U a = Inr ()" and "c \<in> set a"
  shows "0x61 \<le> c \<and> c \<le> 0x7A \<or> is_digit c \<or> c = 0x2E"
proof -
  from assms(1) obtain body where "strip_suffix ONION_V3_SUFFIX a = Some body"
    and body: "\<forall>c \<in> set body. c \<in> set ONION_V3_ALPHABET"
    by (auto simp: validate_onion_address_def list_all_iff split: option.splits if_splits)
  then have "a = body @ ONION_V3_SUFFIX"
    by (auto simp: strip_suffix_def Let_def split: if_splits) (metis append_take_drop_id)
  with assms(2) body have "c \<in> set ONION_V3_ALPHABET \<or> c \<in> set ONION_V3_SUFFIX" by auto
  then show ?thesis by (auto simp: ONION_V3_ALPHABET_def ONION_V3_SUFFIX_def rs_def is_digit_def)
qed

lemma dec_chars: "c \<in> set (dec n) \<Longrightarrow> is_digit c"
  using dec_digits [of n] by (auto simp: list_all_iff)

lemma parse_port_dec:
  assumes "port \<noteq> 0"
  shows "parse_port (dec (unat (port :: u16))) = Inr port"
proof -
  have "unat port \<le> 2 ^ 16 - 1" using unsigned_less [where ?'a = nat, of port] by simp
  moreover have "unat port \<noteq> 0" using assms by (simp add: unat_eq_0)
  ultimately show ?thesis
    using dec_digits [of "unat port"] parse_uint_dec [of "unat port" "2 ^ 16 - 1"] by (simp add: parse_port_def)
qed

lemma version_text: "dec (unat PROTOCOL_MAJOR_VERSION) = [0x31]"
  by (simp add: PROTOCOL_MAJOR_VERSION_def dec.simps)

lemma parse_query:
  assumes "uri_env_ok U" and "MIN_TOKEN_BYTES \<le> length token" and "length token \<le> MAX_TOKEN_BYTES"
  shows "read_parameters U
      (split_on 0x26 (URI_PARAM_VERSION @ [0x3D] @ [0x31] @ [0x26] @ URI_PARAM_TOKEN @ [0x3D] @ u_b64_encode U token))
      \<lparr>qs_version = None, qs_token = None, qs_seen = []\<rparr> =
    Inr \<lparr>qs_version = Some 1, qs_token = Some token, qs_seen = [URI_PARAM_VERSION, URI_PARAM_TOKEN]\<rparr>"
proof -
  let ?b = "u_b64_encode U token"
  have b: "list_all url_safe ?b" "u_b64_decode U ?b = Some token" using assms(1) by (simp_all add: uri_env_ok_def)
  have "token \<noteq> []" using assms(2) by (auto simp: MIN_TOKEN_BYTES_def)
  with assms(1) have ne: "?b \<noteq> []" by (simp add: uri_env_ok_def)
  have "\<forall>c \<in> set ?b. c \<noteq> 0x26" using b(1) by (fastforce simp: list_all_iff url_safe_def is_digit_def)
  then have amp: "0x26 \<notin> set (URI_PARAM_TOKEN @ [0x3D] @ ?b)" by (auto simp: URI_PARAM_TOKEN_def rs_def)
  have "split_on 0x26 ((URI_PARAM_VERSION @ [0x3D, 0x31]) @ 0x26 # URI_PARAM_TOKEN @ [0x3D] @ ?b) =
      [URI_PARAM_VERSION @ [0x3D, 0x31], URI_PARAM_TOKEN @ [0x3D] @ ?b]"
    by (subst split_on_at) (simp_all add: URI_PARAM_VERSION_def rs_def split_on_none [OF amp, simplified])
  moreover have "split_once 0x3D (URI_PARAM_VERSION @ 0x3D # [0x31]) = Some (URI_PARAM_VERSION, [0x31])"
    "split_once 0x3D (URI_PARAM_TOKEN @ 0x3D # ?b) = Some (URI_PARAM_TOKEN, ?b)"
    by (rule split_once_at, simp add: URI_PARAM_VERSION_def URI_PARAM_TOKEN_def rs_def)+
  moreover have "URI_PARAM_TOKEN \<noteq> URI_PARAM_VERSION" "URI_PARAM_VERSION \<noteq> []" "URI_PARAM_TOKEN \<noteq> []"
    by (simp_all add: URI_PARAM_VERSION_def URI_PARAM_TOKEN_def rs_def)
  moreover have "parse_uint 255 [0x31] = Some 1" by (simp add: parse_uint_def is_digit_def digits_value_def)
  ultimately show ?thesis
    using ne b assms(2,3) by (simp add: read_parameter_def is_digit_def)
qed

lemma invitation_new_eq:
  "invitation_new U onion port token = Inr i \<longleftrightarrow>
     validate_onion_address U onion = Inr () \<and> port \<noteq> 0 \<and> MIN_TOKEN_BYTES \<le> length token \<and>
     length token \<le> MAX_TOKEN_BYTES \<and> i = \<lparr>inv_onion_address = onion, inv_port = port, inv_token = token\<rparr>"
  by (auto simp: invitation_new_def bindE_eq_Inr)

lemma parse_printed:
  assumes "uri_env_ok U" and "invitation_new U onion port token = Inr i"
  shows "parse_invitation U (to_uri_string U i) = Inr i"
proof -
  from assms(2) have on: "validate_onion_address U onion = Inr ()" and port: "port \<noteq> 0"
    and len: "MIN_TOKEN_BYTES \<le> length token" "length token \<le> MAX_TOKEN_BYTES"
    and i: "i = \<lparr>inv_onion_address = onion, inv_port = port, inv_token = token\<rparr>" by (simp_all add: invitation_new_eq)
  let ?p = "dec (unat port)" and ?b = "u_b64_encode U token"
  let ?query = "URI_PARAM_VERSION @ [0x3D] @ [0x31] @ [0x26] @ URI_PARAM_TOKEN @ [0x3D] @ ?b"
  let ?rest = "(onion @ [0x3A] @ ?p) @ 0x3F # ?query"
  have uri: "to_uri_string U i = INVITATION_SCHEME @ rs ''://'' @ ?rest"
    by (simp add: to_uri_string_def i version_text rs_def)
  have oc: "c \<notin> set onion" if "c = 0x23 \<or> c = 0x2F \<or> c = 0x3A \<or> c = 0x3F" for c
    using valid_onion_chars [OF on, of c] that by (auto simp: is_digit_def)
  have pc: "c \<notin> set ?p" if "c = 0x23 \<or> c = 0x2F \<or> c = 0x3A \<or> c = 0x3F" for c
    using dec_chars [of c "unat port"] that by (auto simp: is_digit_def)
  have "\<forall>c \<in> set ?b. c \<noteq> 0x23" using assms(1) by (fastforce simp: uri_env_ok_def list_all_iff url_safe_def is_digit_def)
  then have frag: "0x23 \<notin> set (to_uri_string U i)"
    using oc pc by (auto simp: uri INVITATION_SCHEME_def URI_PARAM_VERSION_def URI_PARAM_TOKEN_def rs_def)
  have scheme: "split_at_str (rs ''://'') (to_uri_string U i) = Some (INVITATION_SCHEME, ?rest)"
    unfolding uri by (rule split_at_str_first) (simp_all add: INVITATION_SCHEME_def rs_def)
  have query: "split_once 0x3F ?rest = Some (onion @ [0x3A] @ ?p, ?query)"
    using oc pc by (intro split_once_at) auto
  have host: "rsplit_once 0x3A (onion @ [0x3A] @ ?p) = Some (onion, ?p)"
    using pc rsplit_once_at [of "0x3A" ?p onion] by simp
  have plain: "0x40 \<notin> set INVITATION_SCHEME" "0x3A \<notin> set INVITATION_SCHEME" "0x2F \<notin> set (onion @ [0x3A] @ ?p)"
    "?query \<noteq> []" using oc pc by (auto simp: INVITATION_SCHEME_def rs_def)
  show ?thesis
    unfolding parse_invitation_def scheme option.case prod.case query if_not_P [OF frag] Let_def
    using plain on parse_port_dec [OF port] parse_query [OF assms(1) len]
    by (simp add: host [simplified] i PROTOCOL_MAJOR_VERSION_def)
qed

lemma read_parameter_token:
  "read_parameter U p q = Inr q' \<Longrightarrow>
   (\<forall>t. qs_token q = Some t \<longrightarrow> MIN_TOKEN_BYTES \<le> length t \<and> length t \<le> MAX_TOKEN_BYTES) \<Longrightarrow>
   \<forall>t. qs_token q' = Some t \<longrightarrow> MIN_TOKEN_BYTES \<le> length t \<and> length t \<le> MAX_TOKEN_BYTES"
  by (auto simp: read_parameter_def Let_def split: option.splits if_splits)

lemma read_parameters_token:
  "read_parameters U ps q = Inr q' \<Longrightarrow>
   \<forall>t. qs_token q = Some t \<longrightarrow> MIN_TOKEN_BYTES \<le> length t \<and> length t \<le> MAX_TOKEN_BYTES \<Longrightarrow>
   \<forall>t. qs_token q' = Some t \<longrightarrow> MIN_TOKEN_BYTES \<le> length t \<and> length t \<le> MAX_TOKEN_BYTES"
proof (induction ps arbitrary: q)
  case Nil
  then show ?case by simp
next
  case (Cons p ps)
  from Cons.prems(1) obtain q1 where "read_parameter U p q = Inr q1" "read_parameters U ps q1 = Inr q'"
    by (auto simp: bindE_eq_Inr)
  with Cons.IH Cons.prems(2) read_parameter_token show ?case by metis
qed

lemma parse_port_range: "parse_port s = Inr p \<Longrightarrow> p \<noteq> 0"
  by (auto simp: parse_port_def word_unat_eq_iff [where 'a = 16] unat_of_nat dest!: parse_uint_bound
      split: option.splits if_splits)

text \<open>
  C38: an invitation that the constructor accepts prints to a URI that parses back to it, and
  whatever text is parsed successfully gives an invitation that the constructor accepts (a v3
  onion address with a correct checksum, a port that is not 0, a token of 16 to 32 bytes), so that
  its printed form parses to the same invitation.
\<close>

theorem invitation_roundtrip:
  assumes "uri_env_ok U"
  shows "(invitation_new U onion port token = Inr i \<longrightarrow> parse_invitation U (to_uri_string U i) = Inr i) \<and>
    (parse_invitation U s = Inr j \<longrightarrow>
      invitation_new U (inv_onion_address j) (inv_port j) (inv_token j) = Inr j \<and>
      parse_invitation U (to_uri_string U j) = Inr j)"
proof -
  have "invitation_new U (inv_onion_address j) (inv_port j) (inv_token j) = Inr j"
    if parsed: "parse_invitation U s = Inr j"
  proof -
    from parsed obtain host port_text port query q token where
      v: "validate_onion_address U host = Inr ()" "parse_port port_text = Inr port"
      "read_parameters U query \<lparr>qs_version = None, qs_token = None, qs_seen = []\<rparr> = Inr q" "qs_token q = Some token"
      and j: "j = \<lparr>inv_onion_address = host, inv_port = port, inv_token = token\<rparr>"
      by (auto simp: parse_invitation_def bindE_eq_Inr split: option.splits if_splits prod.splits)
    with parse_port_range [OF v(2)] read_parameters_token [OF v(3)] show ?thesis
      by (simp add: invitation_new_eq)
  qed
  with parse_printed [OF assms] show ?thesis by blast
qed

text \<open>
  The address of the source's tests with a hash that makes its checksum right, and a base64 that
  spells a byte by two letters.
\<close>

definition demo_uri_env :: uri_env where
  "demo_uri_env =
     \<lparr>u_b64_encode = (\<lambda>b. concat (map (\<lambda>x. [0x61 + unat x div 16, 0x61 + unat x mod 16]) b)),
      u_b64_decode = (\<lambda>s. Some (map (\<lambda>k. word_of_nat ((s ! (2 * k) - 0x61) * 16 + (s ! (2 * k + 1) - 0x61)))
         [0..<length s div 2])),
      u_sha3_256 = (\<lambda>_. [0xCD, 0x0E])\<rparr>"

lemma demo_uri_env_ok: "uri_env_ok demo_uri_env"
proof -
  have len: "length (u_b64_encode demo_uri_env b) = 2 * length b" for b
    by (induction b) (simp_all add: demo_uri_env_def)
  have nth: "u_b64_encode demo_uri_env b ! (2 * k) = 0x61 + unat (b ! k) div 16 \<and>
      u_b64_encode demo_uri_env b ! (2 * k + 1) = 0x61 + unat (b ! k) mod 16" if "k < length b" for b k
    using that
  proof (induction b arbitrary: k)
    case Nil
    then show ?case by simp
  next
    case (Cons x b)
    then show ?case by (cases k) (simp_all add: demo_uri_env_def)
  qed
  have "u_b64_decode demo_uri_env (u_b64_encode demo_uri_env b) = Some b" for b
  proof -
    have val: "(u_b64_encode demo_uri_env b ! (2 * k) - 0x61) * 16 + (u_b64_encode demo_uri_env b ! (2 * k + 1) - 0x61) =
      unat (b ! k)" if "k < length b" for k using nth [OF that] by simp
    have "map (\<lambda>k. word_of_nat ((u_b64_encode demo_uri_env b ! (2 * k) - 0x61) * 16 +
        (u_b64_encode demo_uri_env b ! (2 * k + 1) - 0x61))) [0..<length b] = map ((!) b) [0..<length b]"
      by (intro map_cong refl) (simp only: val set_upt atLeastLessThan_iff of_nat_unat ucast_id)
    then show ?thesis using len [of b] by (simp add: demo_uri_env_def map_nth)
  qed
  moreover have "list_all url_safe (u_b64_encode demo_uri_env b)" for b
  proof -
    have "unat x div 16 \<le> 25" for x :: u8 using unsigned_less [where ?'a = nat, of x] by simp
    then show ?thesis by (auto simp: demo_uri_env_def list_all_iff url_safe_def)
  qed
  moreover have "u_b64_encode demo_uri_env b \<noteq> []" if "b \<noteq> []" for b
    using len [of b] that by auto
  ultimately show ?thesis by (simp add: uri_env_ok_def)
qed

definition demo_onion :: rstring where
  "demo_onion = rs ''aaaaaaaaaaaaaaaaaaaaaaaaaaaaaaaaaaaaaaaaaaaaaaaaaaam2dqd.onion''"

lemma demo_onion_valid: "validate_onion_address demo_uri_env demo_onion = Inr ()"
  by code_simp

lemma invitation_roundtrip_witness:
  "\<exists>i. invitation_new demo_uri_env demo_onion 443 (replicate 16 0x78) = Inr i \<and>
     parse_invitation demo_uri_env (to_uri_string demo_uri_env i) = Inr i"
proof -
  let ?i = "\<lparr>inv_onion_address = demo_onion, inv_port = 443, inv_token = replicate 16 (0x78 :: u8)\<rparr>"
  have i: "invitation_new demo_uri_env demo_onion 443 (replicate 16 0x78) = Inr ?i"
    by (simp add: invitation_new_eq demo_onion_valid MIN_TOKEN_BYTES_def MAX_TOKEN_BYTES_def)
  with invitation_roundtrip [OF demo_uri_env_ok, of demo_onion 443 "replicate 16 0x78" ?i] show ?thesis by blast
qed

end
