(* ===== verification/Admission.thy ===== *)
theory Admission
  imports Password ChatSession Uri "HOL-Library.Sublist"
begin

text \<open>
  The admission flows of one connection (\<open>admission/mod.rs\<close>, \<open>admission/host.rs\<close>,
  \<open>admission/client.rs\<close>). \<open>host_admission\<close> and \<open>client_admission\<close> have the sources' fields and the
  random outcomes still to come. Every method is one definition; the ones on \<open>&mut self\<close> return
  the state too, as it is on an early return.
\<close>

datatype admission_error =
    AE_RoomLocked
  | AE_QueueFull
  | AE_UnknownRequest u64
  | AE_InvalidToken
  | AE_InvalidPasswordProof
  | AE_InvalidHostSignature
  | AE_InvalidJoinSignature
  | AE_UnexpectedMessage
  | AE_UnsupportedVersion u8
  | AE_UnsupportedFeatures u32
  | AE_Rejected "rstring option"
  | AE_HostError error_code "rstring option"
  | AE_Protocol protocol_error
  | AE_Crypto crypto_error

fun admission_error_code :: "admission_error \<Rightarrow> error_code" where
  "admission_error_code AE_RoomLocked = EC_RoomLocked"
| "admission_error_code AE_InvalidToken = EC_InvalidInvitation"
| "admission_error_code AE_InvalidPasswordProof = EC_InvalidPasswordProof"
| "admission_error_code (AE_UnsupportedVersion _) = EC_UnsupportedVersion"
| "admission_error_code _ = EC_ProtocolViolation"

section \<open>The host's side\<close>

datatype host_admission_reply =
    HR_Message message
  | HR_JoinRequested join_application

datatype host_state = HS_AwaitingHello | HS_AwaitingToken | HS_AwaitingProof | HS_AwaitingJoinForm | HS_Decided

record host_admission =
  ha_room_session_id :: bytes
  ha_server_nonce :: bytes
  ha_token :: bytes
  ha_verifier :: password_verifier
  ha_host_identity :: identity
  ha_onion_address :: rstring
  ha_client_nonce :: "bytes option"
  ha_challenge_nonce :: "bytes option"
  ha_state :: host_state
  ha_entropy :: entropy

type_synonym 'a host_result = "(admission_error + 'a) \<times> host_admission"

definition host_admission_new :: "bytes \<Rightarrow> bytes \<Rightarrow> password_verifier \<Rightarrow> identity \<Rightarrow> rstring \<Rightarrow> entropy \<Rightarrow>
    crypto_error + host_admission" where
  "host_admission_new session token v host onion es =
     (case fill_random NONCE_LEN es of
        (Inl e, _) \<Rightarrow> Inl e
      | (Inr nonce, es1) \<Rightarrow>
          Inr \<lparr>ha_room_session_id = session, ha_server_nonce = nonce, ha_token = token,
               ha_verifier = v, ha_host_identity = host, ha_onion_address = onion,
               ha_client_nonce = None, ha_challenge_nonce = None, ha_state = HS_AwaitingHello,
               ha_entropy = es1\<rparr>)"

definition hello_input :: "crypto \<Rightarrow> client_hello \<Rightarrow> u16 \<Rightarrow> host_admission \<Rightarrow> host_hello_input" where
  "hello_input C hello port h =
     \<lparr>hi_version = 1, hi_onion_address = ha_onion_address h, hi_virtual_port = port,
      hi_room_session_id = ha_room_session_id h,
      hi_host_ed25519_pubkey = identity_ed25519_pubkey C (ha_host_identity h),
      hi_host_x25519_pubkey = identity_x25519_pubkey C (ha_host_identity h),
      hi_client_nonce = ch_client_nonce hello, hi_server_nonce = ha_server_nonce h,
      hi_token_hash = sha256 C (ha_token h), hi_offered_version = ch_version hello,
      hi_client_features = ch_features hello\<rparr>"

definition on_client_hello :: "crypto \<Rightarrow> client_hello \<Rightarrow> u16 \<Rightarrow> host_admission \<Rightarrow> message host_result" where
  "on_client_hello C hello port h =
     (if ha_state h \<noteq> HS_AwaitingHello then (Inl AE_UnexpectedMessage, h)
      else if ch_version hello \<noteq> 1 then (Inl (AE_UnsupportedVersion (ch_version hello)), h)
      else if ch_features hello \<noteq> 0 then (Inl (AE_UnsupportedFeatures (ch_features hello)), h)
      else
        (Inr (M_HostHello
           \<lparr>hh_version = 1, hh_room_session_id = ha_room_session_id h,
            hh_host_ed25519_pubkey = identity_ed25519_pubkey C (ha_host_identity h),
            hh_host_x25519_pubkey = identity_x25519_pubkey C (ha_host_identity h),
            hh_server_nonce = ha_server_nonce h,
            hh_host_signature = identity_sign C (ha_host_identity h)
              (host_hello_transcript (hello_input C hello port h))\<rparr>),
         h\<lparr>ha_client_nonce := Some (ch_client_nonce hello), ha_state := HS_AwaitingToken\<rparr>))"

definition constant_time_eq :: "bytes \<Rightarrow> bytes \<Rightarrow> bool" where
  "constant_time_eq left right = (if length left \<noteq> length right then False else left = right)"

lemma constant_time_eq_iff [simp]: "constant_time_eq l r \<longleftrightarrow> l = r"
  by (auto simp: constant_time_eq_def)

definition handle_token :: "token_verify \<Rightarrow> host_admission \<Rightarrow> host_admission_reply option host_result" where
  "handle_token verify h =
     (if \<not> constant_time_eq (tv_token verify) (ha_token h) then (Inl AE_InvalidToken, h)
      else
        (case fill_random NONCE_LEN (ha_entropy h) of
           (Inl e, es) \<Rightarrow> (Inl (AE_Crypto e), h\<lparr>ha_entropy := es\<rparr>)
         | (Inr nonce, es) \<Rightarrow>
             (Inr (Some (HR_Message (M_PasswordChallenge
                \<lparr>pc_m_cost = pv_m_cost (ha_verifier h), pc_t_cost = pv_t_cost (ha_verifier h),
                 pc_p_cost = pv_p_cost (ha_verifier h), pc_salt = pv_salt (ha_verifier h),
                 pc_challenge_nonce = nonce\<rparr>))),
              h\<lparr>ha_challenge_nonce := Some nonce, ha_state := HS_AwaitingProof, ha_entropy := es\<rparr>)))"

definition handle_proof :: "kdf \<Rightarrow> challenge_proof \<Rightarrow> host_admission \<Rightarrow> host_admission_reply option host_result" where
  "handle_proof K proof h =
     (case ha_challenge_nonce h of
        None \<Rightarrow> (Inl AE_UnexpectedMessage, h)
      | Some challenge_nonce \<Rightarrow>
          (case ha_client_nonce h of
             None \<Rightarrow> (Inl AE_UnexpectedMessage, h)
           | Some client_nonce \<Rightarrow>
               if \<not> verify_proof K (ha_verifier h) challenge_nonce client_nonce (cp_proof proof)
               then (Inl AE_InvalidPasswordProof, h)
               else (Inr None, h\<lparr>ha_state := HS_AwaitingJoinForm\<rparr>)))"

definition join_input :: "crypto \<Rightarrow> join_request_msg \<Rightarrow> bytes \<Rightarrow> host_admission \<Rightarrow> join_request_input" where
  "join_input C request client_nonce h =
     \<lparr>ji_version = 1, ji_room_session_id = ha_room_session_id h, ji_client_nonce = client_nonce,
      ji_server_nonce = ha_server_nonce h, ji_nickname = jr_nickname request,
      ji_introduction_hash = sha256 C (utf8 (case jr_introduction request of Some s \<Rightarrow> s | None \<Rightarrow> [])),
      ji_ed25519_pubkey = jr_ed25519_pubkey request, ji_x25519_pubkey = jr_x25519_pubkey request,
      ji_onion_address = ha_onion_address h, ji_token_hash = sha256 C (ha_token h)\<rparr>"

definition application_of :: "join_request_msg \<Rightarrow> join_application" where
  "application_of request =
     \<lparr>ap_nickname = jr_nickname request, ap_introduction = jr_introduction request,
      ap_ed25519_pubkey = jr_ed25519_pubkey request, ap_x25519_pubkey = jr_x25519_pubkey request,
      ap_signature = jr_signature request\<rparr>"

definition handle_join_request ::
  "crypto \<Rightarrow> join_request_msg \<Rightarrow> join_policy \<Rightarrow> host_admission \<Rightarrow> host_admission_reply option host_result" where
  "handle_join_request C request policy h =
     (case ha_client_nonce h of
        None \<Rightarrow> (Inl AE_UnexpectedMessage, h)
      | Some client_nonce \<Rightarrow>
          if \<not> verify_ed25519 C (jr_ed25519_pubkey request)
                 (join_request_transcript (join_input C request client_nonce h)) (jr_signature request)
          then (Inl AE_InvalidJoinSignature, h)
          else case try_wrap_key_for C (ha_host_identity h) (jr_x25519_pubkey request)
                      (ha_room_session_id h) 0 of
                 Inl e \<Rightarrow> (Inl (AE_Crypto e), h)
               | Inr _ \<Rightarrow>
                   if \<not> allows_join_requests policy then (Inl AE_RoomLocked, h)
                   else (Inr (Some (HR_JoinRequested (application_of request))),
                         h\<lparr>ha_state := HS_Decided, ha_token := []\<rparr>))"

definition host_on_message :: "crypto \<Rightarrow> kdf \<Rightarrow> message \<Rightarrow> join_policy \<Rightarrow> host_admission \<Rightarrow>
    host_admission_reply option host_result" where
  "host_on_message C K msg policy h =
     (case (ha_state h, msg) of
        (HS_AwaitingToken, M_TokenVerify verify) \<Rightarrow> handle_token verify h
      | (HS_AwaitingProof, M_ChallengeProof proof) \<Rightarrow> handle_proof K proof h
      | (HS_AwaitingJoinForm, M_JoinRequest request) \<Rightarrow> handle_join_request C request policy h
      | _ \<Rightarrow> (Inl AE_UnexpectedMessage, h))"

definition host_accept :: "u64 \<Rightarrow> host_admission \<Rightarrow> message" where
  "host_accept member_id h = M_JoinAccepted \<lparr>ja_member_id = member_id\<rparr>"

definition host_reject :: "rstring option \<Rightarrow> host_admission \<Rightarrow> admission_error + message" where
  "host_reject reason h = bindE (map_errE AE_Protocol (join_rejected_new reason)) (\<lambda>m. Inr (M_JoinRejected m))"

section \<open>The participant's side\<close>

record host_hello_info =
  hhi_room_session_id :: bytes
  hhi_host_ed25519_pubkey :: bytes
  hhi_host_x25519_pubkey :: bytes
  hhi_signature :: bytes

datatype client_state =
  CS_AwaitingHostHello | CS_AwaitingChallenge | CS_AwaitingJoinForm | CS_AwaitingDecision | CS_Admitted

record client_admission =
  ca_invitation :: invitation
  ca_password :: bytes
  ca_identity :: identity
  ca_client_nonce :: bytes
  ca_server_nonce :: "bytes option"
  ca_host_hello :: "host_hello_info option"
  ca_member_id :: "u64 option"
  ca_chat :: "chat_session option"
  ca_state :: client_state
  ca_entropy :: entropy

type_synonym 'a client_result = "(admission_error + 'a) \<times> client_admission"

definition client_admission_new :: "invitation \<Rightarrow> bytes \<Rightarrow> entropy \<Rightarrow> crypto_error + client_admission" where
  "client_admission_new invite password es =
     (case identity_generate es of
        (Inl e, _) \<Rightarrow> Inl e
      | (Inr i, es1) \<Rightarrow>
          (case fill_random NONCE_LEN es1 of
             (Inl e, _) \<Rightarrow> Inl e
           | (Inr nonce, es2) \<Rightarrow>
               Inr \<lparr>ca_invitation = invite, ca_password = password, ca_identity = i,
                    ca_client_nonce = nonce, ca_server_nonce = None, ca_host_hello = None,
                    ca_member_id = None, ca_chat = None, ca_state = CS_AwaitingHostHello,
                    ca_entropy = es2\<rparr>))"

definition is_admitted :: "client_admission \<Rightarrow> bool" where
  "is_admitted c \<longleftrightarrow> ca_state c = CS_Admitted"

definition client_timeout_kind :: "client_admission \<Rightarrow> timeout_kind" where
  "client_timeout_kind c =
     (case ca_state c of
        CS_AwaitingHostHello \<Rightarrow> TK_ProtocolHandshake
      | CS_AwaitingChallenge \<Rightarrow> TK_TokenValidation
      | CS_AwaitingJoinForm \<Rightarrow> TK_JoinFormSubmission
      | CS_AwaitingDecision \<Rightarrow> TK_HostDecision
      | CS_Admitted \<Rightarrow> TK_Keepalive)"

definition first_message :: "client_admission \<Rightarrow> message" where
  "first_message c =
     M_ClientHello \<lparr>ch_version = 1, ch_client_nonce = ca_client_nonce c, ch_features = 0\<rparr>"

definition expected_hello :: "crypto \<Rightarrow> host_hello \<Rightarrow> client_admission \<Rightarrow> host_hello_input" where
  "expected_hello C hello c =
     \<lparr>hi_version = 1, hi_onion_address = inv_onion_address (ca_invitation c),
      hi_virtual_port = inv_port (ca_invitation c), hi_room_session_id = hh_room_session_id hello,
      hi_host_ed25519_pubkey = hh_host_ed25519_pubkey hello,
      hi_host_x25519_pubkey = hh_host_x25519_pubkey hello, hi_client_nonce = ca_client_nonce c,
      hi_server_nonce = hh_server_nonce hello,
      hi_token_hash = sha256 C (inv_token (ca_invitation c)), hi_offered_version = 1,
      hi_client_features = 0\<rparr>"

definition handle_host_hello :: "crypto \<Rightarrow> host_hello \<Rightarrow> client_admission \<Rightarrow> message list client_result" where
  "handle_host_hello C hello c =
     (if hh_version hello \<noteq> 1 then (Inl (AE_UnsupportedVersion (hh_version hello)), c)
      else if \<not> verify_ed25519 C (hh_host_ed25519_pubkey hello)
                  (host_hello_transcript (expected_hello C hello c)) (hh_host_signature hello)
      then (Inl AE_InvalidHostSignature, c)
      else case try_wrap_key_for C (ca_identity c) (hh_host_x25519_pubkey hello)
                  (hh_room_session_id hello) 0 of
             Inl e \<Rightarrow> (Inl (AE_Crypto e), c)
           | Inr _ \<Rightarrow>
               (bindE (map_errE AE_Protocol (token_verify_new (inv_token (ca_invitation c))))
                  (\<lambda>m. Inr [M_TokenVerify m]),
                c\<lparr>ca_server_nonce := Some (hh_server_nonce hello),
                  ca_host_hello := Some
                    \<lparr>hhi_room_session_id = hh_room_session_id hello,
                     hhi_host_ed25519_pubkey = hh_host_ed25519_pubkey hello,
                     hhi_host_x25519_pubkey = hh_host_x25519_pubkey hello,
                     hhi_signature = hh_host_signature hello\<rparr>,
                  ca_state := CS_AwaitingChallenge\<rparr>))"

definition handle_challenge :: "kdf \<Rightarrow> password_challenge \<Rightarrow> client_admission \<Rightarrow> message list client_result" where
  "handle_challenge K challenge c =
     (if pc_m_cost challenge \<noteq> ARGON2_M_COST \<or> pc_t_cost challenge \<noteq> ARGON2_T_COST \<or>
         pc_p_cost challenge \<noteq> ARGON2_P_COST
      then (Inl AE_UnexpectedMessage, c)
      else case compute_password_proof K (ca_password c) (pc_salt challenge) (pc_m_cost challenge)
                  (pc_t_cost challenge) (pc_p_cost challenge) (pc_challenge_nonce challenge)
                  (ca_client_nonce c) of
             Inl e \<Rightarrow> (Inl (AE_Crypto e), c)
           | Inr proof \<Rightarrow>
               (Inr [M_ChallengeProof \<lparr>cp_proof = proof\<rparr>],
                c\<lparr>ca_password := [], ca_state := CS_AwaitingJoinForm\<rparr>))"

text \<open>\<open>join_request\<close> takes \<open>&self\<close>: the state is in a \<open>Cell\<close>.\<close>

definition client_join_request :: "(rstring \<Rightarrow> rstring) \<Rightarrow> crypto \<Rightarrow> rstring \<Rightarrow> rstring option \<Rightarrow>
    client_admission \<Rightarrow> message client_result" where
  "client_join_request nfc C nickname introduction c =
     (if ca_state c \<noteq> CS_AwaitingJoinForm then (Inl AE_UnexpectedMessage, c)
      else case ca_host_hello c of
        None \<Rightarrow> (Inl AE_UnexpectedMessage, c)
      | Some info \<Rightarrow>
          (case ca_server_nonce c of
             None \<Rightarrow> (Inl AE_UnexpectedMessage, c)
           | Some server_nonce \<Rightarrow>
               (case validate_nickname nfc nickname default_limits of
                  Inl e \<Rightarrow> (Inl (AE_Protocol (PE_Validation e)), c)
                | Inr nickname \<Rightarrow>
                    let transcript = join_request_transcript
                      \<lparr>ji_version = 1, ji_room_session_id = hhi_room_session_id info,
                       ji_client_nonce = ca_client_nonce c, ji_server_nonce = server_nonce,
                       ji_nickname = nickname,
                       ji_introduction_hash =
                         sha256 C (utf8 (case introduction of Some s \<Rightarrow> s | None \<Rightarrow> [])),
                       ji_ed25519_pubkey = identity_ed25519_pubkey C (ca_identity c),
                       ji_x25519_pubkey = identity_x25519_pubkey C (ca_identity c),
                       ji_onion_address = inv_onion_address (ca_invitation c),
                       ji_token_hash = sha256 C (inv_token (ca_invitation c))\<rparr>
                    in case join_request_new nfc nickname introduction
                              (identity_ed25519_pubkey C (ca_identity c))
                              (identity_x25519_pubkey C (ca_identity c))
                              (identity_sign C (ca_identity c) transcript) of
                         Inl e \<Rightarrow> (Inl (AE_Protocol e), c)
                       | Inr request \<Rightarrow>
                           (Inr (M_JoinRequest request), c\<lparr>ca_state := CS_AwaitingDecision\<rparr>))))"

definition handle_accepted :: "u64 \<Rightarrow> client_admission \<Rightarrow> message list client_result" where
  "handle_accepted member_id c =
     (let c1 = c\<lparr>ca_member_id := Some member_id, ca_state := CS_Admitted\<rparr>
      in (Inr [],
          case ca_host_hello c1 of
            None \<Rightarrow> c1
          | Some info \<Rightarrow>
              c1\<lparr>ca_chat := Some (session_new (hhi_room_session_id info) (hhi_host_ed25519_pubkey info)
                   (hhi_host_x25519_pubkey info) member_id (ca_entropy c1))\<rparr>))"

definition on_host_message :: "crypto \<Rightarrow> kdf \<Rightarrow> message \<Rightarrow> client_admission \<Rightarrow> message list client_result" where
  "on_host_message C K msg c =
     (case (ca_state c, msg) of
        (CS_AwaitingHostHello, M_HostHello hello) \<Rightarrow> handle_host_hello C hello c
      | (CS_AwaitingChallenge, M_PasswordChallenge challenge) \<Rightarrow> handle_challenge K challenge c
      | (CS_AwaitingDecision, M_JoinAccepted m) \<Rightarrow> handle_accepted (ja_member_id m) c
      | (CS_AwaitingDecision, M_JoinRejected m) \<Rightarrow> (Inl (AE_Rejected (jx_reason m)), c)
      | (_, M_Error m) \<Rightarrow> (Inl (AE_HostError (em_code m) (em_reason m)), c)
      | _ \<Rightarrow> (Inl AE_UnexpectedMessage, c))"

section \<open>After the admission\<close>

text \<open>The methods that need the chat session: an error without one, its result otherwise.\<close>

definition with_chat :: "'e \<Rightarrow> (chat_session \<Rightarrow> ('e + 'a) \<times> chat_session) \<Rightarrow> client_admission \<Rightarrow>
    ('e + 'a) \<times> client_admission" where
  "with_chat e f c =
     (case ca_chat c of
        None \<Rightarrow> (Inl e, c)
      | Some s \<Rightarrow> (case f s of (r, s') \<Rightarrow> (r, c\<lparr>ca_chat := Some s'\<rparr>)))"

definition on_epoch_wrap :: "crypto \<Rightarrow> epoch_wrap \<Rightarrow> client_admission \<Rightarrow> message client_result" where
  "on_epoch_wrap C w c =
     with_chat AE_UnexpectedMessage (\<lambda>s.
       case set_epoch_from_wrap C (ca_identity c) w s of
         (r, s') \<Rightarrow> (bindE (map_errE (\<lambda>_. AE_UnexpectedMessage) r)
                       (\<lambda>epoch. Inr (M_EpochAck \<lparr>ea_epoch = epoch\<rparr>)), s')) c"

definition set_view_color :: "color_choice \<Rightarrow> u64 \<Rightarrow> chat_session \<Rightarrow> chat_session" where
  "set_view_color color member_id s =
     (case session_member member_id s of
        None \<Rightarrow> s
      | Some m \<Rightarrow> install_member (m\<lparr>mv_color := color\<rparr>) s)"

definition hex_digit :: "nat \<Rightarrow> nat" where
  "hex_digit n = (if n < 10 then 0x30 + n else 0x61 + (n - 10))"

definition hex02 :: "u8 \<Rightarrow> rstring" where
  "hex02 b = [hex_digit (unat b div 16), hex_digit (unat b mod 16)]"

definition on_member_message :: "crypto \<Rightarrow> u8 \<Rightarrow> envelope \<Rightarrow> client_admission \<Rightarrow>
    (chat_error + rstring option) \<times> client_admission" where
  "on_member_message C message_type env c =
     with_chat ChE_NoEpochKey (\<lambda>s.
       if message_type = 0x40 then tryS (receive_chat C env s) (\<lambda>text s. (Inr (Some text), s))
       else if message_type = 0x41 then
         tryS (receive_color C env s) (\<lambda>color s. (Inr None, set_view_color color (env_sender_id env) s))
       else (Inl (ChE_InvalidPlaintext (rs ''not a chat-type message: 0x'' @ hex02 message_type)), s)) c"

definition on_membership_message :: "(rstring \<Rightarrow> rstring) \<Rightarrow> crypto \<Rightarrow> message \<Rightarrow> client_admission \<Rightarrow>
    (chat_error + unit) \<times> client_admission" where
  "on_membership_message nfc C msg c =
     with_chat ChE_NoEpochKey (\<lambda>s.
       case msg of
         M_MemberJoined ev \<Rightarrow> handle_member_joined nfc C ev s
       | M_MemberLeft ev \<Rightarrow>
           handle_member_gone C 0x21 (mg_sequence ev) (mg_epoch ev) (mg_member_id ev) (mg_signature ev) s
       | M_MemberKicked ev \<Rightarrow>
           handle_member_gone C 0x22 (mg_sequence ev) (mg_epoch ev) (mg_member_id ev) (mg_signature ev) s
       | M_MemberSnapshot ev \<Rightarrow> handle_member_snapshot nfc C ev s
       | M_JoinPolicyChanged ev \<Rightarrow> handle_membership_message nfc C (M_JoinPolicyChanged ev) s
       | _ \<Rightarrow> (Inl (ChE_InvalidPlaintext (rs ''not a membership message'')), s)) c"

definition client_send_chat :: "crypto \<Rightarrow> rstring \<Rightarrow> client_admission \<Rightarrow> (chat_error + message) \<times> client_admission" where
  "client_send_chat C text c = with_chat ChE_NoEpochKey (send_chat C (ca_identity c) text) c"

definition client_send_color :: "crypto \<Rightarrow> color_choice \<Rightarrow> client_admission \<Rightarrow> (chat_error + message) \<times> client_admission" where
  "client_send_color C color c = with_chat ChE_NoEpochKey (send_color C (ca_identity c) color) c"

definition client_send_timeout_request :: "crypto \<Rightarrow> u64 \<Rightarrow> client_admission \<Rightarrow>
    (chat_error + message) \<times> client_admission" where
  "client_send_timeout_request C seconds c =
     with_chat ChE_NoEpochKey (send_timeout_request C (ca_identity c) seconds) c"

definition client_member_view :: "u64 \<Rightarrow> client_admission \<Rightarrow> member_view option" where
  "client_member_view member_id c = Option.bind (ca_chat c) (session_member member_id)"

definition set_own_color :: "color_choice \<Rightarrow> client_admission \<Rightarrow> client_admission" where
  "set_own_color color c =
     (case ca_member_id c of
        None \<Rightarrow> c
      | Some own_id \<Rightarrow>
          (case ca_chat c of
             None \<Rightarrow> c
           | Some s \<Rightarrow> c\<lparr>ca_chat := Some (set_view_color color own_id s)\<rparr>))"

end
