(* ===== verification/Command.thy ===== *)
theory Command
  imports Actor
begin

text \<open>
  The parser of a typed line (\<open>command.rs\<close>): chat text, an escaped slash, or a slash command. A
  Rust string slice is the list of its characters; \<open>bytes().all(is_ascii_digit)\<close> holds of the
  UTF-8 bytes exactly when every character is a digit.
\<close>

datatype kick_target = KT_Id u64 | KT_Nickname rstring

datatype slash_command =
    SC_Help
  | SC_Exit
  | SC_Leave
  | SC_Color color_choice
  | SC_ColorList
  | SC_List
  | SC_Whois rstring
  | SC_Kick kick_target
  | SC_NewId
  | SC_ReqOn
  | SC_ReqOff
  | SC_Requests
  | SC_Accept u64
  | SC_Reject u64
  | SC_Copy
  | SC_Clear
  | SC_Timeout "u64 option"
  | SC_TimeoutRequest u64

datatype parsed_line = PL_Command slash_command | PL_Chat rstring

datatype command_error =
    CmdE_EmptyLine
  | CmdE_UnknownCommand rstring
  | CmdE_MissingArgument rstring
  | CmdE_UnexpectedArgument rstring rstring
  | CmdE_InvalidArgument rstring rstring
  | CmdE_ControlCharacterNotAllowed rstring

definition no_args :: "string \<Rightarrow> rstring \<Rightarrow> slash_command \<Rightarrow> command_error + slash_command" where
  "no_args name args command =
     (if args = [] then Inr command else Inl (CmdE_UnexpectedArgument (rs name) args))"

definition parse_color :: "rstring \<Rightarrow> command_error + color_choice" where
  "parse_color args =
     (if args = [] then Inl (CmdE_MissingArgument (rs ''color''))
      else if contains_control_char args then Inl (CmdE_ControlCharacterNotAllowed (rs ''color''))
      else if args = rs ''red'' then Inr Red
      else if args = rs ''green'' then Inr Green
      else if args = rs ''yellow'' then Inr Yellow
      else if args = rs ''blue'' then Inr Blue
      else if args = rs ''magenta'' then Inr Magenta
      else if args = rs ''cyan'' then Inr Cyan
      else if args = rs ''white'' then Inr White
      else Inl (CmdE_InvalidArgument (rs ''color'') (rs ''unknown color `'' @ args @ rs ''`'')))"

definition parse_timeout :: "rstring \<Rightarrow> command_error + u64 option" where
  "parse_timeout args =
     (if args = [] then Inl (CmdE_MissingArgument (rs ''timeout''))
      else if contains_control_char args then Inl (CmdE_ControlCharacterNotAllowed (rs ''timeout''))
      else if args = rs ''off'' then Inr None
      else case parse_uint (2 ^ 64 - 1) args of
             None \<Rightarrow> Inl (CmdE_InvalidArgument (rs ''timeout'')
                       (rs ''expected a positive number of seconds or `off`, got `'' @ args @ rs ''`''))
           | Some n \<Rightarrow>
               let seconds = (word_of_nat n :: u64)
               in if seconds = 0 then
                    Inl (CmdE_InvalidArgument (rs ''timeout'')
                      (rs ''the message lifetime must be at least 1 second''))
                  else if seconds > MAX_MESSAGE_TIMEOUT_SECONDS then
                    Inl (CmdE_InvalidArgument (rs ''timeout'')
                      (rs ''the message lifetime may not exceed '' @ dec (unat MAX_MESSAGE_TIMEOUT_SECONDS) @
                       rs '' seconds''))
                  else Inr (Some seconds))"

definition parse_timeout_request :: "rstring \<Rightarrow> command_error + u64" where
  "parse_timeout_request args =
     bindE (map_errE (\<lambda>e. case e of
                CmdE_MissingArgument _ \<Rightarrow> CmdE_MissingArgument (rs ''timeoutreq'')
              | CmdE_ControlCharacterNotAllowed _ \<Rightarrow> CmdE_ControlCharacterNotAllowed (rs ''timeoutreq'')
              | CmdE_InvalidArgument _ detail \<Rightarrow> CmdE_InvalidArgument (rs ''timeoutreq'') detail
              | other \<Rightarrow> other) (parse_timeout args))
       (\<lambda>t. case t of
              Some seconds \<Rightarrow> Inr seconds
            | None \<Rightarrow> Inl (CmdE_InvalidArgument (rs ''timeoutreq'')
                        (rs ''members must request a positive number of seconds'')))"

definition parse_simple_arg :: "string \<Rightarrow> rstring \<Rightarrow> command_error + rstring" where
  "parse_simple_arg command args =
     (if args = [] then Inl (CmdE_MissingArgument (rs command))
      else if contains_control_char args then Inl (CmdE_ControlCharacterNotAllowed (rs command))
      else Inr args)"

definition parse_kick_target :: "rstring \<Rightarrow> command_error + kick_target" where
  "parse_kick_target args =
     bindE (parse_simple_arg ''kick'' args) (\<lambda>arg.
       if list_all is_digit arg then
         (case parse_uint (2 ^ 64 - 1) arg of
            None \<Rightarrow> Inl (CmdE_InvalidArgument (rs ''kick'') (rs ''invalid member id `'' @ arg @ rs ''`''))
          | Some n \<Rightarrow> Inr (KT_Id (word_of_nat n)))
       else Inr (KT_Nickname arg))"

definition parse_request_id :: "string \<Rightarrow> rstring \<Rightarrow> command_error + u64" where
  "parse_request_id command args =
     bindE (parse_simple_arg command args) (\<lambda>arg.
       if \<not> list_all is_digit arg then
         Inl (CmdE_InvalidArgument (rs command) (rs ''expected a numeric request id, got `'' @ arg @ rs ''`''))
       else case parse_uint (2 ^ 64 - 1) arg of
              None \<Rightarrow> Inl (CmdE_InvalidArgument (rs command) (rs ''invalid request id `'' @ arg @ rs ''`''))
            | Some n \<Rightarrow> Inr (word_of_nat n))"

text \<open>The dispatch on the command name.\<close>

definition parse_command :: "rstring \<Rightarrow> rstring \<Rightarrow> command_error + slash_command" where
  "parse_command name args =
     (if name = rs ''help'' then no_args ''help'' args SC_Help
      else if name = rs ''exit'' then no_args ''exit'' args SC_Exit
      else if name = rs ''leave'' then no_args ''leave'' args SC_Leave
      else if name = rs ''list'' then no_args ''list'' args SC_List
      else if name = rs ''newid'' then no_args ''newid'' args SC_NewId
      else if name = rs ''reqon'' then no_args ''reqon'' args SC_ReqOn
      else if name = rs ''reqoff'' then no_args ''reqoff'' args SC_ReqOff
      else if name = rs ''requests'' then no_args ''requests'' args SC_Requests
      else if name = rs ''copy'' then no_args ''copy'' args SC_Copy
      else if name = rs ''clear'' then no_args ''clear'' args SC_Clear
      else if name = rs ''color'' \<and> args = rs ''list'' then Inr SC_ColorList
      else if name = rs ''color'' then bindE (parse_color args) (\<lambda>c. Inr (SC_Color c))
      else if name = rs ''timeout'' then bindE (parse_timeout args) (\<lambda>t. Inr (SC_Timeout t))
      else if name = rs ''timeoutreq'' then
        bindE (parse_timeout_request args) (\<lambda>t. Inr (SC_TimeoutRequest t))
      else if name = rs ''whois'' then bindE (parse_simple_arg ''whois'' args) (\<lambda>a. Inr (SC_Whois a))
      else if name = rs ''kick'' then bindE (parse_kick_target args) (\<lambda>t. Inr (SC_Kick t))
      else if name = rs ''accept'' then bindE (parse_request_id ''accept'' args) (\<lambda>i. Inr (SC_Accept i))
      else if name = rs ''reject'' then bindE (parse_request_id ''reject'' args) (\<lambda>i. Inr (SC_Reject i))
      else Inl (CmdE_UnknownCommand name))"

definition parse_line :: "rstring \<Rightarrow> command_error + parsed_line" where
  "parse_line line =
     (case line of
        [] \<Rightarrow> Inl CmdE_EmptyLine
      | c # r \<Rightarrow>
          if c = 0x2F \<and> r \<noteq> [] \<and> hd r = 0x2F then Inr (PL_Chat (0x2F # tl r))
          else if c \<noteq> 0x2F then Inr (PL_Chat line)
          else if r \<noteq> [] \<and> char_is_whitespace (hd r) then Inr (PL_Chat line)
          else
            let trimmed = dropWhile char_is_whitespace r;
                name = takeWhile (\<lambda>c. \<not> char_is_whitespace c) trimmed;
                args = dropWhile char_is_whitespace (dropWhile (\<lambda>c. \<not> char_is_whitespace c) trimmed)
            in bindE (parse_command name args) (\<lambda>c. Inr (PL_Command c)))"

fun member_ref_of_kick :: "kick_target \<Rightarrow> member_ref" where
  "member_ref_of_kick (KT_Id i) = MR_Id i"
| "member_ref_of_kick (KT_Nickname n) = MR_Nickname n"

definition into_host_command :: "slash_command \<Rightarrow> host_command option" where
  "into_host_command c =
     (case c of
        SC_Kick target \<Rightarrow> Some (HC_Kick (member_ref_of_kick target))
      | SC_NewId \<Rightarrow> Some HC_NewId
      | SC_ReqOn \<Rightarrow> Some HC_ReqOn
      | SC_ReqOff \<Rightarrow> Some HC_ReqOff
      | SC_Requests \<Rightarrow> Some HC_Requests
      | SC_Accept i \<Rightarrow> Some (HC_Accept i)
      | SC_Reject i \<Rightarrow> Some (HC_Reject i)
      | _ \<Rightarrow> None)"

definition into_member_command :: "slash_command \<Rightarrow> member_command option" where
  "into_member_command c =
     (case c of
        SC_Leave \<Rightarrow> Some MCmd_Leave
      | SC_Color col \<Rightarrow> Some (MCmd_Color col)
      | SC_List \<Rightarrow> Some MCmd_List
      | SC_Whois t \<Rightarrow> Some (MCmd_Whois t)
      | _ \<Rightarrow> None)"

section \<open>Lines that are commands are never sent as chat\<close>

text \<open>
  A line becomes chat text only if it does not start with a slash, or with a slash and
  whitespace (then the text is the line), or with two slashes (then one is removed). Any other line
  that starts with a slash is a command or an error, never a message to the room.
\<close>

theorem slash_is_never_chat:
  "parse_line line = Inr (PL_Chat t) \<longleftrightarrow>
     (\<exists>c r. line = c # r \<and> c \<noteq> 0x2F \<and> t = line) \<or>
     (\<exists>w r. line = 0x2F # w # r \<and> char_is_whitespace w \<and> t = line) \<or>
     (\<exists>r. line = 0x2F # 0x2F # r \<and> t = 0x2F # r)"
proof -
  have slash: "\<not> char_is_whitespace 0x2F" by (simp add: char_is_whitespace_def)
  show ?thesis
    using slash by (auto simp: parse_line_def Let_def bindE_eq_Inr neq_Nil_conv split: list.splits)
qed

section \<open>Every command can be typed\<close>

text \<open>The line a user types for a command.\<close>

fun command_line :: "slash_command \<Rightarrow> rstring" where
  "command_line SC_Help = rs ''/help''"
| "command_line SC_Exit = rs ''/exit''"
| "command_line SC_Leave = rs ''/leave''"
| "command_line (SC_Color c) = rs ''/color '' @ color_name c"
| "command_line SC_ColorList = rs ''/color list''"
| "command_line SC_List = rs ''/list''"
| "command_line (SC_Whois a) = rs ''/whois '' @ a"
| "command_line (SC_Kick (KT_Id i)) = rs ''/kick '' @ dec (unat i)"
| "command_line (SC_Kick (KT_Nickname n)) = rs ''/kick '' @ n"
| "command_line SC_NewId = rs ''/newid''"
| "command_line SC_ReqOn = rs ''/reqon''"
| "command_line SC_ReqOff = rs ''/reqoff''"
| "command_line SC_Requests = rs ''/requests''"
| "command_line (SC_Accept i) = rs ''/accept '' @ dec (unat i)"
| "command_line (SC_Reject i) = rs ''/reject '' @ dec (unat i)"
| "command_line SC_Copy = rs ''/copy''"
| "command_line SC_Clear = rs ''/clear''"
| "command_line (SC_Timeout None) = rs ''/timeout off''"
| "command_line (SC_Timeout (Some s)) = rs ''/timeout '' @ dec (unat s)"
| "command_line (SC_TimeoutRequest s) = rs ''/timeoutreq '' @ dec (unat s)"

text \<open>
  What the parser guarantees of a command: arguments are printable and not empty, a kicked nickname
  is not a number, a lifetime is between one second and one hour.
\<close>

definition argument_ok :: "rstring \<Rightarrow> bool" where
  "argument_ok a \<longleftrightarrow> a \<noteq> [] \<and> \<not> char_is_whitespace (hd a) \<and> \<not> contains_control_char a"

definition lifetime_ok :: "u64 \<Rightarrow> bool" where
  "lifetime_ok s \<longleftrightarrow> s \<noteq> 0 \<and> s \<le> 3600"

fun command_ok :: "slash_command \<Rightarrow> bool" where
  "command_ok (SC_Whois a) \<longleftrightarrow> argument_ok a"
| "command_ok (SC_Kick (KT_Nickname n)) \<longleftrightarrow> argument_ok n \<and> \<not> list_all is_digit n"
| "command_ok (SC_Timeout (Some s)) \<longleftrightarrow> lifetime_ok s"
| "command_ok (SC_TimeoutRequest s) \<longleftrightarrow> lifetime_ok s"
| "command_ok _ \<longleftrightarrow> True"

lemma command_ok_timeout: "command_ok (SC_Timeout t) \<longleftrightarrow> (\<forall>s. t = Some s \<longrightarrow> lifetime_ok s)"
  by (cases t) auto

lemma digits_argument:
  assumes "list_all is_digit a" and "a \<noteq> []"
  shows "\<not> contains_control_char a" and "\<not> char_is_whitespace (hd a)" and "a \<noteq> rs ''off''"
proof -
  have safe: "\<not> is_unsafe_display_char c" if "is_digit c" for c
    using that by (auto simp: is_digit_def is_unsafe_display_char_def char_is_control_def is_dangerous_format_char_def)
  with assms(1) show "\<not> contains_control_char a" by (auto simp: contains_control_char_def list_all_iff list_ex_iff)
  from assms have "is_digit (hd a)" by (cases a) auto
  then show "\<not> char_is_whitespace (hd a)" and "a \<noteq> rs ''off''"
    by (auto simp: is_digit_def char_is_whitespace_def rs_def)
qed

lemma parse_dec_u64: "parse_uint (2 ^ 64 - 1) (dec (unat (w :: u64))) = Some (unat w)"
  using unsigned_less [where ?'a = nat, of w] by (intro parse_uint_dec) simp

lemma parse_spaced:
  assumes "name \<noteq> []" and "\<forall>c \<in> set name. \<not> char_is_whitespace c \<and> c \<noteq> 0x2F"
    and "args \<noteq> [] \<longrightarrow> \<not> char_is_whitespace (hd args)" and "sep = (if args = [] then [] else [0x20])"
  shows "parse_line (0x2F # name @ sep @ args) = bindE (parse_command name args) (\<lambda>c. Inr (PL_Command c))"
proof -
  from assms(1,2) obtain c r where n: "name = c # r" "\<not> char_is_whitespace c" "c \<noteq> 0x2F"
    by (cases name) auto
  have take: "takeWhile (\<lambda>c. \<not> char_is_whitespace c) (name @ sep @ args) = name"
  proof -
    have "takeWhile (\<lambda>c. \<not> char_is_whitespace c) (sep @ args) = []"
      using assms(4) by (cases "args = []") (simp_all add: char_is_whitespace_def)
    with assms(2) show ?thesis by (simp add: takeWhile_append2)
  qed
  have "dropWhile (\<lambda>c. \<not> char_is_whitespace c) (name @ sep @ args) = dropWhile (\<lambda>c. \<not> char_is_whitespace c) (sep @ args)"
    using assms(2) by (intro dropWhile_append2) auto
  moreover have "char_is_whitespace 0x20" by (simp add: char_is_whitespace_def)
  moreover have "dropWhile (\<lambda>c. \<not> char_is_whitespace c) name = []" using assms(2) by (simp add: dropWhile_eq_Nil_conv)
  ultimately have drop: "dropWhile char_is_whitespace (dropWhile (\<lambda>c. \<not> char_is_whitespace c) (name @ sep @ args)) = args"
    using assms(3,4) by (cases args) (simp_all del: dropWhile_eq_Nil_conv)
  have trim: "dropWhile char_is_whitespace (name @ sep @ args) = name @ sep @ args" using n by simp
  show ?thesis
    unfolding parse_line_def list.case Let_def trim take drop using n by simp
qed

definition takes_no_argument :: "slash_command \<Rightarrow> bool" where
  "takes_no_argument c \<longleftrightarrow> c \<in> {SC_Help, SC_Exit, SC_Leave, SC_List, SC_NewId, SC_ReqOn, SC_ReqOff, SC_Requests,
     SC_Copy, SC_Clear}"

lemma typed_plain: "takes_no_argument c \<Longrightarrow> parse_line (command_line c) = Inr (PL_Command c)"
  by (auto simp: takes_no_argument_def parse_line_def parse_command_def no_args_def Let_def rs_def char_is_whitespace_def)

lemma typed_argument:
  assumes "name \<noteq> []" and "\<forall>c \<in> set name. \<not> char_is_whitespace c \<and> c \<noteq> 0x2F" and "argument_ok a"
    and "parse_command name a = Inr c"
  shows "parse_line (0x2F # name @ [0x20] @ a) = Inr (PL_Command c)"
  using parse_spaced [OF assms(1,2), of a "[0x20]"] assms(3,4) by (simp add: argument_ok_def)

lemma name_chars: "\<forall>c \<in> set (rs (n :: string)). 0x61 \<le> c \<Longrightarrow> \<forall>c \<in> set (rs n). c \<le> 0x7A \<Longrightarrow>
   \<forall>c \<in> set (rs n). \<not> char_is_whitespace c \<and> c \<noteq> 0x2F"
  by (fastforce simp: char_is_whitespace_def)

lemma dec_argument: "argument_ok (dec n)"
  using dec_digits [of n] digits_argument [of "dec n"] by (simp add: argument_ok_def)

lemma color_argument: "argument_ok (color_name c) \<and> parse_color (color_name c) = Inr c \<and> color_name c \<noteq> [108, 105, 115, 116]"
  by (cases c) (simp_all add: argument_ok_def parse_color_def rs_def char_is_whitespace_def contains_control_char_def
      is_unsafe_display_char_def char_is_control_def is_dangerous_format_char_def)

lemma timeout_argument: "lifetime_ok s \<Longrightarrow> parse_timeout (dec (unat s)) = Inr (Some s)"
  using dec_digits [of "unat s"] digits_argument [of "dec (unat s)"] parse_dec_u64 [of s]
  by (auto simp: parse_timeout_def lifetime_ok_def MAX_MESSAGE_TIMEOUT_SECONDS_def Let_def)

lemma request_argument: "parse_request_id n (dec (unat i)) = Inr i"
  using dec_digits [of "unat i"] digits_argument [of "dec (unat i)"] parse_dec_u64 [of i]
  by (simp add: parse_request_id_def parse_simple_arg_def)

lemma kick_argument: "parse_kick_target (dec (unat i)) = Inr (KT_Id i)"
  using dec_digits [of "unat i"] digits_argument [of "dec (unat i)"] parse_dec_u64 [of i]
  by (simp add: parse_kick_target_def parse_simple_arg_def)

lemma typed_command:
  assumes "command_ok c" and "\<not> takes_no_argument c"
  shows "\<exists>name a. command_line c = 0x2F # name @ [0x20] @ a \<and> name \<noteq> [] \<and>
    (\<forall>c \<in> set name. \<not> char_is_whitespace c \<and> c \<noteq> 0x2F) \<and> argument_ok a \<and> parse_command name a = Inr c"
proof -
  have intro: ?thesis if "command_line c = 0x2F # rs n @ [0x20] @ a" "n \<noteq> []" "\<forall>c \<in> set (rs n). 0x61 \<le> c \<and> c \<le> 0x7A"
    "argument_ok a" "parse_command (rs n) a = Inr c" for n a
    using that name_chars [of n] by (intro exI [of _ "rs n"] exI [of _ a]) (auto simp: rs_def)
  note args = color_argument timeout_argument request_argument kick_argument dec_argument
  show ?thesis
  proof (cases c)
    case (SC_Color d)
    then show ?thesis
      by (intro intro [of "''color''" "color_name d"]) (simp_all add: args parse_command_def rs_def)
  next
    case SC_ColorList
    then show ?thesis
      by (intro intro [of "''color''" "rs ''list''"])
        (simp_all add: parse_command_def rs_def argument_ok_def char_is_whitespace_def contains_control_char_def
          is_unsafe_display_char_def char_is_control_def is_dangerous_format_char_def)
  next
    case (SC_Whois a)
    with assms(1) show ?thesis
      by (intro intro [of "''whois''" a]) (simp_all add: parse_command_def rs_def parse_simple_arg_def argument_ok_def)
  next
    case (SC_Kick t)
    then show ?thesis
    proof (cases t)
      case (KT_Id i)
      with SC_Kick show ?thesis
        by (intro intro [of "''kick''" "dec (unat i)"]) (simp_all add: args parse_command_def rs_def)
    next
      case (KT_Nickname n)
      with SC_Kick assms(1) show ?thesis
        by (intro intro [of "''kick''" n])
          (simp_all add: parse_command_def rs_def parse_kick_target_def parse_simple_arg_def argument_ok_def)
    qed
  next
    case (SC_Accept i)
    then show ?thesis
      by (intro intro [of "''accept''" "dec (unat i)"]) (simp_all add: args parse_command_def rs_def)
  next
    case (SC_Reject i)
    then show ?thesis
      by (intro intro [of "''reject''" "dec (unat i)"]) (simp_all add: args parse_command_def rs_def)
  next
    case (SC_Timeout t)
    then show ?thesis
    proof (cases t)
      case None
      with SC_Timeout show ?thesis
        by (intro intro [of "''timeout''" "rs ''off''"])
          (simp_all add: parse_command_def parse_timeout_def rs_def argument_ok_def char_is_whitespace_def
            contains_control_char_def is_unsafe_display_char_def char_is_control_def is_dangerous_format_char_def)
    next
      case (Some s)
      with SC_Timeout assms(1) show ?thesis
        by (intro intro [of "''timeout''" "dec (unat s)"]) (simp_all add: args parse_command_def rs_def)
    qed
  next
    case (SC_TimeoutRequest s)
    with assms(1) show ?thesis
      by (intro intro [of "''timeoutreq''" "dec (unat s)"])
        (simp_all add: args parse_command_def rs_def parse_timeout_request_def)
  qed (use assms(2) in \<open>simp_all add: takes_no_argument_def\<close>)
qed

lemma parsed_command_ok: "parse_line line = Inr (PL_Command c) \<Longrightarrow> command_ok c"
proof -
  assume "parse_line line = Inr (PL_Command c)"
  then obtain name s where p: "parse_command name (dropWhile char_is_whitespace s) = Inr c"
    by (auto simp: parse_line_def Let_def bindE_eq_Inr split: list.splits if_splits)
  have hd: "a \<noteq> [] \<Longrightarrow> \<not> char_is_whitespace (hd a)" if "a = dropWhile char_is_whitespace s" for a
    using that hd_dropWhile [of char_is_whitespace s] by simp
  have arg: "argument_ok b" if "parse_simple_arg n (dropWhile char_is_whitespace s) = Inr b" for n b
    using that hd by (auto simp: parse_simple_arg_def argument_ok_def split: if_splits)
  have life: "lifetime_ok b" if "parse_timeout (dropWhile char_is_whitespace s) = Inr (Some b)" for b
    using that by (auto simp: parse_timeout_def lifetime_ok_def MAX_MESSAGE_TIMEOUT_SECONDS_def Let_def
        linorder_not_less split: option.splits if_splits)
  show "command_ok c"
    using p arg life
    by (auto simp: parse_command_def no_args_def bindE_eq_Inr parse_kick_target_def parse_timeout_request_def
        map_errE_eq_Inr command_ok_timeout split: if_splits option.splits)
qed

text \<open>
  Every well-formed command can be typed: its line parses back to exactly that command; and
  every command that any line parses to is well-formed: it carries a printable argument, a lifetime
  of 1 to 3600 seconds, and no nickname that is a number.
\<close>

theorem commands_roundtrip:
  "(command_ok c \<longrightarrow> parse_line (command_line c) = Inr (PL_Command c)) \<and>
   (parse_line line = Inr (PL_Command c) \<longrightarrow> command_ok c \<and> parse_line (command_line c) = Inr (PL_Command c))"
proof -
  have "parse_line (command_line c) = Inr (PL_Command c)" if ok: "command_ok c"
  proof (cases "takes_no_argument c")
    case True
    then show ?thesis by (rule typed_plain)
  next
    case False
    from typed_command [OF ok this] typed_argument show ?thesis by metis
  qed
  with parsed_command_ok show ?thesis by blast
qed

lemma commands_roundtrip_witness:
  "parse_line (rs ''/timeout 60'') = Inr (PL_Command (SC_Timeout (Some 60)))"
proof -
  have "command_line (SC_Timeout (Some 60)) = rs ''/timeout 60''" by (simp add: dec.simps rs_def)
  with commands_roundtrip [of "SC_Timeout (Some 60)"] show ?thesis by (simp add: lifetime_ok_def)
qed

end
