(* ===== verification/Gate.thy ===== *)
theory Gate
  imports HostNet Admission Command
begin

text \<open>
  The host's supervisor loop (\<open>run_host_session\<close> of \<open>app.rs\<close>), which stands between the network and the
  room: it runs the admission flow of every connection, enforces the stage timeouts and
  the password lockout, forwards to the room what each connection may say, and carries out the
  actions of the room.

  \<open>gate\<close> has the locals of the loop. Every handler returns the events that it sends to the room, in
  order. What it draws on the terminal is in \<open>HostSession\<close>. Each turn reads the clock three times: for
  the stale connections (\<open>t0\<close>), at the start of its branch (\<open>t1\<close>) and for what follows (\<open>t2\<close>).
  \<open>ge_order\<close> is the iteration order of the hash map; the texts of errors come from \<open>Display\<close> and
  \<open>Debug\<close> implementations of several crates.
\<close>

definition VIRTUAL_PORT :: u16 where "VIRTUAL_PORT = 80"

record host_connection =
  hc_admission :: host_admission
  hc_stage_since :: duration
  hc_last_seen :: duration
  hc_admitted :: bool

record gate_env =
  ge_crypto :: crypto
  ge_kdf :: kdf
  ge_nfc :: "rstring \<Rightarrow> rstring"
  ge_timeouts :: timeouts
  ge_verifier :: password_verifier
  ge_host_identity :: identity
  ge_client_identity :: identity
  ge_session_id :: bytes
  ge_onion_address :: rstring
  ge_error_text :: "admission_error \<Rightarrow> rstring"
  ge_debug_text :: "u64 \<Rightarrow> message \<Rightarrow> rstring"
  ge_order :: "u64 list \<Rightarrow> u64 list"

record gate =
  gt_connections :: "(u64 \<times> host_connection) list"
  gt_network :: host_network
  gt_guard :: password_guard
  gt_policy :: join_policy
  gt_token :: bytes
  gt_chat :: chat_session

type_synonym gate_result = "room_event list \<times> gate"

definition error_reply :: "error_code \<Rightarrow> rstring \<Rightarrow> message" where
  "error_reply code reason =
     M_Error (case error_message_new code (Some reason) of
                Inr m \<Rightarrow> m
              | Inl _ \<Rightarrow> \<lparr>em_code = code, em_reason = None\<rparr>)"

section \<open>Stage timeouts\<close>

definition stage_timeout :: "timeouts \<Rightarrow> host_connection \<Rightarrow> duration" where
  "stage_timeout T hc =
     (case ha_state (hc_admission hc) of
        HS_AwaitingHello \<Rightarrow> timeouts_get T TK_ProtocolHandshake
      | HS_AwaitingToken \<Rightarrow> timeouts_get T TK_TokenValidation
      | HS_AwaitingProof \<Rightarrow> timeouts_get T TK_PasswordVerification
      | HS_AwaitingJoinForm \<Rightarrow> timeouts_get T TK_JoinFormSubmission
      | HS_Decided \<Rightarrow>
          if \<not> hc_admitted hc then timeouts_get T TK_HostDecision else timeouts_get T TK_Keepalive * 3)"

definition is_stale :: "timeouts \<Rightarrow> duration \<Rightarrow> host_connection \<Rightarrow> bool" where
  "is_stale T now hc \<longleftrightarrow>
     stage_timeout T hc < now - (if hc_admitted hc then hc_last_seen hc else hc_stage_since hc)"

definition stale_connections :: "gate_env \<Rightarrow> duration \<Rightarrow> gate \<Rightarrow> u64 list" where
  "stale_connections E now g =
     ge_order E (map fst (filter (\<lambda>(c, hc). is_stale (ge_timeouts E) now hc) (gt_connections g)))"

definition drop_connection :: "u64 \<Rightarrow> gate \<Rightarrow> gate" where
  "drop_connection c g =
     g\<lparr>gt_connections := AList.delete c (gt_connections g), gt_network := network_close c (gt_network g)\<rparr>"

definition expire :: "gate_env \<Rightarrow> duration \<Rightarrow> gate \<Rightarrow> gate_result" where
  "expire E now g =
     (let stale = stale_connections E now g
      in (map EV_ConnectionLost stale, fold drop_connection stale g))"

section \<open>A new connection\<close>

definition reply :: "u64 \<Rightarrow> message \<Rightarrow> gate \<Rightarrow> (peer_send_error + unit) \<times> gate" where
  "reply c m g = (case send_to c m (gt_network g) of (r, n) \<Rightarrow> (r, g\<lparr>gt_network := n\<rparr>))"

text \<open>\<open>es\<close> are the outcomes of the random reads that the admission flow of this connection makes.\<close>

definition on_connect :: "gate_env \<Rightarrow> u64 \<Rightarrow> entropy \<Rightarrow> duration \<Rightarrow> duration \<Rightarrow> gate \<Rightarrow> gate_result" where
  "on_connect E c es t1 t2 g =
     (case guard_remaining t1 (gt_guard g) of
        Some _ \<Rightarrow>
          (let g1 = snd (reply c (error_reply EC_RateLimited
                       (rs ''too many failed password attempts; try again later'')) g)
           in ([], g1\<lparr>gt_network := network_close c (gt_network g1)\<rparr>))
      | None \<Rightarrow>
          (case host_admission_new (ge_session_id E) (gt_token g) (ge_verifier E) (ge_host_identity E)
                  (ge_onion_address E) es of
             Inl _ \<Rightarrow> ([], g\<lparr>gt_network := network_close c (gt_network g)\<rparr>)
           | Inr admission \<Rightarrow>
               ([EV_ClientConnected c],
                g\<lparr>gt_connections := AList.update c
                    \<lparr>hc_admission = admission, hc_stage_since = t2, hc_last_seen = t2, hc_admitted = False\<rparr>
                    (gt_connections g)\<rparr>)))"

section \<open>A message of a peer\<close>

definition gate_state :: "host_connection \<Rightarrow> connection_state" where
  "gate_state hc =
     (case ha_state (hc_admission hc) of
        HS_AwaitingHello \<Rightarrow> CS_ProtocolHandshake
      | HS_AwaitingToken \<Rightarrow> CS_PreAuth
      | HS_AwaitingProof \<Rightarrow> CS_PreAuth
      | HS_AwaitingJoinForm \<Rightarrow> CS_PasswordVerified
      | HS_Decided \<Rightarrow> if hc_admitted hc then CS_Active else CS_JoinPending)"

type_synonym gate_error = "error_code \<times> rstring"

definition admission_failure :: "gate_env \<Rightarrow> admission_error \<Rightarrow> gate_error" where
  "admission_failure E e = (admission_error_code e, ge_error_text E e)"

definition put_admission :: "u64 \<Rightarrow> host_connection \<Rightarrow> host_admission \<Rightarrow> gate \<Rightarrow> gate" where
  "put_admission c hc h g =
     g\<lparr>gt_connections := AList.update c (hc\<lparr>hc_admission := h\<rparr>) (gt_connections g)\<rparr>"

definition reply_or_fail :: "u64 \<Rightarrow> message \<Rightarrow> gate \<Rightarrow> (gate_error + room_event list) \<times> gate" where
  "reply_or_fail c m g =
     (case reply c m g of
        (Inr _, g1) \<Rightarrow> (Inr [], g1)
      | (Inl _, g1) \<Rightarrow> (Inl (EC_Internal, rs ''connection closed''), g1))"

definition dispatch :: "gate_env \<Rightarrow> u64 \<Rightarrow> message \<Rightarrow> host_connection \<Rightarrow> gate \<Rightarrow>
    (gate_error + room_event list) \<times> gate" where
  "dispatch E c m hc g =
     (case m of
        M_ClientHello hello \<Rightarrow>
          (case on_client_hello (ge_crypto E) hello VIRTUAL_PORT (hc_admission hc) of
             (Inl e, h) \<Rightarrow> (Inl (admission_failure E e), put_admission c hc h g)
           | (Inr answer, h) \<Rightarrow> reply_or_fail c answer (put_admission c hc h g))
      | M_EpochAck ack \<Rightarrow> (Inr [EV_EpochAck c (ea_epoch ack)], g)
      | M_ChatMessage env \<Rightarrow> (Inr [EV_ChatReceived c 0x40 env], g)
      | M_ColorChange env \<Rightarrow> (Inr [EV_ChatReceived c 0x41 env], g)
      | M_TimeoutRequest env \<Rightarrow> (Inr [EV_ChatReceived c 0x42 env], g)
      | M_TimeoutChanged env \<Rightarrow> (Inr [EV_ChatReceived c 0x43 env], g)
      | M_Keepalive \<Rightarrow> (Inr [], g)
      | M_Shutdown \<Rightarrow> (Inl (EC_ProtocolViolation, rs ''peer ended the connection''), g)
      | M_Error _ \<Rightarrow> (Inl (EC_ProtocolViolation, rs ''peer ended the connection''), g)
      | _ \<Rightarrow>
          if message_message_type m \<in> {MT_TokenVerify, MT_ChallengeProof, MT_JoinRequest} then
            (case host_on_message (ge_crypto E) (ge_kdf E) m (gt_policy g) (hc_admission hc) of
               (Inl e, h) \<Rightarrow> (Inl (admission_failure E e), put_admission c hc h g)
             | (Inr (Some (HR_Message answer)), h) \<Rightarrow> reply_or_fail c answer (put_admission c hc h g)
             | (Inr (Some (HR_JoinRequested app)), h) \<Rightarrow> (Inr [EV_JoinRequested c app], put_admission c hc h g)
             | (Inr None, h) \<Rightarrow> (Inr [EV_PasswordVerified c], put_admission c hc h g))
          else (Inl (EC_ProtocolViolation, ge_debug_text E c m), g))"

definition touch_stage :: "u64 \<Rightarrow> host_state \<Rightarrow> duration \<Rightarrow> gate \<Rightarrow> gate" where
  "touch_stage c previous now g =
     (case map_of (gt_connections g) c of
        None \<Rightarrow> g
      | Some hc \<Rightarrow>
          if ha_state (hc_admission hc) = previous then g
          else g\<lparr>gt_connections := AList.update c (hc\<lparr>hc_stage_since := now\<rparr>) (gt_connections g)\<rparr>)"

definition handle_host_message :: "gate_env \<Rightarrow> u64 \<Rightarrow> message \<Rightarrow> duration \<Rightarrow> gate \<Rightarrow>
    (gate_error + room_event list) \<times> gate" where
  "handle_host_message E c m now g =
     (case map_of (gt_connections g) c of
        None \<Rightarrow> (Inl (EC_ProtocolViolation, rs ''unknown connection''), g)
      | Some hc \<Rightarrow>
          if gt_policy g = JP_Locked \<and> \<not> hc_admitted hc then
            (Inl (EC_RoomLocked, rs ''the room is not accepting join requests''), g)
          else if \<not> connection_accepts (gate_state hc) (message_type_class (message_message_type m)) then
            (Inl (EC_ProtocolViolation, rs ''message is invalid for the current connection state''), g)
          else
            tryS (dispatch E c m hc g)
              (\<lambda>evs g1. (Inr evs, touch_stage c (ha_state (hc_admission hc)) now g1)))"

definition touch_seen :: "u64 \<Rightarrow> duration \<Rightarrow> gate \<Rightarrow> gate" where
  "touch_seen c now g =
     (case map_of (gt_connections g) c of
        None \<Rightarrow> g
      | Some hc \<Rightarrow> g\<lparr>gt_connections := AList.update c (hc\<lparr>hc_last_seen := now\<rparr>) (gt_connections g)\<rparr>)"

definition count_failure :: "error_code \<Rightarrow> duration \<Rightarrow> gate \<Rightarrow> gate" where
  "count_failure code now g =
     (if code = EC_InvalidPasswordProof then g\<lparr>gt_guard := snd (record_failure now (gt_guard g))\<rparr> else g)"

definition on_inbound :: "gate_env \<Rightarrow> u64 \<Rightarrow> message option \<Rightarrow> duration \<Rightarrow> duration \<Rightarrow> gate \<Rightarrow> gate_result" where
  "on_inbound E c arrived t1 t2 g =
     (case arrived of
        None \<Rightarrow> ([EV_ConnectionLost c], drop_connection c g)
      | Some m \<Rightarrow>
          (case handle_host_message E c m t2 (touch_seen c t1 g) of
             (Inr evs, g1) \<Rightarrow> (evs, g1)
           | (Inl (code, reason), g1) \<Rightarrow>
               ([EV_ConnectionLost c],
                drop_connection c (snd (reply c (error_reply code reason) (count_failure code t2 g1))))))"

section \<open>Actions of the room\<close>

text \<open>The host is a member of its own room: what the room sends to it goes to its chat session.\<close>

definition host_wrap :: "gate_env \<Rightarrow> epoch_wrap \<Rightarrow> gate \<Rightarrow> gate_result" where
  "host_wrap E w g =
     (case try_wrap_key_for (ge_crypto E) (ge_client_identity E)
             (identity_x25519_pubkey (ge_crypto E) (ge_host_identity E)) (ge_session_id E) 0 of
        Inl _ \<Rightarrow> ([], g)
      | Inr wrap_key \<Rightarrow>
          (case unwrap_epoch_key (ge_crypto E) wrap_key (ew_epoch w) (ge_session_id E) (ew_nonce w)
                  (ew_ciphertext w) of
             Inl _ \<Rightarrow> ([], g)
           | Inr epoch_key \<Rightarrow>
               ([EV_EpochAck HOST_CONNECTION (ew_epoch w)],
                g\<lparr>gt_chat := install_epoch (ew_epoch w) epoch_key (gt_chat g)\<rparr>)))"

definition host_receives :: "gate_env \<Rightarrow> message \<Rightarrow> gate \<Rightarrow> gate_result" where
  "host_receives E m g =
     (case m of
        M_EpochWrap w \<Rightarrow> host_wrap E w g
      | M_Shutdown \<Rightarrow> ([], g)
      | M_ChatMessage env \<Rightarrow> ([], g\<lparr>gt_chat := snd (receive_chat (ge_crypto E) env (gt_chat g))\<rparr>)
      | M_ColorChange env \<Rightarrow>
          ([], g\<lparr>gt_chat :=
             (case receive_color (ge_crypto E) env (gt_chat g) of
                (Inr color, s) \<Rightarrow> set_view_color color (env_sender_id env) s
              | (Inl _, s) \<Rightarrow> s)\<rparr>)
      | other \<Rightarrow> ([], g\<lparr>gt_chat := snd (handle_membership_message (ge_nfc E) (ge_crypto E) other (gt_chat g))\<rparr>))"

definition admit_connection :: "u64 \<Rightarrow> duration \<Rightarrow> gate \<Rightarrow> gate" where
  "admit_connection c now g =
     (let g1 = g\<lparr>gt_network := mark_admitted c (gt_network g)\<rparr>
      in case map_of (gt_connections g1) c of
           None \<Rightarrow> g1
         | Some hc \<Rightarrow>
             g1\<lparr>gt_connections :=
                 AList.update c (hc\<lparr>hc_admitted := True, hc_last_seen := now\<rparr>) (gt_connections g1)\<rparr>)"

definition send_to_peer :: "u64 \<Rightarrow> message \<Rightarrow> duration \<Rightarrow> gate \<Rightarrow> gate_result" where
  "send_to_peer c m now g =
     (case reply c m g of
        (Inr _, g1) \<Rightarrow> ([], if message_message_type m = MT_JoinAccepted then admit_connection c now g1 else g1)
      | (Inl _, g1) \<Rightarrow> ([EV_ConnectionLost c], g1\<lparr>gt_network := network_close c (gt_network g1)\<rparr>))"

definition send_timeout :: "gate_env \<Rightarrow> u64 option \<Rightarrow> gate \<Rightarrow> gate_result" where
  "send_timeout E interval g =
     (case send_timeout_changed (ge_crypto E) (ge_client_identity E) interval (gt_chat g) of
        (Inr (M_TimeoutChanged env), s) \<Rightarrow> ([EV_ChatReceived HOST_CONNECTION 0x43 env], g\<lparr>gt_chat := s\<rparr>)
      | (_, s) \<Rightarrow> ([], g\<lparr>gt_chat := s\<rparr>))"

abbreviation refresh_requests :: room_event where
  "refresh_requests \<equiv> EV_HostCommand HC_Requests"

abbreviation refresh_members :: room_event where
  "refresh_members \<equiv> EV_MemberCommand HOST_CONNECTION MCmd_List"

definition on_notice :: "gate_env \<Rightarrow> host_notice \<Rightarrow> gate \<Rightarrow> gate_result" where
  "on_notice E notice g =
     (case notice of
        HN_InvitationRotated token \<Rightarrow> ([], g\<lparr>gt_token := token\<rparr>)
      | HN_JoinRequestPending _ _ _ _ \<Rightarrow> ([refresh_requests], g)
      | HN_JoinRequestWithdrawn _ \<Rightarrow> ([refresh_requests], g)
      | HN_TimeoutRequestPending _ _ _ _ \<Rightarrow> ([refresh_requests], g)
      | HN_TimeoutRequestAccepted _ seconds \<Rightarrow>
          (case send_timeout E (Some seconds) g of (evs, g1) \<Rightarrow> (evs @ [refresh_requests], g1))
      | HN_TimeoutRequestRejected _ \<Rightarrow> ([refresh_requests], g)
      | HN_TimeoutRebroadcast seconds \<Rightarrow> send_timeout E (Some seconds) g
      | HN_MemberJoined _ _ \<Rightarrow> ([refresh_members], g)
      | HN_MemberLeft _ _ \<Rightarrow> ([refresh_members], g)
      | HN_MemberKicked _ _ \<Rightarrow> ([refresh_members], g)
      | HN_JoinPolicyChanged policy \<Rightarrow> ([], g\<lparr>gt_policy := policy\<rparr>)
      | _ \<Rightarrow> ([], g))"

definition on_action :: "gate_env \<Rightarrow> duration \<Rightarrow> room_action \<Rightarrow> gate \<Rightarrow> gate_result" where
  "on_action E now act g =
     (case act of
        RA_SendTo c m \<Rightarrow> if c = HOST_CONNECTION then host_receives E m g else send_to_peer c m now g
      | RA_CloseConnection c \<Rightarrow> ([], drop_connection c g)
      | RA_NotifyHost notice \<Rightarrow> on_notice E notice g)"

fun handle_host_actions :: "gate_env \<Rightarrow> duration \<Rightarrow> room_action list \<Rightarrow> gate \<Rightarrow> gate_result" where
  "handle_host_actions E now [] g = ([], g)"
| "handle_host_actions E now (act # acts) g =
     (case on_action E now act g of
        (evs, g1) \<Rightarrow> (case handle_host_actions E now acts g1 of (evs', g2) \<Rightarrow> (evs @ evs', g2)))"

section \<open>Commands of the host\<close>

definition handle_host_command :: "gate_env \<Rightarrow> slash_command \<Rightarrow> gate \<Rightarrow> gate_result" where
  "handle_host_command E command g =
     (case command of
        SC_Timeout interval \<Rightarrow> send_timeout E interval g
      | SC_Color color \<Rightarrow>
          (case send_color (ge_crypto E) (ge_client_identity E) color (gt_chat g) of
             (Inr (M_ColorChange env), s) \<Rightarrow>
               ([EV_ChatReceived HOST_CONNECTION 0x41 env], g\<lparr>gt_chat := set_view_color color 0 s\<rparr>)
           | (_, s) \<Rightarrow> ([], g\<lparr>gt_chat := s\<rparr>))
      | other \<Rightarrow>
          (case into_host_command other of
             Some host_command \<Rightarrow>
               (EV_HostCommand host_command #
                  (case host_command of HC_Accept _ \<Rightarrow> [refresh_requests] | HC_Reject _ \<Rightarrow> [refresh_requests] | _ \<Rightarrow> []),
                g)
           | None \<Rightarrow>
               (case into_member_command other of
                  Some member_command \<Rightarrow> ([EV_MemberCommand HOST_CONNECTION member_command], g)
                | None \<Rightarrow> ([], g))))"

section \<open>The loop\<close>

text \<open>
  The branches of the \<open>select!\<close>: the maintenance tick, a command, a batch of actions, the next accepted
  connection, a message or the end of a connection. \<open>GB_Idle\<close> stands for the branches that only
  concern the terminal.
\<close>

datatype gate_branch =
    GB_Maintenance
  | GB_Idle
  | GB_Command slash_command
  | GB_Actions "room_action list"
  | GB_Connect entropy
  | GB_Inbound u64 "message option"

definition gate_branch_step :: "gate_env \<Rightarrow> duration \<Rightarrow> duration \<Rightarrow> gate_branch \<Rightarrow> gate \<Rightarrow> gate_result" where
  "gate_branch_step E t1 t2 branch g =
     (case branch of
        GB_Maintenance \<Rightarrow> ([EV_EpochMaintenance], g)
      | GB_Idle \<Rightarrow> ([], g)
      | GB_Command command \<Rightarrow> handle_host_command E command g
      | GB_Actions actions \<Rightarrow> handle_host_actions E t2 actions g
      | GB_Connect es \<Rightarrow>
          (case hn_connects (gt_network g) of
             [] \<Rightarrow> ([], g)
           | c # cs \<Rightarrow> on_connect E c es t1 t2 (g\<lparr>gt_network := (gt_network g)\<lparr>hn_connects := cs\<rparr>\<rparr>))
      | GB_Inbound c arrived \<Rightarrow> on_inbound E c arrived t1 t2 g)"

text \<open>
  The accept loop and the tasks of the connections run beside the loop: \<open>GV_Network\<close> is one of their
  steps (what the other operations of the network do, the supervisor does itself).
\<close>

datatype gate_event =
    GV_Turn duration duration duration gate_branch
  | GV_Accept bool
  | GV_TaskTakes u64
  | GV_TaskEnds u64

definition gate_step :: "gate_env \<Rightarrow> gate_event \<Rightarrow> gate \<Rightarrow> gate_result" where
  "gate_step E ev g =
     (case ev of
        GV_Turn t0 t1 t2 branch \<Rightarrow>
          (case expire E t0 g of
             (lost, g1) \<Rightarrow> (case gate_branch_step E t1 t2 branch g1 of (evs, g2) \<Rightarrow> (lost @ evs, g2)))
      | GV_Accept ok \<Rightarrow> ([], g\<lparr>gt_network := accept_step default_limits ok (gt_network g)\<rparr>)
      | GV_TaskTakes c \<Rightarrow> ([], g\<lparr>gt_network := task_takes c (gt_network g)\<rparr>)
      | GV_TaskEnds c \<Rightarrow> ([], g\<lparr>gt_network := task_ends c (gt_network g)\<rparr>))"

fun gate_run :: "gate_env \<Rightarrow> gate_event list \<Rightarrow> gate \<Rightarrow> gate_result" where
  "gate_run E [] g = ([], g)"
| "gate_run E (ev # evs) g =
     (case gate_step E ev g of (out, g1) \<Rightarrow> (case gate_run E evs g1 of (outs, g2) \<Rightarrow> (out @ outs, g2)))"

text \<open>The locals of the loop before the first batch of the room; the host knows itself as a member.\<close>

definition gate_start :: "gate_env \<Rightarrow> rstring \<Rightarrow> entropy \<Rightarrow> gate" where
  "gate_start E nickname es =
     \<lparr>gt_connections = [], gt_network = listen, gt_guard = guard_new, gt_policy = JP_Open, gt_token = [],
      gt_chat = install_member
        \<lparr>mv_member_id = 0, mv_nickname = nickname, mv_color = color_default, mv_is_host = True,
         mv_ed25519_pubkey = identity_ed25519_pubkey (ge_crypto E) (ge_client_identity E)\<rparr>
        (session_new (ge_session_id E) (identity_ed25519_pubkey (ge_crypto E) (ge_host_identity E))
           (identity_x25519_pubkey (ge_crypto E) (ge_host_identity E)) 0 es)\<rparr>"

text \<open>The end of the session: the last batch of the room, then nothing is left of the network.\<close>

definition exit_action :: "room_action \<Rightarrow> gate \<Rightarrow> gate" where
  "exit_action act g =
     (case act of
        RA_SendTo c m \<Rightarrow> snd (reply c m g)
      | RA_CloseConnection c \<Rightarrow> g\<lparr>gt_network := network_close c (gt_network g)\<rparr>
      | RA_NotifyHost _ \<Rightarrow> g)"

definition gate_exit :: "room_action list \<Rightarrow> gate \<Rightarrow> gate_result" where
  "gate_exit last_batch g =
     (let g1 = fold exit_action last_batch g
      in ([EV_CloseRequested], g1\<lparr>gt_network := network_stop (close_all (gt_network g1))\<rparr>))"

end
