(* ===== verification/GateRules.thy ===== *)
theory GateRules
  imports Gate
begin

text \<open>
  What the supervisor loop guarantees. \<open>view_step\<close> is an abstract machine for one connection; every
  run of the loop, seen from one connection, is a run of that machine (\<open>gate_run_simulated\<close>), and
  the order of the events that the room may see follows by rule induction on it.
\<close>

section \<open>The machine of one connection\<close>

text \<open>How a message moves the admission flow, and what the room hears of it.\<close>

inductive gate_moves :: "u64 \<Rightarrow> bool \<Rightarrow> host_state \<Rightarrow> room_event list \<Rightarrow> host_state \<Rightarrow> bool" for c where
  stays: "gate_moves c adm s [] s"
| greeted: "gate_moves c adm HS_AwaitingHello [] HS_AwaitingToken"
| invited: "gate_moves c adm HS_AwaitingToken [] HS_AwaitingProof"
| proved: "gate_moves c adm HS_AwaitingProof [EV_PasswordVerified c] HS_AwaitingJoinForm"
| applied: "gate_moves c adm HS_AwaitingJoinForm [EV_JoinRequested c app] HS_Decided"
| acked: "gate_moves c True HS_Decided [EV_EpochAck c epoch] HS_Decided"
| spoke: "gate_moves c True HS_Decided [EV_ChatReceived c t env] HS_Decided"

text \<open>\<open>acc\<close> says whether the room ever accepts the applicant of this connection.\<close>

inductive view_step :: "bool \<Rightarrow> u64 \<Rightarrow> (host_state \<times> bool) option \<Rightarrow> room_event list \<Rightarrow>
    (host_state \<times> bool) option \<Rightarrow> bool" for acc c where
  connects: "view_step acc c v [EV_ClientConnected c] (Some (HS_AwaitingHello, False))"
| moves: "gate_moves c adm s evs s' \<Longrightarrow> view_step acc c (Some (s, adm)) evs (Some (s', adm))"
| admits: "acc \<Longrightarrow> view_step acc c (Some (s, adm)) [] (Some (s, True))"
| loses: "view_step acc c v [EV_ConnectionLost c] None"
| reports: "view_step acc c v [EV_ConnectionLost c] v"
| drops: "view_step acc c v [] None"

inductive view_run :: "bool \<Rightarrow> u64 \<Rightarrow> (host_state \<times> bool) option \<Rightarrow> room_event list \<Rightarrow>
    (host_state \<times> bool) option \<Rightarrow> bool" for acc c where
  stop [intro]: "view_run acc c v [] v"
| go: "view_step acc c v out v1 \<Longrightarrow> view_run acc c v1 outs v2 \<Longrightarrow> view_run acc c v (out @ outs) v2"

lemma view_run_one: "view_step acc c v out v1 \<Longrightarrow> view_run acc c v out v1"
  using view_run.go [OF _ view_run.stop] by fastforce

lemma view_run_trans: "view_run acc c v out v1 \<Longrightarrow> view_run acc c v1 outs v2 \<Longrightarrow> view_run acc c v (out @ outs) v2"
  by (induction rule: view_run.induct) (auto intro: view_run.go)

inductive_cases gate_movesE: "gate_moves c adm s out s'"
inductive_cases view_stepE: "view_step acc c v out v'"

section \<open>A run of the loop, seen from one connection\<close>

definition view :: "u64 \<Rightarrow> gate \<Rightarrow> (host_state \<times> bool) option" where
  "view c g = map_option (\<lambda>hc. (ha_state (hc_admission hc), hc_admitted hc)) (map_of (gt_connections g) c)"

fun about :: "u64 \<Rightarrow> room_event \<Rightarrow> bool" where
  "about c (EV_ClientConnected d) \<longleftrightarrow> d = c"
| "about c (EV_PasswordVerified d) \<longleftrightarrow> d = c"
| "about c (EV_JoinRequested d _) \<longleftrightarrow> d = c"
| "about c (EV_ChatReceived d _ _) \<longleftrightarrow> d = c"
| "about c (EV_ConnectionLost d) \<longleftrightarrow> d = c"
| "about c (EV_MemberCommand d _) \<longleftrightarrow> d = c"
| "about c (EV_EpochAck d _) \<longleftrightarrow> d = c"
| "about c _ \<longleftrightarrow> False"

definition sim :: "bool \<Rightarrow> u64 \<Rightarrow> gate \<Rightarrow> gate_result \<Rightarrow> bool" where
  "sim acc c g r \<longleftrightarrow> (case r of (out, g') \<Rightarrow> view_run acc c (view c g) (filter (about c) out) (view c g'))"

lemma sim_append: "sim acc c g (o1, g1) \<Longrightarrow> sim acc c g1 (o2, g2) \<Longrightarrow> sim acc c g (o1 @ o2, g2)"
  by (simp add: sim_def view_run_trans)

lemma sim_quiet: "view c g' = view c g \<Longrightarrow> \<forall>ev \<in> set out. \<not> about c ev \<Longrightarrow> sim acc c g (out, g')"
  by (simp add: sim_def filter_False view_run.stop)

lemma view_untouched [simp]:
  "view c (g\<lparr>gt_network := n\<rparr>) = view c g" "view c (g\<lparr>gt_guard := k\<rparr>) = view c g"
  "view c (g\<lparr>gt_policy := p\<rparr>) = view c g" "view c (g\<lparr>gt_token := t\<rparr>) = view c g"
  "view c (g\<lparr>gt_chat := s\<rparr>) = view c g"
  by (simp_all add: view_def)

lemma view_update [simp]:
  "view c (g\<lparr>gt_connections := AList.update d hc (gt_connections g)\<rparr>) =
     (if c = d then Some (ha_state (hc_admission hc), hc_admitted hc) else view c g)"
  by (simp add: view_def update_conv')

lemma view_drop [simp]: "view c (drop_connection d g) = (if c = d then None else view c g)"
  by (simp add: view_def drop_connection_def delete_conv')

lemma view_reply [simp]: "view c (snd (reply d m g)) = view c g" "reply d m g = (r, g') \<Longrightarrow> view c g' = view c g"
  by (auto simp: reply_def split: prod.splits)

lemma view_touch_seen [simp]: "view c (touch_seen d now g) = view c g"
  by (auto simp: touch_seen_def view_def update_conv' split: option.splits)

lemma view_touch_stage [simp]: "view c (touch_stage d s now g) = view c g"
  by (auto simp: touch_stage_def view_def update_conv' split: option.splits)

lemma view_count_failure [simp]: "view c (count_failure code now g) = view c g"
  by (simp add: count_failure_def)

lemma sim_drop: "sim acc c g ([EV_ConnectionLost d], drop_connection d g)" "sim acc c g ([], drop_connection d g)"
  by (auto simp: sim_def intro: view_run_one view_step.intros)

lemma sim_expire: "sim acc c g (expire E now g)"
proof -
  have "sim acc c g (map EV_ConnectionLost cs, fold drop_connection cs g)" for cs
  proof (induction cs arbitrary: g)
    case Nil
    show ?case by (simp add: sim_quiet)
  next
    case (Cons d cs)
    from sim_append [OF sim_drop(1) Cons.IH] show ?case by simp
  qed
  then show ?thesis by (simp add: expire_def Let_def)
qed

lemma sim_connect: "sim acc c g (on_connect E d es t1 t2 g)"
proof -
  have "sim acc c g ([EV_ClientConnected d], g\<lparr>gt_connections := AList.update d
      \<lparr>hc_admission = h, hc_stage_since = t2, hc_last_seen = t2, hc_admitted = False\<rparr> (gt_connections g)\<rparr>)"
    if "ha_state h = HS_AwaitingHello" for h
    using that by (auto simp: sim_def intro: view_run_one view_step.connects view_run.stop)
  then show ?thesis
    by (auto simp: on_connect_def host_admission_new_def Let_def sim_quiet split: option.splits sum.splits prod.splits)
qed

text \<open>A message: the admission flow takes one of its moves, or the connection is dropped.\<close>

lemma hello_moves:
  assumes "on_client_hello C hello port h = (Inr answer, h')"
  shows "gate_moves c adm (ha_state h) [] (ha_state h')"
  using assms by (auto simp: on_client_hello_def intro: gate_moves.intros split: if_splits)

definition told :: "u64 \<Rightarrow> host_admission_reply option \<Rightarrow> room_event list" where
  "told c answer =
     (case answer of
        None \<Rightarrow> [EV_PasswordVerified c]
      | Some (HR_JoinRequested app) \<Rightarrow> [EV_JoinRequested c app]
      | Some (HR_Message _) \<Rightarrow> [])"

lemma message_moves:
  assumes "host_on_message C K m policy h = (Inr answer, h')"
  shows "gate_moves c adm (ha_state h) (told c answer) (ha_state h')"
  using assms
  by (auto simp: host_on_message_def handle_token_def handle_proof_def handle_join_request_def told_def
      intro: gate_moves.intros split: host_state.splits message.splits if_splits option.splits sum.splits prod.splits)

lemma view_put [simp]:
  "view c (put_admission d hc h g) = (if c = d then Some (ha_state h, hc_admitted hc) else view c g)"
  by (simp add: put_admission_def)

lemma view_reply_or_fail: "reply_or_fail d m g = (r, g') \<Longrightarrow> (\<forall>c. view c g' = view c g) \<and> (r = Inr [] \<or> (\<exists>e. r = Inl e))"
  by (auto simp: reply_or_fail_def split: prod.splits sum.splits)

text \<open>Chat and acknowledgements pass only in the state of an admitted connection.\<close>

lemma accepts_active:
  "connection_accepts (gate_state hc) MC_Chat \<Longrightarrow> hc_admitted hc \<and> ha_state (hc_admission hc) = HS_Decided"
  "connection_accepts (gate_state hc) MC_Epoch \<Longrightarrow> hc_admitted hc \<and> ha_state (hc_admission hc) = HS_Decided"
  by (auto simp: connection_accepts_def gate_state_def split: host_state.splits if_splits)

lemma dispatch_moves:
  assumes "dispatch E d m hc g = (Inr evs, g')" and "map_of (gt_connections g) d = Some hc"
    and "connection_accepts (gate_state hc) (message_type_class (message_message_type m))"
  shows "(\<exists>s'. gate_moves d (hc_admitted hc) (ha_state (hc_admission hc)) evs s' \<and> view d g' = Some (s', hc_admitted hc)) \<and>
    (\<forall>c. c \<noteq> d \<longrightarrow> view c g' = view c g)"
proof -
  have here: "view d g = Some (ha_state (hc_admission hc), hc_admitted hc)" using assms(2) by (simp add: view_def)
  have message: "\<exists>answer h. host_on_message (ge_crypto E) (ge_kdf E) m (gt_policy g) (hc_admission hc) = (Inr answer, h) \<and>
      evs = told d answer \<and> (\<forall>c. view c g' = view c (put_admission d hc h g))"
    if "message_message_type m \<in> {MT_TokenVerify, MT_ChallengeProof, MT_JoinRequest}"
    using that assms(1)
    by (cases m) (auto simp: dispatch_def told_def dest!: view_reply_or_fail split: prod.splits sum.splits option.splits
        host_admission_reply.splits)
  show ?thesis
  proof (cases "message_message_type m \<in> {MT_TokenVerify, MT_ChallengeProof, MT_JoinRequest}")
    case True
    from message [OF this] show ?thesis using message_moves by fastforce
  next
    case False
    with assms here accepts_active [of hc] show ?thesis
      by (cases m) (auto simp: dispatch_def dest!: view_reply_or_fail hello_moves
          intro: gate_moves.intros split: prod.splits sum.splits)
  qed
qed

lemma sim_inbound: "sim acc c g (on_inbound E d arrived t1 t2 g)"
proof (cases arrived)
  case None
  then show ?thesis by (simp add: on_inbound_def sim_drop)
next
  case (Some m)
  let ?g = "touch_seen d t1 g"
  obtain r g1 where h: "handle_host_message E d m t2 ?g = (r, g1)" by fastforce
  show ?thesis
  proof (cases r)
    case (Inl e)
    have "view c g1 = view c g \<or> c = d"
      using h by (auto simp: handle_host_message_def dispatch_def tryS_def dest!: view_reply_or_fail
          split: option.splits if_splits message.splits sum.splits prod.splits host_admission_reply.splits)
    with Some h Inl show ?thesis
      by (cases e) (auto simp: on_inbound_def sim_def intro: view_run_one view_step.intros)
  next
    case (Inr evs)
    with h obtain hc g2 where d: "map_of (gt_connections ?g) d = Some hc"
        "connection_accepts (gate_state hc) (message_type_class (message_message_type m))"
        "dispatch E d m hc ?g = (Inr evs, g2)" "\<And>c. view c g1 = view c g2"
      by (auto simp: handle_host_message_def tryS_def split: option.splits if_splits sum.splits prod.splits)
    from dispatch_moves [OF d(3,1,2)] obtain s' where
      move: "gate_moves d (hc_admitted hc) (ha_state (hc_admission hc)) evs s'" "view d g2 = Some (s', hc_admitted hc)"
      and other: "c \<noteq> d \<Longrightarrow> view c g2 = view c g" by auto
    have "\<forall>ev \<in> set evs. about c ev \<longleftrightarrow> c = d" using move(1) by (auto elim!: gate_movesE)
    then have evs: "filter (about c) evs = (if c = d then evs else [])" by (auto simp: filter_True filter_False)
    have "view d g = Some (ha_state (hc_admission hc), hc_admitted hc)"
      using d(1) view_touch_seen [of d d t1 g] by (simp add: view_def)
    then show ?thesis
      using Some h Inr evs move other d(4) by (auto simp: on_inbound_def sim_def intro: view_run_one view_step.moves)
  qed
qed

section \<open>Actions, commands and whole runs\<close>

lemma gate_run_append:
  "gate_run E (evs @ evs') g =
     (case gate_run E evs g of (out, g1) \<Rightarrow> (case gate_run E evs' g1 of (outs, g2) \<Rightarrow> (out @ outs, g2)))"
  by (induction evs arbitrary: g) (simp_all split: prod.splits)

text \<open>The batches of the room in which the applicant of a connection is accepted.\<close>

definition accepts_in :: "u64 \<Rightarrow> room_action list \<Rightarrow> bool" where
  "accepts_in c acts \<longleftrightarrow> (\<exists>a. RA_SendTo c (M_JoinAccepted a) \<in> set acts)"

fun accepts_event :: "u64 \<Rightarrow> gate_event \<Rightarrow> bool" where
  "accepts_event c (GV_Turn _ _ _ (GB_Actions acts)) \<longleftrightarrow> accepts_in c acts"
| "accepts_event c _ \<longleftrightarrow> False"

lemma view_admit:
  "view c (admit_connection d now g) =
     (if c = d then map_option (\<lambda>(s, adm). (s, True)) (view c g) else view c g)"
  by (auto simp: admit_connection_def Let_def view_def update_conv' split: option.splits)

lemma sim_send:
  "(message_message_type m = MT_JoinAccepted \<Longrightarrow> c = d \<Longrightarrow> acc) \<Longrightarrow> sim acc c g (send_to_peer d m now g)"
  by (cases "view c g") (auto simp: send_to_peer_def sim_def view_admit filter_False
      intro: view_run_one view_step.intros view_run.stop split: prod.splits sum.splits)

lemma host_receives_quiet:
  assumes "host_receives E m g = (out, g')" and "c \<noteq> HOST_CONNECTION"
  shows "view c g' = view c g \<and> (\<forall>ev \<in> set out. \<not> about c ev)"
  using assms by (cases m) (auto simp: host_receives_def host_wrap_def split: sum.splits)

lemma send_timeout_quiet:
  assumes "send_timeout E interval g = (out, g')" and "c \<noteq> HOST_CONNECTION"
  shows "view c g' = view c g \<and> (\<forall>ev \<in> set out. \<not> about c ev)"
  using assms by (auto simp: send_timeout_def split: prod.splits sum.splits message.splits)

lemma on_notice_quiet:
  assumes "on_notice E n g = (out, g')" and "c \<noteq> HOST_CONNECTION"
  shows "view c g' = view c g \<and> (\<forall>ev \<in> set out. \<not> about c ev)"
  using assms send_timeout_quiet [OF _ assms(2), of E]
  by (cases n) (fastforce simp: on_notice_def split: prod.splits)+

lemma command_quiet:
  assumes "handle_host_command E command g = (out, g')" and "c \<noteq> HOST_CONNECTION"
  shows "view c g' = view c g \<and> (\<forall>ev \<in> set out. \<not> about c ev)"
proof -
  have "(\<forall>ev \<in> set (case hc of HC_Accept _ \<Rightarrow> [refresh_requests] | HC_Reject _ \<Rightarrow> [refresh_requests] | _ \<Rightarrow> []). \<not> about c ev)" for hc
    by (cases hc) auto
  with assms send_timeout_quiet [OF _ assms(2), of E] show ?thesis
    by (cases command) (auto simp: handle_host_command_def split: prod.splits sum.splits message.splits option.splits)
qed

lemma sim_action:
  assumes "c \<noteq> HOST_CONNECTION" and "accepts_in c [act] \<Longrightarrow> acc"
  shows "sim acc c g (on_action E now act g)"
proof (cases act)
  case (RA_SendTo d m)
  show ?thesis
  proof (cases "d = HOST_CONNECTION")
    case True
    obtain out g' where "host_receives E m g = (out, g')" by fastforce
    with host_receives_quiet [OF this assms(1)] RA_SendTo True show ?thesis by (simp add: on_action_def sim_quiet)
  next
    case False
    have "sim acc c g (send_to_peer d m now g)"
    proof (rule sim_send)
      assume "message_message_type m = MT_JoinAccepted" "c = d"
      with RA_SendTo assms(2) show acc by (cases m) (auto simp: accepts_in_def)
    qed
    with RA_SendTo False show ?thesis by (simp add: on_action_def)
  qed
next
  case (RA_NotifyHost n)
  obtain out g' where "on_notice E n g = (out, g')" by fastforce
  with on_notice_quiet [OF this assms(1)] RA_NotifyHost show ?thesis by (simp add: on_action_def sim_quiet)
qed (simp add: on_action_def sim_drop)

lemma sim_actions:
  assumes "c \<noteq> HOST_CONNECTION"
  shows "(accepts_in c acts \<Longrightarrow> acc) \<Longrightarrow> sim acc c g (handle_host_actions E now acts g)"
proof (induction acts arbitrary: g)
  case Nil
  then show ?case by (simp add: sim_quiet)
next
  case (Cons act acts)
  obtain o1 g1 o2 g2 where s: "on_action E now act g = (o1, g1)" "handle_host_actions E now acts g1 = (o2, g2)"
    by fastforce
  have "sim acc c g (o1, g1)" using sim_action [OF assms, of act acc g E now] Cons.prems s(1) by (auto simp: accepts_in_def)
  moreover have "sim acc c g1 (o2, g2)" using Cons s(2) by (metis accepts_in_def list.set_intros(2))
  ultimately show ?case using s by (simp add: sim_append)
qed

lemma sim_branch:
  assumes "c \<noteq> HOST_CONNECTION" and "accepts_event c (GV_Turn t0 t1 t2 branch) \<Longrightarrow> acc"
  shows "sim acc c g (gate_branch_step E t1 t2 branch g)"
proof (cases branch)
  case (GB_Command command)
  obtain out g' where "handle_host_command E command g = (out, g')" by fastforce
  with command_quiet [OF this assms(1)] GB_Command show ?thesis by (simp add: gate_branch_step_def sim_quiet)
next
  case (GB_Connect es)
  show ?thesis
  proof (cases "hn_connects (gt_network g)")
    case (Cons d ds)
    from sim_connect [of acc c "g\<lparr>gt_network := (gt_network g)\<lparr>hn_connects := ds\<rparr>\<rparr>" E d es t1 t2] GB_Connect Cons
    show ?thesis by (simp add: gate_branch_step_def sim_def)
  qed (simp add: GB_Connect gate_branch_step_def sim_quiet)
qed (use assms in \<open>simp_all add: gate_branch_step_def sim_quiet sim_inbound sim_actions\<close>)

lemma sim_step:
  assumes "c \<noteq> HOST_CONNECTION" and "accepts_event c ev \<Longrightarrow> acc"
  shows "sim acc c g (gate_step E ev g)"
proof (cases ev)
  case (GV_Turn t0 t1 t2 branch)
  obtain o1 g1 o2 g2 where s: "expire E t0 g = (o1, g1)" "gate_branch_step E t1 t2 branch g1 = (o2, g2)" by fastforce
  have "sim acc c g (o1 @ o2, g2)"
    using sim_append sim_expire [of acc c g E t0] sim_branch [OF assms(1), of t0 t1 t2 branch acc g1 E] assms(2) GV_Turn s
    by metis
  with GV_Turn s show ?thesis by (simp add: gate_step_def)
qed (simp_all add: gate_step_def sim_quiet)

lemma gate_run_simulated:
  assumes "c \<noteq> HOST_CONNECTION"
  shows "(\<exists>ev \<in> set evs. accepts_event c ev) \<longrightarrow> acc \<Longrightarrow> sim acc c g (gate_run E evs g)"
proof (induction evs arbitrary: g)
  case Nil
  then show ?case by (simp add: sim_quiet)
next
  case (Cons ev evs)
  obtain o1 g1 o2 g2 where s: "gate_step E ev g = (o1, g1)" "gate_run E evs g1 = (o2, g2)" by fastforce
  have "sim acc c g (o1, g1)" using sim_step [OF assms, of ev acc g E] Cons.prems s(1) by auto
  moreover have "sim acc c g1 (o2, g2)" using Cons s(2) by (metis list.set_intros(2))
  ultimately show ?case using s by (simp add: sim_append)
qed

section \<open>What the room hears of a connection\<close>

datatype gate_phase = GP_None | GP_Connected | GP_Vetted | GP_Applied | GP_Violated

fun advance :: "u64 \<Rightarrow> room_event \<Rightarrow> gate_phase \<Rightarrow> gate_phase" where
  "advance c _ GP_Violated = GP_Violated"
| "advance c (EV_ClientConnected d) p = (if d = c then GP_Connected else p)"
| "advance c (EV_PasswordVerified d) p = (if d \<noteq> c then p else if p = GP_Connected then GP_Vetted else GP_Violated)"
| "advance c (EV_JoinRequested d _) p = (if d \<noteq> c then p else if p = GP_Vetted then GP_Applied else GP_Violated)"
| "advance c (EV_EpochAck d _) p = (if d \<noteq> c then p else if p = GP_Applied then p else GP_Violated)"
| "advance c (EV_ChatReceived d _ _) p = (if d \<noteq> c then p else if p = GP_Applied then p else GP_Violated)"
| "advance c (EV_MemberCommand d _) p = (if d \<noteq> c then p else GP_Violated)"
| "advance c _ p = p"

fun speaks :: "u64 \<Rightarrow> room_event \<Rightarrow> bool" where
  "speaks c (EV_EpochAck d _) \<longleftrightarrow> d = c"
| "speaks c (EV_ChatReceived d _ _) \<longleftrightarrow> d = c"
| "speaks c _ \<longleftrightarrow> False"

definition phase_of :: "host_state \<Rightarrow> gate_phase" where
  "phase_of s = (case s of HS_AwaitingJoinForm \<Rightarrow> GP_Vetted | HS_Decided \<Rightarrow> GP_Applied | _ \<Rightarrow> GP_Connected)"

definition phase_ok :: "(host_state \<times> bool) option \<Rightarrow> gate_phase \<Rightarrow> bool" where
  "phase_ok v p \<longleftrightarrow> p \<noteq> GP_Violated \<and> (case v of None \<Rightarrow> True | Some (s, _) \<Rightarrow> p = phase_of s)"

lemma advance_other: "\<not> about c ev \<Longrightarrow> advance c ev p = p"
  by (cases p; cases ev) auto

lemma fold_advance_filter: "fold (advance c) out p = fold (advance c) (filter (about c) out) p"
  by (induction out arbitrary: p) (simp_all add: advance_other)

lemma view_step_phase: "view_step acc c v out v' \<Longrightarrow> phase_ok v p \<Longrightarrow> phase_ok v' (fold (advance c) out p)"
  by (cases p) (auto simp: phase_ok_def phase_of_def elim!: view_stepE gate_movesE split: option.splits)

lemma view_run_phase: "view_run acc c v out v' \<Longrightarrow> phase_ok v p \<Longrightarrow> phase_ok v' (fold (advance c) out p)"
  by (induction arbitrary: p rule: view_run.induct) (auto dest: view_step_phase)

lemma view_run_silent:
  "view_run False c v out v' \<Longrightarrow> (\<forall>s. v \<noteq> Some (s, True)) \<Longrightarrow> \<forall>ev \<in> set out. \<not> speaks c ev"
proof (induction rule: view_run.induct)
  case (go v out v1 outs v2)
  from go.hyps(1) go.prems have "(\<forall>ev \<in> set out. \<not> speaks c ev) \<and> (\<forall>s. v1 \<noteq> Some (s, True))"
    by (auto elim!: view_stepE gate_movesE)
  with go.IH show ?case by auto
qed simp

lemma speaks_about: "speaks c ev \<Longrightarrow> about c ev"
  by (cases ev) auto

text \<open>
  C9: whatever the peers send and however the branches of the loop interleave, what the room hears of
  a connection follows the admission: after its connect notice a password proof is reported once,
  then at most one application, and only then acknowledgements and chat; and a connection
  speaks in the room only if the room has accepted its applicant. No peer can skip a stage of the gate.
\<close>

theorem gate_protocol:
  assumes "c \<noteq> HOST_CONNECTION" and "gate_run E evs (gate_start E nickname es) = (out, g)"
  shows "fold (advance c) out GP_None \<noteq> GP_Violated \<and>
    ((\<exists>ev \<in> set out. speaks c ev) \<longrightarrow> (\<exists>ev \<in> set evs. accepts_event c ev))"
proof -
  let ?acc = "\<exists>ev \<in> set evs. accepts_event c ev"
  have start: "view c (gate_start E nickname es) = None" by (simp add: view_def gate_start_def)
  have run: "view_run ?acc c None (filter (about c) out) (view c g)"
    using gate_run_simulated [OF assms(1), of evs ?acc "gate_start E nickname es" E] assms(2) start
    by (simp add: sim_def)
  from view_run_phase [OF run, of GP_None] have "fold (advance c) out GP_None \<noteq> GP_Violated"
    by (simp add: phase_ok_def fold_advance_filter [of c out])
  moreover have "\<forall>ev \<in> set out. \<not> speaks c ev" if "\<not> ?acc"
    using view_run_silent [of c None "filter (about c) out" "view c g"] run that speaks_about by auto
  ultimately show ?thesis by blast
qed

section \<open>A concrete room\<close>

definition demo_gate_env :: gate_env where
  "demo_gate_env =
     \<lparr>ge_crypto = plain_crypto, ge_kdf = plain_kdf, ge_nfc = id, ge_timeouts = default_timeouts,
      ge_verifier = \<lparr>pv_salt = [], pv_m_cost = ARGON2_M_COST, pv_t_cost = ARGON2_T_COST,
                     pv_p_cost = ARGON2_P_COST, pv_derived_key = [1]\<rparr>,
      ge_host_identity = \<lparr>id_ed25519 = [1], id_x25519 = [2]\<rparr>,
      ge_client_identity = \<lparr>id_ed25519 = [3], id_x25519 = [4]\<rparr>,
      ge_session_id = replicate 32 9, ge_onion_address = rs ''a.onion'',
      ge_error_text = (\<lambda>_. rs ''refused''), ge_debug_text = (\<lambda>_ _. rs ''unexpected''), ge_order = id\<rparr>"

definition demo_connection :: "duration \<Rightarrow> host_connection" where
  "demo_connection since =
     \<lparr>hc_admission =
        \<lparr>ha_room_session_id = replicate 32 9, ha_server_nonce = pad NONCE_LEN [], ha_token = [],
         ha_verifier = ge_verifier demo_gate_env, ha_host_identity = ge_host_identity demo_gate_env,
         ha_onion_address = rs ''a.onion'', ha_client_nonce = None, ha_challenge_nonce = None,
         ha_state = HS_AwaitingHello, ha_entropy = []\<rparr>,
      hc_stage_since = since, hc_last_seen = since, hc_admitted = False\<rparr>"

definition demo_gate :: gate where
  "demo_gate = gate_start demo_gate_env (rs ''ada'') []"

lemma demo_connects:
  "gate_run demo_gate_env [GV_Accept True, GV_Turn 0 0 7 (GB_Connect [Some []])] demo_gate =
     ([EV_ClientConnected 1],
      demo_gate\<lparr>gt_connections := [(1, demo_connection 7)],
        gt_network := \<lparr>hn_peers = [(1, peer_spawn)], hn_connects = [], hn_next_id = 2,
          hn_consecutive_errors = 0, hn_listening = True\<rparr>\<rparr>)"
  by (simp add: gate_step_def expire_def stale_connections_def gate_branch_step_def on_connect_def demo_gate_def
      gate_start_def guard_new_def guard_remaining_def host_admission_new_def fill_random_def demo_gate_env_def
      demo_connection_def accept_step_def listen_def default_limits_def pad_def)

text \<open>A peer that acknowledges an epoch before its hello is dropped, and the room never hears of the acknowledgement.\<close>

lemma gate_protocol_witness:
  "\<exists>out g. gate_run demo_gate_env [GV_Accept True, GV_Turn 0 0 7 (GB_Connect [Some []]),
      GV_Turn 8 8 8 (GB_Inbound 1 (Some (M_EpochAck \<lparr>ea_epoch = 1\<rparr>)))] demo_gate = (out, g) \<and>
    out = [EV_ClientConnected 1, EV_ConnectionLost 1] \<and> fold (advance 1) out GP_None \<noteq> GP_Violated"
proof -
  let ?first = "[GV_Accept True, GV_Turn 0 0 7 (GB_Connect [Some []])]"
  let ?ack = "GV_Turn 8 8 8 (GB_Inbound 1 (Some (M_EpochAck \<lparr>ea_epoch = 1\<rparr>)))"
  have run: "fst (gate_run demo_gate_env (?first @ [?ack]) demo_gate) = [EV_ClientConnected 1, EV_ConnectionLost 1]"
    by (simp only: gate_run_append demo_connects)
      (simp add: gate_step_def expire_def stale_connections_def is_stale_def stage_timeout_def gate_branch_step_def
        on_inbound_def touch_seen_def handle_host_message_def demo_connection_def connection_accepts_def gate_state_def
        demo_gate_env_def default_timeouts_def secs_def demo_gate_def gate_start_def count_failure_def)
  obtain out g where "gate_run demo_gate_env (?first @ [?ack]) demo_gate = (out, g)" by fastforce
  with run gate_protocol [of 1 demo_gate_env "?first @ [?ack]" "rs ''ada''" "[]" out g] show ?thesis
    by (simp add: HOST_CONNECTION_def demo_gate_def)
qed

end
