(* ===== verification/GateBounds.thy ===== *)
theory GateBounds
  imports GateRules
begin

text \<open>
  Bounds that the supervisor loop enforces: how often a password can be guessed, and how long a
  connection may stay in a stage.
\<close>

section \<open>Guesses\<close>

text \<open>The connections whose peer has not yet proved the password.\<close>

definition unproven :: "gate \<Rightarrow> u64 set" where
  "unproven g = {c. \<exists>s adm. view c g = Some (s, adm) \<and> s \<in> {HS_AwaitingHello, HS_AwaitingToken, HS_AwaitingProof}}"

definition verified_count :: "room_event list \<Rightarrow> nat" where
  "verified_count out = length (filter (\<lambda>ev. case ev of EV_PasswordVerified _ \<Rightarrow> True | _ \<Rightarrow> False) out)"

definition connected_count :: "room_event list \<Rightarrow> nat" where
  "connected_count out = length (filter (\<lambda>ev. case ev of EV_ClientConnected _ \<Rightarrow> True | _ \<Rightarrow> False) out)"

lemma counts_append [simp]:
  "verified_count (xs @ ys) = verified_count xs + verified_count ys"
  "connected_count (xs @ ys) = connected_count xs + connected_count ys"
  by (simp_all add: verified_count_def connected_count_def)

lemma finite_unproven [simp]: "finite (unproven g)"
  by (rule finite_subset [OF _ finite_dom_map_of [of "gt_connections g"]]) (auto simp: unproven_def view_def)

text \<open>The guesses made are paid for by connections.\<close>

definition paid :: "gate \<Rightarrow> gate_result \<Rightarrow> bool" where
  "paid g r \<longleftrightarrow> (case r of (out, g') \<Rightarrow>
     unat (pg_failures (gt_guard g')) + verified_count out + card (unproven g') \<le>
     unat (pg_failures (gt_guard g)) + connected_count out + card (unproven g))"

lemma paid_append: "paid g (o1, g1) \<Longrightarrow> paid g1 (o2, g2) \<Longrightarrow> paid g (o1 @ o2, g2)"
  by (simp add: paid_def)

lemma paid_quiet:
  assumes "verified_count out = 0" and "unproven g' \<subseteq> unproven g" and "gt_guard g' = gt_guard g"
  shows "paid g (out, g')"
  using assms card_mono [OF finite_unproven assms(2)] by (simp add: paid_def)

lemma unproven_drop: "unproven (drop_connection c g) = unproven g - {c}"
  by (auto simp: unproven_def)

lemma guard_drop [simp]: "gt_guard (drop_connection c g) = gt_guard g"
  by (simp add: drop_connection_def)

lemma paid_expire: "paid g (expire E now g)"
proof -
  have "paid g (map EV_ConnectionLost cs, fold drop_connection cs g)" for cs
  proof (induction cs arbitrary: g)
    case Nil
    show ?case by (simp add: paid_quiet verified_count_def)
  next
    case (Cons c cs)
    have "paid g ([EV_ConnectionLost c], drop_connection c g)"
      by (rule paid_quiet) (auto simp: verified_count_def unproven_drop)
    from paid_append [OF this Cons.IH] show ?case by simp
  qed
  then show ?thesis by (simp add: expire_def Let_def)
qed

lemma unproven_untouched [simp]:
  "unproven (g\<lparr>gt_network := n\<rparr>) = unproven g" "unproven (g\<lparr>gt_guard := k\<rparr>) = unproven g"
  "unproven (g\<lparr>gt_policy := p\<rparr>) = unproven g" "unproven (g\<lparr>gt_token := t\<rparr>) = unproven g"
  "unproven (g\<lparr>gt_chat := s\<rparr>) = unproven g"
  by (simp_all add: unproven_def)

lemma reply_frame:
  "reply c m g = (r, g') \<Longrightarrow> gt_guard g' = gt_guard g \<and> unproven g' = unproven g \<and> gt_connections g' = gt_connections g"
  by (auto simp: reply_def split: prod.splits)

lemma reply_frame_snd [simp]:
  "gt_guard (snd (reply c m g)) = gt_guard g" "unproven (snd (reply c m g)) = unproven g"
  using reply_frame [of c m g] by (metis prod.collapse)+

lemma paid_connect: "paid g (on_connect E c es t1 t2 g)"
proof -
  have "paid g ([EV_ClientConnected c], g\<lparr>gt_connections := AList.update c hc (gt_connections g)\<rparr>)" for hc
  proof -
    have "unproven (g\<lparr>gt_connections := AList.update c hc (gt_connections g)\<rparr>) \<subseteq> insert c (unproven g)"
      by (auto simp: unproven_def split: if_splits)
    from card_mono [OF _ this] card_insert_le_m1 [of "Suc (card (unproven g))" "unproven g" c] show ?thesis
      by (simp add: paid_def verified_count_def connected_count_def)
  qed
  then show ?thesis
    by (auto simp: on_connect_def Let_def paid_quiet verified_count_def split: option.splits sum.splits)
qed

text \<open>A move keeps the connection among the unproven, except for the one that reports the proof.\<close>

lemma paid_move:
  assumes "gate_moves d adm s evs s'" and "view d g = Some (s, adm)" and "view d g' = Some (s', adm)"
    and "\<And>c. c \<noteq> d \<Longrightarrow> view c g' = view c g" and "gt_guard g' = gt_guard g"
  shows "paid g (evs, g')"
proof (cases "verified_count evs = 0")
  case True
  have "unproven g' \<subseteq> unproven g"
  proof
    fix c assume "c \<in> unproven g'"
    with assms(1-4) show "c \<in> unproven g"
      by (cases "c = d") (auto simp: unproven_def elim!: gate_movesE)
  qed
  with True assms(5) show ?thesis by (simp add: paid_quiet)
next
  case False
  with assms(1) have evs: "evs = [EV_PasswordVerified d]" "s = HS_AwaitingProof" "s' = HS_AwaitingJoinForm"
    by (auto simp: verified_count_def elim!: gate_movesE)
  have "d \<in> unproven g" using assms(2) evs by (simp add: unproven_def)
  moreover have "unproven g' = unproven g - {d}"
  proof (rule set_eqI)
    fix c
    show "c \<in> unproven g' \<longleftrightarrow> c \<in> unproven g - {d}"
      using assms(3,4) evs(3) by (cases "c = d") (simp_all add: unproven_def)
  qed
  ultimately have "Suc (card (unproven g')) = card (unproven g)" by (metis card_Suc_Diff1 finite_unproven)
  with evs assms(5) show ?thesis by (simp add: paid_def verified_count_def connected_count_def)
qed

lemma touch_frame [simp]:
  "gt_guard (touch_seen c now g) = gt_guard g" "gt_guard (touch_stage c s now g) = gt_guard g"
  "unproven (touch_seen c now g) = unproven g" "unproven (touch_stage c s now g) = unproven g"
  by (auto simp: touch_seen_def touch_stage_def unproven_def view_def update_conv' split: option.splits)

text \<open>Only the refusal of a password proof carries its error code.\<close>

lemma hello_code:
  assumes "on_client_hello C hello port h = (Inl e, h')"
  shows "admission_error_code e \<noteq> EC_InvalidPasswordProof \<and> h' = h"
  using assms by (auto simp: on_client_hello_def split: if_splits)

lemma message_code:
  assumes "host_on_message C K m policy h = (Inl e, h')"
  shows "ha_state h' = ha_state h \<and> (admission_error_code e = EC_InvalidPasswordProof \<longrightarrow> ha_state h = HS_AwaitingProof)"
  using assms
  by (auto simp: host_on_message_def handle_token_def handle_proof_def handle_join_request_def
      split: host_state.splits message.splits if_splits option.splits sum.splits prod.splits)

lemma guard_put [simp]: "gt_guard (put_admission d hc h g) = gt_guard g"
  by (simp add: put_admission_def)

lemma reply_or_fail_frame:
  "reply_or_fail d m g = (r, g') \<Longrightarrow> gt_guard g' = gt_guard g \<and> (\<forall>c. view c g' = view c g) \<and>
     (r = Inr [] \<or> r = Inl (EC_Internal, rs ''connection closed''))"
  by (auto simp: reply_or_fail_def dest!: reply_frame split: prod.splits sum.splits)

lemma dispatch_guard: "dispatch E d m hc g = (r, g') \<Longrightarrow> gt_guard g' = gt_guard g"
  by (auto simp: dispatch_def dest!: reply_or_fail_frame
      split: message.splits if_splits prod.splits sum.splits option.splits host_admission_reply.splits)

lemma dispatch_fails:
  assumes "dispatch E d m hc g = (Inl (code, reason), g')"
  shows "gt_guard g' = gt_guard g \<and> (\<forall>c. c \<noteq> d \<longrightarrow> view c g' = view c g) \<and>
    (code = EC_InvalidPasswordProof \<longrightarrow> ha_state (hc_admission hc) = HS_AwaitingProof)"
  using assms dispatch_guard [OF assms]
  by (auto simp: dispatch_def admission_failure_def dest!: reply_or_fail_frame hello_code message_code
      split: message.splits if_splits prod.splits sum.splits option.splits host_admission_reply.splits)

lemma handle_fails:
  assumes "handle_host_message E d m now g = (Inl (code, reason), g')"
  shows "gt_guard g' = gt_guard g \<and> (\<forall>c. c \<noteq> d \<longrightarrow> view c g' = view c g) \<and>
    (code = EC_InvalidPasswordProof \<longrightarrow> d \<in> unproven g)"
  using assms
  by (auto simp: handle_host_message_def tryS_def unproven_def view_def [of d g] dest!: dispatch_fails
      split: option.splits if_splits sum.splits prod.splits)

lemma handle_succeeds:
  assumes "handle_host_message E d m now g = (Inr evs, g')"
  shows "\<exists>s s' adm. gate_moves d adm s evs s' \<and> view d g = Some (s, adm) \<and> view d g' = Some (s', adm) \<and>
    (\<forall>c. c \<noteq> d \<longrightarrow> view c g' = view c g) \<and> gt_guard g' = gt_guard g"
proof -
  from assms obtain hc g2 where d: "map_of (gt_connections g) d = Some hc"
      "connection_accepts (gate_state hc) (message_type_class (message_message_type m))"
      "dispatch E d m hc g = (Inr evs, g2)" "g' = touch_stage d (ha_state (hc_admission hc)) now g2"
    by (auto simp: handle_host_message_def tryS_def split: option.splits if_splits sum.splits prod.splits)
  from dispatch_moves [OF d(3,1,2)] dispatch_guard [OF d(3)] d(1,4) show ?thesis
    by (auto simp: view_def [of d g])
qed

lemma failures_once: "unat (pg_failures (snd (record_failure now g))) \<le> Suc (unat (pg_failures g))"
  by (auto simp: record_failure_def Let_def unat_plus_if' intro: le_SucI)

lemma paid_inbound: "paid g (on_inbound E d arrived t1 t2 g)"
proof (cases arrived)
  case None
  then show ?thesis
    by (simp add: on_inbound_def) (rule paid_quiet, auto simp: verified_count_def unproven_drop)
next
  case (Some m)
  let ?g = "touch_seen d t1 g"
  obtain r g1 where h: "handle_host_message E d m t2 ?g = (r, g1)" by fastforce
  show ?thesis
  proof (cases r)
    case (Inr evs)
    with handle_succeeds [of E d m t2 ?g evs g1] h Some show ?thesis
      by (auto simp: on_inbound_def intro: paid_move)
  next
    case (Inl e)
    obtain code reason where e: "e = (code, reason)" by fastforce
    let ?g' = "drop_connection d (snd (reply d (error_reply code reason) (count_failure code t2 g1)))"
    from handle_fails h Inl e have f: "gt_guard g1 = gt_guard g" "\<And>c. c \<noteq> d \<Longrightarrow> view c g1 = view c g"
      "code = EC_InvalidPasswordProof \<Longrightarrow> d \<in> unproven g" by fastforce+
    have sub: "unproven ?g' \<subseteq> unproven g - {d}"
      using f(2) by (auto simp: unproven_drop count_failure_def unproven_def split: if_splits)
    have "paid g ([EV_ConnectionLost d], ?g')"
    proof (cases "code = EC_InvalidPasswordProof")
      case True
      from card_mono [OF _ sub] f(3) [OF True] have "Suc (card (unproven ?g')) \<le> card (unproven g)"
        by (metis Suc_le_mono card_Suc_Diff1 finite_Diff finite_unproven)
      with failures_once [of t2 "gt_guard g"] True f(1) show ?thesis
        by (simp add: paid_def count_failure_def verified_count_def)
    next
      case False
      with sub f(1) show ?thesis by (intro paid_quiet) (auto simp: verified_count_def count_failure_def)
    qed
    with Some h Inl e show ?thesis by (simp add: on_inbound_def)
  qed
qed

text \<open>Actions and commands make no guesses.\<close>

definition calm :: "gate \<Rightarrow> gate_result \<Rightarrow> bool" where
  "calm g r \<longleftrightarrow> (case r of (out, g') \<Rightarrow>
     verified_count out = 0 \<and> unproven g' \<subseteq> unproven g \<and> gt_guard g' = gt_guard g)"

lemma calm_paid: "calm g r \<Longrightarrow> paid g r"
  by (auto simp: calm_def intro: paid_quiet split: prod.splits)

lemma admit_frame [simp]:
  "gt_guard (admit_connection c now g) = gt_guard g" "unproven (admit_connection c now g) = unproven g"
  by (auto simp: admit_connection_def Let_def unproven_def view_def update_conv' split: option.splits)

lemma calm_send: "calm g (send_to_peer c m now g)"
  by (auto simp: calm_def send_to_peer_def verified_count_def dest!: reply_frame split: prod.splits sum.splits)

lemma calm_host_receives: "calm g (host_receives E m g)"
  by (cases m) (auto simp: calm_def host_receives_def host_wrap_def verified_count_def split: sum.splits)

lemma calm_send_timeout: "calm g (send_timeout E interval g)"
  by (auto simp: calm_def send_timeout_def verified_count_def split: prod.splits sum.splits message.splits)

lemma calm_notice: "calm g (on_notice E n g)"
proof (cases n)
  case (HN_TimeoutRequestAccepted i seconds)
  obtain out g1 where t: "send_timeout E (Some seconds) g = (out, g1)" by fastforce
  with calm_send_timeout [of g E "Some seconds"] HN_TimeoutRequestAccepted show ?thesis
    by (simp add: on_notice_def calm_def) (simp add: verified_count_def)
qed (simp_all add: on_notice_def calm_send_timeout, simp_all add: calm_def verified_count_def)

lemma calm_action: "calm g (on_action E now act g)"
  by (cases act) (auto simp: on_action_def calm_send calm_host_receives calm_notice,
      auto simp: calm_def verified_count_def unproven_drop)

lemma paid_actions: "paid g (handle_host_actions E now acts g)"
proof (induction acts arbitrary: g)
  case Nil
  show ?case by (simp add: paid_quiet verified_count_def)
next
  case (Cons act acts)
  obtain o1 g1 o2 g2 where "on_action E now act g = (o1, g1)" "handle_host_actions E now acts g1 = (o2, g2)" by fastforce
  with calm_paid [OF calm_action, of g E now act] Cons [of g1] show ?case by (simp add: paid_append)
qed

lemma calm_command: "calm g (handle_host_command E command g)"
proof -
  have "verified_count (EV_HostCommand hc # (case hc of HC_Accept _ \<Rightarrow> [refresh_requests] | HC_Reject _ \<Rightarrow> [refresh_requests]
      | _ \<Rightarrow> [])) = 0" for hc
    by (cases hc) (simp_all add: verified_count_def)
  moreover have "verified_count [EV_MemberCommand c mc] = 0" "verified_count [EV_ChatReceived c t env] = 0"
    "verified_count [] = 0" for c mc t env
    by (simp_all add: verified_count_def)
  ultimately show ?thesis
    using calm_send_timeout [of g E]
    by (cases command) (auto simp: handle_host_command_def calm_def split: prod.splits sum.splits message.splits option.splits)
qed

lemma paid_step: "paid g (gate_step E ev g)"
proof (cases ev)
  case (GV_Turn t0 t1 t2 branch)
  have "paid h (gate_branch_step E t1 t2 branch h)" for h
  proof (cases branch)
    case (GB_Connect es)
    show ?thesis
    proof (cases "hn_connects (gt_network h)")
      case (Cons c cs)
      with paid_connect [of "h\<lparr>gt_network := (gt_network h)\<lparr>hn_connects := cs\<rparr>\<rparr>" E c es t1 t2] GB_Connect
      show ?thesis by (simp add: gate_branch_step_def paid_def)
    qed (simp add: GB_Connect gate_branch_step_def paid_quiet verified_count_def)
  qed (simp_all add: gate_branch_step_def paid_inbound paid_actions calm_paid calm_command, simp_all add: paid_quiet verified_count_def)
  note branch = this
  obtain o1 g1 o2 g2 where s: "expire E t0 g = (o1, g1)" "gate_branch_step E t1 t2 branch g1 = (o2, g2)" by fastforce
  have "paid g (o1 @ o2, g2)" using paid_append paid_expire [of g E t0] branch [of g1] s by metis
  with GV_Turn s show ?thesis by (simp add: gate_step_def)
qed (simp_all add: gate_step_def paid_quiet verified_count_def)

lemma paid_run: "paid g (gate_run E evs g)"
proof (induction evs arbitrary: g)
  case Nil
  show ?case by (simp add: paid_quiet verified_count_def)
next
  case (Cons ev evs)
  obtain o1 g1 o2 g2 where "gate_step E ev g = (o1, g1)" "gate_run E evs g1 = (o2, g2)" by fastforce
  with paid_step [of g E ev] Cons [of g1] show ?case by (simp add: paid_append)
qed

text \<open>
  C10: every guess at the password costs a connection. In any run of the supervisor, the failed proofs that
  the guard has counted and the proofs that succeeded are together at most as many as the connections
  that were let in; and while the guard is locked no connection is let in, so that a
  peer can only guess with what was open when the lockout began.
\<close>

theorem guesses_bounded:
  assumes "gate_run E evs (gate_start E nickname es) = (out, g)"
  shows "unat (pg_failures (gt_guard g)) + verified_count out \<le> connected_count out \<and>
    (guard_is_locked t1 (gt_guard g) \<longrightarrow>
      (\<forall>es t2. connected_count (fst (gate_branch_step E t1 t2 (GB_Connect es) g)) = 0))"
proof
  have "unproven (gate_start E nickname es) = {}" by (simp add: unproven_def view_def gate_start_def)
  with paid_run [of "gate_start E nickname es" E evs] assms
  show "unat (pg_failures (gt_guard g)) + verified_count out \<le> connected_count out"
    by (simp add: paid_def gate_start_def guard_new_def)
next
  show "guard_is_locked t1 (gt_guard g) \<longrightarrow>
      (\<forall>es t2. connected_count (fst (gate_branch_step E t1 t2 (GB_Connect es) g)) = 0)"
    by (auto simp: gate_branch_step_def on_connect_def Let_def connected_count_def guard_remaining_def
        guard_is_locked_def split: list.splits option.splits)
qed

lemma guesses_bounded_witness:
  "\<exists>out g. gate_run demo_gate_env [GV_Accept True, GV_Turn 0 0 7 (GB_Connect [Some []])] demo_gate = (out, g) \<and>
     unat (pg_failures (gt_guard g)) + verified_count out \<le> connected_count out \<and> connected_count out = 1"
proof -
  from guesses_bounded [OF demo_connects [unfolded demo_gate_def], where ?t1.0 = 0] demo_connects show ?thesis
    by (simp add: connected_count_def demo_gate_def)
qed

end
