(* ===== verification/GateStages.thy ===== *)
theory GateStages
  imports GateBounds
begin

text \<open>
  How long a connection may stay in a stage of the admission, and what the order of two ready branches of
  the loop decides for a new peer.
\<close>

section \<open>One entry for each connection\<close>

definition entries_ok :: "gate \<Rightarrow> bool" where
  "entries_ok g \<longleftrightarrow> distinct (map fst (gt_connections g))"

lemma entries_untouched [simp]:
  "entries_ok (g\<lparr>gt_network := n\<rparr>) = entries_ok g" "entries_ok (g\<lparr>gt_guard := k\<rparr>) = entries_ok g"
  "entries_ok (g\<lparr>gt_policy := p\<rparr>) = entries_ok g" "entries_ok (g\<lparr>gt_token := t\<rparr>) = entries_ok g"
  "entries_ok (g\<lparr>gt_chat := s\<rparr>) = entries_ok g"
  by (simp_all add: entries_ok_def)

lemma entries_update [simp]: "entries_ok g \<Longrightarrow> entries_ok (g\<lparr>gt_connections := AList.update c hc (gt_connections g)\<rparr>)"
  by (simp add: entries_ok_def distinct_update)

lemma entries_drop [simp]: "entries_ok g \<Longrightarrow> entries_ok (drop_connection c g)"
  by (simp add: entries_ok_def drop_connection_def distinct_delete)

lemma entries_fold_drop [simp]: "entries_ok g \<Longrightarrow> entries_ok (fold drop_connection cs g)"
  by (induction cs arbitrary: g) simp_all

lemma entries_reply: "reply c m g = (r, g') \<Longrightarrow> entries_ok g' = entries_ok g"
  by (auto simp: entries_ok_def dest!: reply_frame)

lemma entries_reply_snd [simp]: "entries_ok (snd (reply c m g)) = entries_ok g"
  by (metis entries_reply prod.collapse)

lemma entries_reply_or_fail: "reply_or_fail c m g = (r, g') \<Longrightarrow> entries_ok g' = entries_ok g"
  by (auto simp: reply_or_fail_def dest!: entries_reply split: prod.splits sum.splits)

lemma entries_put [simp]: "entries_ok g \<Longrightarrow> entries_ok (put_admission c hc h g)"
  by (simp add: put_admission_def)

lemma entries_touch [simp]:
  "entries_ok g \<Longrightarrow> entries_ok (touch_seen c now g)" "entries_ok g \<Longrightarrow> entries_ok (touch_stage c s now g)"
  by (simp_all add: touch_seen_def touch_stage_def split: option.split)

lemma entries_count [simp]: "entries_ok (count_failure code now g) = entries_ok g"
  by (simp add: count_failure_def)

lemma entries_admit [simp]: "entries_ok g \<Longrightarrow> entries_ok (admit_connection c now g)"
  using entries_update [of "g\<lparr>gt_network := mark_admitted c (gt_network g)\<rparr>"]
  by (simp add: admit_connection_def Let_def split: option.split)

text \<open>In the form of implications, which \<open>auto\<close> can chain forwards from an equation.\<close>

lemma entries_dispatch: "dispatch E d m hc g = (r, g') \<Longrightarrow> entries_ok g \<longrightarrow> entries_ok g'"
  by (auto simp: dispatch_def dest!: entries_reply_or_fail
      split: message.splits if_splits prod.splits sum.splits option.splits host_admission_reply.splits)

lemma entries_handle: "handle_host_message E d m now g = (r, g') \<Longrightarrow> entries_ok g \<longrightarrow> entries_ok g'"
  by (auto simp: handle_host_message_def tryS_def dest!: entries_dispatch split: option.splits if_splits prod.splits sum.splits)

lemma entries_inbound: "on_inbound E d arrived t1 t2 g = (out, g') \<Longrightarrow> entries_ok g \<longrightarrow> entries_ok g'"
  by (auto simp: on_inbound_def dest!: entries_handle split: option.splits prod.splits sum.splits)

lemma entries_connect: "on_connect E d es t1 t2 g = (out, g') \<Longrightarrow> entries_ok g \<longrightarrow> entries_ok g'"
  by (auto simp: on_connect_def Let_def split: option.splits sum.splits)

text \<open>The host's own chat session is not part of the entries.\<close>

lemma same_connections_host:
  "host_receives E m g = (out, g') \<Longrightarrow> gt_connections g' = gt_connections g"
  "send_timeout E interval g = (out, g') \<Longrightarrow> gt_connections g' = gt_connections g"
  by (auto simp: host_receives_def host_wrap_def send_timeout_def split: message.splits sum.splits prod.splits)

lemma same_connections_notice: "on_notice E n g = (out, g') \<Longrightarrow> gt_connections g' = gt_connections g"
  using same_connections_host(2) by (cases n) (fastforce simp: on_notice_def split: prod.splits)+

lemma same_connections_command:
  assumes "handle_host_command E command g = (out, g')"
  shows "gt_connections g' = gt_connections g"
proof (cases command)
  case (SC_Timeout interval)
  with assms same_connections_host(2) show ?thesis by (simp add: handle_host_command_def)
next
  case (SC_Color color)
  with assms show ?thesis
    by (auto simp: handle_host_command_def split: prod.splits sum.splits message.splits)
qed (use assms in \<open>auto simp: handle_host_command_def split: option.splits\<close>)

lemma entries_same: "gt_connections g' = gt_connections g \<Longrightarrow> entries_ok g \<longrightarrow> entries_ok g'"
  by (simp add: entries_ok_def)

lemma entries_send: "send_to_peer c m now g = (out, g') \<Longrightarrow> entries_ok g \<longrightarrow> entries_ok g'"
  by (auto simp: send_to_peer_def dest!: entries_reply split: prod.splits sum.splits if_splits)

lemma entries_action:
  assumes "on_action E now act g = (out, g')"
  shows "entries_ok g \<longrightarrow> entries_ok g'"
proof (cases act)
  case (RA_SendTo c m)
  with assms show ?thesis
    using entries_send entries_same [OF same_connections_host(1)] by (cases "c = HOST_CONNECTION") (simp_all add: on_action_def)
next
  case (RA_CloseConnection c)
  with assms show ?thesis by (auto simp: on_action_def)
next
  case (RA_NotifyHost n)
  with assms show ?thesis using entries_same [OF same_connections_notice] by (simp add: on_action_def)
qed

lemma entries_actions: "handle_host_actions E now acts g = (out, g') \<Longrightarrow> entries_ok g \<longrightarrow> entries_ok g'"
proof (induction acts arbitrary: g out)
  case (Cons act acts)
  from Cons.prems obtain o1 g1 o2 where "on_action E now act g = (o1, g1)" "handle_host_actions E now acts g1 = (o2, g')"
    by (auto split: prod.splits)
  with Cons.IH entries_action show ?case by blast
qed simp

lemma entries_branch:
  assumes "gate_branch_step E t1 t2 branch g = (out, g')"
  shows "entries_ok g \<longrightarrow> entries_ok g'"
proof (cases branch)
  case (GB_Connect es)
  with assms show ?thesis by (auto simp: gate_branch_step_def dest!: entries_connect split: list.splits)
next
  case (GB_Command command)
  with assms show ?thesis using entries_same [OF same_connections_command] by (simp add: gate_branch_step_def)
qed (use assms entries_actions entries_inbound in \<open>auto simp: gate_branch_step_def\<close>)

lemma entries_step:
  assumes "gate_step E ev g = (out, g')"
  shows "entries_ok g \<longrightarrow> entries_ok g'"
proof (cases ev)
  case (GV_Turn t0 t1 t2 branch)
  with assms show ?thesis
    by (auto simp: gate_step_def expire_def Let_def dest!: entries_branch split: prod.splits)
qed (use assms in \<open>auto simp: gate_step_def\<close>)

lemma entries_run: "gate_run E evs g = (out, g') \<Longrightarrow> entries_ok g \<longrightarrow> entries_ok g'"
proof (induction evs arbitrary: g out)
  case (Cons ev evs)
  from Cons.prems obtain o1 g1 o2 where "gate_step E ev g = (o1, g1)" "gate_run E evs g1 = (o2, g')"
    by (auto split: prod.splits)
  with Cons.IH entries_step show ?case by blast
qed simp

section \<open>No connection outlives its stage\<close>

lemma gt_connections_fold_drop:
  "map_of (gt_connections (fold drop_connection cs g)) c = (if c \<in> set cs then None else map_of (gt_connections g) c)"
  by (induction cs arbitrary: g) (auto simp: drop_connection_def delete_conv')

lemma peers_fold_drop:
  "map_of (hn_peers (gt_network (fold drop_connection cs g))) c =
     (if c \<in> set cs then None else map_of (hn_peers (gt_network g)) c)"
  by (induction cs arbitrary: g) (auto simp: drop_connection_def network_close_def delete_conv')

text \<open>The bounds of the stages in seconds, as a table: an admitted member may be silent for three keepalives.\<close>

fun stage_seconds :: "host_state \<Rightarrow> bool \<Rightarrow> nat" where
  "stage_seconds HS_AwaitingHello admitted = 30"
| "stage_seconds HS_AwaitingToken admitted = 30"
| "stage_seconds HS_AwaitingProof admitted = 60"
| "stage_seconds HS_AwaitingJoinForm admitted = 120"
| "stage_seconds HS_Decided False = 300"
| "stage_seconds HS_Decided True = 90"

definition overdue :: "duration \<Rightarrow> host_connection \<Rightarrow> bool" where
  "overdue now hc \<longleftrightarrow>
     (if hc_admitted hc then hc_last_seen hc else hc_stage_since hc) +
       secs (stage_seconds (ha_state (hc_admission hc)) (hc_admitted hc)) < now"

lemma stale_overdue: "is_stale default_timeouts now hc = overdue now hc"
  by (cases "ha_state (hc_admission hc)"; cases "hc_admitted hc")
    (auto simp: is_stale_def overdue_def stage_timeout_def default_timeouts_def secs_def)

text \<open>
  C11: every turn of the loop begins by ending the connections that have stayed too long. In a host with the default
  timeouts, after any run of the loop, the turn first drops exactly the connections whose stage has lasted longer
  than its bound (30 seconds for the hello, 30 for the token, 60 for the proof, 120 for the join form, 300 for the
  host's decision) and the members from whom nothing has arrived for 90 seconds. Each is reported to the room once,
  ahead of everything else that the turn reports, and is forgotten and unreachable when the turn serves its
  branch; all other connections are as they were.
\<close>

theorem stages_expire:
  assumes "order_ok (ge_order E)" and "ge_timeouts E = default_timeouts"
    and "gate_run E evs (gate_start E nickname es) = (out, g)"
    and "gate_step E (GV_Turn t0 t1 t2 branch) g = (events, g')"
  shows "\<exists>lost g1 rest. events = map EV_ConnectionLost lost @ rest \<and> gate_branch_step E t1 t2 branch g1 = (rest, g') \<and>
    distinct lost \<and>
    (\<forall>c. (c \<in> set lost \<longleftrightarrow> (\<exists>hc. map_of (gt_connections g) c = Some hc \<and> overdue t0 hc)) \<and>
       map_of (gt_connections g1) c = (if c \<in> set lost then None else map_of (gt_connections g) c) \<and>
       map_of (hn_peers (gt_network g1)) c = (if c \<in> set lost then None else map_of (hn_peers (gt_network g)) c))"
proof -
  let ?lost = "stale_connections E t0 g"
  let ?overdue = "map fst (filter (\<lambda>(c, hc). overdue t0 hc) (gt_connections g))"
  obtain rest where turn: "events = map EV_ConnectionLost ?lost @ rest"
    "gate_branch_step E t1 t2 branch (fold drop_connection ?lost g) = (rest, g')"
    using assms(4) by (auto simp: gate_step_def expire_def Let_def split: prod.splits)
  have "entries_ok g" using entries_run [OF assms(3)] by (simp add: entries_ok_def gate_start_def)
  then have d: "distinct (map fst (gt_connections g))" by (simp add: entries_ok_def)
  have lost: "?lost = ge_order E ?overdue"
    unfolding stale_connections_def assms(2) stale_overdue ..
  have "distinct ?overdue" using d by (rule distinct_map_filter)
  moreover have same: "set ?lost = set ?overdue" "length ?lost = length ?overdue"
    using assms(1) unfolding lost order_ok_def by blast+
  ultimately have "distinct ?lost" by (metis card_distinct distinct_card)
  moreover have "c \<in> set ?lost \<longleftrightarrow> (\<exists>hc. map_of (gt_connections g) c = Some hc \<and> overdue t0 hc)" for c
    unfolding same(1) using d by force
  moreover note gt_connections_fold_drop [of ?lost g] peers_fold_drop [of ?lost g]
  ultimately show ?thesis using turn by blast
qed

lemma stages_expire_witness:
  "\<exists>lost g1 rest g'. gate_step demo_gate_env (GV_Turn (secs 40) (secs 40) (secs 40) (GB_Connect []))
      (snd (gate_run demo_gate_env [GV_Accept True, GV_Turn 0 0 7 (GB_Connect [Some []])] demo_gate)) =
      (map EV_ConnectionLost lost @ rest, g') \<and>
     1 \<in> set lost \<and> gate_branch_step demo_gate_env (secs 40) (secs 40) (GB_Connect []) g1 = (rest, g') \<and>
     map_of (hn_peers (gt_network g1)) 1 = None"
proof -
  let ?g = "snd (gate_run demo_gate_env [GV_Accept True, GV_Turn 0 0 7 (GB_Connect [Some []])] demo_gate)"
  let ?turn = "GV_Turn (secs 40) (secs 40) (secs 40) (GB_Connect [])"
  obtain events g' where e: "gate_step demo_gate_env ?turn ?g = (events, g')" by fastforce
  have hc: "overdue (secs 40) (demo_connection 7)"
    by (simp add: overdue_def demo_connection_def secs_def)
  have c: "map_of (gt_connections ?g) 1 = Some (demo_connection 7)" by (simp only: demo_connects) simp
  have o: "order_ok (ge_order demo_gate_env)" "ge_timeouts demo_gate_env = default_timeouts"
    by (simp_all add: demo_gate_env_def order_ok_def)
  have run: "gate_run demo_gate_env [GV_Accept True, GV_Turn 0 0 7 (GB_Connect [Some []])]
      (gate_start demo_gate_env (rs ''ada'') []) = ([EV_ClientConnected 1], ?g)"
    using demo_connects by (simp add: demo_gate_def)
  obtain lost g1 rest where l: "events = map EV_ConnectionLost lost @ rest"
    "gate_branch_step demo_gate_env (secs 40) (secs 40) (GB_Connect []) g1 = (rest, g')"
    and all: "\<forall>c. (c \<in> set lost \<longleftrightarrow> (\<exists>hc. map_of (gt_connections ?g) c = Some hc \<and> overdue (secs 40) hc)) \<and>
       map_of (gt_connections g1) c = (if c \<in> set lost then None else map_of (gt_connections ?g) c) \<and>
       map_of (hn_peers (gt_network g1)) c = (if c \<in> set lost then None else map_of (hn_peers (gt_network ?g)) c)"
    using stages_expire [OF o run e] by blast
  have "1 \<in> set lost" using spec [OF all, of 1] c hc by blast
  moreover from this have "map_of (hn_peers (gt_network g1)) 1 = None" using spec [OF all, of 1] by simp
  ultimately show ?thesis using e l by blast
qed

section \<open>The hello that overtakes its connect notice\<close>

text \<open>
  The loop takes the connect notice of a new connection and its first message from two channels, in
  either order when both are ready. If the notice is taken first, a well-formed hello is answered and the
  flow awaits the token. If the hello is taken first, it is refused as of an unknown connection,
  the connection is closed and reported lost, and the notice that follows then opens a flow for a
  connection that no longer exists: the honest peer has to connect again.
\<close>

theorem early_hello_is_refused:
  assumes "hn_listening (gt_network g)" and "pre_auth_count (hn_peers (gt_network g)) < max_pre_auth_connections default_limits"
    and "hn_connects (gt_network g) = []" and "hn_next_id (gt_network g) = c"
    and "map_of (gt_connections g) c = None" and "gt_policy g = JP_Open" and "\<not> guard_is_locked t1 (gt_guard g)"
    and "ch_version hello = 1" and "ch_features hello = 0"
    and "gate_step E (GV_Accept True) g = (out, accepted)"
    and "gate_branch_step E t1 t2 (GB_Inbound c (Some (M_ClientHello hello))) accepted = (o1, early1)"
    and "gate_branch_step E t1 t2 (GB_Connect (Some nonce # es)) early1 = (o2, early2)"
    and "gate_branch_step E t1 t2 (GB_Connect (Some nonce # es)) accepted = (o3, late1)"
    and "gate_branch_step E t1 t2 (GB_Inbound c (Some (M_ClientHello hello))) late1 = (o4, late2)"
  shows "o1 = [EV_ConnectionLost c] \<and> o2 = [EV_ClientConnected c] \<and>
    map_of (hn_peers (gt_network early2)) c = None \<and> view c early2 = Some (HS_AwaitingHello, False) \<and>
    o3 = [EV_ClientConnected c] \<and> o4 = [] \<and> view c late2 = Some (HS_AwaitingToken, False) \<and>
    (\<exists>answer. map_option (\<lambda>p. pc_outbound (pr_connection p)) (map_of (hn_peers (gt_network late2)) c) =
       Some [M_HostHello answer])"
proof -
  let ?n = "(gt_network g)\<lparr>hn_consecutive_errors := 0, hn_peers := AList.update c peer_spawn (hn_peers (gt_network g)),
    hn_connects := [c], hn_next_id := c + 1\<rparr>"
  have acc: "accepted = g\<lparr>gt_network := ?n\<rparr>"
    using assms(1-4,10) by (simp add: gate_step_def accept_step_def not_le)
  have unlocked: "guard_remaining t1 (gt_guard g) = None" using assms(7) guard_remaining_locked by blast
  define h where "h = \<lparr>ha_room_session_id = ge_session_id E, ha_server_nonce = pad NONCE_LEN nonce, ha_token = gt_token g,
    ha_verifier = ge_verifier E, ha_host_identity = ge_host_identity E, ha_onion_address = ge_onion_address E,
    ha_client_nonce = None, ha_challenge_nonce = None, ha_state = HS_AwaitingHello, ha_entropy = es\<rparr>"
  have new: "host_admission_new (ge_session_id E) (gt_token g) (ge_verifier E) (ge_host_identity E)
      (ge_onion_address E) (Some nonce # es) = Inr h"
    by (simp add: host_admission_new_def fill_random_def h_def pad_def)
  define hc where "hc = \<lparr>hc_admission = h, hc_stage_since = t2, hc_last_seen = t2, hc_admitted = False\<rparr>"
  have early: "o1 = [EV_ConnectionLost c]" "hn_connects (gt_network early1) = [c]" "gt_guard early1 = gt_guard g"
    "gt_token early1 = gt_token g" "map_of (hn_peers (gt_network early1)) c = None"
    using assms(5,11) acc by (auto simp: gate_branch_step_def on_inbound_def touch_seen_def handle_host_message_def
        count_failure_def drop_connection_def network_close_def reply_def send_to_def peer_send_def delete_conv' update_conv'
        peer_spawn_def split: prod.splits if_splits)
  have "o2 = [EV_ClientConnected c]" "map_of (hn_peers (gt_network early2)) c = None"
    "view c early2 = Some (HS_AwaitingHello, False)"
    using assms(12) early unlocked new by (auto simp: gate_branch_step_def on_connect_def view_def update_conv' h_def)
  moreover have late: "o3 = [EV_ClientConnected c]"
    "late1 = g\<lparr>gt_network := ?n\<lparr>hn_connects := []\<rparr>, gt_connections := AList.update c hc (gt_connections g)\<rparr>"
    using assms(13) acc unlocked new by (auto simp: gate_branch_step_def on_connect_def hc_def)
  moreover have "o4 = [] \<and> view c late2 = Some (HS_AwaitingToken, False) \<and>
    (\<exists>answer. map_option (\<lambda>p. pc_outbound (pr_connection p)) (map_of (hn_peers (gt_network late2)) c) =
       Some [M_HostHello answer])"
    using assms(6,8,9,14) unfolding late(2)
    by (auto simp: gate_branch_step_def on_inbound_def touch_seen_def touch_stage_def handle_host_message_def
        update_conv' hc_def h_def gate_state_def connection_accepts_def dispatch_def on_client_hello_def tryS_def
        put_admission_def reply_or_fail_def reply_def send_to_def peer_send_def peer_spawn_def OUTBOUND_QUEUE_CAPACITY_def view_def)
  ultimately show ?thesis using early(1) by blast
qed

definition demo_hello :: client_hello where
  "demo_hello = \<lparr>ch_version = 1, ch_client_nonce = replicate 32 7, ch_features = 0\<rparr>"

lemma early_hello_is_refused_witness:
  "\<exists>accepted early1 early2.
     gate_step demo_gate_env (GV_Accept True) demo_gate = ([], accepted) \<and>
     gate_branch_step demo_gate_env 0 0 (GB_Inbound 1 (Some (M_ClientHello demo_hello))) accepted =
       ([EV_ConnectionLost 1], early1) \<and>
     gate_branch_step demo_gate_env 0 0 (GB_Connect [Some []]) early1 = ([EV_ClientConnected 1], early2) \<and>
     map_of (hn_peers (gt_network early2)) 1 = None"
proof -
  obtain out accepted where s: "gate_step demo_gate_env (GV_Accept True) demo_gate = (out, accepted)" by fastforce
  then have out: "out = []" by (simp add: gate_step_def)
  obtain o1 early1 where e1: "gate_branch_step demo_gate_env 0 0 (GB_Inbound 1 (Some (M_ClientHello demo_hello))) accepted =
    (o1, early1)" by fastforce
  obtain o2 early2 where e2: "gate_branch_step demo_gate_env 0 0 (GB_Connect [Some []]) early1 = (o2, early2)" by fastforce
  obtain o3 late1 where l1: "gate_branch_step demo_gate_env 0 0 (GB_Connect [Some []]) accepted = (o3, late1)" by fastforce
  obtain o4 late2 where l2: "gate_branch_step demo_gate_env 0 0 (GB_Inbound 1 (Some (M_ClientHello demo_hello))) late1 =
    (o4, late2)" by fastforce
  from early_hello_is_refused [OF _ _ _ _ _ _ _ _ _ s e1 e2 l1 l2]
  have "o1 = [EV_ConnectionLost 1] \<and> o2 = [EV_ClientConnected 1] \<and> map_of (hn_peers (gt_network early2)) 1 = None"
    by (simp add: demo_gate_def gate_start_def listen_def default_limits_def guard_new_def guard_is_locked_def demo_hello_def)
  with s out e1 e2 show ?thesis by blast
qed

end
