(* ===== verification/Control.thy ===== *)
theory Control
  imports Uri
begin

text \<open>
  The Tor control protocol (\<open>tor/parser.rs\<close>, \<open>tor/control.rs\<close>) and what \<open>tor/manager.rs\<close> reads out of
  replies. A socket is the list of the results of the reads still to come; an empty chunk is the end
  of the stream. The process, the cookie file and the start are in \<open>TorManager\<close>.
\<close>

section \<open>Lines and replies\<close>

datatype line_kind = LK_Continuation | LK_Data | LK_Last

record control_line =
  cl_code :: u16
  cl_kind :: line_kind
  cl_data :: rstring

datatype parser_error =
    PaE_MalformedLine
  | PaE_CodeMismatch u16 u16
  | PaE_UnexpectedDataBlock
  | PaE_UnexpectedDataTerminator
  | PaE_ReplyTooLarge

record control_reply =
  rp_code :: u16
  rp_lines :: "rstring list"

definition reply_is_ok :: "control_reply \<Rightarrow> bool" where
  "reply_is_ok r \<longleftrightarrow> rp_code r = 250"

definition first_line :: "control_reply \<Rightarrow> rstring" where
  "first_line r = (case rp_lines r of [] \<Rightarrow> [] | l # _ \<Rightarrow> l)"

text \<open>
  The first four bytes decide; when they are accepted they are the first four characters, since a byte of a
  longer character is neither a digit nor a separator.
\<close>

definition parse_control_line :: "rstring \<Rightarrow> control_line option" where
  "parse_control_line line =
     (if str_len line < 4 then None
      else case line of
        a # b # c # sep # text_data \<Rightarrow>
          if \<not> (is_digit a \<and> is_digit b \<and> is_digit c) then None
          else
            let code = of_nat (digits_value [a, b, c])
            in if sep = 0x2D then Some \<lparr>cl_code = code, cl_kind = LK_Continuation, cl_data = text_data\<rparr>
               else if sep = 0x2B then Some \<lparr>cl_code = code, cl_kind = LK_Data, cl_data = text_data\<rparr>
               else if sep = 0x20 then Some \<lparr>cl_code = code, cl_kind = LK_Last, cl_data = text_data\<rparr>
               else None
      | _ \<Rightarrow> None)"

section \<open>The accumulator\<close>

record reply_accumulator =
  rc_code :: "u16 option"
  rc_lines :: "rstring list"
  rc_in_data_block :: bool

definition accumulator_new :: reply_accumulator where
  "accumulator_new = \<lparr>rc_code = None, rc_lines = [], rc_in_data_block = False\<rparr>"

definition MAX_REPLY_LINES :: nat where "MAX_REPLY_LINES = 1024"
definition MAX_REPLY_BYTES :: nat where "MAX_REPLY_BYTES = 1024 * 1024"

type_synonym 'a acc_result = "(parser_error + 'a) \<times> reply_accumulator"

definition push_line :: "rstring \<Rightarrow> reply_accumulator \<Rightarrow> unit acc_result" where
  "push_line line a =
     (if MAX_REPLY_LINES \<le> length (rc_lines a) \<or>
         MAX_REPLY_BYTES < sum_list (map str_len (rc_lines a)) + str_len line
      then (Inl PaE_ReplyTooLarge, a)
      else (Inr (), a\<lparr>rc_lines := rc_lines a @ [line]\<rparr>))"

definition take_reply :: "reply_accumulator \<Rightarrow> control_reply \<times> reply_accumulator" where
  "take_reply a =
     (\<lparr>rp_code = (case rc_code a of Some c \<Rightarrow> c | None \<Rightarrow> 0), rp_lines = rc_lines a\<rparr>,
      \<lparr>rc_code = None, rc_lines = [], rc_in_data_block = False\<rparr>)"

definition acc_begin :: "control_line \<Rightarrow> reply_accumulator \<Rightarrow> unit acc_result" where
  "acc_begin line a =
     tryS (push_line (cl_data line) (a\<lparr>rc_code := Some (cl_code line)\<rparr>))
       (\<lambda>_ a1. (Inr (), a1\<lparr>rc_in_data_block := (cl_kind line = LK_Data)\<rparr>))"

definition feed_data_line :: "rstring \<Rightarrow> reply_accumulator \<Rightarrow> control_reply option acc_result" where
  "feed_data_line raw a =
     (if \<not> rc_in_data_block a then (Inl PaE_UnexpectedDataTerminator, a)
      else if raw = rs ''.'' then (Inr None, a\<lparr>rc_in_data_block := False\<rparr>)
      else
        let line = (case raw of c # d # _ \<Rightarrow> if c = 0x2E \<and> d = 0x2E then tl raw else raw | _ \<Rightarrow> raw)
        in tryS (push_line line a) (\<lambda>_ a1. (Inr None, a1)))"

definition feed_line :: "control_line \<Rightarrow> reply_accumulator \<Rightarrow> control_reply option acc_result" where
  "feed_line line a =
     (case (case rc_code a of Some expected \<Rightarrow> if cl_code line \<noteq> expected then Some expected else None | None \<Rightarrow> None) of
        Some expected \<Rightarrow> (Inl (PaE_CodeMismatch expected (cl_code line)), a)
      | None \<Rightarrow>
          (case cl_kind line of
             LK_Last \<Rightarrow>
               tryS (push_line (cl_data line) a) (\<lambda>_ a1.
                 let a2 = (if rc_code a1 = None then a1\<lparr>rc_code := Some (cl_code line)\<rparr> else a1)
                 in case take_reply a2 of (r, a3) \<Rightarrow> (Inr (Some r), a3))
           | LK_Data \<Rightarrow>
               if rc_code a = None then tryS (acc_begin line a) (\<lambda>_ a1. (Inr None, a1))
               else (Inl PaE_UnexpectedDataBlock, a)
           | LK_Continuation \<Rightarrow>
               if rc_code a = None then tryS (acc_begin line a) (\<lambda>_ a1. (Inr None, a1))
               else tryS (push_line (cl_data line) a) (\<lambda>_ a1. (Inr None, a1))))"

section \<open>Reading lines\<close>

definition MAX_CONTROL_LINE_BYTES :: nat where "MAX_CONTROL_LINE_BYTES = 4096"

datatype control_error =
    CtE_LineTooLong nat
  | CtE_Parser parser_error
  | CtE_UnexpectedEof
  | CtE_CommandTimeout
  | CtE_Desynchronized
  | CtE_InvalidCommand
  | CtE_AuthenticationFailed control_reply
  | CtE_Io

datatype socket_read = SR_Bytes bytes | SR_Failed

record line_reader =
  lr_input :: "socket_read list"
  lr_pending :: bytes
  lr_max :: nat

definition line_reader_new :: "socket_read list \<Rightarrow> nat \<Rightarrow> line_reader" where
  "line_reader_new input max_len = \<lparr>lr_input = input, lr_pending = [], lr_max = max_len\<rparr>"

text \<open>The bytes before the first line feed, and those after it.\<close>

definition split_newline :: "bytes \<Rightarrow> (bytes \<times> bytes) option" where
  "split_newline bs =
     (if 10 \<in> set bs then Some (takeWhile (\<lambda>b. b \<noteq> 10) bs, tl (dropWhile (\<lambda>b. b \<noteq> 10) bs)) else None)"

definition strip_cr :: "rstring \<Rightarrow> rstring" where
  "strip_cr s = (if s \<noteq> [] \<and> last s = 0x0D then butlast s else s)"

definition finish_line :: "bytes \<Rightarrow> control_error + rstring" where
  "finish_line buf =
     (case from_utf8 buf of None \<Rightarrow> Inl (CtE_Parser PaE_MalformedLine) | Some s \<Rightarrow> Inr (strip_cr s))"

text \<open>The loop of \<open>next_line\<close>: its result, the new \<open>pending\<close> and the reads that remain.\<close>

fun fill_line :: "nat \<Rightarrow> bytes \<Rightarrow> socket_read list \<Rightarrow> (control_error + bytes option) \<times> bytes \<times> socket_read list" where
  "fill_line max_len buf [] = ((if buf = [] then Inr None else Inl CtE_UnexpectedEof), [], [])"
| "fill_line max_len buf (SR_Failed # input) = (Inl CtE_Io, [], input)"
| "fill_line max_len buf (SR_Bytes chunk # input) =
     (if chunk = [] then ((if buf = [] then Inr None else Inl CtE_UnexpectedEof), [], input)
      else case split_newline chunk of
        Some (start, rest) \<Rightarrow>
          if max_len < length (buf @ start) then (Inl (CtE_LineTooLong max_len), [], input)
          else (Inr (Some (buf @ start)), rest, input)
      | None \<Rightarrow>
          if max_len < length (buf @ chunk) then (Inl (CtE_LineTooLong max_len), [], input)
          else fill_line max_len (buf @ chunk) input)"

definition next_line :: "line_reader \<Rightarrow> (control_error + rstring option) \<times> line_reader" where
  "next_line r =
     (case split_newline (lr_pending r) of
        Some (line, rest) \<Rightarrow>
          (bindE (finish_line line) (\<lambda>s. Inr (Some s)), r\<lparr>lr_pending := rest\<rparr>)
      | None \<Rightarrow>
          (case fill_line (lr_max r) (lr_pending r) (lr_input r) of
             (Inl e, pending, input) \<Rightarrow> (Inl e, r\<lparr>lr_pending := pending, lr_input := input\<rparr>)
           | (Inr None, pending, input) \<Rightarrow> (Inr None, r\<lparr>lr_pending := pending, lr_input := input\<rparr>)
           | (Inr (Some line), pending, input) \<Rightarrow>
               (bindE (finish_line line) (\<lambda>s. Inr (Some s)), r\<lparr>lr_pending := pending, lr_input := input\<rparr>)))"

section \<open>Commands\<close>

text \<open>What is left to read, in bytes and reads: it shrinks with every line.\<close>

fun read_size :: "socket_read \<Rightarrow> nat" where
  "read_size (SR_Bytes chunk) = Suc (length chunk)"
| "read_size SR_Failed = 1"

definition unread :: "line_reader \<Rightarrow> nat" where
  "unread r = length (lr_pending r) + sum_list (map read_size (lr_input r))"

lemma split_newline_Some:
  "split_newline bs = Some (line, rest) \<longleftrightarrow> bs = line @ 10 # rest \<and> 10 \<notin> set line"
proof
  assume "split_newline bs = Some (line, rest)"
  then have s: "10 \<in> set bs" "line = takeWhile (\<lambda>b. b \<noteq> 10) bs" "rest = tl (dropWhile (\<lambda>b. b \<noteq> 10) bs)"
    by (auto simp: split_newline_def split: if_splits)
  then obtain b ds where d: "dropWhile (\<lambda>b. b \<noteq> 10) bs = b # ds" by (cases "dropWhile (\<lambda>b. b \<noteq> 10) bs") auto
  with hd_dropWhile [of "\<lambda>b. b \<noteq> 10" bs] have "b = 10" by simp
  with d s takeWhile_dropWhile_id [of "\<lambda>b. b \<noteq> 10" bs] have "bs = line @ 10 # rest" by (metis list.sel(3))
  moreover have "10 \<notin> set line" using s(2) set_takeWhileD by metis
  ultimately show "bs = line @ 10 # rest \<and> 10 \<notin> set line" ..
next
  assume "bs = line @ 10 # rest \<and> 10 \<notin> set line"
  moreover have "10 \<notin> set line \<Longrightarrow> takeWhile (\<lambda>b. b \<noteq> 10) (line @ 10 # rest) = line \<and>
      dropWhile (\<lambda>b. b \<noteq> 10) (line @ 10 # rest) = 10 # rest"
    by (induction line) auto
  ultimately show "split_newline bs = Some (line, rest)" by (simp add: split_newline_def)
qed

lemma split_newline_None: "split_newline bs = None \<longleftrightarrow> 10 \<notin> set bs"
  by (simp add: split_newline_def)

lemma fill_line_shrinks:
  "fill_line max_len buf input = (Inr (Some line), pending, input') \<Longrightarrow>
   length pending + sum_list (map read_size input') < sum_list (map read_size input)"
  by (induction max_len buf input rule: fill_line.induct) (auto simp: split_newline_Some split: if_splits option.splits)

lemma next_line_shrinks: "next_line r = (Inr (Some s), r') \<Longrightarrow> unread r' < unread r"
  by (auto simp: next_line_def unread_def bindE_eq_Inr split_newline_Some split: option.splits prod.splits sum.splits
      dest!: fill_line_shrinks)

function read_reply :: "reply_accumulator \<Rightarrow> line_reader \<Rightarrow> (control_error + control_reply) \<times> line_reader" where
  "read_reply a r =
     (case next_line r of
        (Inl e, r1) \<Rightarrow> (Inl e, r1)
      | (Inr None, r1) \<Rightarrow> (Inl CtE_UnexpectedEof, r1)
      | (Inr (Some text_line), r1) \<Rightarrow>
          if rc_in_data_block a then
            (case feed_data_line text_line a of
               (Inl e, _) \<Rightarrow> (Inl (CtE_Parser e), r1)
             | (Inr (Some reply), _) \<Rightarrow> (Inr reply, r1)
             | (Inr None, a1) \<Rightarrow> read_reply a1 r1)
          else
            (case parse_control_line text_line of
               None \<Rightarrow>
                 if text_line = rs ''.'' then (Inl (CtE_Parser PaE_UnexpectedDataTerminator), r1)
                 else (Inl (CtE_Parser PaE_MalformedLine), r1)
             | Some line \<Rightarrow>
                 (case feed_line line a of
                    (Inl e, _) \<Rightarrow> (Inl (CtE_Parser e), r1)
                  | (Inr (Some reply), _) \<Rightarrow> (Inr reply, r1)
                  | (Inr None, a1) \<Rightarrow> read_reply a1 r1)))"
  by pat_completeness auto
termination
  by (relation "measure (\<lambda>(a, r). unread r)") (auto dest!: sym [of _ "next_line _"] next_line_shrinks)

declare read_reply.simps [simp del]

text \<open>A client: \<open>cc_poisoned\<close> is set when a command timed out, and \<open>cc_written\<close> is what the socket took.\<close>

record control_client =
  cc_reader :: line_reader
  cc_written :: bytes
  cc_poisoned :: bool

text \<open>How a command ends: its reply is read, or the write fails, or ten seconds are over before.\<close>

datatype command_fate = CF_Completes | CF_WriteFails | CF_TimesOut line_reader

definition run_command :: "rstring \<Rightarrow> command_fate \<Rightarrow> control_client \<Rightarrow>
    (control_error + control_reply) \<times> control_client" where
  "run_command text_command fate c =
     (if cc_poisoned c then (Inl CtE_Desynchronized, c)
      else if 0x0D \<in> set text_command \<or> 0x0A \<in> set text_command then (Inl CtE_InvalidCommand, c)
      else
        case fate of
          CF_TimesOut r \<Rightarrow> (Inl CtE_CommandTimeout, c\<lparr>cc_reader := r, cc_poisoned := True\<rparr>)
        | CF_WriteFails \<Rightarrow> (Inl CtE_Io, c)
        | CF_Completes \<Rightarrow>
            (case read_reply accumulator_new (cc_reader c) of
               (res, r) \<Rightarrow> (res, c\<lparr>cc_reader := r, cc_written := cc_written c @ utf8 (text_command @ [0x0D, 0x0A])\<rparr>)))"

definition authenticate :: "rstring \<Rightarrow> command_fate \<Rightarrow> control_client \<Rightarrow> (control_error + unit) \<times> control_client" where
  "authenticate cookie_hex fate c =
     tryS (run_command (rs ''AUTHENTICATE '' @ cookie_hex) fate c) (\<lambda>reply c1.
       (if reply_is_ok reply then Inr ()
        else if rp_code reply = 513 \<and> sublist (rs ''authenticated'') (first_line reply) then Inr ()
        else Inl (CtE_AuthenticationFailed reply), c1))"

section \<open>What the manager reads out of replies\<close>

definition is_ascii_whitespace :: "nat \<Rightarrow> bool" where
  "is_ascii_whitespace c \<longleftrightarrow> c \<in> {0x20, 0x09, 0x0A, 0x0C, 0x0D}"

fun split_ascii_whitespace_from :: "rstring \<Rightarrow> rstring \<Rightarrow> rstring list" where
  "split_ascii_whitespace_from word [] = (if word = [] then [] else [word])"
| "split_ascii_whitespace_from word (c # cs) =
     (if is_ascii_whitespace c
      then (if word = [] then [] else [word]) @ split_ascii_whitespace_from [] cs
      else split_ascii_whitespace_from (word @ [c]) cs)"

fun find_map :: "('a \<Rightarrow> 'b option) \<Rightarrow> 'a list \<Rightarrow> 'b option" where
  "find_map f [] = None"
| "find_map f (x # xs) = (case f x of Some y \<Rightarrow> Some y | None \<Rightarrow> find_map f xs)"

definition bootstrap_progress :: "control_reply \<Rightarrow> u8 option" where
  "bootstrap_progress reply =
     (case find_map (strip_prefix (rs ''PROGRESS='')) (concat (map (split_ascii_whitespace_from []) (rp_lines reply))) of
        None \<Rightarrow> None
      | Some value \<Rightarrow>
          (case parse_uint (2 ^ 8 - 1) value of
             None \<Rightarrow> None
           | Some n \<Rightarrow> if n \<le> 100 then Some (of_nat n) else None))"

datatype tor_error =
    TE_Control control_error
  | TE_CommandFailed rstring control_reply
  | TE_InvalidServiceId
  | TE_InvalidOnionAddress rstring
  | TE_InvalidVirtualPort
  | TE_NoControlConnection
  | TE_TorExited
  | TE_BootstrapTimeout

definition is_valid_onion_address :: "uri_env \<Rightarrow> rstring \<Rightarrow> bool" where
  "is_valid_onion_address U address =
     (case strip_suffix ONION_V3_SUFFIX address of
        None \<Rightarrow> False
      | Some body \<Rightarrow>
          str_len body = 56 \<and> list_all (\<lambda>c. c \<in> set ONION_V3_ALPHABET) body \<and> is_valid_onion_v3_body U body)"

record onion_service =
  os_onion_address :: rstring
  os_virtual_port :: u16

definition add_onion_command :: "u16 \<Rightarrow> rstring \<Rightarrow> rstring" where
  "add_onion_command port chat_socket =
     rs ''ADD_ONION NEW:ED25519-V3 Flags=DiscardPK Port='' @ dec (unat port) @ rs '',unix:'' @ chat_socket"

definition add_onion :: "uri_env \<Rightarrow> u16 \<Rightarrow> rstring \<Rightarrow> command_fate \<Rightarrow> control_client option \<Rightarrow>
    (tor_error + onion_service) \<times> control_client option" where
  "add_onion U port chat_socket fate control =
     (if port = 0 then (Inl TE_InvalidVirtualPort, control)
      else case control of
        None \<Rightarrow> (Inl TE_NoControlConnection, control)
      | Some c \<Rightarrow>
          (case run_command (add_onion_command port chat_socket) fate c of
             (Inl e, c1) \<Rightarrow> (Inl (TE_Control e), Some c1)
           | (Inr reply, c1) \<Rightarrow>
               (if \<not> reply_is_ok reply then Inl (TE_CommandFailed (add_onion_command port chat_socket) reply)
                else case find_map (strip_prefix (rs ''ServiceID='')) (rp_lines reply) of
                  None \<Rightarrow> Inl TE_InvalidServiceId
                | Some service_id \<Rightarrow>
                    if str_len service_id \<noteq> 56 then Inl TE_InvalidServiceId
                    else
                      let onion_address = service_id @ rs ''.onion''
                      in if \<not> is_valid_onion_address U onion_address then Inl (TE_InvalidOnionAddress onion_address)
                         else Inr \<lparr>os_onion_address = onion_address, os_virtual_port = port\<rparr>,
                Some c1)))"

text \<open>
  The polling loop: every turn says whether the child has exited, how its command ends, and whether the
  deadline has passed afterwards (a deadline that cuts the command off is \<open>None\<close>). The turns are a
  prefix of those to come, so running out of them is \<open>None\<close>.
\<close>

datatype bootstrap_turn = BT_Turn bool "command_fate option" bool

fun wait_for_bootstrap :: "bootstrap_turn list \<Rightarrow> control_client option \<Rightarrow> u8 list \<Rightarrow>
    (tor_error + unit) option \<times> u8 list \<times> control_client option" where
  "wait_for_bootstrap [] control seen = (None, seen, control)"
| "wait_for_bootstrap (BT_Turn exited fate late # turns) control seen =
     (if exited then (Some (Inl TE_TorExited), seen, control)
      else case control of
        None \<Rightarrow> (Some (Inl TE_NoControlConnection), seen, control)
      | Some c \<Rightarrow>
          (case fate of
             None \<Rightarrow> (Some (Inl TE_BootstrapTimeout), seen, control)
           | Some f \<Rightarrow>
               (case run_command (rs ''GETINFO status/bootstrap-phase'') f c of
                  (Inl e, c1) \<Rightarrow> (Some (Inl (TE_Control e)), seen, Some c1)
                | (Inr reply, c1) \<Rightarrow>
                    let observed = bootstrap_progress reply;
                        seen1 = seen @ (case observed of Some p \<Rightarrow> [p] | None \<Rightarrow> [])
                    in if observed = Some 100 then (Some (Inr ()), seen1, Some c1)
                       else if late then (Some (Inl TE_BootstrapTimeout), seen1, Some c1)
                       else wait_for_bootstrap turns (Some c1) seen1)))"

end
