(* ===== verification/ControlRules.thy ===== *)
theory ControlRules
  imports Control
begin

text \<open>
  The control protocol client against a reference printer of replies: whatever the chunks in which
  the socket delivers a well-formed reply, the client reads exactly that reply and nothing behind it.
\<close>

section \<open>The line reader\<close>

text \<open>The bytes that a socket without failures still has to deliver.\<close>

definition holds :: "line_reader \<Rightarrow> bytes \<Rightarrow> bool" where
  "holds r bs \<longleftrightarrow>
     (\<exists>chunks. lr_input r = map SR_Bytes chunks \<and> [] \<notin> set chunks \<and> lr_pending r @ concat chunks = bs)"

lemma newline_beyond:
  assumes "xs @ ys = line @ x # rest" and "x \<notin> set xs"
  shows "\<exists>zs. line = xs @ zs"
proof -
  from assms(1) obtain us where "xs = line @ us \<and> us @ ys = x # rest \<or> xs @ us = line"
    by (auto simp: append_eq_append_conv2)
  with assms(2) show ?thesis by (cases us) auto
qed

lemma newline_here:
  "xs @ x # ys = xs' @ x # ys' \<Longrightarrow> x \<notin> set xs \<Longrightarrow> x \<notin> set xs' \<Longrightarrow> xs = xs' \<and> ys = ys'"
proof (induction xs arbitrary: xs')
  case Nil
  then show ?case by (cases xs') auto
next
  case (Cons a xs)
  then show ?case by (cases xs') auto
qed

lemma fill_line_reads:
  assumes "10 \<notin> set buf" and "buf @ concat chunks = line @ 10 # rest" and "10 \<notin> set line"
    and "length line \<le> max_len" and "[] \<notin> set chunks"
  shows "\<exists>pending chunks'. fill_line max_len buf (map SR_Bytes chunks) = (Inr (Some line), pending, map SR_Bytes chunks') \<and>
    pending @ concat chunks' = rest \<and> [] \<notin> set chunks'"
  using assms
proof (induction chunks arbitrary: buf)
  case Nil
  then have "10 \<in> set buf" by simp
  with Nil.prems(1) show ?case by blast
next
  case (Cons chunk chunks)
  show ?case
  proof (cases "split_newline chunk")
    case None
    then have no: "10 \<notin> set (buf @ chunk)" using Cons.prems(1) by (simp add: split_newline_None)
    have eq: "(buf @ chunk) @ concat chunks = line @ 10 # rest" using Cons.prems(2) by simp
    from newline_beyond [OF eq no] Cons.prems(4) have "length (buf @ chunk) \<le> max_len" by auto
    with Cons.IH [OF no eq Cons.prems(3,4)] Cons.prems(4,5) None show ?thesis by auto
  next
    case (Some p)
    then obtain start more where s: "split_newline chunk = Some (start, more)" by (cases p) auto
    then have c: "chunk = start @ 10 # more" "10 \<notin> set start" by (simp_all add: split_newline_Some)
    then have "(buf @ start) @ 10 # (more @ concat chunks) = line @ 10 # rest" "10 \<notin> set (buf @ start)"
      using Cons.prems(1,2) by simp_all
    from newline_here [OF this Cons.prems(3)] have "line = buf @ start" "rest = more @ concat chunks" by blast+
    with s c Cons.prems(4,5) show ?thesis by auto
  qed
qed

lemma next_line_reads:
  assumes "holds r (line @ 10 # rest)" and "10 \<notin> set line" and "length line \<le> lr_max r"
    and "finish_line line = Inr s"
  shows "\<exists>r'. next_line r = (Inr (Some s), r') \<and> holds r' rest \<and> lr_max r' = lr_max r"
proof -
  obtain chunks where c: "lr_input r = map SR_Bytes chunks" "[] \<notin> set chunks"
    "lr_pending r @ concat chunks = line @ 10 # rest"
    using assms(1) by (auto simp: holds_def)
  show ?thesis
  proof (cases "split_newline (lr_pending r)")
    case None
    then have "10 \<notin> set (lr_pending r)" by (simp add: split_newline_None)
    from fill_line_reads [OF this c(3) assms(2,3) c(2)] obtain pending chunks' where
      "fill_line (lr_max r) (lr_pending r) (lr_input r) = (Inr (Some line), pending, map SR_Bytes chunks')"
      "pending @ concat chunks' = rest" "[] \<notin> set chunks'"
      using c(1) by auto
    with None assms(4) show ?thesis by (auto simp: next_line_def holds_def)
  next
    case (Some p)
    then obtain start more where s: "split_newline (lr_pending r) = Some (start, more)" by (cases p) auto
    then have p: "lr_pending r = start @ 10 # more" "10 \<notin> set start" by (simp_all add: split_newline_Some)
    with c(3) have "start @ 10 # (more @ concat chunks) = line @ 10 # rest" by simp
    from newline_here [OF this p(2) assms(2)] have "start = line" "more @ concat chunks = rest" by blast+
    with s c(1,2) assms(4) show ?thesis by (auto simp: next_line_def holds_def)
  qed
qed

section \<open>Replies as Tor writes them\<close>

text \<open>
  A reply of the control protocol: any sequence of lines and of data blocks, then the last line. A data line that
  begins with a period is written with a second one.
\<close>

datatype reply_part =
    RP_Line rstring
  | RP_Block rstring "rstring list"

definition dec3 :: "nat \<Rightarrow> rstring" where
  "dec3 n = [0x30 + n div 100, 0x30 + n div 10 mod 10, 0x30 + n mod 10]"

definition stuff :: "rstring \<Rightarrow> rstring" where
  "stuff s = (case s of c # _ \<Rightarrow> if c = 0x2E then 0x2E # s else s | [] \<Rightarrow> s)"

fun render_part :: "nat \<Rightarrow> reply_part \<Rightarrow> rstring list" where
  "render_part code (RP_Line s) = [dec3 code @ 0x2D # s]"
| "render_part code (RP_Block f ds) = (dec3 code @ 0x2B # f) # map stuff ds @ [rs ''.'']"

definition render :: "nat \<Rightarrow> reply_part list \<Rightarrow> rstring \<Rightarrow> rstring list" where
  "render code parts l = concat (map (render_part code) parts) @ [dec3 code @ 0x20 # l]"

fun part_lines :: "reply_part \<Rightarrow> rstring list" where
  "part_lines (RP_Line s) = [s]"
| "part_lines (RP_Block f ds) = f # ds"

definition reply_lines :: "reply_part list \<Rightarrow> rstring \<Rightarrow> rstring list" where
  "reply_lines parts l = concat (map part_lines parts) @ [l]"

fun is_line :: "reply_part \<Rightarrow> bool" where
  "is_line (RP_Line s) = True"
| "is_line (RP_Block f ds) = False"

text \<open>The replies that the client takes: a data block only as the first part.\<close>

definition readable :: "reply_part list \<Rightarrow> bool" where
  "readable parts \<longleftrightarrow> list_all is_line (tl parts)"

definition wire :: "rstring list \<Rightarrow> bytes" where
  "wire ls = concat (map (\<lambda>s. utf8 s @ [13, 10]) ls)"

definition line_ok :: "nat \<Rightarrow> rstring \<Rightarrow> bool" where
  "line_ok max_len s \<longleftrightarrow> (\<forall>c \<in> set s. scalar c \<and> c \<noteq> 10) \<and> str_len s < max_len"

definition within_limits :: "rstring list \<Rightarrow> bool" where
  "within_limits ls \<longleftrightarrow> length ls \<le> MAX_REPLY_LINES \<and> sum_list (map str_len ls) \<le> MAX_REPLY_BYTES"

lemma utf8_no_newline:
  assumes "\<forall>c \<in> set s. scalar c \<and> c \<noteq> 10"
  shows "10 \<notin> set (utf8 s)"
proof
  assume "10 \<in> set (utf8 s)"
  then have "unat (10 :: u8) \<in> set (map unat (utf8 s))" by (simp only: set_map image_eqI)
  with assms have "10 \<in> set (concat (map utf8_char s))" by (simp add: unat_utf8)
  then obtain c where "c \<in> set s" "10 \<in> set (utf8_char c)" by auto
  with assms show False by (auto simp: utf8_char_def split: if_splits)
qed

lemma finish_crlf: "\<forall>c \<in> set s. scalar c \<Longrightarrow> finish_line (utf8 s @ [13]) = Inr s"
proof -
  assume "\<forall>c \<in> set s. scalar c"
  then have "from_utf8 (utf8 (s @ [13])) = Some (s @ [13])" by (intro from_utf8_utf8) (auto simp: scalar_def)
  moreover have "utf8 (s @ [13]) = utf8 s @ [13]" by (simp add: utf8_def utf8_char_def)
  ultimately show ?thesis by (simp add: finish_line_def strip_cr_def)
qed

lemma next_line_wire:
  assumes "holds r (wire (s # ls) @ rest)" and "line_ok (lr_max r) s"
  shows "\<exists>r'. next_line r = (Inr (Some s), r') \<and> holds r' (wire ls @ rest) \<and> lr_max r' = lr_max r"
proof (rule next_line_reads)
  show "holds r ((utf8 s @ [13]) @ 10 # wire ls @ rest)" using assms(1) by (simp add: wire_def)
  show "10 \<notin> set (utf8 s @ [13])" using assms(2) utf8_no_newline by (simp add: line_ok_def)
  show "length (utf8 s @ [13]) \<le> lr_max r" using assms(2) by (simp add: line_ok_def str_len_def)
  show "finish_line (utf8 s @ [13]) = Inr s" using assms(2) by (intro finish_crlf) (simp add: line_ok_def)
qed

section \<open>Reading a reply\<close>

definition collecting :: "nat \<Rightarrow> rstring list \<Rightarrow> bool \<Rightarrow> reply_accumulator" where
  "collecting code ls block = \<lparr>rc_code = Some (of_nat code), rc_lines = ls, rc_in_data_block = block\<rparr>"

lemma collecting_simps [simp]:
  "rc_code (collecting code ls b) = Some (of_nat code)" "rc_lines (collecting code ls b) = ls"
  "rc_in_data_block (collecting code ls b) = b"
  "(collecting code ls b)\<lparr>rc_lines := ls'\<rparr> = collecting code ls' b"
  "(collecting code ls b)\<lparr>rc_in_data_block := b'\<rparr> = collecting code ls b'"
  by (simp_all add: collecting_def)

lemma within_limits_prefix: "within_limits (xs @ ys) \<Longrightarrow> within_limits xs"
  by (simp add: within_limits_def)

lemma push_within: "within_limits (rc_lines a @ [x]) \<Longrightarrow> push_line x a = (Inr (), a\<lparr>rc_lines := rc_lines a @ [x]\<rparr>)"
  by (simp add: within_limits_def push_line_def)

lemma code_value: "digits_value (dec3 code) = code"
proof -
  have "code div 100 = code div 10 div 10" by (simp add: div_mult2_eq [symmetric])
  moreover have "code = 10 * (code div 10) + code mod 10" "code div 10 = 10 * (code div 10 div 10) + code div 10 mod 10"
    by simp_all
  ultimately show ?thesis unfolding dec3_def digits_value_def by simp
qed

definition line_of :: "nat \<Rightarrow> line_kind \<Rightarrow> rstring \<Rightarrow> control_line" where
  "line_of code kind s = \<lparr>cl_code = of_nat code, cl_kind = kind, cl_data = s\<rparr>"

lemma parse_rendered:
  assumes "code < 1000"
  shows "parse_control_line (dec3 code @ 0x2D # s) = Some (line_of code LK_Continuation s)"
    "parse_control_line (dec3 code @ 0x2B # s) = Some (line_of code LK_Data s)"
    "parse_control_line (dec3 code @ 0x20 # s) = Some (line_of code LK_Last s)"
proof -
  have d: "is_digit (0x30 + code div 100)" "is_digit (0x30 + code div 10 mod 10)" "is_digit (0x30 + code mod 10)"
    using assms by (auto simp: is_digit_def)
  then have "4 \<le> str_len (dec3 code @ sep # s)" if "sep < 0x80" for sep
    using that by (simp add: str_len_def dec3_def utf8_def utf8_char_def is_digit_def)
  moreover have "digits_value [0x30 + code div 100, 0x30 + code div 10 mod 10, 0x30 + code mod 10] = code"
    using code_value [of code] by (simp add: dec3_def)
  ultimately show "parse_control_line (dec3 code @ 0x2D # s) = Some (line_of code LK_Continuation s)"
    "parse_control_line (dec3 code @ 0x2B # s) = Some (line_of code LK_Data s)"
    "parse_control_line (dec3 code @ 0x20 # s) = Some (line_of code LK_Last s)"
    using d by (simp_all add: parse_control_line_def dec3_def line_of_def Let_def not_less)
qed

lemma feed_collecting:
  assumes "within_limits (ls @ [s])"
  shows "feed_line (line_of code LK_Continuation s) (collecting code ls False) = (Inr None, collecting code (ls @ [s]) False)"
    "feed_line (line_of code LK_Last s) (collecting code ls False) =
       (Inr (Some \<lparr>rp_code = of_nat code, rp_lines = ls @ [s]\<rparr>), accumulator_new)"
  using push_within [of "collecting code ls False" s] assms
  by (simp_all add: feed_line_def line_of_def tryS_def take_reply_def accumulator_new_def)

lemma feed_first:
  assumes "within_limits [s]"
  shows "feed_line (line_of code LK_Continuation s) accumulator_new = (Inr None, collecting code [s] False)"
    "feed_line (line_of code LK_Data s) accumulator_new = (Inr None, collecting code [s] True)"
    "feed_line (line_of code LK_Last s) accumulator_new =
       (Inr (Some \<lparr>rp_code = of_nat code, rp_lines = [s]\<rparr>), accumulator_new)"
  using push_within [of accumulator_new s] push_within [of "accumulator_new\<lparr>rc_code := Some (of_nat code)\<rparr>" s] assms
  by (simp_all add: feed_line_def line_of_def acc_begin_def tryS_def take_reply_def accumulator_new_def collecting_def)

lemma feed_stuffed:
  assumes "within_limits (ls @ [s])"
  shows "feed_data_line (stuff s) (collecting code ls True) = (Inr None, collecting code (ls @ [s]) True)"
  using push_within [of "collecting code ls True" s] assms
  by (cases s) (auto simp: feed_data_line_def stuff_def rs_def tryS_def split: list.splits)

text \<open>One line of a reply: the accumulator takes it and the rest is still to be read.\<close>

lemma read_final:
  assumes "holds r (wire [dec3 code @ 0x20 # l] @ rest)" and "line_ok (lr_max r) (dec3 code @ 0x20 # l)" and "code < 1000"
    and "feed_line (line_of code LK_Last l) a = (Inr (Some reply), a')" and "\<not> rc_in_data_block a"
  shows "\<exists>r'. read_reply a r = (Inr reply, r') \<and> holds r' rest \<and> lr_max r' = lr_max r"
  using next_line_wire [OF assms(1,2)] assms(4,5) parse_rendered(3) [OF assms(3), of l]
  by (auto simp: read_reply.simps [of a] wire_def)

lemma read_on:
  assumes "holds r (wire (s # ls) @ rest)" and "line_ok (lr_max r) s"
    and "if rc_in_data_block a then feed_data_line s a = (Inr None, a1)
         else \<exists>line. parse_control_line s = Some line \<and> feed_line line a = (Inr None, a1)"
  shows "\<exists>r1. read_reply a r = read_reply a1 r1 \<and> holds r1 (wire ls @ rest) \<and> lr_max r1 = lr_max r"
  using next_line_wire [OF assms(1,2)] assms(3)
  by (auto simp: read_reply.simps [of a] split: if_splits)

lemma read_data:
  assumes "holds r (wire (map stuff ds @ rs ''.'' # ls') @ rest)" and "\<forall>s \<in> set ds. line_ok (lr_max r) (stuff s)"
    and "line_ok (lr_max r) (rs ''.'')" and "within_limits (ls @ ds)"
  shows "\<exists>r1. read_reply (collecting code ls True) r = read_reply (collecting code (ls @ ds) False) r1 \<and>
    holds r1 (wire ls' @ rest) \<and> lr_max r1 = lr_max r"
  using assms
proof (induction ds arbitrary: ls r)
  case Nil
  have "feed_data_line (rs ''.'') (collecting code ls True) = (Inr None, collecting code ls False)"
    by (simp add: feed_data_line_def)
  then show ?case using read_on [of r "rs ''.''" ls' rest "collecting code ls True"] Nil.prems by simp
next
  case (Cons d ds)
  have "within_limits (ls @ [d])" using Cons.prems(4) within_limits_prefix [of "ls @ [d]" ds] by simp
  from feed_stuffed [OF this] obtain r1 where
    r1: "read_reply (collecting code ls True) r = read_reply (collecting code (ls @ [d]) True) r1"
    "holds r1 (wire (map stuff ds @ rs ''.'' # ls') @ rest)" "lr_max r1 = lr_max r"
    using read_on [of r "stuff d" "map stuff ds @ rs ''.'' # ls'" rest "collecting code ls True"]
      Cons.prems(1,2) by auto
  with Cons.IH [OF r1(2), of "ls @ [d]"] Cons.prems(2-4) show ?case by simp
qed

text \<open>What the client makes of the remaining parts of a reply, and of a whole one.\<close>

definition reads_as :: "nat \<Rightarrow> rstring list \<Rightarrow> bool \<Rightarrow> bytes \<Rightarrow> (control_error + control_reply) \<times> line_reader \<Rightarrow> bool" where
  "reads_as code ls taken rest outcome \<longleftrightarrow>
     (if taken then fst outcome = Inr \<lparr>rp_code = of_nat code, rp_lines = ls\<rparr> \<and> holds (snd outcome) rest
      else fst outcome = Inl (CtE_Parser PaE_UnexpectedDataBlock))"

lemma feed_late_block:
  "feed_line (line_of code LK_Data f) (collecting code ls False) =
     (Inl PaE_UnexpectedDataBlock, collecting code ls False)"
  by (simp add: feed_line_def line_of_def)

lemma refused_line:
  assumes "holds r (wire (s # ls) @ rest)" and "line_ok (lr_max r) s" and "\<not> rc_in_data_block a"
    and "parse_control_line s = Some line" and "feed_line line a = (Inl e, a1)"
  shows "fst (read_reply a r) = Inl (CtE_Parser e)"
  using next_line_wire [OF assms(1,2)] assms(3-5) by (auto simp: read_reply.simps [of a])

lemma read_parts:
  assumes "code < 1000"
  shows "holds r (wire (render code parts l) @ rest) \<Longrightarrow> \<forall>s \<in> set (render code parts l). line_ok (lr_max r) s \<Longrightarrow>
    within_limits (ls @ reply_lines parts l) \<Longrightarrow>
    reads_as code (ls @ reply_lines parts l) (list_all is_line parts) rest (read_reply (collecting code ls False) r)"
proof (induction parts arbitrary: ls r)
  case Nil
  then show ?case
    using read_final [OF _ _ assms feed_collecting(2), of r l rest ls]
    by (auto simp: render_def reply_lines_def reads_as_def)
next
  case (Cons part parts)
  show ?case
  proof (cases part)
    case (RP_Line c)
    have "within_limits (ls @ [c])"
      using Cons.prems(3) RP_Line within_limits_prefix [of "ls @ [c]"] by (simp add: reply_lines_def)
    from feed_collecting(1) [OF this] parse_rendered(1) [OF assms, of c] obtain r1 where
      r1: "read_reply (collecting code ls False) r = read_reply (collecting code (ls @ [c]) False) r1"
      "holds r1 (wire (render code parts l) @ rest)" "lr_max r1 = lr_max r"
      using read_on [of r "dec3 code @ 0x2D # c" "render code parts l" rest
          "collecting code ls False" "collecting code (ls @ [c]) False"] Cons.prems(1,2) RP_Line
      by (auto simp: render_def)
    with Cons.IH [OF r1(2), of "ls @ [c]"] Cons.prems(2,3) RP_Line show ?thesis
      by (simp add: render_def reply_lines_def)
  next
    case (RP_Block f ds)
    with Cons.prems(1,2) refused_line [OF _ _ _ parse_rendered(2) [OF assms] feed_late_block, of r f
        "map stuff ds @ rs ''.'' # render code parts l" rest ls]
    show ?thesis by (simp add: render_def reads_as_def)
  qed
qed

text \<open>
  C31: the control client and the replies of the control protocol. Take any reply with a three-digit code, of any
  lines and data blocks in any order, within the limits of the client, delivered in any chunks. When no data
  block comes behind another part, the client returns the lines of exactly that reply, with the periods of the
  data lines unstuffed, and what follows it is left for the next command. When one does, the client refuses the
  reply as an unexpected data block and takes no line of it for an answer.
\<close>

theorem control_reply_roundtrip:
  assumes "code < 1000" and "holds r (wire (render code parts l) @ rest)"
    and "\<forall>s \<in> set (render code parts l). line_ok (lr_max r) s" and "within_limits (reply_lines parts l)"
  shows "reads_as code (reply_lines parts l) (readable parts) rest (read_reply accumulator_new r)"
proof (cases parts)
  case Nil
  with assms read_final [OF _ _ assms(1) feed_first(3), of r l rest] show ?thesis
    by (auto simp: accumulator_new_def render_def reply_lines_def reads_as_def readable_def)
next
  case (Cons part parts')
  let ?more = "render code parts' l"
  show ?thesis
  proof (cases part)
    case (RP_Line c)
    have "within_limits [c]"
      using assms(4) RP_Line Cons within_limits_prefix [of "[c]"] by (simp add: reply_lines_def)
    from feed_first(1) [OF this] parse_rendered(1) [OF assms(1), of c] obtain r1 where
      r1: "read_reply accumulator_new r = read_reply (collecting code [c] False) r1"
      "holds r1 (wire ?more @ rest)" "lr_max r1 = lr_max r"
      using read_on [of r "dec3 code @ 0x2D # c" ?more rest accumulator_new "collecting code [c] False"]
        assms(2,3) RP_Line Cons by (auto simp: accumulator_new_def render_def)
    with read_parts [OF assms(1) r1(2), of "[c]"] assms(3,4) RP_Line Cons show ?thesis
      by (simp add: render_def reply_lines_def readable_def)
  next
    case (RP_Block f ds)
    have w: "within_limits [f]" "within_limits ([f] @ ds)"
      using assms(4) RP_Block Cons within_limits_prefix [of "[f]"] within_limits_prefix [of "[f] @ ds"]
      by (simp_all add: reply_lines_def)
    from feed_first(2) [OF w(1)] parse_rendered(2) [OF assms(1), of f] obtain r1 where
      r1: "read_reply accumulator_new r = read_reply (collecting code [f] True) r1"
      "holds r1 (wire (map stuff ds @ rs ''.'' # ?more) @ rest)" "lr_max r1 = lr_max r"
      using read_on [of r "dec3 code @ 0x2B # f" "map stuff ds @ rs ''.'' # ?more" rest
          accumulator_new "collecting code [f] True"] assms(2,3) RP_Block Cons
      by (auto simp: accumulator_new_def render_def)
    from read_data [OF r1(2) _ _ w(2), of code] r1(3) assms(3) RP_Block Cons obtain r2 where
      r2: "read_reply (collecting code [f] True) r1 = read_reply (collecting code ([f] @ ds) False) r2"
      "holds r2 (wire ?more @ rest)" "lr_max r2 = lr_max r"
      by (auto simp: render_def)
    from read_parts [OF assms(1) r2(2), of "[f] @ ds"] r1(1) r2(1,3) assms(3,4) RP_Block Cons show ?thesis
      by (simp add: render_def reply_lines_def readable_def)
  qed
qed

lemma control_reply_roundtrip_witness:
  "reads_as 250 [rs ''a='', rs ''.x'', rs ''b'', rs ''OK''] True [50] (read_reply accumulator_new
     (line_reader_new [SR_Bytes (wire [rs ''250+a='', rs ''..x'']),
        SR_Bytes (wire [rs ''.'', rs ''250-b'', rs ''250 OK''] @ [50])] 4096))"
proof -
  let ?parts = "[RP_Block (rs ''a='') [rs ''.x''], RP_Line (rs ''b'')]"
  let ?chunks = "[wire [rs ''250+a='', rs ''..x''], wire [rs ''.'', rs ''250-b'', rs ''250 OK''] @ [50]]"
  let ?r = "line_reader_new (map SR_Bytes ?chunks) 4096"
  have render: "render 250 ?parts (rs ''OK'') = [rs ''250+a='', rs ''..x'', rs ''.'', rs ''250-b'', rs ''250 OK'']"
    by (simp add: render_def dec3_def stuff_def rs_def)
  have "holds ?r (wire (render 250 ?parts (rs ''OK'')) @ [50])"
    unfolding render holds_def line_reader_new_def by (rule exI [of _ ?chunks]) (simp add: wire_def)
  moreover have "\<forall>s \<in> set (render 250 ?parts (rs ''OK'')). line_ok (lr_max ?r) s"
    unfolding render by (simp add: line_ok_def line_reader_new_def rs_def scalar_def str_len_def utf8_def utf8_char_def)
  moreover have lines: "reply_lines ?parts (rs ''OK'') = [rs ''a='', rs ''.x'', rs ''b'', rs ''OK'']"
    by (simp add: reply_lines_def)
  then have "within_limits (reply_lines ?parts (rs ''OK''))"
    by (simp add: within_limits_def MAX_REPLY_LINES_def MAX_REPLY_BYTES_def rs_def str_len_def utf8_def utf8_char_def)
  moreover have "readable ?parts" by (simp add: readable_def)
  ultimately show ?thesis
    using control_reply_roundtrip [of 250 ?r ?parts "rs ''OK''" "[50]"] unfolding lines by simp
qed

section \<open>A reply ends\<close>

text \<open>
  The two loops of a command with an allowance of turns, \<open>None\<close> when it is used up: \<open>reads\<close> of the socket for
  one line, \<open>turns\<close> for the lines of the reply.
\<close>

fun fill_within :: "nat \<Rightarrow> nat \<Rightarrow> bytes \<Rightarrow> socket_read list \<Rightarrow>
    ((control_error + bytes option) \<times> bytes \<times> socket_read list) option" where
  "fill_within 0 max_len buf input = None"
| "fill_within (Suc reads) max_len buf [] = Some ((if buf = [] then Inr None else Inl CtE_UnexpectedEof), [], [])"
| "fill_within (Suc reads) max_len buf (SR_Failed # input) = Some (Inl CtE_Io, [], input)"
| "fill_within (Suc reads) max_len buf (SR_Bytes chunk # input) =
     (if chunk = [] then Some ((if buf = [] then Inr None else Inl CtE_UnexpectedEof), [], input)
      else case split_newline chunk of
        Some (start, rest) \<Rightarrow>
          Some (if max_len < length (buf @ start) then (Inl (CtE_LineTooLong max_len), [], input)
                else (Inr (Some (buf @ start)), rest, input))
      | None \<Rightarrow>
          if max_len < length (buf @ chunk) then Some (Inl (CtE_LineTooLong max_len), [], input)
          else fill_within reads max_len (buf @ chunk) input)"

definition next_within :: "nat \<Rightarrow> line_reader \<Rightarrow> ((control_error + rstring option) \<times> line_reader) option" where
  "next_within reads r =
     (case split_newline (lr_pending r) of
        Some (line, rest) \<Rightarrow>
          Some (bindE (finish_line line) (\<lambda>s. Inr (Some s)), r\<lparr>lr_pending := rest\<rparr>)
      | None \<Rightarrow>
          map_option (\<lambda>(res, pending, input).
            (bindE res (\<lambda>line. case line of None \<Rightarrow> Inr None | Some l \<Rightarrow> bindE (finish_line l) (\<lambda>s. Inr (Some s))),
             r\<lparr>lr_pending := pending, lr_input := input\<rparr>))
            (fill_within reads (lr_max r) (lr_pending r) (lr_input r)))"

fun reply_within :: "nat \<Rightarrow> nat \<Rightarrow> reply_accumulator \<Rightarrow> line_reader \<Rightarrow>
    ((control_error + control_reply) \<times> line_reader) option" where
  "reply_within 0 reads a r = None"
| "reply_within (Suc turns) reads a r =
     (case next_within reads r of
        None \<Rightarrow> None
      | Some (Inl e, r1) \<Rightarrow> Some (Inl e, r1)
      | Some (Inr None, r1) \<Rightarrow> Some (Inl CtE_UnexpectedEof, r1)
      | Some (Inr (Some text_line), r1) \<Rightarrow>
          if rc_in_data_block a then
            (case feed_data_line text_line a of
               (Inl e, _) \<Rightarrow> Some (Inl (CtE_Parser e), r1)
             | (Inr (Some reply), _) \<Rightarrow> Some (Inr reply, r1)
             | (Inr None, a1) \<Rightarrow> reply_within turns reads a1 r1)
          else
            (case parse_control_line text_line of
               None \<Rightarrow>
                 Some (Inl (CtE_Parser (if text_line = rs ''.'' then PaE_UnexpectedDataTerminator else PaE_MalformedLine)), r1)
             | Some line \<Rightarrow>
                 (case feed_line line a of
                    (Inl e, _) \<Rightarrow> Some (Inl (CtE_Parser e), r1)
                  | (Inr (Some reply), _) \<Rightarrow> Some (Inr reply, r1)
                  | (Inr None, a1) \<Rightarrow> reply_within turns reads a1 r1)))"

lemma fill_within_enough: "max_len + 1 < reads + length buf \<Longrightarrow> 0 < reads \<Longrightarrow>
   fill_within reads max_len buf input = Some (fill_line max_len buf input)"
proof (induction max_len buf input arbitrary: reads rule: fill_line.induct)
  case (3 max_len buf chunk input)
  obtain n where n: "reads = Suc n" using 3(3) by (cases reads) auto
  have "fill_within n max_len (buf @ chunk) input = Some (fill_line max_len (buf @ chunk) input)"
    if "chunk \<noteq> []" "split_newline chunk = None" "\<not> max_len < length (buf @ chunk)"
  proof (rule 3(1) [OF that])
    have "0 < length chunk" using that(1) by simp
    with 3(2) n have "max_len + 1 < n + (length buf + length chunk)" by linarith
    with that(3) show "max_len + 1 < n + length (buf @ chunk)" "0 < n" by simp_all
  qed
  then show ?case by (auto simp: n split: option.split)
qed (auto simp: gr0_conv_Suc)

lemma next_within_enough: "lr_max r + 1 < reads \<Longrightarrow> next_within reads r = Some (next_line r)"
  by (auto simp: next_within_def next_line_def fill_within_enough split: option.split prod.split sum.split)

text \<open>The lines a reply may still have; leaving the data block, which is entered once, is a turn of its own.\<close>

definition turns_left :: "reply_accumulator \<Rightarrow> nat" where
  "turns_left a = (MAX_REPLY_LINES - length (rc_lines a)) + (if rc_in_data_block a \<or> rc_code a = None then 1 else 0)"

lemma push_line_shrinks: "push_line x a = (Inr (), a1) \<Longrightarrow>
   length (rc_lines a) < MAX_REPLY_LINES \<and> a1 = a\<lparr>rc_lines := rc_lines a @ [x]\<rparr>"
  by (auto simp: push_line_def split: if_splits)

lemma feed_data_line_shrinks:
  "feed_data_line line a = (Inr None, a1) \<Longrightarrow> rc_code a \<noteq> None \<Longrightarrow> turns_left a1 < turns_left a \<and> rc_code a1 \<noteq> None"
  by (auto simp: feed_data_line_def turns_left_def tryS_def Let_def dest!: push_line_shrinks
      split: if_splits prod.splits sum.splits)

lemma feed_line_shrinks:
  "feed_line l a = (Inr None, a1) \<Longrightarrow> \<not> rc_in_data_block a \<Longrightarrow> turns_left a1 < turns_left a \<and> rc_code a1 \<noteq> None"
  by (auto simp: feed_line_def acc_begin_def take_reply_def turns_left_def tryS_def Let_def dest!: push_line_shrinks
      split: if_splits prod.splits sum.splits option.splits line_kind.splits)

lemma next_line_max: "next_line r = (res, r1) \<Longrightarrow> lr_max r1 = lr_max r"
  by (auto simp: next_line_def split: option.splits prod.splits sum.splits)

lemma reply_within_enough:
  "turns_left a < turns \<Longrightarrow> lr_max r + 1 < reads \<Longrightarrow> rc_in_data_block a \<longrightarrow> rc_code a \<noteq> None \<Longrightarrow>
   reply_within turns reads a r = Some (read_reply a r)"
proof (induction turns arbitrary: a r)
  case 0
  then show ?case by simp
next
  case (Suc turns)
  have turn: "next_within reads r = Some (next_line r)" by (rule next_within_enough [OF Suc.prems(2)])
  have data: "reply_within turns reads a1 r1 = Some (read_reply a1 r1)"
    if "next_line r = (Inr (Some line), r1)" "rc_in_data_block a" "feed_data_line line a = (Inr None, a1)" for line r1 a1
    using Suc.IH [of a1 r1] feed_data_line_shrinks [OF that(3)] Suc.prems that(2) next_line_max [OF that(1)] by simp
  have status: "reply_within turns reads a1 r1 = Some (read_reply a1 r1)"
    if "next_line r = (Inr (Some line), r1)" "\<not> rc_in_data_block a" "feed_line l a = (Inr None, a1)" for line l r1 a1
    using Suc.IH [of a1 r1] feed_line_shrinks [OF that(3,2)] Suc.prems next_line_max [OF that(1)] by simp
  show ?case
    by (subst read_reply.simps)
      (auto simp: turn data status split: prod.split sum.split option.split)
qed

text \<open>
  C32: Whatever the other end of the control socket sends and however much, a command is over after at most
  1026 lines, each of them after at most 4098 reads (for the reader's limit of 4096 bytes): the limits of the
  accumulator and of the line reader end both loops, also on a stream that never ends its reply.
\<close>

theorem command_loops_end:
  "reply_within (MAX_REPLY_LINES + 2) (lr_max r + 2) accumulator_new r = Some (read_reply accumulator_new r)"
  by (rule reply_within_enough) (simp_all add: turns_left_def accumulator_new_def)

end
