(* ===== verification/Socks.thy ===== *)
theory Socks
  imports Crypto "HOL-Library.Sublist"
begin

text \<open>
  The SOCKS5 client (\<open>net/socks.rs\<close>). The proxy is the list of the bytes that it sends until it closes
  the stream; the handshake returns what it wrote and the bytes that it left for the tunnel.
  The texts of the errors are not modelled, the data in them is.
\<close>

datatype socks_error =
    SkE_AddressTooLong
  | SkE_MethodRejected bytes
  | SkE_MalformedReply bytes
  | SkE_Refused u8
  | SkE_UnknownAddressType u8
  | SkE_UnexpectedEof

definition read_exact :: "nat \<Rightarrow> bytes \<Rightarrow> socks_error + bytes \<times> bytes" where
  "read_exact n input = (if length input < n then Inl SkE_UnexpectedEof else Inr (take n input, drop n input))"

definition socks_greeting :: bytes where "socks_greeting = [5, 1, 0]"

definition socks_request :: "rstring \<Rightarrow> u16 \<Rightarrow> bytes" where
  "socks_request address port =
     [5, 1, 0, 3, of_nat (str_len address)] @ utf8 address @ be16 port"

text \<open>The length of what follows the header, and the input behind the length byte of a domain name.\<close>

definition reply_tail :: "u8 \<Rightarrow> bytes \<Rightarrow> socks_error + nat \<times> bytes" where
  "reply_tail address_type input =
     (if address_type = 1 then Inr (4 + 2, input)
      else if address_type = 3 then
        bindE (read_exact 1 input) (\<lambda>(len, rest). Inr (unat (len ! 0) + 2, rest))
      else if address_type = 4 then Inr (16 + 2, input)
      else Inl (SkE_UnknownAddressType address_type))"

definition read_connect_reply :: "bytes \<Rightarrow> socks_error + bytes" where
  "read_connect_reply input =
     bindE (read_exact 4 input) (\<lambda>(header, input).
       if header ! 0 \<noteq> 5 then Inl (SkE_MalformedReply header)
       else if header ! 1 \<noteq> 0 then Inl (SkE_Refused (header ! 1))
       else
         bindE (reply_tail (header ! 3) input) (\<lambda>(tail, input).
           if 0 < tail then bindE (read_exact tail input) (\<lambda>(_, rest). Inr rest) else Inr input))"

definition socks_handshake :: "rstring \<Rightarrow> u16 \<Rightarrow> bytes \<Rightarrow> (socks_error + bytes) \<times> bytes" where
  "socks_handshake address port input =
     (if 255 < str_len address then (Inl SkE_AddressTooLong, [])
      else case read_exact 2 input of
        Inl e \<Rightarrow> (Inl e, socks_greeting)
      | Inr (greeting, input1) \<Rightarrow>
          if greeting \<noteq> [5, 0] then (Inl (SkE_MethodRejected greeting), socks_greeting)
          else (read_connect_reply input1, socks_greeting @ socks_request address port))"

section \<open>Against a proxy that follows the standard\<close>

text \<open>The bind address of a reply, in the three forms of RFC 1928.\<close>

datatype bind_address = BA_IPv4 bytes | BA_Domain bytes | BA_IPv6 bytes

fun bind_ok :: "bind_address \<Rightarrow> bool" where
  "bind_ok (BA_IPv4 a) \<longleftrightarrow> length a = 4"
| "bind_ok (BA_Domain d) \<longleftrightarrow> length d \<le> 255"
| "bind_ok (BA_IPv6 a) \<longleftrightarrow> length a = 16"

fun bind_bytes :: "bind_address \<Rightarrow> bytes" where
  "bind_bytes (BA_IPv4 a) = 1 # a"
| "bind_bytes (BA_Domain d) = 3 # of_nat (length d) # d"
| "bind_bytes (BA_IPv6 a) = 4 # a"

definition connect_reply :: "u8 \<Rightarrow> bind_address \<Rightarrow> u16 \<Rightarrow> bytes" where
  "connect_reply code bind port = [5, code, 0] @ bind_bytes bind @ be16 port"

text \<open>What the proxy understands: a CONNECT to a domain name.\<close>

definition proxy_reads :: "bytes \<Rightarrow> (rstring \<times> u16) option" where
  "proxy_reads request =
     (case request of
        v # c # z # t # n # body \<Rightarrow>
          if [v, c, z, t] = [5, 1, 0, 3] \<and> length body = unat n + 2 then
            (case from_utf8 (take (unat n) body) of
               Some address \<Rightarrow> Some (address, of_nat (from_be (drop (unat n) body)))
             | None \<Rightarrow> None)
          else None
      | _ \<Rightarrow> None)"

lemma read_exact_append: "length xs = n \<Longrightarrow> read_exact n (xs @ ys) = Inr (xs, ys)"
  by (simp add: read_exact_def)

lemma proxy_reads_request:
  assumes "\<forall>c \<in> set address. scalar c" and "str_len address \<le> 255"
  shows "proxy_reads (socks_request address port) = Some (address, port)"
  using assms
  by (simp add: proxy_reads_def socks_request_def str_len_def from_utf8_utf8 unat_of_nat)

lemma read_connect_reply_success:
  assumes "bind_ok bind"
  shows "read_connect_reply (connect_reply 0 bind port @ tunnel) = Inr tunnel"
proof -
  have p: "length (be16 port) = 2" by (simp add: be16_def)
  show ?thesis
  proof (cases bind)
    case (BA_Domain d)
    with assms p show ?thesis
      by (simp add: read_connect_reply_def connect_reply_def reply_tail_def read_exact_def unat_of_nat)
  qed (use assms p in \<open>simp_all add: read_connect_reply_def connect_reply_def reply_tail_def read_exact_def\<close>)
qed

text \<open>
  C36: against a proxy that follows the standard, whatever form of bind address it reports, the handshake
  asks for exactly the given onion address and port, consumes exactly the reply, and leaves the first
  byte of the tunnel as the next one to read; and a reply with any other code is refused with that code.
\<close>

theorem socks_tunnel_starts_clean:
  assumes "\<forall>c \<in> set address. scalar c" and "str_len address \<le> 255" and "bind_ok bind"
  shows "socks_handshake address port ([5, 0] @ connect_reply code bind bind_port @ tunnel) =
      ((if code = 0 then Inr tunnel else Inl (SkE_Refused code)), socks_greeting @ socks_request address port) \<and>
    proxy_reads (socks_request address port) = Some (address, port)"
proof -
  have "read_connect_reply (connect_reply code bind bind_port @ tunnel) = Inl (SkE_Refused code)" if "code \<noteq> 0"
    using that by (cases bind) (simp_all add: read_connect_reply_def connect_reply_def read_exact_def)
  with assms read_connect_reply_success [OF assms(3), of bind_port tunnel] proxy_reads_request [OF assms(1,2)]
  show ?thesis by (auto simp: socks_handshake_def read_exact_def)
qed

lemma socks_tunnel_starts_clean_witness:
  "fst (socks_handshake (rs ''a.onion'') 80 ([5, 0] @ connect_reply 0 (BA_IPv4 [127, 0, 0, 1]) 9050 @ [7])) = Inr [7]"
proof -
  have "\<forall>c \<in> set (rs ''a.onion''). scalar c" "str_len (rs ''a.onion'') \<le> 255"
    by (simp_all add: rs_def scalar_def str_len_def utf8_def utf8_char_def)
  from socks_tunnel_starts_clean [OF this, of "BA_IPv4 [127, 0, 0, 1]" 80 0 9050 "[7]"] show ?thesis by simp
qed

end
