(* ===== verification/TextInput.thy ===== *)
theory TextInput
  imports Validation
begin

text \<open>
  The input fields (\<open>ui/input.rs\<close>). The cursor of \<open>text_field\<close> is a byte offset, as in the source, and slicing
  off a character boundary panics there: such an operation is \<open>None\<close> here. The refinement to an editor
  of two lists, the characters before and behind the cursor, shows that it never happens.
\<close>

section \<open>The text field\<close>

record text_field =
  tf_text :: rstring
  tf_cursor :: nat
  tf_max_bytes :: nat
  tf_complete :: bool

definition text_field_new :: "nat \<Rightarrow> text_field" where
  "text_field_new max_bytes = \<lparr>tf_text = [], tf_cursor = 0, tf_max_bytes = max_bytes, tf_complete = False\<rparr>"

definition char_len :: "nat \<Rightarrow> nat" where
  "char_len c = length (utf8_char c)"

text \<open>\<open>&s[..n]\<close> and \<open>&s[n..]\<close>: defined when \<open>n\<close> is a character boundary.\<close>

fun split_bytes :: "nat \<Rightarrow> rstring \<Rightarrow> (rstring \<times> rstring) option" where
  "split_bytes n [] = (if n = 0 then Some ([], []) else None)"
| "split_bytes n (c # s) =
     (if n = 0 then Some ([], c # s)
      else if n < char_len c then None
      else map_option (\<lambda>(l, r). (c # l, r)) (split_bytes (n - char_len c) s))"

definition insert_char :: "nat \<Rightarrow> text_field \<Rightarrow> (bool \<times> text_field) option" where
  "insert_char ch f =
     (if tf_complete f \<or> is_unsafe_display_char ch then Some (False, f)
      else if tf_max_bytes f < str_len (tf_text f) + char_len ch then Some (False, f)
      else map_option (\<lambda>(l, r). (True, f\<lparr>tf_text := l @ [ch] @ r, tf_cursor := tf_cursor f + char_len ch\<rparr>))
             (split_bytes (tf_cursor f) (tf_text f)))"

fun insert_text :: "rstring \<Rightarrow> text_field \<Rightarrow> text_field option" where
  "insert_text [] f = Some f"
| "insert_text (ch # s) f = (case insert_char ch f of None \<Rightarrow> None | Some (_, f1) \<Rightarrow> insert_text s f1)"

text \<open>\<open>drain\<close> removes the bytes from one boundary to another.\<close>

definition drain :: "nat \<Rightarrow> nat \<Rightarrow> rstring \<Rightarrow> rstring option" where
  "drain from_byte to_byte s =
     (case (split_bytes from_byte s, split_bytes to_byte s) of
        (Some (l, _), Some (_, r)) \<Rightarrow> if from_byte \<le> to_byte then Some (l @ r) else None
      | _ \<Rightarrow> None)"

text \<open>The index of the last character of the text before the cursor.\<close>

definition previous_index :: "text_field \<Rightarrow> nat option" where
  "previous_index f =
     map_option (\<lambda>(l, _). if l = [] then 0 else str_len (butlast l)) (split_bytes (tf_cursor f) (tf_text f))"

text \<open>The index behind the character at the cursor.\<close>

definition next_index :: "text_field \<Rightarrow> nat option" where
  "next_index f =
     map_option (\<lambda>(_, r). case r of c # _ # _ \<Rightarrow> tf_cursor f + char_len c | _ \<Rightarrow> str_len (tf_text f))
       (split_bytes (tf_cursor f) (tf_text f))"

definition backspace :: "text_field \<Rightarrow> text_field option" where
  "backspace f =
     (if tf_complete f \<or> tf_cursor f = 0 then Some f
      else Option.bind (previous_index f) (\<lambda>prev.
        map_option (\<lambda>s. f\<lparr>tf_text := s, tf_cursor := prev\<rparr>) (drain prev (tf_cursor f) (tf_text f))))"

definition delete_char :: "text_field \<Rightarrow> text_field option" where
  "delete_char f =
     (if tf_complete f \<or> str_len (tf_text f) \<le> tf_cursor f then Some f
      else Option.bind (next_index f) (\<lambda>beyond.
        map_option (\<lambda>s. f\<lparr>tf_text := s\<rparr>) (drain (tf_cursor f) beyond (tf_text f))))"

definition move_left :: "text_field \<Rightarrow> text_field option" where
  "move_left f =
     (if tf_complete f \<or> tf_cursor f = 0 then Some f
      else map_option (\<lambda>prev. f\<lparr>tf_cursor := prev\<rparr>) (previous_index f))"

definition move_right :: "text_field \<Rightarrow> text_field option" where
  "move_right f =
     (if tf_complete f \<or> str_len (tf_text f) \<le> tf_cursor f then Some f
      else map_option (\<lambda>beyond. f\<lparr>tf_cursor := beyond\<rparr>) (next_index f))"

definition move_home :: "text_field \<Rightarrow> text_field" where
  "move_home f = (if tf_complete f then f else f\<lparr>tf_cursor := 0\<rparr>)"

definition move_end :: "text_field \<Rightarrow> text_field" where
  "move_end f = (if tf_complete f then f else f\<lparr>tf_cursor := str_len (tf_text f)\<rparr>)"

definition field_clear :: "text_field \<Rightarrow> text_field" where
  "field_clear f = f\<lparr>tf_text := [], tf_cursor := 0, tf_complete := False\<rparr>"

definition field_reopen :: "text_field \<Rightarrow> text_field" where
  "field_reopen f = f\<lparr>tf_complete := False, tf_cursor := str_len (tf_text f)\<rparr>"

datatype 'a submit = Submit_None | Submit_Value 'a | Submit_Cancel

definition field_submit :: "text_field \<Rightarrow> rstring submit \<times> text_field" where
  "field_submit f =
     (if tf_complete f then (Submit_None, f)
      else if tf_text f = [] then (Submit_None, f)
      else (Submit_Value (tf_text f), f\<lparr>tf_complete := True\<rparr>))"

section \<open>The masked field\<close>

record secret_field =
  sf_bytes :: bytes
  sf_max_bytes :: nat
  sf_complete :: bool

definition secret_field_new :: "nat \<Rightarrow> secret_field" where
  "secret_field_new max_bytes = \<lparr>sf_bytes = [], sf_max_bytes = max_bytes, sf_complete = False\<rparr>"

definition push_char :: "nat \<Rightarrow> secret_field \<Rightarrow> bool \<times> secret_field" where
  "push_char ch f =
     (if sf_complete f \<or> is_unsafe_display_char ch then (False, f)
      else if sf_max_bytes f < length (sf_bytes f) + char_len ch then (False, f)
      else (True, f\<lparr>sf_bytes := sf_bytes f @ map word_of_nat (utf8_char ch)\<rparr>))"

fun push_text :: "rstring \<Rightarrow> secret_field \<Rightarrow> secret_field" where
  "push_text [] f = f"
| "push_text (ch # s) f = push_text s (snd (push_char ch f))"

definition is_continuation :: "u8 \<Rightarrow> bool" where
  "is_continuation b \<longleftrightarrow> unat b div 64 = 2"

definition pop_char :: "secret_field \<Rightarrow> secret_field" where
  "pop_char f =
     (if sf_complete f \<or> sf_bytes f = [] then f
      else
        let trailing = length (takeWhile is_continuation (rev (sf_bytes f)))
        in f\<lparr>sf_bytes := take (length (sf_bytes f) - trailing - 1) (sf_bytes f)\<rparr>)"

definition secret_clear :: "secret_field \<Rightarrow> secret_field" where
  "secret_clear f = f\<lparr>sf_bytes := [], sf_complete := False\<rparr>"

definition secret_submit :: "secret_field \<Rightarrow> bytes submit \<times> secret_field" where
  "secret_submit f =
     (if sf_complete f then (Submit_None, f)
      else if sf_bytes f = [] then (Submit_None, f)
      else (Submit_Value (sf_bytes f), f\<lparr>sf_complete := True, sf_bytes := []\<rparr>))"

text \<open>The number of bullets.\<close>

definition masked :: "secret_field \<Rightarrow> nat" where
  "masked f = length (filter (\<lambda>b. \<not> is_continuation b) (sf_bytes f))"

definition take_value :: "secret_field \<Rightarrow> bytes option \<times> secret_field" where
  "take_value f = (if sf_complete f then (Some (sf_bytes f), f\<lparr>sf_bytes := []\<rparr>) else (None, f))"

section \<open>Byte offsets of characters\<close>

lemma char_len_pos [simp]: "0 < char_len c"
  by (simp add: char_len_def utf8_char_def)

lemma str_len_simps [simp]:
  "str_len [] = 0" "str_len (c # s) = char_len c + str_len s" "str_len (s @ t) = str_len s + str_len t"
  by (simp_all add: str_len_def utf8_def char_len_def)

lemma split_bytes_at [simp]: "split_bytes (str_len l) (l @ r) = Some (l, r)"
proof (induction l)
  case Nil
  show ?case by (cases r) simp_all
next
  case (Cons c l)
  then show ?case using char_len_pos [of c] by (simp del: char_len_pos)
qed

lemma drain_between [simp]: "drain (str_len l) (str_len l + str_len m) (l @ m @ r) = Some (l @ r)"
  using split_bytes_at [of l "m @ r"] split_bytes_at [of "l @ m" r] by (simp add: drain_def)

section \<open>Refinement to an editor of two lists\<close>

text \<open>The calls the screens make on a field (\<open>feed_text\<close> of \<open>ui/app.rs\<close> and the form steps).\<close>

datatype field_op =
  Op_Insert nat | Op_Paste rstring | Op_Backspace | Op_Delete | Op_Left | Op_Right | Op_Home | Op_End
| Op_Clear | Op_Reopen | Op_Submit

fun apply_op :: "field_op \<Rightarrow> text_field \<Rightarrow> text_field option" where
  "apply_op (Op_Insert c) f = map_option snd (insert_char c f)"
| "apply_op (Op_Paste s) f = insert_text s f"
| "apply_op Op_Backspace f = backspace f"
| "apply_op Op_Delete f = delete_char f"
| "apply_op Op_Left f = move_left f"
| "apply_op Op_Right f = move_right f"
| "apply_op Op_Home f = Some (move_home f)"
| "apply_op Op_End f = Some (move_end f)"
| "apply_op Op_Clear f = Some (field_clear f)"
| "apply_op Op_Reopen f = Some (field_reopen f)"
| "apply_op Op_Submit f = Some (snd (field_submit f))"

fun field_ops :: "field_op list \<Rightarrow> text_field \<Rightarrow> text_field option" where
  "field_ops [] f = Some f"
| "field_ops (k # ks) f = Option.bind (apply_op k f) (field_ops ks)"

text \<open>The editor: the characters before the cursor, those from the cursor on, and whether it is locked.\<close>

record editor =
  ed_left :: rstring
  ed_right :: rstring
  ed_locked :: bool

definition ed_empty :: editor where
  "ed_empty = \<lparr>ed_left = [], ed_right = [], ed_locked = False\<rparr>"

definition ed_insert :: "nat \<Rightarrow> nat \<Rightarrow> editor \<Rightarrow> editor" where
  "ed_insert m c e =
     (if ed_locked e \<or> is_unsafe_display_char c \<or> m < str_len (ed_left e @ c # ed_right e) then e
      else e\<lparr>ed_left := ed_left e @ [c]\<rparr>)"

fun edit :: "nat \<Rightarrow> field_op \<Rightarrow> editor \<Rightarrow> editor" where
  "edit m (Op_Insert c) e = ed_insert m c e"
| "edit m (Op_Paste s) e = fold (ed_insert m) s e"
| "edit m Op_Backspace e = (if ed_locked e then e else e\<lparr>ed_left := butlast (ed_left e)\<rparr>)"
| "edit m Op_Delete e = (if ed_locked e then e else e\<lparr>ed_right := tl (ed_right e)\<rparr>)"
| "edit m Op_Left e =
     (if ed_locked e \<or> ed_left e = [] then e
      else e\<lparr>ed_left := butlast (ed_left e), ed_right := last (ed_left e) # ed_right e\<rparr>)"
| "edit m Op_Right e =
     (if ed_locked e \<or> ed_right e = [] then e
      else e\<lparr>ed_left := ed_left e @ [hd (ed_right e)], ed_right := tl (ed_right e)\<rparr>)"
| "edit m Op_Home e =
     (if ed_locked e then e else e\<lparr>ed_left := [], ed_right := ed_left e @ ed_right e\<rparr>)"
| "edit m Op_End e =
     (if ed_locked e then e else e\<lparr>ed_left := ed_left e @ ed_right e, ed_right := []\<rparr>)"
| "edit m Op_Clear e = ed_empty"
| "edit m Op_Reopen e = \<lparr>ed_left = ed_left e @ ed_right e, ed_right = [], ed_locked = False\<rparr>"
| "edit m Op_Submit e = (if ed_left e @ ed_right e = [] then e else e\<lparr>ed_locked := True\<rparr>)"

text \<open>The field that shows an editor.\<close>

definition field_of :: "nat \<Rightarrow> editor \<Rightarrow> text_field" where
  "field_of m e =
     \<lparr>tf_text = ed_left e @ ed_right e, tf_cursor = str_len (ed_left e), tf_max_bytes = m,
      tf_complete = ed_locked e\<rparr>"

definition editor_ok :: "nat \<Rightarrow> editor \<Rightarrow> bool" where
  "editor_ok m e \<longleftrightarrow>
     str_len (ed_left e @ ed_right e) \<le> m \<and>
     list_all (\<lambda>c. \<not> is_unsafe_display_char c) (ed_left e @ ed_right e)"

lemma field_of_sel [simp]:
  "tf_text (field_of m e) = ed_left e @ ed_right e" "tf_cursor (field_of m e) = str_len (ed_left e)"
  "tf_max_bytes (field_of m e) = m" "tf_complete (field_of m e) = ed_locked e"
  by (simp_all add: field_of_def)

lemma str_len_0_iff [simp]: "str_len s = 0 \<longleftrightarrow> s = []"
  by (cases s) simp_all

lemma insert_char_field_of:
  "insert_char c (field_of m e) =
     Some (ed_insert m c e \<noteq> e, field_of m (ed_insert m c e))"
  by (cases e) (auto simp: insert_char_def ed_insert_def field_of_def)

lemma insert_text_field_of: "insert_text s (field_of m e) = Some (field_of m (fold (ed_insert m) s e))"
  by (induction s arbitrary: e) (simp_all add: insert_char_field_of)

lemma previous_index_field_of [simp]:
  "previous_index (field_of m e) = Some (str_len (butlast (ed_left e)))"
  by (simp add: previous_index_def)

lemma next_index_field_of:
  assumes "ed_right e = c # r"
  shows "next_index (field_of m e) = Some (str_len (ed_left e) + char_len c)"
  by (cases r) (simp_all add: next_index_def assms)

lemma backspace_field_of: "backspace (field_of m e) = Some (field_of m (edit m Op_Backspace e))"
proof (cases "ed_locked e \<or> ed_left e = []")
  case True
  then show ?thesis by (auto simp: backspace_def)
next
  case False
  define l c where "l = butlast (ed_left e)" and "c = last (ed_left e)"
  with False have "ed_left e = l @ [c]" by simp
  then show ?thesis
    using False drain_between [of l "[c]" "ed_right e"] by (simp add: backspace_def) (simp add: field_of_def)
qed

lemma delete_char_field_of: "delete_char (field_of m e) = Some (field_of m (edit m Op_Delete e))"
proof (cases "ed_right e")
  case Nil
  then show ?thesis by (simp add: delete_char_def)
next
  case (Cons c r)
  then show ?thesis
    using drain_between [of "ed_left e" "[c]" r] char_len_pos [of c]
    by (simp add: delete_char_def next_index_field_of [OF Cons]) (simp add: field_of_def)
qed

lemma move_left_field_of: "move_left (field_of m e) = Some (field_of m (edit m Op_Left e))"
proof (cases "ed_locked e \<or> ed_left e = []")
  case True
  then show ?thesis by (auto simp: move_left_def)
next
  case False
  then have "butlast (ed_left e) @ last (ed_left e) # ed_right e = ed_left e @ ed_right e" by simp
  with False show ?thesis by (simp add: move_left_def)
qed

lemma move_right_field_of: "move_right (field_of m e) = Some (field_of m (edit m Op_Right e))"
proof (cases "ed_right e")
  case Nil
  then show ?thesis by (simp add: move_right_def)
next
  case (Cons c r)
  then show ?thesis
    using char_len_pos [of c]
    by (cases "ed_locked e")
      (simp_all add: move_right_def next_index_field_of [OF Cons] del: field_of_sel(2), simp_all add: field_of_def)
qed

lemma apply_op_field_of: "apply_op k (field_of m e) = Some (field_of m (edit m k e))"
proof (cases k)
  case (Op_Insert c)
  then show ?thesis by (simp add: insert_char_field_of)
next
  case (Op_Paste s)
  then show ?thesis by (simp add: insert_text_field_of)
next
  case Op_Backspace
  then show ?thesis using backspace_field_of by simp
next
  case Op_Delete
  then show ?thesis using delete_char_field_of by simp
next
  case Op_Left
  then show ?thesis using move_left_field_of by simp
next
  case Op_Right
  then show ?thesis using move_right_field_of by simp
qed (auto simp: move_home_def move_end_def field_clear_def field_reopen_def field_submit_def ed_empty_def
       field_of_def)

lemma ed_insert_ok: "editor_ok m e \<Longrightarrow> editor_ok m (ed_insert m c e)"
  by (auto simp: editor_ok_def ed_insert_def)

lemma editor_ok_edit:
  assumes "editor_ok m e"
  shows "editor_ok m (edit m k e)"
proof (cases k)
  case (Op_Insert c)
  then show ?thesis using ed_insert_ok assms by simp
next
  case (Op_Paste s)
  have "editor_ok m (fold (ed_insert m) s e)"
    using assms by (induction s arbitrary: e) (auto intro: ed_insert_ok)
  then show ?thesis by (simp add: Op_Paste)
next
  case Op_Backspace
  then show ?thesis using assms by (cases "ed_left e" rule: rev_cases) (auto simp: editor_ok_def)
next
  case Op_Delete
  then show ?thesis using assms by (cases "ed_right e") (auto simp: editor_ok_def)
next
  case Op_Left
  then show ?thesis using assms by (cases "ed_left e" rule: rev_cases) (auto simp: editor_ok_def)
next
  case Op_Right
  then show ?thesis using assms by (cases "ed_right e") (auto simp: editor_ok_def)
qed (use assms in \<open>auto simp: editor_ok_def ed_empty_def\<close>)

lemma field_ops_run: "field_ops ks (field_of m e) = Some (field_of m (fold (edit m) ks e))"
  by (induction ks arbitrary: e) (simp_all add: apply_op_field_of)

lemma edits_ok: "editor_ok m e \<Longrightarrow> editor_ok m (fold (edit m) ks e)"
  by (induction ks arbitrary: e) (simp_all add: editor_ok_edit)

text \<open>
  Whatever sequence of insertions, pastes, deletions, cursor moves, submits, clears and reopenings the
  user drives an input field through, no operation ever slices the text off a character boundary (the
  panic of the source): the field behaves exactly as an editor that keeps the characters before and
  behind the cursor in two lists. Its text never exceeds the byte limit it was made with and never holds
  a control or display-spoofing character.
\<close>

theorem text_field_refines_editor:
  "field_ops ks (text_field_new m) = Some (field_of m (fold (edit m) ks ed_empty)) \<and>
   str_len (tf_text (field_of m (fold (edit m) ks ed_empty))) \<le> m \<and>
   list_all (\<lambda>c. \<not> is_unsafe_display_char c) (tf_text (field_of m (fold (edit m) ks ed_empty)))"
proof -
  have new: "text_field_new m = field_of m ed_empty"
    by (simp add: text_field_new_def field_of_def ed_empty_def)
  have "editor_ok m ed_empty"
    by (simp add: editor_ok_def ed_empty_def)
  from edits_ok [OF this, of ks] show ?thesis
    by (simp add: new field_ops_run editor_ok_def)
qed

section \<open>The masked field, character by character\<close>

text \<open>The field after the password \<open>s\<close> was typed.\<close>

definition secret_of :: "nat \<Rightarrow> rstring \<Rightarrow> secret_field" where
  "secret_of m s = \<lparr>sf_bytes = utf8 s, sf_max_bytes = m, sf_complete = False\<rparr>"

lemma utf8_single: "utf8 [c] = map word_of_nat (utf8_char c)"
  by (simp add: utf8_def)

lemma utf8_snoc: "utf8 (s @ [c]) = utf8 s @ map word_of_nat (utf8_char c)"
  by (simp add: utf8_def)

lemma push_char_secret_of:
  "push_char c (secret_of m s) =
     (if is_unsafe_display_char c \<or> m < str_len (s @ [c]) then (False, secret_of m s)
      else (True, secret_of m (s @ [c])))"
  by (simp add: push_char_def secret_of_def utf8_snoc str_len_def utf8_def char_len_def)

lemma is_continuation_byte: "is_continuation (word_of_nat (128 + n mod 64))"
proof -
  have "unat (word_of_nat (128 + n mod 64) :: u8) = 128 + n mod 64"
    using mod_less_divisor [of 64 n] by (simp add: unat_of_nat del: of_nat_add)
  then show ?thesis by (simp add: is_continuation_def)
qed

text \<open>A character's first byte is not a continuation byte, and all the others are.\<close>

lemma utf8_char_shape:
  assumes "scalar c"
  obtains b bs where "map word_of_nat (utf8_char c) = b # bs" "\<not> is_continuation b" "list_all is_continuation bs"
proof -
  have "c < 1114112" using assms by (auto simp: scalar_def)
  then have b: "c div 64 < 32 \<or> 2048 \<le> c" "c div 4096 < 16 \<or> 65536 \<le> c" "c div 262144 < 8" by auto
  show ?thesis
  proof (rule that [of "word_of_nat (hd (utf8_char c))" "map word_of_nat (tl (utf8_char c))"])
    show "map word_of_nat (utf8_char c) = word_of_nat (hd (utf8_char c)) # map word_of_nat (tl (utf8_char c))"
      by (metis list.collapse list.simps(9) utf8_char_nonempty)
    show "\<not> is_continuation (word_of_nat (hd (utf8_char c)))"
      using b by (auto simp: is_continuation_def utf8_char_def unat_of_nat)
    show "list_all is_continuation (map word_of_nat (tl (utf8_char c)))"
      using is_continuation_byte by (auto simp: utf8_char_def simp del: of_nat_add)
  qed
qed

lemma takeWhile_rev_append:
  assumes "\<not> P b" and "list_all P bs"
  shows "length (takeWhile P (rev (xs @ b # bs))) = length bs"
proof -
  have whole: "takeWhile P (rev bs) = rev bs" using assms(2) by (simp add: takeWhile_eq_all_conv list_all_iff)
  show ?thesis by (simp add: takeWhile_tail assms(1) whole)
qed

lemma pop_char_secret_of:
  assumes "scalar c"
  shows "pop_char (secret_of m (s @ [c])) = secret_of m s"
proof -
  obtain b bs where c: "map word_of_nat (utf8_char c) = b # bs" "\<not> is_continuation b" "list_all is_continuation bs"
    using utf8_char_shape [OF assms] .
  have "utf8 (s @ [c]) = utf8 s @ b # bs" by (simp only: utf8_snoc c(1))
  then show ?thesis
    by (simp add: pop_char_def secret_of_def takeWhile_rev_append [OF c(2,3), of "utf8 s", simplified])
qed

lemma masked_secret_of: "\<forall>c \<in> set s. scalar c \<Longrightarrow> masked (secret_of m s) = length s"
proof (induction s rule: rev_induct)
  case (snoc c s)
  obtain b bs where c: "map word_of_nat (utf8_char c) = b # bs" "\<not> is_continuation b" "list_all is_continuation bs"
    using utf8_char_shape [of c] snoc.prems by auto
  then have "filter (\<lambda>b. \<not> is_continuation b) bs = []" by (simp add: list_all_iff filter_empty_conv)
  with snoc c show ?case by (simp add: masked_def secret_of_def utf8_single)
qed (simp add: masked_def secret_of_def utf8_def)

text \<open>Typing, and deleting the last character.\<close>

datatype secret_key = Key_Char nat | Key_Backspace

fun press :: "secret_key \<Rightarrow> secret_field \<Rightarrow> secret_field" where
  "press (Key_Char c) f = snd (push_char c f)"
| "press Key_Backspace f = pop_char f"

text \<open>What the user means: a list of characters.\<close>

fun typed :: "nat \<Rightarrow> secret_key \<Rightarrow> rstring \<Rightarrow> rstring" where
  "typed m (Key_Char c) s = (if is_unsafe_display_char c \<or> m < str_len (s @ [c]) then s else s @ [c])"
| "typed m Key_Backspace s = butlast s"

fun key_scalar :: "secret_key \<Rightarrow> bool" where
  "key_scalar (Key_Char c) = scalar c"
| "key_scalar Key_Backspace = True"

lemma press_secret_of:
  assumes "\<forall>c \<in> set s. scalar c" "key_scalar k"
  shows "press k (secret_of m s) = secret_of m (typed m k s) \<and> (\<forall>c \<in> set (typed m k s). scalar c)"
proof (cases k)
  case (Key_Char c)
  then show ?thesis using assms by (auto simp: push_char_secret_of)
next
  case Key_Backspace
  then show ?thesis using assms
    by (cases s rule: rev_cases) (auto simp: pop_char_secret_of, simp add: pop_char_def secret_of_def utf8_def)
qed

lemma presses_secret_of:
  "list_all key_scalar ks \<Longrightarrow> \<forall>c \<in> set s. scalar c \<Longrightarrow>
   fold press ks (secret_of m s) = secret_of m (fold (typed m) ks s) \<and>
   (\<forall>c \<in> set (fold (typed m) ks s). scalar c)"
proof (induction ks arbitrary: s)
  case (Cons k ks)
  have k: "key_scalar k" "list_all key_scalar ks" using Cons.prems by simp_all
  note step = press_secret_of [OF Cons.prems(2) k(1), of m]
  show ?case
    unfolding fold_simps comp_apply conjunct1 [OF step] by (rule Cons.IH [OF k(2) conjunct2 [OF step]])
qed simp

lemma secret_field_new_eq: "secret_field_new m = secret_of m []"
  by (simp add: secret_field_new_def secret_of_def utf8_def)

text \<open>
  The masked password field edits raw bytes, yet it behaves as a list of characters: after any typing
  and deleting it holds the UTF-8 encoding of exactly the characters the user means (a deletion removes
  the whole last character, of whatever width), the mask shows one bullet per character, and submitting
  hands those bytes out while it leaves the field empty and locked.
\<close>

theorem secret_field_keeps_the_password:
  assumes "list_all key_scalar ks"
    and "s = fold (typed m) ks []"
    and "s \<noteq> []"
  shows "masked (fold press ks (secret_field_new m)) = length s \<and>
         secret_submit (fold press ks (secret_field_new m)) =
           (Submit_Value (utf8 s), \<lparr>sf_bytes = [], sf_max_bytes = m, sf_complete = True\<rparr>)"
proof -
  have s: "fold press ks (secret_field_new m) = secret_of m s" "\<forall>c \<in> set s. scalar c"
    using presses_secret_of [OF assms(1), of "[]" m] by (simp_all add: secret_field_new_eq assms(2))
  have "utf8 s \<noteq> []" using assms(3) by (cases s) (simp_all add: utf8_def)
  then show ?thesis
    by (simp add: s masked_secret_of secret_submit_def) (simp add: secret_of_def)
qed

text \<open>Three characters of one, two and three bytes are typed and one is deleted: two bullets, three bytes.\<close>

theorem secret_field_keeps_the_password_witness:
  "let f = fold press [Key_Char 112, Key_Char 228, Key_Char 8226, Key_Backspace] (secret_field_new 64)
   in masked f = 2 \<and> fst (secret_submit f) = Submit_Value [112, 195, 164]"
  using secret_field_keeps_the_password
    [of "[Key_Char 112, Key_Char 228, Key_Char 8226, Key_Backspace]" "[112, 228]" 64]
  by (simp add: scalar_def is_unsafe_display_char_def char_is_control_def is_dangerous_format_char_def
      str_len_def utf8_def utf8_char_def)

end
