(* ===== verification/RoomView.thy ===== *)
theory RoomView
  imports TextInput Uri Wire
begin

text \<open>
  What the room screen shows (\<open>ui/buffer.rs\<close>, \<open>ui/notice.rs\<close>, \<open>ui/room_view.rs\<close>): the bounded message
  pane, the notices, the panels and the input line. One \<open>clock\<close> is what the two clocks of the system,
  \<open>Instant::now\<close> and \<open>SystemTime::now\<close>, read during one call. Whatever is called with whatever text, the
  pane stays bounded and printable, and a line leaves it exactly when its own lifetime ends.
\<close>

record clock =
  ck_instant :: duration
  ck_unix_seconds :: nat

text \<open>An \<open>Instant\<close> holds its seconds in an \<open>i64\<close>; an addition past that has no result.\<close>

definition instant_limit :: duration where
  "instant_limit = secs (2 ^ 63)"

definition checked_add :: "duration \<Rightarrow> duration \<Rightarrow> duration option" where
  "checked_add t d = (if t + d < instant_limit then Some (t + d) else None)"

section \<open>The message buffer\<close>

type_synonym gmt_timestamp = u32

definition gmt_now :: "clock \<Rightarrow> gmt_timestamp" where
  "gmt_now ck = word_of_nat (ck_unix_seconds ck mod 86400)"

definition from_hms :: "u8 \<Rightarrow> u8 \<Rightarrow> u8 \<Rightarrow> gmt_timestamp option" where
  "from_hms hour minute second =
     (if 24 \<le> hour \<or> 60 \<le> minute \<or> 60 \<le> second then None
      else Some (ucast hour * 3600 + ucast minute * 60 + ucast second))"

definition two_digits :: "nat \<Rightarrow> rstring" where
  "two_digits n = (if n < 10 then 0x30 # dec n else dec n)"

definition gmt_display :: "gmt_timestamp \<Rightarrow> rstring" where
  "gmt_display t =
     two_digits (unat (t div 3600)) @ rs '':'' @ two_digits (unat (t mod 3600 div 60)) @ rs '':'' @
     two_digits (unat (t mod 60))"

definition DEFAULT_RENDER_BUFFER_CAPACITY :: nat where "DEFAULT_RENDER_BUFFER_CAPACITY = 256"

datatype line_style = LS_Chat | LS_Notice | LS_Alert | LS_Palette color_choice | LS_Error | LS_Muted

record nickname_span =
  ns_text :: rstring
  ns_color :: color_choice

record message_line =
  ml_text :: rstring
  ml_style :: line_style
  ml_nickname :: "nickname_span option"
  ml_timestamp :: gmt_timestamp
  ml_created_at :: duration
  ml_expires_at :: "duration option"

record render_buffer =
  rb_lines :: "message_line list"
  rb_capacity :: nat

definition buffer_new :: render_buffer where
  "buffer_new = \<lparr>rb_lines = [], rb_capacity = DEFAULT_RENDER_BUFFER_CAPACITY\<rparr>"

text \<open>\<open>VecDeque\<close> operations shared by both buffers: the oldest entry makes room.\<close>

definition push_bounded :: "nat \<Rightarrow> 'a \<Rightarrow> 'a list \<Rightarrow> 'a list" where
  "push_bounded capacity x xs =
     (if capacity = 0 then xs else (if length xs = capacity then tl xs else xs) @ [x])"

definition buffer_push :: "message_line \<Rightarrow> render_buffer \<Rightarrow> render_buffer" where
  "buffer_push line b = b\<lparr>rb_lines := push_bounded (rb_capacity b) line (rb_lines b)\<rparr>"

definition buffer_clear :: "render_buffer \<Rightarrow> render_buffer" where
  "buffer_clear b = b\<lparr>rb_lines := []\<rparr>"

definition set_expiry :: "duration option \<Rightarrow> render_buffer \<Rightarrow> render_buffer" where
  "set_expiry max_age b =
     b\<lparr>rb_lines := map (\<lambda>line. line\<lparr>ml_expires_at := Option.bind max_age (checked_add (ml_created_at line))\<rparr>)
        (rb_lines b)\<rparr>"

definition expire_due :: "duration \<Rightarrow> render_buffer \<Rightarrow> nat \<times> render_buffer" where
  "expire_due now b =
     (let kept = filter (\<lambda>line. case ml_expires_at line of None \<Rightarrow> True | Some deadline \<Rightarrow> now < deadline) (rb_lines b)
      in (length (rb_lines b) - length kept, b\<lparr>rb_lines := kept\<rparr>))"

definition next_expiry :: "render_buffer \<Rightarrow> duration option" where
  "next_expiry b =
     (case List.map_filter ml_expires_at (rb_lines b) of [] \<Rightarrow> None | d # ds \<Rightarrow> Some (fold min ds d))"

section \<open>The notices\<close>

definition DEFAULT_NOTICE_CAPACITY :: nat where "DEFAULT_NOTICE_CAPACITY = 32"

record notice =
  nt_text :: rstring
  nt_timestamp :: gmt_timestamp

record notice_buffer =
  nb_notices :: "notice list"
  nb_capacity :: nat

definition notices_new :: notice_buffer where
  "notices_new = \<lparr>nb_notices = [], nb_capacity = DEFAULT_NOTICE_CAPACITY\<rparr>"

definition notice_push :: "clock \<Rightarrow> rstring \<Rightarrow> notice_buffer \<Rightarrow> notice_buffer" where
  "notice_push ck text b =
     b\<lparr>nb_notices := push_bounded (nb_capacity b) \<lparr>nt_text = text, nt_timestamp = gmt_now ck\<rparr> (nb_notices b)\<rparr>"

section \<open>The view\<close>

definition ROOM_INPUT_MAX_BYTES :: nat where "ROOM_INPUT_MAX_BYTES = 4096"

record member_line =
  mb_member_id :: member_id
  mb_nickname :: rstring
  mb_color :: color_choice
  mb_is_host :: bool

datatype request_kind = RK_Join "rstring option" | RK_Timeout u64

record request_line =
  rq_request_id :: request_id
  rq_nickname :: rstring
  rq_kind :: request_kind

datatype line_submit = LSub_Done | LSub_Rejected

datatype room_view_mode = VM_Host | VM_Member

record room_view =
  rv_is_host :: bool
  rv_view_mode :: room_view_mode
  rv_own_nickname :: rstring
  rv_entered_at :: duration
  rv_invitation :: "rstring option"
  rv_status :: rstring
  rv_messages :: render_buffer
  rv_show_system_messages :: bool
  rv_notices :: notice_buffer
  rv_members :: "member_line list"
  rv_requests :: "request_line list"
  rv_input :: text_field
  rv_message_timeout_interval :: "u64 option"

definition room_view_new :: "bool \<Rightarrow> rstring \<Rightarrow> duration \<Rightarrow> room_view" where
  "room_view_new is_host own_nickname now =
     \<lparr>rv_is_host = is_host, rv_view_mode = (if is_host then VM_Host else VM_Member),
      rv_own_nickname = own_nickname, rv_entered_at = now, rv_invitation = None, rv_status = [],
      rv_messages = buffer_new, rv_show_system_messages = True, rv_notices = notices_new, rv_members = [],
      rv_requests = [], rv_input = text_field_new ROOM_INPUT_MAX_BYTES, rv_message_timeout_interval = None\<rparr>"

definition uses_host_view :: "room_view \<Rightarrow> bool" where
  "uses_host_view v \<longleftrightarrow> rv_is_host v \<and> rv_view_mode v = VM_Host"

definition room_elapsed :: "duration \<Rightarrow> room_view \<Rightarrow> duration" where
  "room_elapsed now v = now - rv_entered_at v"

definition participant_count :: "room_view \<Rightarrow> nat" where
  "participant_count v =
     (let participants = length (filter (\<lambda>m. \<not> mb_is_host m) (rv_members v))
      in if rv_is_host v then participants else max participants 1)"

definition toggle_host_member_view :: "room_view \<Rightarrow> bool \<times> room_view" where
  "toggle_host_member_view v =
     (if \<not> rv_is_host v then (False, v)
      else (True, v\<lparr>rv_view_mode := (case rv_view_mode v of VM_Host \<Rightarrow> VM_Member | VM_Member \<Rightarrow> VM_Host)\<rparr>))"

definition toggle_system_messages :: "room_view \<Rightarrow> room_view" where
  "toggle_system_messages v = v\<lparr>rv_show_system_messages := \<not> rv_show_system_messages v\<rparr>"

definition set_message_timeout :: "u64 option \<Rightarrow> room_view \<Rightarrow> room_view" where
  "set_message_timeout interval v =
     (let interval1 = (case interval of Some s \<Rightarrow> if 0 < s then Some s else None | None \<Rightarrow> None)
      in v\<lparr>rv_message_timeout_interval := interval1,
           rv_messages := set_expiry (map_option (\<lambda>s. secs (unat s)) interval1) (rv_messages v)\<rparr>)"

definition tick_message_timeout :: "duration \<Rightarrow> room_view \<Rightarrow> bool \<times> room_view" where
  "tick_message_timeout now v =
     (if rv_message_timeout_interval v = None then (False, v)
      else let (n, b) = expire_due now (rv_messages v) in (0 < n, v\<lparr>rv_messages := b\<rparr>))"

definition next_message_expiry :: "room_view \<Rightarrow> duration option" where
  "next_message_expiry v = next_expiry (rv_messages v)"

definition push_message :: "clock \<Rightarrow> rstring \<Rightarrow> line_style \<Rightarrow> nickname_span option \<Rightarrow> room_view \<Rightarrow> room_view" where
  "push_message ck text style nickname v =
     v\<lparr>rv_messages := buffer_push
         \<lparr>ml_text = text, ml_style = style, ml_nickname = nickname, ml_timestamp = gmt_now ck,
          ml_created_at = ck_instant ck,
          ml_expires_at = Option.bind (rv_message_timeout_interval v)
            (\<lambda>seconds. checked_add (ck_instant ck) (secs (unat seconds)))\<rparr>
         (rv_messages v)\<rparr>"

definition push_chat :: "clock \<Rightarrow> rstring \<Rightarrow> color_choice \<Rightarrow> rstring \<Rightarrow> room_view \<Rightarrow> room_view" where
  "push_chat ck nickname color text v =
     (let nickname1 = sanitize_for_display nickname
      in push_message ck (nickname1 @ rs '': '' @ sanitize_for_display text) LS_Chat
           (Some \<lparr>ns_text = nickname1, ns_color = color\<rparr>) v)"

definition member_by_nickname :: "rstring \<Rightarrow> room_view \<Rightarrow> member_line option" where
  "member_by_nickname nickname v = List.find (\<lambda>m. mb_nickname m = nickname) (rv_members v)"

definition push_own :: "clock \<Rightarrow> rstring \<Rightarrow> room_view \<Rightarrow> room_view" where
  "push_own ck text v =
     (let color = (case member_by_nickname (rv_own_nickname v) v of Some m \<Rightarrow> mb_color m | None \<Rightarrow> color_default)
      in push_chat ck (rv_own_nickname v) color text v)"

definition push_system :: "clock \<Rightarrow> rstring \<Rightarrow> room_view \<Rightarrow> room_view" where
  "push_system ck text = push_message ck (sanitize_for_display text) LS_Notice None"

definition push_muted :: "clock \<Rightarrow> rstring \<Rightarrow> room_view \<Rightarrow> room_view" where
  "push_muted ck text = push_message ck (sanitize_for_display text) LS_Muted None"

definition push_error :: "clock \<Rightarrow> rstring \<Rightarrow> room_view \<Rightarrow> room_view" where
  "push_error ck text = push_message ck (sanitize_for_display text) LS_Error None"

definition push_color_list :: "clock \<Rightarrow> room_view \<Rightarrow> room_view" where
  "push_color_list ck =
     fold (\<lambda>color. push_message ck (color_name color) (LS_Palette color) None)
       [Red, Green, Yellow, Blue, Magenta, Cyan, White]"

definition clear_messages :: "room_view \<Rightarrow> room_view" where
  "clear_messages v = v\<lparr>rv_messages := buffer_clear (rv_messages v)\<rparr>"

definition view_notice :: "clock \<Rightarrow> rstring \<Rightarrow> room_view \<Rightarrow> room_view" where
  "view_notice ck text v =
     (let text1 = sanitize_for_display text
      in push_message ck (rs ''! '' @ text1) LS_Alert None
           (v\<lparr>rv_notices := notice_push ck text1 (rv_notices v)\<rparr>))"

definition set_members :: "member_line list \<Rightarrow> room_view \<Rightarrow> room_view" where
  "set_members ms v = v\<lparr>rv_members := ms\<rparr>"

definition set_requests :: "request_line list \<Rightarrow> room_view \<Rightarrow> room_view" where
  "set_requests qs v = v\<lparr>rv_requests := qs\<rparr>"

text \<open>The dash of the source is \<open>U+2014\<close>.\<close>

definition em_dash :: rstring where
  "em_dash = [0x20, 0x2014, 0x20]"

definition request_text :: "request_line \<Rightarrow> rstring" where
  "request_text q =
     (let id = dec (unat (rq_request_id q));
          answers = em_dash @ rs ''/accept '' @ id @ rs '' or /reject '' @ id
      in case rq_kind q of
           RK_Join introduction \<Rightarrow>
             rs ''join request '' @ id @ rs '': '' @ rq_nickname q @
             (case introduction of Some text \<Rightarrow> em_dash @ text | None \<Rightarrow> []) @ answers
         | RK_Timeout seconds \<Rightarrow>
             rs ''timeout request '' @ id @ rs '': '' @ rq_nickname q @ em_dash @
             dec (unat seconds) @ rs '' seconds'' @ answers)"

definition show_requests :: "clock \<Rightarrow> request_line list \<Rightarrow> room_view \<Rightarrow> room_view" where
  "show_requests ck qs v =
     (let lines = (if qs = [] then [rs ''no pending requests'']
                   else (rs ''pending requests: '' @ dec (length qs)) # map request_text qs)
      in fold (view_notice ck) lines (v\<lparr>rv_requests := qs\<rparr>))"

definition set_invitation :: "rstring \<Rightarrow> room_view \<Rightarrow> room_view" where
  "set_invitation uri v = v\<lparr>rv_invitation := Some uri\<rparr>"

definition set_status :: "rstring \<Rightarrow> room_view \<Rightarrow> room_view" where
  "set_status status v = v\<lparr>rv_status := status\<rparr>"

definition submit_line :: "room_view \<Rightarrow> line_submit \<times> room_view" where
  "submit_line v =
     (case field_submit (rv_input v) of
        (Submit_Value text, f) \<Rightarrow> (LSub_Done, v\<lparr>rv_input := field_clear f\<rparr>)
      | (_, f) \<Rightarrow> (LSub_Rejected, v\<lparr>rv_input := f\<rparr>))"

text \<open>The ellipsis is \<open>U+2026\<close> and the dot \<open>U+00B7\<close>; \<open>get\<close> with a range off a boundary is \<open>None\<close>.\<close>

definition shortened_host :: "rstring \<Rightarrow> rstring" where
  "shortened_host host =
     (case strip_suffix ONION_V3_SUFFIX host of
        None \<Rightarrow> host
      | Some body \<Rightarrow>
          if 8 < str_len body
          then (case split_bytes 4 body of Some (head, _) \<Rightarrow> head | None \<Rightarrow> body) @ [0x2026] @
               (case split_bytes (str_len body - 4) body of Some (_, tail) \<Rightarrow> tail | None \<Rightarrow> []) @ ONION_V3_SUFFIX
          else host)"

definition preview_invitation :: "rstring \<Rightarrow> rstring" where
  "preview_invitation uri =
     (let host = (case Option.bind (strip_prefix INVITATION_SCHEME uri) (strip_prefix (rs ''://'')) of
                    Some r \<Rightarrow> takeWhile (\<lambda>c. c \<noteq> 0x3A) r
                  | None \<Rightarrow> [])
      in INVITATION_SCHEME @ rs ''://'' @ shortened_host host @ [0x20, 0xB7, 0x20] @ rs ''token: present'')"

definition invitation_preview :: "room_view \<Rightarrow> rstring option" where
  "invitation_preview v = map_option preview_invitation (rv_invitation v)"

section \<open>The lines of the pane\<close>

definition safe_text :: "rstring \<Rightarrow> bool" where
  "safe_text s \<longleftrightarrow> \<not> contains_control_char s"

lemma safe_text_simps [simp]:
  "safe_text []" "safe_text (c # s) \<longleftrightarrow> \<not> is_unsafe_display_char c \<and> safe_text s"
  "safe_text (s @ t) \<longleftrightarrow> safe_text s \<and> safe_text t"
  by (auto simp: safe_text_def contains_control_char_def)

lemma safe_sanitized [simp]: "safe_text (sanitize_for_display s)"
  by (simp add: safe_text_def sanitize_safe)

lemma safe_color_name [simp]: "safe_text (color_name c)"
  by (cases c)
    (simp_all add: rs_def is_unsafe_display_char_def char_is_control_def is_dangerous_format_char_def)

lemma safe_punctuation [simp]: "safe_text (rs '': '')" "safe_text (rs ''! '')"
  by (simp_all add: rs_def is_unsafe_display_char_def char_is_control_def is_dangerous_format_char_def)

text \<open>A line is printable, carries its sender in front, and has the deadline of the current lifetime.\<close>

fun sender_first :: "nickname_span option \<Rightarrow> rstring \<Rightarrow> bool" where
  "sender_first None text = True"
| "sender_first (Some n) text = (take (length (ns_text n)) text = ns_text n)"

definition line_ok :: "u64 option \<Rightarrow> message_line \<Rightarrow> bool" where
  "line_ok interval line \<longleftrightarrow>
     safe_text (ml_text line) \<and>
     sender_first (ml_nickname line) (ml_text line) \<and>
     ml_expires_at line = Option.bind interval (\<lambda>s. checked_add (ml_created_at line) (secs (unat s)))"

definition view_ok :: "room_view \<Rightarrow> bool" where
  "view_ok v \<longleftrightarrow>
     rv_message_timeout_interval v \<noteq> Some 0 \<and>
     rb_capacity (rv_messages v) = DEFAULT_RENDER_BUFFER_CAPACITY \<and>
     length (rb_lines (rv_messages v)) \<le> DEFAULT_RENDER_BUFFER_CAPACITY \<and>
     list_all (line_ok (rv_message_timeout_interval v)) (rb_lines (rv_messages v)) \<and>
     nb_capacity (rv_notices v) = DEFAULT_NOTICE_CAPACITY \<and>
     length (nb_notices (rv_notices v)) \<le> DEFAULT_NOTICE_CAPACITY \<and>
     list_all (\<lambda>n. safe_text (nt_text n)) (nb_notices (rv_notices v)) \<and>
     (rv_view_mode v = VM_Host \<longrightarrow> rv_is_host v)"

lemma length_push_bounded: "length xs \<le> n \<Longrightarrow> length (push_bounded n x xs) \<le> n"
  by (auto simp: push_bounded_def)

lemma list_all_push_bounded: "list_all P xs \<Longrightarrow> P x \<Longrightarrow> list_all P (push_bounded n x xs)"
  by (cases xs) (auto simp: push_bounded_def)

lemma list_all_sublist: "list_all P xs \<Longrightarrow> list_all P (filter Q xs)"
  by (simp add: list_all_iff)

lemma push_message_ok:
  assumes "view_ok v" and "safe_text text"
    and "sender_first nick text"
  shows "view_ok (push_message ck text style nick v)"
  using assms
  by (auto simp: view_ok_def push_message_def buffer_push_def line_ok_def length_push_bounded
      intro!: list_all_push_bounded split: option.splits)

lemma push_chat_ok: "view_ok v \<Longrightarrow> view_ok (push_chat ck nickname color text v)"
  unfolding push_chat_def Let_def by (rule push_message_ok) auto

lemma view_notice_ok: "view_ok v \<Longrightarrow> view_ok (view_notice ck text v)"
  unfolding view_notice_def Let_def
  by (rule push_message_ok)
    (auto simp: view_ok_def notice_push_def length_push_bounded intro!: list_all_push_bounded)

lemma fold_ok: "(\<And>x v. P v \<Longrightarrow> P (f x v)) \<Longrightarrow> P v \<Longrightarrow> P (fold f xs v)"
  by (induction xs arbitrary: v) simp_all

lemma show_requests_ok: "view_ok v \<Longrightarrow> view_ok (show_requests ck qs v)"
  unfolding show_requests_def Let_def
  by (rule fold_ok [of view_ok, OF view_notice_ok]) (simp_all add: view_ok_def)

lemma push_color_list_ok: "view_ok v \<Longrightarrow> view_ok (push_color_list ck v)"
  unfolding push_color_list_def by (rule fold_ok) (auto intro!: push_message_ok)

lemma set_message_timeout_ok: "view_ok v \<Longrightarrow> view_ok (set_message_timeout interval v)"
  by (cases interval)
    (auto simp: view_ok_def set_message_timeout_def set_expiry_def line_ok_def list_all_iff)

lemma tick_message_timeout_ok: "view_ok v \<Longrightarrow> view_ok (snd (tick_message_timeout now v))"
  by (auto simp: view_ok_def tick_message_timeout_def expire_due_def Let_def
      intro: list_all_sublist le_trans [OF length_filter_le])

section \<open>Any sequence of calls\<close>

text \<open>Every method of the view that changes it.\<close>

datatype view_op =
    VO_Chat rstring color_choice rstring | VO_Own rstring | VO_System rstring | VO_Muted rstring
  | VO_Error rstring | VO_Colors | VO_Clear | VO_Notice rstring | VO_Members "member_line list"
  | VO_Requests "request_line list" | VO_ShowRequests "request_line list" | VO_Invitation rstring
  | VO_Status rstring | VO_Timeout "u64 option" | VO_Tick | VO_ToggleView | VO_ToggleSystem
  | VO_Input field_op | VO_Submit

fun apply_view_op :: "clock \<Rightarrow> view_op \<Rightarrow> room_view \<Rightarrow> room_view" where
  "apply_view_op ck (VO_Chat n c t) v = push_chat ck n c t v"
| "apply_view_op ck (VO_Own t) v = push_own ck t v"
| "apply_view_op ck (VO_System t) v = push_system ck t v"
| "apply_view_op ck (VO_Muted t) v = push_muted ck t v"
| "apply_view_op ck (VO_Error t) v = push_error ck t v"
| "apply_view_op ck VO_Colors v = push_color_list ck v"
| "apply_view_op ck VO_Clear v = clear_messages v"
| "apply_view_op ck (VO_Notice t) v = view_notice ck t v"
| "apply_view_op ck (VO_Members ms) v = set_members ms v"
| "apply_view_op ck (VO_Requests qs) v = set_requests qs v"
| "apply_view_op ck (VO_ShowRequests qs) v = show_requests ck qs v"
| "apply_view_op ck (VO_Invitation u) v = set_invitation u v"
| "apply_view_op ck (VO_Status t) v = set_status t v"
| "apply_view_op ck (VO_Timeout i) v = set_message_timeout i v"
| "apply_view_op ck VO_Tick v = snd (tick_message_timeout (ck_instant ck) v)"
| "apply_view_op ck VO_ToggleView v = snd (toggle_host_member_view v)"
| "apply_view_op ck VO_ToggleSystem v = toggle_system_messages v"
| "apply_view_op ck (VO_Input k) v = v\<lparr>rv_input := the (apply_op k (rv_input v))\<rparr>"
| "apply_view_op ck VO_Submit v = snd (submit_line v)"

lemma view_ok_updates [simp]:
  "view_ok (v\<lparr>rv_members := ms\<rparr>) = view_ok v" "view_ok (v\<lparr>rv_requests := qs\<rparr>) = view_ok v"
  "view_ok (v\<lparr>rv_invitation := i\<rparr>) = view_ok v" "view_ok (v\<lparr>rv_status := st\<rparr>) = view_ok v"
  "view_ok (v\<lparr>rv_input := f\<rparr>) = view_ok v" "view_ok (v\<lparr>rv_show_system_messages := b\<rparr>) = view_ok v"
  by (simp_all add: view_ok_def)

lemma clear_messages_ok: "view_ok v \<Longrightarrow> view_ok (clear_messages v)"
  by (simp add: clear_messages_def buffer_clear_def view_ok_def)

lemma apply_view_op_ok:
  assumes "view_ok v"
  shows "view_ok (apply_view_op ck p v)"
proof (cases p)
  case (VO_Timeout i)
  then show ?thesis using set_message_timeout_ok [OF assms] by simp
next
  case VO_Tick
  then show ?thesis using tick_message_timeout_ok [OF assms] by simp
next
  case VO_ToggleView
  then show ?thesis using assms by (auto simp: view_ok_def toggle_host_member_view_def split: room_view_mode.splits)
qed (use assms in \<open>auto simp: push_own_def push_system_def push_muted_def push_error_def
      set_members_def set_requests_def set_invitation_def set_status_def Let_def
      toggle_system_messages_def submit_line_def
      intro!: push_chat_ok view_notice_ok show_requests_ok push_color_list_ok push_message_ok clear_messages_ok
      split: submit.splits prod.splits\<close>)

fun view_run :: "(clock \<times> view_op) list \<Rightarrow> room_view \<Rightarrow> room_view" where
  "view_run [] v = v"
| "view_run ((ck, p) # ps) v = view_run ps (apply_view_op ck p v)"

lemma view_run_ok: "view_ok v \<Longrightarrow> view_ok (view_run ps v)"
  by (induction ps v rule: view_run.induct) (simp_all add: apply_view_op_ok)

lemma room_view_new_ok: "view_ok (room_view_new is_host nickname now)"
  by (simp add: view_ok_def room_view_new_def buffer_new_def notices_new_def)

text \<open>
  C26: Whatever the screen is asked to show, with nicknames, messages, introductions and error texts chosen
  by peers, at any time and in any order, the message pane holds at most 256 lines and the notice list at
  most 32 entries, none of them contains a control, escape or display-spoofing character, and every chat
  line begins with the sender it is coloured as; only a host ever sees the host layout.
\<close>

theorem pane_is_safe_and_bounded:
  "let v = view_run ps (room_view_new is_host nickname now)
   in length (rb_lines (rv_messages v)) \<le> 256 \<and>
      list_all (\<lambda>l. \<not> contains_control_char (ml_text l)) (rb_lines (rv_messages v)) \<and>
      list_all (\<lambda>l. sender_first (ml_nickname l) (ml_text l)) (rb_lines (rv_messages v)) \<and>
      length (nb_notices (rv_notices v)) \<le> 32 \<and>
      list_all (\<lambda>n. \<not> contains_control_char (nt_text n)) (nb_notices (rv_notices v)) \<and>
      (rv_is_host v \<or> rv_view_mode v = VM_Member)"
  using view_run_ok [OF room_view_new_ok [of is_host nickname now], of ps]
  by (simp add: view_ok_def Let_def DEFAULT_RENDER_BUFFER_CAPACITY_def DEFAULT_NOTICE_CAPACITY_def line_ok_def
      safe_text_def list_all_iff) (cases "rv_view_mode (view_run ps (room_view_new is_host nickname now))"; simp)

section \<open>When a line leaves the pane\<close>

lemma fold_min_le: "fold min ds (d :: nat) \<le> t \<longleftrightarrow> d \<le> t \<or> (\<exists>x \<in> set ds. x \<le> t)"
  by (induction ds arbitrary: d) (auto simp: min_le_iff_disj)

lemma next_expiry_due:
  "(case next_expiry b of None \<Rightarrow> False | Some d \<Rightarrow> d \<le> t) \<longleftrightarrow>
   (\<exists>l \<in> set (rb_lines b). \<exists>d. ml_expires_at l = Some d \<and> d \<le> t)"
proof -
  have "(\<exists>d \<in> set (List.map_filter ml_expires_at (rb_lines b)). d \<le> t) \<longleftrightarrow>
    (\<exists>l \<in> set (rb_lines b). \<exists>d. ml_expires_at l = Some d \<and> d \<le> t)"
    by (auto simp: List.map_filter_def image_iff) fastforce+
  then show ?thesis by (auto simp: next_expiry_def fold_min_le split: list.splits)
qed

lemma length_filter_less: "0 < length xs - length (filter P xs) \<longleftrightarrow> (\<exists>x \<in> set xs. \<not> P x)"
  by (metis diff_is_0_eq filter_id_conv length_filter_le length_filter_less neq0_conv order_refl zero_less_diff)

text \<open>
  C30: A message lives exactly as long as the room's setting says, counted from the moment it was shown,
  however often the setting changes and whatever else happens on the screen: a maintenance tick removes
  precisely the lines older than the current lifetime and keeps the order of the rest (a lifetime so long
  that the deadline is no instant never ends), removes nothing when the timeout is off, and does remove a
  line exactly when the deadline that the supervisor sleeps for has come.
\<close>

theorem expiry_is_exact:
  "let v = view_run ps (room_view_new is_host nickname now);
       kept = rb_lines (rv_messages (snd (tick_message_timeout t v)))
   in kept = (case rv_message_timeout_interval v of
                None \<Rightarrow> rb_lines (rv_messages v)
              | Some s \<Rightarrow>
                  filter (\<lambda>l. t < ml_created_at l + secs (unat s) \<or> instant_limit \<le> ml_created_at l + secs (unat s))
                    (rb_lines (rv_messages v))) \<and>
      fst (tick_message_timeout t v) = (case next_message_expiry v of None \<Rightarrow> False | Some d \<Rightarrow> d \<le> t)"
proof -
  define v where "v = view_run ps (room_view_new is_host nickname now)"
  have ok: "\<forall>l \<in> set (rb_lines (rv_messages v)). ml_expires_at l =
      Option.bind (rv_message_timeout_interval v) (\<lambda>s. checked_add (ml_created_at l) (secs (unat s)))"
    using view_run_ok [OF room_view_new_ok [of is_host nickname now], of ps]
    by (simp add: v_def view_ok_def line_ok_def list_all_iff)
  show ?thesis
  proof (cases "rv_message_timeout_interval v")
    case None
    with ok have "\<not> (case next_message_expiry v of None \<Rightarrow> False | Some d \<Rightarrow> d \<le> t)"
      unfolding next_message_expiry_def next_expiry_due by simp
    with None show ?thesis by (simp add: v_def [symmetric] Let_def tick_message_timeout_def)
  next
    case (Some s)
    let ?keep = "\<lambda>l. case ml_expires_at l of None \<Rightarrow> True | Some deadline \<Rightarrow> t < deadline"
    have keep: "?keep l \<longleftrightarrow> t < ml_created_at l + secs (unat s) \<or> instant_limit \<le> ml_created_at l + secs (unat s)"
      if "l \<in> set (rb_lines (rv_messages v))" for l
      using ok that by (simp add: Some checked_add_def)
    have due: "(\<exists>l \<in> set (rb_lines (rv_messages v)). \<not> ?keep l) =
      (case next_message_expiry v of None \<Rightarrow> False | Some d \<Rightarrow> d \<le> t)"
      unfolding next_message_expiry_def next_expiry_due
      by (intro bex_cong refl) (auto simp: linorder_not_less split: option.splits)
    have "filter ?keep (rb_lines (rv_messages v)) = filter (\<lambda>l. t < ml_created_at l + secs (unat s) \<or>
        instant_limit \<le> ml_created_at l + secs (unat s)) (rb_lines (rv_messages v))"
      using keep by (intro filter_cong refl)
    moreover have "fst (tick_message_timeout t v) = (\<exists>l \<in> set (rb_lines (rv_messages v)). \<not> ?keep l)"
      unfolding tick_message_timeout_def expire_due_def Let_def by (simp add: Some length_filter_less [symmetric])
    moreover have "rb_lines (rv_messages (snd (tick_message_timeout t v))) = filter ?keep (rb_lines (rv_messages v))"
      by (simp add: tick_message_timeout_def expire_due_def Let_def Some)
    ultimately show ?thesis by (simp add: v_def [symmetric] Let_def due Some)
  qed
qed

section \<open>The invitation preview\<close>

lemma ascii_char_len: "c < 128 \<Longrightarrow> char_len c = 1"
  by (simp add: char_len_def utf8_char_def)

lemma ascii_str_len: "\<forall>c \<in> set s. c < 128 \<Longrightarrow> str_len s = length s"
  by (induction s) (simp_all add: ascii_char_len)

lemma split_bytes_ascii:
  assumes "\<forall>c \<in> set s. c < 128" and "n \<le> length s"
  shows "split_bytes n s = Some (take n s, drop n s)"
proof -
  have "str_len (take n s) = n" using assms ascii_str_len [of "take n s"] by (auto dest: in_set_takeD)
  then show ?thesis using split_bytes_at [of "take n s" "drop n s"] by simp
qed

lemma valid_address:
  assumes "validate_onion_address U a = Inr ()"
  obtains body where "a = body @ ONION_V3_SUFFIX" "length body = 56" "\<forall>c \<in> set a. c < 128 \<and> c \<noteq> 0x3A"
proof -
  from assms obtain body where b: "strip_suffix ONION_V3_SUFFIX a = Some body" "str_len body = 56"
    by (auto simp: validate_onion_address_def ONION_V3_BODY_LENGTH_def split: option.splits if_splits)
  then have a: "a = body @ ONION_V3_SUFFIX"
    by (auto simp: strip_suffix_def Let_def split: if_splits) (metis append_take_drop_id)
  have chars: "\<forall>c \<in> set a. c < 128 \<and> c \<noteq> 0x3A"
    using valid_onion_chars [OF assms] by (fastforce simp: is_digit_def)
  then have "length body = 56" using b(2) ascii_str_len [of body] a by simp
  with a chars show ?thesis using that by blast
qed

lemma strip_prefix_append [simp]: "strip_prefix p (p @ s) = Some s"
  by (simp add: strip_prefix_def)

lemma strip_suffix_append: "strip_suffix t (s @ t) = Some s"
  by (simp add: strip_suffix_def)

text \<open>
  The preview that a host shows on its screen gives the invitation away to nobody who looks over its
  shoulder: whatever token and port the invitation holds, the preview is the first and the last four
  characters of the onion address and the remark that there is a token.
\<close>

theorem preview_hides_token:
  assumes "invitation_new U onion port token = Inr i"
  shows "preview_invitation (to_uri_string U i) =
    rs ''veilroom://'' @ take 4 onion @ [0x2026] @ take 4 (drop 52 onion) @ rs ''.onion'' @
    [0x20, 0xB7, 0x20] @ rs ''token: present''"
proof -
  from assms have on: "validate_onion_address U onion = Inr ()" and i: "inv_onion_address i = onion"
    by (auto simp: invitation_new_def bindE_eq_Inr split: if_splits)
  obtain body where a: "onion = body @ ONION_V3_SUFFIX" "length body = 56" "\<forall>c \<in> set onion. c < 128 \<and> c \<noteq> 0x3A"
    using valid_address [OF on] .
  then have body: "\<forall>c \<in> set body. c < 128" by simp
  have "shortened_host onion = take 4 body @ [0x2026] @ drop 52 body @ ONION_V3_SUFFIX"
    using a(2) body by (simp add: a(1) shortened_host_def strip_suffix_append ascii_str_len split_bytes_ascii)
  moreover have "\<exists>r. to_uri_string U i = INVITATION_SCHEME @ rs ''://'' @ onion @ 0x3A # r"
    by (simp add: to_uri_string_def i rs_def)
  then have "Option.bind (strip_prefix INVITATION_SCHEME (to_uri_string U i)) (strip_prefix (rs ''://'')) =
      Some r \<Longrightarrow> takeWhile (\<lambda>c. c \<noteq> 0x3A) r = onion" for r
    using a(3) by (auto simp: takeWhile_append2)
  moreover have "Option.bind (strip_prefix INVITATION_SCHEME (to_uri_string U i)) (strip_prefix (rs ''://'')) \<noteq> None"
    by (simp add: to_uri_string_def)
  ultimately have "preview_invitation (to_uri_string U i) =
      INVITATION_SCHEME @ rs ''://'' @ (take 4 body @ [0x2026] @ drop 52 body @ ONION_V3_SUFFIX) @ [0x20, 0xB7, 0x20] @
      rs ''token: present''"
    by (auto simp: preview_invitation_def)
  then show ?thesis by (simp add: a(1,2) INVITATION_SCHEME_def ONION_V3_SUFFIX_def rs_def)
qed

text \<open>The address of the parser's witness.\<close>

theorem preview_hides_token_witness:
  "\<exists>i. invitation_new demo_uri_env demo_onion 443 (replicate 16 0x78) = Inr i \<and>
     preview_invitation (to_uri_string demo_uri_env i) =
       rs ''veilroom://aaaa'' @ [0x2026] @ rs ''2dqd.onion '' @ [0xB7] @ rs '' token: present''"
proof -
  let ?i = "\<lparr>inv_onion_address = demo_onion, inv_port = 443, inv_token = replicate 16 (0x78 :: u8)\<rparr>"
  have i: "invitation_new demo_uri_env demo_onion 443 (replicate 16 0x78) = Inr ?i"
    by (simp add: invitation_new_eq demo_onion_valid MIN_TOKEN_BYTES_def MAX_TOKEN_BYTES_def)
  have "take 4 demo_onion = rs ''aaaa'' \<and> take 4 (drop 52 demo_onion) = rs ''2dqd''"
    by (simp add: demo_onion_def rs_def)
  with preview_hides_token [OF i] i show ?thesis by (simp add: rs_def)
qed

end
