(* ===== verification/Screens.thy ===== *)
theory Screens
  imports RoomView Command
begin

text \<open>
  The screens and the keys (\<open>ui/screen.rs\<close>, \<open>ui/app.rs\<close>). A key event is a key code with its modifiers; the
  codes that no screen tells apart are \<open>KC_Other\<close>. Every handler returns the action, the next screen if it
  changes, and the form it edited; \<open>None\<close> is a panic of the field or of the menu index.
\<close>

datatype key_code =
    KC_Enter | KC_Esc | KC_Backspace | KC_Delete | KC_Left | KC_Right | KC_Home | KC_End | KC_Up | KC_Down
  | KC_Char nat | KC_Other

record key_event =
  ke_code :: key_code
  ke_control :: bool
  ke_shift :: bool
  ke_other_modifier :: bool

definition only_control :: "key_event \<Rightarrow> bool" where
  "only_control k \<longleftrightarrow> ke_control k \<and> \<not> ke_shift k \<and> \<not> ke_other_modifier k"

definition types_text :: "key_event \<Rightarrow> bool" where
  "types_text k \<longleftrightarrow> \<not> ke_control k \<and> \<not> ke_other_modifier k"

section \<open>The screens\<close>

definition MENU_ITEMS :: "rstring list" where
  "MENU_ITEMS = [rs ''Host a room'', rs ''Join a room'', rs ''About Veilroom'', rs ''Exit'']"

record menu_model =
  mn_selection :: nat

definition menu_default :: menu_model where
  "menu_default = \<lparr>mn_selection = 0\<rparr>"

definition move_selection :: "int \<Rightarrow> menu_model \<Rightarrow> menu_model" where
  "move_selection delta m = m\<lparr>mn_selection := nat ((int (mn_selection m) + delta) mod int (length MENU_ITEMS))\<rparr>"

definition selected_label :: "menu_model \<Rightarrow> rstring option" where
  "selected_label m = (if mn_selection m < length MENU_ITEMS then Some (MENU_ITEMS ! mn_selection m) else None)"

record tor_connection_model =
  tc_progress :: u8

definition set_progress :: "u8 \<Rightarrow> tor_connection_model \<Rightarrow> tor_connection_model" where
  "set_progress progress m = m\<lparr>tc_progress := min progress 100\<rparr>"

datatype host_field = HF_Password | HF_Confirm | HF_Nickname

record host_setup_model =
  hs_password :: secret_field
  hs_confirm :: secret_field
  hs_nickname :: text_field
  hs_focus :: host_field
  hs_error :: "rstring option"
  hs_stored :: "bytes option"

definition host_setup_new :: host_setup_model where
  "host_setup_new =
     (let n = max_nickname_scalars default_limits * 4
      in \<lparr>hs_password = secret_field_new n, hs_confirm = secret_field_new n, hs_nickname = text_field_new n,
          hs_focus = HF_Password, hs_error = None, hs_stored = None\<rparr>)"

definition restart_password_entry :: "host_setup_model \<Rightarrow> host_setup_model" where
  "restart_password_entry f =
     f\<lparr>hs_stored := None, hs_password := secret_clear (hs_password f), hs_confirm := secret_clear (hs_confirm f),
       hs_focus := HF_Password, hs_error := Some (rs ''Enter the room password again.'')\<rparr>"

datatype join_field = JF_Invitation | JF_Password

record join_setup_model =
  js_invitation :: text_field
  js_password :: secret_field
  js_focus :: join_field
  js_error :: "rstring option"

definition join_setup_new :: join_setup_model where
  "join_setup_new =
     \<lparr>js_invitation = text_field_new 1024, js_password = secret_field_new (max_nickname_scalars default_limits * 4),
      js_focus = JF_Invitation, js_error = None\<rparr>"

datatype join_form_field = JFF_Nickname | JFF_Introduction

record join_form_model =
  jf_nickname :: text_field
  jf_introduction :: text_field
  jf_focus :: join_form_field
  jf_submitted :: bool
  jf_error :: "rstring option"

definition join_form_new :: join_form_model where
  "join_form_new =
     \<lparr>jf_nickname = text_field_new (max_nickname_scalars default_limits * 4),
      jf_introduction = text_field_new (max_intro_scalars default_limits * 4),
      jf_focus = JFF_Nickname, jf_submitted = False, jf_error = None\<rparr>"

datatype screen =
    Scr_Menu menu_model
  | Scr_TorConnecting tor_connection_model
  | Scr_HostSetup host_setup_model
  | Scr_JoinSetup join_setup_model
  | Scr_JoinForm join_form_model
  | Scr_JoinPending
  | Scr_Room room_view
  | Scr_About
  | Scr_Message rstring

section \<open>Actions\<close>

datatype room_ui_action =
    RUA_Chat rstring
  | RUA_Command slash_command
  | RUA_Error rstring
  | RUA_Leave
  | RUA_Exit
  | RUA_CopyInvitation rstring

datatype app_action =
    AA_None
  | AA_Quit
  | AA_HostSetupSubmitted bytes rstring
  | AA_JoinSetupSubmitted rstring bytes
  | AA_JoinFormSubmitted rstring "rstring option"
  | AA_Room room_ui_action

type_synonym key_result = "app_action \<times> screen option"

record app =
  ap_screen :: screen
  ap_quit :: bool

definition app_new :: app where
  "app_new = \<lparr>ap_screen = Scr_Menu menu_default, ap_quit = False\<rparr>"

section \<open>The keys of the forms\<close>

definition on_menu_key :: "menu_model \<Rightarrow> key_event \<Rightarrow> (key_result \<times> menu_model) option" where
  "on_menu_key menu key =
     (if ke_code key = KC_Up \<or> ke_code key = KC_Char 0x6B then Some ((AA_None, None), move_selection (- 1) menu)
      else if ke_code key = KC_Down \<or> ke_code key = KC_Char 0x6A then Some ((AA_None, None), move_selection 1 menu)
      else if ke_code key = KC_Enter then
        map_option (\<lambda>label.
          (if label = rs ''Host a room'' then (AA_None, Some (Scr_HostSetup host_setup_new))
           else if label = rs ''Join a room'' then (AA_None, Some (Scr_JoinSetup join_setup_new))
           else if label = rs ''About Veilroom'' then (AA_None, Some Scr_About)
           else (AA_Quit, None), menu)) (selected_label menu)
      else if ke_code key = KC_Esc \<or> ke_code key = KC_Char 0x71 then Some ((AA_Quit, None), menu)
      else Some ((AA_None, None), menu))"

definition secret_key :: "key_event \<Rightarrow> secret_field \<Rightarrow> bytes submit \<times> secret_field" where
  "secret_key key f =
     (case ke_code key of
        KC_Enter \<Rightarrow> secret_submit f
      | KC_Esc \<Rightarrow> (Submit_Cancel, f)
      | KC_Backspace \<Rightarrow> (Submit_None, pop_char f)
      | KC_Char ch \<Rightarrow> (Submit_None, snd (push_char ch f))
      | _ \<Rightarrow> (Submit_None, f))"

text \<open>A text field of a form takes characters at its end and gives them back; all other keys are ignored.\<close>

definition text_key :: "key_event \<Rightarrow> text_field \<Rightarrow> text_field option" where
  "text_key key f =
     (case ke_code key of
        KC_Backspace \<Rightarrow> backspace f
      | KC_Char ch \<Rightarrow> map_option snd (insert_char ch f)
      | _ \<Rightarrow> Some f)"

definition is_value :: "'a submit \<Rightarrow> bool" where
  "is_value s \<longleftrightarrow> (case s of Submit_Value _ \<Rightarrow> True | _ \<Rightarrow> False)"

definition mismatch_error :: rstring where
  "mismatch_error = rs ''The passwords do not match. Confirm again, or press Esc to re-enter the password.''"

definition on_host_setup_key :: "host_setup_model \<Rightarrow> key_event \<Rightarrow> (key_result \<times> host_setup_model) option" where
  "on_host_setup_key form key =
     (case hs_focus form of
        HF_Password \<Rightarrow>
          (let (r, field) = secret_key key (hs_password form); form1 = form\<lparr>hs_password := field\<rparr>
           in case r of
                Submit_Value password \<Rightarrow>
                  Some ((AA_None, None), form1\<lparr>hs_stored := Some password, hs_focus := HF_Confirm\<rparr>)
              | Submit_Cancel \<Rightarrow> Some ((AA_None, Some (Scr_Menu menu_default)), form1)
              | Submit_None \<Rightarrow> Some ((AA_None, None), form1))
      | HF_Confirm \<Rightarrow>
          (let (r, field) = secret_key key (hs_confirm form); form1 = form\<lparr>hs_confirm := field\<rparr>
           in case r of
                Submit_Value confirm \<Rightarrow>
                  if hs_stored form1 = Some confirm then
                    Some ((AA_None, None), form1\<lparr>hs_focus := HF_Nickname, hs_error := None\<rparr>)
                  else
                    Some ((AA_None, None), form1\<lparr>hs_error := Some mismatch_error,
                      hs_confirm := secret_clear (hs_confirm form1), hs_focus := HF_Confirm\<rparr>)
              | Submit_Cancel \<Rightarrow> Some ((AA_None, None), restart_password_entry form1)
              | Submit_None \<Rightarrow> Some ((AA_None, None), form1))
      | HF_Nickname \<Rightarrow>
          (case ke_code key of
             KC_Enter \<Rightarrow>
               (let (r, field) = field_submit (hs_nickname form); form1 = form\<lparr>hs_nickname := field\<rparr>
                in if is_value r then
                     Some ((AA_HostSetupSubmitted (case hs_stored form1 of Some p \<Rightarrow> p | None \<Rightarrow> []) (tf_text field), None),
                       form1\<lparr>hs_stored := None\<rparr>)
                   else
                     Some ((AA_None, None), form1\<lparr>hs_error := Some (rs ''Enter a nickname before continuing.'')\<rparr>))
           | KC_Esc \<Rightarrow> Some ((AA_None, None), restart_password_entry form)
           | _ \<Rightarrow> map_option (\<lambda>field. ((AA_None, None), form\<lparr>hs_nickname := field\<rparr>)) (text_key key (hs_nickname form))))"

definition on_join_setup_key :: "join_setup_model \<Rightarrow> key_event \<Rightarrow> (key_result \<times> join_setup_model) option" where
  "on_join_setup_key form key =
     (case js_focus form of
        JF_Invitation \<Rightarrow>
          (case ke_code key of
             KC_Enter \<Rightarrow>
               (let (r, field) = field_submit (js_invitation form); form1 = form\<lparr>js_invitation := field\<rparr>
                in if is_value r then Some ((AA_None, None), form1\<lparr>js_focus := JF_Password, js_error := None\<rparr>)
                   else Some ((AA_None, None),
                     form1\<lparr>js_error := Some (rs ''Paste an invitation URI before continuing.'')\<rparr>))
           | KC_Esc \<Rightarrow> Some ((AA_None, Some (Scr_Menu menu_default)), form)
           | _ \<Rightarrow> map_option (\<lambda>field. ((AA_None, None), form\<lparr>js_invitation := field\<rparr>)) (text_key key (js_invitation form)))
      | JF_Password \<Rightarrow>
          (let (r, field) = secret_key key (js_password form); form1 = form\<lparr>js_password := field\<rparr>
           in case r of
                Submit_Value password \<Rightarrow>
                  Some ((AA_JoinSetupSubmitted (tf_text (js_invitation form1)) password, None), form1)
              | Submit_Cancel \<Rightarrow>
                  Some ((AA_None, None), form1\<lparr>js_password := secret_clear (js_password form1),
                    js_invitation := field_reopen (js_invitation form1), js_focus := JF_Invitation, js_error := None\<rparr>)
              | Submit_None \<Rightarrow> Some ((AA_None, None), form1)))"

definition on_join_form_key :: "join_form_model \<Rightarrow> key_event \<Rightarrow> (key_result \<times> join_form_model) option" where
  "on_join_form_key form key =
     (case jf_focus form of
        JFF_Nickname \<Rightarrow>
          (case ke_code key of
             KC_Enter \<Rightarrow>
               (let (r, field) = field_submit (jf_nickname form); form1 = form\<lparr>jf_nickname := field\<rparr>
                in if is_value r then Some ((AA_None, None), form1\<lparr>jf_focus := JFF_Introduction, jf_error := None\<rparr>)
                   else Some ((AA_None, None), form1\<lparr>jf_error := Some (rs ''Enter a nickname before continuing.'')\<rparr>))
           | KC_Esc \<Rightarrow> Some ((AA_Room RUA_Leave, None), form)
           | _ \<Rightarrow> map_option (\<lambda>field. ((AA_None, None), form\<lparr>jf_nickname := field\<rparr>)) (text_key key (jf_nickname form)))
      | JFF_Introduction \<Rightarrow>
          (if ke_code key = KC_Enter then
             if jf_submitted form then Some ((AA_None, None), form)
             else
               (let field = snd (field_submit (jf_introduction form));
                    (introduction, form1) =
                      (if tf_text (jf_introduction form) = [] then (None, form)
                       else (Some (tf_text field), form\<lparr>jf_introduction := field\<rparr>))
                in Some ((AA_JoinFormSubmitted (tf_text (jf_nickname form1)) introduction, Some Scr_JoinPending),
                     form1\<lparr>jf_submitted := True\<rparr>))
           else if ke_code key = KC_Esc \<and> \<not> jf_submitted form then
             Some ((AA_None, None),
               form\<lparr>jf_nickname := field_reopen (jf_nickname form), jf_focus := JFF_Nickname, jf_error := None\<rparr>)
           else map_option (\<lambda>field. ((AA_None, None), form\<lparr>jf_introduction := field\<rparr>))
                  (text_key key (jf_introduction form))))"

section \<open>The keys of the room\<close>

text \<open>\<open>Display\<close> of a command error (\<open>error.rs\<close>).\<close>

fun command_error_text :: "command_error \<Rightarrow> rstring" where
  "command_error_text CmdE_EmptyLine = rs ''input line is empty''"
| "command_error_text (CmdE_UnknownCommand name) = rs ''unknown command `/'' @ name @ rs ''`''"
| "command_error_text (CmdE_MissingArgument command) = rs ''command `/'' @ command @ rs ''` requires an argument''"
| "command_error_text (CmdE_UnexpectedArgument command arg) =
     rs ''command `/'' @ command @ rs ''` does not accept arguments, got `'' @ arg @ rs ''`''"
| "command_error_text (CmdE_InvalidArgument command detail) =
     rs ''invalid argument for `/'' @ command @ rs ''`: '' @ detail"
| "command_error_text (CmdE_ControlCharacterNotAllowed command) =
     rs ''argument for `/'' @ command @ rs ''` contains control characters or ANSI escape sequences''"

definition help_text :: rstring where
  "help_text =
     rs ''/help, /exit, /leave, /color <color>, /list, /whois <member>, '' @
     rs ''/kick <member>, /newid, /reqon, /reqoff, /requests, /accept <id>, '' @
     rs ''/reject <id>, /copy, /clear, /timeout <seconds|off>, '' @
     rs ''/timeoutreq <seconds>, /color list; shortcuts: Ctrl-K '' @
     rs ''message filter, Ctrl-T host/member view''"

definition copy_action :: "room_view \<Rightarrow> app_action" where
  "copy_action view =
     AA_Room (case rv_invitation view of
        Some uri \<Rightarrow> RUA_CopyInvitation uri
      | None \<Rightarrow> RUA_Error (rs ''no invitation is available to copy yet''))"

fun command_action :: "clock \<Rightarrow> room_view \<Rightarrow> slash_command \<Rightarrow> app_action \<times> room_view" where
  "command_action ck view SC_Help = (AA_None, push_system ck help_text view)"
| "command_action ck view SC_Copy = (copy_action view, view)"
| "command_action ck view SC_ColorList = (AA_None, push_color_list ck view)"
| "command_action ck view SC_Clear = (AA_None, clear_messages view)"
| "command_action ck view (SC_Timeout t) =
     (AA_Room (if \<not> rv_is_host view then
                 RUA_Error (rs ''that command is only available to the host; use /timeoutreq <seconds>'')
               else RUA_Command (SC_Timeout t)), view)"
| "command_action ck view (SC_TimeoutRequest s) =
     (AA_Room (if rv_is_host view then RUA_Error (rs ''that command is only available to room members'')
               else RUA_Command (SC_TimeoutRequest s)), view)"
| "command_action ck view SC_Leave =
     (AA_Room (if rv_is_host view then RUA_Error (rs ''The host cannot /leave; use /exit to close the room.'')
               else RUA_Leave), view)"
| "command_action ck view SC_Exit = (AA_Room RUA_Exit, view)"
| "command_action ck view other = (AA_Room (RUA_Command other), view)"

definition on_enter :: "clock \<Rightarrow> room_view \<Rightarrow> app_action \<times> room_view" where
  "on_enter ck view =
     (let text = tf_text (rv_input view); view1 = snd (submit_line view)
      in if text = [] then (AA_None, view1)
         else case parse_line text of
                Inr (PL_Chat chat) \<Rightarrow>
                  (AA_Room (if \<not> rv_is_host view1 then RUA_Chat chat
                     else RUA_Error (rs ''the host cannot send chat messages; join the room from a second tab to chat'')),
                   view1)
              | Inr (PL_Command command) \<Rightarrow> command_action ck view1 command
              | Inl e \<Rightarrow> (AA_Room (RUA_Error (command_error_text e)), view1))"

definition edit_input :: "(text_field \<Rightarrow> text_field option) \<Rightarrow> room_view \<Rightarrow> (app_action \<times> room_view) option" where
  "edit_input f view = map_option (\<lambda>field. (AA_None, view\<lparr>rv_input := field\<rparr>)) (f (rv_input view))"

definition on_room_key :: "clock \<Rightarrow> room_view \<Rightarrow> key_event \<Rightarrow> (app_action \<times> room_view) option" where
  "on_room_key ck view key =
     (case ke_code key of
        KC_Enter \<Rightarrow> Some (on_enter ck view)
      | KC_Backspace \<Rightarrow> edit_input backspace view
      | KC_Delete \<Rightarrow> edit_input delete_char view
      | KC_Left \<Rightarrow> edit_input move_left view
      | KC_Right \<Rightarrow> edit_input move_right view
      | KC_Home \<Rightarrow> edit_input (Some \<circ> move_home) view
      | KC_End \<Rightarrow> edit_input (Some \<circ> move_end) view
      | KC_Esc \<Rightarrow> edit_input (Some \<circ> field_clear) view
      | KC_Char ch \<Rightarrow>
          if ch \<in> {0x6B, 0x4B} \<and> only_control key then Some (AA_None, toggle_system_messages view)
          else if ch \<in> {0x74, 0x54} \<and> only_control key then Some (AA_None, snd (toggle_host_member_view view))
          else if only_control key \<and> ch = 0x79 then Some (copy_action view, view)
          else if types_text key then edit_input (\<lambda>f. map_option snd (insert_char ch f)) view
          else Some (AA_None, view)
      | _ \<Rightarrow> Some (AA_None, view))"

section \<open>The application\<close>

definition on_screen_key :: "clock \<Rightarrow> key_event \<Rightarrow> screen \<Rightarrow> (key_result \<times> screen) option" where
  "on_screen_key ck key s =
     (case s of
        Scr_Menu menu \<Rightarrow> map_option (\<lambda>(r, m). (r, Scr_Menu m)) (on_menu_key menu key)
      | Scr_TorConnecting c \<Rightarrow> Some ((AA_None, None), s)
      | Scr_HostSetup form \<Rightarrow> map_option (\<lambda>(r, f). (r, Scr_HostSetup f)) (on_host_setup_key form key)
      | Scr_JoinSetup form \<Rightarrow> map_option (\<lambda>(r, f). (r, Scr_JoinSetup f)) (on_join_setup_key form key)
      | Scr_JoinForm form \<Rightarrow> map_option (\<lambda>(r, f). (r, Scr_JoinForm f)) (on_join_form_key form key)
      | Scr_JoinPending \<Rightarrow> Some ((AA_None, None), s)
      | Scr_Room view \<Rightarrow> map_option (\<lambda>(a, v). ((a, None), Scr_Room v)) (on_room_key ck view key)
      | Scr_About \<Rightarrow> Some ((AA_None, Some (Scr_Menu menu_default)), s)
      | Scr_Message _ \<Rightarrow> Some ((AA_None, Some (Scr_Menu menu_default)), s))"

definition on_key :: "clock \<Rightarrow> key_event \<Rightarrow> app \<Rightarrow> (app_action \<times> app) option" where
  "on_key ck key a =
     map_option (\<lambda>((action, next_screen), s).
         (action, a\<lparr>ap_screen := (case next_screen of Some s1 \<Rightarrow> s1 | None \<Rightarrow> s),
                    ap_quit := (ap_quit a \<or> action = AA_Quit)\<rparr>))
       (on_screen_key ck key (ap_screen a))"

definition on_paste :: "rstring \<Rightarrow> app \<Rightarrow> app option" where
  "on_paste text a =
     map_option (\<lambda>s. a\<lparr>ap_screen := s\<rparr>)
       (case ap_screen a of
          Scr_HostSetup form \<Rightarrow>
            map_option Scr_HostSetup
              (case hs_focus form of
                 HF_Password \<Rightarrow> Some (form\<lparr>hs_password := push_text text (hs_password form)\<rparr>)
               | HF_Confirm \<Rightarrow> Some (form\<lparr>hs_confirm := push_text text (hs_confirm form)\<rparr>)
               | HF_Nickname \<Rightarrow> map_option (\<lambda>f. form\<lparr>hs_nickname := f\<rparr>) (insert_text text (hs_nickname form)))
        | Scr_JoinSetup form \<Rightarrow>
            map_option Scr_JoinSetup
              (case js_focus form of
                 JF_Invitation \<Rightarrow> map_option (\<lambda>f. form\<lparr>js_invitation := f\<rparr>) (insert_text text (js_invitation form))
               | JF_Password \<Rightarrow> Some (form\<lparr>js_password := push_text text (js_password form)\<rparr>))
        | Scr_JoinForm form \<Rightarrow>
            map_option Scr_JoinForm
              (case jf_focus form of
                 JFF_Nickname \<Rightarrow> map_option (\<lambda>f. form\<lparr>jf_nickname := f\<rparr>) (insert_text text (jf_nickname form))
               | JFF_Introduction \<Rightarrow>
                   map_option (\<lambda>f. form\<lparr>jf_introduction := f\<rparr>) (insert_text text (jf_introduction form)))
        | Scr_Room view \<Rightarrow> map_option (\<lambda>f. Scr_Room (view\<lparr>rv_input := f\<rparr>)) (insert_text text (rv_input view))
        | s \<Rightarrow> Some s)"

text \<open>What the supervisor does to the application between the keys.\<close>

definition show_message :: "rstring \<Rightarrow> app \<Rightarrow> app" where
  "show_message message a = a\<lparr>ap_screen := Scr_Message message\<rparr>"

definition back_to_menu :: "app \<Rightarrow> app" where
  "back_to_menu a = a\<lparr>ap_screen := Scr_Menu menu_default\<rparr>"

definition begin_tor_connection :: "app \<Rightarrow> app" where
  "begin_tor_connection a = a\<lparr>ap_screen := Scr_TorConnecting \<lparr>tc_progress = 0\<rparr>\<rparr>"

definition set_tor_progress :: "u8 \<Rightarrow> app \<Rightarrow> app" where
  "set_tor_progress progress a =
     (case ap_screen a of
        Scr_TorConnecting c \<Rightarrow> a\<lparr>ap_screen := Scr_TorConnecting (set_progress progress c)\<rparr>
      | _ \<Rightarrow> a)"

definition enter_room :: "room_view \<Rightarrow> app \<Rightarrow> app" where
  "enter_room view a = a\<lparr>ap_screen := Scr_Room view\<rparr>"

definition show_join_form :: "app \<Rightarrow> app" where
  "show_join_form a = a\<lparr>ap_screen := Scr_JoinForm join_form_new\<rparr>"

definition show_join_pending :: "app \<Rightarrow> app" where
  "show_join_pending a = a\<lparr>ap_screen := Scr_JoinPending\<rparr>"

definition on_view :: "(room_view \<Rightarrow> room_view) \<Rightarrow> app \<Rightarrow> app" where
  "on_view f a = (case ap_screen a of Scr_Room view \<Rightarrow> a\<lparr>ap_screen := Scr_Room (f view)\<rparr> | _ \<Rightarrow> a)"

end
