(* ===== verification/ScreenRules.thy ===== *)
theory ScreenRules
  imports Screens
begin

text \<open>
  What the keys can do to the application: no input makes a field or the menu panic, and every action that
  leaves the user interface carries validated text and comes from the screen it belongs to.
\<close>

section \<open>Fields that show an editor\<close>

definition field_ok :: "text_field \<Rightarrow> bool" where
  "field_ok f \<longleftrightarrow> (\<exists>e. f = field_of (tf_max_bytes f) e \<and> editor_ok (tf_max_bytes f) e)"

named_theorems field_steps \<open>the operations of a field that shows an editor\<close>

lemma field_ok_op:
  assumes "field_ok f"
  shows "\<exists>g. apply_op k f = Some g \<and> field_ok g \<and> tf_max_bytes g = tf_max_bytes f"
proof -
  from assms obtain m e where f: "f = field_of m e" "editor_ok m e" by (auto simp: field_ok_def)
  then have "apply_op k f = Some (field_of m (edit m k e))" by (simp add: apply_op_field_of)
  moreover have "field_ok (field_of m (edit m k e))" using editor_ok_edit [OF f(2)] by (auto simp: field_ok_def)
  ultimately show ?thesis using f(1) by auto
qed

lemma field_ok_new [simp]: "field_ok (text_field_new m)"
proof -
  have "text_field_new m = field_of m ed_empty" by (simp add: text_field_new_def field_of_def ed_empty_def)
  moreover have "editor_ok m ed_empty" by (simp add: editor_ok_def ed_empty_def)
  ultimately show ?thesis by (auto simp: field_ok_def)
qed

lemma field_ok_text: "field_ok f \<Longrightarrow> safe_text (tf_text f) \<and> str_len (tf_text f) \<le> tf_max_bytes f"
proof -
  assume "field_ok f"
  then obtain m e where "f = field_of m e" "editor_ok m e" by (auto simp: field_ok_def)
  then show ?thesis
    by (auto simp: editor_ok_def safe_text_def contains_control_char_def list_all_iff list_ex_iff)
qed

lemma field_ok_steps [field_steps]:
  assumes "field_ok f"
  shows "\<exists>g. backspace f = Some g \<and> field_ok g \<and> tf_max_bytes g = tf_max_bytes f"
    "\<exists>g. delete_char f = Some g \<and> field_ok g \<and> tf_max_bytes g = tf_max_bytes f"
    "\<exists>g. move_left f = Some g \<and> field_ok g \<and> tf_max_bytes g = tf_max_bytes f"
    "\<exists>g. move_right f = Some g \<and> field_ok g \<and> tf_max_bytes g = tf_max_bytes f"
    "\<exists>b g. insert_char c f = Some (b, g) \<and> field_ok g \<and> tf_max_bytes g = tf_max_bytes f"
    "\<exists>g. insert_text t f = Some g \<and> field_ok g \<and> tf_max_bytes g = tf_max_bytes f"
  using field_ok_op [OF assms, of Op_Backspace] field_ok_op [OF assms, of Op_Delete]
    field_ok_op [OF assms, of Op_Left] field_ok_op [OF assms, of Op_Right]
    field_ok_op [OF assms, of "Op_Insert c"] field_ok_op [OF assms, of "Op_Paste t"]
  by auto

lemma field_ok_simple [simp]:
  assumes "field_ok f"
  shows "field_ok (move_home f)" "field_ok (move_end f)" "field_ok (field_clear f)" "field_ok (field_reopen f)"
    "field_ok (snd (field_submit f))"
  using field_ok_op [OF assms, of Op_Home] field_ok_op [OF assms, of Op_End] field_ok_op [OF assms, of Op_Clear]
    field_ok_op [OF assms, of Op_Reopen] field_ok_op [OF assms, of Op_Submit]
  by auto

lemma text_key_ok:
  assumes "field_ok f"
  shows "\<exists>g. text_key key f = Some g \<and> field_ok g \<and> tf_max_bytes g = tf_max_bytes f"
  using assms field_ok_steps(1,5) [OF assms] by (fastforce simp: text_key_def split: key_code.splits)

lemma field_submit_value:
  "is_value (fst (field_submit f)) \<Longrightarrow> tf_text f \<noteq> [] \<and> tf_text (snd (field_submit f)) = tf_text f"
  by (auto simp: field_submit_def is_value_def split: if_splits)

lemma tf_max_simple [simp]:
  "tf_max_bytes (snd (field_submit f)) = tf_max_bytes f" "tf_max_bytes (field_clear f) = tf_max_bytes f"
  "tf_max_bytes (field_reopen f) = tf_max_bytes f" "tf_max_bytes (move_home f) = tf_max_bytes f"
  "tf_max_bytes (move_end f) = tf_max_bytes f" "tf_max_bytes (text_field_new m) = m"
  by (simp_all add: field_submit_def field_clear_def field_reopen_def move_home_def move_end_def text_field_new_def)

section \<open>Screens\<close>

fun screen_ok :: "screen \<Rightarrow> bool" where
  "screen_ok (Scr_Menu m) \<longleftrightarrow> mn_selection m < length MENU_ITEMS"
| "screen_ok (Scr_HostSetup f) \<longleftrightarrow> field_ok (hs_nickname f)"
| "screen_ok (Scr_JoinSetup f) \<longleftrightarrow>
     field_ok (js_invitation f) \<and> (js_focus f = JF_Password \<longrightarrow> tf_text (js_invitation f) \<noteq> [])"
| "screen_ok (Scr_JoinForm f) \<longleftrightarrow>
     field_ok (jf_nickname f) \<and> field_ok (jf_introduction f) \<and>
     (jf_focus f = JFF_Introduction \<longrightarrow> tf_text (jf_nickname f) \<noteq> [])"
| "screen_ok (Scr_Room v) \<longleftrightarrow> field_ok (rv_input v) \<and> tf_max_bytes (rv_input v) = ROOM_INPUT_MAX_BYTES \<and> view_ok v"
| "screen_ok _ \<longleftrightarrow> True"

text \<open>What an action may be, given the screen it came from and the screen it leads to.\<close>

fun action_ok :: "screen \<Rightarrow> app_action \<Rightarrow> screen \<Rightarrow> bool" where
  "action_ok s (AA_HostSetupSubmitted p n) s1 \<longleftrightarrow> n \<noteq> [] \<and> safe_text n"
| "action_ok s (AA_JoinSetupSubmitted i p) s1 \<longleftrightarrow> i \<noteq> [] \<and> safe_text i \<and> p \<noteq> []"
| "action_ok s (AA_JoinFormSubmitted n i) s1 \<longleftrightarrow>
     n \<noteq> [] \<and> safe_text n \<and> (case i of None \<Rightarrow> True | Some t \<Rightarrow> t \<noteq> [] \<and> safe_text t) \<and> s1 = Scr_JoinPending"
| "action_ok s (AA_Room (RUA_Chat t)) s1 \<longleftrightarrow>
     (\<exists>v. s = Scr_Room v \<and> \<not> rv_is_host v) \<and> validate_chat_text t default_limits = Inr ()"
| "action_ok s (AA_Room (RUA_Command c)) s1 \<longleftrightarrow>
     (\<exists>v. s = Scr_Room v \<and> (rv_is_host v \<longrightarrow> (\<forall>d. c \<noteq> SC_TimeoutRequest d)) \<and>
        (\<not> rv_is_host v \<longrightarrow> (\<forall>d. c \<noteq> SC_Timeout d))) \<and> command_ok c"
| "action_ok s (AA_Room (RUA_CopyInvitation u)) s1 \<longleftrightarrow> (\<exists>v. s = Scr_Room v \<and> rv_invitation v = Some u)"
| "action_ok s (AA_Room RUA_Leave) s1 \<longleftrightarrow>
     (\<exists>v. s = Scr_Room v \<and> \<not> rv_is_host v) \<or> (\<exists>f. s = Scr_JoinForm f)"
| "action_ok s (AA_Room RUA_Exit) s1 \<longleftrightarrow> (\<exists>v. s = Scr_Room v)"
| "action_ok s AA_Quit s1 \<longleftrightarrow> (\<exists>m. s = Scr_Menu m)"
| "action_ok s _ s1 \<longleftrightarrow> True"

section \<open>One key\<close>

text \<open>The action is fine and the screen that follows, given or kept, is consistent.\<close>

definition key_ok :: "screen \<Rightarrow> (key_result \<times> screen) option \<Rightarrow> bool" where
  "key_ok s r \<longleftrightarrow>
     (\<exists>a n k. r = Some ((a, n), k) \<and> screen_ok (case n of Some s1 \<Rightarrow> s1 | None \<Rightarrow> k) \<and>
        action_ok s a (case n of Some s1 \<Rightarrow> s1 | None \<Rightarrow> k))"

lemma key_okI:
  "screen_ok (case n of Some s1 \<Rightarrow> s1 | None \<Rightarrow> k) \<Longrightarrow> action_ok s a (case n of Some s1 \<Rightarrow> s1 | None \<Rightarrow> k) \<Longrightarrow>
   key_ok s (Some ((a, n), k))"
  by (auto simp: key_ok_def)

lemma menu_length [simp]: "length MENU_ITEMS = 4"
  by (simp add: MENU_ITEMS_def)

lemma menu_default_ok [simp]: "mn_selection menu_default < 4"
  by (simp add: menu_default_def)

lemma fresh_screens_ok [simp]:
  "screen_ok (Scr_Menu menu_default)" "screen_ok (Scr_HostSetup host_setup_new)"
  "screen_ok (Scr_JoinSetup join_setup_new)" "screen_ok (Scr_JoinForm join_form_new)"
  "screen_ok (Scr_Room (room_view_new h n t))"
  by (simp_all add: host_setup_new_def join_setup_new_def join_form_new_def Let_def
      room_view_new_ok) (simp_all add: room_view_new_def)

lemma menu_key_ok:
  assumes "screen_ok (Scr_Menu m)"
  shows "key_ok (Scr_Menu m) (on_screen_key ck key (Scr_Menu m))"
proof -
  have moved: "mn_selection (move_selection d m) < 4" for d
    by (simp add: move_selection_def)
  have label: "selected_label m = Some (MENU_ITEMS ! mn_selection m)"
    using assms by (simp add: selected_label_def)
  have next_ok: "screen_ok (Scr_HostSetup host_setup_new)" "screen_ok (Scr_JoinSetup join_setup_new)"
    by (rule fresh_screens_ok)+
  show ?thesis
    unfolding on_screen_key_def screen.case on_menu_key_def label option.map
    using moved assms by (auto intro!: key_okI next_ok simp del: screen_ok.simps(2,3))
qed

lemma host_setup_key_ok:
  assumes "screen_ok (Scr_HostSetup f)"
  shows "key_ok (Scr_HostSetup f) (on_screen_key ck key (Scr_HostSetup f))"
proof (cases "hs_focus f")
  case HF_Password
  then show ?thesis using assms
    by (auto simp: on_screen_key_def on_host_setup_key_def Let_def split: prod.splits submit.splits intro!: key_okI)
next
  case HF_Confirm
  then show ?thesis using assms
    by (auto simp: on_screen_key_def on_host_setup_key_def Let_def restart_password_entry_def
        split: prod.splits submit.splits intro!: key_okI)
next
  case HF_Nickname
  have ok: "field_ok (hs_nickname f)" using assms by simp
  obtain g where g: "text_key key (hs_nickname f) = Some g" "field_ok g" using text_key_ok [OF ok] by auto
  have "screen_ok (Scr_HostSetup (f\<lparr>hs_nickname := snd (field_submit (hs_nickname f)), hs_stored := x\<rparr>))" for x
    using ok by simp
  then show ?thesis
    using HF_Nickname g ok field_submit_value [of "hs_nickname f"] field_ok_text [OF ok]
    by (auto simp: on_screen_key_def on_host_setup_key_def Let_def restart_password_entry_def split_beta
        split: key_code.splits intro!: key_okI)
qed

lemma secret_submit_value: "fst (secret_key key f) = Submit_Value p \<Longrightarrow> p \<noteq> []"
  by (auto simp: secret_key_def secret_submit_def split: key_code.splits if_splits)

lemma join_setup_key_ok:
  assumes "screen_ok (Scr_JoinSetup f)"
  shows "key_ok (Scr_JoinSetup f) (on_screen_key ck key (Scr_JoinSetup f))"
proof (cases "js_focus f")
  case JF_Password
  then show ?thesis using assms secret_submit_value [of key "js_password f"] field_ok_text [of "js_invitation f"]
    by (auto simp: on_screen_key_def on_join_setup_key_def Let_def split: prod.splits submit.splits intro!: key_okI)
next
  case JF_Invitation
  have ok: "field_ok (js_invitation f)" using assms by simp
  obtain g where g: "text_key key (js_invitation f) = Some g" "field_ok g" using text_key_ok [OF ok] by auto
  then show ?thesis
    using JF_Invitation ok field_submit_value [of "js_invitation f"]
    by (auto simp: on_screen_key_def on_join_setup_key_def Let_def split_beta split: key_code.splits intro!: key_okI)
qed

lemma join_form_key_ok:
  assumes "screen_ok (Scr_JoinForm f)"
  shows "key_ok (Scr_JoinForm f) (on_screen_key ck key (Scr_JoinForm f))"
proof (cases "jf_focus f")
  case JFF_Nickname
  have ok: "field_ok (jf_nickname f)" "field_ok (jf_introduction f)" using assms by simp_all
  obtain g where g: "text_key key (jf_nickname f) = Some g" "field_ok g" using text_key_ok [OF ok(1)] by auto
  then show ?thesis
    using JFF_Nickname ok field_submit_value [of "jf_nickname f"]
    by (auto simp: on_screen_key_def on_join_form_key_def Let_def split_beta split: key_code.splits intro!: key_okI)
next
  case JFF_Introduction
  have ok: "field_ok (jf_nickname f)" "field_ok (jf_introduction f)" "tf_text (jf_nickname f) \<noteq> []"
    using assms JFF_Introduction by simp_all
  obtain g where g: "text_key key (jf_introduction f) = Some g" "field_ok g" using text_key_ok [OF ok(2)] by auto
  have "tf_text (snd (field_submit (jf_introduction f))) = tf_text (jf_introduction f)"
    by (simp add: field_submit_def)
  then show ?thesis
    using JFF_Introduction ok g field_ok_text [OF ok(1)] field_ok_text [OF ok(2)]
    by (auto simp: on_screen_key_def on_join_form_key_def Let_def intro!: key_okI)
qed

text \<open>The keys of the room.\<close>

lemma push_message_keeps [simp]:
  "rv_input (push_message ck t st n v) = rv_input v" "rv_is_host (push_message ck t st n v) = rv_is_host v"
  by (simp_all add: push_message_def)

lemma clear_messages_keeps [simp]: "rv_input (clear_messages v) = rv_input v"
  by (simp add: clear_messages_def)

lemma push_color_list_keeps [simp]: "rv_input (push_color_list ck v) = rv_input v"
  by (simp add: push_color_list_def)

lemma clear_locked: "field_clear (f\<lparr>tf_complete := b\<rparr>) = field_clear f"
  by (simp add: field_clear_def)

lemma submit_line_ok:
  assumes "screen_ok (Scr_Room v)"
  shows "screen_ok (Scr_Room (snd (submit_line v)))" "rv_is_host (snd (submit_line v)) = rv_is_host v"
    "rv_invitation (snd (submit_line v)) = rv_invitation v"
proof -
  have "field_ok (rv_input (snd (submit_line v))) \<and> tf_max_bytes (rv_input (snd (submit_line v))) = ROOM_INPUT_MAX_BYTES"
    using assms by (auto simp: submit_line_def field_submit_def clear_locked)
  then show "screen_ok (Scr_Room (snd (submit_line v)))" "rv_is_host (snd (submit_line v)) = rv_is_host v"
    "rv_invitation (snd (submit_line v)) = rv_invitation v"
    using assms by (auto simp: submit_line_def split: submit.splits prod.splits)
qed

lemma command_action_ok:
  assumes "screen_ok (Scr_Room v)" and "command_ok c"
    and "rv_is_host v = rv_is_host w" and "rv_invitation v = rv_invitation w"
  shows "screen_ok (Scr_Room (snd (command_action ck v c))) \<and>
    action_ok (Scr_Room w) (fst (command_action ck v c)) (Scr_Room (snd (command_action ck v c)))"
  using assms
  by (cases c)
    (auto simp: copy_action_def push_system_def push_message_ok push_color_list_ok clear_messages_ok split: option.splits)

lemma chat_text_ok:
  assumes "field_ok f" and "tf_max_bytes f = ROOM_INPUT_MAX_BYTES" and "parse_line (tf_text f) = Inr (PL_Chat t)"
  shows "validate_chat_text t default_limits = Inr ()"
proof -
  have line: "safe_text (tf_text f)" "str_len (tf_text f) \<le> 4096"
    using field_ok_text [OF assms(1)] assms(2) by (simp_all add: ROOM_INPUT_MAX_BYTES_def)
  have "t = tf_text f \<or> tf_text f = 0x2F # t"
    using assms(3) by (auto simp: parse_line_def Let_def bindE_eq_Inr neq_Nil_conv split: list.splits if_splits)
  with line have "safe_text t \<and> str_len t \<le> 4096" by auto
  then show ?thesis by (simp add: validate_chat_text_def safe_text_def default_limits_def)
qed

lemma on_enter_ok:
  assumes "screen_ok (Scr_Room v)"
  shows "screen_ok (Scr_Room (snd (on_enter ck v))) \<and>
    action_ok (Scr_Room v) (fst (on_enter ck v)) (Scr_Room (snd (on_enter ck v)))"
proof -
  note sub = submit_line_ok [OF assms]
  show ?thesis
  proof (cases "parse_line (tf_text (rv_input v))")
    case (Inl e)
    then show ?thesis using sub by (auto simp: on_enter_def Let_def)
  next
    case (Inr l)
    show ?thesis
    proof (cases l)
      case (PL_Command c)
      with Inr have "command_ok c" using parsed_command_ok by blast
      from command_action_ok [OF sub(1) this sub(2,3)] show ?thesis
        using Inr PL_Command sub(1) by (auto simp: on_enter_def Let_def)
    next
      case (PL_Chat t)
      with Inr assms have "validate_chat_text t default_limits = Inr ()" using chat_text_ok by auto
      then show ?thesis using Inr PL_Chat sub by (auto simp: on_enter_def Let_def)
    qed
  qed
qed

lemma edit_input_ok:
  assumes "screen_ok (Scr_Room v)"
    and "\<exists>g. f (rv_input v) = Some g \<and> field_ok g \<and> tf_max_bytes g = tf_max_bytes (rv_input v)"
  shows "\<exists>w. edit_input f v = Some (AA_None, w) \<and> screen_ok (Scr_Room w)"
  using assms by (auto simp: edit_input_def)

lemma room_key_ok:
  assumes "screen_ok (Scr_Room v)"
  shows "key_ok (Scr_Room v) (on_screen_key ck key (Scr_Room v))"
proof -
  have ok: "field_ok (rv_input v)" using assms by simp
  note steps = field_ok_steps [OF ok]
  have edit: ?thesis if "on_room_key ck v key = edit_input f v"
      "\<exists>g. f (rv_input v) = Some g \<and> field_ok g \<and> tf_max_bytes g = tf_max_bytes (rv_input v)" for f
    using edit_input_ok [of v f, OF assms that(2)] by (auto simp: on_screen_key_def that(1) intro!: key_okI)
  show ?thesis
  proof (cases "ke_code key")
    case KC_Enter
    then show ?thesis using on_enter_ok [OF assms, of ck]
      by (cases "on_enter ck v") (auto simp: on_screen_key_def on_room_key_def intro!: key_okI)
  next
    case (KC_Char ch)
    have toggles: "view_ok (toggle_system_messages v)" "view_ok (snd (toggle_host_member_view v))"
      using assms apply_view_op_ok [of v ck VO_ToggleSystem] apply_view_op_ok [of v ck VO_ToggleView] by simp_all
    consider (key_system) "ch \<in> {0x6B, 0x4B} \<and> only_control key" | (key_view) "ch \<in> {0x74, 0x54} \<and> only_control key"
      | (key_copy) "only_control key \<and> ch = 0x79"
      | (key_text) "\<not> only_control key \<or> ch \<notin> {0x6B, 0x4B, 0x74, 0x54, 0x79}" by blast
    then show ?thesis
    proof cases
      case key_system
      then show ?thesis using KC_Char assms toggles
        by (auto simp: on_screen_key_def on_room_key_def toggle_system_messages_def intro!: key_okI)
    next
      case key_view
      then show ?thesis using KC_Char assms toggles
        by (auto simp: on_screen_key_def on_room_key_def toggle_host_member_view_def intro!: key_okI)
    next
      case key_copy
      then show ?thesis using KC_Char assms
        by (auto simp: on_screen_key_def on_room_key_def copy_action_def intro!: key_okI split: option.splits)
    next
      case key_text
      show ?thesis
      proof (cases "types_text key")
        case True
        have "\<exists>g. map_option snd (insert_char ch (rv_input v)) = Some g \<and> field_ok g \<and>
          tf_max_bytes g = tf_max_bytes (rv_input v)" using steps(5) [of ch] by auto
        then show ?thesis by (rule edit [rotated]) (use KC_Char key_text True in \<open>auto simp: on_room_key_def\<close>)
      next
        case False
        then show ?thesis using KC_Char key_text assms by (auto simp: on_screen_key_def on_room_key_def intro!: key_okI)
      qed
    qed
  qed (use ok steps assms in \<open>auto simp: on_screen_key_def on_room_key_def edit_input_def intro!: key_okI\<close>)
qed

lemma screen_key_ok:
  assumes "screen_ok s"
  shows "key_ok s (on_screen_key ck key s)"
proof (cases s)
  case (Scr_Menu m)
  then show ?thesis using menu_key_ok assms by blast
next
  case (Scr_HostSetup f)
  then show ?thesis using host_setup_key_ok assms by blast
next
  case (Scr_JoinSetup f)
  then show ?thesis using join_setup_key_ok assms by blast
next
  case (Scr_JoinForm f)
  then show ?thesis using join_form_key_ok assms by blast
next
  case (Scr_Room v)
  then show ?thesis using room_key_ok assms by blast
qed (auto simp: on_screen_key_def intro!: key_okI)

section \<open>Any sequence of inputs\<close>

lemma paste_ok:
  assumes "screen_ok (ap_screen a)"
  shows "\<exists>b. on_paste text a = Some b \<and> screen_ok (ap_screen b)"
proof -
  have step: "\<exists>g. insert_text text f = Some g \<and> field_ok g \<and> tf_max_bytes g = tf_max_bytes f" if "field_ok f" for f
    using field_ok_steps(6) [OF that] .
  show ?thesis
  proof (cases "ap_screen a")
    case (Scr_HostSetup f)
    then show ?thesis using assms step [of "hs_nickname f"]
      by (cases "hs_focus f") (auto simp: on_paste_def)
  next
    case (Scr_JoinSetup f)
    then show ?thesis using assms step [of "js_invitation f"]
      by (cases "js_focus f") (auto simp: on_paste_def)
  next
    case (Scr_JoinForm f)
    then show ?thesis using assms step [of "jf_nickname f"] step [of "jf_introduction f"]
      by (cases "jf_focus f") (auto simp: on_paste_def)
  next
    case (Scr_Room v)
    then show ?thesis using assms step [of "rv_input v"] by (auto simp: on_paste_def)
  qed (use assms in \<open>auto simp: on_paste_def\<close>)
qed

text \<open>The user's keys and pastes, and what the supervisor does to the screens.\<close>

datatype app_input =
    AI_Key clock key_event | AI_Paste rstring | AI_Message rstring | AI_Menu | AI_Connecting | AI_Progress u8
  | AI_EnterRoom bool rstring duration | AI_JoinForm | AI_JoinPending | AI_View clock view_op

fun app_step :: "app_input \<Rightarrow> app \<Rightarrow> app option" where
  "app_step (AI_Key ck key) a = map_option snd (on_key ck key a)"
| "app_step (AI_Paste text) a = on_paste text a"
| "app_step (AI_Message m) a = Some (show_message m a)"
| "app_step AI_Menu a = Some (back_to_menu a)"
| "app_step AI_Connecting a = Some (begin_tor_connection a)"
| "app_step (AI_Progress p) a = Some (set_tor_progress p a)"
| "app_step (AI_EnterRoom is_host nickname now) a = Some (enter_room (room_view_new is_host nickname now) a)"
| "app_step AI_JoinForm a = Some (show_join_form a)"
| "app_step AI_JoinPending a = Some (show_join_pending a)"
| "app_step (AI_View ck p) a = Some (on_view (apply_view_op ck p) a)"

fun app_run :: "app_input list \<Rightarrow> app \<Rightarrow> app option" where
  "app_run [] a = Some a"
| "app_run (i # ins) a = Option.bind (app_step i a) (app_run ins)"

lemma key_result_ok:
  assumes "screen_ok (ap_screen a)"
  obtains action b where "on_key ck key a = Some (action, b)" "screen_ok (ap_screen b)"
    "action_ok (ap_screen a) action (ap_screen b)"
  using screen_key_ok [OF assms, of ck key] that by (auto simp: key_ok_def on_key_def)

lemma view_op_input:
  assumes "screen_ok (Scr_Room v)"
  shows "screen_ok (Scr_Room (apply_view_op ck p v))"
proof -
  have view: "view_ok (apply_view_op ck p v)" using assms by (simp add: apply_view_op_ok)
  have same: "rv_input (fold (view_notice ck) ts w) = rv_input w" for ts w
    by (induction ts arbitrary: w) (simp_all add: view_notice_def Let_def)
  show ?thesis
  proof (cases p)
    case (VO_Input k)
    then show ?thesis using assms field_ok_op [of "rv_input v" k] by auto
  next
    case VO_Submit
    then show ?thesis using submit_line_ok [OF assms] by simp
  next
    case (VO_ShowRequests qs)
    then show ?thesis using assms view by (simp add: show_requests_def same Let_def)
  qed (use assms view in \<open>auto simp: push_chat_def push_own_def push_system_def push_muted_def push_error_def
      view_notice_def Let_def set_members_def set_requests_def set_invitation_def set_status_def
      set_message_timeout_def tick_message_timeout_def toggle_host_member_view_def toggle_system_messages_def
      split: prod.splits\<close>)
qed

lemma app_step_ok:
  assumes "screen_ok (ap_screen a)"
  shows "\<exists>b. app_step i a = Some b \<and> screen_ok (ap_screen b)"
proof (cases i)
  case (AI_Key ck key)
  then show ?thesis using key_result_ok [OF assms, of ck key] by (metis app_step.simps(1) option.map(2) snd_conv)
next
  case (AI_Paste pasted)
  then show ?thesis using paste_ok [OF assms] by simp
next
  case (AI_View ck p)
  then show ?thesis using assms view_op_input
    by (cases "ap_screen a") (auto simp: on_view_def simp del: screen_ok.simps(5))
next
  case (AI_EnterRoom is_host nickname now)
  then show ?thesis by (simp add: enter_room_def del: screen_ok.simps)
next
  case AI_JoinForm
  then show ?thesis by (simp add: show_join_form_def del: screen_ok.simps)
next
  case AI_Menu
  then show ?thesis by (simp add: back_to_menu_def)
qed (use assms in \<open>auto simp: show_message_def begin_tor_connection_def set_tor_progress_def show_join_pending_def
      split: screen.splits\<close>)

lemma app_run_ok: "screen_ok (ap_screen a) \<Longrightarrow> \<exists>b. app_run ins a = Some b \<and> screen_ok (ap_screen b)"
proof (induction ins arbitrary: a)
  case (Cons i ins)
  from app_step_ok [OF Cons.prems, of i] Cons.IH show ?case by auto
qed simp

text \<open>
  C25: The user interface is total and sound: after any sequence of keys, pastes and screen changes, no next
  key and no paste makes a field slice a string off a character boundary or the menu index past its end,
  and every action a key can produce is justified by the screen it was pressed on. A join request or a new
  room carries a non-empty printable nickname; only a participant's room screen sends chat, and only text
  that the validation of chat text accepts; a slash command that leaves the screen is well-formed and
  allowed for the role; copying hands out the stored invitation; only the menu quits.
\<close>

theorem ui_actions_are_sound:
  "\<exists>a action b c. app_run ins app_new = Some a \<and> on_key ck key a = Some (action, b) \<and>
     action_ok (ap_screen a) action (ap_screen b) \<and> on_paste pasted a = Some c"
proof -
  have "screen_ok (ap_screen app_new)" by (simp add: app_new_def)
  then obtain a where a: "app_run ins app_new = Some a" "screen_ok (ap_screen a)" using app_run_ok by blast
  from key_result_ok [OF a(2), of ck key] paste_ok [OF a(2), of pasted] show ?thesis using a(1) by metis
qed

end
