(* ===== verification/HostEntry.thy ===== *)
theory HostEntry
  imports ScreenRules
begin

text \<open>
  The setup of a new room as the user sees it: a password, typed twice, and a nickname. The specification
  works on the characters that were typed; the form of the source (\<open>on_host_setup_key\<close>, \<open>on_paste\<close>) works on
  two byte buffers, a captured password and a text field with a byte cursor. The form implements the
  specification, so that a room can only be opened under a password that was confirmed.
\<close>

section \<open>What the user means\<close>

text \<open>
  The first entry; the first entry and what was typed of the second; or the nickname, with the confirmed
  password until it is handed out.
\<close>

datatype host_stage = HG_First rstring | HG_Second rstring rstring | HG_Nick "rstring option"

datatype form_input = FI_Key clock key_event | FI_Paste rstring

definition type_secret :: "nat \<Rightarrow> key_event \<Rightarrow> rstring \<Rightarrow> rstring" where
  "type_secret m key p =
     (case ke_code key of KC_Backspace \<Rightarrow> butlast p | KC_Char c \<Rightarrow> typed m (Key_Char c) p | _ \<Rightarrow> p)"

definition type_text :: "nat \<Rightarrow> key_event \<Rightarrow> editor \<Rightarrow> editor" where
  "type_text m key e =
     (case ke_code key of KC_Backspace \<Rightarrow> edit m Op_Backspace e | KC_Char c \<Rightarrow> edit m (Op_Insert c) e | _ \<Rightarrow> e)"

definition paste_secret :: "nat \<Rightarrow> rstring \<Rightarrow> rstring \<Rightarrow> rstring" where
  "paste_secret m = fold (\<lambda>c. typed m (Key_Char c))"

text \<open>The action, and the next stage unless the form is left.\<close>

fun host_spec :: "nat \<Rightarrow> form_input \<Rightarrow> host_stage \<times> editor \<Rightarrow> app_action \<times> (host_stage \<times> editor) option" where
  "host_spec m (FI_Key ck key) (HG_First p, e) =
     (if ke_code key = KC_Esc then (AA_None, None)
      else if ke_code key = KC_Enter then (AA_None, Some (if p = [] then HG_First p else HG_Second p [], e))
      else (AA_None, Some (HG_First (type_secret m key p), e)))"
| "host_spec m (FI_Key ck key) (HG_Second p c, e) =
     (if ke_code key = KC_Esc then (AA_None, Some (HG_First [], e))
      else if ke_code key = KC_Enter then (AA_None, Some (if c = p then HG_Nick (Some p) else HG_Second p [], e))
      else (AA_None, Some (HG_Second p (type_secret m key c), e)))"
| "host_spec m (FI_Key ck key) (HG_Nick q, e) =
     (if ke_code key = KC_Esc then (AA_None, Some (HG_First [], e))
      else if ke_code key = KC_Enter then
        (if ed_locked e \<or> ed_left e @ ed_right e = [] then (AA_None, Some (HG_Nick q, e))
         else (AA_HostSetupSubmitted (utf8 (the q)) (ed_left e @ ed_right e), Some (HG_Nick None, e\<lparr>ed_locked := True\<rparr>)))
      else (AA_None, Some (HG_Nick q, type_text m key e)))"
| "host_spec m (FI_Paste s) (HG_First p, e) = (AA_None, Some (HG_First (paste_secret m s p), e))"
| "host_spec m (FI_Paste s) (HG_Second p c, e) = (AA_None, Some (HG_Second p (paste_secret m s c), e))"
| "host_spec m (FI_Paste s) (HG_Nick q, e) = (AA_None, Some (HG_Nick q, edit m (Op_Paste s) e))"

fun host_spec_run :: "nat \<Rightarrow> form_input list \<Rightarrow> host_stage \<times> editor \<Rightarrow> app_action list" where
  "host_spec_run m [] s = []"
| "host_spec_run m (i # ins) s =
     (case host_spec m i s of
        (a, None) \<Rightarrow> [a]
      | (a, Some s1) \<Rightarrow> a # host_spec_run m ins s1)"

section \<open>What the form does\<close>

definition form_step :: "form_input \<Rightarrow> app \<Rightarrow> (app_action \<times> app) option" where
  "form_step i a =
     (case i of
        FI_Key ck key \<Rightarrow> on_key ck key a
      | FI_Paste s \<Rightarrow> map_option (\<lambda>b. (AA_None, b)) (on_paste s a))"

fun form_run :: "form_input list \<Rightarrow> app \<Rightarrow> app_action list option" where
  "form_run [] a = Some []"
| "form_run (i # ins) a =
     Option.bind (form_step i a) (\<lambda>(action, b).
       case ap_screen b of
         Scr_HostSetup _ \<Rightarrow> map_option ((#) action) (form_run ins b)
       | _ \<Rightarrow> Some [action])"

section \<open>The form of a stage\<close>

definition locked_secret :: "nat \<Rightarrow> secret_field" where
  "locked_secret m = \<lparr>sf_bytes = [], sf_max_bytes = m, sf_complete = True\<rparr>"

fun setup_of :: "nat \<Rightarrow> rstring option \<Rightarrow> host_stage \<times> editor \<Rightarrow> host_setup_model" where
  "setup_of m err (HG_First p, e) =
     \<lparr>hs_password = secret_of m p, hs_confirm = secret_of m [], hs_nickname = field_of m e,
      hs_focus = HF_Password, hs_error = err, hs_stored = None\<rparr>"
| "setup_of m err (HG_Second p c, e) =
     \<lparr>hs_password = locked_secret m, hs_confirm = secret_of m c, hs_nickname = field_of m e,
      hs_focus = HF_Confirm, hs_error = err, hs_stored = Some (utf8 p)\<rparr>"
| "setup_of m err (HG_Nick q, e) =
     \<lparr>hs_password = locked_secret m, hs_confirm = locked_secret m, hs_nickname = field_of m e,
      hs_focus = HF_Nickname, hs_error = err, hs_stored = map_option utf8 q\<rparr>"

definition scalars :: "rstring \<Rightarrow> bool" where
  "scalars s \<longleftrightarrow> (\<forall>c \<in> set s. scalar c)"

fun stage_ok :: "host_stage \<times> editor \<Rightarrow> bool" where
  "stage_ok (HG_First p, e) \<longleftrightarrow> scalars p"
| "stage_ok (HG_Second p c, e) \<longleftrightarrow> p \<noteq> [] \<and> scalars p \<and> scalars c"
| "stage_ok (HG_Nick q, e) \<longleftrightarrow> (case q of None \<Rightarrow> ed_locked e | Some p \<Rightarrow> p \<noteq> [] \<and> scalars p)"

fun input_ok :: "form_input \<Rightarrow> bool" where
  "input_ok (FI_Key ck key) \<longleftrightarrow> (case ke_code key of KC_Char c \<Rightarrow> scalar c | _ \<Rightarrow> True)"
| "input_ok (FI_Paste s) \<longleftrightarrow> list_all scalar s"

lemma secret_of_simps [simp]:
  "sf_bytes (secret_of m p) = utf8 p" "sf_complete (secret_of m p) = False" "sf_max_bytes (secret_of m p) = m"
  "secret_clear (secret_of m p) = secret_of m []" "secret_clear (locked_secret m) = secret_of m []"
  by (simp_all add: secret_of_def secret_clear_def locked_secret_def utf8_def)

lemma utf8_empty [simp]: "utf8 s = [] \<longleftrightarrow> s = []"
  by (cases s) (simp_all add: utf8_def)

lemma secret_submit_of:
  "secret_submit (secret_of m p) =
     (if p = [] then (Submit_None, secret_of m p) else (Submit_Value (utf8 p), locked_secret m))"
  by (simp add: secret_submit_def locked_secret_def secret_of_def)

lemma secret_key_of:
  assumes "scalars p" and "ke_code key \<noteq> KC_Enter" and "ke_code key \<noteq> KC_Esc"
  shows "secret_key key (secret_of m p) = (Submit_None, secret_of m (type_secret m key p))"
proof (cases "ke_code key")
  case KC_Backspace
  have "pop_char (secret_of m p) = secret_of m (butlast p)"
    using press_secret_of [of p Key_Backspace m] assms(1) by (simp add: scalars_def)
  with KC_Backspace show ?thesis by (simp add: secret_key_def type_secret_def)
next
  case (KC_Char c)
  then show ?thesis by (simp add: secret_key_def type_secret_def push_char_secret_of)
qed (use assms in \<open>simp_all add: secret_key_def type_secret_def\<close>)

lemma push_text_of: "push_text s (secret_of m p) = secret_of m (paste_secret m s p)"
  by (induction s arbitrary: p) (simp_all add: paste_secret_def push_char_secret_of)

lemma scalars_typed: "scalars p \<Longrightarrow> scalar c \<Longrightarrow> scalars (typed m (Key_Char c) p)"
  by (auto simp: scalars_def)

lemma scalars_type_secret:
  "scalars p \<Longrightarrow> input_ok (FI_Key ck key) \<Longrightarrow> scalars (type_secret m key p)"
  by (cases "ke_code key") (simp_all add: type_secret_def scalars_typed del: typed.simps, simp add: scalars_def in_set_butlastD)

lemma scalars_paste: "scalars p \<Longrightarrow> list_all scalar s \<Longrightarrow> scalars (paste_secret m s p)"
  by (induction s arbitrary: p) (simp_all add: paste_secret_def scalars_typed del: typed.simps)

lemma utf8_eq_iff:
  assumes "scalars p" and "scalars q"
  shows "utf8 p = utf8 q \<longleftrightarrow> p = q"
  using assms from_utf8_utf8 [of p] from_utf8_utf8 [of q] unfolding scalars_def by (metis option.inject)

lemma text_key_field_of:
  "text_key key (field_of m e) = Some (field_of m (type_text m key e))"
  by (auto simp: text_key_def type_text_def insert_char_field_of backspace_field_of simp del: edit.simps(3)
      split: key_code.splits)

lemma field_submit_field_of:
  "field_submit (field_of m e) =
     (if ed_locked e \<or> ed_left e @ ed_right e = [] then (Submit_None, field_of m e)
      else (Submit_Value (ed_left e @ ed_right e), field_of m (e\<lparr>ed_locked := True\<rparr>)))"
  by (auto simp: field_submit_def field_of_def)

section \<open>The simulation\<close>

text \<open>
  One input on the form of a stage: the action is the specified one, and the form of the next stage is shown
  (with some error text), or the menu.
\<close>

definition shows_stage :: "nat \<Rightarrow> (host_stage \<times> editor) option \<Rightarrow> app \<Rightarrow> bool" where
  "shows_stage m s a \<longleftrightarrow>
     (case s of None \<Rightarrow> ap_screen a = Scr_Menu menu_default
      | Some s1 \<Rightarrow> stage_ok s1 \<and> (\<exists>err. ap_screen a = Scr_HostSetup (setup_of m err s1)))"

lemma host_key_simulated:
  assumes "stage_ok s" and "input_ok (FI_Key ck key)" and "ap_screen a = Scr_HostSetup (setup_of m err s)"
  shows "\<exists>b. on_key ck key a = Some (fst (host_spec m (FI_Key ck key) s), b) \<and>
    shows_stage m (snd (host_spec m (FI_Key ck key) s)) b"
proof -
  obtain st e where s: "s = (st, e)" by (cases s)
  have on: "on_key ck key a = map_option (\<lambda>((action, n), f). (action,
      a\<lparr>ap_screen := (case n of Some s1 \<Rightarrow> s1 | None \<Rightarrow> Scr_HostSetup f), ap_quit := ap_quit a \<or> action = AA_Quit\<rparr>))
      (on_host_setup_key (setup_of m err s) key)"
    by (cases "on_host_setup_key (setup_of m err s) key") (auto simp: on_key_def assms(3) on_screen_key_def)
  show ?thesis
  proof (cases st)
    case (HG_First p)
    have p: "scalars p" using assms(1) by (simp add: s HG_First)
    consider "ke_code key = KC_Esc" | "ke_code key = KC_Enter" | "ke_code key \<noteq> KC_Esc" "ke_code key \<noteq> KC_Enter" by blast
    then show ?thesis
    proof cases
      case 1
      then show ?thesis
        by (simp add: s HG_First on on_host_setup_key_def secret_key_def shows_stage_def)
    next
      case 2
      then show ?thesis using p
        by (auto simp: s HG_First on on_host_setup_key_def secret_key_def shows_stage_def secret_submit_of scalars_def)
    next
      case 3
      then show ?thesis using p scalars_type_secret [OF p assms(2), of m]
        by (auto simp: s HG_First on on_host_setup_key_def secret_key_of shows_stage_def)
    qed
  next
    case (HG_Second p c)
    have p: "p \<noteq> []" "scalars p" "scalars c" using assms(1) by (simp_all add: s HG_Second)
    have e: "scalars []" by (simp add: scalars_def)
    consider "ke_code key = KC_Esc" | "ke_code key = KC_Enter" | "ke_code key \<noteq> KC_Esc" "ke_code key \<noteq> KC_Enter" by blast
    then show ?thesis
    proof cases
      case 1
      then show ?thesis using e
        by (auto simp: s HG_Second on on_host_setup_key_def secret_key_def shows_stage_def restart_password_entry_def)
    next
      case 2
      then show ?thesis using p e utf8_eq_iff [OF p(2,3)]
        by (auto simp: s HG_Second on on_host_setup_key_def secret_key_def shows_stage_def secret_submit_of)
    next
      case 3
      then show ?thesis using p scalars_type_secret [OF p(3) assms(2), of m]
        by (auto simp: s HG_Second on on_host_setup_key_def secret_key_of shows_stage_def)
    qed
  next
    case (HG_Nick q)
    have e: "scalars []" by (simp add: scalars_def)
    have lock: "ed_locked (type_text m key e)" if "ed_locked e"
      using that by (auto simp: type_text_def ed_insert_def split: key_code.splits)
    consider "ke_code key = KC_Esc" | "ke_code key = KC_Enter" | "ke_code key \<noteq> KC_Esc" "ke_code key \<noteq> KC_Enter" by blast
    then show ?thesis
    proof cases
      case 1
      then show ?thesis using e
        by (auto simp: s HG_Nick on on_host_setup_key_def shows_stage_def restart_password_entry_def)
    next
      case 2
      then show ?thesis using assms(1)
        by (auto simp: s HG_Nick on on_host_setup_key_def shows_stage_def field_submit_field_of is_value_def
            split: option.splits)
    next
      case 3
      then have "on_host_setup_key (setup_of m err s) key =
          Some ((AA_None, None), setup_of m err (HG_Nick q, type_text m key e))"
        by (auto simp: s HG_Nick on_host_setup_key_def text_key_field_of split: key_code.splits)
      with 3 show ?thesis using assms(1) lock
        by (auto simp: on s HG_Nick shows_stage_def split: option.splits)
    qed
  qed
qed

lemma host_paste_simulated:
  assumes "stage_ok s" and "list_all scalar t" and "ap_screen a = Scr_HostSetup (setup_of m err s)"
  shows "\<exists>b. on_paste t a = Some b \<and> fst (host_spec m (FI_Paste t) s) = AA_None \<and>
    shows_stage m (snd (host_spec m (FI_Paste t) s)) b"
proof -
  have lock: "ed_locked (fold (ed_insert m) t e) = ed_locked e" for e
    by (induction t arbitrary: e) (simp_all add: ed_insert_def)
  obtain st e where "s = (st, e)" by (cases s)
  then show ?thesis
    using assms
    by (cases st) (auto simp: on_paste_def shows_stage_def push_text_of scalars_paste insert_text_field_of lock
        split: option.splits)
qed

lemma host_form_simulated:
  assumes "stage_ok s" and "input_ok i" and "ap_screen a = Scr_HostSetup (setup_of m err s)"
  shows "\<exists>b. form_step i a = Some (fst (host_spec m i s), b) \<and> shows_stage m (snd (host_spec m i s)) b"
proof (cases i)
  case (FI_Key ck key)
  then show ?thesis using host_key_simulated [of s ck key a m err] assms by (auto simp: form_step_def)
next
  case (FI_Paste t)
  then show ?thesis using host_paste_simulated [of s t a m err] assms by (auto simp: form_step_def)
qed

lemma host_run_simulated:
  "stage_ok s \<Longrightarrow> list_all input_ok ins \<Longrightarrow> ap_screen a = Scr_HostSetup (setup_of m err s) \<Longrightarrow>
   form_run ins a = Some (host_spec_run m ins s)"
proof (induction ins arbitrary: s a err)
  case (Cons i ins)
  obtain b where b: "form_step i a = Some (fst (host_spec m i s), b)" "shows_stage m (snd (host_spec m i s)) b"
    using host_form_simulated [of s i a m err] Cons.prems by auto
  show ?case
  proof (cases "snd (host_spec m i s)")
    case None
    then have "ap_screen b = Scr_Menu menu_default" using b(2) by (simp add: shows_stage_def)
    with None b(1) show ?thesis by (cases "host_spec m i s") simp
  next
    case (Some s1)
    then obtain err1 where "stage_ok s1" "ap_screen b = Scr_HostSetup (setup_of m err1 s1)"
      using b(2) by (auto simp: shows_stage_def)
    then show ?thesis using Cons.IH [of s1 b err1] Cons.prems(2) Some b(1) by (cases "host_spec m i s") simp
  qed
qed simp

section \<open>What is handed out\<close>

fun is_submission :: "app_action \<Rightarrow> bool" where
  "is_submission (AA_HostSetupSubmitted p n) \<longleftrightarrow> True"
| "is_submission _ \<longleftrightarrow> False"

fun submission_ok :: "app_action \<Rightarrow> bool" where
  "submission_ok (AA_HostSetupSubmitted p n) \<longleftrightarrow> p \<noteq> [] \<and> n \<noteq> []"
| "submission_ok a \<longleftrightarrow> a = AA_None"

lemma host_spec_output:
  assumes "stage_ok s"
  shows "submission_ok (fst (host_spec m i s))"
  using assms by (cases "(m, i, s)" rule: host_spec.cases) (auto split: option.splits)

lemma host_spec_locked:
  assumes "host_spec m i (st, e) = (a, Some (st1, e1))"
  shows "(ed_locked e \<longrightarrow> ed_locked e1 \<and> \<not> is_submission a) \<and> (is_submission a \<longrightarrow> ed_locked e1)"
proof -
  have paste: "ed_locked (fold (ed_insert m) t e) = ed_locked e" for t e
    by (induction t arbitrary: e) (simp_all add: ed_insert_def)
  show ?thesis
    using assms
    by (cases "(m, i, st, e)" rule: host_spec.cases)
      (auto simp: paste type_text_def ed_insert_def split: if_splits key_code.splits)
qed

lemma host_spec_ok:
  assumes "stage_ok s" and "input_ok i" and "host_spec m i s = (a, Some s1)"
  shows "stage_ok s1"
  using host_form_simulated [of s i "\<lparr>ap_screen = Scr_HostSetup (setup_of m None s), ap_quit = False\<rparr>" m None] assms
  by (auto simp: shows_stage_def)

lemma host_spec_run_outputs:
  "stage_ok s \<Longrightarrow> list_all input_ok ins \<Longrightarrow> list_all submission_ok (host_spec_run m ins s)"
proof (induction ins arbitrary: s)
  case (Cons i ins)
  then show ?case using host_spec_output [of s m i] host_spec_ok [of s i m]
    by (cases "host_spec m i s") (auto split: option.splits)
qed simp

lemma host_spec_run_once:
  "length (filter is_submission (host_spec_run m ins (st, e))) \<le> (if ed_locked e then 0 else 1)"
proof (induction ins arbitrary: st e)
  case (Cons i ins)
  show ?case
  proof (cases "host_spec m i (st, e)")
    case (Pair a n)
    show ?thesis
    proof (cases n)
      case None
      then show ?thesis using Pair
        by (cases "(m, i, st, e)" rule: host_spec.cases) (auto split: if_splits)
    next
      case (Some s1)
      obtain st1 e1 where s1: "s1 = (st1, e1)" by (cases s1)
      from host_spec_locked [of m i st e a st1 e1] Cons.IH [of st1 e1] show ?thesis
        using Pair Some s1 by (auto split: if_splits)
    qed
  qed
qed simp

text \<open>
  C24: The form in which a room is opened does exactly what the user means: whatever is typed, pasted, deleted
  and cancelled, its actions are those of a specification over the typed characters, in which the nickname
  is asked for only after the second entry of the password equals the first. So the password that opens the
  room is never empty and was typed twice, Esc always leads back to the first entry with nothing captured,
  and the form hands a password out at most once.
\<close>

theorem host_setup_refines_entry:
  assumes "list_all input_ok ins"
    and "ap_screen a = Scr_HostSetup host_setup_new"
  shows "form_run ins a = Some (host_spec_run 128 ins (HG_First [], ed_empty)) \<and>
    list_all submission_ok (host_spec_run 128 ins (HG_First [], ed_empty)) \<and>
    length (filter is_submission (host_spec_run 128 ins (HG_First [], ed_empty))) \<le> 1"
proof -
  have start: "stage_ok (HG_First [], ed_empty)" by (simp add: scalars_def)
  have "host_setup_new = setup_of 128 None (HG_First [], ed_empty)"
    by (simp add: host_setup_new_def default_limits_def Let_def secret_field_new_eq)
      (simp add: text_field_new_def field_of_def ed_empty_def)
  then show ?thesis
    using host_run_simulated [OF start assms(1), of a 128 None] host_spec_run_outputs [OF start assms(1)]
      host_spec_run_once [of 128 ins "HG_First []" ed_empty] assms(2)
    by (simp add: ed_empty_def)
qed

text \<open>
  A password of one character is mistyped in the first entry, the confirmation fails, Esc starts over, and
  the room is opened under the corrected password.
\<close>

definition plain_key :: "key_code \<Rightarrow> form_input" where
  "plain_key c = FI_Key \<lparr>ck_instant = 0, ck_unix_seconds = 0\<rparr>
     \<lparr>ke_code = c, ke_control = False, ke_shift = False, ke_other_modifier = False\<rparr>"

definition demo_typing :: "form_input list" where
  "demo_typing = map plain_key [KC_Char 0x61, KC_Enter, KC_Char 0x62, KC_Enter, KC_Esc, KC_Char 0x62, KC_Enter,
     KC_Char 0x62, KC_Enter, KC_Char 0x6E, KC_Enter]"

theorem host_setup_refines_entry_witness:
  "form_run demo_typing \<lparr>ap_screen = Scr_HostSetup host_setup_new, ap_quit = False\<rparr> =
   Some [AA_None, AA_None, AA_None, AA_None, AA_None, AA_None, AA_None, AA_None, AA_None, AA_None,
     AA_HostSetupSubmitted [0x62] [0x6E]]"
proof -
  have "list_all input_ok demo_typing"
    by (simp add: demo_typing_def plain_key_def scalar_def)
  moreover have "host_spec_run 128 demo_typing (HG_First [], ed_empty) =
      [AA_None, AA_None, AA_None, AA_None, AA_None, AA_None, AA_None, AA_None, AA_None, AA_None,
       AA_HostSetupSubmitted [0x62] [0x6E]]"
    by (simp add: demo_typing_def plain_key_def type_secret_def type_text_def ed_insert_def ed_empty_def utf8_def
        utf8_char_def char_len_def is_unsafe_display_char_def char_is_control_def is_dangerous_format_char_def)
  ultimately show ?thesis
    using host_setup_refines_entry [of demo_typing "\<lparr>ap_screen = Scr_HostSetup host_setup_new, ap_quit = False\<rparr>"]
    by simp
qed

end
