(* ===== verification/Join.thy ===== *)
theory Join
  imports Screens Admission Conn
begin

text \<open>
  The participant's supervisor loop (\<open>join_session_body\<close> and \<open>handle_join_message\<close> of \<open>app.rs\<close>): it stands
  between the screens, the admission flow of the participant and its one connection. \<open>join_session\<close> has the
  locals of the loop with the application, the admission and the connection; a step is one branch of the
  \<open>select!\<close>, with everything it reads from outside (keys, messages, clocks, the state of the Tor process) as
  its event. A step returns how the session ends, if it does; \<open>None\<close> around it is a panic of a screen.
\<close>

section \<open>The session\<close>

datatype session_end = SE_Menu | SE_Quit | SE_Failed rstring

record join_env =
  je_crypto :: crypto
  je_kdf :: kdf
  je_nfc :: "rstring \<Rightarrow> rstring"
  je_timeouts :: timeouts
  je_admission_text :: "admission_error \<Rightarrow> rstring"
  je_chat_text :: "chat_error \<Rightarrow> rstring"
  je_send_text :: "peer_send_error \<Rightarrow> rstring"

record join_session =
  jn_app :: app
  jn_admission :: client_admission
  jn_peer :: peer_connection
  jn_pending_form :: "(rstring \<times> rstring option) option"
  jn_own_nickname :: "rstring option"
  jn_stage_since :: duration
  jn_last_seen :: duration

type_synonym join_result = "session_end option \<times> join_session"

definition net_send :: "message \<Rightarrow> join_session \<Rightarrow> (peer_send_error + unit) \<times> join_session" where
  "net_send m j = (case peer_send m (jn_peer j) of (r, p) \<Rightarrow> (r, j\<lparr>jn_peer := p\<rparr>))"

text \<open>\<open>if network.send(message).is_err()\<close>: the session fails, or goes on.\<close>

definition send_or_fail :: "message \<Rightarrow> (join_session \<Rightarrow> join_result) \<Rightarrow> join_session \<Rightarrow> join_result" where
  "send_or_fail m go j =
     (case net_send m j of
        (Inl _, j1) \<Rightarrow> (Some (SE_Failed (rs ''the connection failed'')), j1)
      | (Inr _, j1) \<Rightarrow> go j1)"

definition with_view :: "(room_view \<Rightarrow> room_view) \<Rightarrow> join_session \<Rightarrow> join_session" where
  "with_view f j = j\<lparr>jn_app := on_view f (jn_app j)\<rparr>"

definition go_on :: "join_session \<Rightarrow> join_result" where
  "go_on j = (None, j)"

definition member_line_of :: "member_view \<Rightarrow> member_line" where
  "member_line_of m =
     \<lparr>mb_member_id = mv_member_id m, mb_nickname = mv_nickname m, mb_color = mv_color m, mb_is_host = mv_is_host m\<rparr>"

definition sync_join_members :: "join_session \<Rightarrow> join_session" where
  "sync_join_members j =
     (case ca_chat (jn_admission j) of
        None \<Rightarrow> j
      | Some s \<Rightarrow> with_view (set_members (map member_line_of (cs_members s))) j)"

section \<open>A message of the host\<close>

text \<open>The calls of the admission on the state of the session.\<close>

definition on_admission :: "(client_admission \<Rightarrow> 'r \<times> client_admission) \<Rightarrow> join_session \<Rightarrow> 'r \<times> join_session" where
  "on_admission f j = (case f (jn_admission j) of (r, c) \<Rightarrow> (r, j\<lparr>jn_admission := c\<rparr>))"

definition recoverable_error :: "clock \<Rightarrow> error_message \<Rightarrow> join_session \<Rightarrow> join_result" where
  "recoverable_error ck e j =
     go_on (with_view (push_error ck (case em_reason e of Some r \<Rightarrow> r | None \<Rightarrow> rs ''the room rejected that message'')) j)"

definition host_error :: "error_message \<Rightarrow> session_end" where
  "host_error e =
     SE_Failed (rs ''the host rejected the connection: '' @
       (case em_reason e of Some r \<Rightarrow> r | None \<Rightarrow> rs ''protocol error''))"

definition on_wrap :: "join_env \<Rightarrow> clock \<Rightarrow> epoch_wrap \<Rightarrow> join_session \<Rightarrow> join_result" where
  "on_wrap E ck w j =
     (case on_admission (on_epoch_wrap (je_crypto E) w) j of
        (Inr ack, j1) \<Rightarrow>
          send_or_fail ack
            (\<lambda>j2. go_on (with_view (push_system ck (rs ''epoch '' @ dec (unat (ew_epoch w)) @ rs '' active'')) j2)) j1
      | (Inl _, j1) \<Rightarrow> (Some (SE_Failed (rs ''the epoch key could not be unwrapped'')), j1))"

definition on_chat :: "join_env \<Rightarrow> clock \<Rightarrow> envelope \<Rightarrow> join_session \<Rightarrow> join_result" where
  "on_chat E ck env j =
     (case on_admission (on_member_message (je_crypto E) 0x40 env) j of
        (Inr (Some t), j1) \<Rightarrow>
          (let member = client_member_view (env_sender_id env) (jn_admission j1);
               nickname = (case member of Some m \<Rightarrow> mv_nickname m
                           | None \<Rightarrow> rs ''member '' @ dec (unat (env_sender_id env)));
               color = (case member of Some m \<Rightarrow> mv_color m | None \<Rightarrow> color_default)
           in go_on (with_view (push_chat ck nickname color t) j1))
      | (Inr None, j1) \<Rightarrow> go_on j1
      | (Inl e, j1) \<Rightarrow> go_on (with_view (push_error ck (je_chat_text E e)) j1))"

definition on_color :: "join_env \<Rightarrow> envelope \<Rightarrow> join_session \<Rightarrow> join_result" where
  "on_color E env j = go_on (sync_join_members (snd (on_admission (on_member_message (je_crypto E) 0x41 env) j)))"

definition timeout_notice :: "clock \<Rightarrow> u64 option \<Rightarrow> room_view \<Rightarrow> room_view" where
  "timeout_notice ck interval v =
     view_notice ck (case interval of
        Some seconds \<Rightarrow> rs ''room message lifetime changed to '' @ dec (unat seconds) @ rs '' seconds''
      | None \<Rightarrow> rs ''room message expiry was disabled'') (set_message_timeout interval v)"

definition on_timeout_changed :: "join_env \<Rightarrow> clock \<Rightarrow> envelope \<Rightarrow> join_session \<Rightarrow> join_result" where
  "on_timeout_changed E ck env j =
     (case on_admission (with_chat ChE_NoEpochKey (receive_timeout_changed (je_crypto E) env)) j of
        (Inr interval, j1) \<Rightarrow> go_on (with_view (timeout_notice ck interval) j1)
      | (Inl e, j1) \<Rightarrow> go_on (with_view (push_error ck (je_chat_text E e)) j1))"

definition show_membership :: "clock \<Rightarrow> message \<Rightarrow> room_view \<Rightarrow> room_view" where
  "show_membership ck m v =
     (case m of
        M_MemberJoined ev \<Rightarrow> push_system ck (mj_nickname ev @ rs '' joined'') v
      | M_JoinPolicyChanged ev \<Rightarrow>
          set_status (if jp_open ev then rs ''join policy: open'' else rs ''join policy: locked'') v
      | _ \<Rightarrow> v)"

definition on_membership :: "join_env \<Rightarrow> clock \<Rightarrow> message \<Rightarrow> join_session \<Rightarrow> join_result" where
  "on_membership E ck m j =
     (case on_admission (on_membership_message (je_nfc E) (je_crypto E) m) j of
        (Inr _, j1) \<Rightarrow> go_on (with_view (show_membership ck m) (sync_join_members j1))
      | (Inl e, j1) \<Rightarrow> go_on (with_view (push_error ck (je_chat_text E e)) j1))"

text \<open>The replies of the handshake; after the password proof the form that was filled in early is sent.\<close>

definition send_pending_form :: "join_env \<Rightarrow> join_session \<Rightarrow> join_result" where
  "send_pending_form E j =
     (case jn_pending_form j of
        None \<Rightarrow> go_on j
      | Some (nickname, introduction) \<Rightarrow>
          (case on_admission (client_join_request (je_nfc E) (je_crypto E) nickname introduction)
                  (j\<lparr>jn_pending_form := None\<rparr>) of
             (Inr join_message, j1) \<Rightarrow> send_or_fail join_message go_on j1
           | (Inl _, j1) \<Rightarrow> go_on j1))"

definition is_challenge_answer :: "message \<Rightarrow> bool" where
  "is_challenge_answer m \<longleftrightarrow> (case m of M_ChallengeProof _ \<Rightarrow> True | _ \<Rightarrow> False)"

fun send_replies :: "join_env \<Rightarrow> message list \<Rightarrow> join_session \<Rightarrow> join_result" where
  "send_replies E [] j = go_on j"
| "send_replies E (reply # replies) j =
     send_or_fail reply (\<lambda>j1.
       case (if is_challenge_answer reply then send_pending_form E j1 else go_on j1) of
         (Some e, j2) \<Rightarrow> (Some e, j2)
       | (None, j2) \<Rightarrow> send_replies E replies j2) j"

definition enter_if_admitted :: "clock \<Rightarrow> join_session \<Rightarrow> join_session" where
  "enter_if_admitted ck j =
     (if is_admitted (jn_admission j) then
        let nickname = (case jn_own_nickname j of Some n \<Rightarrow> n | None \<Rightarrow> rs ''you'')
        in j\<lparr>jn_own_nickname := None,
             jn_app := enter_room (room_view_new False nickname (ck_instant ck)) (jn_app j)\<rparr>
      else j)"

definition on_handshake :: "join_env \<Rightarrow> clock \<Rightarrow> message \<Rightarrow> join_session \<Rightarrow> join_result" where
  "on_handshake E ck m j =
     (case on_admission (on_host_message (je_crypto E) (je_kdf E) m) j of
        (Inr replies, j1) \<Rightarrow>
          (case send_replies E replies j1 of
             (Some e, j2) \<Rightarrow> (Some e, j2)
           | (None, j2) \<Rightarrow> go_on (enter_if_admitted ck j2))
      | (Inl (AE_Rejected reason), j1) \<Rightarrow>
          (Some (SE_Failed (rs ''the host rejected the join request: '' @
             (case reason of Some r \<Rightarrow> r | None \<Rightarrow> rs ''no reason given''))), j1)
      | (Inl e, j1) \<Rightarrow> (Some (SE_Failed (je_admission_text E e)), j1))"

definition handle_join_message :: "join_env \<Rightarrow> clock \<Rightarrow> message \<Rightarrow> join_session \<Rightarrow> join_result" where
  "handle_join_message E ck m j =
     (case m of
        M_Keepalive \<Rightarrow> go_on j
      | M_Shutdown \<Rightarrow> (Some SE_Menu, with_view (push_system ck (rs ''the host closed the room'')) j)
      | M_Error e \<Rightarrow>
          if is_admitted (jn_admission j) \<and> error_code_is_recoverable (em_code e) then recoverable_error ck e j
          else (Some (host_error e), j)
      | M_EpochWrap w \<Rightarrow> on_wrap E ck w j
      | M_ChatMessage env \<Rightarrow> on_chat E ck env j
      | M_ColorChange env \<Rightarrow> on_color E env j
      | M_TimeoutChanged env \<Rightarrow> on_timeout_changed E ck env j
      | M_MemberJoined _ \<Rightarrow> on_membership E ck m j
      | M_MemberLeft _ \<Rightarrow> on_membership E ck m j
      | M_MemberKicked _ \<Rightarrow> on_membership E ck m j
      | M_JoinPolicyChanged _ \<Rightarrow> on_membership E ck m j
      | M_MemberSnapshot _ \<Rightarrow> on_membership E ck m j
      | _ \<Rightarrow> on_handshake E ck m j)"

section \<open>An action of the user\<close>

text \<open>\<open>{color:?}\<close>.\<close>

fun color_debug :: "color_choice \<Rightarrow> rstring" where
  "color_debug Red = rs ''Red''"
| "color_debug Green = rs ''Green''"
| "color_debug Yellow = rs ''Yellow''"
| "color_debug Blue = rs ''Blue''"
| "color_debug Magenta = rs ''Magenta''"
| "color_debug Cyan = rs ''Cyan''"
| "color_debug White = rs ''White''"

text \<open>
  A message that the session seals: it is queued and then shown, or the error is shown. The actions of the
  user that send differ only in what they seal and show.
\<close>

definition seal_and_send :: "join_env \<Rightarrow> clock \<Rightarrow> (client_admission \<Rightarrow> (chat_error + message) \<times> client_admission) \<Rightarrow>
    (join_session \<Rightarrow> join_session) \<Rightarrow> join_session \<Rightarrow> join_result" where
  "seal_and_send E ck seal shown j =
     (case on_admission seal j of
        (Inr m, j1) \<Rightarrow> send_or_fail m (\<lambda>j2. go_on (shown j2)) j1
      | (Inl e, j1) \<Rightarrow> go_on (with_view (push_error ck (je_chat_text E e)) j1))"

definition submit_form :: "join_env \<Rightarrow> clock \<Rightarrow> rstring \<Rightarrow> rstring option \<Rightarrow> join_session \<Rightarrow> join_result" where
  "submit_form E ck nickname introduction j =
     (let j0 = j\<lparr>jn_app := show_join_pending (jn_app j), jn_own_nickname := Some nickname\<rparr>
      in case on_admission (client_join_request (je_nfc E) (je_crypto E) nickname introduction) j0 of
           (Inr join_message, j1) \<Rightarrow> send_or_fail join_message go_on (j1\<lparr>jn_stage_since := ck_instant ck\<rparr>)
         | (Inl _, j1) \<Rightarrow> go_on (j1\<lparr>jn_pending_form := Some (nickname, introduction)\<rparr>))"

definition chat_members :: "join_session \<Rightarrow> member_view list" where
  "chat_members j = (case ca_chat (jn_admission j) of Some s \<Rightarrow> cs_members s | None \<Rightarrow> [])"

definition whois_text :: "member_view \<Rightarrow> rstring" where
  "whois_text m =
     mv_nickname m @ rs '' (id '' @ dec (unat (mv_member_id m)) @ rs ''): '' @
     (if mv_is_host m then rs ''host'' else rs ''member'')"

definition on_whois :: "clock \<Rightarrow> rstring \<Rightarrow> join_session \<Rightarrow> join_session" where
  "on_whois ck target j =
     with_view
       (case List.find (\<lambda>m. mv_nickname m = target \<or> dec (unat (mv_member_id m)) = target) (chat_members j) of
          Some m \<Rightarrow> push_system ck (whois_text m)
        | None \<Rightarrow> push_error ck (rs ''no active member matches `'' @ target @ rs ''`'')) j"

definition on_join_command :: "join_env \<Rightarrow> clock \<Rightarrow> slash_command \<Rightarrow> join_session \<Rightarrow> join_result" where
  "on_join_command E ck command j =
     (case command of
        SC_Color color \<Rightarrow>
          seal_and_send E ck (client_send_color (je_crypto E) color)
            (\<lambda>j1. with_view (push_system ck (rs ''color changed to '' @ color_debug color))
                   (sync_join_members (j1\<lparr>jn_admission := set_own_color color (jn_admission j1)\<rparr>))) j
      | SC_List \<Rightarrow>
          go_on (with_view (push_system ck (dec (length (chat_members j)) @ rs '' active member(s)''))
            (sync_join_members j))
      | SC_Whois target \<Rightarrow> go_on (on_whois ck target j)
      | SC_TimeoutRequest seconds \<Rightarrow>
          seal_and_send E ck (client_send_timeout_request (je_crypto E) seconds)
            (with_view (push_system ck (rs ''requested a room timeout of '' @ dec (unat seconds) @ rs '' seconds''))) j
      | _ \<Rightarrow> go_on (with_view (push_error ck (rs ''that command is only available to the host'')) j))"

text \<open>\<open>copied\<close> is what the clipboard of the platform answered: the text of its error, if it failed.\<close>

definition copy_invitation_to_clipboard :: "clock \<Rightarrow> rstring option \<Rightarrow> room_view \<Rightarrow> room_view" where
  "copy_invitation_to_clipboard ck copied =
     (case copied of
        None \<Rightarrow> push_system ck (rs ''the full invitation was copied to the clipboard'')
      | Some e \<Rightarrow> push_error ck e)"

definition on_join_action :: "join_env \<Rightarrow> clock \<Rightarrow> rstring option \<Rightarrow> app_action \<Rightarrow> join_session \<Rightarrow> join_result" where
  "on_join_action E ck copied action j =
     (case action of
        AA_Quit \<Rightarrow> (Some SE_Quit, j)
      | AA_JoinFormSubmitted nickname introduction \<Rightarrow> submit_form E ck nickname introduction j
      | AA_Room (RUA_Chat t) \<Rightarrow> seal_and_send E ck (client_send_chat (je_crypto E) t) (with_view (push_own ck t)) j
      | AA_Room (RUA_Command command) \<Rightarrow> on_join_command E ck command j
      | AA_Room (RUA_Error t) \<Rightarrow> go_on (with_view (push_error ck t) j)
      | AA_Room (RUA_CopyInvitation uri) \<Rightarrow> go_on (with_view (copy_invitation_to_clipboard ck copied) j)
      | AA_Room RUA_Leave \<Rightarrow> (Some SE_Menu, j)
      | AA_Room RUA_Exit \<Rightarrow> (Some SE_Quit, j)
      | _ \<Rightarrow> go_on j)"

section \<open>The loop\<close>

definition is_quit_key :: "key_event \<Rightarrow> bool" where
  "is_quit_key key \<longleftrightarrow> only_control key \<and> ke_code key \<in> {KC_Char 0x63, KC_Char 0x43}"

text \<open>
  The branches. \<open>JB_Tick\<close> has what \<open>has_exited\<close> answered: an error text, or whether the Tor process is gone;
  \<open>JB_Message\<close> what the connection task reported: \<open>None\<close> is a closed channel, \<open>Some None\<close> the end of the
  connection; \<open>JB_Task\<close> stands for the connection task, which takes messages off the queue (\<open>taken\<close>) and
  may end. Drawing a turn may fail (\<open>JB_DrawFailed\<close>).
\<close>

datatype join_branch =
    JB_DrawFailed
  | JB_Tick duration "rstring + bool"
  | JB_Expiry duration
  | JB_KeysClosed
  | JB_Paste rstring
  | JB_Key clock "rstring option" key_event
  | JB_Message clock "message option option"
  | JB_Task nat bool

definition join_timed_out :: "join_env \<Rightarrow> duration \<Rightarrow> join_session \<Rightarrow> bool" where
  "join_timed_out E now j =
     (let kind = client_timeout_kind (jn_admission j);
          allowed = (if kind = TK_Keepalive then timeouts_get (je_timeouts E) kind * 3
                     else timeouts_get (je_timeouts E) kind);
          since = (if kind = TK_Keepalive then jn_last_seen j else jn_stage_since j)
      in allowed < now - since)"

definition join_tick :: "join_env \<Rightarrow> duration \<Rightarrow> rstring + bool \<Rightarrow> join_session \<Rightarrow> join_result" where
  "join_tick E now exited j =
     (case exited of
        Inr True \<Rightarrow> (Some (SE_Failed (rs ''Tor stopped unexpectedly'')), j)
      | Inl e \<Rightarrow> (Some (SE_Failed (rs ''Tor status failed: '' @ e)), j)
      | Inr False \<Rightarrow>
          if join_timed_out E now j then (Some (SE_Failed (rs ''the room connection timed out'')), j)
          else go_on j)"

definition on_network :: "join_env \<Rightarrow> clock \<Rightarrow> message option option \<Rightarrow> join_session \<Rightarrow> join_result" where
  "on_network E ck report j =
     (case Option.bind report id of
        None \<Rightarrow> (Some (SE_Failed (rs ''the room connection was lost'')), j)
      | Some m \<Rightarrow>
          (let j0 = j\<lparr>jn_last_seen := ck_instant ck\<rparr>; previous_kind = client_timeout_kind (jn_admission j0)
           in case handle_join_message E ck m j0 of
                (Some e, j1) \<Rightarrow> (Some e, j1)
              | (None, j1) \<Rightarrow>
                  go_on (if client_timeout_kind (jn_admission j1) \<noteq> previous_kind
                         then j1\<lparr>jn_stage_since := ck_instant ck\<rparr> else j1)))"

definition join_step :: "join_env \<Rightarrow> join_branch \<Rightarrow> join_session \<Rightarrow> join_result option" where
  "join_step E b j =
     (case b of
        JB_DrawFailed \<Rightarrow> Some (Some SE_Quit, j)
      | JB_Tick now exited \<Rightarrow> Some (join_tick E now exited j)
      | JB_Expiry now \<Rightarrow> Some (go_on (with_view (\<lambda>v. snd (tick_message_timeout now v)) j))
      | JB_KeysClosed \<Rightarrow> Some (Some SE_Menu, j)
      | JB_Paste t \<Rightarrow> map_option (\<lambda>a. go_on (j\<lparr>jn_app := a\<rparr>)) (on_paste t (jn_app j))
      | JB_Key ck copied key \<Rightarrow>
          if is_quit_key key then Some (Some SE_Quit, j)
          else map_option (\<lambda>(action, a). on_join_action E ck copied action (j\<lparr>jn_app := a\<rparr>)) (on_key ck key (jn_app j))
      | JB_Message ck report \<Rightarrow> Some (on_network E ck report j)
      | JB_Task taken alive \<Rightarrow>
          Some (go_on (j\<lparr>jn_peer := \<lparr>pc_outbound = drop taken (pc_outbound (jn_peer j)),
            pc_open = (pc_open (jn_peer j) \<and> alive)\<rparr>\<rparr>)))"

text \<open>The turns until the session ends.\<close>

fun join_loop :: "join_env \<Rightarrow> join_branch list \<Rightarrow> join_session \<Rightarrow> join_result option" where
  "join_loop E [] j = Some (go_on j)"
| "join_loop E (b # bs) j =
     (case join_step E b j of
        None \<Rightarrow> None
      | Some (Some e, j1) \<Rightarrow> Some (Some e, j1)
      | Some (None, j1) \<Rightarrow> join_loop E bs j1)"

text \<open>Before the loop: the connection is fresh, the hello is sent, the form is shown.\<close>

definition join_start :: "join_env \<Rightarrow> client_admission \<Rightarrow> app \<Rightarrow> duration \<Rightarrow> join_result" where
  "join_start E c a now =
     (case net_send (first_message c)
             \<lparr>jn_app = a, jn_admission = c, jn_peer = \<lparr>pc_outbound = [], pc_open = True\<rparr>, jn_pending_form = None,
              jn_own_nickname = None, jn_stage_since = now, jn_last_seen = now\<rparr> of
        (Inl e, j) \<Rightarrow> (Some (SE_Failed (rs ''the connection failed: '' @ je_send_text E e)), j)
      | (Inr _, j) \<Rightarrow> go_on (j\<lparr>jn_app := show_join_form (jn_app j)\<rparr>))"

section \<open>Around the loop\<close>

text \<open>
  Starting Tor behind its progress screen: whether the first drawing failed, the percentages that Tor
  reported with whether drawing each failed, and the error text of the start, if any.
\<close>

definition start_tor_with_progress :: "bool \<Rightarrow> (u8 \<times> bool) list \<Rightarrow> rstring option \<Rightarrow> app \<Rightarrow> session_end option \<times> app" where
  "start_tor_with_progress draw_failed observed outcome a =
     (let a1 = begin_tor_connection a
      in if draw_failed then (Some SE_Quit, a1)
         else
           let (a2, render_failed) =
             fold (\<lambda>(progress, failed) (a, f). (set_tor_progress progress a, f \<or> failed)) observed (a1, False)
           in if render_failed then (Some SE_Quit, a2)
              else (map_option (\<lambda>e. SE_Failed (rs ''Tor could not be started: '' @ e)) outcome, a2))"

text \<open>What a join session meets outside the program: error texts where a step fails.\<close>

record join_world =
  jw_prepare :: "rstring option"
  jw_draw_failed :: bool
  jw_progress :: "(u8 \<times> bool) list"
  jw_start :: "rstring option"
  jw_connect :: "rstring option"
  jw_entropy :: entropy
  jw_now :: duration
  jw_branches :: "join_branch list"
  jw_uri_text :: "uri_error \<Rightarrow> rstring"
  jw_crypto_text :: "crypto_error \<Rightarrow> rstring"

definition join_session_body :: "join_env \<Rightarrow> join_branch list \<Rightarrow> client_admission \<Rightarrow> app \<Rightarrow> duration \<Rightarrow>
    (session_end option \<times> app) option" where
  "join_session_body E bs c a now =
     (case join_start E c a now of
        (Some e, j) \<Rightarrow> Some (Some e, jn_app j)
      | (None, j) \<Rightarrow> map_option (\<lambda>(e, j1). (e, jn_app j1)) (join_loop E bs j))"

definition run_join_session :: "uri_env \<Rightarrow> join_env \<Rightarrow> join_world \<Rightarrow> rstring \<Rightarrow> bytes \<Rightarrow> app \<Rightarrow>
    (session_end option \<times> app) option" where
  "run_join_session U E W invitation_text password a =
     (case parse_invitation U invitation_text of
        Inl e \<Rightarrow> Some (Some (SE_Failed (rs ''The invitation is invalid: '' @ jw_uri_text W e)), a)
      | Inr invitation \<Rightarrow>
          (case jw_prepare W of
             Some e \<Rightarrow> Some (Some (SE_Failed (rs ''Tor could not be prepared: '' @ e)), a)
           | None \<Rightarrow>
               (case start_tor_with_progress (jw_draw_failed W) (jw_progress W) (jw_start W) a of
                  (Some e, a1) \<Rightarrow> Some (Some e, a1)
                | (None, a1) \<Rightarrow>
                    (case jw_connect W of
                       Some e \<Rightarrow> Some (Some (SE_Failed (rs ''the room could not be reached: '' @ e)), a1)
                     | None \<Rightarrow>
                         (case client_admission_new invitation password (jw_entropy W) of
                            Inl e \<Rightarrow>
                              Some (Some (SE_Failed (rs ''the client session could not be created: '' @ jw_crypto_text W e)), a1)
                          | Inr admission \<Rightarrow> join_session_body E (jw_branches W) admission a1 (jw_now W))))))"

text \<open>
  The menu: how it is left (\<open>Ok(true)\<close>, \<open>Ok(false)\<close>, \<open>Err\<close>), and one turn, in which \<open>sessions\<close> is what the
  session that an action starts does to the application.
\<close>

datatype menu_exit = ME_Quit | ME_Closed | ME_RenderFailed

datatype menu_input = MI_DrawFailed | MI_Closed | MI_Paste rstring | MI_Key clock key_event

definition finish_session :: "session_end \<times> app \<Rightarrow> menu_exit option \<times> app" where
  "finish_session r =
     (case r of
        (SE_Quit, a) \<Rightarrow> (Some ME_Quit, a)
      | (SE_Failed message, a) \<Rightarrow> (None, show_message message a)
      | (SE_Menu, a) \<Rightarrow> (None, back_to_menu a))"

definition menu_turn :: "(app_action \<Rightarrow> app \<Rightarrow> session_end \<times> app) \<Rightarrow> menu_input \<Rightarrow> app \<Rightarrow>
    (menu_exit option \<times> app) option" where
  "menu_turn sessions input a =
     (case input of
        MI_DrawFailed \<Rightarrow> Some (Some ME_RenderFailed, a)
      | MI_Closed \<Rightarrow> Some (Some ME_Closed, a)
      | MI_Paste t \<Rightarrow> map_option (\<lambda>a1. (None, a1)) (on_paste t a)
      | MI_Key ck key \<Rightarrow>
          if is_quit_key key then Some (Some ME_Quit, a)
          else map_option (\<lambda>(action, a1).
                 case action of
                   AA_Quit \<Rightarrow> (Some ME_Quit, a1)
                 | AA_HostSetupSubmitted _ _ \<Rightarrow> finish_session (sessions action a1)
                 | AA_JoinSetupSubmitted _ _ \<Rightarrow> finish_session (sessions action a1)
                 | _ \<Rightarrow> (None, a1)) (on_key ck key a))"

end
