(* ===== verification/AdmissionRules.thy ===== *)
theory AdmissionRules
  imports Admission
begin

text \<open>
  What the admission flow guarantees to either side: runs of one connection with any inputs, in any
  order, and the exchange between an honest host and an honest participant.
\<close>

section \<open>The host vets every application\<close>

datatype host_input = HI_Hello client_hello u16 | HI_Message message join_policy

datatype host_output =
    HO_Hello "admission_error + message"
  | HO_Reply "admission_error + host_admission_reply option"

definition host_step :: "crypto \<Rightarrow> kdf \<Rightarrow> host_input \<Rightarrow> host_admission \<Rightarrow> host_output \<times> host_admission" where
  "host_step C K i h =
     (case i of
        HI_Hello hello port \<Rightarrow> (case on_client_hello C hello port h of (r, h') \<Rightarrow> (HO_Hello r, h'))
      | HI_Message msg policy \<Rightarrow> (case host_on_message C K msg policy h of (r, h') \<Rightarrow> (HO_Reply r, h')))"

type_synonym host_history = "(host_input \<times> host_output) list"

definition host_run :: "crypto \<Rightarrow> kdf \<Rightarrow> host_input list \<Rightarrow> host_admission \<Rightarrow> host_history \<times> host_admission" where
  "host_run C K ins h0 =
     fold (\<lambda>i (hist, h). case host_step C K i h of (out, h') \<Rightarrow> (hist @ [(i, out)], h')) ins ([], h0)"

fun is_application :: "host_input \<times> host_output \<Rightarrow> bool" where
  "is_application (_, HO_Reply (Inr (Some (HR_JoinRequested _)))) \<longleftrightarrow> True"
| "is_application _ \<longleftrightarrow> False"

text \<open>The four exchanges that lead to an application.\<close>

definition hello_accepted :: "bytes \<Rightarrow> host_input \<times> host_output \<Rightarrow> bool" where
  "hello_accepted client_nonce x \<longleftrightarrow>
     (\<exists>hello port m. x = (HI_Hello hello port, HO_Hello (Inr m)) \<and> ch_version hello = 1 \<and>
        ch_features hello = 0 \<and> ch_client_nonce hello = client_nonce)"

definition token_accepted :: "bytes \<Rightarrow> bytes \<Rightarrow> host_input \<times> host_output \<Rightarrow> bool" where
  "token_accepted token challenge_nonce x \<longleftrightarrow>
     (\<exists>policy challenge.
        x = (HI_Message (M_TokenVerify \<lparr>tv_token = token\<rparr>) policy,
             HO_Reply (Inr (Some (HR_Message (M_PasswordChallenge challenge))))) \<and>
        pc_challenge_nonce challenge = challenge_nonce)"

definition proof_accepted :: "bytes \<Rightarrow> host_input \<times> host_output \<Rightarrow> bool" where
  "proof_accepted proof x \<longleftrightarrow>
     (\<exists>policy. x = (HI_Message (M_ChallengeProof \<lparr>cp_proof = proof\<rparr>) policy, HO_Reply (Inr None)))"

definition join_accepted_as :: "join_request_msg \<Rightarrow> host_input \<times> host_output \<Rightarrow> bool" where
  "join_accepted_as request x \<longleftrightarrow>
     x = (HI_Message (M_JoinRequest request) JP_Open,
          HO_Reply (Inr (Some (HR_JoinRequested (application_of request)))))"

definition join_request_valid :: "crypto \<Rightarrow> host_admission \<Rightarrow> bytes \<Rightarrow> join_request_msg \<Rightarrow> bool" where
  "join_request_valid C h client_nonce request \<longleftrightarrow>
     verify_ed25519 C (jr_ed25519_pubkey request)
       (join_request_transcript (join_input C request client_nonce h)) (jr_signature request) \<and>
     (\<exists>k. try_wrap_key_for C (ha_host_identity h) (jr_x25519_pubkey request) (ha_room_session_id h) 0 = Inr k)"

lemma which_application:
  "hello_accepted cn x \<Longrightarrow> \<not> is_application x" "token_accepted t chn x \<Longrightarrow> \<not> is_application x"
  "proof_accepted pr x \<Longrightarrow> \<not> is_application x" "join_accepted_as q x \<Longrightarrow> is_application x"
  by (auto simp: hello_accepted_def token_accepted_def proof_accepted_def join_accepted_as_def)

text \<open>What the state of the flow says about the exchanges so far.\<close>

definition same_flow :: "host_admission \<Rightarrow> host_admission \<Rightarrow> bool" where
  "same_flow h0 h \<longleftrightarrow>
     ha_room_session_id h = ha_room_session_id h0 \<and> ha_server_nonce h = ha_server_nonce h0 \<and>
     ha_verifier h = ha_verifier h0 \<and> ha_host_identity h = ha_host_identity h0 \<and>
     ha_onion_address h = ha_onion_address h0"

definition progress :: "crypto \<Rightarrow> kdf \<Rightarrow> host_admission \<Rightarrow> host_admission \<Rightarrow> host_history \<Rightarrow> bool" where
  "progress C K h0 h xs \<longleftrightarrow>
     (case ha_state h of
        HS_AwaitingHello \<Rightarrow> xs = []
      | HS_AwaitingToken \<Rightarrow>
          (\<exists>cn x. xs = [x] \<and> ha_client_nonce h = Some cn \<and> hello_accepted cn x)
      | HS_AwaitingProof \<Rightarrow>
          (\<exists>cn chn x y. xs = [x, y] \<and> ha_client_nonce h = Some cn \<and> ha_challenge_nonce h = Some chn \<and>
             hello_accepted cn x \<and> token_accepted (ha_token h0) chn y)
      | HS_AwaitingJoinForm \<Rightarrow>
          (\<exists>cn chn x y z. xs = [x, y, z] \<and> ha_client_nonce h = Some cn \<and> hello_accepted cn x \<and>
             token_accepted (ha_token h0) chn y \<and>
             proof_accepted (expected_proof K (ha_verifier h0) chn cn) z)
      | HS_Decided \<Rightarrow>
          (\<exists>cn chn x y z w request. xs = [x, y, z, w] \<and> hello_accepted cn x \<and>
             token_accepted (ha_token h0) chn y \<and>
             proof_accepted (expected_proof K (ha_verifier h0) chn cn) z \<and>
             join_accepted_as request w \<and> join_request_valid C h0 cn request))"

definition vetted :: "crypto \<Rightarrow> kdf \<Rightarrow> host_admission \<Rightarrow> host_history \<times> host_admission \<Rightarrow> bool" where
  "vetted C K h0 r \<longleftrightarrow>
     (case r of (hist, h) \<Rightarrow>
        same_flow h0 h \<and> (ha_state h \<noteq> HS_Decided \<longrightarrow> ha_token h = ha_token h0) \<and>
        (\<exists>xs. progress C K h0 h xs \<and> subseq xs hist \<and>
              filter is_application hist = filter is_application xs))"

lemma subseq_snoc: "subseq xs ys \<Longrightarrow> subseq xs (ys @ [y])" "subseq xs ys \<Longrightarrow> subseq (xs @ [y]) (ys @ [y])"
  by (auto intro: subseq_order.trans)

lemma vetted_stutter:
  assumes "vetted C K h0 (hist, h)" and "\<not> is_application x"
    and "ha_state h' = ha_state h" "ha_token h' = ha_token h" "ha_client_nonce h' = ha_client_nonce h"
      "ha_challenge_nonce h' = ha_challenge_nonce h" "same_flow h h'"
  shows "vetted C K h0 (hist @ [x], h')"
proof -
  from assms(1) obtain xs where "progress C K h0 h xs" "subseq xs hist"
    "filter is_application hist = filter is_application xs"
    and "same_flow h0 h" "ha_state h \<noteq> HS_Decided \<longrightarrow> ha_token h = ha_token h0"
    by (auto simp: vetted_def)
  moreover have "progress C K h0 h' xs = progress C K h0 h xs"
    unfolding progress_def assms(3,5,6) ..
  ultimately show ?thesis
    using assms(2-4,7) subseq_snoc(1) by (auto simp: vetted_def same_flow_def)
qed

lemma vetted_advance:
  assumes "vetted C K h0 (hist, h)" and "same_flow h h'"
    and "ha_state h' \<noteq> HS_Decided \<Longrightarrow> ha_token h' = ha_token h \<and> ha_state h \<noteq> HS_Decided"
    and "\<And>xs. progress C K h0 h xs \<Longrightarrow> progress C K h0 h' (xs @ [x])"
  shows "vetted C K h0 (hist @ [x], h')"
proof -
  from assms(1) obtain xs where xs: "progress C K h0 h xs" "subseq xs hist"
    "filter is_application hist = filter is_application xs"
    and "same_flow h0 h" "ha_state h \<noteq> HS_Decided \<longrightarrow> ha_token h = ha_token h0"
    by (auto simp: vetted_def)
  moreover have "filter is_application (hist @ [x]) = filter is_application (xs @ [x])" using xs(3) by simp
  ultimately show ?thesis
    using assms(2,3) assms(4) [OF xs(1)] subseq_snoc(2) [OF xs(2), of x]
    unfolding vetted_def same_flow_def prod.case by metis
qed

lemma same_flow_refl: "same_flow h h"
  by (simp add: same_flow_def)

lemma join_input_same_flow:
  "same_flow h0 h \<Longrightarrow> ha_token h = ha_token h0 \<Longrightarrow> join_input C r cn h = join_input C r cn h0"
  by (simp add: join_input_def same_flow_def)

lemma hello_step_vetted:
  assumes "vetted C K h0 (hist, h)" and "on_client_hello C hello port h = (r, h')"
  shows "vetted C K h0 (hist @ [(HI_Hello hello port, HO_Hello r)], h')"
proof (cases "r \<in> range Inl")
  case True
  with assms(2) have "h' = h" by (auto simp: on_client_hello_def split: if_splits)
  with assms(1) show ?thesis by (simp add: vetted_stutter same_flow_refl)
next
  case False
  with assms(2) obtain m where st: "ha_state h = HS_AwaitingHello" "ch_version hello = 1" "ch_features hello = 0"
    and r: "r = Inr m"
    and h': "h' = h\<lparr>ha_client_nonce := Some (ch_client_nonce hello), ha_state := HS_AwaitingToken\<rparr>"
    by (auto simp: on_client_hello_def split: if_splits)
  show ?thesis
    by (rule vetted_advance [OF assms(1)])
      (auto simp: h' r st same_flow_def progress_def hello_accepted_def)
qed

lemma message_step_vetted:
  assumes "vetted C K h0 (hist, h)" and "host_on_message C K msg policy h = (r, h')"
  shows "vetted C K h0 (hist @ [(HI_Message msg policy, HO_Reply r)], h')"
proof (cases r)
  case (Inl e)
  with assms(2) have "h' = h \<or> (\<exists>es. h' = h\<lparr>ha_entropy := es\<rparr>)"
    by (auto simp: host_on_message_def handle_token_def handle_proof_def handle_join_request_def
        split: host_state.splits message.splits if_splits option.splits sum.splits prod.splits)
  with assms(1) Inl show ?thesis by (auto intro!: vetted_stutter [of C K h0 hist h] simp: same_flow_def)
next
  case (Inr a)
  have sf: "same_flow h0 h" "ha_state h \<noteq> HS_Decided \<Longrightarrow> ha_token h = ha_token h0"
    using assms(1) by (auto simp: vetted_def)
  consider (token) t where "ha_state h = HS_AwaitingToken" "msg = M_TokenVerify t" "handle_token t h = (r, h')"
    | (pw) p where "ha_state h = HS_AwaitingProof" "msg = M_ChallengeProof p" "handle_proof K p h = (r, h')"
    | (join) q where "ha_state h = HS_AwaitingJoinForm" "msg = M_JoinRequest q"
        "handle_join_request C q policy h = (r, h')"
    using assms(2) Inr by (cases "ha_state h"; cases msg) (simp_all add: host_on_message_def)
  then show ?thesis
  proof cases
    case token
    obtain n es where tv: "tv_token t = ha_token h" and h': "h' = h\<lparr>ha_challenge_nonce := Some n,
        ha_state := HS_AwaitingProof, ha_entropy := es\<rparr>"
      and a: "a = Some (HR_Message (M_PasswordChallenge
         \<lparr>pc_m_cost = pv_m_cost (ha_verifier h), pc_t_cost = pv_t_cost (ha_verifier h),
          pc_p_cost = pv_p_cost (ha_verifier h), pc_salt = pv_salt (ha_verifier h), pc_challenge_nonce = n\<rparr>))"
      using token(3) Inr by (auto simp: handle_token_def split: if_splits sum.splits prod.splits)
    have "t = \<lparr>tv_token = ha_token h0\<rparr>" using tv sf(2) token(1) by (cases t) simp
    then show ?thesis
      by (intro vetted_advance [OF assms(1)])
        (auto simp: h' a Inr token(1,2) same_flow_def progress_def token_accepted_def)
  next
    case pw
    obtain cn chn where n: "ha_client_nonce h = Some cn" "ha_challenge_nonce h = Some chn"
      and p: "cp_proof p = expected_proof K (ha_verifier h) chn cn" and h': "h' = h\<lparr>ha_state := HS_AwaitingJoinForm\<rparr>"
      and a: "a = None"
      using pw(3) Inr by (auto simp: handle_proof_def verify_proof_def split: if_splits option.splits)
    have "p = \<lparr>cp_proof = expected_proof K (ha_verifier h0) chn cn\<rparr>"
      using p sf(1) by (cases p) (simp add: same_flow_def)
    then show ?thesis
      by (intro vetted_advance [OF assms(1)])
        (auto simp: h' a n Inr pw(1,2) same_flow_def progress_def proof_accepted_def)
  next
    case join
    obtain cn k where n: "ha_client_nonce h = Some cn" and pol: "allows_join_requests policy"
      and v: "verify_ed25519 C (jr_ed25519_pubkey q) (join_request_transcript (join_input C q cn h)) (jr_signature q)"
        "try_wrap_key_for C (ha_host_identity h) (jr_x25519_pubkey q) (ha_room_session_id h) 0 = Inr k"
      and h': "h' = h\<lparr>ha_state := HS_Decided, ha_token := []\<rparr>"
      and a: "a = Some (HR_JoinRequested (application_of q))"
      using join(3) Inr by (auto simp: handle_join_request_def split: if_splits option.splits sum.splits)
    have "policy = JP_Open" using pol by (cases policy) (simp_all add: allows_join_requests_def)
    moreover have "join_request_valid C h0 cn q"
      using v sf(1) join_input_same_flow [OF sf(1), of C q cn] sf(2) join(1)
      by (auto simp: join_request_valid_def same_flow_def)
    ultimately show ?thesis
      by (intro vetted_advance [OF assms(1)])
        (fastforce simp: h' a n Inr join(1,2) same_flow_def progress_def join_accepted_as_def)+
  qed
qed

lemma host_run_vetted:
  assumes "host_admission_new session token v host onion es = Inr h0"
  shows "vetted C K h0 (host_run C K ins h0)"
proof (induction ins rule: rev_induct)
  case Nil
  have "ha_state h0 = HS_AwaitingHello"
    using assms by (auto simp: host_admission_new_def split: sum.splits prod.splits)
  then show ?case by (simp add: host_run_def vetted_def same_flow_refl progress_def)
next
  case (snoc i ins)
  obtain hist h where r: "host_run C K ins h0 = (hist, h)" by (cases "host_run C K ins h0")
  have "host_run C K (ins @ [i]) h0 = (case host_step C K i h of (out, h') \<Rightarrow> (hist @ [(i, out)], h'))"
    using r by (simp add: host_run_def)
  with snoc r show ?case
    by (cases i) (auto simp: host_step_def hello_step_vetted message_step_vetted split: prod.splits)
qed

section \<open>The honest exchange\<close>

lemma wrap_key_exists:
  assumes "crypto_ok C"
  shows "\<exists>k. try_wrap_key_for C i (identity_x25519_pubkey C j) session m = Inr k"
  using assms by (simp add: try_wrap_key_for_def derive_checked_def identity_x25519_pubkey_def crypto_ok_def)

lemma own_signature_verifies:
  "crypto_ok C \<Longrightarrow> verify_ed25519 C (identity_ed25519_pubkey C i) m (identity_sign C i m)"
  by (simp add: verify_ed25519_def identity_ed25519_pubkey_def identity_sign_def crypto_ok_def)

lemma session_new_entropy: "cs_entropy (session_new session ed x k es) = es"
  by (simp add: session_new_def)

text \<open>
  Each lemma is one message of the exchange: what the sender's method returns and what the other
  side makes of it.
\<close>

lemma hello_exchange:
  assumes C: "crypto_ok C" and "ha_state h = HS_AwaitingHello" and "ca_state c = CS_AwaitingHostHello"
    and "ca_invitation c = \<lparr>inv_onion_address = ha_onion_address h, inv_port = port, inv_token = ha_token h\<rparr>"
    and "MIN_TOKEN_BYTES \<le> length (ha_token h)" "length (ha_token h) \<le> MAX_TOKEN_BYTES"
  shows "\<exists>m info. on_client_hello C \<lparr>ch_version = 1, ch_client_nonce = ca_client_nonce c, ch_features = 0\<rparr> port h =
      (Inr m, h\<lparr>ha_client_nonce := Some (ca_client_nonce c), ha_state := HS_AwaitingToken\<rparr>) \<and>
    on_host_message C K m c = (Inr [M_TokenVerify \<lparr>tv_token = ha_token h\<rparr>],
      c\<lparr>ca_server_nonce := Some (ha_server_nonce h), ca_host_hello := Some info, ca_state := CS_AwaitingChallenge\<rparr>) \<and>
    hhi_room_session_id info = ha_room_session_id h \<and>
    hhi_host_ed25519_pubkey info = identity_ed25519_pubkey C (ha_host_identity h) \<and>
    hhi_host_x25519_pubkey info = identity_x25519_pubkey C (ha_host_identity h)"
proof -
  obtain k where "try_wrap_key_for C (ca_identity c) (identity_x25519_pubkey C (ha_host_identity h))
      (ha_room_session_id h) 0 = Inr k"
    using wrap_key_exists [OF C] by blast
  moreover define sig where "sig = identity_sign C (ha_host_identity h) (host_hello_transcript
      (hello_input C \<lparr>ch_version = 1, ch_client_nonce = ca_client_nonce c, ch_features = 0\<rparr> port h))"
  moreover from this have "verify_ed25519 C (identity_ed25519_pubkey C (ha_host_identity h)) (host_hello_transcript
      (hello_input C \<lparr>ch_version = 1, ch_client_nonce = ca_client_nonce c, ch_features = 0\<rparr> port h)) sig"
    using own_signature_verifies [OF C] by simp
  ultimately show ?thesis
    using assms
    by (intro exI [of _ "M_HostHello \<lparr>hh_version = 1, hh_room_session_id = ha_room_session_id h,
            hh_host_ed25519_pubkey = identity_ed25519_pubkey C (ha_host_identity h),
            hh_host_x25519_pubkey = identity_x25519_pubkey C (ha_host_identity h),
            hh_server_nonce = ha_server_nonce h, hh_host_signature = sig\<rparr>"]
          exI [of _ "\<lparr>hhi_room_session_id = ha_room_session_id h,
            hhi_host_ed25519_pubkey = identity_ed25519_pubkey C (ha_host_identity h),
            hhi_host_x25519_pubkey = identity_x25519_pubkey C (ha_host_identity h), hhi_signature = sig\<rparr>"])
      (simp add: on_client_hello_def on_host_message_def handle_host_hello_def hello_input_def expected_hello_def
        token_verify_new_def MIN_TOKEN_BYTES_def MAX_TOKEN_BYTES_def)
qed

lemma password_exchange:
  assumes C: "crypto_ok C" and "ha_state h = HS_AwaitingToken" and "ha_client_nonce h = Some (ca_client_nonce c)"
    and "verifier_derive K (ca_password c) es = (Inr (ha_verifier h), es')"
    and "fill_random NONCE_LEN (ha_entropy h) = (Inr nonce, es2)"
    and "ca_state c = CS_AwaitingChallenge"
  shows "\<exists>m m'. host_on_message C K (M_TokenVerify \<lparr>tv_token = ha_token h\<rparr>) policy h =
      (Inr (Some (HR_Message m)), h\<lparr>ha_challenge_nonce := Some nonce, ha_state := HS_AwaitingProof, ha_entropy := es2\<rparr>) \<and>
    on_host_message C K m c = (Inr [m'], c\<lparr>ca_password := [], ca_state := CS_AwaitingJoinForm\<rparr>) \<and>
    host_on_message C K m' policy' (h\<lparr>ha_challenge_nonce := Some nonce, ha_state := HS_AwaitingProof, ha_entropy := es2\<rparr>) =
      (Inr None, h\<lparr>ha_challenge_nonce := Some nonce, ha_state := HS_AwaitingJoinForm, ha_entropy := es2\<rparr>)"
proof -
  note v = verifier_derive_Inr [OF assms(4)]
  then have "compute_password_proof K (ca_password c) (pv_salt (ha_verifier h)) ARGON2_M_COST ARGON2_T_COST
      ARGON2_P_COST nonce (ca_client_nonce c) = Inr (expected_proof K (ha_verifier h) nonce (ca_client_nonce c))"
    by (simp add: derived_key_proves)
  with assms(2-) v show ?thesis
    by (simp add: host_on_message_def handle_token_def on_host_message_def handle_challenge_def handle_proof_def
        verify_proof_def)
qed

lemma application_exchange:
  assumes C: "crypto_ok C" and "ha_state h = HS_AwaitingJoinForm" and "ha_client_nonce h = Some (ca_client_nonce c)"
    and "ca_state c = CS_AwaitingJoinForm" and "ca_server_nonce c = Some (ha_server_nonce h)"
    and "ca_host_hello c = Some info" and "hhi_room_session_id info = ha_room_session_id h"
    and "inv_onion_address (ca_invitation c) = ha_onion_address h" and "inv_token (ca_invitation c) = ha_token h"
    and "validate_nickname nfc nickname default_limits = Inr n" and "nfc n = n"
    and "case introduction of Some s \<Rightarrow> validate_intro s default_limits = Inr () | None \<Rightarrow> True"
  shows "\<exists>request. client_join_request nfc C nickname introduction c =
      (Inr (M_JoinRequest request), c\<lparr>ca_state := CS_AwaitingDecision\<rparr>) \<and>
    host_on_message C K (M_JoinRequest request) JP_Open h =
      (Inr (Some (HR_JoinRequested (application_of request))), h\<lparr>ha_state := HS_Decided, ha_token := []\<rparr>) \<and>
    jr_nickname request = n \<and> jr_introduction request = introduction \<and>
    jr_ed25519_pubkey request = identity_ed25519_pubkey C (ca_identity c) \<and>
    jr_x25519_pubkey request = identity_x25519_pubkey C (ca_identity c)"
proof -
  obtain k where "try_wrap_key_for C (ha_host_identity h) (identity_x25519_pubkey C (ca_identity c))
      (ha_room_session_id h) 0 = Inr k"
    using wrap_key_exists [OF C] by blast
  then show ?thesis
    using assms own_signature_verifies [OF C] validate_nickname_again [OF assms(10,11)]
    by (cases introduction)
      (simp_all add: client_join_request_def join_request_new_def Let_def host_on_message_def handle_join_request_def
        join_input_def allows_join_requests_def)
qed

text \<open>
  C12: the admission handshake works. If host and participant use the same password and the
  participant holds the room's invitation, then every message of the exchange is answered as
  intended: the participant authenticates the host, passes the token and the password check, and
  the host gets an application with the canonical nickname, the introduction and the participant's
  keys. When the host then accepts, the participant has a chat session for this room, pinned to the
  host's keys.
\<close>

theorem handshake_completes:
  assumes "crypto_ok C" and "verifier_derive K password es1 = (Inr v, es1')"
    and host: "host_admission_new session token v host onion es2 = Inr h0"
    and random: "fill_random NONCE_LEN (ha_entropy h0) = (Inr nonce, es2')"
    and participant: "client_admission_new \<lparr>inv_onion_address = onion, inv_port = port, inv_token = token\<rparr> password es3 = Inr c0"
    and "MIN_TOKEN_BYTES \<le> length token" "length token \<le> MAX_TOKEN_BYTES"
    and "validate_nickname nfc nickname default_limits = Inr n" and "nfc n = n"
    and "case introduction of Some s \<Rightarrow> validate_intro s default_limits = Inr () | None \<Rightarrow> True"
  shows "\<exists>hello m1 h1 m2 c1 m3 h2 m4 c2 h3 m5 c3 application h4 c4 s.
    first_message c0 = M_ClientHello hello \<and>
    on_client_hello C hello port h0 = (Inr m1, h1) \<and>
    on_host_message C K m1 c0 = (Inr [m2], c1) \<and>
    host_on_message C K m2 policy h1 = (Inr (Some (HR_Message m3)), h2) \<and>
    on_host_message C K m3 c1 = (Inr [m4], c2) \<and>
    host_on_message C K m4 policy' h2 = (Inr None, h3) \<and>
    client_join_request nfc C nickname introduction c2 = (Inr m5, c3) \<and>
    host_on_message C K m5 JP_Open h3 = (Inr (Some (HR_JoinRequested application)), h4) \<and>
    ap_nickname application = n \<and> ap_introduction application = introduction \<and>
    ap_ed25519_pubkey application = identity_ed25519_pubkey C (ca_identity c0) \<and>
    ap_x25519_pubkey application = identity_x25519_pubkey C (ca_identity c0) \<and>
    on_host_message C K (host_accept member_id h4) c3 = (Inr [], c4) \<and>
    is_admitted c4 \<and> ca_identity c4 = ca_identity c0 \<and> ca_chat c4 = Some s \<and>
    s = session_new session (identity_ed25519_pubkey C host) (identity_x25519_pubkey C host) member_id (cs_entropy s)"
proof -
  obtain sn es2'' where h0: "h0 = \<lparr>ha_room_session_id = session, ha_server_nonce = sn, ha_token = token,
      ha_verifier = v, ha_host_identity = host, ha_onion_address = onion, ha_client_nonce = None,
      ha_challenge_nonce = None, ha_state = HS_AwaitingHello, ha_entropy = es2''\<rparr>"
    using host by (auto simp: host_admission_new_def split: sum.splits prod.splits)
  obtain i cn es3' where c0: "c0 = \<lparr>ca_invitation = \<lparr>inv_onion_address = onion, inv_port = port, inv_token = token\<rparr>,
      ca_password = password, ca_identity = i, ca_client_nonce = cn, ca_server_nonce = None,
      ca_host_hello = None, ca_member_id = None, ca_chat = None, ca_state = CS_AwaitingHostHello, ca_entropy = es3'\<rparr>"
    using participant by (auto simp: client_admission_new_def split: sum.splits prod.splits)
  let ?h1 = "h0\<lparr>ha_client_nonce := Some cn, ha_state := HS_AwaitingToken\<rparr>"
  let ?h2 = "?h1\<lparr>ha_challenge_nonce := Some nonce, ha_state := HS_AwaitingProof, ha_entropy := es2'\<rparr>"
  let ?h3 = "?h1\<lparr>ha_challenge_nonce := Some nonce, ha_state := HS_AwaitingJoinForm, ha_entropy := es2'\<rparr>"
  obtain m1 info where 1: "on_client_hello C \<lparr>ch_version = 1, ch_client_nonce = cn, ch_features = 0\<rparr> port h0 = (Inr m1, ?h1)"
    "on_host_message C K m1 c0 = (Inr [M_TokenVerify \<lparr>tv_token = token\<rparr>],
      c0\<lparr>ca_server_nonce := Some sn, ca_host_hello := Some info, ca_state := CS_AwaitingChallenge\<rparr>)"
    and info: "hhi_room_session_id info = session" "hhi_host_ed25519_pubkey info = identity_ed25519_pubkey C host"
    "hhi_host_x25519_pubkey info = identity_x25519_pubkey C host"
    using hello_exchange [OF assms(1), of h0 c0 port K] assms(6,7) by (auto simp: h0 c0)
  let ?c1 = "c0\<lparr>ca_server_nonce := Some sn, ca_host_hello := Some info, ca_state := CS_AwaitingChallenge\<rparr>"
  let ?c2 = "?c1\<lparr>ca_password := [], ca_state := CS_AwaitingJoinForm\<rparr>"
  obtain m3 m4 where 2: "host_on_message C K (M_TokenVerify \<lparr>tv_token = token\<rparr>) policy ?h1 = (Inr (Some (HR_Message m3)), ?h2)"
    "on_host_message C K m3 ?c1 = (Inr [m4], ?c2)" "host_on_message C K m4 policy' ?h2 = (Inr None, ?h3)"
    using password_exchange [OF assms(1), of ?h1 ?c1 K es1 es1' nonce es2' policy policy'] assms(2) random by (auto simp: h0 c0)
  obtain request where 3: "client_join_request nfc C nickname introduction ?c2 =
      (Inr (M_JoinRequest request), ?c2\<lparr>ca_state := CS_AwaitingDecision\<rparr>)"
    "host_on_message C K (M_JoinRequest request) JP_Open ?h3 =
      (Inr (Some (HR_JoinRequested (application_of request))), ?h3\<lparr>ha_state := HS_Decided, ha_token := []\<rparr>)"
    and r: "jr_nickname request = n" "jr_introduction request = introduction"
    "jr_ed25519_pubkey request = identity_ed25519_pubkey C (ca_identity c0)"
    "jr_x25519_pubkey request = identity_x25519_pubkey C (ca_identity c0)"
    using application_exchange [OF assms(1), of ?h3 ?c2 info nfc nickname n introduction K] assms(8-10) info
    by (auto simp: h0 c0)
  let ?c3 = "?c2\<lparr>ca_state := CS_AwaitingDecision\<rparr>"
  let ?s = "session_new session (identity_ed25519_pubkey C host) (identity_x25519_pubkey C host) member_id es3'"
  have 4: "on_host_message C K (host_accept member_id h) ?c3 =
      (Inr [], ?c3\<lparr>ca_member_id := Some member_id, ca_state := CS_Admitted, ca_chat := Some ?s\<rparr>)" for h
    using info by (simp add: on_host_message_def host_accept_def handle_accepted_def Let_def c0)
  show ?thesis
  proof (intro exI conjI)
    show "first_message c0 = M_ClientHello \<lparr>ch_version = 1, ch_client_nonce = cn, ch_features = 0\<rparr>"
      by (simp add: c0 first_message_def)
    show "on_client_hello C \<lparr>ch_version = 1, ch_client_nonce = cn, ch_features = 0\<rparr> port h0 = (Inr m1, ?h1)"
      by (rule 1)
    show "on_host_message C K m1 c0 = (Inr [M_TokenVerify \<lparr>tv_token = token\<rparr>], ?c1)" by (rule 1)
    show "host_on_message C K (M_TokenVerify \<lparr>tv_token = token\<rparr>) policy ?h1 = (Inr (Some (HR_Message m3)), ?h2)"
      by (rule 2)
    show "on_host_message C K m3 ?c1 = (Inr [m4], ?c2)" by (rule 2)
    show "host_on_message C K m4 policy' ?h2 = (Inr None, ?h3)" by (rule 2)
    show "client_join_request nfc C nickname introduction ?c2 = (Inr (M_JoinRequest request), ?c3)" by (rule 3)
    show "host_on_message C K (M_JoinRequest request) JP_Open ?h3 =
      (Inr (Some (HR_JoinRequested (application_of request))), ?h3\<lparr>ha_state := HS_Decided, ha_token := []\<rparr>)"
      by (rule 3)
    show "on_host_message C K (host_accept member_id (?h3\<lparr>ha_state := HS_Decided, ha_token := []\<rparr>)) ?c3 =
      (Inr [], ?c3\<lparr>ca_member_id := Some member_id, ca_state := CS_Admitted, ca_chat := Some ?s\<rparr>)" by (rule 4)
    show "?s = session_new session (identity_ed25519_pubkey C host) (identity_x25519_pubkey C host) member_id
        (cs_entropy ?s)"
      unfolding session_new_entropy ..
  qed (simp_all add: application_of_def r is_admitted_def c0)
qed

text \<open>A host and a participant of the same room, for evaluating the development.\<close>

definition demo_verifier :: password_verifier where
  "demo_verifier =
     (case verifier_derive plain_kdf [1, 2, 3] [Some []] of (Inr v, _) \<Rightarrow> v
      | _ \<Rightarrow> \<lparr>pv_salt = [], pv_m_cost = 0, pv_t_cost = 0, pv_p_cost = 0, pv_derived_key = []\<rparr>)"

definition demo_host_admission :: host_admission where
  "demo_host_admission =
     \<lparr>ha_room_session_id = replicate 32 9, ha_server_nonce = pad NONCE_LEN [4], ha_token = replicate 16 5,
      ha_verifier = demo_verifier, ha_host_identity = \<lparr>id_ed25519 = [1], id_x25519 = [2]\<rparr>,
      ha_onion_address = rs ''a.onion'', ha_client_nonce = None, ha_challenge_nonce = None,
      ha_state = HS_AwaitingHello, ha_entropy = [Some [6]]\<rparr>"

definition demo_client_admission :: client_admission where
  "demo_client_admission =
     \<lparr>ca_invitation = \<lparr>inv_onion_address = rs ''a.onion'', inv_port = 9735, inv_token = replicate 16 5\<rparr>,
      ca_password = [1, 2, 3], ca_identity = \<lparr>id_ed25519 = pad 32 [7], id_x25519 = pad 32 [8]\<rparr>,
      ca_client_nonce = pad NONCE_LEN [3], ca_server_nonce = None, ca_host_hello = None,
      ca_member_id = None, ca_chat = None, ca_state = CS_AwaitingHostHello, ca_entropy = []\<rparr>"

lemma demo_verifier: "verifier_derive plain_kdf [1, 2, 3] [Some []] = (Inr demo_verifier, [])"
  by (simp add: demo_verifier_def verifier_derive_def derive_key_def plain_kdf_def fill_random_def)

lemma demo_host_admission:
  "host_admission_new (replicate 32 9) (replicate 16 5) demo_verifier \<lparr>id_ed25519 = [1], id_x25519 = [2]\<rparr>
     (rs ''a.onion'') [Some [4], Some [6]] = Inr demo_host_admission"
  by (simp add: host_admission_new_def demo_host_admission_def fill_random_def pad_def)

lemma demo_client_admission:
  "client_admission_new \<lparr>inv_onion_address = rs ''a.onion'', inv_port = 9735, inv_token = replicate 16 5\<rparr>
     [1, 2, 3] [Some [7], Some [8], Some [3]] = Inr demo_client_admission"
  by (simp add: client_admission_new_def identity_generate_def demo_client_admission_def fill_random_def pad_def)

lemma demo_fields:
  "ha_state demo_host_admission = HS_AwaitingHello" "ha_token demo_host_admission = replicate 16 5"
  "ha_onion_address demo_host_admission = rs ''a.onion''" "ha_verifier demo_host_admission = demo_verifier"
  "fill_random NONCE_LEN (ha_entropy demo_host_admission) = (Inr (pad NONCE_LEN [6]), [])"
  "ca_state demo_client_admission = CS_AwaitingHostHello" "ca_password demo_client_admission = [1, 2, 3]"
  "ca_invitation demo_client_admission =
     \<lparr>inv_onion_address = rs ''a.onion'', inv_port = 9735, inv_token = replicate 16 5\<rparr>"
  by (simp_all add: demo_host_admission_def demo_client_admission_def fill_random_def pad_def)

lemma demo_participant_name: "validate_nickname id (rs ''zoe'') default_limits = Inr (rs ''zoe'')"
  by (simp add: rs_def validate_nickname_def Let_def contains_control_char_def
      is_unsafe_display_char_def char_is_control_def is_dangerous_format_char_def
      char_is_whitespace_def collapse_spaces_def push_word_def default_limits_def)

lemma handshake_completes_witness:
  "\<exists>hello m1 h1. first_message demo_client_admission = M_ClientHello hello \<and>
     on_client_hello plain_crypto hello 9735 demo_host_admission = (Inr m1, h1)"
proof -
  note handshake_completes [OF plain_crypto_ok demo_verifier demo_host_admission demo_fields(5) demo_client_admission,
      of id "rs ''zoe''" "rs ''zoe''" None JP_Open JP_Open 1]
  then show ?thesis
    using demo_participant_name by (simp add: MIN_TOKEN_BYTES_def MAX_TOKEN_BYTES_def) blast
qed

section \<open>Applications are vetted\<close>

text \<open>
  C5: the host queues no application that it has not vetted. In any sequence of messages on a
  connection, in whatever order and with whatever errors, an application is preceded, in this
  order, by a supported hello, the room's token, and a proof of the password for the nonce of this
  hello and the fresh challenge of this connection; the join request itself is signed by the key it
  presents, over the nonces of this connection and this room's token, its key exchange is
  contributory, the policy is open; and no connection applies twice.
\<close>

theorem application_is_vetted:
  assumes "host_admission_new session token v host onion es = Inr h0"
    and "host_run C K ins h0 = (hist, h)" and "x \<in> set hist" and "is_application x"
  shows "\<exists>hello_step token_step proof_step client_nonce challenge_nonce request.
    subseq [hello_step, token_step, proof_step, x] hist \<and>
    hello_accepted client_nonce hello_step \<and> token_accepted token challenge_nonce token_step \<and>
    proof_accepted (expected_proof K v challenge_nonce client_nonce) proof_step \<and>
    join_accepted_as request x \<and> join_request_valid C h0 client_nonce request \<and>
    filter is_application hist = [x]"
proof -
  have h0: "ha_token h0 = token" "ha_verifier h0 = v"
    using assms(1) by (auto simp: host_admission_new_def split: sum.splits prod.splits)
  from host_run_vetted [OF assms(1), of C K ins] obtain xs where
    xs: "progress C K h0 h xs" "subseq xs hist" "filter is_application hist = filter is_application xs"
    by (auto simp: vetted_def assms(2))
  from assms(3,4) have "x \<in> set (filter is_application hist)" by simp
  then have x: "x \<in> set xs" "is_application x" unfolding xs(3) by simp_all
  show ?thesis
  proof (cases "ha_state h")
    case HS_Decided
    with xs(1) obtain cn chn a b c w request where "xs = [a, b, c, w]" and steps: "hello_accepted cn a"
      "token_accepted token chn b" "proof_accepted (expected_proof K v chn cn) c" "join_accepted_as request w"
      "join_request_valid C h0 cn request"
      by (auto simp: progress_def h0)
    moreover from this x have "w = x" by (auto simp: which_application)
    moreover from steps have "filter is_application xs = [w]"
      using \<open>xs = _\<close> by (simp add: which_application)
    ultimately have "subseq [a, b, c, x] hist" "filter is_application hist = [x]"
      using xs(2,3) by simp_all
    with steps \<open>w = x\<close> show ?thesis by blast
  qed (use xs(1) x in \<open>auto simp: progress_def which_application\<close>)
qed

lemma application_is_vetted_witness:
  "\<exists>ins hist h x. host_run plain_crypto plain_kdf ins demo_host_admission = (hist, h) \<and> x \<in> set hist \<and>
     is_application x \<and> filter is_application hist = [x]"
proof -
  let ?h = demo_host_admission and ?c = demo_client_admission
  let ?hello = "\<lparr>ch_version = 1, ch_client_nonce = ca_client_nonce ?c, ch_features = 0\<rparr>"
  let ?h1 = "?h\<lparr>ha_client_nonce := Some (ca_client_nonce ?c), ha_state := HS_AwaitingToken\<rparr>"
  let ?h2 = "?h1\<lparr>ha_challenge_nonce := Some (pad NONCE_LEN [6]), ha_state := HS_AwaitingProof, ha_entropy := []\<rparr>"
  let ?h3 = "?h1\<lparr>ha_challenge_nonce := Some (pad NONCE_LEN [6]), ha_state := HS_AwaitingJoinForm, ha_entropy := []\<rparr>"
  have inv: "ca_invitation ?c = \<lparr>inv_onion_address = ha_onion_address ?h, inv_port = 9735, inv_token = ha_token ?h\<rparr>"
    and size: "MIN_TOKEN_BYTES \<le> length (ha_token ?h)" "length (ha_token ?h) \<le> MAX_TOKEN_BYTES"
    by (simp_all add: demo_fields MIN_TOKEN_BYTES_def MAX_TOKEN_BYTES_def)
  obtain m and info :: host_hello_info where 1: "on_client_hello plain_crypto ?hello 9735 ?h = (Inr m, ?h1)"
    and info: "hhi_room_session_id info = ha_room_session_id ?h"
    using hello_exchange [OF plain_crypto_ok demo_fields(1,6) inv size, of plain_kdf] by blast
  let ?c1 = "?c\<lparr>ca_server_nonce := Some (ha_server_nonce ?h), ca_host_hello := Some info, ca_state := CS_AwaitingChallenge\<rparr>"
  let ?c2 = "?c1\<lparr>ca_password := [], ca_state := CS_AwaitingJoinForm\<rparr>"
  obtain m3 m4 where 2: "host_on_message plain_crypto plain_kdf (M_TokenVerify \<lparr>tv_token = ha_token ?h1\<rparr>) JP_Open ?h1 =
      (Inr (Some (HR_Message m3)), ?h2)"
    "host_on_message plain_crypto plain_kdf m4 JP_Open ?h2 = (Inr None, ?h3)"
    using password_exchange [OF plain_crypto_ok, of ?h1 ?c1 plain_kdf "[Some []]" "[]" "pad NONCE_LEN [6]" "[]" JP_Open JP_Open]
      demo_verifier by (auto simp: demo_fields)
  obtain request h4 where 3: "host_on_message plain_crypto plain_kdf (M_JoinRequest request) JP_Open ?h3 =
      (Inr (Some (HR_JoinRequested (application_of request))), h4)"
    using application_exchange [OF plain_crypto_ok, of ?h3 ?c2 info id "rs ''zoe''" "rs ''zoe''" None plain_kdf]
      info demo_participant_name by (auto simp: demo_fields)
  let ?ins = "[HI_Hello ?hello 9735, HI_Message (M_TokenVerify \<lparr>tv_token = ha_token ?h1\<rparr>) JP_Open,
     HI_Message m4 JP_Open, HI_Message (M_JoinRequest request) JP_Open]"
  let ?x = "(HI_Message (M_JoinRequest request) JP_Open, HO_Reply (Inr (Some (HR_JoinRequested (application_of request)))))"
  obtain hist where run: "host_run plain_crypto plain_kdf ?ins ?h = (hist, h4)" and x: "?x \<in> set hist"
    using 1 2 3 by (simp add: host_run_def host_step_def)
  from application_is_vetted [OF demo_host_admission run x] have "filter is_application hist = [?x]" by auto
  with run x show ?thesis by (intro exI [of _ ?ins] exI [of _ hist] exI [of _ h4] exI [of _ ?x]) simp
qed

section \<open>The participant authenticates the host\<close>

datatype client_input = CI_Message message | CI_Apply rstring "rstring option"

type_synonym client_history = "(client_input \<times> (admission_error + message list)) list"

definition client_step :: "(rstring \<Rightarrow> rstring) \<Rightarrow> crypto \<Rightarrow> kdf \<Rightarrow> client_input \<Rightarrow> client_admission \<Rightarrow>
    message list client_result" where
  "client_step nfc C K i c =
     (case i of
        CI_Message msg \<Rightarrow> on_host_message C K msg c
      | CI_Apply nickname introduction \<Rightarrow>
          tryS (client_join_request nfc C nickname introduction c) (\<lambda>m c. (Inr [m], c)))"

definition client_run :: "(rstring \<Rightarrow> rstring) \<Rightarrow> crypto \<Rightarrow> kdf \<Rightarrow> client_input list \<Rightarrow> client_admission \<Rightarrow>
    client_history \<times> client_admission" where
  "client_run nfc C K ins c0 =
     fold (\<lambda>i (hist, c). case client_step nfc C K i c of (out, c') \<Rightarrow> (hist @ [(i, out)], c')) ins ([], c0)"

fun sends_proof :: "client_input \<times> (admission_error + message list) \<Rightarrow> bool" where
  "sends_proof (_, Inr [M_ChallengeProof _]) \<longleftrightarrow> True"
| "sends_proof _ \<longleftrightarrow> False"

definition info_of :: "host_hello \<Rightarrow> host_hello_info" where
  "info_of hello =
     \<lparr>hhi_room_session_id = hh_room_session_id hello, hhi_host_ed25519_pubkey = hh_host_ed25519_pubkey hello,
      hhi_host_x25519_pubkey = hh_host_x25519_pubkey hello, hhi_signature = hh_host_signature hello\<rparr>"

definition genuine_hello :: "crypto \<Rightarrow> client_admission \<Rightarrow> host_hello \<Rightarrow> bool" where
  "genuine_hello C c hello \<longleftrightarrow> hh_version hello = 1 \<and>
     verify_ed25519 C (hh_host_ed25519_pubkey hello) (host_hello_transcript (expected_hello C hello c))
       (hh_host_signature hello)"

text \<open>The history starts with errors, followed by the token that answers the host's hello.\<close>

definition opened_by :: "client_admission \<Rightarrow> host_hello \<Rightarrow> client_history \<Rightarrow> bool" where
  "opened_by c0 hello hist \<longleftrightarrow>
     (\<exists>pre post. hist = pre @ (CI_Message (M_HostHello hello),
          Inr [M_TokenVerify \<lparr>tv_token = inv_token (ca_invitation c0)\<rparr>]) # post \<and>
        (\<forall>(i, r) \<in> set pre. \<exists>e. r = Inl e))"

definition session_of :: "host_hello \<Rightarrow> client_admission \<Rightarrow> chat_session \<Rightarrow> bool" where
  "session_of hello c0 s \<longleftrightarrow>
     (\<exists>k. s = session_new (hh_room_session_id hello) (hh_host_ed25519_pubkey hello)
                (hh_host_x25519_pubkey hello) k (ca_entropy c0))"

definition same_client :: "client_admission \<Rightarrow> client_admission \<Rightarrow> bool" where
  "same_client c0 c \<longleftrightarrow> ca_invitation c = ca_invitation c0 \<and> ca_client_nonce c = ca_client_nonce c0 \<and>
     ca_identity c = ca_identity c0 \<and> ca_entropy c = ca_entropy c0"

definition authenticated :: "crypto \<Rightarrow> client_admission \<Rightarrow> client_history \<times> client_admission \<Rightarrow> bool" where
  "authenticated C c0 r \<longleftrightarrow>
     (case r of (hist, c) \<Rightarrow> same_client c0 c \<and>
        (if ca_state c = CS_AwaitingHostHello
         then ca_chat c = None \<and> (\<forall>(i, r) \<in> set hist. \<exists>e. r = Inl e)
         else \<exists>hello. opened_by c0 hello hist \<and> genuine_hello C c0 hello \<and>
           ca_host_hello c = Some (info_of hello) \<and>
           (\<forall>s. ca_chat c = Some s \<longrightarrow> session_of hello c0 s) \<and>
           length (filter sends_proof hist) \<le> (if ca_state c = CS_AwaitingChallenge then 0 else 1)))"

lemma opened_by_snoc: "opened_by c0 hello hist \<Longrightarrow> opened_by c0 hello (hist @ [x])"
  unfolding opened_by_def by (elim exE conjE) (metis append.assoc append_Cons)

lemma authenticated_error:
  assumes "authenticated C c0 (hist, c)"
  shows "authenticated C c0 (hist @ [(i, Inl e)], c)"
  using assms by (auto simp: authenticated_def split: if_splits) (blast intro: opened_by_snoc)+

lemma genuine_same: "same_client c0 c \<Longrightarrow> genuine_hello C c hello = genuine_hello C c0 hello"
  by (simp add: genuine_hello_def expected_hello_def same_client_def)

text \<open>A step that stays behind the hello.\<close>

lemma authenticated_later:
  assumes "authenticated C c0 (hist, c)" and "ca_state c \<noteq> CS_AwaitingHostHello" "ca_state c' \<noteq> CS_AwaitingHostHello"
    and "same_client c c'" "ca_host_hello c' = ca_host_hello c"
    and "\<And>hello s. ca_host_hello c = Some (info_of hello) \<Longrightarrow>
      \<forall>s. ca_chat c = Some s \<longrightarrow> session_of hello c0 s \<Longrightarrow> ca_chat c' = Some s \<Longrightarrow> session_of hello c0 s"
    and "sends_proof x \<Longrightarrow> ca_state c = CS_AwaitingChallenge" "ca_state c' \<noteq> CS_AwaitingChallenge"
  shows "authenticated C c0 (hist @ [x], c')"
proof -
  from assms(1,2) obtain hello where "opened_by c0 hello hist" "genuine_hello C c0 hello"
    "ca_host_hello c = Some (info_of hello)" "\<forall>s. ca_chat c = Some s \<longrightarrow> session_of hello c0 s"
    "length (filter sends_proof hist) \<le> (if ca_state c = CS_AwaitingChallenge then 0 else 1)"
    and sc: "same_client c0 c" by (auto simp: authenticated_def)
  moreover from this assms(6) have "\<forall>s. ca_chat c' = Some s \<longrightarrow> session_of hello c0 s" by blast
  moreover have "length (filter sends_proof (hist @ [x])) \<le> 1"
    using assms(7) calculation(5) by (auto split: if_splits)
  ultimately show ?thesis
    using assms(3-5,8) opened_by_snoc [of c0 hello hist x] by (auto simp: authenticated_def same_client_def)
qed

lemma client_step_authenticated:
  assumes "authenticated C c0 (hist, c)" and "client_step nfc C K i c = (r, c')"
    and "MIN_TOKEN_BYTES \<le> length (inv_token (ca_invitation c0))" "length (inv_token (ca_invitation c0)) \<le> MAX_TOKEN_BYTES"
  shows "authenticated C c0 (hist @ [(i, r)], c')"
proof -
  have sc: "same_client c0 c" using assms(1) by (simp add: authenticated_def)
  have token: "token_verify_new (inv_token (ca_invitation c)) = Inr \<lparr>tv_token = inv_token (ca_invitation c0)\<rparr>"
    using assms(3,4) sc by (simp add: token_verify_new_def MIN_TOKEN_BYTES_def MAX_TOKEN_BYTES_def same_client_def)
  consider (error) e where "r = Inl e" "c' = c"
    | (hello) hello where "i = CI_Message (M_HostHello hello)" "ca_state c = CS_AwaitingHostHello"
        "handle_host_hello C hello c = (r, c')" "r \<in> range Inr"
    | (challenge) m where "ca_state c = CS_AwaitingChallenge" "handle_challenge K m c = (r, c')" "r \<in> range Inr"
    | (accepted) k where "ca_state c = CS_AwaitingDecision" "handle_accepted k c = (r, c')"
    | (applied) m where "ca_state c = CS_AwaitingJoinForm" "r = Inr [M_JoinRequest m]" "c' = c\<lparr>ca_state := CS_AwaitingDecision\<rparr>"
  proof (cases "r \<in> range Inl")
    case True
    with assms(2) have "c' = c"
      by (auto simp: client_step_def on_host_message_def handle_host_hello_def handle_challenge_def token
          handle_accepted_def client_join_request_def Let_def
          split: client_input.splits client_state.splits message.splits if_splits option.splits sum.splits
          elim!: tryS_cases)
    with True that(1) show ?thesis by blast
  next
    case False
    then have ok: "r \<in> range Inr" by (cases r) auto
    show ?thesis
    proof (cases i)
      case (CI_Message msg)
      with assms(2) have "on_host_message C K msg c = (r, c')" by (simp add: client_step_def)
      with False ok CI_Message that(2-4) show ?thesis
        by (cases "ca_state c"; cases msg) (auto simp: on_host_message_def)
    next
      case (CI_Apply nickname introduction)
      with assms(2) ok that(5) show ?thesis
        by (auto simp: client_step_def client_join_request_def Let_def
            split: if_splits option.splits sum.splits elim!: tryS_cases)
    qed
  qed
  then show ?thesis
  proof cases
    case error
    with assms(1) show ?thesis by (simp add: authenticated_error)
  next
    case hello
    then have g: "genuine_hello C c0 hello" and r: "r = Inr [M_TokenVerify \<lparr>tv_token = inv_token (ca_invitation c0)\<rparr>]"
      and c': "c' = c\<lparr>ca_server_nonce := Some (hh_server_nonce hello), ca_host_hello := Some (info_of hello),
                   ca_state := CS_AwaitingChallenge\<rparr>"
      unfolding genuine_same [OF sc, symmetric]
      by (auto simp: handle_host_hello_def token genuine_hello_def info_of_def split: if_splits sum.splits)
    have pre: "\<forall>(i, r) \<in> set hist. \<exists>e. r = Inl e" "ca_chat c = None"
      using assms(1) hello(2) by (auto simp: authenticated_def)
    have "filter sends_proof hist = []" using pre(1) by (auto simp: filter_empty_conv)
    then show ?thesis
      using g pre sc by (auto simp: authenticated_def c' r hello(1) same_client_def opened_by_def)
  next
    case challenge
    then show ?thesis
      by (intro authenticated_later [OF assms(1)])
        (auto simp: handle_challenge_def same_client_def split: if_splits sum.splits)
  next
    case accepted
    then show ?thesis
      by (intro authenticated_later [OF assms(1)])
        (use sc in \<open>auto simp: handle_accepted_def Let_def same_client_def info_of_def session_of_def split: option.splits\<close>)
  next
    case applied
    then show ?thesis
      by (intro authenticated_later [OF assms(1)]) (auto simp: same_client_def)
  qed
qed

lemma client_run_authenticated:
  assumes "client_admission_new invite password es = Inr c0"
    and "MIN_TOKEN_BYTES \<le> length (inv_token invite)" "length (inv_token invite) \<le> MAX_TOKEN_BYTES"
  shows "authenticated C c0 (client_run nfc C K ins c0)"
proof (induction ins rule: rev_induct)
  case Nil
  from assms(1) have "ca_state c0 = CS_AwaitingHostHello" "ca_chat c0 = None"
    by (auto simp: client_admission_new_def split: sum.splits prod.splits)
  then show ?case by (simp add: client_run_def authenticated_def same_client_def)
next
  case (snoc i ins)
  obtain hist c where r: "client_run nfc C K ins c0 = (hist, c)" by (cases "client_run nfc C K ins c0")
  have "client_run nfc C K (ins @ [i]) c0 = (case client_step nfc C K i c of (out, c') \<Rightarrow> (hist @ [(i, out)], c'))"
    using r by (simp add: client_run_def)
  moreover have "ca_invitation c0 = invite"
    using assms(1) by (auto simp: client_admission_new_def split: sum.splits prod.splits)
  ultimately show ?case
    using snoc r client_step_authenticated [of C c0 hist c nfc K i] assms(2,3) by (auto split: prod.splits)
qed

text \<open>
  C6: the participant gives nothing away before it has authenticated the host. In any sequence of
  host messages and application attempts, up to the first message it sends every step is an error,
  and this first message is the token, in answer to a hello whose signature covers this invitation's
  address, port and token and this connection's nonces; the chat session it ends up with is pinned
  to the session and the keys of that hello, and the password is used for at most one proof.
\<close>

theorem client_authenticates_host:
  assumes "client_admission_new invite password es = Inr c0"
    and "MIN_TOKEN_BYTES \<le> length (inv_token invite)" "length (inv_token invite) \<le> MAX_TOKEN_BYTES"
    and "client_run nfc C K ins c0 = (hist, c)" and "(i, Inr ms) \<in> set hist"
  shows "\<exists>hello pre post.
    hist = pre @ (CI_Message (M_HostHello hello), Inr [M_TokenVerify \<lparr>tv_token = inv_token invite\<rparr>]) # post \<and>
    (\<forall>(i, r) \<in> set pre. \<exists>e. r = Inl e) \<and> genuine_hello C c0 hello \<and>
    (\<forall>s. ca_chat c = Some s \<longrightarrow> session_of hello c0 s) \<and> length (filter sends_proof hist) \<le> 1"
proof -
  have "ca_invitation c0 = invite"
    using assms(1) by (auto simp: client_admission_new_def split: sum.splits prod.splits)
  moreover have "authenticated C c0 (hist, c)"
    using client_run_authenticated [OF assms(1-3), of C nfc K ins] by (simp add: assms(4))
  moreover from this assms(5) have "ca_state c \<noteq> CS_AwaitingHostHello"
    by (force simp: authenticated_def)
  ultimately obtain hello where h: "opened_by c0 hello hist" "genuine_hello C c0 hello"
    "\<forall>s. ca_chat c = Some s \<longrightarrow> session_of hello c0 s"
    "length (filter sends_proof hist) \<le> (if ca_state c = CS_AwaitingChallenge then 0 else 1)"
    by (auto simp: authenticated_def)
  from h(4) have "length (filter sends_proof hist) \<le> 1" by (simp split: if_splits)
  with h \<open>ca_invitation c0 = invite\<close> show ?thesis unfolding opened_by_def by blast
qed

lemma client_authenticates_host_witness:
  "\<exists>hello hist c.
     client_run id plain_crypto plain_kdf [CI_Message M_Keepalive, CI_Message (M_HostHello hello)] demo_client_admission =
       (hist, c) \<and> length hist = 2 \<and> genuine_hello plain_crypto demo_client_admission hello"
proof -
  let ?h = demo_host_admission and ?c = demo_client_admission
  have inv: "ca_invitation ?c = \<lparr>inv_onion_address = ha_onion_address ?h, inv_port = 9735, inv_token = ha_token ?h\<rparr>"
    and size: "MIN_TOKEN_BYTES \<le> length (ha_token ?h)" "length (ha_token ?h) \<le> MAX_TOKEN_BYTES"
    by (simp_all add: demo_fields MIN_TOKEN_BYTES_def MAX_TOKEN_BYTES_def)
  obtain m c where "on_host_message plain_crypto plain_kdf m ?c = (Inr [M_TokenVerify \<lparr>tv_token = ha_token ?h\<rparr>], c)"
    using hello_exchange [OF plain_crypto_ok demo_fields(1,6) inv size, of plain_kdf] by blast
  then have run: "client_run id plain_crypto plain_kdf [CI_Message M_Keepalive, CI_Message m] ?c =
      ([(CI_Message M_Keepalive, Inl AE_UnexpectedMessage),
        (CI_Message m, Inr [M_TokenVerify \<lparr>tv_token = ha_token ?h\<rparr>])], c)"
    by (simp add: client_run_def client_step_def on_host_message_def demo_fields)
  from client_authenticates_host [OF demo_client_admission _ _ run, of "CI_Message m"]
  obtain hello pre post where
    "[(CI_Message M_Keepalive, Inl AE_UnexpectedMessage), (CI_Message m, Inr [M_TokenVerify \<lparr>tv_token = ha_token ?h\<rparr>])] =
      pre @ (CI_Message (M_HostHello hello), Inr [M_TokenVerify \<lparr>tv_token = replicate 16 5\<rparr>]) # post"
    and g: "genuine_hello plain_crypto ?c hello"
    by (auto simp: demo_fields MIN_TOKEN_BYTES_def MAX_TOKEN_BYTES_def)
  then have "m = M_HostHello hello" by (auto simp: Cons_eq_append_conv)
  with run g show ?thesis by (intro exI [of _ hello]) simp
qed

end
