(* ===== verification/JoinRules.thy ===== *)
theory JoinRules
  imports Join ScreenRules AdmissionRules
begin

text \<open>
  What the participant's supervisor keeps whatever the user and the host do: it never panics, it shows the
  room only to an admitted participant, and it speaks to the host in the order of the protocol.
\<close>

section \<open>Screens of a session\<close>

text \<open>An update of the room view that keeps the view consistent and the role.\<close>

definition view_fun :: "(room_view \<Rightarrow> room_view) \<Rightarrow> bool" where
  "view_fun f \<longleftrightarrow>
     (\<forall>v. screen_ok (Scr_Room v) \<longrightarrow> screen_ok (Scr_Room (f v)) \<and> rv_is_host (f v) = rv_is_host v)"

lemma fold_keeps_host: "(\<And>x v. rv_is_host (f x v) = rv_is_host v) \<Longrightarrow> rv_is_host (fold f xs v) = rv_is_host v"
  by (induction xs arbitrary: v) simp_all

lemma notice_keeps_host [simp]: "rv_is_host (view_notice ck t v) = rv_is_host v"
  by (simp add: view_notice_def Let_def)

lemma view_op_host: "rv_is_host (apply_view_op ck p v) = rv_is_host v"
  by (cases p)
    (auto simp: push_chat_def push_own_def push_system_def push_muted_def push_error_def push_color_list_def Let_def
      set_members_def set_requests_def show_requests_def set_invitation_def set_status_def set_message_timeout_def
      tick_message_timeout_def toggle_host_member_view_def toggle_system_messages_def submit_line_def
      clear_messages_def fold_keeps_host split: prod.splits submit.splits)

named_theorems view_funs \<open>updates of the room view\<close>

lemma view_fun_op [view_funs]: "view_fun (apply_view_op ck p)"
  unfolding view_fun_def using view_op_input view_op_host by blast

lemma view_fun_calls [view_funs]:
  "view_fun (push_system ck t)" "view_fun (push_error ck t)" "view_fun (push_own ck t)" "view_fun (push_chat ck n c t)"
  "view_fun (set_members ms)" "view_fun (set_status st)" "view_fun (view_notice ck t)" "view_fun (set_message_timeout i)"
  "view_fun (\<lambda>v. snd (tick_message_timeout now v))"
  using view_fun_op [of ck "VO_System t"] view_fun_op [of ck "VO_Error t"] view_fun_op [of ck "VO_Own t"]
    view_fun_op [of ck "VO_Chat n c t"] view_fun_op [of ck "VO_Members ms"] view_fun_op [of ck "VO_Status st"]
    view_fun_op [of ck "VO_Notice t"] view_fun_op [of ck "VO_Timeout i"]
    view_fun_op [of "\<lparr>ck_instant = now, ck_unix_seconds = 0\<rparr>" VO_Tick]
  by (simp_all add: fun_eq_iff view_fun_def del: screen_ok.simps)

lemma view_fun_compound [view_funs]:
  "view_fun (timeout_notice ck i)" "view_fun (show_membership ck m)" "view_fun (copy_invitation_to_clipboard ck r)"
  using view_fun_calls
  by (auto simp: view_fun_def timeout_notice_def show_membership_def copy_invitation_to_clipboard_def
      simp del: screen_ok.simps split: message.splits option.splits)

text \<open>The room screen is shown to an admitted participant only.\<close>

definition shown_ok :: "client_admission \<Rightarrow> app \<Rightarrow> bool" where
  "shown_ok c a \<longleftrightarrow>
     screen_ok (ap_screen a) \<and> (\<forall>v. ap_screen a = Scr_Room v \<longrightarrow> is_admitted c \<and> \<not> rv_is_host v)"

lemma shown_ok_view: "shown_ok c a \<Longrightarrow> view_fun f \<Longrightarrow> shown_ok c (on_view f a)"
  by (cases "ap_screen a") (auto simp: shown_ok_def on_view_def view_fun_def simp del: screen_ok.simps)

lemma command_action_host: "rv_is_host (snd (command_action ck v c)) = rv_is_host v"
  by (cases c) (auto simp: push_system_def push_color_list_def clear_messages_def fold_keeps_host)

lemma room_key_host:
  assumes "on_room_key ck v key = Some (action, w)"
  shows "rv_is_host w = rv_is_host v"
proof -
  have "rv_is_host (snd (on_enter ck v)) = rv_is_host v"
    using command_action_host view_op_host [of ck VO_Submit v] by (auto simp: on_enter_def Let_def split: sum.splits parsed_line.splits)
  with assms show ?thesis
    by (auto simp: on_room_key_def edit_input_def toggle_system_messages_def toggle_host_member_view_def
        split: key_code.splits if_splits)
qed

text \<open>No key leads into the room from another screen.\<close>

lemma menu_key_screens:
  assumes "on_menu_key m key = Some ((action, n), k)"
  shows "n \<noteq> Some (Scr_Room w)"
proof -
  define label where "label l = (if l = rs ''Host a room'' then (AA_None, Some (Scr_HostSetup host_setup_new))
    else if l = rs ''Join a room'' then (AA_None, Some (Scr_JoinSetup join_setup_new))
    else if l = rs ''About Veilroom'' then (AA_None, Some Scr_About) else (AA_Quit, None))" for l
  have "label l \<noteq> (a, Some (Scr_Room w))" for l a by (simp add: label_def)
  then show ?thesis
    using assms unfolding on_menu_key_def label_def [symmetric]
    by (cases "selected_label m") (auto split: if_splits)
qed

lemma host_setup_key_screens: "on_host_setup_key f key = Some ((action, n), k) \<Longrightarrow> n \<noteq> Some (Scr_Room w)"
  by (cases "hs_focus f"; cases "secret_key key (hs_password f)"; cases "secret_key key (hs_confirm f)"; cases "ke_code key")
    (auto simp: on_host_setup_key_def Let_def split_beta split: submit.splits if_split_asm)

lemma join_setup_key_screens: "on_join_setup_key f key = Some ((action, n), k) \<Longrightarrow> n \<noteq> Some (Scr_Room w)"
  by (cases "js_focus f"; cases "secret_key key (js_password f)"; cases "ke_code key")
    (auto simp: on_join_setup_key_def Let_def split_beta split: submit.splits if_split_asm)

lemma join_form_key_screens: "on_join_form_key f key = Some ((action, n), k) \<Longrightarrow> n \<noteq> Some (Scr_Room w)"
  by (cases "jf_focus f"; cases "ke_code key")
    (auto simp: on_join_form_key_def Let_def split_beta split: if_split_asm)

lemmas form_key_screens = menu_key_screens host_setup_key_screens join_setup_key_screens join_form_key_screens

lemma key_room:
  assumes "on_key ck key a = Some (action, b)" and "ap_screen b = Scr_Room w"
  shows "\<exists>v. ap_screen a = Scr_Room v \<and> rv_is_host w = rv_is_host v"
proof (cases "ap_screen a")
  case (Scr_Menu m)
  with assms show ?thesis
    by (auto simp: on_key_def on_screen_key_def split: option.splits) (use form_key_screens in blast)
next
  case (Scr_HostSetup f)
  with assms show ?thesis
    by (auto simp: on_key_def on_screen_key_def split: option.splits) (use form_key_screens in blast)
next
  case (Scr_JoinSetup f)
  with assms show ?thesis
    by (auto simp: on_key_def on_screen_key_def split: option.splits) (use form_key_screens in blast)
next
  case (Scr_JoinForm f)
  with assms show ?thesis
    by (auto simp: on_key_def on_screen_key_def split: option.splits) (metis join_form_key_screens)
next
  case (Scr_Room v)
  with assms room_key_host [of ck v key action w] show ?thesis
    by (auto simp: on_key_def on_screen_key_def)
qed (use assms in \<open>auto simp: on_key_def on_screen_key_def\<close>)

lemma paste_room:
  assumes "on_paste t a = Some b" and "ap_screen b = Scr_Room w"
  shows "\<exists>v. ap_screen a = Scr_Room v \<and> rv_is_host w = rv_is_host v"
  using assms by (auto simp: on_paste_def split: screen.splits host_field.splits join_field.splits join_form_field.splits)

lemma shown_ok_key:
  assumes "shown_ok c a"
  obtains action b where "on_key ck key a = Some (action, b)" "shown_ok c b"
proof -
  obtain action b where k: "on_key ck key a = Some (action, b)" "screen_ok (ap_screen b)"
    using key_result_ok assms unfolding shown_ok_def by metis
  with key_room [OF k(1)] assms have "shown_ok c b" by (fastforce simp: shown_ok_def)
  with k show ?thesis using that by blast
qed

lemma shown_ok_paste:
  assumes "shown_ok c a"
  obtains b where "on_paste t a = Some b" "shown_ok c b"
proof -
  obtain b where k: "on_paste t a = Some b" "screen_ok (ap_screen b)"
    using paste_ok assms unfolding shown_ok_def by metis
  with paste_room [OF k(1)] assms have "shown_ok c b" by (fastforce simp: shown_ok_def)
  with k show ?thesis using that by blast
qed

section \<open>The order of the messages\<close>

text \<open>
  The stages of a participant as the host sees them: \<open>next_stage n m\<close> is the stage after the message \<open>m\<close>,
  if \<open>m\<close> may be sent in stage \<open>n\<close>. The handshake takes four messages; what an admitted member sends comes
  after them.
\<close>

fun next_stage :: "nat \<Rightarrow> message \<Rightarrow> nat option" where
  "next_stage n (M_ClientHello _) = (if n = 0 then Some 1 else None)"
| "next_stage n (M_TokenVerify _) = (if n = 1 then Some 2 else None)"
| "next_stage n (M_ChallengeProof _) = (if n = 2 then Some 3 else None)"
| "next_stage n (M_JoinRequest _) = (if n = 3 then Some 4 else None)"
| "next_stage n (M_EpochAck _) = (if n = 4 then Some 4 else None)"
| "next_stage n (M_ChatMessage _) = (if n = 4 then Some 4 else None)"
| "next_stage n (M_ColorChange _) = (if n = 4 then Some 4 else None)"
| "next_stage n (M_TimeoutRequest _) = (if n = 4 then Some 4 else None)"
| "next_stage n _ = None"

fun follows :: "nat \<Rightarrow> message list \<Rightarrow> nat option" where
  "follows n [] = Some n"
| "follows n (m # ms) = Option.bind (next_stage n m) (\<lambda>k. follows k ms)"

lemma follows_append: "follows n (xs @ ys) = Option.bind (follows n xs) (\<lambda>k. follows k ys)"
  by (induction xs arbitrary: n) (auto split: Option.bind_split)

fun client_stage :: "client_state \<Rightarrow> nat" where
  "client_stage CS_AwaitingHostHello = 1"
| "client_stage CS_AwaitingChallenge = 2"
| "client_stage CS_AwaitingJoinForm = 3"
| "client_stage CS_AwaitingDecision = 4"
| "client_stage CS_Admitted = 4"

definition client_ok :: "nat \<Rightarrow> client_admission \<Rightarrow> bool" where
  "client_ok n c \<longleftrightarrow> n = client_stage (ca_state c) \<and> (ca_chat c \<noteq> None \<longrightarrow> is_admitted c)"

definition session_ok :: "nat \<Rightarrow> join_session \<Rightarrow> bool" where
  "session_ok n j \<longleftrightarrow> client_ok n (jn_admission j) \<and> shown_ok (jn_admission j) (jn_app j)"

abbreviation queue :: "join_session \<Rightarrow> message list" where
  "queue j \<equiv> pc_outbound (jn_peer j)"

text \<open>A handler puts messages in order behind the queue, and leaves a consistent session unless it ends.\<close>

definition handled :: "message list \<Rightarrow> nat \<Rightarrow> join_result \<Rightarrow> bool" where
  "handled q n r \<longleftrightarrow>
     (\<exists>ms k. queue (snd r) = q @ ms \<and> follows n ms = Some k \<and> (fst r = None \<longrightarrow> session_ok k (snd r)))"

lemma handled_go_on: "session_ok n j \<Longrightarrow> queue j = q \<Longrightarrow> handled q n (go_on j)"
  unfolding handled_def go_on_def by (intro exI [of _ "[]"] exI [of _ n]) simp

lemma handled_end: "queue j = q \<Longrightarrow> handled q n (Some e, j)"
  unfolding handled_def by (intro exI [of _ "[]"] exI [of _ n]) simp

lemma handled_later:
  assumes "next_stage n m = Some k" and "handled (q @ [m]) k r"
  shows "handled q n r"
proof -
  from assms(2) obtain ms l where "queue (snd r) = (q @ [m]) @ ms" "follows k ms = Some l"
    "fst r = None \<longrightarrow> session_ok l (snd r)" by (auto simp: handled_def)
  with assms(1) show ?thesis unfolding handled_def by (intro exI [of _ "m # ms"] exI [of _ l]) simp
qed

lemma net_send_cases:
  obtains (refused) e where "net_send m j = (Inl e, j)"
    | (queued) j1 where "net_send m j = (Inr (), j1)" "queue j1 = queue j @ [m]" "jn_admission j1 = jn_admission j"
        "jn_app j1 = jn_app j" "jn_pending_form j1 = jn_pending_form j" "jn_own_nickname j1 = jn_own_nickname j"
  by (cases "pc_open (jn_peer j)"; cases "OUTBOUND_QUEUE_CAPACITY \<le> length (queue j)")
    (auto simp: net_send_def peer_send_def)

lemma handled_send:
  assumes "next_stage n m = Some k"
    and "\<And>j1. queue j1 = queue j @ [m] \<Longrightarrow> jn_admission j1 = jn_admission j \<Longrightarrow> jn_app j1 = jn_app j \<Longrightarrow>
      handled (queue j1) k (go j1)"
  shows "handled (queue j) n (send_or_fail m go j)"
proof (cases rule: net_send_cases [of m j])
  case (refused e)
  then show ?thesis by (simp add: send_or_fail_def handled_end)
next
  case (queued j1)
  then show ?thesis using assms(2) [of j1] handled_later [OF assms(1)] by (simp add: send_or_fail_def)
qed

lemma session_ok_view: "session_ok n j \<Longrightarrow> view_fun f \<Longrightarrow> session_ok n (with_view f j)"
  by (simp add: session_ok_def with_view_def shown_ok_view)

lemma queue_view [simp]: "queue (with_view f j) = queue j"
  by (simp add: with_view_def)

lemma sync_keeps [simp]: "queue (sync_join_members j) = queue j"
  by (simp add: sync_join_members_def split: option.splits)

lemma session_ok_sync: "session_ok n j \<Longrightarrow> session_ok n (sync_join_members j)"
  by (auto simp: sync_join_members_def intro: session_ok_view view_funs split: option.splits)

text \<open>A call on the chat session keeps the stage; whoever has a chat session is admitted.\<close>

lemma with_chat_ok:
  assumes "client_ok n c" and "with_chat e f c = (r, c1)"
  shows "client_ok n c1 \<and> is_admitted c1 = is_admitted c"
    and "r = Inr x \<Longrightarrow> n = 4"
  using assms by (auto simp: with_chat_def client_ok_def is_admitted_def split: option.splits prod.splits)

lemma on_admission_split:
  assumes "session_ok n j" and "on_admission f j = (r, j1)"
    and "\<And>c1. f (jn_admission j) = (r, c1) \<Longrightarrow> client_ok n c1 \<and> is_admitted c1 = is_admitted (jn_admission j)"
  shows "session_ok n j1" "queue j1 = queue j"
  using assms by (auto simp: on_admission_def session_ok_def shown_ok_def split: prod.splits)

lemma chat_call:
  assumes "session_ok n j" and "on_admission (with_chat e f) j = (r, j1)"
  shows "session_ok n j1" "queue j1 = queue j" "r = Inr x \<Longrightarrow> n = 4"
proof -
  have c: "client_ok n (jn_admission j)" using assms(1) by (simp add: session_ok_def)
  show "session_ok n j1" "queue j1 = queue j"
    by (rule on_admission_split [OF assms with_chat_ok(1) [OF c]], assumption)+
  show "n = 4" if "r = Inr x"
    using assms(2) that with_chat_ok(2) [OF c, of e f r _ x] by (auto simp: on_admission_def split: prod.splits)
qed

section \<open>The handlers\<close>

text \<open>What each call on the chat session returns for sending.\<close>

lemma seal_message_result: "seal_message f r = (Inr m, s) \<Longrightarrow> \<exists>env. m = f env"
  by (auto simp: seal_message_def tryS_def split: prod.splits sum.splits)

lemma sealed_stage:
  "send_chat C i t s = (Inr m, s1) \<Longrightarrow> next_stage 4 m = Some 4"
  "send_color C i col s = (Inr m, s1) \<Longrightarrow> next_stage 4 m = Some 4"
  "send_timeout_request C i sec s = (Inr m, s1) \<Longrightarrow> next_stage 4 m = Some 4"
  by (auto simp: send_chat_def send_color_def send_timeout_request_def dest!: seal_message_result split: sum.splits)

lemma with_chat_result:
  "with_chat e f c = (Inr x, c1) \<Longrightarrow> \<exists>s s1. ca_chat c = Some s \<and> f s = (Inr x, s1)"
  by (auto simp: with_chat_def split: option.splits prod.splits)

lemma client_sends:
  "client_send_chat C t c = (Inr m, c1) \<Longrightarrow> next_stage 4 m = Some 4"
  "client_send_color C col c = (Inr m, c1) \<Longrightarrow> next_stage 4 m = Some 4"
  "client_send_timeout_request C sec c = (Inr m, c1) \<Longrightarrow> next_stage 4 m = Some 4"
  unfolding client_send_chat_def client_send_color_def client_send_timeout_request_def
  by (auto dest!: with_chat_result sealed_stage)

lemma handled_seal:
  assumes "session_ok n j" and "\<And>c. seal c = with_chat ChE_NoEpochKey (f c) c"
    and "\<And>c m c1. seal c = (Inr m, c1) \<Longrightarrow> next_stage 4 m = Some 4"
    and "\<And>k j1. session_ok k j1 \<Longrightarrow> session_ok k (shown j1) \<and> queue (shown j1) = queue j1"
  shows "handled (queue j) n (seal_and_send E ck seal shown j)"
proof -
  obtain r j1 where call: "on_admission seal j = (r, j1)" by (cases "on_admission seal j")
  then have "on_admission (with_chat ChE_NoEpochKey (f (jn_admission j))) j = (r, j1)"
    by (simp add: on_admission_def assms(2))
  note ok = chat_call [OF assms(1) this]
  show ?thesis
  proof (cases r)
    case (Inl e)
    then show ?thesis using call ok
      by (simp add: seal_and_send_def handled_go_on session_ok_view view_funs)
  next
    case (Inr m)
    then have "n = 4" using ok(3) by blast
    have "next_stage 4 m = Some 4" using call Inr assms(3) by (auto simp: on_admission_def split: prod.splits)
    then have "handled (queue j1) n (send_or_fail m (\<lambda>j2. go_on (shown j2)) j1)"
    proof (intro handled_send)
      fix j2 assume "queue j2 = queue j1 @ [m]" "jn_admission j2 = jn_admission j1" "jn_app j2 = jn_app j1"
      then have "session_ok 4 j2" using ok(1) by (simp add: session_ok_def \<open>n = 4\<close>)
      then show "handled (queue j2) 4 (go_on (shown j2))" using assms(4) by (simp add: handled_go_on)
    qed (simp add: \<open>n = 4\<close>)
    then show ?thesis using call Inr ok(2) by (simp add: seal_and_send_def)
  qed
qed

lemma session_ok_own_color:
  "session_ok n j \<Longrightarrow> session_ok n (j\<lparr>jn_admission := set_own_color color (jn_admission j)\<rparr>)"
  by (auto simp: session_ok_def client_ok_def shown_ok_def set_own_color_def is_admitted_def split: option.splits)

lemma handled_command:
  assumes "session_ok n j"
  shows "handled (queue j) n (on_join_command E ck command j)"
proof (cases command)
  case (SC_Color color)
  have "handled (queue j) n (seal_and_send E ck (client_send_color (je_crypto E) color)
      (\<lambda>j1. with_view (push_system ck (rs ''color changed to '' @ color_debug color))
        (sync_join_members (j1\<lparr>jn_admission := set_own_color color (jn_admission j1)\<rparr>))) j)"
    by (rule handled_seal [OF assms client_send_color_def client_sends(2)])
      (simp_all add: session_ok_view session_ok_sync session_ok_own_color view_funs)
  with SC_Color show ?thesis by (simp add: on_join_command_def)
next
  case (SC_TimeoutRequest seconds)
  have "handled (queue j) n (seal_and_send E ck (client_send_timeout_request (je_crypto E) seconds)
      (with_view (push_system ck (rs ''requested a room timeout of '' @ dec (unat seconds) @ rs '' seconds''))) j)"
    by (rule handled_seal [OF assms client_send_timeout_request_def client_sends(3)])
      (simp_all add: session_ok_view view_funs)
  with SC_TimeoutRequest show ?thesis by (simp add: on_join_command_def)
next
  case (SC_Whois target)
  have "session_ok n (on_whois ck target j) \<and> queue (on_whois ck target j) = queue j"
    using assms by (auto simp: on_whois_def split: option.splits intro: session_ok_view view_funs)
  with SC_Whois show ?thesis by (simp add: on_join_command_def handled_go_on)
qed (use assms in \<open>simp_all add: on_join_command_def handled_go_on session_ok_view session_ok_sync view_funs\<close>)

lemma join_request_result:
  assumes "client_join_request nfc C nickname introduction c = (r, c1)" and "client_ok n c"
  shows "(\<forall>m. r = Inr m \<longrightarrow> n = 3 \<and> next_stage 3 m = Some 4 \<and> client_ok 4 c1) \<and> (\<forall>e. r = Inl e \<longrightarrow> c1 = c) \<and>
    is_admitted c1 = is_admitted c"
  using assms
  by (auto simp: client_join_request_def client_ok_def is_admitted_def Let_def split: if_splits option.splits sum.splits)

lemma request_call:
  assumes "session_ok n j"
    and "on_admission (client_join_request nfc C nickname introduction) j = (r, j1)"
  shows "r = Inl e \<Longrightarrow> j1 = j" "r = Inr m \<Longrightarrow> n = 3 \<and> next_stage 3 m = Some 4 \<and> session_ok 4 j1 \<and> queue j1 = queue j"
proof -
  obtain c1 where c1: "client_join_request nfc C nickname introduction (jn_admission j) = (r, c1)"
    "j1 = j\<lparr>jn_admission := c1\<rparr>" using assms(2) by (auto simp: on_admission_def split: prod.splits)
  have "client_ok n (jn_admission j)" using assms(1) by (simp add: session_ok_def)
  note res = join_request_result [OF c1(1) this]
  show "j1 = j" if "r = Inl e" using res that c1(2) by simp
  show "n = 3 \<and> next_stage 3 m = Some 4 \<and> session_ok 4 j1 \<and> queue j1 = queue j" if "r = Inr m"
    using res that c1(2) assms(1) by (simp add: session_ok_def shown_ok_def)
qed

lemma handled_request:
  assumes "session_ok 4 j" and "next_stage 3 m = Some 4"
  shows "handled (queue j) 3 (send_or_fail m go_on j)"
  using assms(2)
proof (rule handled_send)
  fix j1 assume "queue j1 = queue j @ [m]" "jn_admission j1 = jn_admission j" "jn_app j1 = jn_app j"
  then show "handled (queue j1) 4 (go_on j1)" using assms(1) by (simp add: handled_go_on session_ok_def)
qed

lemma handled_submit:
  assumes "session_ok n j"
  shows "handled (queue j) n (submit_form E ck nickname introduction j)"
proof -
  define j0 where "j0 = j\<lparr>jn_app := show_join_pending (jn_app j), jn_own_nickname := Some nickname\<rparr>"
  have j0: "session_ok n j0" "queue j0 = queue j"
    using assms by (simp_all add: j0_def session_ok_def shown_ok_def show_join_pending_def)
  obtain r j1 where call: "on_admission (client_join_request (je_nfc E) (je_crypto E) nickname introduction) j0 = (r, j1)"
    by (cases "on_admission (client_join_request (je_nfc E) (je_crypto E) nickname introduction) j0")
  show ?thesis
  proof (cases r)
    case (Inl e)
    then have "j1 = j0" using request_call(1) [OF j0(1) call] by blast
    then show ?thesis using call Inl j0
      by (simp add: submit_form_def Let_def j0_def [symmetric] handled_go_on session_ok_def)
  next
    case (Inr m)
    from request_call(2) [OF j0(1) call Inr] have res: "n = 3" "next_stage 3 m = Some 4" "session_ok 4 j1" "queue j1 = queue j"
      using j0(2) by simp_all
    then have "session_ok 4 (j1\<lparr>jn_stage_since := ck_instant ck\<rparr>)" by (simp add: session_ok_def)
    from handled_request [OF this res(2)] show ?thesis
      using call Inr res by (simp add: submit_form_def Let_def j0_def [symmetric])
  qed
qed

lemma handled_action:
  assumes "session_ok n j"
  shows "handled (queue j) n (on_join_action E ck copied action j)"
proof -
  have chat: "handled (queue j) n (seal_and_send E ck (client_send_chat (je_crypto E) t) (with_view (push_own ck t)) j)" for t
    by (rule handled_seal [OF assms client_send_chat_def client_sends(1)]) (simp_all add: session_ok_view view_funs)
  show ?thesis
    using assms chat handled_submit handled_command
    by (auto simp: on_join_action_def handled_go_on handled_end session_ok_view view_funs
        split: app_action.splits room_ui_action.splits)
qed

section \<open>A message of the host\<close>

lemma wrap_call:
  assumes "session_ok n j" and "on_admission (on_epoch_wrap C w) j = (r, j1)"
  shows "session_ok n j1" "queue j1 = queue j" "r = Inr m \<Longrightarrow> n = 4 \<and> next_stage 4 m = Some 4"
proof -
  define f where "f s = (case set_epoch_from_wrap C (ca_identity (jn_admission j)) w s of
      (r, s') \<Rightarrow> (bindE (map_errE (\<lambda>_. AE_UnexpectedMessage) r) (\<lambda>epoch. Inr (M_EpochAck \<lparr>ea_epoch = epoch\<rparr>)), s'))" for s
  have call: "on_admission (with_chat AE_UnexpectedMessage f) j = (r, j1)"
    using assms(2) by (simp add: on_admission_def on_epoch_wrap_def f_def [abs_def])
  note ok = chat_call [OF assms(1) call]
  show "session_ok n j1" "queue j1 = queue j" by (fact ok)+
  show "n = 4 \<and> next_stage 4 m = Some 4" if "r = Inr m"
  proof -
    from call that obtain s s1 where "f s = (Inr m, s1)"
      by (auto simp: on_admission_def dest!: with_chat_result split: prod.splits)
    then have "next_stage 4 m = Some 4"
      by (cases "set_epoch_from_wrap C (ca_identity (jn_admission j)) w s") (auto simp: f_def bindE_eq_Inr)
    with ok(3) [OF that] show ?thesis by simp
  qed
qed

lemma handled_wrap:
  assumes "session_ok n j"
  shows "handled (queue j) n (on_wrap E ck w j)"
proof -
  obtain r j1 where call: "on_admission (on_epoch_wrap (je_crypto E) w) j = (r, j1)"
    by (cases "on_admission (on_epoch_wrap (je_crypto E) w) j")
  note ok = wrap_call [OF assms call]
  show ?thesis
  proof (cases r)
    case (Inl e)
    then show ?thesis using call ok by (simp add: on_wrap_def handled_end)
  next
    case (Inr m)
    have "handled (queue j1) n (send_or_fail m
        (\<lambda>j2. go_on (with_view (push_system ck (rs ''epoch '' @ dec (unat (ew_epoch w)) @ rs '' active'')) j2)) j1)"
      by (rule handled_send) (use ok Inr in \<open>auto intro!: handled_go_on session_ok_view view_funs simp: session_ok_def\<close>)
    then show ?thesis using call Inr ok by (simp add: on_wrap_def)
  qed
qed

text \<open>The calls that only read: their result is shown.\<close>

lemma reading_calls:
  "on_member_message C t env = with_chat ChE_NoEpochKey (\<lambda>s.
     if t = 0x40 then tryS (receive_chat C env s) (\<lambda>text s. (Inr (Some text), s))
     else if t = 0x41 then
       tryS (receive_color C env s) (\<lambda>color s. (Inr None, set_view_color color (env_sender_id env) s))
     else (Inl (ChE_InvalidPlaintext (rs ''not a chat-type message: 0x'' @ hex02 t)), s))"
  by (simp add: fun_eq_iff on_member_message_def)

lemma handled_chat:
  assumes "session_ok n j"
  shows "handled (queue j) n (on_chat E ck env j)"
proof -
  obtain r j1 where call: "on_admission (on_member_message (je_crypto E) 0x40 env) j = (r, j1)"
    by (cases "on_admission (on_member_message (je_crypto E) 0x40 env) j")
  note ok = chat_call [OF assms call [unfolded reading_calls]]
  show ?thesis
    using call ok
    by (auto simp: on_chat_def Let_def intro!: handled_go_on session_ok_view view_funs split: sum.splits option.splits)
qed

lemma handled_color:
  assumes "session_ok n j"
  shows "handled (queue j) n (on_color E env j)"
proof -
  obtain r j1 where call: "on_admission (on_member_message (je_crypto E) 0x41 env) j = (r, j1)"
    by (cases "on_admission (on_member_message (je_crypto E) 0x41 env) j")
  note ok = chat_call [OF assms call [unfolded reading_calls]]
  show ?thesis using call ok by (simp add: on_color_def handled_go_on session_ok_sync)
qed

lemma handled_timeout_changed:
  assumes "session_ok n j"
  shows "handled (queue j) n (on_timeout_changed E ck env j)"
proof -
  obtain r j1 where call: "on_admission (with_chat ChE_NoEpochKey (receive_timeout_changed (je_crypto E) env)) j = (r, j1)"
    by (cases "on_admission (with_chat ChE_NoEpochKey (receive_timeout_changed (je_crypto E) env)) j")
  note ok = chat_call [OF assms call]
  show ?thesis
    using call ok
    by (auto simp: on_timeout_changed_def intro!: handled_go_on session_ok_view view_funs split: sum.splits)
qed

lemma handled_membership:
  assumes "session_ok n j"
  shows "handled (queue j) n (on_membership E ck m j)"
proof -
  obtain r j1 where call: "on_admission (on_membership_message (je_nfc E) (je_crypto E) m) j = (r, j1)"
    by (cases "on_admission (on_membership_message (je_nfc E) (je_crypto E) m) j")
  have "on_membership_message (je_nfc E) (je_crypto E) m (jn_admission j) =
      with_chat ChE_NoEpochKey (\<lambda>s. case m of
         M_MemberJoined ev \<Rightarrow> handle_member_joined (je_nfc E) (je_crypto E) ev s
       | M_MemberLeft ev \<Rightarrow>
           handle_member_gone (je_crypto E) 0x21 (mg_sequence ev) (mg_epoch ev) (mg_member_id ev) (mg_signature ev) s
       | M_MemberKicked ev \<Rightarrow>
           handle_member_gone (je_crypto E) 0x22 (mg_sequence ev) (mg_epoch ev) (mg_member_id ev) (mg_signature ev) s
       | M_MemberSnapshot ev \<Rightarrow> handle_member_snapshot (je_nfc E) (je_crypto E) ev s
       | M_JoinPolicyChanged ev \<Rightarrow> handle_membership_message (je_nfc E) (je_crypto E) (M_JoinPolicyChanged ev) s
       | _ \<Rightarrow> (Inl (ChE_InvalidPlaintext (rs ''not a membership message'')), s)) (jn_admission j)"
    by (simp add: on_membership_message_def)
  then obtain f where "on_admission (with_chat ChE_NoEpochKey f) j = (r, j1)"
    using call by (auto simp: on_admission_def)
  note ok = chat_call [OF assms this]
  show ?thesis
    using call ok
    by (auto simp: on_membership_def intro!: handled_go_on session_ok_view session_ok_sync view_funs split: sum.splits)
qed

text \<open>The handshake: one reply, after which the stage is the one that the admission is in.\<close>

lemma host_message_replies:
  assumes "on_host_message C K m c = (Inr replies, c1)" and "client_ok n c"
  shows "(replies = [] \<and> client_ok n c1) \<or>
    (\<exists>t. replies = [M_TokenVerify t] \<and> n = 1 \<and> client_ok 2 c1) \<or>
    (\<exists>p. replies = [M_ChallengeProof p] \<and> n = 2 \<and> client_ok 3 c1)"
  using assms
  by (auto simp: on_host_message_def handle_host_hello_def handle_challenge_def handle_accepted_def client_ok_def
      is_admitted_def bindE_eq_Inr Let_def split: client_state.splits message.splits if_splits sum.splits option.splits)

lemma shown_ok_more: "shown_ok c a \<Longrightarrow> (is_admitted c \<Longrightarrow> is_admitted c1) \<Longrightarrow> shown_ok c1 a"
  by (auto simp: shown_ok_def)

lemma admitted_accepts_nothing:
  "on_host_message C K m c = (Inr replies, c1) \<Longrightarrow> \<not> is_admitted c"
  by (auto simp: on_host_message_def is_admitted_def split: client_state.splits message.splits)

lemma handled_pending:
  assumes "session_ok 3 j"
  shows "handled (queue j) 3 (send_pending_form E j)"
proof (cases "jn_pending_form j")
  case None
  then show ?thesis using assms by (simp add: send_pending_form_def handled_go_on)
next
  case (Some form)
  obtain nickname introduction where form: "form = (nickname, introduction)" by (cases form)
  define j0 where "j0 = j\<lparr>jn_pending_form := None\<rparr>"
  have j0: "session_ok 3 j0" "queue j0 = queue j" using assms by (simp_all add: j0_def session_ok_def)
  obtain r j1 where call: "on_admission (client_join_request (je_nfc E) (je_crypto E) nickname introduction) j0 = (r, j1)"
    by (cases "on_admission (client_join_request (je_nfc E) (je_crypto E) nickname introduction) j0")
  show ?thesis
  proof (cases r)
    case (Inl e)
    then have "j1 = j0" using request_call(1) [OF j0(1) call] by blast
    then show ?thesis using call Inl j0 Some form
      by (simp add: send_pending_form_def j0_def [symmetric] handled_go_on)
  next
    case (Inr m)
    from request_call(2) [OF j0(1) call Inr] have "next_stage 3 m = Some 4" "session_ok 4 j1" "queue j1 = queue j"
      using j0(2) by simp_all
    with handled_request [of j1 m] show ?thesis
      using call Inr Some form by (simp add: send_pending_form_def j0_def [symmetric])
  qed
qed

lemma handled_then:
  assumes "handled q n r" and "\<And>k j. session_ok k j \<Longrightarrow> session_ok k (f j) \<and> queue (f j) = queue j"
  shows "handled q n (case r of (Some e, j) \<Rightarrow> (Some e, j) | (None, j) \<Rightarrow> go_on (f j))"
  using assms by (cases r) (fastforce simp: handled_def go_on_def split: option.splits)

lemma enter_keeps:
  "session_ok k j \<Longrightarrow> session_ok k (enter_if_admitted ck j) \<and> queue (enter_if_admitted ck j) = queue j"
  by (auto simp: enter_if_admitted_def Let_def session_ok_def shown_ok_def enter_room_def simp del: screen_ok.simps)
    (simp_all add: room_view_new_def)

lemma handled_handshake:
  assumes "session_ok n j"
  shows "handled (queue j) n (on_handshake E ck m j)"
proof -
  obtain r c1 where call: "on_host_message (je_crypto E) (je_kdf E) m (jn_admission j) = (r, c1)"
    by (cases "on_host_message (je_crypto E) (je_kdf E) m (jn_admission j)")
  define j1 where "j1 = j\<lparr>jn_admission := c1\<rparr>"
  have on: "on_admission (on_host_message (je_crypto E) (je_kdf E) m) j = (r, j1)"
    by (simp add: on_admission_def call j1_def)
  show ?thesis
  proof (cases r)
    case (Inl e)
    then show ?thesis by (cases e) (simp_all add: on_handshake_def on handled_end j1_def)
  next
    case (Inr replies)
    have c: "client_ok n (jn_admission j)" "\<not> is_admitted (jn_admission j)"
      using assms admitted_accepts_nothing [OF call [unfolded Inr]] by (simp_all add: session_ok_def)
    have shown: "shown_ok c1 (jn_app j)" using assms c(2) shown_ok_more by (auto simp: session_ok_def)
    have "handled (queue j1) n (send_replies E replies j1)"
      using host_message_replies [OF call [unfolded Inr] c(1)]
    proof (elim disjE exE conjE)
      assume "replies = []" "client_ok n c1"
      then show ?thesis using shown by (simp add: handled_go_on session_ok_def j1_def)
    next
      fix t assume t: "replies = [M_TokenVerify t]" "n = 1" "client_ok 2 c1"
      show ?thesis unfolding t send_replies.simps
        by (rule handled_send [where k = 2])
          (use t(3) shown in \<open>simp_all add: is_challenge_answer_def go_on_def t(2) j1_def session_ok_def
            handled_go_on [unfolded go_on_def]\<close>)
    next
      fix p assume p: "replies = [M_ChallengeProof p]" "n = 2" "client_ok 3 c1"
      show ?thesis unfolding p send_replies.simps
      proof (rule handled_send [where k = 3])
        fix j2 assume "queue j2 = queue j1 @ [M_ChallengeProof p]" "jn_admission j2 = jn_admission j1" "jn_app j2 = jn_app j1"
        then have "session_ok 3 j2" using p(3) shown by (simp add: session_ok_def j1_def)
        from handled_then [OF handled_pending [OF this, of E], of "\<lambda>j. j"]
        show "handled (queue j2) 3 (case if is_challenge_answer (M_ChallengeProof p) then send_pending_form E j2 else go_on j2 of
            (None, j3) \<Rightarrow> go_on j3 | (Some e, j3) \<Rightarrow> (Some e, j3))"
          by (simp add: is_challenge_answer_def)
      qed simp
    qed
    from handled_then [OF this, of "enter_if_admitted ck"] enter_keeps show ?thesis
      by (simp add: on_handshake_def on Inr j1_def)
  qed
qed

section \<open>Runs\<close>

lemma handled_message:
  assumes "session_ok n j"
  shows "handled (queue j) n (handle_join_message E ck m j)"
proof -
  have error: "handled (queue j) n (recoverable_error ck e j)" for e
    using assms by (simp add: recoverable_error_def handled_go_on session_ok_view view_funs)
  show ?thesis
    by (cases m)
      (simp_all add: handle_join_message_def assms error handled_go_on handled_end handled_wrap handled_chat handled_color
        handled_timeout_changed handled_membership handled_handshake)
qed

lemma handled_network:
  assumes "session_ok n j"
  shows "handled (queue j) n (on_network E ck report j)"
proof (cases "Option.bind report id")
  case None
  then show ?thesis by (simp add: on_network_def handled_end)
next
  case (Some m)
  define j0 where "j0 = j\<lparr>jn_last_seen := ck_instant ck\<rparr>"
  have "session_ok n j0" using assms by (simp add: j0_def session_ok_def)
  from handled_message [OF this, of E ck m] have "handled (queue j) n (handle_join_message E ck m j0)"
    by (simp add: j0_def)
  then have "handled (queue j) n (case handle_join_message E ck m j0 of
        (Some e, j1) \<Rightarrow> (Some e, j1)
      | (None, j1) \<Rightarrow> go_on (if client_timeout_kind (jn_admission j1) \<noteq> client_timeout_kind (jn_admission j0)
          then j1\<lparr>jn_stage_since := ck_instant ck\<rparr> else j1))"
    by (rule handled_then) (simp add: session_ok_def)
  then show ?thesis unfolding on_network_def Some option.case Let_def j0_def .
qed

text \<open>The messages that a turn puts into the queue; the connection task only takes messages away.\<close>

definition sent_in :: "join_branch \<Rightarrow> join_session \<Rightarrow> join_session \<Rightarrow> message list" where
  "sent_in b j j1 = (case b of JB_Task _ _ \<Rightarrow> [] | _ \<Rightarrow> drop (length (queue j)) (queue j1))"

fun join_sent :: "join_env \<Rightarrow> join_branch list \<Rightarrow> join_session \<Rightarrow> message list" where
  "join_sent E [] j = []"
| "join_sent E (b # bs) j =
     (case join_step E b j of
        None \<Rightarrow> []
      | Some (Some e, j1) \<Rightarrow> sent_in b j j1
      | Some (None, j1) \<Rightarrow> sent_in b j j1 @ join_sent E bs j1)"

lemma handled_sent:
  assumes "handled (queue j) n (e, j1)" and "\<And>t a. b \<noteq> JB_Task t a"
  shows "\<exists>k. follows n (sent_in b j j1) = Some k \<and> (e = None \<longrightarrow> session_ok k j1)"
  using assms by (auto simp: handled_def sent_in_def split: join_branch.splits)

lemma join_step_ok:
  assumes "session_ok n j"
  shows "\<exists>e j1 k. join_step E b j = Some (e, j1) \<and> follows n (sent_in b j j1) = Some k \<and> (e = None \<longrightarrow> session_ok k j1)"
proof -
  have shown: "shown_ok (jn_admission j) (jn_app j)" using assms by (simp add: session_ok_def)
  have apps: "session_ok n (j\<lparr>jn_app := x\<rparr>)" if "shown_ok (jn_admission j) x" for x
    using assms that by (simp add: session_ok_def)
  have plain: ?thesis if "join_step E b j = Some r" "handled (queue j) n r" "\<And>t a. b \<noteq> JB_Task t a" for r
    using handled_sent [of j n "fst r" "snd r" b] that by (cases r) fastforce
  show ?thesis
  proof (cases b)
    case (JB_Tick now exited)
    have "handled (queue j) n (join_tick E now exited j)"
      using assms by (auto simp: join_tick_def handled_end handled_go_on split: sum.splits bool.splits)
    then show ?thesis using JB_Tick by (intro plain) (simp_all add: join_step_def)
  next
    case (JB_Expiry now)
    have "handled (queue j) n (go_on (with_view (\<lambda>v. snd (tick_message_timeout now v)) j))"
      using assms by (intro handled_go_on session_ok_view view_funs) simp_all
    then show ?thesis using JB_Expiry by (intro plain) (simp_all add: join_step_def)
  next
    case (JB_Paste t)
    obtain x where "on_paste t (jn_app j) = Some x" "shown_ok (jn_admission j) x" using shown_ok_paste [OF shown] .
    then show ?thesis using JB_Paste apps by (intro plain [of "go_on (j\<lparr>jn_app := x\<rparr>)"]) (simp_all add: join_step_def handled_go_on)
  next
    case (JB_Key ck copied key)
    obtain action x where x: "on_key ck key (jn_app j) = Some (action, x)" "shown_ok (jn_admission j) x"
      using shown_ok_key [OF shown] .
    have "handled (queue j) n (on_join_action E ck copied action (j\<lparr>jn_app := x\<rparr>))"
      using handled_action [OF apps [OF x(2)]] by simp
    then show ?thesis using JB_Key x(1)
      by (intro plain [of "if is_quit_key key then (Some SE_Quit, j) else on_join_action E ck copied action (j\<lparr>jn_app := x\<rparr>)"])
        (simp_all add: join_step_def handled_end)
  next
    case (JB_Message ck report)
    then show ?thesis using handled_network [OF assms] by (intro plain) (simp_all add: join_step_def)
  next
    case (JB_Task taken alive)
    then show ?thesis using assms by (simp add: join_step_def go_on_def sent_in_def session_ok_def)
  qed (simp_all add: join_step_def sent_in_def)
qed

lemma join_loop_ok:
  "session_ok n j \<Longrightarrow> \<exists>e j1 k. join_loop E bs j = Some (e, j1) \<and> follows n (join_sent E bs j) = Some k \<and>
     (e = None \<longrightarrow> session_ok k j1)"
proof (induction bs arbitrary: n j)
  case Nil
  then show ?case by (simp add: go_on_def)
next
  case (Cons b bs)
  obtain e j1 k where step: "join_step E b j = Some (e, j1)" "follows n (sent_in b j j1) = Some k"
    "e = None \<longrightarrow> session_ok k j1" using join_step_ok [OF Cons.prems] by blast
  show ?case
  proof (cases e)
    case None
    with Cons.IH [of k j1] step show ?thesis by (auto simp: follows_append)
  next
    case (Some x)
    with step show ?thesis by simp
  qed
qed

lemma join_start_ok:
  assumes "client_admission_new invite password es = Inr c" and "join_start E c a now = (None, j)"
  shows "session_ok 1 j \<and> (\<exists>h. queue j = [M_ClientHello h])"
  using assms
  by (auto simp: client_admission_new_def join_start_def net_send_def peer_send_def go_on_def session_ok_def client_ok_def
      shown_ok_def show_join_form_def first_message_def OUTBOUND_QUEUE_CAPACITY_def simp del: screen_ok.simps
      split: sum.splits prod.splits if_splits)

text \<open>
  C7: A participant speaks to the host in the order of the protocol whatever the user types, whatever the host
  answers, and however keys, messages, timeouts and the connection interleave: a hello, then at most one
  token, one password proof and one join request, in this order, and only after them what an admitted
  member sends. No interleaving makes a screen panic, and as long as the session goes on the room screen is
  shown to an admitted participant only, and never in the role of the host.
\<close>

theorem join_speaks_in_order:
  assumes "client_admission_new invite password es = Inr c" and "join_start E c a now = (None, j)"
  shows "\<exists>e j1. join_loop E bs j = Some (e, j1) \<and> follows 0 (queue j @ join_sent E bs j) \<noteq> None \<and>
    (e = None \<longrightarrow> shown_ok (jn_admission j1) (jn_app j1))"
proof -
  obtain h where start: "session_ok 1 j" "queue j = [M_ClientHello h]" using join_start_ok [OF assms] by blast
  obtain e j1 k where loop: "join_loop E bs j = Some (e, j1)" "follows 1 (join_sent E bs j) = Some k"
    "e = None \<longrightarrow> session_ok k j1" using join_loop_ok [OF start(1)] by blast
  then show ?thesis by (auto simp: start(2) session_ok_def)
qed

end
