(* ===== verification/JoinFlow.thy ===== *)
theory JoinFlow
  imports JoinRules
begin

text \<open>
  How joining goes for a user: a form that is filled in before the host has asked for the password is sent as
  soon as it may be; a form that the validation refuses is neither sent nor reported; a nickname typed with
  spare spaces is admitted under another name than the screen uses.
\<close>

definition demo_join_env :: join_env where
  "demo_join_env =
     \<lparr>je_crypto = plain_crypto, je_kdf = plain_kdf, je_nfc = id, je_timeouts = default_timeouts,
      je_admission_text = (\<lambda>_. []), je_chat_text = (\<lambda>_. []), je_send_text = (\<lambda>_. [])\<rparr>"

section \<open>A form that is refused\<close>

text \<open>
  What may happen while the screen says that the request awaits the host: any key but the quit key, pastes,
  keepalives, and ticks before the time for the form is up.
\<close>

fun uneventful :: "join_env \<Rightarrow> duration \<Rightarrow> join_branch \<Rightarrow> bool" where
  "uneventful E since (JB_Tick now exited) \<longleftrightarrow> exited = Inr False \<and> now - since \<le> t_join_form_submission (je_timeouts E)"
| "uneventful E since (JB_Expiry now) \<longleftrightarrow> True"
| "uneventful E since (JB_Paste t) \<longleftrightarrow> True"
| "uneventful E since (JB_Key ck copied key) \<longleftrightarrow> \<not> is_quit_key key"
| "uneventful E since (JB_Message ck report) \<longleftrightarrow> report = Some (Some M_Keepalive)"
| "uneventful E since (JB_Task taken alive) \<longleftrightarrow> True"
| "uneventful E since _ \<longleftrightarrow> False"

definition stranded :: "duration \<Rightarrow> join_session \<Rightarrow> bool" where
  "stranded since j \<longleftrightarrow>
     ca_state (jn_admission j) = CS_AwaitingJoinForm \<and> ap_screen (jn_app j) = Scr_JoinPending \<and> jn_stage_since j = since"

lemma stranded_step:
  assumes "stranded since j" and "uneventful E since b"
  shows "\<exists>j1. join_step E b j = Some (None, j1) \<and> stranded since j1 \<and> sent_in b j j1 = []"
proof -
  have screen: "ap_screen (jn_app j) = Scr_JoinPending" and state: "ca_state (jn_admission j) = CS_AwaitingJoinForm"
    using assms(1) by (simp_all add: stranded_def)
  show ?thesis
    using assms
    by (cases b)
      (auto simp: join_step_def go_on_def stranded_def sent_in_def join_tick_def join_timed_out_def client_timeout_kind_def
        screen state with_view_def on_view_def on_paste_def on_key_def on_screen_key_def on_join_action_def on_network_def
        handle_join_message_def)
qed

lemma stranded_loop:
  "stranded since j \<Longrightarrow> list_all (uneventful E since) bs \<Longrightarrow>
   \<exists>j1. join_loop E bs j = Some (None, j1) \<and> stranded since j1 \<and> join_sent E bs j = []"
proof (induction bs arbitrary: j)
  case Nil
  then show ?case by (simp add: go_on_def)
next
  case (Cons b bs)
  then obtain j1 where "join_step E b j = Some (None, j1)" "stranded since j1" "sent_in b j j1 = []"
    using stranded_step by fastforce
  with Cons show ?case by auto
qed

text \<open>
  A form with a nickname that the validation refuses (the field lets in 128 bytes, the validation 32
  characters) is neither sent nor reported. The loop takes every failure of the join request for a handshake
  that is still in flight, also when the handshake is done: the screen says that the request awaits the
  host's decision, no key but Ctrl-C leaves it, nothing is ever sent, and after two minutes the session ends
  with the report that the room connection timed out.
\<close>

theorem refused_form_strands:
  assumes "ca_state (jn_admission j) = CS_AwaitingJoinForm"
    and "validate_nickname (je_nfc E) nickname default_limits = Inl err"
    and "list_all (uneventful E (jn_stage_since j)) bs"
    and "t_join_form_submission (je_timeouts E) < now - jn_stage_since j"
  shows "\<exists>j1 j2. on_join_action E ck copied (AA_JoinFormSubmitted nickname introduction) j = (None, j1) \<and>
    queue j1 = queue j \<and> join_loop E bs j1 = Some (None, j2) \<and> join_sent E bs j1 = [] \<and>
    ap_screen (jn_app j2) = Scr_JoinPending \<and>
    join_tick E now (Inr False) j2 = (Some (SE_Failed (rs ''the room connection timed out'')), j2)"
proof -
  have refused: "\<exists>e. client_join_request (je_nfc E) (je_crypto E) nickname introduction c = (Inl e, c)" for c
    using assms(2) by (auto simp: client_join_request_def split: option.splits)
  then obtain e where e: "client_join_request (je_nfc E) (je_crypto E) nickname introduction (jn_admission j) =
    (Inl e, jn_admission j)" by blast
  define j1 where "j1 = j\<lparr>jn_app := show_join_pending (jn_app j), jn_own_nickname := Some nickname,
    jn_pending_form := Some (nickname, introduction)\<rparr>"
  have act: "on_join_action E ck copied (AA_JoinFormSubmitted nickname introduction) j = (None, j1)"
    by (simp add: on_join_action_def submit_form_def on_admission_def e go_on_def j1_def Let_def)
  have "stranded (jn_stage_since j) j1"
    using assms(1) by (simp add: stranded_def j1_def show_join_pending_def)
  from stranded_loop [OF this assms(3)] obtain j2 where
    j2: "join_loop E bs j1 = Some (None, j2)" "stranded (jn_stage_since j) j2" "join_sent E bs j1 = []" by blast
  have "join_tick E now (Inr False) j2 = (Some (SE_Failed (rs ''the room connection timed out'')), j2)"
    using j2(2) assms(4) by (simp add: stranded_def join_tick_def join_timed_out_def client_timeout_kind_def)
  with act j2 show ?thesis by (auto simp: stranded_def j1_def)
qed

text \<open>Thirty-three letters, which the form accepts.\<close>

definition demo_join_session :: join_session where
  "demo_join_session =
     \<lparr>jn_app = app_new, jn_admission = demo_client_admission\<lparr>ca_state := CS_AwaitingJoinForm\<rparr>,
      jn_peer = \<lparr>pc_outbound = [], pc_open = True\<rparr>, jn_pending_form = None, jn_own_nickname = None,
      jn_stage_since = 0, jn_last_seen = 0\<rparr>"

theorem refused_form_strands_witness:
  "\<exists>j1 j2. on_join_action demo_join_env \<lparr>ck_instant = 0, ck_unix_seconds = 0\<rparr> None
      (AA_JoinFormSubmitted (replicate 33 0x61) None) demo_join_session = (None, j1) \<and>
    queue j1 = [] \<and> join_loop demo_join_env [JB_Tick (secs 60) (Inr False)] j1 = Some (None, j2) \<and>
    join_tick demo_join_env (secs 121) (Inr False) j2 = (Some (SE_Failed (rs ''the room connection timed out'')), j2)"
proof -
  have long: "validate_nickname (je_nfc demo_join_env) (replicate 33 0x61) default_limits = Inl (NicknameTooLong 32)"
  proof -
    have "collapse_spaces (replicate 33 0x61) = replicate 33 0x61"
      using collapse_join [of "[replicate 33 0x61]"] by (simp add: words_ok_def)
    moreover have "\<not> contains_control_char (replicate 33 0x61)"
      "\<not> list_ex (\<lambda>c. char_is_whitespace c \<and> c \<noteq> 0x20) (replicate 33 (0x61 :: nat))"
      by (simp_all add: contains_control_char_def list_ex_iff is_unsafe_display_char_def char_is_control_def
          is_dangerous_format_char_def char_is_whitespace_def)
    ultimately show ?thesis
      by (simp add: demo_join_env_def validate_nickname_def default_limits_def Let_def)
  qed
  have now: "t_join_form_submission (je_timeouts demo_join_env) < secs 121 - jn_stage_since demo_join_session"
    and quiet: "list_all (uneventful demo_join_env (jn_stage_since demo_join_session)) [JB_Tick (secs 60) (Inr False)]"
    and state: "ca_state (jn_admission demo_join_session) = CS_AwaitingJoinForm"
    by (simp_all add: demo_join_env_def demo_join_session_def default_timeouts_def secs_def)
  show ?thesis
    using refused_form_strands [OF state long quiet now, of "\<lparr>ck_instant = 0, ck_unix_seconds = 0\<rparr>" None None]
    by (auto simp: demo_join_session_def)
qed

section \<open>A form that is filled in early\<close>

lemma net_send_room:
  "pc_open (jn_peer j) \<Longrightarrow> length (queue j) < OUTBOUND_QUEUE_CAPACITY \<Longrightarrow>
   net_send m j = (Inr (), j\<lparr>jn_peer := (jn_peer j)\<lparr>pc_outbound := queue j @ [m]\<rparr>\<rparr>)"
  by (simp add: net_send_def peer_send_def)

text \<open>
  C8: A form that is filled in while the password challenge is still on its way is not lost: nothing is sent
  when it is submitted, and when the challenge comes the password proof and, right behind it, the join
  request with the canonical nickname leave for the host, and the session awaits the decision.
\<close>

theorem early_form_is_sent:
  assumes "ca_state (jn_admission j) = CS_AwaitingChallenge"
    and "ca_host_hello (jn_admission j) = Some info" and "ca_server_nonce (jn_admission j) = Some nonce"
    and "on_host_message (je_crypto E) (je_kdf E) (M_PasswordChallenge challenge) (jn_admission j) =
      (Inr [M_ChallengeProof proof], c)"
    and "validate_nickname (je_nfc E) nickname default_limits = Inr n" and "je_nfc E n = n"
    and "case introduction of Some s \<Rightarrow> validate_intro s default_limits = Inr () | None \<Rightarrow> True"
    and "pc_open (jn_peer j)" and "length (queue j) + 2 \<le> OUTBOUND_QUEUE_CAPACITY"
  shows "\<exists>j1 j2 request. on_join_action E ck copied (AA_JoinFormSubmitted nickname introduction) j = (None, j1) \<and>
    queue j1 = queue j \<and>
    handle_join_message E ck1 (M_PasswordChallenge challenge) j1 = (None, j2) \<and>
    queue j2 = queue j @ [M_ChallengeProof proof, M_JoinRequest request] \<and>
    jr_nickname request = n \<and> jr_introduction request = introduction \<and>
    ca_state (jn_admission j2) = CS_AwaitingDecision \<and> ap_screen (jn_app j2) = Scr_JoinPending"
proof -
  define j1 where "j1 = j\<lparr>jn_app := show_join_pending (jn_app j), jn_own_nickname := Some nickname,
    jn_pending_form := Some (nickname, introduction)\<rparr>"
  have act: "on_join_action E ck copied (AA_JoinFormSubmitted nickname introduction) j = (None, j1)"
    using assms(1)
    by (simp add: on_join_action_def submit_form_def on_admission_def client_join_request_def go_on_def j1_def Let_def)
  have c: "c = (jn_admission j)\<lparr>ca_password := [], ca_state := CS_AwaitingJoinForm\<rparr>"
    using assms(1,4) by (auto simp: on_host_message_def handle_challenge_def split: if_splits sum.splits)
  obtain request where r: "client_join_request (je_nfc E) (je_crypto E) nickname introduction c =
      (Inr (M_JoinRequest request), c\<lparr>ca_state := CS_AwaitingDecision\<rparr>)"
    "jr_nickname request = n" "jr_introduction request = introduction"
    using assms(2,3,5,7) validate_nickname_again [OF assms(5,6)]
    by (cases introduction) (auto simp: client_join_request_def join_request_new_def Let_def c)
  define j2 where "j2 = j1\<lparr>jn_admission := c\<lparr>ca_state := CS_AwaitingDecision\<rparr>, jn_pending_form := None,
    jn_peer := (jn_peer j)\<lparr>pc_outbound := queue j @ [M_ChallengeProof proof, M_JoinRequest request]\<rparr>\<rparr>"
  have "handle_join_message E ck1 (M_PasswordChallenge challenge) j1 = (None, j2)"
    using assms(4,8,9) r(1)
    by (simp add: handle_join_message_def on_handshake_def on_admission_def j1_def send_or_fail_def net_send_room
        is_challenge_answer_def send_pending_form_def go_on_def enter_if_admitted_def is_admitted_def j2_def)
  with act r show ?thesis by (auto simp: j1_def j2_def show_join_pending_def)
qed

section \<open>The name on the screen\<close>

text \<open>
  The room screen of a participant keeps the nickname as it was typed, while the room knows the
  canonical one. When the two differ (a trailing space is enough), no entry of the member table has the
  participant's own name: its messages are shown under the typed name and always in the default color,
  whatever color the member table gives it.
\<close>

theorem typed_nickname_loses_color:
  assumes "ca_state (jn_admission j) = CS_AwaitingDecision" and "jn_own_nickname j = Some nickname"
    and "validate_nickname (je_nfc E) nickname default_limits = Inr n" and "n \<noteq> nickname"
    and "list_all (\<lambda>m. validate_nickname (je_nfc E) (mb_nickname m) default_limits = Inr (mb_nickname m)) ms"
  shows "\<exists>j1 v. handle_join_message E ck (M_JoinAccepted \<lparr>ja_member_id = k\<rparr>) j = (None, j1) \<and>
    ap_screen (jn_app j1) = Scr_Room v \<and>
    ml_nickname (last (rb_lines (rv_messages (push_own ck1 t (set_members ms v))))) =
      Some \<lparr>ns_text = sanitize_for_display nickname, ns_color = White\<rparr>"
proof -
  have none: "List.find (\<lambda>m. mb_nickname m = nickname) ms = None"
    using assms(3,4,5) by (auto simp: find_None_iff list_all_iff)
  define v where "v = room_view_new False nickname (ck_instant ck)"
  have "\<exists>j1. handle_join_message E ck (M_JoinAccepted \<lparr>ja_member_id = k\<rparr>) j = (None, j1) \<and> ap_screen (jn_app j1) = Scr_Room v"
    using assms(1,2)
    by (auto simp: handle_join_message_def on_handshake_def on_admission_def on_host_message_def handle_accepted_def Let_def
        go_on_def enter_if_admitted_def is_admitted_def enter_room_def v_def split: option.splits)
  moreover have "rv_own_nickname v = nickname" "rb_capacity (rv_messages v) = 256"
    by (simp_all add: v_def room_view_new_def buffer_new_def DEFAULT_RENDER_BUFFER_CAPACITY_def)
  then have "ml_nickname (last (rb_lines (rv_messages (push_own ck1 t (set_members ms v))))) =
      Some \<lparr>ns_text = sanitize_for_display nickname, ns_color = White\<rparr>"
    using none by (simp add: push_own_def member_by_nickname_def set_members_def push_chat_def push_message_def
        buffer_push_def push_bounded_def color_default_def Let_def)
  ultimately show ?thesis by blast
qed

text \<open>The name of the handshake's witness with a space behind it; its entry of the member table is red.\<close>

lemma demo_spaced_name: "validate_nickname id (rs ''zoe '') default_limits = Inr (rs ''zoe'')"
  by (simp add: rs_def validate_nickname_def Let_def contains_control_char_def
      is_unsafe_display_char_def char_is_control_def is_dangerous_format_char_def
      char_is_whitespace_def collapse_spaces_def push_word_def default_limits_def)

theorem typed_nickname_loses_color_witness:
  "\<exists>v. rv_own_nickname v = rs ''zoe '' \<and>
     ml_nickname (last (rb_lines (rv_messages (push_own \<lparr>ck_instant = 1, ck_unix_seconds = 1\<rparr> (rs ''hi'')
       (set_members [\<lparr>mb_member_id = 3, mb_nickname = rs ''zoe'', mb_color = Red, mb_is_host = False\<rparr>] v))))) =
     Some \<lparr>ns_text = rs ''zoe '', ns_color = White\<rparr>"
proof -
  define j where "j = demo_join_session\<lparr>jn_admission := demo_client_admission\<lparr>ca_state := CS_AwaitingDecision\<rparr>,
    jn_own_nickname := Some (rs ''zoe '')\<rparr>"
  define ck where "ck = \<lparr>ck_instant = 1, ck_unix_seconds = 1\<rparr>"
  let ?ms = "[\<lparr>mb_member_id = 3, mb_nickname = rs ''zoe'', mb_color = Red, mb_is_host = False\<rparr>]"
  have pre: "ca_state (jn_admission j) = CS_AwaitingDecision" "jn_own_nickname j = Some (rs ''zoe '')"
    "validate_nickname (je_nfc demo_join_env) (rs ''zoe '') default_limits = Inr (rs ''zoe'')"
    "rs ''zoe'' \<noteq> rs ''zoe ''"
    "list_all (\<lambda>m. validate_nickname (je_nfc demo_join_env) (mb_nickname m) default_limits = Inr (mb_nickname m)) ?ms"
    using demo_participant_name demo_spaced_name by (simp_all add: j_def demo_join_env_def) (simp add: rs_def)
  have safe: "sanitize_for_display (rs ''zoe '') = rs ''zoe ''"
    by (simp add: rs_def sanitize_for_display_def is_unsafe_display_char_def char_is_control_def
        is_dangerous_format_char_def)
  obtain j1 v where v: "handle_join_message demo_join_env ck (M_JoinAccepted \<lparr>ja_member_id = 3\<rparr>) j = (None, j1)"
    "ap_screen (jn_app j1) = Scr_Room v"
    "ml_nickname (last (rb_lines (rv_messages (push_own ck (rs ''hi'') (set_members ?ms v))))) =
      Some \<lparr>ns_text = rs ''zoe '', ns_color = White\<rparr>"
    using typed_nickname_loses_color [OF pre, of ck 3 ck "rs ''hi''"] unfolding safe by blast
  have "rv_own_nickname v = rs ''zoe ''"
    using v(1,2) pre(1,2)
    by (auto simp: handle_join_message_def on_handshake_def on_admission_def on_host_message_def handle_accepted_def Let_def
        go_on_def enter_if_admitted_def is_admitted_def enter_room_def room_view_new_def split: option.splits)
  with v(3) show ?thesis unfolding ck_def by blast
qed

text \<open>The participant of the handshake's witness, with the form filled in before the challenge.\<close>

theorem early_form_is_sent_witness:
  "\<exists>j j1 j2 proof request. queue j = [] \<and>
     on_join_action demo_join_env \<lparr>ck_instant = 0, ck_unix_seconds = 0\<rparr> None
       (AA_JoinFormSubmitted (rs ''zoe '') None) j = (None, j1) \<and>
     handle_join_message demo_join_env \<lparr>ck_instant = 1, ck_unix_seconds = 1\<rparr>
       (M_PasswordChallenge \<lparr>pc_m_cost = ARGON2_M_COST, pc_t_cost = ARGON2_T_COST, pc_p_cost = ARGON2_P_COST,
          pc_salt = [], pc_challenge_nonce = []\<rparr>) j1 = (None, j2) \<and>
     queue j2 = [M_ChallengeProof proof, M_JoinRequest request] \<and> jr_nickname request = rs ''zoe''"
proof -
  let ?challenge = "\<lparr>pc_m_cost = ARGON2_M_COST, pc_t_cost = ARGON2_T_COST, pc_p_cost = ARGON2_P_COST,
    pc_salt = [], pc_challenge_nonce = []\<rparr>"
  define info where "info = \<lparr>hhi_room_session_id = [], hhi_host_ed25519_pubkey = [], hhi_host_x25519_pubkey = [],
    hhi_signature = []\<rparr>"
  define c where "c = demo_client_admission\<lparr>ca_state := CS_AwaitingChallenge, ca_host_hello := Some info,
    ca_server_nonce := Some []\<rparr>"
  define j where "j = demo_join_session\<lparr>jn_admission := c\<rparr>"
  obtain pr where pr: "compute_password_proof plain_kdf [1, 2, 3] [] ARGON2_M_COST ARGON2_T_COST ARGON2_P_COST []
      (ca_client_nonce c) = Inr pr"
    by (simp add: compute_password_proof_def derive_key_def plain_kdf_def bindE_def)
  have "on_host_message (je_crypto demo_join_env) (je_kdf demo_join_env) (M_PasswordChallenge ?challenge) (jn_admission j) =
      (Inr [M_ChallengeProof \<lparr>cp_proof = pr\<rparr>], c\<lparr>ca_password := [], ca_state := CS_AwaitingJoinForm\<rparr>)"
    using pr by (simp add: on_host_message_def handle_challenge_def demo_join_env_def j_def c_def demo_fields)
  note pre = this
  have state: "ca_state (jn_admission j) = CS_AwaitingChallenge" "ca_host_hello (jn_admission j) = Some info"
    "ca_server_nonce (jn_admission j) = Some []"
    by (simp_all add: j_def c_def)
  have form: "validate_nickname (je_nfc demo_join_env) (rs ''zoe '') default_limits = Inr (rs ''zoe'')"
    "je_nfc demo_join_env (rs ''zoe'') = rs ''zoe''"
    "case None of Some s \<Rightarrow> validate_intro s default_limits = Inr () | None \<Rightarrow> True"
    using demo_spaced_name by (simp_all add: demo_join_env_def)
  have room: "pc_open (jn_peer j)" "length (queue j) + 2 \<le> OUTBOUND_QUEUE_CAPACITY" and empty: "queue j = []"
    by (simp_all add: j_def demo_join_session_def OUTBOUND_QUEUE_CAPACITY_def)
  from early_form_is_sent [OF state pre form room, of "\<lparr>ck_instant = 0, ck_unix_seconds = 0\<rparr>" None
      "\<lparr>ck_instant = 1, ck_unix_seconds = 1\<rparr>", unfolded empty append_Nil] empty
  show ?thesis by blast
qed

section \<open>A session of two turns\<close>

theorem join_speaks_in_order_witness:
  "\<exists>j. join_start demo_join_env demo_client_admission app_new 0 = (None, j) \<and>
     follows 0 (queue j @ join_sent demo_join_env [JB_Tick (secs 1) (Inr False), JB_KeysClosed] j) \<noteq> None"
proof -
  obtain j where j: "join_start demo_join_env demo_client_admission app_new 0 = (None, j)"
    by (simp add: join_start_def net_send_def peer_send_def go_on_def OUTBOUND_QUEUE_CAPACITY_def)
  from join_speaks_in_order [OF demo_client_admission j, of "[JB_Tick (secs 1) (Inr False), JB_KeysClosed]"] j
  show ?thesis by blast
qed

end
