(* ===== verification/Render.thy ===== *)
theory Render
  imports Screens
begin

text \<open>
  Drawing the screens (\<open>ui/render.rs\<close>). A screen is drawn as the list of the widgets handed to the terminal
  library, each with its rectangle. The library's layout and the widths of characters and strings are
  parameters (\<open>draw_env\<close>); rectangles are \<open>u16\<close> words, whose sums wrap where the code does not saturate.
\<close>

section \<open>What is handed to the terminal library\<close>

datatype term_color = TC_Red | TC_Green | TC_Yellow | TC_Blue | TC_Magenta | TC_Cyan | TC_Gray | TC_DarkGray

record style =
  st_fg :: "term_color option"
  st_bold :: bool
  st_reversed :: bool

definition style_default :: style where
  "style_default = \<lparr>st_fg = None, st_bold = False, st_reversed = False\<rparr>"

definition style_fg :: "term_color \<Rightarrow> style" where
  "style_fg c = style_default\<lparr>st_fg := Some c\<rparr>"

definition style_bold :: style where "style_bold = style_default\<lparr>st_bold := True\<rparr>"
definition style_reversed :: style where "style_reversed = style_default\<lparr>st_reversed := True\<rparr>"

type_synonym text_span = "rstring \<times> style"
type_synonym text_row = "text_span list"

definition raw :: "rstring \<Rightarrow> text_row" where
  "raw s = [(s, style_default)]"

record rect =
  rt_x :: u16
  rt_y :: u16
  rt_width :: u16
  rt_height :: u16

datatype direction = Dir_Vertical | Dir_Horizontal

datatype layout_constraint = Cn_Length u16 | Cn_Min u16 | Cn_Percentage u16

text \<open>A block is its title; every block of the program has all borders.\<close>

type_synonym block = "text_span option"

datatype widget =
    Wd_Paragraph "text_row list" bool bool "block option"
  | Wd_List "text_row list" block
  | Wd_Gauge block style u16 rstring
  | Wd_Block block
  | Wd_Clear

type_synonym drawing = "(widget \<times> rect) list"

definition left_paragraph :: "text_row list \<Rightarrow> widget" where
  "left_paragraph rows = Wd_Paragraph rows False False None"

definition centered_paragraph :: "text_row list \<Rightarrow> widget" where
  "centered_paragraph rows = Wd_Paragraph rows True False None"

text \<open>\<open>de_layout\<close> is \<open>Layout::split\<close> with direction, margin and constraints: a rectangle for each constraint.\<close>

record draw_env =
  de_char_width :: "nat \<Rightarrow> nat option"
  de_str_width :: "rstring \<Rightarrow> nat"
  de_layout :: "direction \<Rightarrow> nat \<Rightarrow> layout_constraint list \<Rightarrow> rect \<Rightarrow> rect list"

definition cell_width :: "draw_env \<Rightarrow> nat \<Rightarrow> nat" where
  "cell_width D c = (case de_char_width D c of Some w \<Rightarrow> w | None \<Rightarrow> 0)"

section \<open>Colors and areas\<close>

definition HOST_MARKER :: rstring where "HOST_MARKER = rs ''[HOST]''"

fun member_color :: "color_choice \<Rightarrow> term_color" where
  "member_color Red = TC_Red"
| "member_color Green = TC_Green"
| "member_color Yellow = TC_Yellow"
| "member_color Blue = TC_Blue"
| "member_color Magenta = TC_Magenta"
| "member_color Cyan = TC_Cyan"
| "member_color White = TC_Gray"

fun style_of_line :: "line_style \<Rightarrow> style" where
  "style_of_line LS_Chat = style_default"
| "style_of_line LS_Notice = style_fg TC_Cyan"
| "style_of_line LS_Alert = style_fg TC_Yellow"
| "style_of_line (LS_Palette color) = style_fg (member_color color)"
| "style_of_line LS_Error = style_fg TC_Red"
| "style_of_line LS_Muted = style_fg TC_DarkGray"

definition title_block :: "rstring \<Rightarrow> block" where
  "title_block title = Some (title, style_bold)"

definition plain_block :: "rstring \<Rightarrow> block" where
  "plain_block title = Some (title, style_default)"

definition saturating_add16 :: "u16 \<Rightarrow> u16 \<Rightarrow> u16" where
  "saturating_add16 a b = (if unat a + unat b < 2 ^ 16 then a + b else 0xFFFF)"

definition saturating_sub16 :: "u16 \<Rightarrow> u16 \<Rightarrow> u16" where
  "saturating_sub16 a b = (if b \<le> a then a - b else 0)"

definition centered_area :: "rect \<Rightarrow> u16 \<Rightarrow> u16 \<Rightarrow> rect" where
  "centered_area area width height =
     (let w = min width (rt_width area); h = min height (rt_height area)
      in \<lparr>rt_x = rt_x area + (rt_width area - w) div 2, rt_y = rt_y area + (rt_height area - h) div 2,
          rt_width = w, rt_height = h\<rparr>)"

definition footer_row :: "rect \<Rightarrow> rect" where
  "footer_row area =
     \<lparr>rt_x = rt_x area, rt_y = saturating_add16 (rt_y area) (saturating_sub16 (rt_height area) 1),
      rt_width = rt_width area, rt_height = min (rt_height area) 1\<rparr>"

definition inner_area :: "rect \<Rightarrow> rect" where
  "inner_area area =
     \<lparr>rt_x = rt_x area + 1, rt_y = rt_y area + 1, rt_width = saturating_sub16 (rt_width area) 2,
      rt_height = saturating_sub16 (rt_height area) 2\<rparr>"

definition format_elapsed :: "duration \<Rightarrow> rstring" where
  "format_elapsed d =
     (let seconds = d div secs 1
      in two_digits (seconds div 3600) @ rs '':'' @ two_digits (seconds mod 3600 div 60) @ rs '':'' @
         two_digits (seconds mod 60))"

section \<open>Wrapping\<close>

text \<open>The loop of \<open>wrap_for_display\<close>: the chunks that are done, the current one and its width.\<close>

fun wrap_loop :: "draw_env \<Rightarrow> nat \<Rightarrow> rstring list \<Rightarrow> rstring \<Rightarrow> nat \<Rightarrow> rstring \<Rightarrow> rstring list" where
  "wrap_loop D width chunks current used [] = (if current \<noteq> [] then chunks @ [current] else chunks)"
| "wrap_loop D width chunks current used (ch # text) =
     (if width < used + cell_width D ch
      then wrap_loop D width (chunks @ [current]) [ch] (cell_width D ch) text
      else wrap_loop D width chunks (current @ [ch]) (used + cell_width D ch) text)"

definition wrap_for_display :: "draw_env \<Rightarrow> rstring \<Rightarrow> nat \<Rightarrow> rstring list" where
  "wrap_for_display D text width =
     (if width \<le> 1 \<or> text = [] then [text] else wrap_loop D width [] [] 0 text)"

record wrap_state =
  ws_lines :: "text_row list"
  ws_current :: text_row
  ws_pending :: rstring
  ws_pending_style :: style
  ws_used :: nat

text \<open>Closing the pending run, and the current line.\<close>

definition close_run :: "wrap_state \<Rightarrow> wrap_state" where
  "close_run w =
     (if ws_pending w \<noteq> []
      then w\<lparr>ws_current := ws_current w @ [(ws_pending w, ws_pending_style w)], ws_pending := []\<rparr> else w)"

definition close_line :: "wrap_state \<Rightarrow> wrap_state" where
  "close_line w =
     (if ws_current w \<noteq> [] then w\<lparr>ws_lines := ws_lines w @ [ws_current w], ws_current := []\<rparr> else w)"

definition wrap_char :: "draw_env \<Rightarrow> nat \<Rightarrow> style \<Rightarrow> nat \<Rightarrow> wrap_state \<Rightarrow> wrap_state" where
  "wrap_char D width style ch w =
     (let w1 = (if style \<noteq> ws_pending_style w then (close_run w)\<lparr>ws_pending_style := style\<rparr> else w);
          w2 = (if 1 < width \<and> width < ws_used w1 + cell_width D ch
                then (close_line (close_run w1))\<lparr>ws_used := 0\<rparr> else w1)
      in w2\<lparr>ws_pending := ws_pending w2 @ [ch], ws_used := ws_used w2 + cell_width D ch\<rparr>)"

definition wrap_segments :: "draw_env \<Rightarrow> text_row \<Rightarrow> nat \<Rightarrow> text_row list" where
  "wrap_segments D segments width =
     ws_lines (close_line (close_run
       (fold (\<lambda>(text, style). fold (wrap_char D width style) text) segments
         \<lparr>ws_lines = [], ws_current = [], ws_pending = [], ws_pending_style = style_default, ws_used = 0\<rparr>)))"

section \<open>The visible part of the input\<close>

text \<open>
  \<open>fit_back\<close> goes back from the cursor over the reversed text before it and keeps what fits; \<open>fit\<close> goes
  forward from there. The text from \<open>start\<close> on stands for the byte index \<open>start\<close>.
\<close>

fun fit_back :: "draw_env \<Rightarrow> nat \<Rightarrow> nat \<Rightarrow> rstring \<Rightarrow> rstring \<Rightarrow> rstring" where
  "fit_back D width used [] kept = kept"
| "fit_back D width used (ch # before) kept =
     (if width < used + cell_width D ch then kept
      else fit_back D width (used + cell_width D ch) before (ch # kept))"

fun fit :: "draw_env \<Rightarrow> nat \<Rightarrow> nat \<Rightarrow> rstring \<Rightarrow> rstring" where
  "fit D width used [] = []"
| "fit D width used (ch # text) =
     (if width < used + cell_width D ch then [] else ch # fit D width (used + cell_width D ch) text)"

definition input_viewport :: "draw_env \<Rightarrow> rstring \<Rightarrow> nat \<Rightarrow> nat \<Rightarrow> rstring option" where
  "input_viewport D text cursor width =
     (if text = [] \<or> width = 0 then Some []
      else map_option (\<lambda>(prefix, rest).
        fit D width 0
          ((if de_str_width D prefix \<le> width then prefix else fit_back D width 0 (rev prefix) []) @ rest))
        (split_bytes (min cursor (str_len text)) text))"

section \<open>The forms\<close>

definition footer_hint :: "rect \<Rightarrow> rstring \<Rightarrow> widget \<times> rect" where
  "footer_hint area hint = (centered_paragraph [[(hint, style_fg TC_DarkGray)]], footer_row area)"

definition draw_menu :: "nat \<Rightarrow> rect \<Rightarrow> drawing" where
  "draw_menu selection whole =
     (let area = centered_area whole 44 12;
          items = map (\<lambda>(index, label).
            if index = selection then [(rs ''> '' @ label, style_bold)] else [(rs ''  '' @ label, style_default)])
            (enumerate 0 MENU_ITEMS)
      in [(Wd_List items (title_block (rs ''VEILROOM'')), area),
          footer_hint area (rs ''up/down select, enter confirm, q quit'')])"

definition draw_tor_connection :: "u8 \<Rightarrow> rect \<Rightarrow> drawing" where
  "draw_tor_connection progress whole =
     [(Wd_Gauge (title_block (rs ''Connecting to Tor'')) (style_fg TC_Cyan) (ucast progress)
        (dec (unat progress) @ rs ''%''), centered_area whole 44 3)]"

definition render_label :: "rect \<Rightarrow> rstring \<Rightarrow> bool \<Rightarrow> widget \<times> rect" where
  "render_label area text is_error =
     (left_paragraph [[(text, style_fg (if is_error then TC_Red else TC_DarkGray))]], area)"

definition render_field :: "rect \<Rightarrow> rstring \<Rightarrow> bool \<Rightarrow> widget \<times> rect" where
  "render_field area value active =
     (left_paragraph [[(value, if active then style_reversed else style_default)]], area)"

definition hint_text :: "rstring option \<Rightarrow> rstring \<Rightarrow> rstring" where
  "hint_text e hint = (case e of Some t \<Rightarrow> sanitize_for_display t | None \<Rightarrow> hint)"

definition bullets :: "secret_field \<Rightarrow> rstring" where
  "bullets f = replicate (masked f) 0x2022"

definition form_rows :: "draw_env \<Rightarrow> nat \<Rightarrow> rect \<Rightarrow> rect list" where
  "form_rows D n area = de_layout D Dir_Vertical 1 (replicate n (Cn_Length 1)) (inner_area area)"

definition draw_host_setup :: "draw_env \<Rightarrow> host_setup_model \<Rightarrow> rect \<Rightarrow> drawing" where
  "draw_host_setup D form whole =
     (let area = centered_area whole 56 12; rows = form_rows D 6 area
      in [(Wd_Block (title_block (rs ''Host a room'')), area),
          render_label (rows ! 0) (hint_text (hs_error form) (rs ''Enter the room password twice.'')) (hs_error form \<noteq> None),
          render_label (rows ! 1) (rs ''Password:'') False,
          render_field (rows ! 2) (bullets (hs_password form)) (hs_focus form = HF_Password),
          render_label (rows ! 3) (rs ''Confirm password:'') False,
          render_field (rows ! 4) (bullets (hs_confirm form)) (hs_focus form = HF_Confirm),
          render_field (rows ! 5) (rs ''Nickname: '' @ sanitize_for_display (tf_text (hs_nickname form)))
            (hs_focus form = HF_Nickname)])"

definition draw_join_setup :: "draw_env \<Rightarrow> join_setup_model \<Rightarrow> rect \<Rightarrow> drawing" where
  "draw_join_setup D form whole =
     (let area = centered_area whole 64 10; rows = form_rows D 4 area
      in [(Wd_Block (title_block (rs ''Join a room'')), area),
          render_label (rows ! 0) (hint_text (js_error form) (rs ''Paste the invitation URI from the host.''))
            (js_error form \<noteq> None),
          render_label (rows ! 1) (rs ''Invitation URI:'') False,
          render_field (rows ! 2) (sanitize_for_display (tf_text (js_invitation form))) (js_focus form = JF_Invitation),
          render_field (rows ! 3) (rs ''Password: '' @ bullets (js_password form)) (js_focus form = JF_Password)])"

definition draw_join_form :: "draw_env \<Rightarrow> join_form_model \<Rightarrow> rect \<Rightarrow> drawing" where
  "draw_join_form D form whole =
     (let area = centered_area whole 56 9; rows = form_rows D 4 area
      in [(Wd_Block (title_block (rs ''Join request'')), area),
          render_label (rows ! 0)
            (hint_text (jf_error form) (rs ''Complete the join form; the password was verified during the handshake.''))
            (jf_error form \<noteq> None),
          render_field (rows ! 1) (rs ''Nickname: '' @ sanitize_for_display (tf_text (jf_nickname form)))
            (jf_focus form = JFF_Nickname),
          render_field (rows ! 2) (rs ''Introduction: '' @ sanitize_for_display (tf_text (jf_introduction form)))
            (jf_focus form = JFF_Introduction),
          render_label (rows ! 3) (rs ''Enter submits, Esc goes back; introduction is optional.'') False])"

definition draw_join_pending :: "rect \<Rightarrow> drawing" where
  "draw_join_pending whole =
     [(Wd_Paragraph
        [raw (rs ''Your join request was sent.''), raw [],
         [(rs ''Waiting for the host to accept or reject it...'', style_fg TC_Yellow)]]
        True False (Some (title_block (rs ''Waiting for host approval''))), centered_area whole 56 7)]"

section \<open>The room\<close>

definition room_header :: "room_view \<Rightarrow> rstring" where
  "room_header v =
     (if rv_is_host v
      then rs ''VEILROOM'' @ em_dash @ rs ''hosting as '' @ sanitize_for_display (rv_own_nickname v) @ em_dash @
        (if uses_host_view v then rs ''host view'' else rs ''member view'')
      else rs ''VEILROOM'' @ em_dash @ rs ''joined as '' @ sanitize_for_display (rv_own_nickname v)) @
     (if rv_status v \<noteq> [] then em_dash @ sanitize_for_display (rv_status v) else []) @
     (if \<not> rv_show_system_messages v then em_dash @ rs ''user messages only'' else [])"

definition draw_room_header :: "clock \<Rightarrow> room_view \<Rightarrow> rect \<Rightarrow> rstring \<Rightarrow> drawing" where
  "draw_room_header ck v area header =
     (Wd_Block None, area) #
     (if rt_width area < 5 \<or> rt_height area < 3 then []
      else
        let divider_x = rt_x area + rt_width area div 2;
            inner_y = rt_y area + 1;
            inner_height = saturating_sub16 (rt_height area) 2;
            left = \<lparr>rt_x = rt_x area + 1, rt_y = inner_y, rt_width = saturating_sub16 divider_x (rt_x area + 1),
              rt_height = inner_height\<rparr>;
            right_x = saturating_add16 divider_x 1;
            right = \<lparr>rt_x = right_x, rt_y = inner_y,
              rt_width = saturating_sub16 (saturating_sub16 (saturating_add16 (rt_x area) (rt_width area)) 1) right_x,
              rt_height = inner_height\<rparr>;
            elapsed_label = (if rv_is_host v then rs ''Room uptime'' else rs ''In room'');
            divider = map (\<lambda>row. raw [if row = 0 then 0x252C else if row + 1 = unat (rt_height area) then 0x2534 else 0x2502])
              [0..<unat (rt_height area)]
        in [(centered_paragraph [raw [], raw header], left),
            (centered_paragraph
               [raw (rs ''GMT: '' @ gmt_display (gmt_now ck)),
                raw (elapsed_label @ rs '': '' @ format_elapsed (room_elapsed (ck_instant ck) v)),
                raw (rs ''Participants: '' @ dec (participant_count v))], right),
            (left_paragraph divider,
             \<lparr>rt_x = divider_x, rt_y = rt_y area, rt_width = 1, rt_height = rt_height area\<rparr>)])"

text \<open>The rows of one line: \<open>rest\<close> is the text behind the nickname it begins with.\<close>

definition message_rows :: "draw_env \<Rightarrow> nat \<Rightarrow> message_line \<Rightarrow> text_row list" where
  "message_rows D inner_width line =
     (let style = style_of_line (ml_style line);
          timestamped = rs ''['' @ gmt_display (ml_timestamp line) @ rs ''] ''
      in case ml_nickname line of
           Some nickname \<Rightarrow>
             let rest = (case split_bytes (str_len (ns_text nickname)) (ml_text line) of
                           Some (_, r) \<Rightarrow> r | None \<Rightarrow> ml_text line)
             in wrap_segments D
                  [(timestamped, style), (ns_text nickname, style_fg (member_color (ns_color nickname))), (rest, style)]
                  inner_width
         | None \<Rightarrow>
             map (\<lambda>chunk. [(chunk, style)])
               (wrap_for_display D (timestamped @ sanitize_for_display (ml_text line)) inner_width))"

definition draw_messages :: "draw_env \<Rightarrow> room_view \<Rightarrow> rect \<Rightarrow> drawing" where
  "draw_messages D v area =
     (let rows = concat (map (message_rows D (unat (saturating_sub16 (rt_width area) 2)))
            (filter (\<lambda>line. rv_show_system_messages v \<or> ml_style line = LS_Chat) (rb_lines (rv_messages v))));
          visible = unat (saturating_sub16 (rt_height area) 2)
      in [(Wd_List (drop (length rows - visible) rows) (plain_block (rs ''Messages'')), area)])"

definition member_row :: "member_line \<Rightarrow> text_row" where
  "member_row m =
     [((if mb_is_host m then HOST_MARKER @ rs '' '' else []) @ dec (unat (mb_member_id m)) @ rs '' '', style_fg TC_DarkGray),
      (sanitize_for_display (mb_nickname m), style_fg (member_color (mb_color m)))]"

definition request_row :: "request_line \<Rightarrow> text_row" where
  "request_row q =
     (let id = dec (unat (rq_request_id q)); nickname = sanitize_for_display (rq_nickname q)
      in raw (case rq_kind q of
           RK_Join introduction \<Rightarrow>
             id @ rs '' join'' @ em_dash @ nickname @
             (case introduction of Some intro \<Rightarrow> rs '': '' @ sanitize_for_display intro | None \<Rightarrow> [])
         | RK_Timeout seconds \<Rightarrow> id @ rs '' timeout'' @ em_dash @ nickname @ rs '': '' @ dec (unat seconds) @ rs ''s''))"

definition draw_host_panels :: "draw_env \<Rightarrow> room_view \<Rightarrow> rect \<Rightarrow> drawing" where
  "draw_host_panels D v area =
     (let panels = de_layout D Dir_Vertical 0 [Cn_Percentage 45, Cn_Percentage 55] area
      in [(Wd_List (map member_row (rv_members v)) (plain_block (rs ''Members'')), panels ! 0),
          (Wd_List (map request_row (rv_requests v)) (plain_block (rs ''Requests'')), panels ! 1)])"

definition draw_input_line :: "draw_env \<Rightarrow> room_view \<Rightarrow> rect \<Rightarrow> drawing option" where
  "draw_input_line D v area =
     (let prompt = (if rv_is_host v then rs ''host> '' else rs ''> '');
          input_width = unat (saturating_sub16 (rt_width area) 2) - de_str_width D prompt
      in map_option (\<lambda>visible_input.
           [(Wd_Paragraph [[(prompt @ sanitize_for_display visible_input, style_reversed)]] False False
               (Some (plain_block (rs ''Input''))), area)])
           (input_viewport D (tf_text (rv_input v)) (tf_cursor (rv_input v)) input_width))"

definition draw_room :: "draw_env \<Rightarrow> clock \<Rightarrow> room_view \<Rightarrow> rect \<Rightarrow> drawing option" where
  "draw_room D ck v whole =
     (let chunks = de_layout D Dir_Vertical 0 [Cn_Length 5, Cn_Min 3, Cn_Length 3] whole;
          body = (if uses_host_view v
                  then de_layout D Dir_Horizontal 0 [Cn_Min 20, Cn_Percentage 35] (chunks ! 1) else [chunks ! 1])
      in map_option (\<lambda>input_line.
           draw_room_header ck v (chunks ! 0) (room_header v) @
           draw_messages D v (body ! 0) @
           (if uses_host_view v then draw_host_panels D v (body ! 1) else []) @
           input_line)
           (draw_input_line D v (chunks ! 2)))"

section \<open>Every screen\<close>

text \<open>The apostrophe of the text is \<open>U+2019\<close>.\<close>

definition ABOUT_TEXT :: rstring where
  "ABOUT_TEXT =
     rs ''Veilroom is free software created to help protect individuals'' @ [0x2019] @
     rs '' right to communicate freely. We believe messaging should be as simple, fast, and private as possible. '' @
     rs ''Yet governments have deemed even this too much for their citizens. -topcuogly''"

definition return_hint :: rstring where
  "return_hint = rs ''Press any key to return to the menu.''"

definition draw_message :: "rstring \<Rightarrow> rect \<Rightarrow> drawing" where
  "draw_message text whole =
     (let area = centered_area whole 60 5
      in [(Wd_Clear, whole),
          (Wd_Paragraph [[(sanitize_for_display (sanitize_for_display text), style_fg TC_Yellow)]] True True
             (Some (title_block (rs ''VEILROOM''))), area),
          footer_hint area return_hint])"

definition draw_about :: "rect \<Rightarrow> drawing" where
  "draw_about whole =
     (let area = centered_area whole 86 9
      in [(Wd_Clear, whole),
          (Wd_Paragraph [raw ABOUT_TEXT] True True (Some (title_block (rs ''About Veilroom''))), area),
          footer_hint area return_hint])"

definition draw_screen :: "draw_env \<Rightarrow> clock \<Rightarrow> screen \<Rightarrow> rect \<Rightarrow> drawing option" where
  "draw_screen D ck s whole =
     (case s of
        Scr_Menu menu \<Rightarrow> Some (draw_menu (mn_selection menu) whole)
      | Scr_TorConnecting connection \<Rightarrow> Some (draw_tor_connection (tc_progress connection) whole)
      | Scr_HostSetup form \<Rightarrow> Some (draw_host_setup D form whole)
      | Scr_JoinSetup form \<Rightarrow> Some (draw_join_setup D form whole)
      | Scr_JoinForm form \<Rightarrow> Some (draw_join_form D form whole)
      | Scr_JoinPending \<Rightarrow> Some (draw_join_pending whole)
      | Scr_Room view \<Rightarrow> draw_room D ck view whole
      | Scr_About \<Rightarrow> Some (draw_about whole)
      | Scr_Message text \<Rightarrow> Some (draw_message text whole))"

end
