(* ===== verification/RenderRules.thy ===== *)
theory RenderRules
  imports Render ScreenRules
begin

text \<open>
  What the drawing shows: no text reaches the terminal library that could move the cursor or disguise other
  text, wrapping loses neither characters nor colors, and the cursor of the input line stays in sight.
\<close>

section \<open>Greedy lines\<close>

text \<open>
  The specification of wrapping: a line takes the next element as long as it fits. \<open>runs\<close> groups the
  characters of a line by their style.
\<close>

fun greedy :: "('a \<Rightarrow> nat) \<Rightarrow> nat \<Rightarrow> 'a list \<Rightarrow> nat \<Rightarrow> 'a list \<Rightarrow> 'a list list" where
  "greedy f width current used [] = (if current = [] then [] else [current])"
| "greedy f width current used (x # xs) =
     (if width < used + f x then current # greedy f width [x] (f x) xs
      else greedy f width (current @ [x]) (used + f x) xs)"

fun runs :: "(nat \<times> style) list \<Rightarrow> text_row" where
  "runs [] = []"
| "runs ((c, s) # xs) =
     (case runs xs of
        (t, s1) # row \<Rightarrow> if s1 = s then (c # t, s) # row else ([c], s) # (t, s1) # row
      | [] \<Rightarrow> [([c], s)])"

definition styled :: "text_row \<Rightarrow> (nat \<times> style) list" where
  "styled row = concat (map (\<lambda>(text, style). map (\<lambda>c. (c, style)) text) row)"

definition row_text :: "text_row \<Rightarrow> rstring" where
  "row_text row = concat (map fst row)"

lemma styled_simps [simp]:
  "styled [] = []" "styled ((t, s) # row) = map (\<lambda>c. (c, s)) t @ styled row" "styled (row1 @ row2) = styled row1 @ styled row2"
  by (simp_all add: styled_def)

lemma row_text_styled: "row_text row = map fst (styled row)"
  by (induction row) (auto simp: row_text_def comp_def)

lemma styled_runs: "styled (runs xs) = xs"
  by (induction xs rule: runs.induct) (auto split: list.splits)

lemma runs_not_Nil: "xs \<noteq> [] \<Longrightarrow> runs xs \<noteq> []"
  by (cases xs rule: runs.cases) (auto split: list.splits)

text \<open>A character behind a line joins its last run or begins one.\<close>

lemma runs_snoc_same: "runs xs = row @ [(t, s)] \<Longrightarrow> runs (xs @ [(c, s)]) = row @ [(t @ [c], s)]"
proof (induction xs arbitrary: row t)
  case Nil
  then show ?case by simp
next
  case (Cons x xs)
  obtain d s1 where x: "x = (d, s1)" by fastforce
  show ?case
  proof (cases "runs xs" rule: rev_cases)
    case Nil
    then have "xs = []" using runs_not_Nil by blast
    with Cons.prems x show ?thesis by (auto simp: Cons_eq_append_conv)
  next
    case (snoc row1 last)
    obtain t1 s2 where l: "last = (t1, s2)" by fastforce
    have "s2 = s" using Cons.prems x snoc l by (cases row1) (auto split: if_splits simp: Cons_eq_append_conv append_eq_Cons_conv)
    with Cons.IH [of row1 t1] snoc l have "runs (xs @ [(c, s)]) = row1 @ [(t1 @ [c], s)]" by simp
    with Cons.prems x snoc l \<open>s2 = s\<close> show ?thesis
      by (cases row1) (auto split: if_splits simp: Cons_eq_append_conv append_eq_Cons_conv)
  qed
qed

lemma runs_snoc_other: "runs xs = row @ [(t, s1)] \<Longrightarrow> s1 \<noteq> s \<Longrightarrow> runs (xs @ [(c, s)]) = row @ [(t, s1), ([c], s)]"
proof (induction xs arbitrary: row t)
  case Nil
  then show ?case by simp
next
  case (Cons x xs)
  obtain d s0 where x: "x = (d, s0)" by fastforce
  show ?case
  proof (cases "runs xs" rule: rev_cases)
    case Nil
    then have "xs = []" using runs_not_Nil by blast
    with Cons.prems x show ?thesis by (auto simp: Cons_eq_append_conv)
  next
    case (snoc row1 last)
    obtain t1 s2 where l: "last = (t1, s2)" by fastforce
    have "s2 = s1" using Cons.prems x snoc l by (cases row1) (auto split: if_splits simp: Cons_eq_append_conv append_eq_Cons_conv)
    with Cons.IH [of row1 t1] Cons.prems snoc l have "runs (xs @ [(c, s)]) = row1 @ [(t1, s1), ([c], s)]" by simp
    with Cons.prems x snoc l \<open>s2 = s1\<close> show ?thesis
      by (cases row1) (auto split: if_splits simp: Cons_eq_append_conv append_eq_Cons_conv)
  qed
qed

lemma concat_greedy: "concat (greedy f width current used xs) = current @ xs"
  by (induction f width current used xs rule: greedy.induct) auto

lemma map_greedy: "map (map h) (greedy (f \<circ> h) width current used xs) = greedy f width (map h current) used (map h xs)"
  by (induction "f \<circ> h" width current used xs rule: greedy.induct) auto

text \<open>When every element fits a line of its own, the lines fit, none is empty, and none could take more.\<close>

definition greedy_ok :: "('a \<Rightarrow> nat) \<Rightarrow> nat \<Rightarrow> 'a list list \<Rightarrow> bool" where
  "greedy_ok f width lines \<longleftrightarrow>
     list_all (\<lambda>l. l \<noteq> [] \<and> sum_list (map f l) \<le> width) lines \<and>
     (\<forall>i. Suc i < length lines \<longrightarrow> width < sum_list (map f (lines ! i)) + f (hd (lines ! Suc i)))"

lemma hd_greedy: "current \<noteq> [] \<Longrightarrow> greedy f width current used xs \<noteq> [] \<and> hd (hd (greedy f width current used xs)) = hd current"
  by (induction f width current used xs rule: greedy.induct) (auto simp: hd_append)

lemma greedy_greedy:
  assumes "\<forall>x \<in> set xs. f x \<le> width" and "used = sum_list (map f current)" and "used \<le> width"
  shows "greedy_ok f width (greedy f width current used xs)"
  using assms
proof (induction f width current used xs rule: greedy.induct)
  case (1 f width current used)
  then show ?case by (simp add: greedy_ok_def)
next
  case (2 f width current used x xs)
  show ?case
  proof (cases "width < used + f x")
    case True
    have "current \<noteq> []" using True 2(3,4) by auto
    have ih: "greedy_ok f width (greedy f width [x] (f x) xs)" using 2(1) [OF True] 2(3) by simp
    have first: "greedy f width [x] (f x) xs \<noteq> []" "hd (hd (greedy f width [x] (f x) xs)) = x"
      using hd_greedy [of "[x]" f width "f x" xs] by simp_all
    let ?ls = "greedy f width [x] (f x) xs"
    have "width < sum_list (map f ((current # ?ls) ! i)) + f (hd ((current # ?ls) ! Suc i))" if "Suc i < length (current # ?ls)" for i
    proof (cases i)
      case 0
      then show ?thesis using first True 2(4) by (simp add: hd_conv_nth)
    next
      case (Suc j)
      then show ?thesis using that ih unfolding greedy_ok_def by simp
    qed
    moreover have "list_all (\<lambda>l. l \<noteq> [] \<and> sum_list (map f l) \<le> width) (current # ?ls)"
      using ih 2(4,5) \<open>current \<noteq> []\<close> unfolding greedy_ok_def by simp
    ultimately show ?thesis using True unfolding greedy_ok_def by simp
  next
    case False
    have "greedy_ok f width (greedy f width (current @ [x]) (used + f x) xs)"
      by (rule 2(2) [OF False]) (use False 2(3,4) in simp_all)
    then show ?thesis using False by simp
  qed
qed

section \<open>Wrapping is greedy\<close>

lemma wrap_loop_greedy: "wrap_loop D width chunks current used text = chunks @ greedy (cell_width D) width current used text"
  by (induction D width chunks current used "text" rule: wrap_loop.induct) auto

text \<open>The state of \<open>wrap_segments\<close> within a line: the closed runs and the pending one are the runs of the line.\<close>

definition wraps :: "draw_env \<Rightarrow> (nat \<times> style) list list \<Rightarrow> (nat \<times> style) list \<Rightarrow> wrap_state \<Rightarrow> bool" where
  "wraps D done line w \<longleftrightarrow>
     ws_lines w = map runs done \<and> ws_used w = sum_list (map (cell_width D \<circ> fst) line) \<and>
     (if line = [] then ws_current w = [] \<and> ws_pending w = []
      else ws_pending w \<noteq> [] \<and> runs line = ws_current w @ [(ws_pending w, ws_pending_style w)])"

lemma wraps_runs: "wraps D done line w \<Longrightarrow> ws_current (close_run w) = runs line \<and> ws_lines (close_run w) = map runs done"
  by (auto simp: wraps_def close_run_def split: if_splits)

lemma wrap_char_joins:
  assumes "wraps D done line w" and "\<not> (1 < width \<and> width < ws_used w + cell_width D c)"
  shows "wraps D done (line @ [(c, s)]) (wrap_char D width s c w)"
proof -
  have used: "ws_used (close_run w) = ws_used w" by (simp add: close_run_def)
  show ?thesis
  proof (cases "line = []")
    case True
    with assms used show ?thesis by (auto simp: wraps_def wrap_char_def close_run_def Let_def)
  next
    case False
    then have r: "runs line = ws_current w @ [(ws_pending w, ws_pending_style w)]" and ne: "line \<noteq> []"
      using assms(1) by (simp_all add: wraps_def)
    show ?thesis
    proof (cases "s = ws_pending_style w")
      case True
      with assms r runs_snoc_same [OF r] ne show ?thesis by (auto simp: wraps_def wrap_char_def Let_def)
    next
      case False
      with assms r runs_snoc_other [OF r] ne show ?thesis
        by (auto simp: wraps_def wrap_char_def close_run_def Let_def)
    qed
  qed
qed

lemma wrap_char_breaks:
  assumes "wraps D done line w" and "1 < width" and "width < ws_used w + cell_width D c" and "line \<noteq> []"
  shows "wraps D (done @ [line]) [(c, s)] (wrap_char D width s c w)"
proof -
  have "ws_used (close_run w) = ws_used w" "ws_pending (close_run w) = []" "ws_pending_style (close_run w) = ws_pending_style w" by (simp_all add: close_run_def)
  moreover have "ws_current (close_run w) = runs line" "ws_lines (close_run w) = map runs done" "runs line \<noteq> []"
    using wraps_runs [OF assms(1)] runs_not_Nil [OF assms(4)] by simp_all
  moreover have "close_run ((close_run w)\<lparr>ws_pending_style := s\<rparr>) = (close_run w)\<lparr>ws_pending_style := s\<rparr>"
    by (simp add: close_run_def)
  ultimately show ?thesis
    using assms by (auto simp: wraps_def wrap_char_def close_line_def Let_def)
qed

lemma wrap_chars:
  assumes "wraps D done line w" and "1 < width" and "\<forall>c. cell_width D c \<le> width"
  shows "\<exists>done1 line1. wraps D done1 line1 (fold (wrap_char D width s) text w) \<and>
    (\<forall>rest. done @ greedy (cell_width D \<circ> fst) width line (ws_used w) (map (\<lambda>c. (c, s)) text @ rest) =
      done1 @ greedy (cell_width D \<circ> fst) width line1 (ws_used (fold (wrap_char D width s) text w)) rest)"
  using assms(1)
proof (induction "text" arbitrary: "done" line w)
  case Nil
  then show ?case by auto
next
  case (Cons c cs)
  let ?w = "wrap_char D width s c w"
  show ?case
  proof (cases "width < ws_used w + cell_width D c")
    case True
    have "line \<noteq> []" using True Cons.prems assms(3) [rule_format, of c] by (auto simp: wraps_def)
    note step = wrap_char_breaks [OF Cons.prems assms(2) True this, of s]
    have "ws_used ?w = cell_width D c" using step by (simp add: wraps_def)
    with Cons.IH [OF step] True show ?thesis by auto
  next
    case False
    note step = wrap_char_joins [OF Cons.prems, of width c s]
    have st: "wraps D done (line @ [(c, s)]) ?w" using step False by simp
    have "ws_used ?w = ws_used w + cell_width D c" using st Cons.prems by (simp add: wraps_def)
    with Cons.IH [OF st] False show ?thesis by auto
  qed
qed

lemma wrap_all:
  assumes "wraps D done line w" and "1 < width" and "\<forall>c. cell_width D c \<le> width"
  shows "\<exists>done1 line1. wraps D done1 line1 (fold (\<lambda>(text, style). fold (wrap_char D width style) text) segments w) \<and>
    done @ greedy (cell_width D \<circ> fst) width line (ws_used w) (styled segments) =
      done1 @ (if line1 = [] then [] else [line1])"
  using assms(1)
proof (induction segments arbitrary: "done" line w)
  case Nil
  then show ?case by (auto simp: styled_def)
next
  case (Cons seg segments)
  obtain t s where seg: "seg = (t, s)" by fastforce
  from wrap_chars [OF Cons.prems assms(2,3), of s t] obtain d1 l1 where
    w1: "wraps D d1 l1 (fold (wrap_char D width s) t w)" and
    g: "\<forall>rest. done @ greedy (cell_width D \<circ> fst) width line (ws_used w) (map (\<lambda>c. (c, s)) t @ rest) =
      d1 @ greedy (cell_width D \<circ> fst) width l1 (ws_used (fold (wrap_char D width s) t w)) rest" by blast
  from Cons.IH [OF w1] obtain d2 l2 where
    w2: "wraps D d2 l2 (fold (\<lambda>(text, style). fold (wrap_char D width style) text) segments (fold (wrap_char D width s) t w))"
    "d1 @ greedy (cell_width D \<circ> fst) width l1 (ws_used (fold (wrap_char D width s) t w)) (styled segments) =
      d2 @ (if l2 = [] then [] else [l2])" by blast
  show ?case
    using w2 g [rule_format, of "styled segments"] seg by (intro exI [of _ d2] exI [of _ l2]) (simp add: comp_def)
qed

lemma wrap_segments_greedy:
  assumes "1 < width" and "\<forall>c. cell_width D c \<le> width"
  shows "wrap_segments D segments width = map runs (greedy (cell_width D \<circ> fst) width [] 0 (styled segments))"
proof -
  let ?w = "\<lparr>ws_lines = [], ws_current = [], ws_pending = [], ws_pending_style = style_default, ws_used = 0\<rparr>"
  have "wraps D [] [] ?w" by (simp add: wraps_def)
  from wrap_all [OF this assms, of segments] obtain d1 l1 where
    w: "wraps D d1 l1 (fold (\<lambda>(text, style). fold (wrap_char D width style) text) segments ?w)"
    "greedy (cell_width D \<circ> fst) width [] 0 (styled segments) = d1 @ (if l1 = [] then [] else [l1])" by auto
  with wraps_runs [OF w(1)] runs_not_Nil [of l1] show ?thesis
    by (auto simp: wrap_segments_def close_line_def)
qed

text \<open>
  C28: Wrapping a line of several styles to a pane loses nothing: every character keeps its place and its
  style, every row fits the pane, is not empty and could not take the next character, and the rows read like
  those of the plain wrapping of the same text.
\<close>

theorem wrapping_loses_nothing:
  assumes "1 < width" and "\<forall>c. cell_width D c \<le> width" and "row_text segments \<noteq> []"
  shows "concat (map styled (wrap_segments D segments width)) = styled segments \<and>
    greedy_ok (cell_width D) width (map row_text (wrap_segments D segments width)) \<and>
    map row_text (wrap_segments D segments width) = wrap_for_display D (row_text segments) width"
proof -
  let ?g = "greedy (cell_width D \<circ> fst) width [] 0 (styled segments)"
  have rows: "wrap_segments D segments width = map runs ?g" by (rule wrap_segments_greedy [OF assms(1,2)])
  have "map row_text (map runs ?g) = map (map fst) ?g" by (simp add: row_text_styled styled_runs comp_def)
  also have "\<dots> = greedy (cell_width D) width [] 0 (row_text segments)"
    by (simp add: map_greedy row_text_styled)
  finally have plain: "map row_text (wrap_segments D segments width) = greedy (cell_width D) width [] 0 (row_text segments)"
    unfolding rows .
  have "concat (map styled (wrap_segments D segments width)) = styled segments"
    unfolding rows by (simp add: comp_def styled_runs concat_greedy)
  moreover have "greedy_ok (cell_width D) width (greedy (cell_width D) width [] 0 (row_text segments))"
    using assms(2) by (intro greedy_greedy) auto
  moreover have "wrap_for_display D (row_text segments) width = greedy (cell_width D) width [] 0 (row_text segments)"
    using assms(1,3) by (simp add: wrap_for_display_def wrap_loop_greedy)
  ultimately show ?thesis using plain by simp
qed

definition demo_draw_env :: draw_env where
  "demo_draw_env = \<lparr>de_char_width = (\<lambda>c. Some (if c < 0x1100 then 1 else 2)),
     de_str_width = (\<lambda>s. sum_list (map (\<lambda>c. if c < 0x1100 then 1 else 2) s)),
     de_layout = (\<lambda>_ _ cs area. replicate (length cs) area)\<rparr>"

text \<open>A nickname in red over the edge of a pane of six cells.\<close>

theorem wrapping_loses_nothing_witness:
  "wrap_segments demo_draw_env [(rs ''[1] '', style_default), (rs ''zoe'', style_fg TC_Red), (rs '': hi'', style_default)] 6 =
     [[(rs ''[1] '', style_default), (rs ''zo'', style_fg TC_Red)], [(rs ''e'', style_fg TC_Red), (rs '': hi'', style_default)]] \<and>
   map row_text (wrap_segments demo_draw_env
     [(rs ''[1] '', style_default), (rs ''zoe'', style_fg TC_Red), (rs '': hi'', style_default)] 6) =
     wrap_for_display demo_draw_env (rs ''[1] zoe: hi'') 6"
proof -
  have fits: "\<forall>c. cell_width demo_draw_env c \<le> 6" by (simp add: cell_width_def demo_draw_env_def)
  let ?row = "[(rs ''[1] '', style_default), (rs ''zoe'', style_fg TC_Red), (rs '': hi'', style_default)]"
  have "row_text ?row = rs ''[1] zoe: hi''" by (simp add: row_text_def rs_def)
  moreover from this have "row_text ?row \<noteq> []" by (simp add: rs_def)
  moreover have "wrap_segments demo_draw_env ?row 6 =
      [[(rs ''[1] '', style_default), (rs ''zo'', style_fg TC_Red)], [(rs ''e'', style_fg TC_Red), (rs '': hi'', style_default)]]"
    by (simp add: rs_def wrap_segments_def wrap_char_def close_run_def close_line_def cell_width_def demo_draw_env_def
        style_fg_def style_default_def Let_def)
  ultimately show ?thesis using wrapping_loses_nothing [of 6 demo_draw_env ?row] fits by simp
qed

section \<open>The cursor\<close>

abbreviation cells :: "draw_env \<Rightarrow> rstring \<Rightarrow> nat" where
  "cells D s \<equiv> sum_list (map (cell_width D) s)"

lemma fit_takes: "used \<le> width \<Longrightarrow> \<exists>r. s = fit D width used s @ r \<and> used + cells D (fit D width used s) \<le> width"
proof (induction s arbitrary: used)
  case (Cons ch s)
  then show ?case using Cons.IH [of "used + cell_width D ch"] by (auto simp: add.assoc)
qed simp

lemma fit_prefix: "used + cells D p \<le> width \<Longrightarrow> fit D width used (p @ r) = p @ fit D width (used + cells D p) r"
  by (induction p arbitrary: used) (auto simp: add.assoc)

lemma fit_back_keeps:
  "used \<le> width \<Longrightarrow> \<exists>l p. rev before = l @ p \<and> fit_back D width used before kept = p @ kept \<and> used + cells D p \<le> width"
proof (induction before arbitrary: used kept)
  case Nil
  then show ?case by simp
next
  case (Cons ch before)
  show ?case
  proof (cases "width < used + cell_width D ch")
    case True
    with Cons.prems show ?thesis by (intro exI [of _ "rev (ch # before)"] exI [of _ "[]"]) simp
  next
    case False
    then obtain l p where "rev before = l @ p"
      "fit_back D width (used + cell_width D ch) before (ch # kept) = p @ ch # kept"
      "used + cell_width D ch + cells D p \<le> width"
      using Cons.IH [of "used + cell_width D ch" "ch # kept"] by auto
    with False show ?thesis by (intro exI [of _ l] exI [of _ "p @ [ch]"]) simp
  qed
qed

text \<open>
  The part of the input line that is drawn fits its box and holds the cursor: it ends the text before the
  cursor and begins the text behind it, and when the text before the cursor fits, all of that is shown. This
  is so whenever the width of the text before the cursor is at least that of its characters together.
\<close>

theorem cursor_stays_visible:
  assumes "cells D (ed_left e) \<le> de_str_width D (ed_left e)"
  shows "\<exists>l p q r. ed_left e = l @ p \<and> ed_right e = q @ r \<and>
    input_viewport D (tf_text (field_of m e)) (tf_cursor (field_of m e)) width = Some (p @ q) \<and>
    cells D (p @ q) \<le> width \<and> (0 < width \<and> de_str_width D (ed_left e) \<le> width \<longrightarrow> l = [])"
proof (cases "ed_left e @ ed_right e = [] \<or> width = 0")
  case True
  then show ?thesis
    by (intro exI [of _ "ed_left e"] exI [of _ "[]"] exI [of _ "ed_right e"]) (auto simp: input_viewport_def)
next
  case False
  let ?start = "if de_str_width D (ed_left e) \<le> width then ed_left e else fit_back D width 0 (rev (ed_left e)) []"
  have view: "input_viewport D (tf_text (field_of m e)) (tf_cursor (field_of m e)) width = Some (fit D width 0 (?start @ ed_right e))"
    using False by (simp add: input_viewport_def min_absorb1)
  obtain l p where lp: "ed_left e = l @ p" "?start = p" "cells D p \<le> width"
    "de_str_width D (ed_left e) \<le> width \<longrightarrow> l = []"
  proof (cases "de_str_width D (ed_left e) \<le> width")
    case True
    then show thesis using that [of "[]" "ed_left e"] assms by simp
  next
    case False
    then show thesis using that fit_back_keeps [of 0 width "rev (ed_left e)" D "[]"] by auto
  qed
  obtain r where r: "ed_right e = fit D width (cells D p) (ed_right e) @ r"
    "cells D p + cells D (fit D width (cells D p) (ed_right e)) \<le> width"
    using fit_takes [OF lp(3)] by blast
  have "fit D width 0 (p @ ed_right e) = p @ fit D width (cells D p) (ed_right e)"
    using fit_prefix [of 0 D p width] lp(3) by simp
  with view lp r show ?thesis
    by (intro exI [of _ l] exI [of _ p] exI [of _ "fit D width (cells D p) (ed_right e)"] exI [of _ r]) simp
qed

theorem cursor_stays_visible_witness:
  "\<exists>p q. input_viewport demo_draw_env (rs ''abcdef'') 4 3 = Some (p @ q) \<and>
     cells demo_draw_env (p @ q) \<le> 3 \<and> (\<exists>l. rs ''abcd'' = l @ p) \<and> (\<exists>r. rs ''ef'' = q @ r)"
proof -
  define e where "e = \<lparr>ed_left = rs ''abcd'', ed_right = rs ''ef'', ed_locked = False\<rparr>"
  have "cells demo_draw_env (ed_left e) \<le> de_str_width demo_draw_env (ed_left e)"
    by (simp add: e_def demo_draw_env_def cell_width_def rs_def)
  moreover have "tf_text (field_of 64 e) = rs ''abcdef''" "tf_cursor (field_of 64 e) = 4"
    by (simp_all add: e_def rs_def utf8_def utf8_char_def str_len_def)
  moreover have "ed_left e = rs ''abcd''" "ed_right e = rs ''ef''" by (simp_all add: e_def)
  ultimately show ?thesis using cursor_stays_visible [of demo_draw_env e 64 3] by metis
qed

section \<open>No control character is drawn\<close>

fun block_texts :: "block \<Rightarrow> rstring list" where
  "block_texts None = []"
| "block_texts (Some (title, _)) = [title]"

fun widget_texts :: "widget \<Rightarrow> rstring list" where
  "widget_texts (Wd_Paragraph rows _ _ None) = map fst (concat rows)"
| "widget_texts (Wd_Paragraph rows _ _ (Some b)) = map fst (concat rows) @ block_texts b"
| "widget_texts (Wd_List rows b) = map fst (concat rows) @ block_texts b"
| "widget_texts (Wd_Gauge b _ _ label) = label # block_texts b"
| "widget_texts (Wd_Block b) = block_texts b"
| "widget_texts Wd_Clear = []"

definition drawn_safe :: "drawing \<Rightarrow> bool" where
  "drawn_safe d \<longleftrightarrow> (\<forall>(w, r) \<in> set d. list_all safe_text (widget_texts w))"

definition row_safe :: "text_row \<Rightarrow> bool" where
  "row_safe row \<longleftrightarrow> (\<forall>(t, s) \<in> set row. safe_text t)"

lemma safe_char: "0x20 \<le> c \<Longrightarrow> c < 0x7F \<Longrightarrow> \<not> is_unsafe_display_char c"
  by (simp add: is_unsafe_display_char_def char_is_control_def is_dangerous_format_char_def)

lemma safe_printable: "list_all (\<lambda>c. 0x20 \<le> c \<and> c < 0x7F) s \<Longrightarrow> safe_text s"
  by (auto simp: safe_text_def contains_control_char_def list_ex_iff list_all_iff is_unsafe_display_char_def
      char_is_control_def is_dangerous_format_char_def)

lemma safe_dec [simp]: "safe_text (dec n)"
  using dec_digits [of n] by (intro safe_printable) (auto simp: list_all_iff is_digit_def)

lemma safe_literals [simp]:
  "safe_text (rs ''VEILROOM'')" "safe_text (rs ''Host a room'')" "safe_text (rs ''Join a room'')"
  "safe_text (rs ''About Veilroom'')" "safe_text (rs ''Exit'')" "safe_text (rs ''> '')" "safe_text (rs ''  '')"
  "safe_text (rs ''up/down select, enter confirm, q quit'')" "safe_text (rs ''Connecting to Tor'')" "safe_text (rs ''%'')"
  "safe_text (rs ''Enter the room password twice.'')" "safe_text (rs ''Password:'')" "safe_text (rs ''Confirm password:'')"
  "safe_text (rs ''Nickname: '')" "safe_text (rs ''Paste the invitation URI from the host.'')"
  "safe_text (rs ''Invitation URI:'')" "safe_text (rs ''Password: '')" "safe_text (rs ''Join request'')"
  "safe_text (rs ''Complete the join form; the password was verified during the handshake.'')"
  "safe_text (rs ''Introduction: '')" "safe_text (rs ''Enter submits, Esc goes back; introduction is optional.'')"
  "safe_text (rs ''Your join request was sent.'')" "safe_text (rs ''Waiting for the host to accept or reject it...'')"
  "safe_text (rs ''Waiting for host approval'')"
  by (simp_all add: safe_char rs_def)

lemma safe_room_literals [simp]:
  "safe_text (rs ''hosting as '')" "safe_text (rs ''host view'')" "safe_text (rs ''member view'')"
  "safe_text (rs ''joined as '')" "safe_text (rs ''user messages only'')" "safe_text (rs ''Room uptime'')"
  "safe_text (rs ''In room'')" "safe_text (rs ''GMT: '')" "safe_text (rs ''Participants: '')" "safe_text (rs ''['')"
  "safe_text (rs ''] '')" "safe_text (rs ''Messages'')" "safe_text (rs ''[HOST]'')" "safe_text (rs '' '')" "safe_text (rs '' join'')"
  "safe_text (rs '' timeout'')" "safe_text (rs ''s'')" "safe_text (rs ''Members'')" "safe_text (rs ''Requests'')"
  "safe_text (rs ''host> '')" "safe_text (rs ''Input'')" "safe_text (rs '':'')" "safe_text em_dash"
  "safe_text return_hint" "safe_text ABOUT_TEXT"
  by (simp_all add: safe_char rs_def em_dash_def return_hint_def ABOUT_TEXT_def is_unsafe_display_char_def char_is_control_def is_dangerous_format_char_def)

lemma safe_text_iff: "safe_text s \<longleftrightarrow> (\<forall>c \<in> set s. \<not> is_unsafe_display_char c)"
  by (auto simp: safe_text_def contains_control_char_def list_ex_iff)

lemma safe_concat: "safe_text (concat ss) \<longleftrightarrow> (\<forall>s \<in> set ss. safe_text s)"
  by (auto simp: safe_text_iff)

lemma safe_wrapped: "safe_text s \<Longrightarrow> \<forall>chunk \<in> set (wrap_for_display D s width). safe_text chunk"
  using concat_greedy [of "cell_width D" width "[]" 0 s] safe_concat [of "greedy (cell_width D) width [] 0 s"]
  by (simp add: wrap_for_display_def wrap_loop_greedy)

definition wrap_safe :: "wrap_state \<Rightarrow> bool" where
  "wrap_safe w \<longleftrightarrow> list_all row_safe (ws_lines w) \<and> row_safe (ws_current w) \<and> safe_text (ws_pending w)"

lemma row_safe_simps [simp]:
  "row_safe []" "row_safe ((t, s) # row) \<longleftrightarrow> safe_text t \<and> row_safe row" "row_safe (row1 @ row2) \<longleftrightarrow> row_safe row1 \<and> row_safe row2"
  by (auto simp: row_safe_def)

lemma close_safe: "wrap_safe w \<Longrightarrow> wrap_safe (close_run w)" "wrap_safe w \<Longrightarrow> wrap_safe (close_line w)"
  by (simp_all add: wrap_safe_def close_run_def close_line_def)

lemma wrap_safe_updates [simp]:
  "wrap_safe (w\<lparr>ws_pending_style := s\<rparr>) = wrap_safe w" "wrap_safe (w\<lparr>ws_used := n\<rparr>) = wrap_safe w"
  by (simp_all add: wrap_safe_def)

lemma wrap_char_safe:
  assumes "wrap_safe w" and "\<not> is_unsafe_display_char c"
  shows "wrap_safe (wrap_char D width s c w)"
proof -
  have push: "wrap_safe (v\<lparr>ws_pending := ws_pending v @ [c], ws_used := n\<rparr>)" if "wrap_safe v" for v n
    using that assms(2) by (simp add: wrap_safe_def)
  show ?thesis
    unfolding wrap_char_def Let_def by (intro push) (simp add: assms(1) close_safe)
qed

lemma wrap_text_safe: "wrap_safe w \<Longrightarrow> safe_text t \<Longrightarrow> wrap_safe (fold (wrap_char D width s) t w)"
  by (induction t arbitrary: w) (simp_all add: wrap_char_safe)

lemma wrap_segments_safe:
  assumes "row_safe segments"
  shows "list_all row_safe (wrap_segments D segments width)"
proof -
  have "wrap_safe (fold (\<lambda>(t, s). fold (wrap_char D width s) t) segments w)" if "wrap_safe w" for w
    using that assms by (induction segments arbitrary: w) (auto simp: wrap_text_safe)
  then have "wrap_safe (close_line (close_run (fold (\<lambda>(t, s). fold (wrap_char D width s) t) segments
      \<lparr>ws_lines = [], ws_current = [], ws_pending = [], ws_pending_style = style_default, ws_used = 0\<rparr>)))"
    by (intro close_safe) (simp add: wrap_safe_def)
  then show ?thesis unfolding wrap_segments_def wrap_safe_def by blast
qed

lemma split_bytes_Some: "split_bytes n s = Some (l, r) \<Longrightarrow> s = l @ r"
  by (induction n s arbitrary: l r rule: split_bytes.induct) (auto split: if_splits)

text \<open>Widgets of safe rows.\<close>

lemma rows_safe: "list_all safe_text (map fst (concat rows)) \<longleftrightarrow> list_all row_safe rows"
  by (fastforce simp: list_all_iff row_safe_def)

lemma drawn_safe_simps [simp]:
  "drawn_safe []" "drawn_safe ((w, r) # d) \<longleftrightarrow> list_all safe_text (widget_texts w) \<and> drawn_safe d"
  "drawn_safe (d1 @ d2) \<longleftrightarrow> drawn_safe d1 \<and> drawn_safe d2"
  by (auto simp: drawn_safe_def)

lemma safe_digits [simp]: "safe_text (two_digits n)"
  by (simp add: two_digits_def safe_char)

lemma safe_clock [simp]: "safe_text (gmt_display t)" "safe_text (format_elapsed d)"
  by (simp_all add: gmt_display_def format_elapsed_def Let_def)

lemma message_rows_safe:
  assumes "line_ok interval line"
  shows "list_all row_safe (message_rows D width line)"
proof (cases "ml_nickname line")
  case None
  have "\<forall>chunk \<in> set (wrap_for_display D (rs ''['' @ gmt_display (ml_timestamp line) @ rs ''] '' @ sanitize_for_display (ml_text line)) width). safe_text chunk"
    by (rule safe_wrapped) simp
  then show ?thesis using None by (simp add: message_rows_def list_all_iff Let_def)
next
  case (Some nickname)
  have line: "safe_text (ml_text line)" "take (length (ns_text nickname)) (ml_text line) = ns_text nickname"
    using assms Some by (simp_all add: line_ok_def)
  then have name: "safe_text (ns_text nickname)" by (metis safe_text_iff in_set_takeD)
  have rest: "safe_text (case split_bytes n (ml_text line) of Some (_, r) \<Rightarrow> r | None \<Rightarrow> ml_text line)" for n
    using line(1) by (auto split: option.split dest!: split_bytes_Some)
  show ?thesis
    unfolding message_rows_def Let_def Some option.case by (rule wrap_segments_safe) (simp add: name rest)
qed

lemma draw_messages_safe:
  assumes "view_ok v"
  shows "drawn_safe (draw_messages D v area)"
proof -
  have "list_all (line_ok (rv_message_timeout_interval v)) (rb_lines (rv_messages v))" using assms by (simp add: view_ok_def)
  then have "list_all row_safe (concat (map (message_rows D width)
      (filter (\<lambda>line. rv_show_system_messages v \<or> ml_style line = LS_Chat) (rb_lines (rv_messages v)))))" for width
    using message_rows_safe by (fastforce simp: list_all_iff)
  then show ?thesis
    unfolding draw_messages_def Let_def drawn_safe_simps widget_texts.simps list_all_append rows_safe plain_block_def
    by (auto simp: list_all_iff simp del: set_concat dest: in_set_dropD)
qed

lemma draw_room_safe:
  assumes "view_ok v" and "draw_room D ck v whole = Some d"
  shows "drawn_safe d"
proof -
  have "drawn_safe (draw_room_header ck v area (room_header v))" for area
    by (auto simp: draw_room_header_def room_header_def raw_def centered_paragraph_def left_paragraph_def Let_def
        list_all_iff is_unsafe_display_char_def char_is_control_def is_dangerous_format_char_def)
  moreover have "row_safe (member_row m)" "row_safe (request_row q)" for m q
    by (auto simp: member_row_def request_row_def raw_def HOST_MARKER_def Let_def split: request_kind.split option.split)
  then have "drawn_safe (draw_host_panels D v area)" for area
    unfolding draw_host_panels_def Let_def drawn_safe_simps widget_texts.simps list_all_append rows_safe plain_block_def
    by (simp add: list_all_iff)
  moreover have "drawn_safe il" if "draw_input_line D v area = Some il" for il area
    using that by (auto simp: draw_input_line_def plain_block_def Let_def)
  ultimately show ?thesis
    using assms draw_messages_safe [OF assms(1)] by (auto simp: draw_room_def Let_def)
qed

lemma safe_bullets: "safe_text (replicate n 0x2022)"
  by (simp add: safe_text_iff is_unsafe_display_char_def char_is_control_def is_dangerous_format_char_def)

lemma draw_forms_safe:
  "drawn_safe (draw_menu n whole)" "drawn_safe (draw_tor_connection p whole)" "drawn_safe (draw_host_setup D h whole)"
  "drawn_safe (draw_join_setup D js whole)" "drawn_safe (draw_join_form D jf whole)" "drawn_safe (draw_join_pending whole)"
  "drawn_safe (draw_message t whole)" "drawn_safe (draw_about whole)"
  by (auto simp: draw_menu_def draw_tor_connection_def draw_host_setup_def draw_join_setup_def draw_join_form_def
      draw_join_pending_def draw_message_def draw_about_def render_label_def render_field_def hint_text_def bullets_def
      footer_hint_def title_block_def raw_def left_paragraph_def centered_paragraph_def MENU_ITEMS_def Let_def
      safe_bullets split: option.split)

lemma draw_screen_safe:
  assumes "screen_ok s"
  shows "\<exists>d. draw_screen D ck s whole = Some d \<and> drawn_safe d"
proof (cases s)
  case (Scr_Room v)
  then have v: "view_ok v" "field_ok (rv_input v)" using assms by simp_all
  from v(2) obtain m e where "rv_input v = field_of m e" unfolding field_ok_def by blast
  then have "split_bytes (min (tf_cursor (rv_input v)) (str_len (tf_text (rv_input v)))) (tf_text (rv_input v)) \<noteq> None"
    by (simp add: min_absorb1)
  then have "\<exists>d. draw_room D ck v whole = Some d"
    by (auto simp: draw_room_def draw_input_line_def input_viewport_def Let_def)
  then show ?thesis using draw_room_safe [OF v(1)] Scr_Room by (auto simp: draw_screen_def)
qed (simp_all add: draw_screen_def draw_forms_safe)

text \<open>
  C27: Whatever is typed, pasted and shown, the screen that follows can be drawn (the viewport of the input never
  slices off a character boundary), and no text that reaches the terminal library, nicknames, messages,
  introductions and error texts of peers included, contains a control, escape or display-spoofing character.
\<close>

theorem drawing_is_total_and_safe:
  "\<exists>a d. app_run ins app_new = Some a \<and> draw_screen D ck (ap_screen a) whole = Some d \<and> drawn_safe d"
proof -
  have "screen_ok (ap_screen app_new)" by (simp add: app_new_def)
  then obtain a where a: "app_run ins app_new = Some a" "screen_ok (ap_screen a)" using app_run_ok by blast
  from a(2) obtain d where "draw_screen D ck (ap_screen a) whole = Some d \<and> drawn_safe d"
    using draw_screen_safe by blast
  with a(1) show ?thesis by blast
qed

end
