(* ===== verification/RenderAreas.thy ===== *)
theory RenderAreas
  imports Render
begin

text \<open>
  Where the drawing puts its widgets: the rectangle arithmetic of the renderer on \<open>u16\<close> neither wraps nor
  leaves the terminal, however small the terminal is.
\<close>

definition inside :: "rect \<Rightarrow> rect \<Rightarrow> bool" where
  "inside r s \<longleftrightarrow>
     unat (rt_x s) \<le> unat (rt_x r) \<and> unat (rt_x r) + unat (rt_width r) \<le> unat (rt_x s) + unat (rt_width s) \<and>
     unat (rt_y s) \<le> unat (rt_y r) \<and> unat (rt_y r) + unat (rt_height r) \<le> unat (rt_y s) + unat (rt_height s)"

definition empty_rect :: "rect \<Rightarrow> bool" where
  "empty_rect r \<longleftrightarrow> rt_width r = 0 \<or> rt_height r = 0"

definition shows_in :: "rect \<Rightarrow> rect \<Rightarrow> bool" where
  "shows_in s r \<longleftrightarrow> empty_rect r \<or> inside r s"

text \<open>The terminal ends before \<open>u16\<close> does.\<close>

definition on_grid :: "rect \<Rightarrow> bool" where
  "on_grid r \<longleftrightarrow> unat (rt_x r) + unat (rt_width r) < 2 ^ 16 \<and> unat (rt_y r) + unat (rt_height r) < 2 ^ 16"

text \<open>
  What the layout promises: a rectangle for each constraint, inside the area when there is no margin. With a
  margin only the rectangles that have a cell are inside it: when the margin does not fit, \<open>Rect::inner\<close> gives
  the empty rectangle at the origin, and the layout splits that one.
\<close>

definition layout_ok :: "draw_env \<Rightarrow> bool" where
  "layout_ok D \<longleftrightarrow>
     (\<forall>dir margin cs area. on_grid area \<longrightarrow> length (de_layout D dir margin cs area) = length cs \<and>
        list_all (\<lambda>r. if margin = 0 then inside r area else shows_in area r) (de_layout D dir margin cs area))"

lemma inside_refl [simp]: "inside r r"
  by (simp add: inside_def)

lemma inside_trans: "inside r s \<Longrightarrow> inside s t \<Longrightarrow> inside r t"
  by (auto simp: inside_def)

lemma inside_empty: "inside r s \<Longrightarrow> empty_rect s \<Longrightarrow> empty_rect r"
  by (auto simp: inside_def empty_rect_def unat_eq_0 [symmetric])

lemma inside_on_grid: "inside r s \<Longrightarrow> on_grid s \<Longrightarrow> on_grid r"
  by (auto simp: inside_def on_grid_def)

lemma shows_in_inside: "inside r s \<Longrightarrow> shows_in t s \<Longrightarrow> shows_in t r"
  using inside_empty inside_trans by (auto simp: shows_in_def)

lemma shows_in_trans: "shows_in s r \<Longrightarrow> shows_in t s \<Longrightarrow> shows_in t r"
  using shows_in_inside by (auto simp: shows_in_def)

lemma layout_inside: "layout_ok D \<Longrightarrow> on_grid area \<Longrightarrow> i < length cs \<Longrightarrow> inside (de_layout D dir 0 cs area ! i) area"
  by (simp add: layout_ok_def list_all_length)

lemma layout_shows: "layout_ok D \<Longrightarrow> on_grid area \<Longrightarrow> i < length cs \<Longrightarrow> shows_in area (de_layout D dir margin cs area ! i)"
proof -
  assume "layout_ok D" "on_grid area" "i < length cs"
  then have "if margin = 0 then inside (de_layout D dir margin cs area ! i) area
      else shows_in area (de_layout D dir margin cs area ! i)"
    by (simp add: layout_ok_def list_all_length)
  then show "shows_in area (de_layout D dir margin cs area ! i)" by (auto simp: shows_in_def split: if_splits)
qed

section \<open>Word arithmetic\<close>

lemma centered_axis:
  fixes x w v :: u16
  assumes "unat x + unat w < 2 ^ 16" and "v \<le> w"
  shows "unat (x + (w - v) div 2) = unat x + (unat w - unat v) div 2"
proof -
  have "unat ((w - v) div 2) = (unat w - unat v) div 2" using assms(2) by (simp add: unat_div unat_sub)
  moreover have "unat x + (unat w - unat v) div 2 < 2 ^ 16" using assms(1) by linarith
  ultimately show ?thesis using unat_add_lem [of x "(w - v) div 2"] by simp
qed

lemma centered_inside:
  assumes "on_grid whole"
  shows "inside (centered_area whole a b) whole"
proof -
  have le: "min a (rt_width whole) \<le> rt_width whole" "min b (rt_height whole) \<le> rt_height whole" by simp_all
  then have "unat (min a (rt_width whole)) \<le> unat (rt_width whole)" "unat (min b (rt_height whole)) \<le> unat (rt_height whole)"
    by (simp_all add: word_le_nat_alt)
  then show ?thesis
    using assms le by (auto simp: centered_area_def inside_def on_grid_def Let_def centered_axis)
qed

lemma saturating_sub16_unat: "unat (saturating_sub16 a b) = unat a - unat b"
  by (auto simp: saturating_sub16_def unat_sub word_le_nat_alt)

lemma saturating_add16_unat: "unat a + unat b < 2 ^ 16 \<Longrightarrow> unat (saturating_add16 a b) = unat a + unat b"
  using unat_add_lem [of a b] by (simp add: saturating_add16_def)

lemma succ16: "unat (x :: u16) + 1 < 2 ^ 16 \<Longrightarrow> unat (x + 1) = unat x + 1"
  using unat_add_lem [of x 1] by simp

lemma footer_inside:
  assumes "on_grid area"
  shows "shows_in area (footer_row area)"
proof (cases "rt_height area = 0")
  case True
  then show ?thesis by (simp add: shows_in_def empty_rect_def footer_row_def)
next
  case False
  then have h: "0 < unat (rt_height area)" by (simp add: unat_gt_0)
  then have "1 \<le> rt_height area" by (simp add: word_le_nat_alt)
  then have "min (rt_height area) 1 = 1" by (rule min_absorb2)
  moreover have "unat (saturating_add16 (rt_y area) (saturating_sub16 (rt_height area) 1)) =
      unat (rt_y area) + (unat (rt_height area) - 1)"
    using assms by (subst saturating_add16_unat) (auto simp: saturating_sub16_unat on_grid_def)
  ultimately have "inside (footer_row area) area" using h unfolding inside_def footer_row_def by simp
  then show ?thesis by (simp add: shows_in_def)
qed

lemma inner_inside:
  assumes "on_grid area"
  shows "shows_in area (inner_area area)"
proof (cases "unat (rt_width area) \<le> 2 \<or> unat (rt_height area) \<le> 2")
  case True
  then show ?thesis by (auto simp: shows_in_def empty_rect_def inner_area_def saturating_sub16_unat simp flip: unat_eq_0)
next
  case False
  then have "unat (rt_x area) + 1 < 2 ^ 16" "unat (rt_y area) + 1 < 2 ^ 16" using assms unfolding on_grid_def by linarith+
  then have "unat (rt_x area + 1) = unat (rt_x area) + 1" "unat (rt_y area + 1) = unat (rt_y area) + 1"
    by (simp_all only: succ16)
  then show ?thesis using False by (auto simp: shows_in_def inside_def inner_area_def saturating_sub16_unat)
qed

lemma inner_on_grid: "on_grid area \<Longrightarrow> on_grid (inner_area area)"
proof -
  have "unat (x + 1) + (unat w - 2) < 2 ^ 16" if "unat x + unat w < 2 ^ 16" for x w :: u16
  proof (cases "unat x + 1 < 2 ^ 16")
    case True
    then show ?thesis using that succ16 [of x] by simp
  next
    case False
    then have "unat w = 0" using that by simp
    then show ?thesis using unsigned_less [where ?'a = nat, of "x + 1"] by simp
  qed
  then show "on_grid area \<Longrightarrow> on_grid (inner_area area)" by (simp add: on_grid_def inner_area_def saturating_sub16_unat)
qed

lemma form_rows_inside:
  assumes "layout_ok D" and "on_grid area" and "i < n"
  shows "shows_in area (form_rows D n area ! i)"
  unfolding form_rows_def
  using layout_shows [OF assms(1) inner_on_grid [OF assms(2)], of i "replicate n (Cn_Length 1)"] assms(3) inner_inside [OF assms(2)]
  by (auto intro: shows_in_trans)

section \<open>The header\<close>

lemma header_inside:
  assumes "on_grid area"
  shows "\<forall>(w, r) \<in> set (draw_room_header ck v area header). shows_in area r"
proof (cases "rt_width area < 5 \<or> rt_height area < 3")
  case True
  then show ?thesis by (simp add: draw_room_header_def shows_in_def)
next
  case False
  let ?x = "unat (rt_x area)" and ?w = "unat (rt_width area)" and ?y = "unat (rt_y area)" and ?h = "unat (rt_height area)"
  let ?d = "rt_x area + rt_width area div 2"
  have big: "5 \<le> ?w" "3 \<le> ?h" and grid: "?x + ?w < 2 ^ 16" "?y + ?h < 2 ^ 16"
    using False assms by (auto simp: word_less_nat_alt on_grid_def not_less)
  have half: "unat (rt_width area div 2) = ?w div 2" by (simp add: unat_div)
  have "?x + ?w div 2 < 2 ^ 16" using grid(1) by linarith
  then have d: "unat ?d = ?x + ?w div 2"
    using unat_add_lem [of "rt_x area" "rt_width area div 2"] half by simp
  have "?x + 1 < 2 ^ 16" "?y + 1 < 2 ^ 16" using big grid by linarith+
  then have x1: "unat (rt_x area + 1) = ?x + 1" and y1: "unat (rt_y area + 1) = ?y + 1"
    by (simp_all only: succ16)
  have d1: "unat (saturating_add16 ?d 1) = ?x + ?w div 2 + 1"
    using saturating_add16_unat [of ?d 1] d big grid(1) by simp
  have xw: "unat (saturating_add16 (rt_x area) (rt_width area)) = ?x + ?w"
    using saturating_add16_unat grid(1) by blast
  show ?thesis
    using False big
    by (auto simp: draw_room_header_def Let_def shows_in_def inside_def d x1 y1 d1 xw saturating_sub16_unat)
qed

text \<open>
  C29: Whatever the screen, the size of the terminal and the state of the application, every widget that is
  drawn with at least one cell lies inside the terminal: the sums of coordinates do not wrap, and a terminal
  of no or few cells gives empty rectangles, not rectangles outside it.
\<close>

theorem widgets_stay_on_screen:
  assumes "layout_ok D" and "on_grid whole" and "draw_screen D ck s whole = Some d" and "(w, r) \<in> set d"
  shows "shows_in whole r"
proof -
  have area: "inside (centered_area whole a b) whole" and grid: "on_grid (centered_area whole a b)" for a b
    using centered_inside [OF assms(2)] inside_on_grid assms(2) by blast+
  have within: "shows_in whole q" if "shows_in (centered_area whole a b) q" for a b q
    using that area inside_trans by (auto simp: shows_in_def)
  have box: "shows_in whole (centered_area whole a b)" "shows_in whole (footer_row (centered_area whole a b))" "shows_in whole whole"
    for a b
    using area within [OF footer_inside [OF grid]] by (simp_all add: shows_in_def)
  have form: "shows_in whole (form_rows D n (centered_area whole a b) ! i)" if "i < n" for n i a b
    by (rule within) (rule form_rows_inside [OF assms(1) grid that])
  show ?thesis
  proof (cases s)
    case (Scr_Room v)
    let ?cs = "[Cn_Length 5, Cn_Min 3, Cn_Length 3]"
    let ?chunks = "de_layout D Dir_Vertical 0 ?cs whole"
    let ?body = "if uses_host_view v then de_layout D Dir_Horizontal 0 [Cn_Min 20, Cn_Percentage 35] (?chunks ! 1)
      else [?chunks ! 1]"
    have chunk: "inside (?chunks ! i) whole" if "i < 3" for i using layout_inside [OF assms(1,2), of i ?cs] that by simp
    have grid1: "on_grid (?chunks ! 1)" using inside_on_grid [OF chunk assms(2)] by simp
    have split: "inside (de_layout D Dir_Horizontal 0 [Cn_Min 20, Cn_Percentage 35] (?chunks ! 1) ! i) whole" if "i < 2" for i
      using inside_trans [OF layout_inside [OF assms(1) grid1, of i "[Cn_Min 20, Cn_Percentage 35]"] chunk [of 1]] that by simp
    have body: "inside (?body ! 0) whole"
      using chunk [of 1] split [of 0] by auto
    have side: "inside (?body ! 1) whole" if "uses_host_view v"
      using that split [of 1] by simp
    have panel: "inside (de_layout D Dir_Vertical 0 [Cn_Percentage 45, Cn_Percentage 55] q ! i) q" if "on_grid q" "i < 2" for q i
      using layout_inside [OF assms(1), of q i "[Cn_Percentage 45, Cn_Percentage 55]"] that by simp
    have head: "shows_in whole r" if "(w, r) \<in> set (draw_room_header ck v (?chunks ! 0) header)" for header
      using header_inside [OF inside_on_grid [OF chunk [of 0] assms(2)], of ck v header] that chunk [of 0] inside_trans
      by (auto simp: shows_in_def)
    have host: "shows_in whole r" if "uses_host_view v" "(w, r) \<in> set (draw_host_panels D v (?body ! 1))"
      using that(2) inside_trans [OF panel [OF inside_on_grid [OF side [OF that(1)] assms(2)]] side [OF that(1)], of 0]
        inside_trans [OF panel [OF inside_on_grid [OF side [OF that(1)] assms(2)]] side [OF that(1)], of 1]
      by (auto simp: draw_host_panels_def Let_def shows_in_def)
    from assms(3,4) Scr_Room consider
        "(w, r) \<in> set (draw_room_header ck v (?chunks ! 0) (room_header v))" | "r = ?body ! 0"
      | "uses_host_view v" "(w, r) \<in> set (draw_host_panels D v (?body ! 1))" | "r = ?chunks ! 2"
      by (auto simp: draw_screen_def draw_room_def draw_messages_def draw_input_line_def Let_def split: if_splits)
    then show ?thesis using head host body chunk [of 2] by cases (auto simp: shows_in_def)
  qed (use assms(3,4) box form in \<open>auto simp: draw_screen_def draw_menu_def draw_tor_connection_def draw_host_setup_def
        draw_join_setup_def draw_join_form_def draw_join_pending_def draw_message_def draw_about_def render_label_def
        render_field_def footer_hint_def Let_def\<close>)
qed

text \<open>
  A layout that gives every constraint the top left cell of what the margin leaves of its area, and as the
  library does the empty rectangle at the origin when it leaves nothing; the room setup on a usual terminal.
\<close>

definition margin_area :: "nat \<Rightarrow> rect \<Rightarrow> rect" where
  "margin_area m r =
     (if unat (rt_width r) < 2 * m \<or> unat (rt_height r) < 2 * m
      then \<lparr>rt_x = 0, rt_y = 0, rt_width = 0, rt_height = 0\<rparr>
      else \<lparr>rt_x = rt_x r + of_nat m, rt_y = rt_y r + of_nat m,
             rt_width = rt_width r - of_nat (2 * m), rt_height = rt_height r - of_nat (2 * m)\<rparr>)"

definition corner :: "rect \<Rightarrow> rect" where
  "corner r = r\<lparr>rt_width := min (rt_width r) 1, rt_height := min (rt_height r) 1\<rparr>"

definition corner_env :: draw_env where
  "corner_env = \<lparr>de_char_width = (\<lambda>_. Some 1), de_str_width = length,
     de_layout = (\<lambda>_ m cs area. replicate (length cs) (corner (margin_area m area)))\<rparr>"

lemma corner_inside: "inside (corner r) r"
proof -
  have "unat (min w 1) \<le> unat w" for w :: u16 by (simp add: word_le_nat_alt [symmetric])
  then show ?thesis by (simp add: corner_def inside_def)
qed

lemma margin_shows:
  assumes "on_grid r"
  shows "shows_in r (margin_area m r)"
proof (cases "unat (rt_width r) < 2 * m \<or> unat (rt_height r) < 2 * m")
  case True
  then show ?thesis by (simp add: margin_area_def shows_in_def empty_rect_def)
next
  case False
  then have "2 * m < 2 ^ 16" using assms unfolding on_grid_def by linarith
  then have m: "unat (of_nat m :: u16) = m" "unat (of_nat (2 * m) :: u16) = 2 * m"
    by (simp_all only: unat_of_nat) simp_all
  have sub: "unat (w - of_nat (2 * m)) = unat w - 2 * m" if "2 * m \<le> unat w" for w :: u16
    using that m(2) by (metis unat_sub word_le_nat_alt)
  have add: "unat (x + of_nat m) = unat x + m" if "unat x + m < 2 ^ 16" for x :: u16
    using that m(1) unat_add_lem [of x "of_nat m"] by simp
  have "unat (rt_x r) + m < 2 ^ 16" "unat (rt_y r) + m < 2 ^ 16" using False assms unfolding on_grid_def by linarith+
  with False show ?thesis by (auto simp: margin_area_def shows_in_def inside_def sub add simp del: of_nat_mult)
qed

lemma corner_env_ok: "layout_ok corner_env"
proof -
  have "margin_area 0 r = r" for r by (simp add: margin_area_def)
  then have "inside (corner (margin_area 0 r)) r" for r using corner_inside by simp
  moreover have "shows_in r (corner (margin_area m r))" if "on_grid r" for m r
    using shows_in_inside [OF corner_inside margin_shows [OF that]] .
  ultimately show ?thesis by (simp add: layout_ok_def corner_env_def list_all_iff)
qed

theorem widgets_stay_on_screen_witness:
  "list_all (\<lambda>(w, r). shows_in \<lparr>rt_x = 0, rt_y = 0, rt_width = 80, rt_height = 24\<rparr> r \<and> \<not> empty_rect r)
     (draw_host_setup corner_env host_setup_new \<lparr>rt_x = 0, rt_y = 0, rt_width = 80, rt_height = 24\<rparr>)"
proof -
  let ?whole = "\<lparr>rt_x = 0, rt_y = 0, rt_width = 80, rt_height = 24\<rparr>"
  have "on_grid ?whole" by (simp add: on_grid_def)
  moreover have "draw_screen corner_env \<lparr>ck_instant = 0, ck_unix_seconds = 0\<rparr> (Scr_HostSetup host_setup_new) ?whole =
      Some (draw_host_setup corner_env host_setup_new ?whole)"
    by (simp add: draw_screen_def)
  ultimately have shown: "shows_in ?whole r" if "(w, r) \<in> set (draw_host_setup corner_env host_setup_new ?whole)" for w r
    using widgets_stay_on_screen [OF corner_env_ok] that by blast
  have "list_all (\<lambda>(w, r). \<not> empty_rect r) (draw_host_setup corner_env host_setup_new ?whole)"
    by (simp add: draw_host_setup_def form_rows_def corner_env_def centered_area_def inner_area_def saturating_sub16_def
        margin_area_def corner_def empty_rect_def render_label_def render_field_def Let_def)
  with shown show ?thesis by (auto simp: list_all_iff)
qed

end
