(* ===== verification/Platform.thy ===== *)
theory Platform
  imports Control
begin

text \<open>
  The platform layer (\<open>platform.rs\<close>) over a model of the file system: nodes with their kind, owner and
  permission bits. Every system call may fail: \<open>w_faults\<close> says how the next calls end, and a call that fails
  there has no effect. Paths are strings with \<open>/\<close> between their parts, none of them relative.
\<close>

section \<open>Files and directories\<close>

type_synonym path = rstring

datatype io_error = IO_NotFound | IO_AlreadyExists | IO_ConnectionRefused | IO_NotADirectory | IO_Other

datatype node_kind = NK_Dir | NK_File bytes | NK_Symlink

record node =
  nd_kind :: node_kind
  nd_uid :: u32
  nd_mode :: u32

text \<open>
  \<open>w_uid\<close> owns what the process creates, \<open>w_status\<close> is what \<open>/proc/self/status\<close> reads, and \<open>w_processes\<close>
  what has happened to child processes.
\<close>

datatype process_event = PrE_Spawned path "rstring list" | PrE_Signalled | PrE_Reaped

record world =
  w_fs :: "path \<Rightarrow> node option"
  w_uid :: u32
  w_umask :: u32
  w_status :: "rstring option"
  w_faults :: "io_error option list"
  w_processes :: "process_event list"

type_synonym 'a io_result = "(io_error + 'a) \<times> world"

definition io_call :: "(world \<Rightarrow> 'a io_result) \<Rightarrow> world \<Rightarrow> 'a io_result" where
  "io_call f w =
     (case w_faults w of
        [] \<Rightarrow> f w
      | Some e # faults \<Rightarrow> (Inl e, w\<lparr>w_faults := faults\<rparr>)
      | None # faults \<Rightarrow> f (w\<lparr>w_faults := faults\<rparr>))"

definition join_path :: "path \<Rightarrow> rstring \<Rightarrow> path" where
  "join_path p name = (if p \<noteq> [] \<and> last p \<noteq> 0x2F then p @ [0x2F] @ name else p @ name)"

text \<open>The part of a path before its last \<open>/\<close>; the empty path stands for the root directory.\<close>

definition parent_path :: "path \<Rightarrow> path" where
  "parent_path p = rev (tl (dropWhile (\<lambda>c. c \<noteq> 0x2F) (rev p)))"

definition is_dir_node :: "world \<Rightarrow> path \<Rightarrow> bool" where
  "is_dir_node w p \<longleftrightarrow> p = [] \<or> (case w_fs w p of Some n \<Rightarrow> nd_kind n = NK_Dir | None \<Rightarrow> False)"

definition set_node :: "path \<Rightarrow> node option \<Rightarrow> world \<Rightarrow> world" where
  "set_node p n w = w\<lparr>w_fs := (w_fs w)(p := n)\<rparr>"

definition new_node :: "node_kind \<Rightarrow> u32 \<Rightarrow> world \<Rightarrow> node" where
  "new_node kind mode w = \<lparr>nd_kind = kind, nd_uid = w_uid w, nd_mode = and mode (not (w_umask w))\<rparr>"

text \<open>\<open>mkdir\<close>, and \<open>open\<close> with \<open>create_new\<close>.\<close>

definition make_node :: "node_kind \<Rightarrow> u32 \<Rightarrow> path \<Rightarrow> world \<Rightarrow> unit io_result" where
  "make_node kind mode p w =
     (if w_fs w p \<noteq> None then (Inl IO_AlreadyExists, w)
      else if \<not> is_dir_node w (parent_path p) then (Inl IO_NotFound, w)
      else (Inr (), set_node p (Some (new_node kind mode w)) w))"

text \<open>A recursive \<open>DirBuilder\<close>: the missing directories on the way, from the top.\<close>

definition ancestors :: "path \<Rightarrow> path list" where
  "ancestors p = map (\<lambda>i. take i p) (filter (\<lambda>i. p ! i = 0x2F) [1..<length p]) @ [p]"

fun make_missing :: "u32 \<Rightarrow> path list \<Rightarrow> world \<Rightarrow> unit io_result" where
  "make_missing mode [] w = (Inr (), w)"
| "make_missing mode (p # ps) w =
     (if is_dir_node w p then make_missing mode ps w
      else if w_fs w p \<noteq> None then (Inl IO_NotADirectory, w)
      else make_missing mode ps (set_node p (Some (new_node NK_Dir mode w)) w))"

definition symlink_metadata :: "path \<Rightarrow> world \<Rightarrow> node io_result" where
  "symlink_metadata p w = ((case w_fs w p of Some n \<Rightarrow> Inr n | None \<Rightarrow> Inl IO_NotFound), w)"

definition set_permissions :: "path \<Rightarrow> u32 \<Rightarrow> world \<Rightarrow> unit io_result" where
  "set_permissions p mode w =
     (case w_fs w p of
        None \<Rightarrow> (Inl IO_NotFound, w)
      | Some n \<Rightarrow> (Inr (), set_node p (Some (n\<lparr>nd_mode := mode\<rparr>)) w))"

definition write_file :: "path \<Rightarrow> bytes \<Rightarrow> world \<Rightarrow> unit io_result" where
  "write_file p content w =
     (case w_fs w p of
        Some n \<Rightarrow>
          (case nd_kind n of
             NK_File _ \<Rightarrow> (Inr (), set_node p (Some (n\<lparr>nd_kind := NK_File content\<rparr>)) w)
           | _ \<Rightarrow> (Inl IO_Other, w))
      | None \<Rightarrow> make_node (NK_File content) 0x1B6 p w)"

text \<open>\<open>remove_dir_all\<close>: the directory and everything below it.\<close>

definition below :: "path \<Rightarrow> path \<Rightarrow> bool" where
  "below dir p \<longleftrightarrow> p = dir \<or> prefix (dir @ [0x2F]) p"

definition remove_dir_all :: "path \<Rightarrow> world \<Rightarrow> unit io_result" where
  "remove_dir_all dir w =
     (if w_fs w dir = None then (Inl IO_NotFound, w)
      else (Inr (), w\<lparr>w_fs := (\<lambda>p. if below dir p then None else w_fs w p)\<rparr>))"

section \<open>Errors\<close>

datatype platform_error =
    PlE_NoRuntimeDirectory
  | PlE_SessionCollision path
  | PlE_LockCollision path
  | PlE_Randomness
  | PlE_Io io_error
  | PlE_UnsafeRuntimeDirectory rstring

type_synonym 'a platform_result = "(platform_error + 'a) \<times> world"

definition with_error :: "(io_error \<Rightarrow> 'e) \<Rightarrow> 'a io_result \<Rightarrow> ('e + 'a) \<times> world" where
  "with_error f r = (map_errE f (fst r), snd r)"

section \<open>The effective user\<close>

text \<open>\<open>lines\<close> of a string, and \<open>split_whitespace\<close>.\<close>

definition str_lines :: "rstring \<Rightarrow> rstring list" where
  "str_lines s =
     (let parts = split_on 0x0A s
      in map strip_cr (butlast parts) @ (if last parts = [] then [] else [last parts]))"

fun split_whitespace_from :: "rstring \<Rightarrow> rstring \<Rightarrow> rstring list" where
  "split_whitespace_from word [] = (if word = [] then [] else [word])"
| "split_whitespace_from word (c # s) =
     (if char_is_whitespace c then (if word = [] then [] else [word]) @ split_whitespace_from [] s
      else split_whitespace_from (word @ [c]) s)"

definition uid_line :: "rstring \<Rightarrow> rstring option" where
  "uid_line status = List.find (prefix (rs ''Uid:'')) (str_lines status)"

definition effective_field :: "rstring \<Rightarrow> rstring option" where
  "effective_field line =
     (let fields = split_whitespace_from [] line in if 2 < length fields then Some (fields ! 2) else None)"

definition is_running_as_root :: "rstring option \<Rightarrow> bool" where
  "is_running_as_root status =
     (case status of
        Some s \<Rightarrow> (case uid_line s of Some line \<Rightarrow> effective_field line = Some (rs ''0'') | None \<Rightarrow> True)
      | None \<Rightarrow> True)"

definition effective_uid :: "rstring option \<Rightarrow> u32 option" where
  "effective_uid status =
     map_option of_nat
       (Option.bind (Option.bind (Option.bind status uid_line) effective_field) (parse_uint (2 ^ 32 - 1)))"

section \<open>The runtime directory\<close>

definition validate_runtime_root :: "path \<Rightarrow> world \<Rightarrow> unit platform_result" where
  "validate_runtime_root p w =
     (if \<not> prefix [0x2F] p then (Inl (PlE_UnsafeRuntimeDirectory (rs ''path is not absolute'')), w)
      else tryS (with_error PlE_Io (io_call (symlink_metadata p) w)) (\<lambda>n w1.
        (if nd_kind n \<noteq> NK_Dir then Inl (PlE_UnsafeRuntimeDirectory (rs ''path is not a real directory''))
         else case effective_uid (w_status w1) of
           None \<Rightarrow> Inl (PlE_UnsafeRuntimeDirectory (rs ''effective uid unavailable''))
         | Some uid \<Rightarrow>
             if nd_uid n \<noteq> uid then Inl (PlE_UnsafeRuntimeDirectory (rs ''directory is owned by another user''))
             else if and (nd_mode n) 0x3F \<noteq> 0 then
               Inl (PlE_UnsafeRuntimeDirectory (rs ''directory permissions are broader than 0700''))
             else Inr (), w1)))"

definition runtime_root :: "path option \<Rightarrow> path option" where
  "runtime_root env_value = (case env_value of Some v \<Rightarrow> if v = [] then None else Some v | None \<Rightarrow> None)"

definition safe_path_char :: "nat \<Rightarrow> bool" where
  "safe_path_char c \<longleftrightarrow>
     (0x30 \<le> c \<and> c \<le> 0x39) \<or> (0x41 \<le> c \<and> c \<le> 0x5A) \<or> (0x61 \<le> c \<and> c \<le> 0x7A) \<or> c \<in> {0x2F, 0x5F, 0x2D, 0x2E}"

definition HEX_DIGITS :: rstring where "HEX_DIGITS = rs ''0123456789abcdef''"

definition hex :: "bytes \<Rightarrow> rstring" where
  "hex bs = concat (map (\<lambda>b. [HEX_DIGITS ! unat (drop_bit 4 b), HEX_DIGITS ! unat (and b 0x0F)]) bs)"

definition set_dir_mode_0700 :: "path \<Rightarrow> world \<Rightarrow> unit platform_result" where
  "set_dir_mode_0700 dir w = with_error PlE_Io (io_call (set_permissions dir 0x1C0) w)"

definition exists_as :: "platform_error \<Rightarrow> io_error \<Rightarrow> platform_error" where
  "exists_as collision e = (if e = IO_AlreadyExists then collision else PlE_Io e)"

definition create_session_dir :: "path \<Rightarrow> entropy \<Rightarrow> world \<Rightarrow> path platform_result" where
  "create_session_dir root es w =
     (if \<not> list_all safe_path_char root
      then (Inl (PlE_UnsafeRuntimeDirectory (rs ''path contains characters unsafe for the Tor control protocol'')), w)
      else
        let veilroom_root = join_path root (rs ''veilroom'')
        in tryS (with_error PlE_Io (io_call (make_missing 0x1C0 (ancestors veilroom_root)) w)) (\<lambda>_ w1.
           tryS (set_dir_mode_0700 veilroom_root w1) (\<lambda>_ w2.
             case fst (random_bytes 16 es) of
               None \<Rightarrow> (Inl PlE_Randomness, w2)
             | Some random \<Rightarrow>
                 let session_dir = join_path veilroom_root (rs ''session-'' @ hex random);
                     lock_file = join_path session_dir (rs ''lock'')
                 in tryS (with_error (exists_as (PlE_SessionCollision session_dir))
                            (io_call (make_node NK_Dir 0x1C0 session_dir) w2)) (\<lambda>_ w3.
                    tryS (set_dir_mode_0700 session_dir w3) (\<lambda>_ w4.
                    tryS (with_error (exists_as (PlE_LockCollision lock_file))
                            (io_call (make_node (NK_File []) 0x180 lock_file) w4)) (\<lambda>_ w5.
                    (Inr session_dir, w5)))))))"

definition remove_session_dir :: "path \<Rightarrow> world \<Rightarrow> world" where
  "remove_session_dir dir w = snd (io_call (remove_dir_all dir) w)"

end
