(* ===== verification/TorManager.thy ===== *)
theory TorManager
  imports Platform
begin

text \<open>
  The Tor process of a session (\<open>tor/manager.rs\<close>): its directory, its start up to a finished bootstrap, its
  onion service and its shutdown. What the process and its socket do is an input of each operation; a loop
  that polls takes its turns from a list, and \<open>None\<close> says that the list was too short.
\<close>

datatype manager_error =
    TmE_Platform platform_error
  | TmE_RunningAsRoot
  | TmE_TorBinaryNotFound
  | TmE_Tor tor_error
  | TmE_ConnectTimeout
  | TmE_Cookie rstring
  | TmE_ChildExitTimeout
  | TmE_Io io_error

record session_paths =
  sp_session_dir :: path
  sp_tor_data :: path
  sp_control_socket :: path
  sp_socks_socket :: path
  sp_chat_socket :: path
  sp_lock_file :: path
  sp_tor_log :: path

record tor_manager =
  tm_binary :: "path option"
  tm_paths :: session_paths
  tm_child :: bool
  tm_control :: "control_client option"
  tm_onion :: "onion_service option"

section \<open>Preparing\<close>

definition session_layout :: "path \<Rightarrow> session_paths" where
  "session_layout dir =
     \<lparr>sp_session_dir = dir, sp_tor_data = join_path dir (rs ''tor-data''),
      sp_control_socket = join_path dir (rs ''control.sock''), sp_socks_socket = join_path dir (rs ''socks.sock''),
      sp_chat_socket = join_path dir (rs ''chat.sock''), sp_lock_file = join_path dir (rs ''lock''),
      sp_tor_log = join_path dir (rs ''tor.log'')\<rparr>"

definition prepare_with :: "path \<Rightarrow> path option \<Rightarrow> entropy \<Rightarrow> world \<Rightarrow> (manager_error + tor_manager) \<times> world" where
  "prepare_with root binary es w =
     (if is_running_as_root (w_status w) then (Inl TmE_RunningAsRoot, w)
      else case create_session_dir root es w of
        (Inl e, w1) \<Rightarrow> (Inl (TmE_Platform e), w1)
      | (Inr dir, w1) \<Rightarrow>
          (Inr \<lparr>tm_binary = binary, tm_paths = session_layout dir, tm_child = False, tm_control = None, tm_onion = None\<rparr>, w1))"

definition prepare_with_binary :: "path option \<Rightarrow> path option \<Rightarrow> entropy \<Rightarrow> world \<Rightarrow>
    (manager_error + tor_manager) \<times> world" where
  "prepare_with_binary env binary es w =
     (case runtime_root env of
        None \<Rightarrow> (Inl (TmE_Platform PlE_NoRuntimeDirectory), w)
      | Some root \<Rightarrow>
          (case validate_runtime_root root w of
             (Inl e, w1) \<Rightarrow> (Inl (TmE_Platform e), w1)
           | (Inr _, w1) \<Rightarrow> prepare_with root binary es w1))"

section \<open>Starting\<close>

definition resolve_tor_binary :: "(path \<Rightarrow> bool) \<Rightarrow> path list \<Rightarrow> path option \<Rightarrow> manager_error + path" where
  "resolve_tor_binary is_file path_dirs explicit =
     (case explicit of
        Some p \<Rightarrow> if is_file p then Inr p else Inl TmE_TorBinaryNotFound
      | None \<Rightarrow> ok_or TmE_TorBinaryNotFound (List.find is_file (map (\<lambda>dir. join_path dir (rs ''tor'')) path_dirs)))"

definition tor_arguments :: "session_paths \<Rightarrow> rstring list" where
  "tor_arguments paths =
     [rs ''--DataDirectory'', sp_tor_data paths, rs ''--ControlSocket'', sp_control_socket paths,
      rs ''--SocksPort'', rs ''unix:'' @ sp_socks_socket paths, rs ''--CookieAuthentication'', rs ''1'',
      rs ''--SafeLogging'', rs ''1'', rs ''--AvoidDiskWrites'', rs ''1'', rs ''--Log'', rs ''notice stderr'']"

text \<open>A turn of \<open>ControlClient::connect\<close>: what connecting gives, and whether the deadline has passed.\<close>

datatype connect_turn = CT_Turn "io_error + socket_read list" bool

fun connect_control :: "connect_turn list \<Rightarrow> (manager_error + control_client) option" where
  "connect_control [] = None"
| "connect_control (CT_Turn attempt late # turns) =
     (case attempt of
        Inr input \<Rightarrow>
          Some (Inr \<lparr>cc_reader = line_reader_new input MAX_CONTROL_LINE_BYTES, cc_written = [], cc_poisoned = False\<rparr>)
      | Inl e \<Rightarrow>
          if late then Some (Inl (if e \<in> {IO_NotFound, IO_ConnectionRefused} then TmE_ConnectTimeout else TmE_Tor (TE_Control CtE_Io)))
          else connect_control turns)"

text \<open>A turn of \<open>read_cookie_hex\<close>: what reading the file gives, its metadata, and whether the deadline has passed.\<close>

datatype cookie_turn = CkT_Turn "io_error + bytes" "io_error + node" bool

definition cookie_hex :: "u32 option \<Rightarrow> bytes \<Rightarrow> io_error + node \<Rightarrow> manager_error + rstring" where
  "cookie_hex effective cookie metadata =
     (if length cookie \<noteq> 32 then Inl (TmE_Cookie (rs ''cookie has an unexpected length''))
      else case metadata of
        Inl e \<Rightarrow> Inl (TmE_Io e)
      | Inr n \<Rightarrow>
          (case effective of
             None \<Rightarrow> Inl (TmE_Cookie (rs ''effective uid unavailable''))
           | Some uid \<Rightarrow>
               if nd_uid n \<noteq> uid then Inl (TmE_Cookie (rs ''cookie is owned by another user''))
               else if and (nd_mode n) 0x3F \<noteq> 0 then Inl (TmE_Cookie (rs ''cookie permissions are broader than 0600''))
               else Inr (hex cookie)))"

fun read_cookie_hex :: "u32 option \<Rightarrow> cookie_turn list \<Rightarrow> (manager_error + rstring) option" where
  "read_cookie_hex effective [] = None"
| "read_cookie_hex effective (CkT_Turn content metadata late # turns) =
     (case content of
        Inr cookie \<Rightarrow> Some (cookie_hex effective cookie metadata)
      | Inl e \<Rightarrow>
          if e = IO_NotFound then
            (if late then Some (Inl (TmE_Cookie (rs ''cookie did not appear in time'')))
             else read_cookie_hex effective turns)
          else Some (Inl (TmE_Io e)))"

record start_world =
  sw_is_file :: "path \<Rightarrow> bool"
  sw_path_dirs :: "path list"
  sw_spawn :: "io_error option"
  sw_connect :: "connect_turn list"
  sw_cookie :: "cookie_turn list"
  sw_authenticate :: command_fate
  sw_bootstrap :: "bootstrap_turn list"

text \<open>
  \<open>authenticate_and_bootstrap_with_progress\<close>: the result, the percentages it reports, and the manager.
\<close>

definition authenticate_and_bootstrap :: "start_world \<Rightarrow> world \<Rightarrow> tor_manager \<Rightarrow>
    (manager_error + unit) option \<times> u8 list \<times> tor_manager" where
  "authenticate_and_bootstrap S w m =
     (case read_cookie_hex (effective_uid (w_status w)) (sw_cookie S) of
        None \<Rightarrow> (None, [], m)
      | Some (Inl e) \<Rightarrow> (Some (Inl e), [], m)
      | Some (Inr cookie) \<Rightarrow>
          (case tm_control m of
             None \<Rightarrow> (Some (Inl (TmE_Tor TE_NoControlConnection)), [], m)
           | Some c \<Rightarrow>
               (case authenticate cookie (sw_authenticate S) c of
                  (Inl e, c1) \<Rightarrow> (Some (Inl (TmE_Tor (TE_Control e))), [], m\<lparr>tm_control := Some c1\<rparr>)
                | (Inr _, c1) \<Rightarrow>
                    (case wait_for_bootstrap (sw_bootstrap S) (Some c1) [] of
                       (r, seen, control) \<Rightarrow> (map_option (map_errE TmE_Tor) r, seen, m\<lparr>tm_control := control\<rparr>)))))"

definition start_with_callback :: "start_world \<Rightarrow> tor_manager \<Rightarrow> world \<Rightarrow>
    (manager_error + unit) option \<times> u8 list \<times> tor_manager \<times> world" where
  "start_with_callback S m w =
     (case resolve_tor_binary (sw_is_file S) (sw_path_dirs S) (tm_binary m) of
        Inl e \<Rightarrow> (Some (Inl e), [], m, w)
      | Inr binary \<Rightarrow>
          (case sw_spawn S of
             Some e \<Rightarrow> (Some (Inl (TmE_Io e)), [], m, w)
           | None \<Rightarrow>
               (let w1 = w\<lparr>w_processes := w_processes w @ [PrE_Spawned binary (tor_arguments (tm_paths m))]\<rparr>;
                    m1 = m\<lparr>tm_child := True\<rparr>
                in case connect_control (sw_connect S) of
                     None \<Rightarrow> (None, [], m1, w1)
                   | Some (Inl e) \<Rightarrow> (Some (Inl e), [], m1, w1)
                   | Some (Inr control) \<Rightarrow>
                       (case authenticate_and_bootstrap S w1 (m1\<lparr>tm_control := Some control\<rparr>) of
                          (r, seen, m2) \<Rightarrow> (r, seen, m2, w1)))))"

section \<open>Running\<close>

definition ensure_child_alive :: "io_error + bool \<Rightarrow> tor_manager \<Rightarrow> manager_error + bool" where
  "ensure_child_alive try_wait m = (if tm_child m then map_errE TmE_Io try_wait else Inr False)"

definition manager_add_onion :: "uri_env \<Rightarrow> u16 \<Rightarrow> command_fate \<Rightarrow> tor_manager \<Rightarrow> (manager_error + onion_service) \<times> tor_manager" where
  "manager_add_onion U port fate m =
     (case add_onion U port (sp_chat_socket (tm_paths m)) fate (tm_control m) of
        (Inl e, control) \<Rightarrow> (Inl (TmE_Tor e), m\<lparr>tm_control := control\<rparr>)
      | (Inr service, control) \<Rightarrow> (Inr service, m\<lparr>tm_control := control, tm_onion := Some service\<rparr>))"

section \<open>Stopping\<close>

text \<open>
  How the process takes the shutdown: it exits in time; waiting for it fails; it is killed; the kill fails, and
  the wait behind it succeeds or fails; or that kill or that wait, which have no timeout, never return.
\<close>

datatype exit_wait =
    EW_Exited
  | EW_Failed io_error
  | EW_Killed
  | EW_KillFailed io_error "io_error option"
  | EW_Hangs

definition cookie_path :: "session_paths \<Rightarrow> path" where
  "cookie_path paths = join_path (sp_tor_data paths) (rs ''control_auth_cookie'')"

definition wipe_cookie_file :: "session_paths \<Rightarrow> world \<Rightarrow> world" where
  "wipe_cookie_file paths w = snd (io_call (write_file (cookie_path paths) (replicate 32 0)) w)"

definition farewell :: "command_fate \<Rightarrow> command_fate \<Rightarrow> tor_manager \<Rightarrow> control_client option" where
  "farewell del stop m =
     (case tm_control m of
        None \<Rightarrow> None
      | Some c \<Rightarrow>
          (let c1 = (case tm_onion m of
                 None \<Rightarrow> c
               | Some onion \<Rightarrow>
                   let service_id = (case strip_suffix ONION_V3_SUFFIX (os_onion_address onion) of
                         Some s \<Rightarrow> s | None \<Rightarrow> os_onion_address onion)
                   in snd (run_command (rs ''DEL_ONION '' @ service_id) del c))
           in Some (snd (run_command (rs ''SIGNAL SHUTDOWN'') stop c1))))"

text \<open>\<open>None\<close> is a call that never returns. The result of the wait behind a kill is ignored.\<close>

definition stop_child :: "exit_wait \<Rightarrow> bool \<Rightarrow> world \<Rightarrow> ((manager_error + unit) \<times> world) option" where
  "stop_child exit_wait has_child w =
     (let happened = (\<lambda>evs. w\<lparr>w_processes := w_processes w @ evs\<rparr>)
      in if \<not> has_child then Some (Inr (), w)
         else case exit_wait of
           EW_Exited \<Rightarrow> Some (Inr (), happened [PrE_Reaped])
         | EW_Failed e \<Rightarrow> Some (Inl (TmE_Io e), w)
         | EW_Killed \<Rightarrow> Some (Inl TmE_ChildExitTimeout, happened [PrE_Signalled, PrE_Reaped])
         | EW_KillFailed e wait_again \<Rightarrow>
             Some (Inl (TmE_Io e), happened (case wait_again of None \<Rightarrow> [PrE_Reaped] | Some _ \<Rightarrow> []))
         | EW_Hangs \<Rightarrow> None)"

text \<open>The control connection as it is when it is dropped, the result, and the world.\<close>

definition shutdown :: "command_fate \<Rightarrow> command_fate \<Rightarrow> exit_wait \<Rightarrow> tor_manager \<Rightarrow> world \<Rightarrow>
    (control_client option \<times> (manager_error + unit) \<times> world) option" where
  "shutdown del stop exit_wait m w =
     map_option (\<lambda>(result, w1).
         (farewell del stop m, result,
          remove_session_dir (sp_session_dir (tm_paths m)) (wipe_cookie_file (tm_paths m) w1)))
       (stop_child exit_wait (tm_child m) w)"

text \<open>Dropping a manager that was not shut down.\<close>

definition drop_manager :: "tor_manager \<Rightarrow> world \<Rightarrow> world" where
  "drop_manager m w = (if tm_child m then w\<lparr>w_processes := w_processes w @ [PrE_Signalled]\<rparr> else w)"

end
