(* ===== verification/TorManagerRules.thy ===== *)
theory TorManagerRules
  imports TorManager ControlRules
begin

text \<open>
  What a session leaves on the disk and tells Tor: its directory is new and private, its path cannot split a
  control command, Tor is only given a cookie that nobody else could have read, and a shutdown, whatever
  fails in it, leaves neither the cookie nor a file outside the directory changed.
\<close>

section \<open>System calls\<close>

lemma io_call_cases:
  assumes "io_call f w = (r, w1)"
  obtains (failed) e faults where "r = Inl e" "w1 = w\<lparr>w_faults := faults\<rparr>"
  | (called) faults where "f (w\<lparr>w_faults := faults\<rparr>) = (r, w1)"
  using assms unfolding io_call_def by (cases "w_faults w") (auto split: option.splits intro: that, metis world.surjective world.update_convs(5))

lemma with_error_Inr: "with_error f r = (Inr x, w) \<longleftrightarrow> r = (Inr x, w)"
  by (cases r) (auto simp: with_error_def)

text \<open>What stays: the status and user of the process, and every node that is not named.\<close>

definition kept :: "path set \<Rightarrow> world \<Rightarrow> world \<Rightarrow> bool" where
  "kept P w w1 \<longleftrightarrow> w_status w1 = w_status w \<and> w_uid w1 = w_uid w \<and> w_umask w1 = w_umask w \<and>
     (\<forall>p. p \<notin> P \<longrightarrow> w_fs w p \<noteq> None \<longrightarrow> w_fs w1 p = w_fs w p)"

lemma kept_refl [simp]: "kept P w w" "kept P w (w\<lparr>w_faults := faults\<rparr>)" "kept P (w\<lparr>w_faults := faults\<rparr>) w1 = kept P w w1"
  by (simp_all add: kept_def)

lemma kept_trans: "kept P w w1 \<Longrightarrow> kept Q w1 w2 \<Longrightarrow> kept (P \<union> Q) w w2"
  by (auto simp: kept_def)

lemma make_missing_kept: "make_missing mode ps w = (r, w1) \<Longrightarrow> kept {} w w1"
proof (induction mode ps w rule: make_missing.induct)
  case (2 mode p ps w)
  let ?w = "set_node p (Some (new_node NK_Dir mode w)) w"
  show ?case
  proof (cases "is_dir_node w p \<or> w_fs w p \<noteq> None")
    case True
    then show ?thesis using 2 by (auto split: if_splits)
  next
    case False
    then have "kept {} ?w w1" using 2 by simp
    moreover have "kept {} w ?w" using False by (auto simp: kept_def set_node_def)
    ultimately show ?thesis using kept_trans by fastforce
  qed
qed simp

lemma set_mode_done:
  assumes "set_dir_mode_0700 dir w = (Inr (), w1)"
  shows "kept {dir} w w1 \<and> (\<exists>n. w_fs w dir = Some n \<and> w_fs w1 dir = Some (n\<lparr>nd_mode := 0x1C0\<rparr>))"
  using assms unfolding set_dir_mode_0700_def with_error_Inr
  by (auto elim!: io_call_cases simp: set_permissions_def kept_def set_node_def split: option.splits)

lemma make_node_done:
  assumes "with_error f (io_call (make_node kind mode p) w) = (Inr (), w1)"
  shows "kept {} w w1 \<and> w_fs w p = None \<and> w_fs w1 p = Some (new_node kind mode w)"
  using assms unfolding with_error_Inr
  by (auto elim!: io_call_cases simp: make_node_def kept_def set_node_def new_node_def split: if_splits)

section \<open>A private directory\<close>

lemma hex_safe: "list_all safe_path_char (hex bs)"
proof -
  have digit: "safe_path_char (HEX_DIGITS ! i)" if "i < 16" for i
  proof -
    have "list_all safe_path_char HEX_DIGITS" "length HEX_DIGITS = 16"
      by (simp_all add: HEX_DIGITS_def rs_def safe_path_char_def)
    then show ?thesis using that by (simp add: list_all_length)
  qed
  have "unat (drop_bit 4 b) < 16" for b :: u8
  proof -
    have "unat b < 2 ^ LENGTH(8)" by (rule unsigned_less)
    then show ?thesis by (simp add: drop_bit_eq_div unat_div)
  qed
  moreover have "unat (and b 0x0F) < 16" for b :: u8
    using word_and_le2 [of "0x0F" b] by (simp add: word_le_nat_alt and.commute)
  ultimately show ?thesis using digit by (induction bs) (simp_all add: hex_def)
qed

lemma join_path_safe: "list_all safe_path_char p \<Longrightarrow> list_all safe_path_char name \<Longrightarrow> list_all safe_path_char (join_path p name)"
  by (auto simp: join_path_def safe_path_char_def)

lemma join_path_longer: "name \<noteq> [] \<Longrightarrow> length p < length (join_path p name)"
  by (simp add: join_path_def)

lemma create_session_dir_done:
  assumes "create_session_dir root es w = (Inr dir, w1)"
  defines "veilroom_root \<equiv> join_path root (rs ''veilroom'')"
  shows "list_all safe_path_char dir \<and> kept {veilroom_root} w w1 \<and> w_fs w dir = None \<and>
    w_fs w1 dir = Some \<lparr>nd_kind = NK_Dir, nd_uid = w_uid w, nd_mode = 0x1C0\<rparr> \<and>
    w_fs w1 (join_path dir (rs ''lock'')) = Some \<lparr>nd_kind = NK_File [], nd_uid = w_uid w, nd_mode = and 0x180 (not (w_umask w))\<rparr>"
proof -
  have safe: "list_all safe_path_char root" using assms(1) by (simp add: create_session_dir_def split: if_splits)
  obtain w2 w3 random w4 w5 where
    made: "io_call (make_missing 0x1C0 (ancestors veilroom_root)) w = (Inr (), w2)" and
    root_mode: "set_dir_mode_0700 veilroom_root w2 = (Inr (), w3)" and
    dir: "dir = join_path veilroom_root (rs ''session-'' @ hex random)" and
    new_dir: "with_error (exists_as (PlE_SessionCollision dir)) (io_call (make_node NK_Dir 0x1C0 dir) w3) = (Inr (), w4)" and
    dir_mode: "set_dir_mode_0700 dir w4 = (Inr (), w5)" and
    lock: "with_error (exists_as (PlE_LockCollision (join_path dir (rs ''lock''))))
      (io_call (make_node (NK_File []) 0x180 (join_path dir (rs ''lock''))) w5) = (Inr (), w1)"
    using assms(1) safe unfolding create_session_dir_def veilroom_root_def Let_def
    by (auto simp: with_error_Inr elim!: tryS_cases split: option.splits)
  have keep1: "kept {} w w2"
    using made by (auto elim!: io_call_cases dest!: make_missing_kept)
  note m1 = set_mode_done [OF root_mode] and n1 = make_node_done [OF new_dir] and m2 = set_mode_done [OF dir_mode]
    and n2 = make_node_done [OF lock]
  have keep3: "kept {veilroom_root} w w3" using kept_trans [OF keep1 conjunct1 [OF m1]] by simp
  have keep4: "kept {veilroom_root} w w4" using kept_trans [OF keep3 conjunct1 [OF n1]] by simp
  have fresh: "w_fs w dir = None"
  proof (rule ccontr)
    assume "w_fs w dir \<noteq> None"
    moreover have "dir \<noteq> veilroom_root" using join_path_longer [of "rs ''session-'' @ hex random" veilroom_root] dir
      by (auto simp: rs_def)
    ultimately show False using keep3 n1 by (auto simp: kept_def)
  qed
  have "kept {veilroom_root} w w1"
    using keep4 m2 n2 fresh unfolding kept_def by (metis empty_iff singletonD)
  moreover have "w_fs w1 dir = w_fs w5 dir"
    using n2 m2 by (auto simp: kept_def)
  then have "w_fs w1 dir = Some \<lparr>nd_kind = NK_Dir, nd_uid = w_uid w, nd_mode = 0x1C0\<rparr>"
    using n1 m2 keep3 by (auto simp: new_node_def kept_def)
  moreover have "w_fs w1 (join_path dir (rs ''lock'')) =
      Some \<lparr>nd_kind = NK_File [], nd_uid = w_uid w, nd_mode = and 0x180 (not (w_umask w))\<rparr>"
    using n2 m2 keep4 by (auto simp: new_node_def kept_def)
  moreover have "list_all safe_path_char dir"
    unfolding dir veilroom_root_def
    by (intro join_path_safe safe) (simp_all add: hex_safe, simp_all add: rs_def safe_path_char_def)
  ultimately show ?thesis using fresh by blast
qed

lemma safe_path_plain: "list_all safe_path_char s \<Longrightarrow> 0x20 \<notin> set s \<and> 0x0D \<notin> set s \<and> 0x0A \<notin> set s"
  by (auto simp: list_all_iff safe_path_char_def)

lemma dec_plain: "0x20 \<notin> set (dec n) \<and> 0x0D \<notin> set (dec n) \<and> 0x0A \<notin> set (dec n)"
  using dec_digits [of n] by (auto simp: list_all_iff is_digit_def)

lemma fill_line_valid: "fill_line max_len buf input \<noteq> (Inl CtE_InvalidCommand, pending, rest)"
  by (induction max_len buf input rule: fill_line.induct) (auto split: option.split)

lemma next_line_valid: "next_line r \<noteq> (Inl CtE_InvalidCommand, r1)"
  by (auto simp: next_line_def fill_line_valid finish_line_def bindE_def split: option.splits prod.splits sum.splits)

lemma read_reply_valid: "fst (read_reply a r) \<noteq> Inl CtE_InvalidCommand"
proof (induction a r rule: read_reply.induct)
  case (1 a r)
  then show ?case
    by (subst read_reply.simps) (auto simp: next_line_valid split: prod.split sum.split option.split)
qed

text \<open>
  C34: A prepared session is private and cannot inject: the process is not root, the session directory did not
  exist before and now belongs to the process with mode 0700, its lock file is only the owner's, no file that
  existed is changed but the mode of the common parent, and the path of the chat socket puts neither a space
  nor a line break into the \<open>ADD_ONION\<close> command, which has exactly its four words and is never refused.
\<close>

theorem session_directory_is_private:
  assumes "prepare_with_binary env binary es w = (Inr m, w1)"
  shows "\<exists>root dir. env = Some root \<and> \<not> is_running_as_root (w_status w) \<and> tm_paths m = session_layout dir \<and>
    w_fs w dir = None \<and> w_fs w1 dir = Some \<lparr>nd_kind = NK_Dir, nd_uid = w_uid w, nd_mode = 0x1C0\<rparr> \<and>
    (\<exists>n. w_fs w1 (sp_lock_file (tm_paths m)) = Some n \<and> nd_uid n = w_uid w \<and> and (nd_mode n) 0x3F = 0) \<and>
    (\<forall>p. w_fs w p \<noteq> None \<longrightarrow> p \<noteq> join_path root (rs ''veilroom'') \<longrightarrow> w_fs w1 p = w_fs w p) \<and>
    (\<forall>port fate c. length (filter (\<lambda>c. c = 0x20) (add_onion_command port (sp_chat_socket (tm_paths m)))) = 3 \<and>
       fst (run_command (add_onion_command port (sp_chat_socket (tm_paths m))) fate c) \<noteq> Inl CtE_InvalidCommand)"
proof -
  obtain root w0 where root: "env = Some root" "validate_runtime_root root w = (Inr (), w0)" "prepare_with root binary es w0 = (Inr m, w1)"
    using assms by (auto simp: prepare_with_binary_def runtime_root_def split: option.splits if_splits sum.splits prod.splits)
  have w0: "kept {} w w0 \<and> w_fs w0 = w_fs w"
    using root(2) by (auto simp: validate_runtime_root_def with_error_Inr symlink_metadata_def
        elim!: tryS_cases io_call_cases split: if_splits option.splits)
  obtain dir where dir: "create_session_dir root es w0 = (Inr dir, w1)" "\<not> is_running_as_root (w_status w0)"
    "tm_paths m = session_layout dir"
    using root(3) by (auto simp: prepare_with_def split: if_splits sum.splits prod.splits)
  note d = create_session_dir_done [OF dir(1)]
  have sock: "list_all safe_path_char (join_path dir (rs ''chat.sock''))"
    using d by (intro join_path_safe) (simp_all add: rs_def safe_path_char_def)
  have spaces: "filter (\<lambda>c. c = 0x20) (dec n) = []" "filter (\<lambda>c. c = 0x20) (join_path dir (rs ''chat.sock'')) = []" for n
    using dec_plain [of n] safe_path_plain [OF sock] by (auto simp: filter_empty_conv)
  have words: "length (filter (\<lambda>c. c = 0x20) (add_onion_command port (join_path dir (rs ''chat.sock'')))) = 3" for port
    by (simp add: add_onion_command_def spaces) (simp add: rs_def)
  have line: "0x0D \<notin> set (add_onion_command port (join_path dir (rs ''chat.sock''))) \<and>
      0x0A \<notin> set (add_onion_command port (join_path dir (rs ''chat.sock'')))" for port
    using dec_plain [of "unat port"] safe_path_plain [OF sock] by (simp add: add_onion_command_def) (simp add: rs_def)
  have sent: "fst (run_command (add_onion_command port (join_path dir (rs ''chat.sock''))) fate c) \<noteq> Inl CtE_InvalidCommand"
    for port fate c
    using line [of port] by (auto simp: run_command_def split: command_fate.split prod.split dest!: arg_cong [of _ _ fst] simp: read_reply_valid)
  have "and (and 0x180 (not (w_umask w))) 0x3F = (0 :: u32)" by (simp add: word_bw_lcs and.assoc and.left_commute)
  with root(1) dir(2,3) d w0 words sent show ?thesis
    by (intro exI [of _ root] exI [of _ dir]) (auto simp: session_layout_def kept_def)
qed

section \<open>The cookie\<close>

lemma read_reply_only: "run_command cmd fate c = (r, c1) \<Longrightarrow> \<exists>more. cc_written c1 = cc_written c @ more"
  by (auto simp: run_command_def split: if_splits command_fate.splits prod.splits)

lemma run_command_sent:
  "run_command cmd fate c = (Inr reply, c1) \<Longrightarrow> cc_written c1 = cc_written c @ utf8 (cmd @ [0x0D, 0x0A])"
  by (auto simp: run_command_def split: if_splits command_fate.splits prod.splits)

lemma authenticate_sent:
  "authenticate cookie fate c = (Inr (), c1) \<Longrightarrow>
   cc_written c1 = cc_written c @ utf8 (rs ''AUTHENTICATE '' @ cookie @ [0x0D, 0x0A])"
  by (auto simp: authenticate_def elim!: tryS_cases dest!: run_command_sent split: if_splits)

lemma bootstrap_done:
  "wait_for_bootstrap turns (Some c) seen = (Some (Inr ()), seen1, control) \<Longrightarrow>
   seen1 \<noteq> [] \<and> last seen1 = 100 \<and> (\<exists>c1 more. control = Some c1 \<and> cc_written c1 = cc_written c @ more)"
proof (induction turns arbitrary: c seen)
  case (Cons turn turns)
  obtain exited fate late where t: "turn = BT_Turn exited fate late" by (cases turn)
  then obtain f reply c1 where step: "fate = Some f" "\<not> exited"
    "run_command (rs ''GETINFO status/bootstrap-phase'') f c = (Inr reply, c1)"
    using Cons.prems by (auto split: if_splits option.splits sum.splits prod.splits)
  obtain more where more: "cc_written c1 = cc_written c @ more" using read_reply_only [OF step(3)] by blast
  show ?case
  proof (cases "bootstrap_progress reply = Some 100")
    case True
    with Cons.prems t step more show ?thesis by (auto simp: Let_def)
  next
    case False
    with Cons.prems t step have "\<exists>seen0. wait_for_bootstrap turns (Some c1) seen0 = (Some (Inr ()), seen1, control)"
      by (auto simp: Let_def split: if_splits)
    then show ?thesis using Cons.IH more by fastforce
  qed
qed simp

lemma connect_control_fresh: "connect_control turns = Some (Inr control) \<Longrightarrow> cc_written control = []"
  by (induction turns rule: connect_control.induct) (auto split: sum.splits if_splits)

lemma read_cookie_hex_done:
  "read_cookie_hex effective turns = Some (Inr h) \<Longrightarrow>
   \<exists>cookie n late. CkT_Turn (Inr cookie) (Inr n) late \<in> set turns \<and> h = hex cookie \<and> length cookie = 32 \<and>
     effective = Some (nd_uid n) \<and> and (nd_mode n) 0x3F = 0"
  by (induction effective turns rule: read_cookie_hex.induct)
    (auto simp: cookie_hex_def split: sum.splits if_splits option.splits)

text \<open>
  C33: A start that succeeds has spawned the one process with the arguments of this session, and the first thing
  it told Tor is a cookie of 32 bytes that it read from a file of its own user with no access for anybody
  else; it reported the percentages and ended at 100.
\<close>

theorem started_tor_is_authenticated:
  assumes "start_with_callback S m w = (Some (Inr ()), seen, m1, w1)"
  shows "\<exists>binary cookie n late control more.
    sw_is_file S binary \<and> w1 = w\<lparr>w_processes := w_processes w @ [PrE_Spawned binary (tor_arguments (tm_paths m))]\<rparr> \<and>
    CkT_Turn (Inr cookie) (Inr n) late \<in> set (sw_cookie S) \<and> length cookie = 32 \<and>
    effective_uid (w_status w) = Some (nd_uid n) \<and> and (nd_mode n) 0x3F = 0 \<and>
    tm_child m1 \<and> tm_control m1 = Some control \<and>
    cc_written control = utf8 (rs ''AUTHENTICATE '' @ hex cookie @ [0x0D, 0x0A]) @ more \<and> seen \<noteq> [] \<and> last seen = 100"
proof -
  obtain binary control where start: "resolve_tor_binary (sw_is_file S) (sw_path_dirs S) (tm_binary m) = Inr binary"
    "connect_control (sw_connect S) = Some (Inr control)"
    "authenticate_and_bootstrap S (w\<lparr>w_processes := w_processes w @ [PrE_Spawned binary (tor_arguments (tm_paths m))]\<rparr>)
       (m\<lparr>tm_child := True, tm_control := Some control\<rparr>) = (Some (Inr ()), seen, m1)"
    "w1 = w\<lparr>w_processes := w_processes w @ [PrE_Spawned binary (tor_arguments (tm_paths m))]\<rparr>"
    using assms by (auto simp: start_with_callback_def Let_def split: sum.splits option.splits prod.splits)
  obtain h c1 control2 where auth: "read_cookie_hex (effective_uid (w_status w)) (sw_cookie S) = Some (Inr h)"
    "authenticate h (sw_authenticate S) control = (Inr (), c1)"
    "wait_for_bootstrap (sw_bootstrap S) (Some c1) [] = (Some (Inr ()), seen, control2)"
    "m1 = m\<lparr>tm_child := True, tm_control := control2\<rparr>"
    using start(3) by (auto simp: authenticate_and_bootstrap_def split: sum.splits option.splits prod.splits)
  have exists: "sw_is_file S binary"
    using start(1) by (auto simp: resolve_tor_binary_def ok_or_def find_Some_iff split: option.splits if_splits)
  have "cc_written control = []" by (rule connect_control_fresh [OF start(2)])
  then have "cc_written c1 = utf8 (rs ''AUTHENTICATE '' @ h @ [0x0D, 0x0A])" using authenticate_sent [OF auth(2)] by simp
  with bootstrap_done [OF auth(3)] read_cookie_hex_done [OF auth(1)] start(4) auth(4) exists show ?thesis
    by fastforce
qed

section \<open>Leaving\<close>

text \<open>
  C35: Whatever fails while a session is shut down, the shutdown comes to an end unless the operating system keeps
  it waiting for a process that it has to kill. When it ends, no node outside the session directory has
  changed; the cookie of Tor is gone or overwritten with zeros unless both system calls fail, and when neither
  fails nothing of the directory is left. It reports success exactly when no process had been started or the
  process had ended by itself in time, and a process that was started has ended unless waiting for it fails:
  for one that has to be killed, unless killing it and waiting for it fail both. \<open>w_faults\<close> are the outcomes of
  the two system calls.
\<close>

theorem shutdown_leaves_no_credential:
  assumes "tm_paths m = session_layout dir" and "dir \<noteq> []" and "last dir \<noteq> 0x2F" and "w_fs w dir \<noteq> None"
    and "w_fs w (cookie_path (tm_paths m)) = Some n" and "nd_kind n = NK_File cookie"
  shows "case shutdown del stop exit_wait m w of
      None \<Rightarrow> tm_child m \<and> exit_wait = EW_Hangs
    | Some (control, result, w1) \<Rightarrow>
        (\<forall>p. \<not> below dir p \<longrightarrow> w_fs w1 p = w_fs w p) \<and>
        (w_fs w1 (cookie_path (tm_paths m)) = None \<or>
         w_fs w1 (cookie_path (tm_paths m)) = Some (n\<lparr>nd_kind := NK_File (replicate 32 0)\<rparr>) \<or>
         (\<exists>e1 e2 faults. w_faults w = Some e1 # Some e2 # faults)) \<and>
        (list_all (\<lambda>f. f = None) (take 2 (w_faults w)) \<longrightarrow> (\<forall>p. below dir p \<longrightarrow> w_fs w1 p = None)) \<and>
        (result = Inr () \<longleftrightarrow> (tm_child m \<longrightarrow> exit_wait = EW_Exited)) \<and>
        (tm_child m \<longrightarrow> (\<forall>e. exit_wait \<noteq> EW_Failed e) \<longrightarrow> (\<forall>e e'. exit_wait \<noteq> EW_KillFailed e (Some e')) \<longrightarrow>
          w_processes w1 \<noteq> [] \<and> last (w_processes w1) = PrE_Reaped)"
proof (cases "stop_child exit_wait (tm_child m) w")
  case None
  then show ?thesis by (auto simp: shutdown_def stop_child_def Let_def split: if_splits exit_wait.splits)
next
  case (Some r)
  obtain result w2 where r: "r = (result, w2)" by (cases r)
  have w2: "w_fs w2 = w_fs w" "w_faults w2 = w_faults w" "result = Inr () \<longleftrightarrow> (tm_child m \<longrightarrow> exit_wait = EW_Exited)"
    "tm_child m \<Longrightarrow> \<forall>e. exit_wait \<noteq> EW_Failed e \<Longrightarrow> \<forall>e e'. exit_wait \<noteq> EW_KillFailed e (Some e') \<Longrightarrow>
       w_processes w2 \<noteq> [] \<and> last (w_processes w2) = PrE_Reaped"
    using Some unfolding r by (auto simp: stop_child_def Let_def split: exit_wait.splits option.splits if_splits)
  let ?c = "cookie_path (tm_paths m)"
  have under: "below dir ?c"
    using assms(1-3) by (auto simp: below_def cookie_path_def session_layout_def join_path_def rs_def)
  have dir: "sp_session_dir (tm_paths m) = dir" using assms(1) by (simp add: session_layout_def)
  have wipe: "wipe_cookie_file (tm_paths m) w2 =
      (case w_faults w2 of
         [] \<Rightarrow> set_node ?c (Some (n\<lparr>nd_kind := NK_File (replicate 32 0)\<rparr>)) w2
       | Some e # faults \<Rightarrow> w2\<lparr>w_faults := faults\<rparr>
       | None # faults \<Rightarrow> set_node ?c (Some (n\<lparr>nd_kind := NK_File (replicate 32 0)\<rparr>)) (w2\<lparr>w_faults := faults\<rparr>))"
    using assms(5,6) w2(1) by (auto simp: wipe_cookie_file_def io_call_def write_file_def split: list.split option.split)
  define w1 where "w1 = remove_session_dir dir (wipe_cookie_file (tm_paths m) w2)"
  have fs: "(\<forall>p. \<not> below dir p \<longrightarrow> w_fs w1 p = w_fs w p) \<and>
      (w_fs w1 ?c = None \<or> w_fs w1 ?c = Some (n\<lparr>nd_kind := NK_File (replicate 32 0)\<rparr>) \<or>
       (\<exists>e1 e2 faults. w_faults w = Some e1 # Some e2 # faults)) \<and>
      (list_all (\<lambda>f. f = None) (take 2 (w_faults w)) \<longrightarrow> (\<forall>p. below dir p \<longrightarrow> w_fs w1 p = None)) \<and>
      w_processes w1 = w_processes w2"
    using under assms(4,5) w2(1,2) unfolding w1_def wipe remove_session_dir_def io_call_def remove_dir_all_def set_node_def
    by (auto split: list.splits option.splits simp: below_def)
  have "shutdown del stop exit_wait m w = Some (farewell del stop m, result, w1)"
    using Some by (simp add: shutdown_def r dir w1_def)
  with fs w2(3,4) show ?thesis by simp
qed

section \<open>A session\<close>

definition demo_world :: world where
  "demo_world =
     \<lparr>w_fs = (\<lambda>p. if p = rs ''/run'' then Some \<lparr>nd_kind = NK_Dir, nd_uid = 7, nd_mode = 0x1C0\<rparr> else None),
      w_uid = 7, w_umask = 0x12, w_status = Some (rs ''Uid: 7 7''), w_faults = [], w_processes = []\<rparr>"

lemma demo_user: "effective_uid (Some (rs ''Uid: 7 7'')) = Some 7" "\<not> is_running_as_root (Some (rs ''Uid: 7 7''))"
  by (simp_all add: effective_uid_def is_running_as_root_def uid_line_def effective_field_def str_lines_def rs_def
      char_is_whitespace_def parse_uint_def is_digit_def digits_value_def Let_def)

lemma demo_ancestors: "ancestors (rs ''/run/veilroom'') = [rs ''/run'', rs ''/run/veilroom'']"
  by (simp add: ancestors_def rs_def upt_rec)

lemma demo_prepared:
  "\<exists>m w1. prepare_with_binary (Some (rs ''/run'')) None [Some (replicate 16 0)] demo_world = (Inr m, w1)"
proof -
  define r :: bytes where "r = replicate 16 0"
  have random: "fst (random_bytes 16 [Some r]) = Some r" by (simp add: r_def)
  have root: "validate_runtime_root (rs ''/run'') demo_world = (Inr (), demo_world)"
    by (simp add: validate_runtime_root_def io_call_def symlink_metadata_def with_error_def demo_world_def demo_user)
      (simp add: rs_def)
  define top room where "top = rs ''/run''" and "room = rs ''/run/veilroom''"
  have names: "join_path top (rs ''veilroom'') = room" "list_all safe_path_char top" "room \<noteq> top" "top \<noteq> room"
    "parent_path room = top" "top \<noteq> []" "room \<noteq> []" "ancestors room = [top, room]"
    unfolding top_def room_def
    by (simp_all only: demo_ancestors) (simp_all add: join_path_def rs_def safe_path_char_def parent_path_def)
  define dir where "dir = join_path room (rs ''session-'' @ hex r)"
  define lock where "lock = join_path dir (rs ''lock'')"
  have len: "length room < length dir" "length dir < length lock" "length top < length room"
    unfolding dir_def lock_def by (intro join_path_longer, simp add: rs_def)+ (simp add: top_def room_def rs_def)
  then have fresh: "dir \<noteq> top" "dir \<noteq> room" "lock \<noteq> dir" "lock \<noteq> room" "lock \<noteq> top" by auto
  have "hex r = replicate 32 0x30" by (simp add: r_def hex_def HEX_DIGITS_def rs_def numeral_eq_Suc)
  then have parents: "parent_path dir = room" "parent_path lock = dir"
    by (simp_all add: dir_def lock_def room_def parent_path_def join_path_def rs_def numeral_eq_Suc)
  have top_node: "w_fs demo_world top = Some \<lparr>nd_kind = NK_Dir, nd_uid = 7, nd_mode = 0x1C0\<rparr>" "w_faults demo_world = []"
    "p \<noteq> top \<Longrightarrow> w_fs demo_world p = None" for p
    by (simp_all add: demo_world_def top_def)
  have "\<exists>w1. create_session_dir top [Some r] demo_world = (Inr dir, w1)"
    unfolding create_session_dir_def Let_def names
    by (simp add: names random dir_def [symmetric] lock_def [symmetric] io_call_def with_error_def set_dir_mode_0700_def
        set_permissions_def set_node_def new_node_def make_node_def is_dir_node_def top_node fresh parents
        del: random_bytes.simps)
  then show ?thesis
    using root names(6) demo_user unfolding r_def top_def
    by (auto simp: prepare_with_binary_def runtime_root_def prepare_with_def demo_world_def)
qed

theorem session_directory_is_private_witness:
  "\<exists>m w1 dir. prepare_with_binary (Some (rs ''/run'')) None [Some (replicate 16 0)] demo_world = (Inr m, w1) \<and>
     tm_paths m = session_layout dir \<and> w_fs w1 dir = Some \<lparr>nd_kind = NK_Dir, nd_uid = 7, nd_mode = 0x1C0\<rparr>"
proof -
  obtain m w1 where m: "prepare_with_binary (Some (rs ''/run'')) None [Some (replicate 16 0)] demo_world = (Inr m, w1)"
    using demo_prepared by blast
  have "w_uid demo_world = 7" by (simp add: demo_world_def)
  with session_directory_is_private [OF m] m show ?thesis by auto
qed

text \<open>Tor answers the authentication and is ready at once.\<close>

definition demo_start :: start_world where
  "demo_start =
     \<lparr>sw_is_file = (\<lambda>p. p = rs ''/bin/tor''), sw_path_dirs = [rs ''/bin''], sw_spawn = None,
      sw_connect = [CT_Turn (Inl IO_NotFound) False,
        CT_Turn (Inr [SR_Bytes (utf8 (rs ''250 OK'' @ [13, 10])), SR_Bytes (utf8 (rs ''250 PROGRESS=100'' @ [13, 10]))]) False],
      sw_cookie = [CkT_Turn (Inr (replicate 32 5)) (Inr \<lparr>nd_kind = NK_File (replicate 32 5), nd_uid = 7, nd_mode = 0x180\<rparr>) False],
      sw_authenticate = CF_Completes, sw_bootstrap = [BT_Turn False (Some CF_Completes) False]\<rparr>"

definition demo_manager :: tor_manager where
  "demo_manager = \<lparr>tm_binary = None, tm_paths = session_layout (rs ''/run/s''), tm_child = False, tm_control = None, tm_onion = None\<rparr>"

lemma simple_reply:
  assumes "holds r (wire [dec3 code @ 0x20 # l] @ rest)" and "code < 1000" and "line_ok (lr_max r) (dec3 code @ 0x20 # l)"
    and "within_limits [l]"
  shows "\<exists>r'. read_reply accumulator_new r = (Inr \<lparr>rp_code = of_nat code, rp_lines = [l]\<rparr>, r') \<and> holds r' rest \<and>
    lr_max r' = lr_max r"
  using read_final [OF assms(1,3,2) feed_first(3) [OF assms(4)]] by (simp add: accumulator_new_def)

lemma demo_replies:
  "line_ok 4096 (dec3 250 @ 0x20 # rs ''OK'')" "line_ok 4096 (dec3 250 @ 0x20 # rs ''PROGRESS=100'')"
  "within_limits [rs ''OK'']" "within_limits [rs ''PROGRESS=100'']"
  by (simp_all add: line_ok_def dec3_def rs_def scalar_def str_len_def utf8_def utf8_char_def within_limits_def
      MAX_REPLY_LINES_def MAX_REPLY_BYTES_def)

lemma demo_ready: "bootstrap_progress \<lparr>rp_code = 250, rp_lines = [rs ''PROGRESS=100'']\<rparr> = Some 100"
  by (simp add: bootstrap_progress_def rs_def is_ascii_whitespace_def strip_prefix_def parse_uint_def is_digit_def
      digits_value_def Let_def)

lemma demo_control:
  assumes "holds (cc_reader c) (wire [dec3 250 @ 0x20 # rs ''OK''] @ wire [dec3 250 @ 0x20 # rs ''PROGRESS=100''])"
    and "lr_max (cc_reader c) = 4096" and "\<not> cc_poisoned c" and "list_all safe_path_char cookie"
  shows "\<exists>c1 c2. authenticate cookie CF_Completes c = (Inr (), c1) \<and>
    wait_for_bootstrap [BT_Turn False (Some CF_Completes) False] (Some c1) [] = (Some (Inr ()), [100], Some c2)"
proof -
  obtain r1 where r1: "read_reply accumulator_new (cc_reader c) = (Inr \<lparr>rp_code = 250, rp_lines = [rs ''OK'']\<rparr>, r1)"
    "holds r1 (wire [dec3 250 @ 0x20 # rs ''PROGRESS=100''] @ [])" "lr_max r1 = 4096"
    using simple_reply [OF assms(1)] assms(2) demo_replies(1,3) by auto
  obtain r2 where r2: "read_reply accumulator_new r1 = (Inr \<lparr>rp_code = 250, rp_lines = [rs ''PROGRESS=100'']\<rparr>, r2)"
    using simple_reply [OF r1(2)] r1(3) demo_replies(2,4) by auto
  have plain: "0x0D \<notin> set (rs ''AUTHENTICATE '' @ cookie)" "0x0A \<notin> set (rs ''AUTHENTICATE '' @ cookie)"
    "0x0D \<notin> set (rs ''GETINFO status/bootstrap-phase'')" "0x0A \<notin> set (rs ''GETINFO status/bootstrap-phase'')"
    using safe_path_plain [OF assms(4)] by (simp_all add: rs_def)
  obtain c1 where c1: "authenticate cookie CF_Completes c = (Inr (), c1)" "cc_reader c1 = r1" "\<not> cc_poisoned c1"
    using r1(1) plain(1,2) assms(3) by (simp add: authenticate_def run_command_def reply_is_ok_def)
  with r2 plain(3,4) demo_ready show ?thesis by (simp add: run_command_def)
qed

theorem started_tor_is_authenticated_witness:
  "\<exists>seen m1 w1 binary. start_with_callback demo_start demo_manager demo_world = (Some (Inr ()), seen, m1, w1) \<and>
     w_processes w1 = [PrE_Spawned binary (tor_arguments (session_layout (rs ''/run/s'')))] \<and> last seen = 100"
proof -
  have tor: "resolve_tor_binary (sw_is_file demo_start) (sw_path_dirs demo_start) (tm_binary demo_manager) = Inr (rs ''/bin/tor'')"
    by (simp add: resolve_tor_binary_def demo_start_def demo_manager_def join_path_def rs_def)
  define chunks where "chunks = [utf8 (rs ''250 OK'' @ [13, 10]), utf8 (rs ''250 PROGRESS=100'' @ [13, 10])]"
  define c where "c = \<lparr>cc_reader = line_reader_new (map SR_Bytes chunks) MAX_CONTROL_LINE_BYTES, cc_written = [], cc_poisoned = False\<rparr>"
  have con: "connect_control (sw_connect demo_start) = Some (Inr c)"
    by (simp add: demo_start_def c_def chunks_def)
  have user: "effective_uid (w_status demo_world) = Some 7" by (simp add: demo_world_def demo_user)
  have cookie: "read_cookie_hex (Some 7) (sw_cookie demo_start) = Some (Inr (hex (replicate 32 5)))"
    by (simp add: demo_start_def cookie_hex_def)
  have "concat chunks = wire [dec3 250 @ 0x20 # rs ''OK''] @ wire [dec3 250 @ 0x20 # rs ''PROGRESS=100'']" "[] \<notin> set chunks"
    by (simp_all add: chunks_def wire_def dec3_def rs_def utf8_def utf8_char_def)
  then have "holds (cc_reader c) (wire [dec3 250 @ 0x20 # rs ''OK''] @ wire [dec3 250 @ 0x20 # rs ''PROGRESS=100''])"
    unfolding holds_def by (intro exI [of _ chunks]) (simp add: c_def line_reader_new_def)
  moreover have "lr_max (cc_reader c) = 4096" "\<not> cc_poisoned c"
    by (simp_all add: c_def line_reader_new_def MAX_CONTROL_LINE_BYTES_def)
  ultimately obtain c1 c2 where run: "authenticate (hex (replicate 32 5)) CF_Completes c = (Inr (), c1)"
    "wait_for_bootstrap [BT_Turn False (Some CF_Completes) False] (Some c1) [] = (Some (Inr ()), [100], Some c2)"
    using demo_control hex_safe by blast
  have fates: "sw_spawn demo_start = None" "sw_authenticate demo_start = CF_Completes"
    "sw_bootstrap demo_start = [BT_Turn False (Some CF_Completes) False]"
    by (simp_all add: demo_start_def)
  obtain seen m1 w1 where s: "start_with_callback demo_start demo_manager demo_world = (Some (Inr ()), seen, m1, w1)"
    by (simp add: start_with_callback_def authenticate_and_bootstrap_def tor con user cookie run fates Let_def del: wait_for_bootstrap.simps)
  have "w_processes demo_world = []" "tm_paths demo_manager = session_layout (rs ''/run/s'')"
    by (simp_all add: demo_world_def demo_manager_def)
  with started_tor_is_authenticated [OF s] s show ?thesis by fastforce
qed

text \<open>A session directory with Tor's cookie in it, and a process that must be killed.\<close>

theorem shutdown_leaves_no_credential_witness:
  "\<exists>control result w1. shutdown CF_WriteFails CF_WriteFails EW_Killed (demo_manager\<lparr>tm_child := True\<rparr>)
       (demo_world\<lparr>w_fs := (w_fs demo_world)
          (rs ''/run/s'' \<mapsto> \<lparr>nd_kind = NK_Dir, nd_uid = 7, nd_mode = 0x1C0\<rparr>,
           rs ''/run/s/tor-data/control_auth_cookie'' \<mapsto> \<lparr>nd_kind = NK_File (replicate 32 5), nd_uid = 7, nd_mode = 0x180\<rparr>)\<rparr>) =
       Some (control, result, w1) \<and>
     w_fs w1 (rs ''/run/s/tor-data/control_auth_cookie'') = None \<and> w_fs w1 (rs ''/run/s'') = None \<and>
     w_fs w1 (rs ''/run'') \<noteq> None \<and> last (w_processes w1) = PrE_Reaped"
proof -
  let ?dir = "rs ''/run/s''" and ?cookie = "rs ''/run/s/tor-data/control_auth_cookie''"
  define m where "m = demo_manager\<lparr>tm_child := True\<rparr>"
  define n where "n = \<lparr>nd_kind = NK_File (replicate 32 5), nd_uid = 7 :: u32, nd_mode = 0x180 :: u32\<rparr>"
  define w where "w = demo_world\<lparr>w_fs := (w_fs demo_world)
    (?dir \<mapsto> \<lparr>nd_kind = NK_Dir, nd_uid = 7, nd_mode = 0x1C0\<rparr>, ?cookie \<mapsto> n)\<rparr>"
  have paths: "tm_paths m = session_layout ?dir" "cookie_path (tm_paths m) = ?cookie" "tm_child m"
    by (simp_all add: m_def demo_manager_def) (simp add: cookie_path_def session_layout_def join_path_def rs_def)
  have pre: "?dir \<noteq> []" "last ?dir \<noteq> 0x2F" "w_fs w ?dir \<noteq> None" "w_fs w (cookie_path (tm_paths m)) = Some n"
    "nd_kind n = NK_File (replicate 32 5)" "w_faults w = []"
    unfolding paths(2) by (simp_all add: w_def n_def demo_world_def) (simp_all add: rs_def)
  obtain control result w1 where s: "shutdown CF_WriteFails CF_WriteFails EW_Killed m w = Some (control, result, w1)"
    by (simp add: shutdown_def stop_child_def paths(3) Let_def)
  have paths_below: "below ?dir ?dir" "below ?dir ?cookie" "\<not> below ?dir (rs ''/run'')" by (simp_all add: below_def rs_def)
  have "w_fs w (rs ''/run'') \<noteq> None" by (simp add: w_def demo_world_def rs_def)
  with shutdown_leaves_no_credential [OF paths(1) pre(1-5), where del = CF_WriteFails and stop = CF_WriteFails and exit_wait = EW_Killed] s paths_below paths(3) pre(6)
  have "w_fs w1 ?cookie = None" "w_fs w1 ?dir = None" "w_fs w1 (rs ''/run'') \<noteq> None" "last (w_processes w1) = PrE_Reaped"
    by simp_all
  with s show ?thesis unfolding m_def w_def n_def by blast
qed

end
