(* ===== verification/HostSession.thy ===== *)
theory HostSession
  imports Gate Join
begin

text \<open>
  The host's supervisor as a whole (\<open>host_session_body\<close> of \<open>app.rs\<close>): the loop of \<open>Gate\<close> together with the
  application it draws. \<open>host_session\<close> has both; a turn is one round of the loop with everything it reads
  from outside, and says which events go to the room and how the session ends, if it does. \<open>None\<close> is a panic:
  of a screen, or of the \<open>expect\<close> on the room view. What the screen shows of a step is computed from the gate
  before it, as the code computes it beside the step.
\<close>

section \<open>The session\<close>

record host_env =
  he_gate :: gate_env
  he_uri :: uri_env
  he_crypto_text :: "crypto_error \<Rightarrow> rstring"
  he_chat_text :: "chat_error \<Rightarrow> rstring"

record host_session =
  hz_app :: app
  hz_gate :: gate

definition sync_members_from_session :: "chat_session \<Rightarrow> room_view \<Rightarrow> room_view" where
  "sync_members_from_session s v = set_members (map member_line_of (cs_members s)) v"

definition policy_debug :: "join_policy \<Rightarrow> rstring" where
  "policy_debug policy = (case policy of JP_Open \<Rightarrow> rs ''Open'' | JP_Locked \<Rightarrow> rs ''Locked'')"

abbreviation id_text :: "u64 \<Rightarrow> rstring" where
  "id_text i \<equiv> dec (unat i)"

section \<open>What an action of the room shows\<close>

definition show_wrap :: "host_env \<Rightarrow> clock \<Rightarrow> epoch_wrap \<Rightarrow> room_view \<Rightarrow> room_view" where
  "show_wrap H ck w v =
     (let E = he_gate H
      in case try_wrap_key_for (ge_crypto E) (ge_client_identity E)
              (identity_x25519_pubkey (ge_crypto E) (ge_host_identity E)) (ge_session_id E) 0 of
           Inl e \<Rightarrow> push_error ck (he_crypto_text H e) v
         | Inr wrap_key \<Rightarrow>
             (case unwrap_epoch_key (ge_crypto E) wrap_key (ew_epoch w) (ge_session_id E) (ew_nonce w) (ew_ciphertext w) of
                Inl e \<Rightarrow> push_error ck (he_crypto_text H e) v
              | Inr _ \<Rightarrow> set_status (rs ''epoch '' @ id_text (ew_epoch w)) v))"

definition show_host_chat :: "clock \<Rightarrow> envelope \<Rightarrow> rstring \<Rightarrow> chat_session \<Rightarrow> room_view \<Rightarrow> room_view" where
  "show_host_chat ck env t s v =
     (let member = session_member (env_sender_id env) s;
          nickname = (case member of Some m \<Rightarrow> mv_nickname m | None \<Rightarrow> rs ''member '' @ id_text (env_sender_id env));
          color = (case member of Some m \<Rightarrow> mv_color m | None \<Rightarrow> color_default)
      in push_chat ck nickname color t v)"

definition show_received :: "host_env \<Rightarrow> clock \<Rightarrow> message \<Rightarrow> gate \<Rightarrow> room_view \<Rightarrow> room_view" where
  "show_received H ck m g v =
     (let E = he_gate H
      in case m of
           M_EpochWrap w \<Rightarrow> show_wrap H ck w v
         | M_Shutdown \<Rightarrow> push_system ck (rs ''the room is closing'') v
         | M_ChatMessage env \<Rightarrow>
             (case receive_chat (ge_crypto E) env (gt_chat g) of
                (Inr t, s) \<Rightarrow> show_host_chat ck env t s v
              | (Inl e, s) \<Rightarrow> push_error ck (he_chat_text H e) v)
         | M_ColorChange env \<Rightarrow>
             (case receive_color (ge_crypto E) env (gt_chat g) of
                (Inr color, s) \<Rightarrow> sync_members_from_session (set_view_color color (env_sender_id env) s) v
              | (Inl e, s) \<Rightarrow> sync_members_from_session s (push_error ck (he_chat_text H e) v))
         | other \<Rightarrow>
             (case handle_membership_message (ge_nfc E) (ge_crypto E) other (gt_chat g) of
                (Inr _, s) \<Rightarrow> sync_members_from_session s v
              | (Inl e, s) \<Rightarrow> push_error ck (he_chat_text H e) v))"

definition show_invitation :: "host_env \<Rightarrow> clock \<Rightarrow> bytes \<Rightarrow> room_view \<Rightarrow> room_view" where
  "show_invitation H ck token v =
     (case invitation_new (he_uri H) (ge_onion_address (he_gate H)) VIRTUAL_PORT token of
        Inr invitation \<Rightarrow>
          (let uri = to_uri_string (he_uri H) invitation
           in push_muted ck (rs ''press Ctrl-Y or run /copy to copy the invitation'')
                (push_muted ck (rs ''Invitation: '' @ uri) (set_invitation uri v)))
      | Inl _ \<Rightarrow> push_error ck (rs ''the invitation could not be built'') v)"

definition join_request_line :: "request_info \<Rightarrow> request_line" where
  "join_request_line r =
     \<lparr>rq_request_id = ri_request_id r, rq_nickname = ri_nickname r, rq_kind = RK_Join (ri_introduction r)\<rparr>"

definition timeout_request_line :: "timeout_request_info \<Rightarrow> request_line" where
  "timeout_request_line r =
     \<lparr>rq_request_id = ti_request_id r, rq_nickname = ti_nickname r, rq_kind = RK_Timeout (ti_seconds r)\<rparr>"

definition snapshot_lines :: "request_info list \<Rightarrow> timeout_request_info list \<Rightarrow> request_line list" where
  "snapshot_lines joins timeouts =
     sort_key (\<lambda>q. unat (rq_request_id q)) (map join_request_line joins @ map timeout_request_line timeouts)"

definition member_info_line :: "member_info \<Rightarrow> member_line" where
  "member_info_line m =
     \<lparr>mb_member_id = mi_member_id m, mb_nickname = mi_nickname m, mb_color = mi_color m, mb_is_host = mi_is_host m\<rparr>"

text \<open>The result of announcing a timeout: whether it was sent, and the error text if it failed.\<close>

definition announce :: "host_env \<Rightarrow> clock \<Rightarrow> u64 option \<Rightarrow> gate \<Rightarrow> (room_view \<Rightarrow> room_view) \<Rightarrow> room_view \<Rightarrow> room_view" where
  "announce H ck interval g shown v =
     (case fst (send_timeout_changed (ge_crypto (he_gate H)) (ge_client_identity (he_gate H)) interval (gt_chat g)) of
        Inr (M_TimeoutChanged _) \<Rightarrow> shown v
      | Inr _ \<Rightarrow> v
      | Inl e \<Rightarrow> push_error ck (he_chat_text H e) v)"

definition member_notice :: "clock \<Rightarrow> u64 \<Rightarrow> rstring \<Rightarrow> rstring \<Rightarrow> room_view \<Rightarrow> room_view" where
  "member_notice ck i nickname what v = push_system ck (nickname @ rs '' (id '' @ id_text i @ rs '') '' @ what) v"

definition show_notice :: "host_env \<Rightarrow> clock \<Rightarrow> host_notice \<Rightarrow> gate \<Rightarrow> room_view \<Rightarrow> room_view" where
  "show_notice H ck notice g v =
     (case notice of
        HN_InvitationRotated token \<Rightarrow> show_invitation H ck token v
      | HN_JoinRequestPending request_id connection nickname introduction \<Rightarrow>
          view_notice ck (rs ''join request '' @ id_text request_id @ rs '' from '' @ nickname @
            (case introduction of Some intro \<Rightarrow> rs '': '' @ intro | None \<Rightarrow> [])) v
      | HN_JoinRequestWithdrawn request_id \<Rightarrow>
          view_notice ck (rs ''join request '' @ id_text request_id @ rs '' withdrawn'') v
      | HN_TimeoutRequestPending request_id member_id nickname seconds \<Rightarrow>
          view_notice ck (rs ''timeout request '' @ id_text request_id @ rs '' from '' @ nickname @ rs '' (id '' @
            id_text member_id @ rs ''): '' @ id_text seconds @ rs '' seconds'' @ em_dash @ rs ''/accept '' @
            id_text request_id @ rs '' or /reject '' @ id_text request_id) v
      | HN_TimeoutRequestAccepted request_id seconds \<Rightarrow>
          announce H ck (Some seconds) g
            (\<lambda>v. view_notice ck (rs ''timeout request '' @ id_text request_id @ rs '' accepted; room timeout is now '' @
               id_text seconds @ rs '' seconds'') (set_message_timeout (Some seconds) v)) v
      | HN_TimeoutRequestRejected request_id \<Rightarrow>
          view_notice ck (rs ''timeout request '' @ id_text request_id @ rs '' rejected or withdrawn'') v
      | HN_TimeoutRebroadcast seconds \<Rightarrow> announce H ck (Some seconds) g id v
      | HN_MemberJoined i nickname \<Rightarrow> member_notice ck i nickname (rs ''joined'') v
      | HN_MemberLeft i nickname \<Rightarrow> member_notice ck i nickname (rs ''left'') v
      | HN_MemberKicked i nickname \<Rightarrow> member_notice ck i nickname (rs ''was kicked'') v
      | HN_JoinPolicyChanged policy \<Rightarrow>
          push_system ck (rs ''join requests are now '' @ policy_debug policy)
            (set_status (rs ''join policy: '' @ policy_debug policy) v)
      | HN_RequestsSnapshot joins timeouts \<Rightarrow> show_requests ck (snapshot_lines joins timeouts) v
      | HN_ListSnapshot members \<Rightarrow> set_members (map member_info_line members) v
      | HN_WhoisResult m \<Rightarrow>
          push_system ck (mi_nickname m @ rs '' (id '' @ id_text (mi_member_id m) @ rs ''): '' @
            (if mi_is_host m then rs ''host'' else rs ''member'')) v
      | HN_RoomClosed \<Rightarrow> push_system ck (rs ''the room is closed'') v
      | HN_Error message \<Rightarrow> push_error ck message v)"

definition show_action :: "host_env \<Rightarrow> clock \<Rightarrow> room_action \<Rightarrow> gate \<Rightarrow> room_view \<Rightarrow> room_view" where
  "show_action H ck act g v =
     (case act of
        RA_SendTo c m \<Rightarrow> if c = HOST_CONNECTION then show_received H ck m g v else v
      | RA_CloseConnection c \<Rightarrow> v
      | RA_NotifyHost notice \<Rightarrow> show_notice H ck notice g v)"

fun show_actions :: "host_env \<Rightarrow> clock \<Rightarrow> duration \<Rightarrow> room_action list \<Rightarrow> gate \<Rightarrow> room_view \<Rightarrow> room_view" where
  "show_actions H ck now [] g v = v"
| "show_actions H ck now (act # acts) g v =
     show_actions H ck now acts (snd (on_action (he_gate H) now act g)) (show_action H ck act g v)"

section \<open>What the other branches show\<close>

definition show_host_command :: "host_env \<Rightarrow> clock \<Rightarrow> slash_command \<Rightarrow> gate \<Rightarrow> room_view \<Rightarrow> room_view" where
  "show_host_command H ck command g v =
     (case command of
        SC_Timeout interval \<Rightarrow>
          announce H ck interval g
            (\<lambda>v. push_system ck (case interval of
                 Some seconds \<Rightarrow> rs ''each room message will expire after '' @ id_text seconds @ rs '' second'' @
                   (if seconds = 1 then [] else rs ''s'')
               | None \<Rightarrow> rs ''room message expiry is disabled'') (set_message_timeout interval v)) v
      | SC_Color color \<Rightarrow>
          (case send_color (ge_crypto (he_gate H)) (ge_client_identity (he_gate H)) color (gt_chat g) of
             (Inr (M_ColorChange _), s) \<Rightarrow>
               sync_members_from_session (set_view_color color 0 s)
                 (push_system ck (rs ''color changed to '' @ color_debug color) v)
           | (Inr _, s) \<Rightarrow> v
           | (Inl e, s) \<Rightarrow> push_error ck (he_chat_text H e) v)
      | _ \<Rightarrow> v)"

definition show_connect :: "host_env \<Rightarrow> clock \<Rightarrow> u64 \<Rightarrow> entropy \<Rightarrow> duration \<Rightarrow> gate \<Rightarrow> room_view \<Rightarrow> room_view" where
  "show_connect H ck c es t1 g v =
     (case guard_remaining t1 (gt_guard g) of
        Some remaining \<Rightarrow>
          push_system ck (rs ''connection '' @ id_text c @ rs '' refused: password lockout active for '' @
            dec (remaining div secs 1 + 1) @ rs '' more seconds'') v
      | None \<Rightarrow>
          (case host_admission_new (ge_session_id (he_gate H)) (gt_token g) (ge_verifier (he_gate H))
                  (ge_host_identity (he_gate H)) (ge_onion_address (he_gate H)) es of
             Inl _ \<Rightarrow> v
           | Inr _ \<Rightarrow> push_system ck (rs ''connection '' @ id_text c @ rs '' connected'') v))"

definition show_lockout :: "clock \<Rightarrow> duration \<Rightarrow> password_guard \<Rightarrow> room_view \<Rightarrow> room_view" where
  "show_lockout ck now guard v =
     (case record_failure now guard of
        (Some window, guard1) \<Rightarrow>
          view_notice ck (dec (unat (pg_failures guard1)) @
            rs '' failed password attempts; new join attempts are blocked for '' @ dec (window div secs 1) @ rs '' seconds'') v
      | (None, _) \<Rightarrow> v)"

definition show_inbound :: "host_env \<Rightarrow> clock \<Rightarrow> u64 \<Rightarrow> message option \<Rightarrow> duration \<Rightarrow> duration \<Rightarrow> gate \<Rightarrow> room_view \<Rightarrow> room_view" where
  "show_inbound H ck c arrived t1 t2 g v =
     (case arrived of
        None \<Rightarrow> push_system ck (rs ''connection '' @ id_text c @ rs '' lost'') v
      | Some m \<Rightarrow>
          (case handle_host_message (he_gate H) c m t2 (touch_seen c t1 g) of
             (Inl (code, _), g1) \<Rightarrow> if code = EC_InvalidPasswordProof then show_lockout ck t2 (gt_guard g1) v else v
           | _ \<Rightarrow> v))"

definition show_expired :: "clock \<Rightarrow> u64 list \<Rightarrow> room_view \<Rightarrow> room_view" where
  "show_expired ck stale = fold (\<lambda>c. push_system ck (rs ''connection '' @ id_text c @ rs '' timed out'')) stale"

section \<open>A turn of the loop\<close>

text \<open>How a turn ends the loop: by \<open>return\<close>, or by \<open>break\<close>, after which the room is closed.\<close>

datatype loop_end = LE_Return session_end | LE_Break

type_synonym host_result = "loop_end option \<times> room_event list \<times> host_session"

definition host_key :: "host_env \<Rightarrow> clock \<Rightarrow> rstring option \<Rightarrow> key_event \<Rightarrow> duration \<Rightarrow> duration \<Rightarrow> host_session \<Rightarrow>
    host_result option" where
  "host_key H ck copied key t1 t2 z =
     (if is_quit_key key then Some (Some (LE_Return SE_Quit), [], z)
      else map_option (\<lambda>(action, a).
        let z1 = z\<lparr>hz_app := a\<rparr>; show = (\<lambda>f. (None, [], z1\<lparr>hz_app := on_view f a\<rparr>))
        in case action of
             AA_Quit \<Rightarrow> (Some LE_Break, [EV_CloseRequested], z1)
           | AA_Room RUA_Exit \<Rightarrow> (Some LE_Break, [EV_CloseRequested], z1)
           | AA_Room (RUA_Chat _) \<Rightarrow>
               show (push_error ck
                 (rs ''the host cannot send chat messages; join the room from a second tab to chat''))
           | AA_Room (RUA_Command command) \<Rightarrow>
               (case gate_branch_step (he_gate H) t1 t2 (GB_Command command) (hz_gate z) of
                  (evs, g1) \<Rightarrow>
                    (None, evs, z1\<lparr>hz_app := on_view (show_host_command H ck command (hz_gate z)) a, hz_gate := g1\<rparr>))
           | AA_Room (RUA_Error t) \<Rightarrow> show (push_error ck t)
           | AA_Room (RUA_CopyInvitation uri) \<Rightarrow> show (copy_invitation_to_clipboard ck copied)
           | _ \<Rightarrow> (None, [], z1)) (on_key ck key (hz_app z)))"

text \<open>
  The branches; \<open>None\<close> as what a channel gives is the closed channel. The tick has what \<open>has_exited\<close> answered,
  a key what the clipboard would answer.
\<close>

datatype host_branch =
    HB_Tick "rstring + bool"
  | HB_Expiry duration
  | HB_KeysClosed
  | HB_Paste rstring
  | HB_Key "rstring option" key_event
  | HB_Actions "room_action list option"
  | HB_Connect "entropy option"
  | HB_Inbound "(u64 \<times> message option) option"

text \<open>A branch that leaves the loop to the gate: its step, and what it shows on the room view.\<close>

definition by_gate :: "host_env \<Rightarrow> duration \<Rightarrow> duration \<Rightarrow> gate_branch \<Rightarrow> (room_view \<Rightarrow> room_view) \<Rightarrow> host_session \<Rightarrow> host_result" where
  "by_gate H t1 t2 branch shown z =
     (case gate_branch_step (he_gate H) t1 t2 branch (hz_gate z) of
        (evs, g1) \<Rightarrow> (None, evs, z\<lparr>hz_app := on_view shown (hz_app z), hz_gate := g1\<rparr>))"

definition host_branch_step :: "host_env \<Rightarrow> clock \<Rightarrow> duration \<Rightarrow> duration \<Rightarrow> host_branch \<Rightarrow> host_session \<Rightarrow> host_result option" where
  "host_branch_step H ck t1 t2 branch z =
     (case branch of
        HB_Tick (Inr True) \<Rightarrow>
          Some (Some (LE_Return (SE_Failed (rs ''Tor stopped unexpectedly''))), [EV_TorStopped], z)
      | HB_Tick (Inl e) \<Rightarrow> Some (Some (LE_Return (SE_Failed (rs ''Tor status failed: '' @ e))), [], z)
      | HB_Tick (Inr False) \<Rightarrow> Some (by_gate H t1 t2 GB_Maintenance id z)
      | HB_Expiry now \<Rightarrow> Some (by_gate H t1 t2 GB_Idle (\<lambda>v. snd (tick_message_timeout now v)) z)
      | HB_KeysClosed \<Rightarrow> Some (Some LE_Break, [], z)
      | HB_Paste t \<Rightarrow> map_option (\<lambda>a. (None, [], z\<lparr>hz_app := a\<rparr>)) (on_paste t (hz_app z))
      | HB_Key copied key \<Rightarrow> host_key H ck copied key t1 t2 z
      | HB_Actions None \<Rightarrow> Some (Some LE_Break, [], z)
      | HB_Actions (Some actions) \<Rightarrow>
          (case ap_screen (hz_app z) of
             Scr_Room _ \<Rightarrow> Some (by_gate H t1 t2 (GB_Actions actions) (show_actions H ck t2 actions (hz_gate z)) z)
           | _ \<Rightarrow> None)
      | HB_Connect None \<Rightarrow> Some (Some LE_Break, [], z)
      | HB_Connect (Some es) \<Rightarrow>
          Some (by_gate H t1 t2 (GB_Connect es)
            (case hn_connects (gt_network (hz_gate z)) of
               [] \<Rightarrow> id
             | c # cs \<Rightarrow> show_connect H ck c es t1 (hz_gate z)) z)
      | HB_Inbound None \<Rightarrow> Some (Some LE_Break, [], z)
      | HB_Inbound (Some (c, arrived)) \<Rightarrow>
          Some (by_gate H t1 t2 (GB_Inbound c arrived) (show_inbound H ck c arrived t1 t2 (hz_gate z)) z))"

text \<open>A turn: drawing, which may fail, the stale connections, and a branch.\<close>

definition host_turn :: "host_env \<Rightarrow> bool \<Rightarrow> clock \<Rightarrow> duration \<Rightarrow> duration \<Rightarrow> duration \<Rightarrow> host_branch \<Rightarrow> host_session \<Rightarrow>
    host_result option" where
  "host_turn H draw_failed ck t0 t1 t2 branch z =
     (if draw_failed then Some (Some (LE_Return SE_Quit), [], z)
      else
        let stale = stale_connections (he_gate H) t0 (hz_gate z)
        in case expire (he_gate H) t0 (hz_gate z) of
             (lost, g1) \<Rightarrow>
               map_option (\<lambda>(e, evs, z1). (e, lost @ evs, z1))
                 (host_branch_step H ck t1 t2 branch
                    (z\<lparr>hz_app := on_view (show_expired ck stale) (hz_app z), hz_gate := g1\<rparr>)))"

text \<open>Beside the turns run the accept loop and the tasks of the connections.\<close>

datatype host_event =
    HE_Turn bool clock duration duration duration host_branch
  | HE_Accept bool
  | HE_TaskTakes u64
  | HE_TaskEnds u64

definition beside :: "host_env \<Rightarrow> gate_event \<Rightarrow> host_session \<Rightarrow> host_result" where
  "beside H ev z = (case gate_step (he_gate H) ev (hz_gate z) of (evs, g1) \<Rightarrow> (None, evs, z\<lparr>hz_gate := g1\<rparr>))"

definition host_step :: "host_env \<Rightarrow> host_event \<Rightarrow> host_session \<Rightarrow> host_result option" where
  "host_step H ev z =
     (case ev of
        HE_Turn draw_failed ck t0 t1 t2 branch \<Rightarrow> host_turn H draw_failed ck t0 t1 t2 branch z
      | HE_Accept ok \<Rightarrow> Some (beside H (GV_Accept ok) z)
      | HE_TaskTakes c \<Rightarrow> Some (beside H (GV_TaskTakes c) z)
      | HE_TaskEnds c \<Rightarrow> Some (beside H (GV_TaskEnds c) z))"

fun host_loop :: "host_env \<Rightarrow> host_event list \<Rightarrow> host_session \<Rightarrow> host_result option" where
  "host_loop H [] z = Some (None, [], z)"
| "host_loop H (ev # evs) z =
     (case host_step H ev z of
        None \<Rightarrow> None
      | Some (Some e, out, z1) \<Rightarrow> Some (Some e, out, z1)
      | Some (None, out, z1) \<Rightarrow> map_option (\<lambda>(e, outs, z2). (e, out @ outs, z2)) (host_loop H evs z1))"

section \<open>Around the loop\<close>

text \<open>The room screen and the first batch of the room.\<close>

definition host_start :: "host_env \<Rightarrow> clock \<Rightarrow> duration \<Rightarrow> rstring \<Rightarrow> entropy \<Rightarrow> room_action list \<Rightarrow> app \<Rightarrow> room_event list \<times> host_session" where
  "host_start H ck now nickname es initial a =
     (let g = gate_start (he_gate H) nickname es;
          v = push_system ck (rs ''Starting the room...'') (room_view_new True nickname (ck_instant ck))
      in case handle_host_actions (he_gate H) now initial g of
           (evs, g1) \<Rightarrow> (evs, \<lparr>hz_app = enter_room (show_actions H ck now initial g v) a, hz_gate = g1\<rparr>))"

text \<open>After a \<open>break\<close> the last batch is delivered and everything is closed.\<close>

definition host_finish :: "loop_end \<Rightarrow> room_action list option \<Rightarrow> host_session \<Rightarrow> session_end \<times> room_event list \<times> host_session" where
  "host_finish e last_batch z =
     (case e of
        LE_Return result \<Rightarrow> (result, [], z)
      | LE_Break \<Rightarrow>
          (case gate_exit (case last_batch of Some actions \<Rightarrow> actions | None \<Rightarrow> []) (hz_gate z) of
             (evs, g1) \<Rightarrow> (SE_Menu, evs, z\<lparr>hz_gate := g1\<rparr>)))"

text \<open>What a host session meets outside the program: error texts where a step fails, random outcomes and events.\<close>

record host_world =
  hw_verifier_entropy :: entropy
  hw_prepare :: "rstring option"
  hw_draw_failed :: bool
  hw_progress :: "(u8 \<times> bool) list"
  hw_start :: "rstring option"
  hw_onion :: "rstring + rstring"
  hw_host_entropy :: entropy
  hw_client_entropy :: entropy
  hw_room_entropy :: entropy
  hw_order :: "u64 list \<Rightarrow> u64 list"
  hw_listen :: "rstring option"
  hw_chat_entropy :: entropy
  hw_clock :: clock
  hw_now :: duration
  hw_events :: "host_event list"
  hw_last_batch :: "room_action list option"
  hw_room_text :: "room_error \<Rightarrow> rstring"

type_synonym host_outcome = "session_end option \<times> room_event list \<times> app"

abbreviation host_failed :: "rstring \<Rightarrow> app \<Rightarrow> host_outcome" where
  "host_failed message a \<equiv> (Some (SE_Failed message), [], a)"

text \<open>The room, created and started: its session identifier and its first batch.\<close>

definition started_room :: "host_env \<Rightarrow> host_world \<Rightarrow> identity \<Rightarrow> identity \<Rightarrow> rstring \<Rightarrow> rstring + (bytes \<times> room_action list)" where
  "started_room H W host_identity client_identity nickname =
     (let C = ge_crypto (he_gate H)
      in case fst (room_create (ge_nfc (he_gate H)) C default_limits HOST_CONNECTION nickname host_identity client_identity
             default_timeouts (hw_room_entropy W)) of
           Inl e \<Rightarrow> Inl (rs ''the room could not be created: '' @ hw_room_text W e)
         | Inr actor \<Rightarrow>
             (case fst (room_start \<lparr>en_crypto = C, en_order = hw_order W\<rparr> actor) of
                Inl e \<Rightarrow> Inl (rs ''the room could not be started: '' @ hw_room_text W e)
              | Inr initial \<Rightarrow> Inr (ra_session_id actor, initial)))"

text \<open>From the started room to the end of the session; the first component is \<open>None\<close> while the loop still runs.\<close>

definition host_room_session :: "host_env \<Rightarrow> host_world \<Rightarrow> room_action list \<Rightarrow> rstring \<Rightarrow> app \<Rightarrow> host_outcome option" where
  "host_room_session H W initial nickname a =
     (case host_start H (hw_clock W) (hw_now W) nickname (hw_chat_entropy W) initial a of
        (started, z) \<Rightarrow>
          map_option (\<lambda>(e, out, z1).
              case e of
                None \<Rightarrow> (None, started @ out, hz_app z1)
              | Some e \<Rightarrow>
                  (case host_finish e (hw_last_batch W) z1 of
                     (result, last_events, z2) \<Rightarrow> (Some result, started @ out @ last_events, hz_app z2)))
            (host_loop H (hw_events W) z))"

definition host_session_body :: "host_env \<Rightarrow> host_world \<Rightarrow> password_verifier \<Rightarrow> rstring \<Rightarrow> app \<Rightarrow> host_outcome option" where
  "host_session_body H W verifier nickname a =
     (case start_tor_with_progress (hw_draw_failed W) (hw_progress W) (hw_start W) a of
        (Some e, a1) \<Rightarrow> Some (Some e, [], a1)
      | (None, a1) \<Rightarrow>
          (case hw_onion W of
             Inl e \<Rightarrow> Some (host_failed (rs ''the onion service could not be created: '' @ e) a1)
           | Inr onion \<Rightarrow>
               (case (fst (identity_generate (hw_host_entropy W)), fst (identity_generate (hw_client_entropy W))) of
                  (Inr host_identity, Inr client_identity) \<Rightarrow>
                    (case started_room H W host_identity client_identity nickname of
                       Inl message \<Rightarrow> Some (host_failed message a1)
                     | Inr (session_id, initial) \<Rightarrow>
                         (case hw_listen W of
                            Some e \<Rightarrow> Some (host_failed (rs ''the room listener could not be bound: '' @ e) a1)
                          | None \<Rightarrow>
                              host_room_session
                                (H\<lparr>he_gate := (he_gate H)\<lparr>ge_verifier := verifier, ge_host_identity := host_identity,
                                   ge_client_identity := client_identity, ge_session_id := session_id,
                                   ge_onion_address := onion, ge_timeouts := default_timeouts\<rparr>\<rparr>)
                                W initial nickname a1))
                | (Inl e, _) \<Rightarrow> Some (host_failed (rs ''the host identity could not be generated: '' @ he_crypto_text H e) a1)
                | (_, Inl e) \<Rightarrow> Some (host_failed (rs ''the host identity could not be generated: '' @ he_crypto_text H e) a1))))"

definition run_host_session :: "host_env \<Rightarrow> host_world \<Rightarrow> bytes \<Rightarrow> rstring \<Rightarrow> app \<Rightarrow> host_outcome option" where
  "run_host_session H W password nickname a =
     (case fst (verifier_derive (ge_kdf (he_gate H)) password (hw_verifier_entropy W)) of
        Inl e \<Rightarrow> Some (host_failed (rs ''the password verifier could not be derived: '' @ he_crypto_text H e) a)
      | Inr verifier \<Rightarrow>
          (case hw_prepare W of
             Some e \<Rightarrow> Some (host_failed (rs ''Tor could not be prepared: '' @ e) a)
           | None \<Rightarrow> host_session_body H W verifier nickname a))"

end
