(* ===== verification/HostSessionRules.thy ===== *)
theory HostSessionRules
  imports HostSession GateRules RenderRules
begin

text \<open>
  The host's supervisor with its screens is no more than the loop of \<open>Gate\<close> for the network and the room, no
  input makes it panic, and the invitation on its screen is the one that the handshake accepts.
\<close>

section \<open>The loop of the gate\<close>

text \<open>What an ending turn may add to the events of the gate.\<close>

definition parting :: "loop_end option \<Rightarrow> room_event list \<Rightarrow> bool" where
  "parting e tail \<longleftrightarrow> tail = [] \<or> e \<noteq> None \<and> (tail = [EV_CloseRequested] \<or> tail = [EV_TorStopped])"

lemma parting_Nil [simp]: "parting e []"
  by (simp add: parting_def)

lemma by_gate_gate:
  "by_gate H t1 t2 branch shown z = (e, evs, z1) \<Longrightarrow>
   e = None \<and> gate_branch_step (he_gate H) t1 t2 branch (hz_gate z) = (evs, hz_gate z1)"
  by (auto simp: by_gate_def split: prod.splits)

lemma idle_gate: "gate_branch_step E t1 t2 GB_Idle g = ([], g)"
  by (simp add: gate_branch_step_def)

lemma host_key_gate:
  assumes "host_key H ck copied key t1 t2 z = Some (e, evs, z1)"
  shows "\<exists>branch out tail. gate_branch_step (he_gate H) t1 t2 branch (hz_gate z) = (out, hz_gate z1) \<and>
    evs = out @ tail \<and> parting e tail"
proof (cases "is_quit_key key")
  case True
  then show ?thesis using assms idle_gate by (fastforce simp: host_key_def)
next
  case False
  then obtain action a where key: "on_key ck key (hz_app z) = Some (action, a)"
    using assms by (auto simp: host_key_def)
  show ?thesis
  proof (cases "\<exists>command. action = AA_Room (RUA_Command command)")
    case True
    then obtain command where command: "action = AA_Room (RUA_Command command)" by blast
    have "gate_branch_step (he_gate H) t1 t2 (GB_Command command) (hz_gate z) = (evs, hz_gate z1)"
      using assms key \<open>\<not> is_quit_key key\<close> command by (auto simp: host_key_def Let_def split: prod.splits)
    then show ?thesis by (metis append_Nil2 parting_Nil)
  next
    case False
    have "hz_gate z1 = hz_gate z \<and> parting e evs"
      using assms key \<open>\<not> is_quit_key key\<close> False
      by (auto simp: host_key_def parting_def Let_def split: app_action.splits room_ui_action.splits)
    then show ?thesis using idle_gate by fastforce
  qed
qed

lemma host_branch_gate:
  assumes "host_branch_step H ck t1 t2 branch z = Some (e, evs, z1)"
  shows "\<exists>gb out tail. gate_branch_step (he_gate H) t1 t2 gb (hz_gate z) = (out, hz_gate z1) \<and>
    evs = out @ tail \<and> parting e tail"
proof -
  have still: ?thesis if "hz_gate z1 = hz_gate z" "parting e evs" using that idle_gate by fastforce
  have gate: ?thesis if "by_gate H t1 t2 gb shown z = (e, evs, z1)" for gb shown
    using by_gate_gate [OF that] by fastforce
  show ?thesis
  proof (cases branch)
    case (HB_Tick answer)
    then show ?thesis using assms still gate
      by (cases answer; cases "projr answer") (auto simp: host_branch_step_def parting_def)
  next
    case (HB_Key copied key)
    then show ?thesis using assms host_key_gate by (simp add: host_branch_step_def)
  qed (use assms still gate in \<open>auto simp: host_branch_step_def parting_def split: option.splits screen.splits prod.splits\<close>)
qed

lemma beside_gate:
  "beside H gev z = (e, evs, z1) \<Longrightarrow> e = None \<and> gate_run (he_gate H) [gev] (hz_gate z) = (evs, hz_gate z1)"
  by (auto simp: beside_def split: prod.splits)

lemma host_step_gate:
  assumes "host_step H ev z = Some (e, evs, z1)"
  shows "\<exists>gevs out tail. gate_run (he_gate H) gevs (hz_gate z) = (out, hz_gate z1) \<and> evs = out @ tail \<and> parting e tail"
proof -
  have one: ?thesis if "gate_step (he_gate H) gev (hz_gate z) = (out, hz_gate z1)" "evs = out @ tail" "parting e tail"
    for gev out tail
    using that by (intro exI [of _ "[gev]"]) auto
  show ?thesis
  proof (cases ev)
    case (HE_Turn draw_failed ck t0 t1 t2 branch)
    show ?thesis
    proof (cases draw_failed)
      case True
      then show ?thesis using assms HE_Turn by (intro exI [of _ "[]"]) (auto simp: host_step_def host_turn_def)
    next
      case False
      obtain lost g1 where lost: "expire (he_gate H) t0 (hz_gate z) = (lost, g1)" by fastforce
      with False HE_Turn assms obtain evs1 app where
        b: "host_branch_step H ck t1 t2 branch \<lparr>hz_app = app, hz_gate = g1\<rparr> = Some (e, evs1, z1)" "evs = lost @ evs1"
        by (cases z) (auto simp: host_step_def host_turn_def Let_def)
      obtain gb out tail where g: "gate_branch_step (he_gate H) t1 t2 gb g1 = (out, hz_gate z1)" "evs1 = out @ tail"
        "parting e tail"
        using host_branch_gate [OF b(1)] by auto
      show ?thesis
        by (rule one [of "GV_Turn t0 t1 t2 gb" "lost @ out" tail]) (simp_all add: gate_step_def lost g b)
    qed
  qed (use assms beside_gate in \<open>fastforce simp: host_step_def\<close>)+
qed

text \<open>
  C13: The host's supervisor, with its keys, screens, clocks and failures, is a run of the gate for the room and
  the network: whatever it meets, the events it sends to the room are those of a sequence of gate steps that
  end in its network and connections, with at most one more event, the close request or the report that Tor
  has stopped, when it ends. What is proved of every run of the gate holds of the program's loop.
\<close>

theorem host_supervisor_refines_gate:
  assumes "host_loop H evs z = Some (e, out, z1)"
  shows "\<exists>gevs gout tail. gate_run (he_gate H) gevs (hz_gate z) = (gout, hz_gate z1) \<and> out = gout @ tail \<and>
    (tail = [] \<or> e \<noteq> None \<and> (tail = [EV_CloseRequested] \<or> tail = [EV_TorStopped]))"
  using assms
proof (induction evs arbitrary: z out)
  case Nil
  then show ?case by (intro exI [of _ "[]"]) simp
next
  case (Cons ev evs)
  then obtain e1 out1 z2 where step: "host_step H ev z = Some (e1, out1, z2)" by (auto split: option.splits)
  from host_step_gate [OF step] obtain gevs gout tail where
    g: "gate_run (he_gate H) gevs (hz_gate z) = (gout, hz_gate z2)" "out1 = gout @ tail" "parting e1 tail" by blast
  show ?case
  proof (cases e1)
    case (Some x)
    with Cons.prems step g show ?thesis by (auto simp: parting_def)
  next
    case None
    with g have out1: "out1 = gout" by (simp add: parting_def)
    obtain outs where rest: "host_loop H evs z2 = Some (e, outs, z1)" "out = out1 @ outs"
      using Cons.prems step None by auto
    from Cons.IH [OF rest(1)] obtain gevs2 gout2 tail2 where
      g2: "gate_run (he_gate H) gevs2 (hz_gate z2) = (gout2, hz_gate z1)" "outs = gout2 @ tail2"
      "tail2 = [] \<or> e \<noteq> None \<and> (tail2 = [EV_CloseRequested] \<or> tail2 = [EV_TorStopped])" by blast
    show ?thesis
      using g g2 rest(2) out1
      by (intro exI [of _ "gevs @ gevs2"] exI [of _ "gout @ gout2"] exI [of _ tail2]) (simp add: gate_run_append)
  qed
qed

section \<open>The room screen\<close>

abbreviation view_fine :: "room_view \<Rightarrow> bool" where
  "view_fine v \<equiv> screen_ok (Scr_Room v)"

named_theorems fine \<open>updates of the room view that keep it consistent\<close>

lemma view_fine_ops [fine]:
  assumes "view_fine v"
  shows "view_fine (push_system ck t v)" "view_fine (push_error ck t v)" "view_fine (push_muted ck t v)"
    "view_fine (view_notice ck t v)" "view_fine (push_chat ck n c t v)" "view_fine (set_status t v)"
    "view_fine (set_members ms v)" "view_fine (set_invitation t v)" "view_fine (set_message_timeout i v)"
    "view_fine (show_requests ck qs v)" "view_fine (snd (tick_message_timeout now v))"
  using view_op_input [OF assms, of ck "VO_System t"] view_op_input [OF assms, of ck "VO_Error t"]
    view_op_input [OF assms, of ck "VO_Muted t"] view_op_input [OF assms, of ck "VO_Notice t"]
    view_op_input [OF assms, of ck "VO_Chat n c t"] view_op_input [OF assms, of ck "VO_Status t"]
    view_op_input [OF assms, of ck "VO_Members ms"] view_op_input [OF assms, of ck "VO_Invitation t"]
    view_op_input [OF assms, of ck "VO_Timeout i"] view_op_input [OF assms, of ck "VO_ShowRequests qs"]
    view_op_input [OF assms, of "\<lparr>ck_instant = now, ck_unix_seconds = 0\<rparr>" VO_Tick]
  by simp_all

declare screen_ok.simps(5) [simp del]

lemma show_received_fine [fine]: "view_fine v \<Longrightarrow> view_fine (show_received H ck m g v)"
  by (auto simp: show_received_def show_wrap_def show_host_chat_def sync_members_from_session_def Let_def
      intro!: fine split: message.split sum.split prod.split)

lemma announce_fine [fine]:
  "view_fine v \<Longrightarrow> (\<And>v. view_fine v \<Longrightarrow> view_fine (shown v)) \<Longrightarrow> view_fine (announce H ck i g shown v)"
  by (auto simp: announce_def intro!: fine split: sum.split message.split)

lemma show_notice_fine [fine]: "view_fine v \<Longrightarrow> view_fine (show_notice H ck n g v)"
  by (auto simp: show_notice_def show_invitation_def member_notice_def Let_def intro!: fine split: host_notice.split sum.split)

lemma show_actions_fine [fine]: "view_fine v \<Longrightarrow> view_fine (show_actions H ck now acts g v)"
  by (induction acts arbitrary: g v) (auto simp: show_action_def intro!: fine split: room_action.split)

lemma show_others_fine [fine]:
  assumes "view_fine v"
  shows "view_fine (show_host_command H ck command g v)" "view_fine (show_connect H ck c es t1 g v)"
    "view_fine (show_inbound H ck c arrived t1 t2 g v)" "view_fine (show_expired ck stale v)"
    "view_fine (copy_invitation_to_clipboard ck copied v)"
proof -
  show "view_fine (show_host_command H ck command g v)"
    using assms by (auto simp: show_host_command_def sync_members_from_session_def intro!: fine
        split: slash_command.split sum.split prod.split message.split)
  show "view_fine (show_connect H ck c es t1 g v)"
    using assms by (auto simp: show_connect_def intro!: fine split: option.split sum.split)
  show "view_fine (show_inbound H ck c arrived t1 t2 g v)"
    using assms by (auto simp: show_inbound_def show_lockout_def intro!: fine
        split: option.split sum.split prod.split)
  show "view_fine (show_expired ck stale v)"
    using assms by (induction stale arbitrary: v) (simp_all add: show_expired_def fine)
  show "view_fine (copy_invitation_to_clipboard ck copied v)"
    using assms by (auto simp: copy_invitation_to_clipboard_def intro!: fine split: option.split)
qed

definition in_room :: "app \<Rightarrow> bool" where
  "in_room a \<longleftrightarrow> (\<exists>v. ap_screen a = Scr_Room v \<and> view_fine v)"

lemma in_room_view: "in_room a \<Longrightarrow> (\<And>v. view_fine v \<Longrightarrow> view_fine (f v)) \<Longrightarrow> in_room (on_view f a)"
  by (auto simp: in_room_def on_view_def)

lemma in_room_key:
  assumes "in_room a"
  shows "\<exists>action b. on_key ck key a = Some (action, b) \<and> in_room b"
proof -
  obtain v where v: "ap_screen a = Scr_Room v" "view_fine v" using assms by (auto simp: in_room_def)
  then have "screen_ok (ap_screen a)" by simp
  then obtain action b where b: "on_key ck key a = Some (action, b)" "screen_ok (ap_screen b)"
    by (rule key_result_ok [of a ck key]) blast
  then have "\<exists>w. ap_screen b = Scr_Room w" using v(1) by (auto simp: on_key_def on_screen_key_def)
  with b show ?thesis by (auto simp: in_room_def)
qed

lemma in_room_paste:
  assumes "in_room a"
  shows "\<exists>b. on_paste t a = Some b \<and> in_room b"
proof -
  obtain v where v: "ap_screen a = Scr_Room v" "view_fine v" using assms by (auto simp: in_room_def)
  then obtain b where b: "on_paste t a = Some b" "screen_ok (ap_screen b)" using paste_ok [of a t] by auto
  then have "\<exists>w. ap_screen b = Scr_Room w" using v(1) by (auto simp: on_paste_def)
  with b show ?thesis by (auto simp: in_room_def)
qed

lemma by_gate_room: "in_room (hz_app z) \<Longrightarrow> (\<And>v. view_fine v \<Longrightarrow> view_fine (f v)) \<Longrightarrow>
   in_room (hz_app (snd (snd (by_gate H t1 t2 branch f z))))"
  by (auto simp: by_gate_def in_room_view split: prod.split)

lemma host_key_room:
  assumes "in_room (hz_app z)"
  shows "\<exists>e evs z1. host_key H ck copied key t1 t2 z = Some (e, evs, z1) \<and> in_room (hz_app z1)"
proof (cases "is_quit_key key")
  case True
  then show ?thesis using assms by (simp add: host_key_def)
next
  case False
  obtain action b where b: "on_key ck key (hz_app z) = Some (action, b)" "in_room b" using in_room_key [OF assms] by blast
  have shown: "in_room (on_view f b)" if "\<And>v. view_fine v \<Longrightarrow> view_fine (f v)" for f
    using b(2) that by (rule in_room_view)
  show ?thesis
    using b False by (auto simp: host_key_def Let_def split: app_action.split room_ui_action.split prod.split
        intro!: shown fine)
qed

lemma host_branch_room:
  assumes "in_room (hz_app z)"
  shows "\<exists>e evs z1. host_branch_step H ck t1 t2 branch z = Some (e, evs, z1) \<and> in_room (hz_app z1)"
proof -
  have fin: "\<exists>e evs z1. r = (e, evs, z1) \<and> in_room (hz_app z1)" if "in_room (hz_app (snd (snd r)))" for r
    using that by (cases r) auto
  obtain v where v: "ap_screen (hz_app z) = Scr_Room v" using assms by (auto simp: in_room_def)
  show ?thesis
  proof (cases branch)
    case (HB_Tick answer)
    then show ?thesis using assms by (cases answer; cases "projr answer")
      (auto simp: host_branch_step_def intro!: fin by_gate_room)
  next
    case (HB_Key copied key)
    then show ?thesis using assms host_key_room by (simp add: host_branch_step_def)
  next
    case (HB_Paste t)
    then show ?thesis using in_room_paste [OF assms, of t] by (auto simp: host_branch_step_def)
  qed (use assms v in \<open>auto simp: host_branch_step_def split: option.split prod.split list.split
        intro!: fin by_gate_room fine\<close>)
qed

lemma host_step_room:
  assumes "in_room (hz_app z)"
  shows "\<exists>e evs z1. host_step H ev z = Some (e, evs, z1) \<and> in_room (hz_app z1)"
proof (cases ev)
  case (HE_Turn draw_failed ck t0 t1 t2 branch)
  have "in_room (on_view (show_expired ck stale) (hz_app z))" for stale
    using assms by (rule in_room_view) (rule fine)
  then show ?thesis
    using assms HE_Turn host_branch_room [of "z\<lparr>hz_app := on_view (show_expired ck (stale_connections (he_gate H) t0 (hz_gate z))) (hz_app z),
        hz_gate := snd (expire (he_gate H) t0 (hz_gate z))\<rparr>" H ck t1 t2 branch]
    by (auto simp: host_step_def host_turn_def Let_def split: prod.split)
qed (use assms in \<open>auto simp: host_step_def beside_def split: prod.split\<close>)

lemma host_loop_room:
  "in_room (hz_app z) \<Longrightarrow> \<exists>e out z1. host_loop H evs z = Some (e, out, z1) \<and> in_room (hz_app z1)"
proof (induction evs arbitrary: z)
  case (Cons ev evs)
  obtain e out z1 where s: "host_step H ev z = Some (e, out, z1)" "in_room (hz_app z1)"
    using host_step_room [OF Cons.prems] by blast
  show ?case
  proof (cases e)
    case None
    with s Cons.IH [OF s(2)] show ?thesis by auto
  qed (use s in auto)
qed simp

lemma host_start_room: "in_room (hz_app (snd (host_start H ck now nickname es initial a)))"
proof -
  have "view_fine (show_actions H ck now initial g (push_system ck t (room_view_new True nickname (ck_instant ck))))" for g t
    by (intro fine) simp
  then show ?thesis by (simp add: host_start_def in_room_def enter_room_def Let_def split: prod.split)
qed

section \<open>The invitation on the screen\<close>

text \<open>What a view has as its invitation is printed from the token that new connections are checked against.\<close>

definition current :: "host_env \<Rightarrow> gate \<Rightarrow> room_view \<Rightarrow> bool" where
  "current H g v \<longleftrightarrow>
     (\<forall>uri i. rv_invitation v = Some uri \<longrightarrow>
        invitation_new (he_uri H) (ge_onion_address (he_gate H)) VIRTUAL_PORT (gt_token g) = Inr i \<longrightarrow>
        uri = to_uri_string (he_uri H) i)"

lemma current_cong:
  "current H g v \<Longrightarrow> rv_invitation w = rv_invitation v \<Longrightarrow> gt_token g1 = gt_token g \<Longrightarrow> current H g1 w"
  by (simp add: current_def)

lemma invitation_ops [simp]:
  "rv_invitation (push_message ck t color timeout v) = rv_invitation v"
  "rv_invitation (push_system ck t v) = rv_invitation v" "rv_invitation (push_error ck t v) = rv_invitation v"
  "rv_invitation (push_muted ck t v) = rv_invitation v" "rv_invitation (view_notice ck t v) = rv_invitation v"
  "rv_invitation (push_chat ck n c t v) = rv_invitation v" "rv_invitation (set_status t v) = rv_invitation v"
  "rv_invitation (set_members ms v) = rv_invitation v" "rv_invitation (set_message_timeout i v) = rv_invitation v"
  "rv_invitation (snd (tick_message_timeout now v)) = rv_invitation v" "rv_invitation (set_invitation u v) = Some u"
  by (simp_all add: push_system_def push_error_def push_muted_def view_notice_def push_chat_def push_message_def
      set_status_def set_members_def set_message_timeout_def tick_message_timeout_def set_invitation_def Let_def
      split: prod.split)

lemma invitation_fold [simp]: "rv_invitation (fold (view_notice ck) ts v) = rv_invitation v"
  by (induction ts arbitrary: v) simp_all

lemma invitation_shows [simp]:
  "rv_invitation (show_received H ck m g v) = rv_invitation v"
  "rv_invitation (show_host_command H ck command g v) = rv_invitation v"
  "rv_invitation (show_connect H ck c es t1 g v) = rv_invitation v"
  "rv_invitation (show_inbound H ck c arrived t1 t2 g v) = rv_invitation v"
  "rv_invitation (copy_invitation_to_clipboard ck copied v) = rv_invitation v"
proof -
  show "rv_invitation (show_received H ck m g v) = rv_invitation v"
    by (auto simp: show_received_def show_wrap_def show_host_chat_def sync_members_from_session_def Let_def
        split: message.split sum.split prod.split)
  show "rv_invitation (show_host_command H ck command g v) = rv_invitation v"
    by (auto simp: show_host_command_def announce_def sync_members_from_session_def
        split: slash_command.split sum.split prod.split message.split)
  show "rv_invitation (show_connect H ck c es t1 g v) = rv_invitation v"
    by (auto simp: show_connect_def split: option.split sum.split)
  show "rv_invitation (show_inbound H ck c arrived t1 t2 g v) = rv_invitation v"
    by (auto simp: show_inbound_def show_lockout_def split: option.split sum.split prod.split)
  show "rv_invitation (copy_invitation_to_clipboard ck copied v) = rv_invitation v"
    by (auto simp: copy_invitation_to_clipboard_def split: option.split)
qed

lemma invitation_expired [simp]: "rv_invitation (show_expired ck stale v) = rv_invitation v"
  by (induction stale arbitrary: v) (simp_all add: show_expired_def)

text \<open>The token of the gate changes only when the room says so.\<close>

definition rotated :: "room_action \<Rightarrow> bytes \<Rightarrow> bytes" where
  "rotated act token = (case act of RA_NotifyHost (HN_InvitationRotated t) \<Rightarrow> t | _ \<Rightarrow> token)"

lemma token_send_timeout: "send_timeout E i g = (evs, g1) \<Longrightarrow> gt_token g1 = gt_token g"
  by (auto simp: send_timeout_def split: sum.splits prod.splits message.splits)

lemma token_reply: "reply c m g = (r, g1) \<Longrightarrow> gt_token g1 = gt_token g"
  by (auto simp: reply_def split: prod.splits)

lemma token_snd_reply [simp]: "gt_token (snd (reply c m g)) = gt_token g"
  by (simp add: reply_def split: prod.split)

lemma token_drop [simp]: "gt_token (drop_connection c g) = gt_token g"
  by (simp add: drop_connection_def)

lemma token_send_to_peer: "send_to_peer c m now g = (evs, g1) \<Longrightarrow> gt_token g1 = gt_token g"
  by (auto simp: send_to_peer_def admit_connection_def Let_def dest!: token_reply
      split: prod.splits sum.splits option.splits if_splits)

lemma token_on_action: "on_action E now act g = (evs, g1) \<Longrightarrow> gt_token g1 = rotated act (gt_token g)"
proof (cases act)
  case (RA_SendTo c m)
  have "gt_token (snd (host_receives E m g)) = gt_token g"
    by (auto simp: host_receives_def host_wrap_def split: message.split sum.split)
  then show "on_action E now act g = (evs, g1) \<Longrightarrow> gt_token g1 = rotated act (gt_token g)"
    using RA_SendTo token_send_to_peer [of c m now g evs g1]
    by (auto simp: on_action_def rotated_def split: if_splits dest: arg_cong [of _ _ snd])
next
  case (RA_NotifyHost n)
  then show "on_action E now act g = (evs, g1) \<Longrightarrow> gt_token g1 = rotated act (gt_token g)"
    by (cases n) (auto simp: on_action_def rotated_def on_notice_def split: prod.splits dest!: token_send_timeout)
qed (auto simp: on_action_def rotated_def)

lemma token_dispatch: "dispatch E c m hc g = (r, g1) \<Longrightarrow> gt_token g1 = gt_token g"
  by (cases m) (auto simp: dispatch_def reply_or_fail_def put_admission_def dest!: token_reply
      split: sum.splits prod.splits option.splits host_admission_reply.splits if_splits)

lemma token_handle: "handle_host_message E c m now g = (r, g1) \<Longrightarrow> gt_token g1 = gt_token g"
  by (auto simp: handle_host_message_def touch_stage_def dest!: token_dispatch elim!: tryS_cases
      split: option.splits if_splits)

lemma token_expire: "expire E now g = (evs, g1) \<Longrightarrow> gt_token g1 = gt_token g"
proof -
  have "gt_token (fold drop_connection cs g) = gt_token g" for cs by (induction cs arbitrary: g) simp_all
  then show "expire E now g = (evs, g1) \<Longrightarrow> gt_token g1 = gt_token g" by (auto simp: expire_def Let_def)
qed

lemma token_connect: "on_connect E c es t1 t2 g = (evs, g1) \<Longrightarrow> gt_token g1 = gt_token g"
  by (auto simp: on_connect_def Let_def split: option.splits sum.splits)

lemma token_inbound: "on_inbound E c arrived t1 t2 g = (evs, g1) \<Longrightarrow> gt_token g1 = gt_token g"
proof -
  have seen: "gt_token (touch_seen c t1 g) = gt_token g" by (simp add: touch_seen_def split: option.split)
  have failed: "gt_token (count_failure code t2 h) = gt_token h" for code h by (simp add: count_failure_def)
  show "on_inbound E c arrived t1 t2 g = (evs, g1) \<Longrightarrow> gt_token g1 = gt_token g"
    using seen by (auto simp: on_inbound_def failed dest!: token_handle split: option.splits prod.splits sum.splits)
qed

lemma token_command: "handle_host_command E command g = (evs, g1) \<Longrightarrow> gt_token g1 = gt_token g"
  by (cases command) (auto simp: handle_host_command_def dest!: token_send_timeout
      split: prod.splits sum.splits message.splits option.splits)

lemma show_invitation_current: "current H g (show_invitation H ck (gt_token g) v)"
  by (simp add: current_def show_invitation_def Let_def split: sum.split)

lemma show_requests_invitation [simp]: "rv_invitation (show_requests ck qs v) = rv_invitation v"
  by (simp add: show_requests_def)

lemma show_notice_current:
  assumes "current H g v" and "gt_token g1 = rotated (RA_NotifyHost notice) (gt_token g)"
  shows "current H g1 (show_notice H ck notice g0 v)"
proof (cases "\<exists>token. notice = HN_InvitationRotated token")
  case True
  with assms(2) have "notice = HN_InvitationRotated (gt_token g1)" by (auto simp: rotated_def)
  then show ?thesis using show_invitation_current by (simp add: show_notice_def)
next
  case False
  then have "rv_invitation (show_notice H ck notice g0 v) = rv_invitation v"
    by (auto simp: show_notice_def announce_def member_notice_def split: host_notice.split sum.split message.split)
  with False assms show ?thesis
    by (intro current_cong [OF assms(1)]) (auto simp: rotated_def split: host_notice.split)
qed

lemma show_action_current:
  assumes "current H g v" and "on_action (he_gate H) now act g = (evs, g1)"
  shows "current H g1 (show_action H ck act g v)"
  using assms token_on_action [OF assms(2)]
  by (cases act) (auto simp: show_action_def rotated_def intro: current_cong show_notice_current split: room_action.split)

lemma show_actions_current:
  "current H g v \<Longrightarrow> handle_host_actions (he_gate H) now acts g = (evs, g1) \<Longrightarrow>
   current H g1 (show_actions H ck now acts g v)"
  by (induction acts arbitrary: g v evs) (auto dest: show_action_current split: prod.splits)

lemma on_enter_invitation [simp]: "rv_invitation (snd (on_enter ck v)) = rv_invitation v"
proof -
  have colors: "rv_invitation (push_color_list ck w) = rv_invitation w" for w
    by (simp add: push_color_list_def)
  have "rv_invitation (snd (command_action ck w c)) = rv_invitation w" for w c
    by (cases c) (auto simp: colors clear_messages_def copy_action_def split: option.split)
  moreover have "rv_invitation (snd (submit_line v)) = rv_invitation v"
    by (auto simp: submit_line_def split: prod.split submit.split)
  ultimately show ?thesis by (auto simp: on_enter_def Let_def split: sum.split parsed_line.split)
qed

lemma key_invitation:
  assumes "on_key ck key a = Some (action, b)" and "ap_screen a = Scr_Room v"
  shows "\<exists>w. ap_screen b = Scr_Room w \<and> rv_invitation w = rv_invitation v"
proof -
  have "\<exists>w. on_room_key ck v key = Some (action, w) \<and> ap_screen b = Scr_Room w"
    using assms by (auto simp: on_key_def on_screen_key_def)
  moreover have "on_room_key ck v key = Some (action, w) \<Longrightarrow> rv_invitation w = rv_invitation v" for w
    by (auto simp: on_room_key_def edit_input_def toggle_system_messages_def toggle_host_member_view_def
        dest!: arg_cong [of _ _ snd] split: key_code.splits if_splits)
  ultimately show ?thesis by blast
qed

lemma paste_invitation:
  "on_paste t a = Some b \<Longrightarrow> ap_screen a = Scr_Room v \<Longrightarrow> \<exists>w. ap_screen b = Scr_Room w \<and> rv_invitation w = rv_invitation v"
  by (auto simp: on_paste_def)

definition shows_current :: "host_env \<Rightarrow> host_session \<Rightarrow> bool" where
  "shows_current H z \<longleftrightarrow> (\<forall>v. ap_screen (hz_app z) = Scr_Room v \<longrightarrow> current H (hz_gate z) v)"

lemma by_gate_current:
  assumes "by_gate H t1 t2 gb f z = (e, evs, z1)" and "shows_current H z"
    and "\<And>v g1 evs. gate_branch_step (he_gate H) t1 t2 gb (hz_gate z) = (evs, g1) \<Longrightarrow> current H (hz_gate z) v \<Longrightarrow> current H g1 (f v)"
  shows "shows_current H z1"
  using assms by (auto simp: by_gate_def shows_current_def on_view_def split: prod.splits screen.splits)

lemma host_key_current:
  assumes "host_key H ck copied key t1 t2 z = Some (e, evs, z1)" and "in_room (hz_app z)" and "shows_current H z"
  shows "shows_current H z1"
proof (cases "is_quit_key key")
  case True
  then show ?thesis using assms by (auto simp: host_key_def)
next
  case False
  then obtain action a where key: "on_key ck key (hz_app z) = Some (action, a)" using assms by (auto simp: host_key_def)
  obtain v where v: "ap_screen (hz_app z) = Scr_Room v" using assms(2) by (auto simp: in_room_def)
  from key_invitation [OF key v] obtain w where w: "ap_screen a = Scr_Room w" "rv_invitation w = rv_invitation v" by blast
  have cur: "current H (hz_gate z) v" using assms(3) v by (simp add: shows_current_def)
  have shown: "current H g1 (f w)" if "gt_token g1 = gt_token (hz_gate z)" "rv_invitation (f w) = rv_invitation w" for g1 f
    using that w(2) by (auto intro: current_cong [OF cur])
  have fin: ?thesis if "hz_app z1 = on_view f a" "gt_token (hz_gate z1) = gt_token (hz_gate z)"
      "rv_invitation (f w) = rv_invitation w" for f
    using that w(1) shown by (auto simp: shows_current_def on_view_def)
  have same: ?thesis if "hz_app z1 = a" "hz_gate z1 = hz_gate z"
    using that w(1) shown [of "hz_gate z" "\<lambda>v. v"] by (auto simp: shows_current_def)
  show ?thesis
  proof (cases action)
    case (AA_Room r)
    show ?thesis
    proof (cases r)
      case (RUA_Command command)
      obtain out g1 where out: "handle_host_command (he_gate H) command (hz_gate z) = (out, g1)" by fastforce
      then have "hz_app z1 = on_view (show_host_command H ck command (hz_gate z)) a" "hz_gate z1 = g1"
        using assms(1) key False AA_Room RUA_Command by (auto simp: host_key_def gate_branch_step_def)
      with token_command [OF out] show ?thesis using fin [of "show_host_command H ck command (hz_gate z)"] by simp
    next
      case (RUA_Chat t)
      then show ?thesis using assms(1) key False AA_Room
        by (intro fin [of "push_error ck (rs ''the host cannot send chat messages; join the room from a second tab to chat'')"]) (auto simp: host_key_def)
    next
      case (RUA_Error t)
      then show ?thesis using assms(1) key False AA_Room
        by (intro fin [of "push_error ck t"]) (auto simp: host_key_def)
    next
      case (RUA_CopyInvitation u)
      then show ?thesis using assms(1) key False AA_Room
        by (intro fin [of "copy_invitation_to_clipboard ck copied"]) (auto simp: host_key_def)
    qed (rule same; use assms(1) key False AA_Room in \<open>simp add: host_key_def\<close>; auto)+
  qed (rule same; use assms(1) key False in \<open>simp add: host_key_def\<close>; auto)+
qed

lemma gate_turn_current:
  assumes "gate_branch_step (he_gate H) t1 t2 gb g = (evs, g1)" and "\<nexists>acts. gb = GB_Actions acts"
    and "current H g v" and "rv_invitation w = rv_invitation v"
  shows "current H g1 w"
proof -
  have "gt_token g1 = gt_token g"
    using assms(1,2) by (cases gb) (auto simp: gate_branch_step_def dest!: token_command token_connect token_inbound
        split: list.splits)
  then show ?thesis using assms(3,4) by (auto intro: current_cong [OF assms(3)])
qed

lemma host_branch_current:
  assumes "host_branch_step H ck t1 t2 branch z = Some (e, evs, z1)" and "in_room (hz_app z)" and "shows_current H z"
  shows "shows_current H z1"
proof -
  have gate: ?thesis if "by_gate H t1 t2 gb f z = (e, evs, z1)" "\<nexists>acts. gb = GB_Actions acts"
      "\<And>v. rv_invitation (f v) = rv_invitation v" for gb f
    using that(1) assms(3) by (rule by_gate_current) (rule gate_turn_current; use that in simp)
  obtain v where v: "ap_screen (hz_app z) = Scr_Room v" using assms(2) by (auto simp: in_room_def)
  show ?thesis
  proof (cases branch)
    case (HB_Key copied key)
    then show ?thesis using assms host_key_current by (simp add: host_branch_step_def)
  next
    case (HB_Paste t)
    with assms(1) obtain a where a: "on_paste t (hz_app z) = Some a" "z1 = z\<lparr>hz_app := a\<rparr>"
      by (auto simp: host_branch_step_def)
    from paste_invitation [OF a(1) v] assms(3) v a(2) show ?thesis
      by (auto simp: shows_current_def intro: current_cong)
  next
    case (HB_Actions batch)
    show ?thesis
    proof (cases batch)
      case None
      then show ?thesis using assms HB_Actions by (simp add: host_branch_step_def)
    next
      case (Some acts)
      then have "by_gate H t1 t2 (GB_Actions acts) (show_actions H ck t2 acts (hz_gate z)) z = (e, evs, z1)"
        using assms(1) v HB_Actions by (simp add: host_branch_step_def)
      then show ?thesis using assms(3)
        by (rule by_gate_current) (auto simp: gate_branch_step_def intro: show_actions_current)
    qed
  next
    case (HB_Tick answer)
    then show ?thesis using assms gate by (cases answer; cases "projr answer") (auto simp: host_branch_step_def)
  next
    case (HB_Connect arrived)
    then show ?thesis using assms gate
      by (cases arrived; cases "hn_connects (gt_network (hz_gate z))") (auto simp: host_branch_step_def)
  qed (use assms gate in \<open>auto simp: host_branch_step_def split: option.splits prod.splits\<close>)
qed

lemma host_step_current:
  assumes "host_step H ev z = Some (e, evs, z1)" and "in_room (hz_app z)" and "shows_current H z"
  shows "shows_current H z1"
proof (cases ev)
  case (HE_Turn draw_failed ck t0 t1 t2 branch)
  show ?thesis
  proof (cases draw_failed)
    case True
    then show ?thesis using assms HE_Turn by (auto simp: host_step_def host_turn_def)
  next
    case False
    obtain lost g1 where lost: "expire (he_gate H) t0 (hz_gate z) = (lost, g1)" by fastforce
    define a where "a = on_view (show_expired ck (stale_connections (he_gate H) t0 (hz_gate z))) (hz_app z)"
    have room: "in_room a" unfolding a_def by (rule in_room_view [OF assms(2)]) (rule fine)
    have cur: "shows_current H \<lparr>hz_app = a, hz_gate = g1\<rparr>"
    proof -
      obtain v where v: "ap_screen (hz_app z) = Scr_Room v" using assms(2) by (auto simp: in_room_def)
      then have "current H (hz_gate z) v" using assms(3) by (simp add: shows_current_def)
      from current_cong [OF this invitation_expired token_expire [OF lost]] v show ?thesis
        by (simp add: a_def shows_current_def on_view_def)
    qed
    obtain evs1 where "host_branch_step H ck t1 t2 branch \<lparr>hz_app = a, hz_gate = g1\<rparr> = Some (e, evs1, z1)"
      using assms(1) HE_Turn False lost a_def by (cases z) (auto simp: host_step_def host_turn_def Let_def)
    from host_branch_current [OF this] room cur show ?thesis by simp
  qed
qed (use assms in \<open>auto simp: host_step_def beside_def gate_step_def shows_current_def current_def\<close>)

lemma host_loop_current:
  "host_loop H evs z = Some (e, out, z1) \<Longrightarrow> in_room (hz_app z) \<Longrightarrow> shows_current H z \<Longrightarrow>
   shows_current H z1 \<and> in_room (hz_app z1)"
proof (induction evs arbitrary: z out)
  case (Cons ev evs)
  obtain e1 out1 z2 where s: "host_step H ev z = Some (e1, out1, z2)" "in_room (hz_app z2)"
    using host_step_room [OF Cons.prems(2)] by blast
  have cur: "shows_current H z2" using host_step_current [OF s(1) Cons.prems(2,3)] .
  show ?case
  proof (cases e1)
    case None
    then show ?thesis using Cons.prems(1) s cur Cons.IH by auto
  qed (use Cons.prems(1) s cur in auto)
qed simp

lemma host_start_current:
  assumes "host_start H ck now nickname es initial a = (out, z)"
  shows "in_room (hz_app z) \<and> shows_current H z"
proof
  show "in_room (hz_app z)" using host_start_room [of H ck now nickname es initial a] assms by simp
  have "current H g (push_system ck t (room_view_new True nickname (ck_instant ck)))" for g t
    by (simp add: current_def room_view_new_def)
  then show "shows_current H z"
    using assms show_actions_current [of H "gate_start (he_gate H) nickname es"]
    by (auto simp: host_start_def shows_current_def enter_room_def Let_def split: prod.splits)
qed

lemma progress_screen_ok:
  "fold (\<lambda>(progress, failed) (a, f). (set_tor_progress progress a, f \<or> failed)) observed (b, f) = (c, g) \<Longrightarrow>
   screen_ok (ap_screen b) \<Longrightarrow> screen_ok (ap_screen c)"
proof (induction observed arbitrary: b f)
  case (Cons x observed)
  have "screen_ok (ap_screen (set_tor_progress p b))" for p
    using Cons.prems(2) by (cases "ap_screen b") (simp_all add: set_tor_progress_def)
  then show ?case using Cons.IH Cons.prems(1) by (cases x) auto
qed simp

lemma tor_screen_ok:
  assumes "start_tor_with_progress draw_failed observed outcome a = (e, a1)"
  shows "screen_ok (ap_screen a1)"
  using assms by (auto simp: start_tor_with_progress_def begin_tor_connection_def Let_def
      split: if_splits prod.splits dest!: progress_screen_ok)

lemma room_session_ok: "\<exists>e out a1. host_room_session H W initial nickname a = Some (e, out, a1) \<and> screen_ok (ap_screen a1)"
proof -
  obtain started z where start: "host_start H (hw_clock W) (hw_now W) nickname (hw_chat_entropy W) initial a = (started, z)"
    by fastforce
  then have "in_room (hz_app z)" by (simp add: host_start_current)
  then obtain e out z1 where run: "host_loop H (hw_events W) z = Some (e, out, z1)" "in_room (hz_app z1)"
    using host_loop_room by blast
  have ok: "screen_ok (ap_screen (hz_app z1))" using run(2) by (auto simp: in_room_def)
  have "host_finish x batch z1 = (result, evs, z2) \<Longrightarrow> hz_app z2 = hz_app z1" for x batch result evs z2
    by (auto simp: host_finish_def split: loop_end.splits prod.splits)
  then show ?thesis using start run(1) ok by (cases e) (auto simp: host_room_session_def split: prod.splits)
qed

lemma host_session_ok:
  assumes "screen_ok (ap_screen a)"
  shows "\<exists>e out a1. run_host_session H W password nickname a = Some (e, out, a1) \<and> screen_ok (ap_screen a1)"
  using assms room_session_ok tor_screen_ok
  by (fastforce simp: run_host_session_def host_session_body_def split: sum.split option.split prod.split)

text \<open>
  C15: Whatever was typed before, a host session never panics: with any failure of its preparation, and at any moment
  of its loop, whatever the peers, the room, Tor, the clock and the user do, it has an outcome, and the screen
  that it leaves can be drawn without handing an unsafe character to the terminal.
\<close>

theorem host_session_never_panics:
  "\<exists>a e out a1 d. app_run ins app_new = Some a \<and> run_host_session H W password nickname a = Some (e, out, a1) \<and>
     draw_screen D ck (ap_screen a1) whole = Some d \<and> drawn_safe d"
proof -
  have "screen_ok (ap_screen app_new)" by (simp add: app_new_def)
  then obtain a where a: "app_run ins app_new = Some a" "screen_ok (ap_screen a)" using app_run_ok by blast
  from host_session_ok [OF a(2)] a(1) draw_screen_safe show ?thesis by metis
qed

text \<open>
  C14: The invitation that the host copies is the current one: however often it was rotated and whatever else
  happened, the URI that Ctrl-Y or \<open>/copy\<close> hands to the clipboard prints the token that the handshakes of new
  connections are checked against, never a revoked one.
\<close>

theorem copied_invitation_is_current:
  assumes "host_start H ck now nickname es initial a = (started, z)"
    and "host_loop H evs z = Some (e, out, z1)"
    and "on_key ck1 key (hz_app z1) = Some (AA_Room (RUA_CopyInvitation uri), b)"
    and "invitation_new (he_uri H) (ge_onion_address (he_gate H)) VIRTUAL_PORT (gt_token (hz_gate z1)) = Inr i"
  shows "uri = to_uri_string (he_uri H) i"
proof -
  from host_start_current [OF assms(1)] host_loop_current [OF assms(2)]
  have ok: "shows_current H z1" "in_room (hz_app z1)" by blast+
  then obtain v where v: "ap_screen (hz_app z1) = Scr_Room v" "view_fine v" by (auto simp: in_room_def)
  have "key_ok (ap_screen (hz_app z1)) (on_screen_key ck1 key (ap_screen (hz_app z1)))"
    using room_key_ok [OF v(2)] v(1) by simp
  then have "rv_invitation v = Some uri"
    using assms(3) v(1) by (auto simp: key_ok_def on_key_def)
  then show ?thesis using ok(1) v(1) assms(4) by (auto simp: shows_current_def current_def)
qed

section \<open>A concrete session\<close>

definition demo_host_env :: host_env where
  "demo_host_env =
     \<lparr>he_gate = demo_gate_env\<lparr>ge_onion_address := demo_onion\<rparr>, he_uri = demo_uri_env,
      he_crypto_text = (\<lambda>_. []), he_chat_text = (\<lambda>_. [])\<rparr>"

definition demo_clock :: clock where
  "demo_clock = \<lparr>ck_instant = 0, ck_unix_seconds = 0\<rparr>"

text \<open>Tor dies while nobody is connected: the room is told, and the gate is as it was.\<close>

lemma host_supervisor_refines_gate_witness:
  "\<exists>z1. host_loop demo_host_env [HE_Turn False demo_clock 0 0 0 (HB_Tick (Inr True))] \<lparr>hz_app = app_new, hz_gate = demo_gate\<rparr> =
       Some (Some (LE_Return (SE_Failed (rs ''Tor stopped unexpectedly''))), [EV_TorStopped], z1) \<and>
     (\<exists>gevs gout tail. gate_run (he_gate demo_host_env) gevs demo_gate = (gout, hz_gate z1) \<and> [EV_TorStopped] = gout @ tail)"
proof -
  let ?z = "\<lparr>hz_app = app_new, hz_gate = demo_gate\<rparr>"
  have "gt_connections demo_gate = []" by (simp add: demo_gate_def gate_start_def)
  then have run: "host_loop demo_host_env [HE_Turn False demo_clock 0 0 0 (HB_Tick (Inr True))] ?z =
      Some (Some (LE_Return (SE_Failed (rs ''Tor stopped unexpectedly''))), [EV_TorStopped], ?z)"
    by (simp add: host_step_def host_turn_def host_branch_step_def expire_def stale_connections_def show_expired_def
        on_view_def app_new_def Let_def demo_gate_def gate_start_def demo_host_env_def demo_gate_env_def)
  from host_supervisor_refines_gate [OF run] obtain gevs gout tail where
    "gate_run (he_gate demo_host_env) gevs demo_gate = (gout, hz_gate ?z)" "[EV_TorStopped] = gout @ tail" by auto
  then have "\<exists>gevs gout tail. gate_run (he_gate demo_host_env) gevs demo_gate = (gout, hz_gate ?z) \<and> [EV_TorStopped] = gout @ tail"
    by blast
  with run show ?thesis by blast
qed

text \<open>Ctrl-Y right after the room has rotated its invitation.\<close>

lemma copied_invitation_is_current_witness:
  "\<exists>z uri i b. host_start demo_host_env demo_clock 0 (rs ''ada'') [] [RA_NotifyHost (HN_InvitationRotated (replicate 16 0x78))] app_new = ([], z) \<and>
     on_key demo_clock \<lparr>ke_code = KC_Char 0x79, ke_control = True, ke_shift = False, ke_other_modifier = False\<rparr> (hz_app z) =
       Some (AA_Room (RUA_CopyInvitation uri), b) \<and>
     uri = to_uri_string demo_uri_env i \<and> inv_token i = replicate 16 0x78"
proof -
  let ?i = "\<lparr>inv_onion_address = demo_onion, inv_port = VIRTUAL_PORT, inv_token = replicate 16 (0x78 :: u8)\<rparr>"
  let ?key = "\<lparr>ke_code = KC_Char 0x79, ke_control = True, ke_shift = False, ke_other_modifier = False\<rparr>"
  let ?acts = "[RA_NotifyHost (HN_InvitationRotated (replicate 16 (0x78 :: u8)))]"
  have i: "invitation_new demo_uri_env demo_onion VIRTUAL_PORT (replicate 16 0x78) = Inr ?i"
    by (simp add: invitation_new_eq demo_onion_valid MIN_TOKEN_BYTES_def MAX_TOKEN_BYTES_def VIRTUAL_PORT_def)
  obtain out z where start: "host_start demo_host_env demo_clock 0 (rs ''ada'') [] ?acts app_new = (out, z)" by fastforce
  then have out: "out = []" and gate: "gt_token (hz_gate z) = replicate 16 0x78"
    by (auto simp: host_start_def on_action_def on_notice_def Let_def)
  obtain v where v: "ap_screen (hz_app z) = Scr_Room v" and shown: "rv_invitation v \<noteq> None"
    using start i by (auto simp: host_start_def enter_room_def show_action_def show_notice_def show_invitation_def demo_host_env_def Let_def
        split: prod.splits)
  then obtain uri b where key: "on_key demo_clock ?key (hz_app z) = Some (AA_Room (RUA_CopyInvitation uri), b)"
    by (auto simp: on_key_def on_screen_key_def on_room_key_def copy_action_def only_control_def)
  have "uri = to_uri_string (he_uri demo_host_env) ?i"
    by (rule copied_invitation_is_current [OF start _ key, of "[]"])
      (simp_all add: gate, simp add: demo_host_env_def i)
  then have "uri = to_uri_string demo_uri_env ?i" by (simp add: demo_host_env_def)
  with start out key show ?thesis by (intro exI [of _ z] exI [of _ uri] exI [of _ ?i] exI [of _ b]) simp
qed

end
