(* ===== verification/ActorStores.thy ===== *)
theory ActorStores
  imports Actor
begin

text \<open>
  The invariant that ties the room actor's stores together: the member table, the connection
  registry, the join-request queue and the timeout requests. \<open>stores_wf\<close> is the invariant on the
  five fields it reads; one lemma per store operation says how it is kept, and the handlers of
  \<open>Actor\<close> keep it because they are built from these operations. It is kept on every branch,
  the error returns included.
\<close>

definition stores_wf :: "member_table \<Rightarrow> connections \<Rightarrow> request_queue \<Rightarrow>
    pending_timeout_request list \<Rightarrow> u64 \<Rightarrow> bool" where
  "stores_wf M C Q T h \<longleftrightarrow>
     table_ok M \<and> conn_ok C \<and> queue_ok Q \<and>
     (\<exists>m \<in> set (mt_members M). m_member_id m = 0 \<and> m_connection m = h) \<and>
     (\<forall>c i. conn_role c C = Some (CR_Member i) \<longleftrightarrow>
        (\<exists>m \<in> set (mt_members M). m_member_id m = i \<and> m_connection m = c)) \<and>
     (\<forall>c i. conn_role c C = Some (CR_Pending i) \<longleftrightarrow>
        (\<exists>r \<in> set (qu_requests Q). rq_id r = i \<and> rq_connection r = c)) \<and>
     distinct (map rq_id (qu_requests Q) @ map pt_request_id T) \<and>
     (\<forall>t \<in> set T. pt_request_id t < qu_next_id Q)"

definition stores_ok :: "room_actor \<Rightarrow> bool" where
  "stores_ok a \<longleftrightarrow>
     stores_wf (ra_members a) (ra_connections a) (ra_requests a) (ra_timeout_requests a)
       (ra_host_connection a)"

text \<open>The id counters have room for one more id.\<close>

definition ids_left :: "room_actor \<Rightarrow> bool" where
  "ids_left a \<longleftrightarrow> mt_next_id (ra_members a) + 1 \<noteq> 0 \<and> qu_next_id (ra_requests a) + 1 \<noteq> 0"

section \<open>Store operations\<close>

lemma stores_wfD:
  assumes "stores_wf M C Q T h"
  shows "table_ok M" "conn_ok C" "queue_ok Q"
    "\<exists>m \<in> set (mt_members M). m_member_id m = 0 \<and> m_connection m = h"
    "conn_role c C = Some (CR_Member i) \<longleftrightarrow> (\<exists>m \<in> set (mt_members M). m_member_id m = i \<and> m_connection m = c)"
    "conn_role c C = Some (CR_Pending i) \<longleftrightarrow> (\<exists>r \<in> set (qu_requests Q). rq_id r = i \<and> rq_connection r = c)"
    "distinct (map rq_id (qu_requests Q) @ map pt_request_id T)"
    "\<forall>t \<in> set T. pt_request_id t < qu_next_id Q"
  using assms unfolding stores_wf_def by blast+

lemma stores_wf_roles:
  "stores_wf M C Q T h \<Longrightarrow> conn_ok C' \<Longrightarrow> (\<And>c i. conn_role c C' = Some (CR_Member i) \<longleftrightarrow> conn_role c C = Some (CR_Member i)) \<Longrightarrow>
   (\<And>c i. conn_role c C' = Some (CR_Pending i) \<longleftrightarrow> conn_role c C = Some (CR_Pending i)) \<Longrightarrow>
   stores_wf M C' Q T h"
  unfolding stores_wf_def by simp

lemma stores_wf_register: "stores_wf M C Q T h \<Longrightarrow> stores_wf M (conn_register c C) Q T h"
  by (rule stores_wf_roles) (auto simp: stores_wf_def conn_role_register)

lemma stores_wf_mark:
  "stores_wf M C Q T h \<Longrightarrow> stores_wf M (snd (conn_mark_password_verified c C)) Q T h"
  by (rule stores_wf_roles) (auto simp: stores_wf_def)

lemma stores_wf_color: "stores_wf M C Q T h \<Longrightarrow> stores_wf (table_set_color i col M) C Q T h"
proof -
  assume wf: "stores_wf M C Q T h"
  have ex: "(\<exists>m \<in> set (update_first p (\<lambda>m. m\<lparr>m_color := col\<rparr>) ms). m_member_id m = j \<and> m_connection m = c) \<longleftrightarrow>
      (\<exists>m \<in> set ms. m_member_id m = j \<and> m_connection m = c)" for p ms j c
    by (induction ms) auto
  show ?thesis
    using wf table_ok_set_color [of M i col]
    unfolding stores_wf_def table_set_color_def by (simp add: ex)
qed

text \<open>A member leaves the table and its connection the registry.\<close>

lemma stores_wf_remove_member:
  assumes wf: "stores_wf M C Q T h" and i: "i \<noteq> 0" and rm: "table_remove i M = (Some m, M')"
  shows "stores_wf M' (conn_remove (m_connection m) C) Q T h"
proof -
  note d = stores_wfD [OF wf]
  from rm table_remove_filter [OF d(1), of i]
  have M': "M' = M\<lparr>mt_members := filter (\<lambda>m. m_member_id m \<noteq> i) (mt_members M)\<rparr>"
    and m: "m \<in> set (mt_members M)" "m_member_id m = i"
    by (auto dest: by_id_SomeD)
  have key: "\<forall>m' \<in> set (mt_members M). m_connection m' = m_connection m \<longleftrightarrow> m_member_id m' = i"
    using table_ok_eqI(1,2) [OF d(1) _ m(1)] m(2) by metis
  have no_pending: "conn_role (m_connection m) C \<noteq> Some (CR_Pending j)" for j
    using d(5) [of "m_connection m" i] m by auto
  have "table_ok M'" using table_ok_remove [OF d(1), of i] rm by simp
  moreover have "conn_role c (conn_remove (m_connection m) C) = Some (CR_Member j) \<longleftrightarrow>
      (\<exists>m \<in> set (mt_members M'). m_member_id m = j \<and> m_connection m = c)" for c j
    unfolding conn_role_remove M' using d(5) [of c j] key by auto
  moreover have "conn_role c (conn_remove (m_connection m) C) = Some (CR_Pending j) \<longleftrightarrow>
      (\<exists>r \<in> set (qu_requests Q). rq_id r = j \<and> rq_connection r = c)" for c j
    using d(6) [of c j] no_pending by (auto simp: conn_role_remove)
  moreover have "\<exists>m \<in> set (mt_members M'). m_member_id m = 0 \<and> m_connection m = h"
    using d(4) i by (auto simp: M')
  ultimately show ?thesis using d(2,3,7,8) unfolding stores_wf_def by auto
qed

text \<open>A pending application is taken and its connection closed.\<close>

lemma stores_wf_take_remove:
  assumes wf: "stores_wf M C Q T h" and take: "queue_take i Q = (Inr r, Q')"
  shows "stores_wf M (conn_remove (rq_connection r) C) Q' T h"
proof -
  note d = stores_wfD [OF wf]
  from queue_take_Inr [OF d(3) take] have r: "r \<in> set (qu_requests Q)" "rq_id r = i"
    and Q': "Q' = Q\<lparr>qu_requests := filter (\<lambda>r. rq_id r \<noteq> i) (qu_requests Q)\<rparr>" by auto
  have role: "conn_role (rq_connection r) C = Some (CR_Pending i)" using d(6) r by blast
  then have uniq: "rq_id r' = i" if "r' \<in> set (qu_requests Q)" "rq_connection r' = rq_connection r" for r'
    using d(6) that by (metis connection_role.inject(1) option.inject)
  have same: "r' = r" if "r' \<in> set (qu_requests Q)" "rq_id r' = i" for r'
    using d(3) that r by (auto simp: queue_ok_def distinct_map dest: inj_onD)
  have "conn_role c (conn_remove (rq_connection r) C) = Some (CR_Pending j) \<longleftrightarrow>
      (\<exists>r \<in> set (qu_requests Q'). rq_id r = j \<and> rq_connection r = c)" for c j
    using d(6) [of c j] uniq same by (auto simp: Q' conn_role_remove)
  moreover have "conn_role c (conn_remove (rq_connection r) C) = Some (CR_Member j) \<longleftrightarrow>
      (\<exists>m \<in> set (mt_members M). m_member_id m = j \<and> m_connection m = c)" for c j
    using d(5) [of c j] role by (auto simp: conn_role_remove)
  moreover have "queue_ok Q'" using queue_ok_take [OF d(3), of i] take by simp
  moreover have "distinct (map rq_id (qu_requests Q') @ map pt_request_id T)"
    using d(7) by (auto simp: Q' distinct_map_filter)
  ultimately show ?thesis using d(1,2,4,8) unfolding stores_wf_def by (auto simp: Q')
qed

text \<open>A pending application is admitted.\<close>

lemma stores_wf_admit:
  assumes wf: "stores_wf M C Q T h" and take: "queue_take i Q = (Inr r, Q')"
    and add: "table_add (rq_connection r) n ed x e M = (Inr m, M')" and left: "mt_next_id M + 1 \<noteq> 0"
  shows "stores_wf M' (snd (conn_promote (rq_connection r) (m_member_id m)
           (conn_register (rq_connection r) C))) Q' T h"
proof -
  let ?c = "rq_connection r" and ?i = "m_member_id m"
  note w = stores_wf_take_remove [OF wf take] and d = stores_wfD [OF wf]
  note dw = stores_wfD [OF w] and a = table_add_Inr [OF add]
  let ?C = "snd (conn_promote ?c ?i (conn_register ?c C))"
  have role: "conn_role c ?C = (if c = ?c then Some (CR_Member ?i) else conn_role c (conn_remove ?c C))" for c
    by (auto simp: conn_role_laws)
  have new: "?i = mt_next_id M" "m_connection m = ?c" "mt_members M' = mt_members M @ [m]"
    by (simp_all add: a(1,2))
  have fresh: "m' \<in> set (mt_members M) \<Longrightarrow> m_connection m' \<noteq> ?c" for m' using a(4) by blast
  have "table_ok M'" using table_ok_add [OF d(1) left add] .
  moreover have "conn_role c ?C = Some (CR_Member j) \<longleftrightarrow>
      (\<exists>m \<in> set (mt_members M'). m_member_id m = j \<and> m_connection m = c)" for c j
    using dw(5) [of c j] fresh by (auto simp: role new(2,3))
  moreover have "conn_role c ?C = Some (CR_Pending j) \<longleftrightarrow>
      (\<exists>r \<in> set (qu_requests Q'). rq_id r = j \<and> rq_connection r = c)" for c j
    using dw(6) [of c j] dw(6) [of ?c] by (auto simp: role conn_role_remove)
  moreover have "\<exists>m \<in> set (mt_members M'). m_member_id m = 0 \<and> m_connection m = h"
    using d(4) by (auto simp: new(3))
  ultimately show ?thesis using d(2) dw(3,7,8) unfolding stores_wf_def by auto
qed

text \<open>A connection that is neither a member nor pending disappears.\<close>

lemma stores_wf_forget:
  assumes wf: "stores_wf M C Q T h" and "conn_role c C \<in> {None, Some CR_Admission}"
  shows "stores_wf M (conn_remove c C) Q T h"
  using assms stores_wfD(2) [OF wf]
  by (intro stores_wf_roles [OF wf]) (auto simp: conn_role_remove)

text \<open>A new application from an admission connection.\<close>

lemma stores_wf_apply:
  assumes wf: "stores_wf M C Q T h" and role: "conn_role c C = Some CR_Admission"
    and push: "queue_push c ap Q = (Inr i, Q')" and left: "qu_next_id Q + 1 \<noteq> 0"
  shows "stores_wf M (snd (conn_attach_request c i C)) Q' T h"
proof -
  note d = stores_wfD [OF wf]
  from push have i: "i = qu_next_id Q"
    and Q': "qu_requests Q' = qu_requests Q @ [\<lparr>rq_id = i, rq_connection = c, rq_application = ap\<rparr>]"
      "qu_next_id Q' = qu_next_id Q + 1"
    by (simp_all add: queue_push_Inr)
  have lt: "qu_next_id Q < qu_next_id Q + 1" using left by (rule word_less_inc)
  have fresh: "\<forall>r \<in> set (qu_requests Q). rq_id r \<noteq> i \<and> rq_connection r \<noteq> c"
  proof
    fix r assume "r \<in> set (qu_requests Q)"
    with d(3) d(6) [of c "rq_id r"] role show "rq_id r \<noteq> i \<and> rq_connection r \<noteq> c"
      by (auto simp: queue_ok_def i)
  qed
  have "conn_role c' (snd (conn_attach_request c i C)) = Some (CR_Pending j) \<longleftrightarrow>
      (\<exists>r \<in> set (qu_requests Q'). rq_id r = j \<and> rq_connection r = c')" for c' j
    using d(6) [of c' j] role fresh by (auto simp: Q' conn_role_attach)
  moreover have "conn_role c' (snd (conn_attach_request c i C)) = Some (CR_Member j) \<longleftrightarrow>
      (\<exists>m \<in> set (mt_members M). m_member_id m = j \<and> m_connection m = c')" for c' j
    using d(5) [of c' j] role by (auto simp: conn_role_attach)
  moreover have "queue_ok Q'" using queue_ok_push [OF d(3) left push] .
  moreover have "distinct (map rq_id (qu_requests Q') @ map pt_request_id T)"
    using d(7,8) fresh i by (auto simp: Q')
  moreover have "\<forall>t \<in> set T. pt_request_id t < qu_next_id Q'"
    using d(8) lt by (auto simp: Q' intro: less_trans)
  ultimately show ?thesis using d(1,2,4) unfolding stores_wf_def by auto
qed

text \<open>A timeout request takes the next id of the shared sequence.\<close>

lemma stores_wf_timeout_request:
  assumes wf: "stores_wf M C Q T h" and left: "qu_next_id Q + 1 \<noteq> 0"
    and alloc: "queue_allocate_id Q = (i, Q')" and t: "pt_request_id t = i"
  shows "stores_wf M C Q' (T @ [t]) h"
proof -
  note d = stores_wfD [OF wf]
  have Q': "i = qu_next_id Q" "qu_requests Q' = qu_requests Q" "qu_next_id Q' = qu_next_id Q + 1"
    using alloc by (auto simp: queue_allocate_id_def)
  have lt: "qu_next_id Q < qu_next_id Q + 1" using left by (rule word_less_inc)
  have "queue_ok Q'" using queue_ok_allocate [OF d(3) left] alloc by simp
  moreover have "distinct (map rq_id (qu_requests Q') @ map pt_request_id (T @ [t]))"
    using d(3,7,8) t by (auto simp: Q' queue_ok_def)
  moreover have "\<forall>u \<in> set (T @ [t]). pt_request_id u < qu_next_id Q'"
    using d(8) lt t by (auto simp: Q' intro: less_trans)
  ultimately show ?thesis using d(1,2,4,5,6) unfolding stores_wf_def by (auto simp: Q')
qed

lemma stores_wf_timeouts:
  assumes wf: "stores_wf M C Q T h" and "distinct (map pt_request_id T')" "set T' \<subseteq> set T"
  shows "stores_wf M C Q T' h"
  using assms unfolding stores_wf_def by auto blast

lemma stores_wf_filter_timeouts:
  "stores_wf M C Q T h \<Longrightarrow> stores_wf M C Q (filter p T) h"
  by (rule stores_wf_timeouts) (auto simp: stores_wf_def distinct_map_filter)

lemma stores_wf_take_timeout:
  assumes wf: "stores_wf M C Q T h" and "take_first p T = Some (t, T')"
  shows "stores_wf M C Q T' h"
proof -
  obtain as bs where "T = as @ t # bs" "T' = as @ bs" using take_first_Some [OF assms(2)] by blast
  with stores_wfD(7) [OF wf] show ?thesis by (intro stores_wf_timeouts [OF wf]) auto
qed

section \<open>What the epoch and broadcast operations leave alone\<close>

lemma begin_frame [simp]:
  "ra_members (snd (begin_epoch_transition E a)) = ra_members a"
  "ra_connections (snd (begin_epoch_transition E a)) = ra_connections a"
  "ra_requests (snd (begin_epoch_transition E a)) = ra_requests a"
  "ra_timeout_requests (snd (begin_epoch_transition E a)) = ra_timeout_requests a"
  "ra_host_connection (snd (begin_epoch_transition E a)) = ra_host_connection a"
  "ra_host_identity (snd (begin_epoch_transition E a)) = ra_host_identity a"
  "ra_session_id (snd (begin_epoch_transition E a)) = ra_session_id a"
  "ra_policy (snd (begin_epoch_transition E a)) = ra_policy a"
  "ra_now (snd (begin_epoch_transition E a)) = ra_now a"
  "ra_timeouts (snd (begin_epoch_transition E a)) = ra_timeouts a"
  "ra_room_timeout (snd (begin_epoch_transition E a)) = ra_room_timeout a"
  "ra_rate_limits (snd (begin_epoch_transition E a)) = ra_rate_limits a"
  "ra_epoch_key (snd (begin_epoch_transition E a)) = ra_epoch_key a"
  "ra_pending_membership (snd (begin_epoch_transition E a)) = ra_pending_membership a"
  "ra_token (snd (begin_epoch_transition E a)) = ra_token a"
  "ra_epoch (snd (begin_epoch_transition E a)) = ra_epoch a + 1"
  "ra_chat_replay (snd (begin_epoch_transition E a)) =
     replay_retain_epoch (ra_epoch a + 1) (ra_chat_replay a)"
  by (simp_all add: begin_epoch_transition_def room_random_def tryS_def Let_def split: prod.splits sum.splits)

lemma queue_snapshot_frame [simp]:
  "ra_members (queue_member_snapshot E c a) = ra_members a"
  "ra_connections (queue_member_snapshot E c a) = ra_connections a"
  "ra_requests (queue_member_snapshot E c a) = ra_requests a"
  "ra_timeout_requests (queue_member_snapshot E c a) = ra_timeout_requests a"
  "ra_host_connection (queue_member_snapshot E c a) = ra_host_connection a"
  "ra_state (queue_member_snapshot E c a) = ra_state a"
  "ra_pending_epoch (queue_member_snapshot E c a) = ra_pending_epoch a"
  "ra_epoch (queue_member_snapshot E c a) = ra_epoch a"
  "ra_epoch_key (queue_member_snapshot E c a) = ra_epoch_key a"
  "ra_chat_replay (queue_member_snapshot E c a) = ra_chat_replay a"
  by (simp_all add: queue_member_snapshot_def Let_def)

lemma queue_joined_frame [simp]:
  "ra_members (queue_member_joined E m a) = ra_members a"
  "ra_connections (queue_member_joined E m a) = ra_connections a"
  "ra_requests (queue_member_joined E m a) = ra_requests a"
  "ra_timeout_requests (queue_member_joined E m a) = ra_timeout_requests a"
  "ra_host_connection (queue_member_joined E m a) = ra_host_connection a"
  "ra_state (queue_member_joined E m a) = ra_state a"
  "ra_pending_epoch (queue_member_joined E m a) = ra_pending_epoch a"
  "ra_epoch (queue_member_joined E m a) = ra_epoch a"
  "ra_epoch_key (queue_member_joined E m a) = ra_epoch_key a"
  "ra_chat_replay (queue_member_joined E m a) = ra_chat_replay a"
  by (simp_all add: queue_member_joined_def Let_def)

lemma queue_gone_frame [simp]:
  "ra_members (queue_member_gone E i t a) = ra_members a"
  "ra_connections (queue_member_gone E i t a) = ra_connections a"
  "ra_requests (queue_member_gone E i t a) = ra_requests a"
  "ra_timeout_requests (queue_member_gone E i t a) = ra_timeout_requests a"
  "ra_host_connection (queue_member_gone E i t a) = ra_host_connection a"
  "ra_state (queue_member_gone E i t a) = ra_state a"
  "ra_pending_epoch (queue_member_gone E i t a) = ra_pending_epoch a"
  "ra_epoch (queue_member_gone E i t a) = ra_epoch a"
  "ra_epoch_key (queue_member_gone E i t a) = ra_epoch_key a"
  "ra_chat_replay (queue_member_gone E i t a) = ra_chat_replay a"
  by (simp_all add: queue_member_gone_def Let_def)

text \<open>The same for the broadcasts about all evicted members.\<close>

definition gone_all :: "room_env \<Rightarrow> u64 list \<Rightarrow> room_actor \<Rightarrow> room_actor" where
  "gone_all E removed a = foldl (\<lambda>a i. queue_member_gone E i MSG_MEMBER_LEFT a) a removed"

lemma gone_all_frame [simp]:
  "ra_members (gone_all E is a) = ra_members a"
  "ra_connections (gone_all E is a) = ra_connections a"
  "ra_requests (gone_all E is a) = ra_requests a"
  "ra_timeout_requests (gone_all E is a) = ra_timeout_requests a"
  "ra_host_connection (gone_all E is a) = ra_host_connection a"
  "ra_state (gone_all E is a) = ra_state a"
  "ra_pending_epoch (gone_all E is a) = ra_pending_epoch a"
  "ra_epoch (gone_all E is a) = ra_epoch a"
  "ra_epoch_key (gone_all E is a) = ra_epoch_key a"
  "ra_chat_replay (gone_all E is a) = ra_chat_replay a"
  unfolding gone_all_def by (induction "is" arbitrary: a) simp_all

lemma stores_ok_cong:
  "ra_members a = ra_members b \<Longrightarrow> ra_connections a = ra_connections b \<Longrightarrow> ra_requests a = ra_requests b \<Longrightarrow>
   ra_timeout_requests a = ra_timeout_requests b \<Longrightarrow> ra_host_connection a = ra_host_connection b \<Longrightarrow>
   stores_ok a = stores_ok b"
  by (simp add: stores_ok_def)

lemmas stores_ok_tryS = tryS_inv [where P = stores_ok]

lemma stores_ok_begin [simp]: "stores_ok (snd (begin_epoch_transition E a)) = stores_ok a"
  by (rule stores_ok_cong) simp_all

lemma stores_ok_queue [simp]:
  "stores_ok (queue_member_joined E m a) = stores_ok a"
  "stores_ok (queue_member_gone E i t a) = stores_ok a"
  "stores_ok (gone_all E is a) = stores_ok a"
  by (rule stores_ok_cong, simp_all)+

section \<open>Every handler keeps the stores consistent\<close>

lemma stores_ok_remove_member:
  assumes "stores_ok a"
  shows "stores_ok (snd (remove_member E i t a))"
proof (cases "i = 0")
  case True
  with assms show ?thesis by (simp add: remove_member_def)
next
  case False
  show ?thesis
  proof (cases "table_remove i (ra_members a)")
    case (Pair r M')
    show ?thesis
    proof (cases r)
      case None
      with assms Pair False show ?thesis by (simp add: remove_member_def)
    next
      case (Some m)
      let ?a = "a\<lparr>ra_members := M', ra_connections := conn_remove (m_connection m) (ra_connections a),
                  ra_rate_limits := (ra_rate_limits a)(i := None)\<rparr>"
      have "stores_ok ?a"
        using stores_wf_remove_member [OF _ False, of "ra_members a" "ra_connections a"] assms Pair Some
        by (simp add: stores_ok_def)
      then show ?thesis
        using Pair Some False by (auto simp: remove_member_def intro!: stores_ok_tryS)
    qed
  qed
qed

lemma stores_ok_evict:
  "stores_ok a \<Longrightarrow> 0 \<notin> set ids \<Longrightarrow> stores_ok (snd (evict_members ids a))"
proof (induction ids a rule: evict_members.induct)
  case (1 a)
  then show ?case by simp
next
  case (2 i ids a)
  show ?case
  proof (cases "table_remove i (ra_members a)")
    case (Pair r M')
    show ?thesis
    proof (cases r)
      case None
      with 2 Pair show ?thesis by simp
    next
      case (Some m)
      let ?a = "a\<lparr>ra_members := M', ra_connections := conn_remove (m_connection m) (ra_connections a),
                  ra_rate_limits := (ra_rate_limits a)(i := None)\<rparr>"
      have "stores_ok ?a"
        using stores_wf_remove_member [of "ra_members a" "ra_connections a" _ _ _ i m M'] 2(3,4) Pair Some
        by (simp add: stores_ok_def)
      with 2(2) [OF Pair [symmetric] _ _] 2(4) Pair Some have "stores_ok (snd (evict_members ids ?a))" by auto
      then show ?thesis using Pair Some by (simp add: case_prod_beta)
    qed
  qed
qed

lemma stores_ok_close_room: "stores_ok a \<Longrightarrow> stores_ok (snd (close_room E a))"
  by (simp add: close_room_def stores_ok_def)

lemma stores_ok_epoch_ack: "stores_ok a \<Longrightarrow> stores_ok (snd (on_epoch_ack c e a))"
  by (auto simp: on_epoch_ack_def stores_ok_def Let_def split: option.splits)

lemma stores_ok_epoch_timeout: "stores_ok a \<Longrightarrow> stores_ok (snd (on_epoch_timeout E a))"
proof -
  assume ok: "stores_ok a"
  show ?thesis
  proof (cases "ra_pending_epoch a")
    case None
    with ok show ?thesis by (simp add: on_epoch_timeout_def)
  next
    case (Some p)
    let ?a = "a\<lparr>ra_pending_epoch := None\<rparr>"
    have a: "stores_ok ?a" using ok by (simp add: stores_ok_def)
    obtain removed acts b where e: "evict_members (pe_awaiting p) ?a = ((removed, acts), b)"
      by (metis surj_pair)
    show ?thesis
    proof (cases "0 \<in> set (pe_awaiting p)")
      case True
      with ok a Some show ?thesis by (simp add: on_epoch_timeout_def Let_def stores_ok_close_room)
    next
      case False
      then have "stores_ok b" using stores_ok_evict [OF a, of "pe_awaiting p"] e by simp
      with ok Some e False show ?thesis
        by (auto simp: on_epoch_timeout_def Let_def gone_all_def [symmetric] intro!: stores_ok_tryS)
    qed
  qed
qed

lemma stores_ok_join_requested:
  assumes "stores_ok a" and "ids_left a"
  shows "stores_ok (snd (on_join_requested c ap a))"
proof -
  have wf: "stores_wf (ra_members a) (ra_connections a) (ra_requests a) (ra_timeout_requests a)
      (ra_host_connection a)" using assms(1) by (simp add: stores_ok_def)
  show ?thesis
  proof (cases "\<exists>e i q. allows_join_requests (ra_policy a) \<and> conn_get c (ra_connections a) = Some e \<and>
      ce_password_verified e \<and> ce_role e = CR_Admission \<and> queue_push c ap (ra_requests a) = (Inr i, q)")
    case True
    then obtain e i q where *: "allows_join_requests (ra_policy a)" "conn_get c (ra_connections a) = Some e"
      "ce_password_verified e" "ce_role e = CR_Admission" "queue_push c ap (ra_requests a) = (Inr i, q)"
      by blast
    have role: "conn_role c (ra_connections a) = Some CR_Admission" using * by (simp add: conn_role_def)
    have "stores_wf (ra_members a) (snd (conn_attach_request c i (ra_connections a))) q
        (ra_timeout_requests a) (ra_host_connection a)"
      using stores_wf_apply [OF wf role *(5)] assms(2) by (simp add: ids_left_def)
    moreover obtain cs where "conn_attach_request c i (ra_connections a) = (Some (), cs)"
      using * by (simp add: conn_attach_request_def conn_modify_def)
    ultimately show ?thesis using * by (simp add: on_join_requested_def stores_ok_def)
  next
    case False
    then have "snd (on_join_requested c ap a) = a"
      by (auto simp: on_join_requested_def split: option.splits prod.splits sum.splits)
    with assms show ?thesis by simp
  qed
qed

lemma take_request_cases:
  assumes "stores_ok a"
  obtains (missing) "take_request i a = (Inl (RE_UnknownRequest i), a)"
  | (found) r q where "queue_take i (ra_requests a) = (Inr r, q)"
      "take_request i a = (Inr r, a\<lparr>ra_requests := q\<rparr>)"
proof (cases "queue_take i (ra_requests a)")
  case (Pair r q)
  show thesis
  proof (cases r)
    case (Inl e)
    with Pair queue_take_Inl [of i "ra_requests a" e q] show thesis
      by (intro missing) (simp add: take_request_def)
  next
    case (Inr x)
    with Pair show thesis by (intro found [of x q]) (simp_all add: take_request_def)
  qed
qed

lemma stores_ok_accept:
  assumes ok: "stores_ok a" and left: "ids_left a"
  shows "stores_ok (snd (on_accept E i a))"
proof (cases "take_first (\<lambda>t. pt_request_id t = i) (ra_timeout_requests a)")
  case (Some p)
  then obtain t rest where p: "take_first (\<lambda>t. pt_request_id t = i) (ra_timeout_requests a) = Some (t, rest)"
    by (cases p) auto
  with ok stores_wf_take_timeout [OF _ p] show ?thesis by (simp add: on_accept_def stores_ok_def)
next
  case None
  show ?thesis
  proof (rule take_request_cases [OF ok, of i])
    assume "take_request i a = (Inl (RE_UnknownRequest i), a)"
    with ok None show ?thesis by (simp add: on_accept_def)
  next
    fix r q
    assume found: "queue_take i (ra_requests a) = (Inr r, q)"
      "take_request i a = (Inr r, a\<lparr>ra_requests := q\<rparr>)"
    let ?c = "rq_connection r" and ?ap = "rq_application r"
    have wf: "stores_wf (ra_members a) (ra_connections a) (ra_requests a) (ra_timeout_requests a)
      (ra_host_connection a)" using ok by (simp add: stores_ok_def)
    obtain res M' where add: "table_add ?c (ap_nickname ?ap) (ap_ed25519_pubkey ?ap)
        (ap_x25519_pubkey ?ap) (ra_epoch a + 1) (ra_members a) = (res, M')" by (metis surj_pair)
    show ?thesis
    proof (cases res)
      case (Inl e)
      with found None add stores_wf_take_remove [OF wf found(1)] show ?thesis
        by (simp add: on_accept_def Let_def stores_ok_def)
    next
      case (Inr m)
      let ?a = "a\<lparr>ra_requests := q, ra_members := M', ra_connections := snd (conn_promote ?c (m_member_id m)
          (conn_register ?c (ra_connections a)))\<rparr>"
      have "stores_ok ?a"
        using stores_wf_admit [OF wf found(1)] add Inr left by (simp add: stores_ok_def ids_left_def)
      with found None add Inr show ?thesis
        by (auto simp: on_accept_def Let_def intro!: stores_ok_tryS)
    qed
  qed
qed

lemma stores_ok_reject:
  assumes ok: "stores_ok a"
  shows "stores_ok (snd (on_reject i a))"
proof (cases "take_first (\<lambda>t. pt_request_id t = i) (ra_timeout_requests a)")
  case (Some p)
  then obtain t rest where p: "take_first (\<lambda>t. pt_request_id t = i) (ra_timeout_requests a) = Some (t, rest)"
    by (cases p) auto
  with ok stores_wf_take_timeout [OF _ p] show ?thesis by (simp add: on_reject_def stores_ok_def)
next
  case None
  show ?thesis
  proof (rule take_request_cases [OF ok, of i])
    assume "take_request i a = (Inl (RE_UnknownRequest i), a)"
    with ok None show ?thesis by (simp add: on_reject_def)
  next
    fix r q
    assume found: "queue_take i (ra_requests a) = (Inr r, q)"
      "take_request i a = (Inr r, a\<lparr>ra_requests := q\<rparr>)"
    with ok None stores_wf_take_remove [OF _ found(1)] show ?thesis
      by (simp add: on_reject_def stores_ok_def)
  qed
qed

lemma stores_ok_leave: "stores_ok a \<Longrightarrow> stores_ok (snd (on_leave E c a))"
  using stores_ok_remove_member [of a E _ MSG_MEMBER_LEFT]
  by (auto simp: on_leave_def split: option.splits intro!: stores_ok_tryS)

lemma stores_ok_color: "stores_ok a \<Longrightarrow> stores_ok (snd (on_color c col a))"
  by (auto simp: on_color_def stores_ok_def stores_wf_color split: option.splits)

lemma stores_ok_kick: "stores_ok a \<Longrightarrow> stores_ok (snd (on_kick E target a))"
  using stores_ok_remove_member [of a E _ MSG_MEMBER_KICKED]
  by (auto simp: on_kick_def split: option.splits sum.splits intro!: stores_ok_tryS)

lemma stores_ok_member_left: "stores_ok a \<Longrightarrow> stores_ok (snd (on_member_left E i a))"
  using stores_ok_remove_member [of a E i MSG_MEMBER_LEFT]
  by (auto simp: on_member_left_def split: option.splits intro!: stores_ok_tryS)

text \<open>Removing a member leaves no trace of its connection and adds no other role.\<close>

lemma remove_member_stores:
  assumes "i \<noteq> 0" and "table_remove i (ra_members a) = (Some m, M')"
  shows "ra_connections (snd (remove_member E i t a)) = conn_remove (m_connection m) (ra_connections a) \<and>
    ra_members (snd (remove_member E i t a)) = M' \<and> ra_requests (snd (remove_member E i t a)) = ra_requests a"
  using assms unfolding remove_member_def
  by (simp, intro tryS_inv [where P = "\<lambda>s. ra_connections s = conn_remove (m_connection m) (ra_connections a) \<and>
        ra_members s = M' \<and> ra_requests s = ra_requests a"]) simp_all

lemma stores_ok_forget:
  "stores_ok a \<Longrightarrow> conn_role c (ra_connections a) \<in> {None, Some CR_Admission} \<Longrightarrow>
   stores_ok (a\<lparr>ra_connections := conn_remove c (ra_connections a)\<rparr>)"
  by (simp add: stores_ok_def stores_wf_forget)

lemma stores_ok_connection_lost:
  assumes ok: "stores_ok a"
  shows "stores_ok (snd (on_connection_lost E c a))"
proof (cases "c = ra_host_connection a")
  case True
  with ok show ?thesis by (simp add: on_connection_lost_def stores_ok_close_room)
next
  case False
  let ?a = "a\<lparr>ra_timeout_requests := filter (\<lambda>t. pt_connection t \<noteq> c) (ra_timeout_requests a)\<rparr>"
  have wf: "stores_wf (ra_members a) (ra_connections a) (ra_requests a) (ra_timeout_requests a)
      (ra_host_connection a)" using ok by (simp add: stores_ok_def)
  note d = stores_wfD [OF wf]
  have a: "stores_ok ?a" using stores_wf_filter_timeouts [OF wf] by (simp add: stores_ok_def)
  show ?thesis
  proof (cases "by_connection c (ra_members a)")
    case (Some m)
    then have m: "m \<in> set (mt_members (ra_members a))" "m_connection m = c"
      by (auto dest: by_connection_SomeD)
    let ?i = "m_member_id m"
    have reg: "conn_member_id c (ra_connections a) = Some ?i"
      using d(5) m by (auto simp: conn_member_id_role)
    have i0: "?i \<noteq> 0"
    proof
      assume "?i = 0"
      with d(4) table_ok_eqI(1) [OF d(1) _ m(1)] have "m_connection m = ra_host_connection a" by metis
      with m False show False by simp
    qed
    have "by_id ?i (ra_members a) = Some m" using by_id_iff [OF d(1)] m by blast
    then have "table_remove ?i (ra_members ?a) =
        (Some m, snd (table_remove ?i (ra_members a)))" by (simp add: table_remove_filter [OF d(1)])
    from remove_member_stores [OF i0 this] m
    have gone: "conn_role c (ra_connections (snd (remove_member E ?i MSG_MEMBER_LEFT ?a))) = None"
      by (simp add: conn_role_remove)
    have "stores_ok (snd (remove_member E ?i MSG_MEMBER_LEFT ?a))" using a by (rule stores_ok_remove_member)
    with False reg gone show ?thesis
      by (auto simp: on_connection_lost_def Let_def stores_ok_forget intro!: stores_ok_tryS)
  next
    case None
    then have nomem: "conn_role c (ra_connections a) \<noteq> Some (CR_Member i)" for i
      using d(5) [of c i] by (auto simp: by_connection_None)
    then have reg: "conn_member_id c (ra_connections a) = None"
      by (metis conn_member_id_role not_Some_eq)
    show ?thesis
    proof (cases "conn_request_id c (ra_connections a)")
      case None
      then have "conn_role c (ra_connections a) \<noteq> Some (CR_Pending i)" for i
        by (metis conn_request_id_role option.distinct(1))
      with nomem have "conn_role c (ra_connections a) \<in> {None, Some CR_Admission}"
        by (metis connection_role.exhaust insertCI not_Some_eq)
      with a stores_ok_forget [of ?a c]
      have "stores_ok (?a\<lparr>ra_connections := conn_remove c (ra_connections ?a)\<rparr>)" by simp
      with False reg None \<open>by_connection c (ra_members a) = None\<close> show ?thesis
        by (simp add: on_connection_lost_def Let_def)
    next
      case (Some q)
      then have "conn_role c (ra_connections a) = Some (CR_Pending q)" by (simp add: conn_request_id_role)
      with d(6) obtain r where r: "r \<in> set (qu_requests (ra_requests a))" "rq_id r = q" "rq_connection r = c"
        by blast
      from queue_take_present [OF r(1,2)] obtain r' Q' where take: "queue_take q (ra_requests a) = (Inr r', Q')"
        by blast
      have "r' = r" using queue_take_Inr [OF d(3) take] r d(3)
        by (auto simp: queue_ok_def distinct_map dest: inj_onD)
      with stores_wf_take_remove [OF stores_wf_filter_timeouts [OF wf] take] r(3)
      have "stores_ok (?a\<lparr>ra_requests := Q', ra_connections := conn_remove c (ra_connections a)\<rparr>)"
        by (simp add: stores_ok_def)
      with False reg Some take \<open>by_connection c (ra_members a) = None\<close> show ?thesis
        by (simp add: on_connection_lost_def Let_def)
    qed
  qed
qed

text \<open>\<open>/newid\<close> and \<open>/reqoff\<close> leave the registry with the members only.\<close>

lemma conn_remove_all:
  "conn_role c (foldl (\<lambda>cs c. conn_remove c cs) cs ids) = (if c \<in> set ids then None else conn_role c cs)"
  by (induction ids arbitrary: cs) (auto simp: conn_role_remove)

lemma conn_ok_remove_all: "conn_ok cs \<Longrightarrow> conn_ok (foldl (\<lambda>cs c. conn_remove c cs) cs ids)"
  by (induction ids arbitrary: cs) auto

lemma close_admissions_roles:
  assumes ok: "stores_ok a" and ord: "order_ok (en_order E)"
  shows "conn_ok (ra_connections (snd (close_admissions E a))) \<and>
    conn_role c (ra_connections (snd (close_admissions E a))) =
      (case conn_role c (ra_connections a) of Some (CR_Member i) \<Rightarrow> Some (CR_Member i) | _ \<Rightarrow> None)"
proof -
  have wf: "stores_wf (ra_members a) (ra_connections a) (ra_requests a) (ra_timeout_requests a)
      (ra_host_connection a)" using ok by (simp add: stores_ok_def)
  note d = stores_wfD [OF wf]
  let ?ids = "map rq_connection (qu_requests (ra_requests a))"
  let ?cs = "foldl (\<lambda>cs c. conn_remove c cs) (ra_connections a) ?ids"
  have fold: "foldl (\<lambda>cs r. conn_remove (rq_connection r) cs) (ra_connections a) (qu_requests (ra_requests a)) = ?cs"
    by (simp add: foldl_map)
  have cs: "conn_ok ?cs" using d(2) by (rule conn_ok_remove_all)
  have drained: "c \<in> set ?ids \<Longrightarrow> \<exists>i. conn_role c (ra_connections a) = Some (CR_Pending i)"
    using d(6) by force
  have "conn_role c (foldl (\<lambda>cs c. conn_remove c cs) ?cs (conn_non_member_ids (en_order E) ?cs)) =
      (case conn_role c (ra_connections a) of Some (CR_Member i) \<Rightarrow> Some (CR_Member i) | _ \<Rightarrow> None)"
    using drained
    by (auto simp: conn_remove_all set_conn_non_member_ids [OF ord cs] is_member_role_def
        split: option.splits connection_role.splits)
  with conn_ok_remove_all [OF cs] fold show ?thesis
    by (simp add: close_admissions_def queue_drain_def Let_def)
qed

lemma stores_ok_close_admissions:
  assumes ok: "stores_ok a" and ord: "order_ok (en_order E)"
  shows "stores_ok (snd (close_admissions E a))"
proof -
  have wf: "stores_wf (ra_members a) (ra_connections a) (ra_requests a) (ra_timeout_requests a)
      (ra_host_connection a)" using ok by (simp add: stores_ok_def)
  note d = stores_wfD [OF wf] and r = close_admissions_roles [OF ok ord]
  let ?b = "snd (close_admissions E a)"
  have b: "ra_members ?b = ra_members a" "ra_requests ?b = (ra_requests a)\<lparr>qu_requests := []\<rparr>"
    "ra_timeout_requests ?b = ra_timeout_requests a" "ra_host_connection ?b = ra_host_connection a"
    by (simp_all add: close_admissions_def queue_drain_def Let_def)
  have "conn_role c (ra_connections ?b) = Some (CR_Member i) \<longleftrightarrow> conn_role c (ra_connections a) = Some (CR_Member i)"
    "conn_role c (ra_connections ?b) \<noteq> Some (CR_Pending i)" for c i
    using r [of c] by (auto split: option.splits connection_role.splits)
  moreover have "queue_ok (ra_requests ?b)" using d(3) by (simp add: b queue_ok_def)
  ultimately show ?thesis
    using d r unfolding stores_ok_def stores_wf_def b by auto
qed

lemma stores_ok_new_id:
  assumes "stores_ok a" and "order_ok (en_order E)"
  shows "stores_ok (snd (on_new_id E a))"
proof -
  have "stores_ok (snd (room_random (fill_random 32) a))"
    using assms(1) by (simp add: room_random_def stores_ok_def split: prod.splits)
  then show ?thesis
    unfolding on_new_id_def
  proof (rule stores_ok_tryS)
    fix token b
    assume "stores_ok b"
    then have "stores_ok (b\<lparr>ra_token := token, ra_room_sequence := ra_room_sequence b + 1\<rparr>)"
      by (simp add: stores_ok_def)
    from stores_ok_close_admissions [OF this assms(2)]
    show "stores_ok (snd (case close_admissions E (b\<lparr>ra_token := token,
        ra_room_sequence := ra_room_sequence b + 1\<rparr>) of
        (acts, a2) \<Rightarrow> (Inr (acts @ [RA_NotifyHost (HN_InvitationRotated token)]), a2)))"
      by (simp add: case_prod_beta)
  qed
qed

lemma stores_ok_set_policy:
  assumes "stores_ok a" and "order_ok (en_order E)"
  shows "stores_ok (snd (set_policy E p a))"
proof -
  have "stores_ok (snd (if p = JP_Locked then close_admissions E a else ([], a)))"
    using assms stores_ok_close_admissions by simp
  then show ?thesis
    by (simp add: set_policy_def Let_def case_prod_beta stores_ok_def)
qed

lemma stores_ok_host_command:
  assumes "stores_ok a" "ids_left a" "order_ok (en_order E)"
  shows "stores_ok (snd (on_host_command E cmd a))"
  using assms
  by (cases cmd) (simp_all add: stores_ok_kick stores_ok_new_id stores_ok_set_policy
      stores_ok_accept stores_ok_reject)

lemma stores_ok_member_command: "stores_ok a \<Longrightarrow> stores_ok (snd (on_member_command E c cmd a))"
  by (cases cmd) (simp_all add: stores_ok_leave stores_ok_color split: sum.splits)

section \<open>Chat\<close>

lemma stores_ok_relay: "stores_ok a \<Longrightarrow> stores_ok (snd (relay c msg a))"
  by (simp add: relay_def)

lemma stores_ok_relay_opened:
  assumes ok: "stores_ok a" and left: "ids_left a"
  shows "stores_ok (snd (relay_opened E c i t env a))"
proof -
  let ?a = "a\<lparr>ra_chat_replay := snd (replay_accept i (ra_epoch a) (env_sender_sequence env) (ra_chat_replay a))\<rparr>"
  have a: "stores_ok ?a" using ok by (simp add: stores_ok_def)
  have color: "stores_ok (snd (on_color_payload c i env p ?a))" for p
    using ok by (auto simp: on_color_payload_def relay_def stores_ok_def stores_wf_color split: option.splits)
  have request: "stores_ok (snd (on_timeout_request_payload c i p ?a))" for p
    using ok left
    by (auto simp: on_timeout_request_payload_def stores_ok_def ids_left_def Let_def
        intro: stores_wf_timeout_request split: prod.splits)
  have changed: "stores_ok (snd (on_timeout_changed_payload c i env p ?a))" for p
    using ok by (simp add: on_timeout_changed_payload_def relay_def stores_ok_def Let_def)
  have chat: "stores_ok (snd (on_chat_payload c env p ?a))" for p
    using a by (simp add: on_chat_payload_def relay_def split: option.splits sum.splits)
  show ?thesis
    using ok color request changed chat
    by (auto simp: relay_opened_def Let_def split: sum.splits)
qed

lemma stores_ok_rate_limited: "stores_ok a \<Longrightarrow> stores_ok (snd (rate_limited E c i ab a))"
  using stores_ok_remove_member [of a E i MSG_MEMBER_KICKED]
  by (auto simp: rate_limited_def Let_def split: sum.splits intro!: stores_ok_tryS)

lemma stores_ok_chat_received:
  assumes ok: "stores_ok a" and left: "ids_left a"
  shows "stores_ok (snd (on_chat_received E c t env a))"
proof -
  have "stores_ok (a\<lparr>ra_rate_limits := rl\<rparr>)" "ids_left (a\<lparr>ra_rate_limits := rl\<rparr>)" for rl
    using ok left by (simp_all add: stores_ok_def ids_left_def)
  with assms show ?thesis
    by (auto simp: on_chat_received_def Let_def stores_ok_relay_opened stores_ok_rate_limited
        split: option.splits prod.splits)
qed

lemma stores_ok_reject_transition: "stores_ok a \<Longrightarrow> stores_ok (snd (reject_during_transition c a))"
  by (simp add: reject_during_transition_def split: sum.splits)

lemmas stores_ok_handlers =
  stores_ok_epoch_ack stores_ok_connection_lost stores_ok_epoch_timeout stores_ok_close_room
  stores_ok_host_command stores_ok_member_command stores_ok_chat_received stores_ok_reject_transition
  stores_ok_join_requested stores_ok_accept stores_ok_reject stores_ok_member_left

lemma handle_event_stores:
  assumes "stores_ok a" and "ids_left a" and "order_ok (en_order E)"
  shows "stores_ok (snd (handle_event_at E ev now a))"
proof -
  let ?a = "a\<lparr>ra_now := now\<rparr>"
  have a: "stores_ok ?a" "ids_left ?a" using assms by (simp_all add: stores_ok_def ids_left_def)
  have "stores_ok (snd (handle_in_transition E ev ?a))"
    using a assms(3)
    by (cases "(E, ev, ?a)" rule: handle_in_transition.cases) (simp_all add: stores_ok_handlers)
  moreover have "stores_ok (snd (handle_settled E ev ?a))"
  proof (cases ev)
    case (EV_ClientConnected c)
    with a show ?thesis by (simp add: stores_ok_def stores_wf_register)
  next
    case (EV_PasswordVerified c)
    with a show ?thesis by (simp add: stores_ok_def stores_wf_mark)
  qed (use a assms(3) in \<open>simp_all add: stores_ok_handlers\<close>)
  ultimately show ?thesis using a by (simp add: handle_event_at_def Let_def)
qed

text \<open>
  One event, whatever it is and whatever the outcome (errors included), keeps the room's
  stores consistent: the host is member 0 on the host connection; member ids, nicknames,
  connections and identity keys are distinct and the capacity holds; a connection has the member
  role exactly when the table has a member on it and the pending role exactly when the queue has
  its application; and all open requests, join and timeout, have distinct ids.
\<close>

theorem handle_event_stores_ok:
  assumes "stores_ok a" and "ids_left a" and "order_ok (en_order E)"
  shows "stores_ok (snd (handle_event_at E ev now a))"
  using assms by (rule handle_event_stores)

end
