(* ===== verification/ActorEpoch.thy ===== *)
theory ActorEpoch
  imports ActorStores
begin

text \<open>
  Epoch transitions of the room actor: what beginning one does, that every change of the
  membership begins one and sends the new key to exactly the remaining members, that it is
  activated by the last acknowledgement, and the invariant of the epoch fields.
\<close>

fun epoch_wraps :: "room_action list \<Rightarrow> (u64 \<times> epoch_wrap) list" where
  "epoch_wraps [] = []"
| "epoch_wraps (RA_SendTo c (M_EpochWrap w) # acts) = (c, w) # epoch_wraps acts"
| "epoch_wraps (_ # acts) = epoch_wraps acts"

definition member_ids :: "room_actor \<Rightarrow> u64 list" where
  "member_ids a = map m_member_id (mt_members (ra_members a))"

definition member_connections :: "room_actor \<Rightarrow> u64 list" where
  "member_connections a = map m_connection (mt_members (ra_members a))"

lemma epoch_wraps_append [simp]: "epoch_wraps (xs @ ys) = epoch_wraps xs @ epoch_wraps ys"
  by (induction xs rule: epoch_wraps.induct) auto

lemma epoch_wraps_notify [simp]:
  "epoch_wraps (map (\<lambda>x. RA_NotifyHost (f x)) xs) = []"
  "epoch_wraps (map ((\<lambda>x. RA_NotifyHost (f x)) \<circ> g) ys) = []"
  by (induction xs, simp_all) (induction ys, simp_all)

section \<open>Beginning a transition\<close>

lemma wrap_members_step:
  assumes "wrap_members C h session key epoch (m # ms) es = (Inr acts, es')"
  obtains wk nonce c es1 acts1 where
    "try_wrap_key_for C h (m_x25519_pubkey m) session (m_member_id m) = Inr wk"
    "wrap_epoch_key C wk key epoch session es = (Inr (nonce, c), es1)"
    "wrap_members C h session key epoch ms es1 = (Inr acts1, es')"
    "acts = RA_SendTo (m_connection m)
       (M_EpochWrap \<lparr>ew_epoch = epoch, ew_nonce = nonce, ew_ciphertext = c\<rparr>) # acts1"
  using assms by (auto simp: epoch_wrap_new_def split: sum.splits prod.splits if_splits elim!: tryS_cases)

lemma wrap_members_ok:
  "wrap_members C h session key epoch ms es = (Inr acts, es') \<Longrightarrow>
   map fst (epoch_wraps acts) = map m_connection ms \<and>
   (\<forall>cw \<in> set (epoch_wraps acts). ew_epoch (snd cw) = epoch)"
proof (induction ms arbitrary: acts es)
  case Nil
  then show ?case by simp
next
  case (Cons m ms)
  from Cons.prems obtain nonce c es1 acts1 where
    "wrap_members C h session key epoch ms es1 = (Inr acts1, es')"
    "acts = RA_SendTo (m_connection m)
       (M_EpochWrap \<lparr>ew_epoch = epoch, ew_nonce = nonce, ew_ciphertext = c\<rparr>) # acts1"
    by (rule wrap_members_step)
  with Cons.IH show ?case by simp
qed

text \<open>
  Whoever holds the secret of a member's X25519 key recovers the epoch key from the message sent
  to that member.
\<close>

definition opens_wrap :: "crypto \<Rightarrow> bytes \<Rightarrow> bytes \<Rightarrow> bytes \<Rightarrow> member \<Rightarrow> epoch_wrap \<Rightarrow> bool" where
  "opens_wrap C host_pubkey session key m w \<longleftrightarrow>
     (\<forall>i. identity_x25519_pubkey C i = m_x25519_pubkey m \<longrightarrow>
        (\<exists>wk. try_wrap_key_for C i host_pubkey session (m_member_id m) = Inr wk \<and>
              unwrap_epoch_key C wk (ew_epoch w) session (ew_nonce w) (ew_ciphertext w) = Inr key))"

lemma wrap_members_unwrap:
  assumes "crypto_ok C" and "length key = EPOCH_KEY_LEN"
  shows "wrap_members C h session key epoch ms es = (Inr acts, es') \<Longrightarrow>
    list_all2 (\<lambda>m cw. opens_wrap C (identity_x25519_pubkey C h) session key m (snd cw)) ms (epoch_wraps acts)"
proof (induction ms arbitrary: acts es)
  case Nil
  then show ?case by simp
next
  case (Cons m ms)
  from Cons.prems obtain wk nonce c es1 acts1 where
    wk: "try_wrap_key_for C h (m_x25519_pubkey m) session (m_member_id m) = Inr wk" and
    c: "wrap_epoch_key C wk key epoch session es = (Inr (nonce, c), es1)" and
    rest: "wrap_members C h session key epoch ms es1 = (Inr acts1, es')" and
    acts: "acts = RA_SendTo (m_connection m)
       (M_EpochWrap \<lparr>ew_epoch = epoch, ew_nonce = nonce, ew_ciphertext = c\<rparr>) # acts1"
    by (rule wrap_members_step)
  have "opens_wrap C (identity_x25519_pubkey C h) session key m
      \<lparr>ew_epoch = epoch, ew_nonce = nonce, ew_ciphertext = c\<rparr>"
    unfolding opens_wrap_def
  proof (intro allI impI)
    fix i
    assume "identity_x25519_pubkey C i = m_x25519_pubkey m"
    with wk wrap_keys_agree [OF assms(1), of h i session "m_member_id m"]
    have "try_wrap_key_for C i (identity_x25519_pubkey C h) session (m_member_id m) = Inr wk" by simp
    with unwrap_wrapped [OF assms(1) c assms(2)]
    show "\<exists>wk. try_wrap_key_for C i (identity_x25519_pubkey C h) session (m_member_id m) = Inr wk \<and>
        unwrap_epoch_key C wk (ew_epoch \<lparr>ew_epoch = epoch, ew_nonce = nonce, ew_ciphertext = c\<rparr>) session
          (ew_nonce \<lparr>ew_epoch = epoch, ew_nonce = nonce, ew_ciphertext = c\<rparr>)
          (ew_ciphertext \<lparr>ew_epoch = epoch, ew_nonce = nonce, ew_ciphertext = c\<rparr>) = Inr key"
      by simp
  qed
  with Cons.IH [OF rest] acts show ?case by simp
qed

text \<open>What a successful transition leaves behind.\<close>

definition rekeyed :: "room_actor \<Rightarrow> room_action list \<Rightarrow> room_actor \<Rightarrow> bool" where
  "rekeyed a acts b \<longleftrightarrow>
     ra_epoch b = ra_epoch a + 1 \<and> ra_state b = RS_EpochTransition \<and>
     (\<exists>p. ra_pending_epoch b = Some p \<and> pe_epoch p = ra_epoch b \<and> pe_awaiting p = member_ids b \<and>
          length (pe_key p) = EPOCH_KEY_LEN) \<and>
     map fst (epoch_wraps acts) = member_connections b \<and>
     (\<forall>cw \<in> set (epoch_wraps acts). ew_epoch (snd cw) = ra_epoch b)"

lemma begin_ok:
  assumes "begin_epoch_transition E a = (Inr acts, b)"
  shows "rekeyed a acts b \<and> member_ids b = member_ids a \<and> member_connections b = member_connections a"
proof -
  from assms obtain key a1 es where
    key: "room_random epoch_key_generate
      (a\<lparr>ra_epoch := ra_epoch a + 1, ra_chat_replay := replay_retain_epoch (ra_epoch a + 1) (ra_chat_replay a),
         ra_room_sequence := ra_room_sequence a + 1\<rparr>) = (Inr key, a1)" and
    wraps: "wrap_members (en_crypto E) (ra_host_identity a1) (ra_session_id a1) key (ra_epoch a1)
      (mt_members (ra_members a1)) (ra_entropy a1) = (Inr acts, es)" and
    b: "b = a1\<lparr>ra_entropy := es, ra_state := RS_EpochTransition, ra_pending_epoch := Some
         \<lparr>pe_epoch = ra_epoch a1, pe_key = key,
          pe_awaiting = map m_member_id (mt_members (ra_members a1)), pe_started_at = ra_now a1\<rparr>\<rparr>"
    by (auto simp: begin_epoch_transition_def Let_def elim!: tryS_cases split: prod.splits sum.splits)
  from key have a1: "ra_members a1 = ra_members a" "ra_epoch a1 = ra_epoch a + 1" "length key = EPOCH_KEY_LEN"
    by (auto simp: room_random_def epoch_key_generate_def split: prod.splits dest: fill_random_length)
  from wrap_members_ok [OF wraps] a1 b show ?thesis
    by (simp add: rekeyed_def member_ids_def member_connections_def)
qed

lemma rekeyed_frame:
  "rekeyed a acts b \<Longrightarrow> ra_epoch b' = ra_epoch b \<Longrightarrow> ra_state b' = ra_state b \<Longrightarrow>
   ra_pending_epoch b' = ra_pending_epoch b \<Longrightarrow> ra_members b' = ra_members b \<Longrightarrow>
   ra_epoch a' = ra_epoch a \<Longrightarrow> epoch_wraps acts' = epoch_wraps acts \<Longrightarrow> rekeyed a' acts' b'"
  by (auto simp: rekeyed_def member_ids_def member_connections_def)

text \<open>Removing a member either does nothing or rekeys.\<close>

lemma remove_member_rekeys:
  assumes "remove_member E i t a = (Inr (r, acts), b)"
  shows "case r of None \<Rightarrow> b = a \<and> acts = [] | Some m \<Rightarrow> rekeyed a acts b"
proof (cases "table_remove i (ra_members a)")
  case (Pair r' M')
  show ?thesis
  proof (cases r')
    case None
    with assms Pair show ?thesis by (auto simp: remove_member_def split: if_splits)
  next
    case (Some m)
    with assms Pair obtain b1 where r: "r = Some m" and b: "b = queue_member_gone E i t b1" and
      beg: "begin_epoch_transition E (a\<lparr>ra_members := M',
        ra_connections := conn_remove (m_connection m) (ra_connections a),
        ra_rate_limits := (ra_rate_limits a)(i := None)\<rparr>) = (Inr acts, b1)"
      by (auto simp: remove_member_def split: if_splits elim!: tryS_cases)
    from begin_ok [OF beg] r b show ?thesis
      by (auto intro: rekeyed_frame)
  qed
qed

section \<open>Every change of the membership rekeys\<close>

text \<open>
  \<open>calm\<close>: the members, the epoch and the lifecycle stay as they were. \<open>stranded\<close>: the epoch has moved and
  nothing else of the lifecycle, so no key for it exists. An event either is calm, or it rekeys, or it failed
  because randomness, key derivation or message construction failed, and the room is stranded.
\<close>

definition calm :: "room_actor \<Rightarrow> room_actor \<Rightarrow> bool" where
  "calm a b \<longleftrightarrow>
     member_ids b = member_ids a \<and> ra_epoch b = ra_epoch a \<and> ra_state b = ra_state a \<and>
     ra_pending_epoch b = ra_pending_epoch a \<and> ra_policy b = ra_policy a \<and>
     ra_epoch_key b = ra_epoch_key a"

definition stranded :: "room_actor \<Rightarrow> room_actor \<Rightarrow> bool" where
  "stranded a b \<longleftrightarrow>
     ra_epoch b = ra_epoch a + 1 \<and> ra_state b = ra_state a \<and> ra_policy b = ra_policy a \<and>
     ra_epoch_key b = ra_epoch_key a \<and> (ra_pending_epoch b = ra_pending_epoch a \<or> ra_pending_epoch b = None)"

definition key_failure :: "room_error \<Rightarrow> bool" where
  "key_failure e \<longleftrightarrow> (case e of RE_Crypto _ \<Rightarrow> True | RE_Protocol _ \<Rightarrow> True | _ \<Rightarrow> False)"

definition keeps_or_rekeys :: "room_actor \<Rightarrow> room_result \<Rightarrow> bool" where
  "keeps_or_rekeys a res \<longleftrightarrow>
     (case res of
        (Inl e, b) \<Rightarrow> calm a b \<or> key_failure e \<and> stranded a b
      | (Inr acts, b) \<Rightarrow> calm a b \<or> rekeyed a acts b)"

lemma calm_refl [simp]: "calm a a"
  by (simp add: calm_def)

lemma keeps_calm: "calm a (snd res) \<Longrightarrow> keeps_or_rekeys a res"
  by (auto simp: keeps_or_rekeys_def split: prod.splits sum.splits)

lemma stranded_frame:
  "stranded a1 b \<Longrightarrow> ra_epoch a1 = ra_epoch a \<Longrightarrow> ra_state a1 = ra_state a \<Longrightarrow> ra_policy a1 = ra_policy a \<Longrightarrow>
   ra_epoch_key a1 = ra_epoch_key a \<Longrightarrow> ra_pending_epoch a1 = ra_pending_epoch a \<or> ra_pending_epoch a1 = None \<Longrightarrow>
   stranded a b"
  by (auto simp: stranded_def)

lemma begin_fails: "begin_epoch_transition E a = (Inl e, b) \<Longrightarrow> key_failure e \<and> stranded a b"
proof -
  have "wrap_members C h s k ep ms es = (Inl e, es') \<Longrightarrow> key_failure e" for C h s k ep ms es es'
    by (induction ms arbitrary: es)
      (auto simp: key_failure_def split: sum.splits prod.splits elim!: tryS_cases)
  then show "begin_epoch_transition E a = (Inl e, b) \<Longrightarrow> key_failure e \<and> stranded a b"
    by (fastforce simp: begin_epoch_transition_def room_random_def map_errE_def key_failure_def stranded_def Let_def
        elim!: tryS_cases split: prod.splits sum.splits)
qed

lemma remove_member_fails:
  assumes "remove_member E i t a = (Inl e, b)"
  shows "key_failure e \<and> stranded a b \<or> b = a"
  using assms
  by (auto simp: remove_member_def elim!: tryS_cases dest!: begin_fails split: if_splits prod.splits option.splits
      intro: stranded_frame)

lemma keeps_rekeyed:
  "rekeyed a1 acts b \<Longrightarrow> ra_epoch b' = ra_epoch b \<Longrightarrow> ra_state b' = ra_state b \<Longrightarrow>
   ra_pending_epoch b' = ra_pending_epoch b \<Longrightarrow> ra_members b' = ra_members b \<Longrightarrow>
   ra_epoch a = ra_epoch a1 \<Longrightarrow> epoch_wraps acts' = epoch_wraps acts \<Longrightarrow> keeps_or_rekeys a (Inr acts', b')"
  using rekeyed_frame [of a1 acts b b' a acts'] by (simp add: keeps_or_rekeys_def)

lemma keeps_frame:
  "ra_members (snd res) = ra_members a \<Longrightarrow> ra_epoch (snd res) = ra_epoch a \<Longrightarrow>
   ra_state (snd res) = ra_state a \<Longrightarrow> ra_pending_epoch (snd res) = ra_pending_epoch a \<Longrightarrow>
   ra_policy (snd res) = ra_policy a \<Longrightarrow> ra_epoch_key (snd res) = ra_epoch_key a \<Longrightarrow> keeps_or_rekeys a res"
  by (rule keeps_calm) (simp add: calm_def member_ids_def)

text \<open>
  The continuation of a removal adds actions that carry no key and touches neither the members
  nor the epoch.
\<close>

definition wraps_up :: "(member option \<times> room_action list \<Rightarrow> room_actor \<Rightarrow> room_result) \<Rightarrow> bool" where
  "wraps_up f \<longleftrightarrow>
     (\<forall>r acts s. \<exists>acts' s'. f (r, acts) s = (Inr acts', s') \<and>
        (r \<noteq> None \<longrightarrow> epoch_wraps acts' = epoch_wraps acts) \<and>
        ra_epoch s' = ra_epoch s \<and> ra_state s' = ra_state s \<and>
        ra_pending_epoch s' = ra_pending_epoch s \<and> ra_members s' = ra_members s \<and>
        ra_policy s' = ra_policy s \<and> ra_epoch_key s' = ra_epoch_key s)"

lemma keeps_remove_member:
  assumes f: "wraps_up f" and a1: "ra_members a1 = ra_members a" "ra_epoch a1 = ra_epoch a"
    "ra_state a1 = ra_state a" "ra_pending_epoch a1 = ra_pending_epoch a" "ra_policy a1 = ra_policy a"
    "ra_epoch_key a1 = ra_epoch_key a"
  shows "keeps_or_rekeys a (tryS (remove_member E i t a1) f)"
proof (cases "remove_member E i t a1")
  case (Pair res b)
  show ?thesis
  proof (cases res)
    case (Inl e)
    with Pair remove_member_fails [of E i t a1 e b] a1 stranded_frame [of a1 b a] show ?thesis
      by (auto simp: keeps_or_rekeys_def calm_def member_ids_def)
  next
    case (Inr x)
    obtain r acts where x: "x = (r, acts)" by (cases x)
    with Pair Inr have rm: "remove_member E i t a1 = (Inr (r, acts), b)" by simp
    from f obtain acts' s' where s': "f (r, acts) b = (Inr acts', s')"
      "r \<noteq> None \<Longrightarrow> epoch_wraps acts' = epoch_wraps acts" "ra_epoch s' = ra_epoch b"
      "ra_state s' = ra_state b" "ra_pending_epoch s' = ra_pending_epoch b" "ra_members s' = ra_members b"
      "ra_policy s' = ra_policy b" "ra_epoch_key s' = ra_epoch_key b"
      unfolding wraps_up_def by blast
    show ?thesis
    proof (cases r)
      case None
      with remove_member_rekeys [OF rm] have "b = a1" by simp
      with s' a1 Pair Inr x show ?thesis by (simp add: keeps_frame)
    next
      case (Some m)
      with remove_member_rekeys [OF rm] have "rekeyed a1 acts b" by simp
      from keeps_rekeyed [OF this] s' a1 Some Pair Inr x show ?thesis by simp
    qed
  qed
qed

lemma member_ids_color [simp]:
  "map m_member_id (mt_members (table_set_color i c t)) = map m_member_id (mt_members t)"
  by (simp add: table_set_color_def map_update_first)

lemma keeps_leave: "keeps_or_rekeys a (on_leave E c a)"
  unfolding on_leave_def
  by (auto simp: keeps_frame split: option.splits intro!: keeps_remove_member)
    (auto simp: wraps_up_def split: option.splits)

lemma keeps_member_left: "keeps_or_rekeys a (on_member_left E i a)"
  unfolding on_member_left_def
  by (rule keeps_remove_member) (auto simp: wraps_up_def split: option.splits)

lemma keeps_kick: "keeps_or_rekeys a (on_kick E target a)"
  unfolding on_kick_def
  by (auto simp: keeps_frame split: option.splits sum.splits intro!: keeps_remove_member)
    (auto simp: wraps_up_def split: option.splits)

lemma keeps_rate_limited: "keeps_or_rekeys a (rate_limited E c i ab (a\<lparr>ra_rate_limits := rl\<rparr>))"
  unfolding rate_limited_def
  by (auto simp: Let_def keeps_frame split: sum.splits intro!: keeps_remove_member)
    (auto simp: wraps_up_def split: option.splits)

text \<open>Closing keeps the members and the epoch; so do acknowledgements and the policy.\<close>

definition same_members :: "room_actor \<Rightarrow> room_actor \<Rightarrow> bool" where
  "same_members a b \<longleftrightarrow> member_ids b = member_ids a \<and> ra_epoch b = ra_epoch a"

lemma calm_same: "calm a b \<Longrightarrow> same_members a b"
  by (simp add: calm_def same_members_def)

lemma same_close_room: "same_members a (snd (close_room E a))"
  by (simp add: close_room_def same_members_def member_ids_def)

lemma same_epoch_ack: "same_members a (snd (on_epoch_ack c e a))"
  by (simp add: on_epoch_ack_def same_members_def member_ids_def Let_def split: option.splits)

lemma keeps_connection_lost:
  "c \<noteq> ra_host_connection a \<Longrightarrow> keeps_or_rekeys a (on_connection_lost E c a)"
  unfolding on_connection_lost_def Let_def
  by (auto simp: keeps_frame split: option.splits prod.splits sum.splits
      intro!: keeps_remove_member)
    (auto simp: wraps_up_def split: option.splits)

text \<open>Handlers that touch no member.\<close>

lemma keeps_join_requested: "keeps_or_rekeys a (on_join_requested c ap a)"
  by (auto simp: on_join_requested_def keeps_frame split: option.splits prod.splits sum.splits)

lemma keeps_reject: "keeps_or_rekeys a (on_reject i a)"
  by (rule keeps_frame)
    (simp_all add: on_reject_def take_request_def tryS_def split: option.splits prod.splits sum.splits)

lemma keeps_color: "keeps_or_rekeys a (on_color c col a)"
  by (rule keeps_calm) (auto simp: on_color_def calm_def member_ids_def split: option.splits)

lemma close_admissions_frame [simp]:
  "ra_members (snd (close_admissions E a)) = ra_members a"
  "ra_epoch (snd (close_admissions E a)) = ra_epoch a"
  "ra_pending_epoch (snd (close_admissions E a)) = ra_pending_epoch a"
  "ra_epoch_key (snd (close_admissions E a)) = ra_epoch_key a"
  "ra_chat_replay (snd (close_admissions E a)) = ra_chat_replay a"
  "ra_state (snd (close_admissions E a)) = ra_state a"
  "ra_policy (snd (close_admissions E a)) = ra_policy a"
  by (simp_all add: close_admissions_def queue_drain_def Let_def)

lemma keeps_new_id: "keeps_or_rekeys a (on_new_id E a)"
  by (rule keeps_frame)
    (simp_all add: on_new_id_def room_random_def tryS_def case_prod_beta split: prod.splits sum.splits)

lemma same_set_policy: "same_members a (snd (set_policy E p a))"
  by (auto simp: set_policy_def Let_def case_prod_beta same_members_def member_ids_def)

lemma keeps_accept: "keeps_or_rekeys a (on_accept E i a)"
proof (cases "take_first (\<lambda>t. pt_request_id t = i) (ra_timeout_requests a)")
  case (Some p)
  then show ?thesis by (auto simp: on_accept_def intro: keeps_frame split: prod.splits)
next
  case None
  obtain res a1 where tr: "take_request i a = (res, a1)" by (metis surj_pair)
  then have a1: "ra_members a1 = ra_members a" "ra_epoch a1 = ra_epoch a" "ra_state a1 = ra_state a"
    "ra_pending_epoch a1 = ra_pending_epoch a" "ra_policy a1 = ra_policy a"
    "ra_epoch_key a1 = ra_epoch_key a"
    by (auto simp: take_request_def split: prod.splits)
  show ?thesis
  proof (cases res)
    case (Inl e)
    with None tr a1 show ?thesis by (simp add: on_accept_def keeps_frame)
  next
    case (Inr r)
    let ?c = "rq_connection r" and ?ap = "rq_application r"
    obtain ares M' where add: "table_add ?c (ap_nickname ?ap) (ap_ed25519_pubkey ?ap)
        (ap_x25519_pubkey ?ap) (ra_epoch a1 + 1) (ra_members a1) = (ares, M')" by (metis surj_pair)
    show ?thesis
    proof (cases ares)
      case (Inl e)
      with None tr \<open>res = Inr r\<close> add a1 show ?thesis by (simp add: on_accept_def Let_def keeps_frame)
    next
      case (Inr m)
      let ?a = "a1\<lparr>ra_members := M', ra_connections := snd (conn_promote ?c (m_member_id m)
          (conn_register ?c (ra_connections a1)))\<rparr>"
      obtain bres b where beg: "begin_epoch_transition E ?a = (bres, b)" by (metis surj_pair)
      show ?thesis
      proof (cases bres)
        case (Inl e)
        with beg have "key_failure e" "stranded ?a b" by (blast dest: begin_fails)+
        then have "key_failure e" "stranded a b" using a1 stranded_frame [of ?a b a] by simp_all
        with None tr \<open>res = Inr r\<close> add Inr beg Inl show ?thesis
          by (simp add: on_accept_def Let_def keeps_or_rekeys_def)
      next
        case (Inr wraps)
        with beg begin_ok [of E ?a wraps b] have "rekeyed ?a wraps b" by simp
        then have "keeps_or_rekeys a (Inr (RA_SendTo ?c (M_JoinAccepted \<lparr>ja_member_id = m_member_id m\<rparr>) #
            RA_NotifyHost (HN_MemberJoined (m_member_id m) (m_nickname m)) # wraps), queue_member_joined E m b)"
          by (rule keeps_rekeyed) (simp_all add: a1)
        with None tr \<open>res = Inr r\<close> add \<open>ares = Inr m\<close> beg Inr show ?thesis
          by (simp add: on_accept_def Let_def)
      qed
    qed
  qed
qed

lemma evict_frame [simp]:
  "ra_epoch (snd (evict_members ids a)) = ra_epoch a"
  "ra_state (snd (evict_members ids a)) = ra_state a"
  "ra_policy (snd (evict_members ids a)) = ra_policy a"
  "ra_epoch_key (snd (evict_members ids a)) = ra_epoch_key a"
  "ra_pending_epoch (snd (evict_members ids a)) = ra_pending_epoch a"
  "epoch_wraps (snd (fst (evict_members ids a))) = []"
  by (induction ids a rule: evict_members.induct) (auto split: option.splits prod.splits)

text \<open>A deadline that passes without the host's own acknowledgement closes the room.\<close>

definition host_stalled :: "room_actor \<Rightarrow> bool" where
  "host_stalled a \<longleftrightarrow> (\<exists>p. ra_pending_epoch a = Some p \<and> 0 \<in> set (pe_awaiting p))"

lemma keeps_epoch_timeout:
  "\<not> host_stalled a \<Longrightarrow> keeps_or_rekeys a (on_epoch_timeout E a)"
proof (cases "ra_pending_epoch a")
  case None
  then show ?thesis by (simp add: on_epoch_timeout_def keeps_frame)
next
  case (Some p)
  assume "\<not> host_stalled a"
  with Some have "0 \<notin> set (pe_awaiting p)" by (simp add: host_stalled_def)
  let ?a = "a\<lparr>ra_pending_epoch := None\<rparr>"
  obtain removed acts b where e: "evict_members (pe_awaiting p) ?a = ((removed, acts), b)"
    by (metis surj_pair)
  have b: "ra_epoch b = ra_epoch a" "epoch_wraps acts = []" "ra_state b = ra_state a" "ra_policy b = ra_policy a"
    "ra_epoch_key b = ra_epoch_key a" "ra_pending_epoch b = None"
    using evict_frame [of "pe_awaiting p" ?a] e by simp_all
  obtain res c where beg: "begin_epoch_transition E b = (res, c)" by (metis surj_pair)
  have "keeps_or_rekeys a (Inr (acts @ wraps), gone_all E removed c)" if "res = Inr wraps" for wraps
  proof -
    have "rekeyed b wraps c" using begin_ok beg that by blast
    then show ?thesis by (rule keeps_rekeyed) (simp_all add: b)
  qed
  moreover have "keeps_or_rekeys a (Inl x, c)" if "res = Inl x" for x
  proof -
    have "key_failure x" "stranded b c" using begin_fails [of E b x c] beg that by simp_all
    then show ?thesis using b stranded_frame [of b c a] by (simp add: keeps_or_rekeys_def)
  qed
  ultimately show ?thesis
    using Some e beg \<open>0 \<notin> set (pe_awaiting p)\<close>
    by (cases res) (auto simp: on_epoch_timeout_def Let_def gone_all_def [symmetric] keeps_frame)
qed

text \<open>Relaying changes neither the membership nor the lifecycle.\<close>

lemma relay_calm:
  "calm a (snd (on_color_payload c i env p a))"
  "calm a (snd (on_timeout_request_payload c i p a))"
  "calm a (snd (on_timeout_changed_payload c i env p a))"
  "calm a (snd (on_chat_payload c env p a))"
  by (simp_all add: on_color_payload_def on_timeout_request_payload_def calm_def member_ids_def
      on_timeout_changed_payload_def on_chat_payload_def relay_def Let_def
      split: sum.splits option.splits prod.splits)

lemma calm_frame:
  "calm a1 b \<Longrightarrow> ra_members a1 = ra_members a \<Longrightarrow> ra_epoch a1 = ra_epoch a \<Longrightarrow> ra_state a1 = ra_state a \<Longrightarrow>
   ra_pending_epoch a1 = ra_pending_epoch a \<Longrightarrow> ra_policy a1 = ra_policy a \<Longrightarrow>
   ra_epoch_key a1 = ra_epoch_key a \<Longrightarrow> calm a b"
  by (simp add: calm_def member_ids_def)

lemma relay_opened_calm: "calm a (snd (relay_opened E c i t env a))"
proof -
  let ?a = "a\<lparr>ra_chat_replay := snd (replay_accept i (ra_epoch a) (env_sender_sequence env) (ra_chat_replay a))\<rparr>"
  have "calm ?a b \<Longrightarrow> calm a b" for b by (erule calm_frame) simp_all
  then show ?thesis by (auto simp: relay_opened_def Let_def relay_calm split: sum.splits)
qed

lemma keeps_chat_received: "keeps_or_rekeys a (on_chat_received E c t env a)"
proof -
  have "keeps_or_rekeys a (relay_opened E c i t env (a\<lparr>ra_rate_limits := rl\<rparr>))" for i rl
    by (rule keeps_calm, rule calm_frame [OF relay_opened_calm]) simp_all
  moreover have "keeps_or_rekeys a (relay_opened E c i t env a)" for i
    by (rule keeps_calm, rule relay_opened_calm)
  ultimately show ?thesis
    by (auto simp: on_chat_received_def Let_def keeps_rate_limited keeps_frame
        split: option.splits prod.splits)
qed

lemma keeps_reject_transition: "keeps_or_rekeys a (reject_during_transition c a)"
  by (auto simp: reject_during_transition_def keeps_frame split: sum.splits)

lemmas keeps_handlers =
  keeps_leave keeps_member_left keeps_kick keeps_connection_lost keeps_join_requested keeps_reject
  keeps_color keeps_new_id keeps_accept keeps_epoch_timeout keeps_chat_received
  keeps_reject_transition keeps_frame

text \<open>
  The events that move the lifecycle without rekeying: an acknowledgement, a policy command and
  whatever closes the room.
\<close>

definition closes :: "room_actor \<Rightarrow> room_event \<Rightarrow> bool" where
  "closes a ev \<longleftrightarrow>
     ev = EV_CloseRequested \<or> ev = EV_TorStopped \<or> ev = EV_ConnectionLost (ra_host_connection a) \<or>
     (\<exists>k. ev = EV_TimeoutExpired (ra_host_connection a) k) \<or>
     (host_stalled a \<and> (ev = EV_EpochMaintenance \<or> (\<exists>c. ev = EV_TimeoutExpired c TK_EpochAcknowledgement)))"

definition lifecycle_event :: "room_actor \<Rightarrow> room_event \<Rightarrow> bool" where
  "lifecycle_event a ev \<longleftrightarrow>
     closes a ev \<or> (\<exists>c e. ev = EV_EpochAck c e) \<or> ev = EV_HostCommand HC_ReqOn \<or>
     ev = EV_HostCommand HC_ReqOff"

lemma keeps_host_command:
  "cmd \<noteq> HC_ReqOn \<Longrightarrow> cmd \<noteq> HC_ReqOff \<Longrightarrow> keeps_or_rekeys a (on_host_command E cmd a)"
  by (cases cmd) (simp_all add: keeps_handlers)

lemma keeps_member_command: "keeps_or_rekeys a (on_member_command E c cmd a)"
  by (cases cmd) (simp_all add: keeps_handlers split: sum.splits)

lemma keeps_dispatch:
  assumes "\<not> lifecycle_event a ev"
  shows "keeps_or_rekeys a (handle_in_transition E ev a)" "keeps_or_rekeys a (handle_settled E ev a)"
proof -
  show "keeps_or_rekeys a (handle_in_transition E ev a)"
    using assms
    by (cases "(E, ev, a)" rule: handle_in_transition.cases)
      (auto simp: keeps_handlers keeps_host_command lifecycle_event_def closes_def)
  show "keeps_or_rekeys a (handle_settled E ev a)"
    using assms
    by (cases ev) (auto simp: keeps_handlers keeps_host_command keeps_member_command
        lifecycle_event_def closes_def)
qed

lemma same_epoch_timeout: "host_stalled a \<Longrightarrow> same_members a (snd (on_epoch_timeout E a))"
  by (auto simp: on_epoch_timeout_def host_stalled_def close_room_def same_members_def member_ids_def Let_def)

lemma lifecycle_same:
  assumes "lifecycle_event a ev"
  shows "same_members a (snd (handle_in_transition E ev a)) \<or> keeps_or_rekeys a (handle_in_transition E ev a)"
    "same_members a (snd (handle_settled E ev a)) \<or> keeps_or_rekeys a (handle_settled E ev a)"
proof -
  have h: "same_members a (snd (on_connection_lost E (ra_host_connection a) a))"
    by (simp add: on_connection_lost_def same_close_room)
  show "same_members a (snd (handle_in_transition E ev a)) \<or> keeps_or_rekeys a (handle_in_transition E ev a)"
    using assms keeps_epoch_timeout [of a E] same_epoch_timeout [of a E]
    by (cases "host_stalled a") (auto simp: lifecycle_event_def closes_def same_close_room same_epoch_ack h keeps_frame)
  show "same_members a (snd (handle_settled E ev a)) \<or> keeps_or_rekeys a (handle_settled E ev a)"
    using assms keeps_connection_lost [of _ a E]
    by (auto simp: lifecycle_event_def closes_def same_close_room same_epoch_ack h same_set_policy
        keeps_frame) (metis h)
qed

lemma event_step:
  assumes "handle_event_at E ev now a = (res, b)"
  shows "same_members a b \<or> (case res of Inl e \<Rightarrow> key_failure e \<and> stranded a b | Inr acts \<Rightarrow> rekeyed a acts b)"
proof -
  let ?a = "a\<lparr>ra_now := now\<rparr>"
  have "same_members ?a b \<or> keeps_or_rekeys ?a (res, b)"
    using assms keeps_dispatch [of ?a ev E] lifecycle_same [of ?a ev E]
    by (auto simp: handle_event_at_def Let_def same_members_def split: if_splits)
  then have "same_members ?a b \<or> (case res of Inl e \<Rightarrow> key_failure e \<and> stranded ?a b | Inr acts \<Rightarrow> rekeyed ?a acts b)"
    by (auto simp: keeps_or_rekeys_def dest: calm_same split: sum.splits)
  then show ?thesis by (auto simp: same_members_def rekeyed_def stranded_def member_ids_def split: sum.splits)
qed


end
