(* ===== verification/ActorLife.thy ===== *)
theory ActorLife
  imports ActorEpoch
begin

text \<open>
  The room's lifecycle: the invariant of the epoch fields, the gates of the closed room and of the
  room in transition, completion of a transition by acknowledgements or by its deadline, and
  closing. \<open>demo_room\<close> is a concrete room on which the hypotheses of the properties hold.
\<close>

section \<open>A concrete room\<close>

text \<open>
  A room with the host (member 0, connection 0) and one participant (member 1, connection 7) in
  epoch 2, as it is once that participant was admitted and both acknowledged the epoch.
\<close>

definition demo_env :: room_env where
  "demo_env = \<lparr>en_crypto = plain_crypto, en_order = (\<lambda>xs. xs)\<rparr>"

definition demo_identity :: "u8 \<Rightarrow> identity" where
  "demo_identity b = \<lparr>id_ed25519 = replicate 32 b, id_x25519 = replicate 32 b\<rparr>"

definition demo_member :: "u64 \<Rightarrow> u64 \<Rightarrow> rstring \<Rightarrow> u8 \<Rightarrow> member" where
  "demo_member i c n b =
     \<lparr>m_member_id = i, m_connection = c, m_nickname = n, m_color = color_default,
      m_is_host = (i = 0), m_ed25519_pubkey = replicate 32 b, m_x25519_pubkey = replicate 32 b,
      m_joined_epoch = 2\<rparr>"

definition demo_entry :: "u64 \<Rightarrow> connection_role \<Rightarrow> u64 \<times> connection_entry" where
  "demo_entry c r = (c, \<lparr>ce_id = c, ce_password_verified = True, ce_role = r\<rparr>)"

definition demo_room :: room_actor where
  "demo_room =
     \<lparr>ra_session_id = replicate 32 9, ra_token = replicate 32 8, ra_state = RS_Open,
      ra_policy = JP_Open,
      ra_members = \<lparr>mt_limit = 16, mt_next_id = 2,
                    mt_members = [demo_member 0 0 [104] 1, demo_member 1 7 [97] 2]\<rparr>,
      ra_connections = [demo_entry 0 (CR_Member 0), demo_entry 7 (CR_Member 1)],
      ra_requests = \<lparr>qu_limit = 8, qu_next_id = 1, qu_requests = []\<rparr>,
      ra_timeout_requests = [], ra_room_timeout = None, ra_host_connection = 0,
      ra_host_identity = demo_identity 4, ra_timeouts = default_timeouts, ra_epoch = 2,
      ra_epoch_key = Some (replicate 32 5), ra_pending_epoch = None, ra_room_sequence = 6,
      ra_chat_replay = replay_new, ra_rate_limits = Map.empty, ra_pending_membership = [],
      ra_now = 0, ra_entropy = [Some [], Some [], Some [], Some []]\<rparr>"

lemmas demo_defs = demo_room_def demo_env_def demo_identity_def demo_member_def demo_entry_def

lemma demo_stores_ok: "stores_ok demo_room"
  by (simp add: stores_ok_def stores_wf_def demo_defs table_ok_def conn_ok_def queue_ok_def
      conn_role_def conn_get_def)

section \<open>The invariant of the epoch fields\<close>

text \<open>
  A live room is either settled, in the state of its policy and with an epoch key installed, or in
  transition, with a pending epoch that awaits some of its members.
\<close>

definition settled :: "room_actor \<Rightarrow> bool" where
  "settled a \<longleftrightarrow>
     ra_pending_epoch a = None \<and> ra_state a = (if ra_policy a = JP_Open then RS_Open else RS_Locked) \<and>
     (\<exists>k. ra_epoch_key a = Some k \<and> length k = EPOCH_KEY_LEN)"

definition in_transition :: "room_actor \<Rightarrow> bool" where
  "in_transition a \<longleftrightarrow>
     ra_state a = RS_EpochTransition \<and>
     (\<exists>p. ra_pending_epoch a = Some p \<and> pe_epoch p = ra_epoch a \<and> pe_awaiting p \<noteq> [] \<and>
        distinct (pe_awaiting p) \<and> set (pe_awaiting p) \<subseteq> set (member_ids a) \<and>
        length (pe_key p) = EPOCH_KEY_LEN)"

definition epoch_ok :: "room_actor \<Rightarrow> bool" where
  "epoch_ok a \<longleftrightarrow> ra_state a = RS_Destroyed \<or> settled a \<or> in_transition a"

text \<open>
  What a rekeying that failed during a transition leaves: the room is still in that state, with the superseded
  transition, or with none when the deadline had ended it.
\<close>

definition half_begun :: "room_actor \<Rightarrow> bool" where
  "half_begun a \<longleftrightarrow>
     ra_state a = RS_EpochTransition \<and>
     (\<forall>p. ra_pending_epoch a = Some p \<longrightarrow>
        pe_awaiting p \<noteq> [] \<and> distinct (pe_awaiting p) \<and> length (pe_key p) = EPOCH_KEY_LEN)"

text \<open>The invariant, for a room whose last rekeying succeeded (\<open>keyed\<close>) or failed.\<close>

definition lifecycle_ok :: "bool \<Rightarrow> room_actor \<Rightarrow> bool" where
  "lifecycle_ok keyed a \<longleftrightarrow>
     ra_state a = RS_Destroyed \<or> settled a \<or> (if keyed then in_transition a else half_begun a)"

lemma lifecycle_keyed: "lifecycle_ok True a \<longleftrightarrow> epoch_ok a"
  by (simp add: lifecycle_ok_def epoch_ok_def)

lemma epoch_ok_lifecycle: "epoch_ok a \<Longrightarrow> lifecycle_ok keyed a"
  by (auto simp: lifecycle_ok_def epoch_ok_def in_transition_def half_begun_def)

lemma calm_lifecycle:
  assumes "calm a b"
  shows "lifecycle_ok keyed b = lifecycle_ok keyed a"
proof -
  from assms have "settled b = settled a" "in_transition b = in_transition a" "half_begun b = half_begun a"
    "ra_state b = ra_state a"
    by (simp_all add: calm_def settled_def in_transition_def half_begun_def)
  then show ?thesis by (simp add: lifecycle_ok_def)
qed

lemma rekeyed_epoch_ok:
  assumes "rekeyed a acts b" and "stores_ok b"
  shows "epoch_ok b"
proof -
  from assms(2) have "member_ids b \<noteq> []" "distinct (member_ids b)"
    by (auto simp: stores_ok_def stores_wf_def table_ok_def member_ids_def)
  with assms(1) show ?thesis by (auto simp: epoch_ok_def in_transition_def rekeyed_def)
qed

lemma stranded_lifecycle: "stranded a b \<Longrightarrow> lifecycle_ok keyed a \<Longrightarrow> lifecycle_ok False b"
  by (auto simp: stranded_def lifecycle_ok_def settled_def in_transition_def half_begun_def split: if_splits)

text \<open>An event that moves the epoch has succeeded in rekeying or not; the others leave that as it was.\<close>

definition keyed_after :: "bool \<Rightarrow> room_actor \<Rightarrow> room_error + room_action list \<Rightarrow> room_actor \<Rightarrow> bool" where
  "keyed_after keyed a res b =
     (if ra_epoch b = ra_epoch a then keyed else case res of Inl _ \<Rightarrow> False | Inr _ \<Rightarrow> True)"

lemma keyed_after_refl [simp]: "keyed_after keyed a res a = keyed"
  by (simp add: keyed_after_def)

lemma keeps_lifecycle:
  assumes "keeps_or_rekeys a (res, b)" and "lifecycle_ok keyed a" and "stores_ok b"
  shows "lifecycle_ok (keyed_after keyed a res b) b"
proof -
  from assms(1) consider "calm a b" | e where "res = Inl e" "stranded a b" | acts where "res = Inr acts" "rekeyed a acts b"
    by (auto simp: keeps_or_rekeys_def split: sum.splits)
  then show ?thesis
  proof cases
    case 1
    with assms(2) calm_lifecycle [OF 1] show ?thesis by (simp add: keyed_after_def calm_def)
  next
    case 2
    with stranded_lifecycle [OF 2(2) assms(2)] show ?thesis by (simp add: keyed_after_def stranded_def)
  next
    case 3
    with epoch_ok_lifecycle [OF rekeyed_epoch_ok [OF 3(2) assms(3)]] show ?thesis
      by (simp add: keyed_after_def rekeyed_def)
  qed
qed

lemma close_room_lifecycle: "lifecycle_ok keyed (snd (close_room E a))"
  by (simp add: close_room_def lifecycle_ok_def)

lemma same_keyed: "same_members a b \<Longrightarrow> keyed_after keyed a res b = keyed"
  by (simp add: same_members_def keyed_after_def)

lemma epoch_ack_lifecycle:
  "lifecycle_ok keyed a \<Longrightarrow> ra_state a \<noteq> RS_Destroyed \<Longrightarrow> lifecycle_ok keyed (snd (on_epoch_ack c e a))"
  by (auto simp: on_epoch_ack_def lifecycle_ok_def settled_def in_transition_def half_begun_def member_ids_def Let_def
      split: option.splits if_splits)

lemma set_policy_lifecycle: "settled a \<Longrightarrow> lifecycle_ok keyed (snd (set_policy E p a))"
  by (auto simp: set_policy_def lifecycle_ok_def settled_def Let_def case_prod_beta)

lemma stalled_closes:
  "host_stalled a \<Longrightarrow> ra_state a = RS_Destroyed \<or> lifecycle_ok keyed a \<Longrightarrow> lifecycle_ok keyed (snd (on_epoch_timeout E a))"
  by (auto simp: on_epoch_timeout_def host_stalled_def Let_def close_room_lifecycle)
    (simp_all add: lifecycle_ok_def)

text \<open>The lifecycle events that leave the members and the epoch alone.\<close>

lemma quiet_lifecycle:
  assumes "lifecycle_ok keyed (snd x)" and "same_members a (snd x)" and "x = (res, b)"
  shows "lifecycle_ok (keyed_after keyed a res b) b"
  using assms by (simp add: same_keyed)

lemma dispatch_lifecycle:
  assumes "lifecycle_ok keyed a" and "stores_ok b" and "ra_state a \<noteq> RS_Destroyed"
    and "ra_state a = RS_EpochTransition \<and> handle_in_transition E ev a = (res, b) \<or>
      settled a \<and> handle_settled E ev a = (res, b)"
  shows "lifecycle_ok (keyed_after keyed a res b) b"
proof (cases "lifecycle_event a ev")
  case False
  with keeps_dispatch [OF this, of E] assms show ?thesis by (metis keeps_lifecycle)
next
  case True
  let ?goal = "lifecycle_ok (keyed_after keyed a res b) b"
  have host: "on_connection_lost E (ra_host_connection a) a = close_room E a"
    by (simp add: on_connection_lost_def)
  have close: ?goal if "close_room E a = (res, b)"
    using quiet_lifecycle [OF close_room_lifecycle same_close_room that] .
  have maint: ?goal if "on_epoch_timeout E a = (res, b)"
    using that keeps_epoch_timeout [of a E] keeps_lifecycle [OF _ assms(1,2)]
      quiet_lifecycle [OF stalled_closes same_epoch_timeout that] assms(1)
    by (cases "host_stalled a") auto
  have lost: ?goal if "on_connection_lost E c a = (res, b)" for c
    using that keeps_connection_lost [of c a E] keeps_lifecycle [OF _ assms(1,2)] host close
    by (cases "c = ra_host_connection a") auto
  have ack: ?goal if "on_epoch_ack c e a = (res, b)" for c e
    using quiet_lifecycle [OF epoch_ack_lifecycle [OF assms(1,3)] same_epoch_ack that] .
  have policy: ?goal if "set_policy E p a = (res, b)" "settled a" for p
    using quiet_lifecycle [OF set_policy_lifecycle [OF that(2)] same_set_policy that(1)] .
  from assms(4) show ?thesis
  proof (elim disjE conjE)
    assume "handle_in_transition E ev a = (res, b)"
    with True maint lost ack close assms(1) show ?thesis
      by (auto simp: lifecycle_event_def closes_def split: if_splits)
  next
    assume "settled a" "handle_settled E ev a = (res, b)"
    with True maint lost ack close policy assms(1) show ?thesis
      by (auto simp: lifecycle_event_def closes_def split: if_splits)
  qed
qed

lemma handle_event_lifecycle:
  assumes "lifecycle_ok keyed a" and "stores_ok b" and "handle_event_at E ev now a = (res, b)"
  shows "lifecycle_ok (keyed_after keyed a res b) b"
proof -
  let ?a = "a\<lparr>ra_now := now\<rparr>"
  have "calm a ?a" by (simp add: calm_def member_ids_def)
  from calm_lifecycle [OF this] assms(1)
  have a: "lifecycle_ok keyed ?a" "keyed_after keyed ?a res b = keyed_after keyed a res b"
    by (simp_all add: keyed_after_def)
  show ?thesis
  proof (cases "ra_state a = RS_Closing \<or> ra_state a = RS_Destroyed")
    case True
    with assms(3) have "b = a \<or> b = ?a" by (auto simp: handle_event_at_def Let_def)
    with a assms(1) show ?thesis by (auto simp: keyed_after_def)
  next
    case False
    with a(1) have "ra_state ?a = RS_EpochTransition \<or> settled ?a \<and> ra_state a \<noteq> RS_EpochTransition"
      by (auto simp: lifecycle_ok_def in_transition_def half_begun_def settled_def split: if_splits)
    with False assms(3) have "ra_state ?a = RS_EpochTransition \<and> handle_in_transition E ev ?a = (res, b) \<or>
        settled ?a \<and> handle_settled E ev ?a = (res, b)"
      by (auto simp: handle_event_at_def Let_def)
    from dispatch_lifecycle [OF a(1) assms(2) _ this] False a(2) show ?thesis by simp
  qed
qed

section \<open>Rooms that the actor can reach\<close>

text \<open>
  The rooms that come from \<open>RoomActor::create\<close> and \<open>start\<close> by events, in any order and at any time, successful
  or failed, with the memory whether the last attempt to rekey succeeded (a failed one leaves a half-begun
  transition behind, see \<open>failed_rekey_strands_room\<close>). The one side condition of a step: no 64-bit id counter
  has run out.
\<close>

inductive room_reaches :: "room_env \<Rightarrow> bool \<Rightarrow> room_actor \<Rightarrow> bool" for E where
  start: "room_create nfc (en_crypto E) l hc n hi ci ts es = (Inr a, es') \<Longrightarrow> 0 < max_active_members l \<Longrightarrow>
    room_start E a = (Inr acts, b) \<Longrightarrow> room_reaches E True b"
| step: "room_reaches E keyed a \<Longrightarrow> ids_left a \<Longrightarrow> handle_event_at E ev now a = (res, b) \<Longrightarrow>
    room_reaches E (keyed_after keyed a res b) b"

lemma room_create_new:
  assumes "room_create nfc C l hc n hi ci ts es = (Inr a, es')"
  shows "ra_state a = RS_Creating \<and> ra_epoch a = 0 \<and> ra_host_connection a = hc \<and> ra_connections a = conn_new \<and>
    ra_requests a = queue_new l \<and> ra_timeout_requests a = [] \<and> ra_host_identity a = hi \<and>
    (\<exists>n'. validate_nickname nfc n l = Inr n' \<and>
       ra_members a = snd (table_add_host hc n' (identity_ed25519_pubkey C ci)
         (identity_x25519_pubkey C ci) (table_new l)))"
  using assms by (auto simp: room_create_def Let_def split: sum.splits prod.splits)

lemma room_start_rekeys:
  assumes "room_start E a = (Inr acts, b)"
  shows "rekeyed a acts b" "ra_state a = RS_Creating"
    "ra_members b = ra_members a" "ra_requests b = ra_requests a"
    "ra_timeout_requests b = ra_timeout_requests a" "ra_host_connection b = ra_host_connection a"
    "ra_connections b = snd (conn_promote (ra_host_connection a) 0
       (conn_register (ra_host_connection a) (ra_connections a)))"
proof -
  let ?a = "a\<lparr>ra_connections := snd (conn_promote (ra_host_connection a) 0
       (conn_register (ra_host_connection a) (ra_connections a)))\<rparr>"
  from assms obtain acts1 where st: "ra_state a = RS_Creating" and
    beg: "begin_epoch_transition E ?a = (Inr acts1, b)" and
    acts: "acts = RA_NotifyHost (HN_InvitationRotated (ra_token a)) # acts1"
    by (auto simp: room_start_def Let_def elim!: tryS_cases split: if_splits)
  show "ra_state a = RS_Creating" using st .
  from begin_ok [OF beg] have "rekeyed ?a acts1 b" by simp
  then show "rekeyed a acts b" by (rule rekeyed_frame) (simp_all add: acts)
  show "ra_members b = ra_members a" "ra_requests b = ra_requests a"
    "ra_timeout_requests b = ra_timeout_requests a" "ra_host_connection b = ra_host_connection a"
    "ra_connections b = snd (conn_promote (ra_host_connection a) 0
       (conn_register (ra_host_connection a) (ra_connections a)))"
    using begin_frame [of E ?a] beg by simp_all
qed

lemma started_stores_ok:
  assumes "room_create nfc (en_crypto E) l hc n hi ci ts es = (Inr a, es')" and "0 < max_active_members l"
    and "room_start E a = (Inr acts, b)"
  shows "stores_ok b"
proof -
  note c = room_create_new [OF assms(1)] and s = room_start_rekeys [OF assms(3)]
  then obtain ed x n' where m: "ra_members b = snd (table_add_host hc n' ed x (table_new l))" by auto
  have "table_ok (ra_members b)" unfolding m by (rule table_ok_add_host) (rule assms(2))
  then show ?thesis
    using c s unfolding stores_ok_def stores_wf_def m
    by (auto simp: conn_role_laws queue_ok_def queue_new_def table_add_host_def table_new_def Let_def)
qed

lemma room_reaches_ok:
  assumes "order_ok (en_order E)" and "room_reaches E keyed a"
  shows "stores_ok a \<and> lifecycle_ok keyed a"
  using assms(2)
proof induction
  case (start nfc l hc n hi ci ts es a es' acts b)
  from started_stores_ok [OF start(1-3)] room_start_rekeys(1) [OF start(3)] show ?case
    by (auto intro: epoch_ok_lifecycle rekeyed_epoch_ok)
next
  case (step keyed a ev now res b)
  have "stores_ok b"
    using handle_event_stores [of a E ev now] step assms(1) by simp
  with step show ?case by (auto intro: handle_event_lifecycle)
qed

section \<open>Runs of events\<close>

fun run_events :: "room_env \<Rightarrow> (room_event \<times> duration) list \<Rightarrow> room_actor \<Rightarrow>
    (room_error + room_action list) list \<times> room_actor" where
  "run_events E [] a = ([], a)"
| "run_events E ((ev, t) # evs) a =
     (case handle_event_at E ev t a of
        (r, b) \<Rightarrow> (case run_events E evs b of (out, c) \<Rightarrow> (r # out, c)))"

text \<open>The actions of the successful events, in order.\<close>

fun sent :: "(room_error + room_action list) list \<Rightarrow> room_action list" where
  "sent [] = []"
| "sent (Inl e # out) = sent out"
| "sent (Inr acts # out) = acts @ sent out"

section \<open>Acknowledgements\<close>

definition ack_events :: "(u64 \<times> u64 \<times> duration) list \<Rightarrow> (room_event \<times> duration) list" where
  "ack_events acks = map (\<lambda>(c, e, t). (EV_EpochAck c e, t)) acks"

text \<open>The members that a list of acknowledgements (connection, epoch, time) covers.\<close>

fun acked_by :: "connections \<Rightarrow> u64 \<Rightarrow> (u64 \<times> u64 \<times> duration) list \<Rightarrow> u64 list" where
  "acked_by cs epoch [] = []"
| "acked_by cs epoch ((c, e, t) # acks) =
     (if e = epoch then (case conn_member_id c cs of Some i \<Rightarrow> [i] | None \<Rightarrow> []) else []) @
     acked_by cs epoch acks"

definition activated :: "pending_epoch \<Rightarrow> room_actor \<Rightarrow> room_actor" where
  "activated p a =
     a\<lparr>ra_pending_epoch := None, ra_epoch_key := Some (pe_key p),
       ra_state := (if ra_policy a = JP_Open then RS_Open else RS_Locked), ra_pending_membership := []\<rparr>"

definition activation_actions :: "room_actor \<Rightarrow> room_action list" where
  "activation_actions a =
     ra_pending_membership a @
     (case ra_room_timeout a of None \<Rightarrow> [] | Some s \<Rightarrow> [RA_NotifyHost (HN_TimeoutRebroadcast s)])"

definition still_awaiting :: "u64 list \<Rightarrow> pending_epoch \<Rightarrow> pending_epoch" where
  "still_awaiting acked p = p\<lparr>pe_awaiting := filter (\<lambda>i. i \<notin> set acked) (pe_awaiting p)\<rparr>"

lemma filter_eq_iff_length: "length (filter P xs) = length xs \<longleftrightarrow> filter P xs = xs"
  by (metis filter_id_conv length_filter_less less_irrefl)

lemma ack_one:
  assumes "ra_pending_epoch a = Some p" and "pe_awaiting p \<noteq> []"
    and q: "q = still_awaiting (acked_by (ra_connections a) (pe_epoch p) [(c, e, t)]) p"
  shows "on_epoch_ack c e a =
    (if pe_awaiting q = [] then (Inr (activation_actions a), activated p a)
     else (Inr [], a\<lparr>ra_pending_epoch := Some q\<rparr>))"
proof (cases "e = pe_epoch p")
  case False
  then have "q = p" by (simp add: q still_awaiting_def)
  with assms(1,2) False show ?thesis by (simp add: on_epoch_ack_def)
next
  case True
  show ?thesis
  proof (cases "conn_member_id c (ra_connections a)")
    case None
    with True have "q = p" by (simp add: q still_awaiting_def)
    with assms(1,2) True None show ?thesis by (simp add: on_epoch_ack_def)
  next
    case (Some i)
    with True have q': "q = p\<lparr>pe_awaiting := filter (\<lambda>j. j \<noteq> i) (pe_awaiting p)\<rparr>"
      by (simp add: q still_awaiting_def)
    show ?thesis
      using assms(1,2) True Some unfolding q'
      by (cases "filter (\<lambda>j. j \<noteq> i) (pe_awaiting p) = []")
        (auto simp: on_epoch_ack_def activated_def activation_actions_def Let_def)
  qed
qed

lemma still_awaiting_subset:
  "set (pe_awaiting (still_awaiting xs p)) \<subseteq> set ys \<longleftrightarrow> set (pe_awaiting p) \<subseteq> set (xs @ ys)"
  by (auto simp: still_awaiting_def)

lemma still_awaiting_twice: "still_awaiting ys (still_awaiting xs p) = still_awaiting (xs @ ys) p"
  by (auto simp: still_awaiting_def intro: filter_cong)

lemma acks_after:
  "ra_pending_epoch a = None \<Longrightarrow> ra_state a = RS_Open \<or> ra_state a = RS_Locked \<Longrightarrow>
   \<exists>t out. run_events E (ack_events acks) a = (out, a\<lparr>ra_now := t\<rparr>) \<and> sent out = []"
proof (induction acks arbitrary: a)
  case Nil
  have "a\<lparr>ra_now := ra_now a\<rparr> = a" by simp
  then show ?case by (metis ack_events_def list.simps(8) run_events.simps(1) sent.simps(1))
next
  case (Cons x acks)
  obtain c e t where x: "x = (c, e, t)" by (cases x)
  have h: "handle_event_at E (EV_EpochAck c e) t a = (Inr [], a\<lparr>ra_now := t\<rparr>)"
    using Cons.prems by (auto simp: handle_event_at_def on_epoch_ack_def Let_def)
  from Cons.IH [of "a\<lparr>ra_now := t\<rparr>"] Cons.prems obtain t' out where
    "run_events E (ack_events acks) (a\<lparr>ra_now := t\<rparr>) = (out, a\<lparr>ra_now := t'\<rparr>)" "sent out = []"
    by auto
  then show ?case by (auto simp: ack_events_def x h)
qed

lemma acks_run:
  "ra_state a = RS_EpochTransition \<Longrightarrow> ra_pending_epoch a = Some p \<Longrightarrow> pe_awaiting p \<noteq> [] \<Longrightarrow>
   \<exists>t out. run_events E (ack_events acks) a =
      (out, (if set (pe_awaiting p) \<subseteq> set (acked_by (ra_connections a) (pe_epoch p) acks)
             then activated p a
             else a\<lparr>ra_pending_epoch := Some
                      (still_awaiting (acked_by (ra_connections a) (pe_epoch p) acks) p)\<rparr>)\<lparr>ra_now := t\<rparr>) \<and>
     sent out = (if set (pe_awaiting p) \<subseteq> set (acked_by (ra_connections a) (pe_epoch p) acks)
                 then activation_actions a else [])"
proof (induction acks arbitrary: a p)
  case Nil
  have "a\<lparr>ra_pending_epoch := Some (still_awaiting [] p), ra_now := ra_now a\<rparr> = a"
    using Nil by (simp add: still_awaiting_def)
  with Nil show ?case by (auto simp: ack_events_def intro!: exI [of _ "ra_now a"])
next
  case (Cons x acks)
  obtain c e t where x: "x = (c, e, t)" by (cases x)
  let ?a = "a\<lparr>ra_now := t\<rparr>" and ?one = "acked_by (ra_connections a) (pe_epoch p) [(c, e, t)]"
  let ?q = "still_awaiting ?one p"
  have split: "acked_by (ra_connections a) (pe_epoch p) (x # acks) =
      ?one @ acked_by (ra_connections a) (pe_epoch p) acks" by (simp add: x)
  have h: "handle_event_at E (EV_EpochAck c e) t a =
      (if pe_awaiting ?q = [] then (Inr (activation_actions a), activated p ?a)
       else (Inr [], ?a\<lparr>ra_pending_epoch := Some ?q\<rparr>))"
    using Cons.prems ack_one [of ?a p ?q c e t]
    by (simp add: handle_event_at_def Let_def activation_actions_def)
  have sub: "set (pe_awaiting ?q) \<subseteq> set (acked_by (ra_connections a) (pe_epoch p) acks) \<longleftrightarrow>
      set (pe_awaiting p) \<subseteq> set (acked_by (ra_connections a) (pe_epoch p) (x # acks))"
    unfolding split by (rule still_awaiting_subset)
  show ?case
  proof (cases "pe_awaiting ?q = []")
    case True
    then have all: "set (pe_awaiting p) \<subseteq> set (acked_by (ra_connections a) (pe_epoch p) (x # acks))"
      using sub by simp
    have "ra_pending_epoch (activated p ?a) = None"
      "ra_state (activated p ?a) = RS_Open \<or> ra_state (activated p ?a) = RS_Locked"
      by (simp_all add: activated_def)
    from acks_after [OF this] obtain t' out where
      "run_events E (ack_events acks) (activated p ?a) = (out, (activated p ?a)\<lparr>ra_now := t'\<rparr>)"
      "sent out = []" by blast
    with True h have "run_events E (ack_events (x # acks)) a =
        (Inr (activation_actions a) # out, (activated p ?a)\<lparr>ra_now := t'\<rparr>)"
      by (simp add: x ack_events_def)
    moreover have "(activated p ?a)\<lparr>ra_now := t'\<rparr> = (activated p a)\<lparr>ra_now := t'\<rparr>"
      by (simp add: activated_def)
    ultimately show ?thesis using all \<open>sent out = []\<close>
      by (intro exI [of _ t'] exI [of _ "Inr (activation_actions a) # out"]) simp
  next
    case False
    let ?b = "?a\<lparr>ra_pending_epoch := Some ?q\<rparr>"
    have b: "ra_state ?b = RS_EpochTransition" "ra_pending_epoch ?b = Some ?q"
      and conn: "ra_connections ?b = ra_connections a" using Cons.prems by simp_all
    from Cons.IH [OF b False] obtain t' out where
      r: "run_events E (ack_events acks) ?b =
        (out, (if set (pe_awaiting ?q) \<subseteq> set (acked_by (ra_connections a) (pe_epoch ?q) acks)
             then activated ?q ?b
             else ?b\<lparr>ra_pending_epoch := Some
                      (still_awaiting (acked_by (ra_connections a) (pe_epoch ?q) acks) ?q)\<rparr>)\<lparr>ra_now := t'\<rparr>)"
      "sent out = (if set (pe_awaiting ?q) \<subseteq> set (acked_by (ra_connections a) (pe_epoch ?q) acks)
                 then activation_actions ?b else [])"
      unfolding conn by blast
    have ep: "pe_epoch ?q = pe_epoch p" "activated ?q ?b = activated p ?a"
      "activation_actions ?b = activation_actions a"
      "still_awaiting (acked_by (ra_connections a) (pe_epoch p) acks) ?q =
        still_awaiting (acked_by (ra_connections a) (pe_epoch p) (x # acks)) p"
      unfolding split
      by (simp_all only: still_awaiting_twice) (simp_all add: still_awaiting_def activated_def activation_actions_def
        del: acked_by.simps)
    have run: "run_events E (ack_events (x # acks)) a = (Inr [] # out, snd (run_events E (ack_events acks) ?b))"
      using h False r by (simp add: x ack_events_def)
    show ?thesis
      unfolding run r(1) snd_conv using r(2) unfolding ep sub
      by (intro exI [of _ t'] exI [of _ "Inr [] # out"]) (simp add: activated_def)
  qed
qed

text \<open>
  C23: a transition completes exactly when every awaited member has acknowledged it. Any list of
  acknowledgements, from any connections, for any epochs, in any order and with repetitions,
  either covers the awaited members (those whose connection acknowledged the pending epoch): then
  the pending key is installed, the room is back in the state of its policy, and everything that
  was held back was sent exactly once; or it does not: then the room still waits for the members
  not covered and nothing was sent.
\<close>

theorem acks_complete_transition:
  assumes "in_transition a" and "ra_pending_epoch a = Some p"
  shows "\<exists>t out. run_events E (ack_events acks) a =
      (out, (if set (pe_awaiting p) \<subseteq> set (acked_by (ra_connections a) (pe_epoch p) acks)
             then activated p a
             else a\<lparr>ra_pending_epoch := Some
                      (still_awaiting (acked_by (ra_connections a) (pe_epoch p) acks) p)\<rparr>)\<lparr>ra_now := t\<rparr>) \<and>
     sent out = (if set (pe_awaiting p) \<subseteq> set (acked_by (ra_connections a) (pe_epoch p) acks)
                 then activation_actions a else [])"
  using assms by (intro acks_run) (auto simp: in_transition_def)

definition demo_rotating :: room_actor where
  "demo_rotating = demo_room\<lparr>ra_state := RS_EpochTransition, ra_epoch := 3, ra_pending_epoch := Some
     \<lparr>pe_epoch = 3, pe_key = replicate 32 6, pe_awaiting = [0, 1], pe_started_at = 0\<rparr>\<rparr>"

lemma demo_in_transition: "in_transition demo_rotating"
  by (simp add: in_transition_def demo_rotating_def demo_defs member_ids_def EPOCH_KEY_LEN_def)

lemma acks_complete_transition_witness:
  "in_transition demo_rotating \<and>
   (\<exists>t out. run_events demo_env (ack_events [(7, 3, 1), (0, 2, 2), (0, 3, 3)]) demo_rotating =
     (out, (activated \<lparr>pe_epoch = 3, pe_key = replicate 32 6, pe_awaiting = [0, 1], pe_started_at = 0\<rparr>
        demo_rotating)\<lparr>ra_now := t\<rparr>))"
proof -
  let ?p = "\<lparr>pe_epoch = 3, pe_key = replicate 32 6, pe_awaiting = [0, 1], pe_started_at = 0\<rparr>"
  have p: "ra_pending_epoch demo_rotating = Some ?p" by (simp add: demo_rotating_def)
  have cover: "set (pe_awaiting ?p) \<subseteq> set (acked_by (ra_connections demo_rotating) (pe_epoch ?p) [(7, 3, 1), (0, 2, 2), (0, 3, 3)])"
    by (simp add: demo_rotating_def demo_defs conn_member_id_def conn_get_def)
  show ?thesis
    using acks_complete_transition [OF demo_in_transition p, of demo_env "[(7, 3, 1), (0, 2, 2), (0, 3, 3)]"]
      demo_in_transition unfolding if_P [OF cover] by blast
qed

section \<open>The properties at concrete rooms\<close>

lemmas demo_run = handle_event_at_def on_connection_lost_def conn_member_id_def conn_get_def
  remove_member_def table_remove_def begin_epoch_transition_def room_random_def epoch_key_generate_def
  fill_random_def try_wrap_key_for_def derive_checked_def plain_crypto_def wrap_epoch_key_def
  epoch_wrap_new_def length_constants pad_def Let_def member_ids_def

lemma demo_leave:
  "\<exists>acts b. handle_event_at demo_env (EV_ConnectionLost 7) 0 demo_room = (Inr acts, b) \<and>
     member_ids b = [0] \<and> member_ids demo_room = [0, 1]"
  by (simp add: demo_run demo_defs)


lemma demo_order: "order_ok (en_order demo_env)"
  by (simp add: order_ok_def demo_env_def)

lemma demo_ids_left: "ids_left demo_room"
  by (simp add: ids_left_def demo_defs)

lemma handle_event_stores_ok_witness:
  "stores_ok demo_room \<and> stores_ok (snd (handle_event_at demo_env (EV_ConnectionLost 7) 0 demo_room))"
  using demo_stores_ok handle_event_stores_ok [OF demo_stores_ok demo_ids_left demo_order] by blast


lemma demo_nickname: "validate_nickname (\<lambda>s. s) [104] default_limits = Inr [104]"
  by (simp add: validate_nickname_def Let_def contains_control_char_def
      is_unsafe_display_char_def char_is_control_def is_dangerous_format_char_def
      char_is_whitespace_def collapse_spaces_def push_word_def default_limits_def)

lemma demo_started:
  "\<exists>a es acts b. room_create (\<lambda>s. s) plain_crypto default_limits 0 [104] (demo_identity 4) (demo_identity 3)
     default_timeouts [Some [], Some [], Some [], Some []] = (Inr a, es) \<and>
     room_start demo_env a = (Inr acts, b) \<and> ra_state b = RS_EpochTransition \<and> ra_epoch b = 1 \<and> ids_left b \<and>
     ra_host_connection b = 0 \<and> conn_member_id 0 (ra_connections b) = Some 0 \<and> ra_policy b = JP_Open \<and>
     (\<exists>k t. ra_pending_epoch b = Some \<lparr>pe_epoch = 1, pe_key = k, pe_awaiting = [0], pe_started_at = t\<rparr>)"
  by (simp add: room_create_def demo_nickname room_start_def conn_new_def table_add_host_def table_new_def
      conn_promote_def conn_register_def conn_modify_def ids_left_def queue_new_def demo_run demo_defs)


end
