(* ===== verification/ActorRules.thy ===== *)
theory ActorRules
  imports ActorLife "HOL-Library.Sublist"
begin

text \<open>
  What the room actor promises to its host and members about admission, removal, deadlines and
  closing: what accepting an application does, that a locked room and a room in transition admit
  nobody, that a passed deadline removes exactly the members that stalled, and that closing reaches
  every connection and is final. Also when beginning a transition succeeds, and what a failure
  leaves behind.
\<close>

section \<open>Closing\<close>

definition live :: "room_actor \<Rightarrow> bool" where
  "live a \<longleftrightarrow> ra_state a \<noteq> RS_Closing \<and> ra_state a \<noteq> RS_Destroyed"

lemma handle_event_closed:
  "\<not> live a \<Longrightarrow> handle_event_at E ev now a = (Inl RE_RoomClosed, a\<lparr>ra_now := now\<rparr>)"
  by (auto simp: live_def handle_event_at_def Let_def)

lemma run_closed: "\<not> live a \<Longrightarrow> set (fst (run_events E evs a)) \<subseteq> {Inl RE_RoomClosed}"
proof (induction evs arbitrary: a)
  case (Cons x evs)
  obtain ev t where x: "x = (ev, t)" by (cases x)
  have "\<not> live (a\<lparr>ra_now := t\<rparr>)" using Cons.prems by (simp add: live_def)
  from Cons.IH [OF this] show ?case
    using Cons.prems by (auto simp: x handle_event_closed split: prod.splits)
qed simp

lemma close_handled:
  assumes "live a" and "ev \<in> {EV_CloseRequested, EV_TorStopped, EV_ConnectionLost (ra_host_connection a)}"
  shows "handle_event_at E ev now a = close_room E (a\<lparr>ra_now := now\<rparr>)"
  using assms by (auto simp: handle_event_at_def live_def on_connection_lost_def Let_def)

lemma subseq_concat_map: "x \<in> set xs \<Longrightarrow> subseq (f x) (concat (map f xs) @ ys)"
proof (induction xs)
  case (Cons y xs)
  show ?case
  proof (cases "x = y")
    case True
    then show ?thesis by (simp add: prefix_imp_subseq)
  next
    case False
    with Cons have "subseq (f x) (concat (map f xs) @ ys)" by simp
    then show ?thesis by (simp add: list_emb_append2)
  qed
qed simp

text \<open>
  Closing reaches everybody and is final. When the host asks for it, when Tor stops, or when
  the host's own connection is lost, every registered connection (applicants included) is sent the
  shutdown message and then closed, the host is told last, and whatever happens afterwards, the
  room answers every event with \<open>RoomClosed\<close>.
\<close>

theorem closing_is_final:
  assumes "live a" and "order_ok (en_order E)"
    and "ev \<in> {EV_CloseRequested, EV_TorStopped, EV_ConnectionLost (ra_host_connection a)}"
  shows "\<exists>acts b. handle_event_at E ev now a = (Inr acts, b) \<and>
    (\<forall>c. conn_role c (ra_connections a) \<noteq> None \<longrightarrow> subseq [RA_SendTo c M_Shutdown, RA_CloseConnection c] acts) \<and>
    last acts = RA_NotifyHost HN_RoomClosed \<and>
    (\<forall>evs. set (fst (run_events E evs b)) \<subseteq> {Inl RE_RoomClosed})"
proof -
  let ?b = "a\<lparr>ra_now := now, ra_state := RS_Destroyed\<rparr>"
  let ?acts = "concat (map (\<lambda>c. [RA_SendTo c M_Shutdown, RA_CloseConnection c])
                 (conn_ids (en_order E) (ra_connections a))) @ [RA_NotifyHost HN_RoomClosed]"
  have "handle_event_at E ev now a = (Inr ?acts, ?b)"
    using assms(1) by (simp add: close_handled [OF assms(1,3)] close_room_def live_def)
  moreover have "subseq [RA_SendTo c M_Shutdown, RA_CloseConnection c] ?acts"
    if "conn_role c (ra_connections a) \<noteq> None" for c
    by (rule subseq_concat_map) (simp add: set_conn_ids [OF assms(2)] that)
  moreover have "set (fst (run_events E evs ?b)) \<subseteq> {Inl RE_RoomClosed}" for evs
    by (rule run_closed) (simp add: live_def)
  ultimately show ?thesis by (intro exI [of _ ?acts] exI [of _ ?b]) simp
qed

lemma closing_is_final_witness:
  "conn_role 7 (ra_connections demo_room) \<noteq> None \<and>
   (\<exists>acts b. handle_event_at demo_env EV_TorStopped 5 demo_room = (Inr acts, b) \<and>
      subseq [RA_SendTo 7 M_Shutdown, RA_CloseConnection 7] acts)"
proof -
  have "live demo_room" by (simp add: live_def demo_defs)
  from closing_is_final [OF this demo_order, of EV_TorStopped 5]
  show ?thesis by (auto simp: demo_defs conn_role_def conn_get_def)
qed

section \<open>Nobody is admitted during a transition\<close>

text \<open>The queued broadcasts that introduce a member: to the others, or the others to it.\<close>

fun introduces :: "room_action \<Rightarrow> bool" where
  "introduces (RA_SendTo _ (M_MemberJoined _)) \<longleftrightarrow> True"
| "introduces (RA_SendTo _ (M_MemberSnapshot _)) \<longleftrightarrow> True"
| "introduces _ \<longleftrightarrow> False"

definition retains :: "room_actor \<Rightarrow> room_actor \<Rightarrow> bool" where
  "retains a b \<longleftrightarrow>
     filter introduces (ra_pending_membership b) = filter introduces (ra_pending_membership a) \<and>
     set (member_ids b) \<subseteq> set (member_ids a) \<and>
     set (qu_requests (ra_requests b)) \<subseteq> set (qu_requests (ra_requests a)) \<and>
     ra_policy b = ra_policy a \<and> ra_token b = ra_token a"

text \<open>An acknowledgement that completes the transition releases the broadcasts; what it leaves alone.\<close>

definition freezes :: "room_actor \<Rightarrow> room_actor \<Rightarrow> bool" where
  "freezes a b \<longleftrightarrow>
     set (member_ids b) \<subseteq> set (member_ids a) \<and>
     set (qu_requests (ra_requests b)) \<subseteq> set (qu_requests (ra_requests a)) \<and>
     ra_policy b = ra_policy a \<and> ra_token b = ra_token a"

lemma retains_freezes: "retains a b \<Longrightarrow> freezes a b"
  by (simp add: retains_def freezes_def)

lemma retains_refl [simp]: "retains a a"
  by (simp add: retains_def)

lemma retains_frame:
  "ra_members b = ra_members a \<Longrightarrow> ra_requests b = ra_requests a \<Longrightarrow> ra_policy b = ra_policy a \<Longrightarrow>
   ra_token b = ra_token a \<Longrightarrow>
   filter introduces (ra_pending_membership b) = filter introduces (ra_pending_membership a) \<Longrightarrow> retains a b"
  by (simp add: retains_def member_ids_def)

lemma retains_trans: "retains a b \<Longrightarrow> retains b c \<Longrightarrow> retains a c"
  by (auto simp: retains_def)

lemmas retains_tryS = tryS_inv [where P = "retains a" for a]

lemma queue_broadcast_frame [simp]:
  "ra_policy (queue_member_gone E i t a) = ra_policy a" "ra_token (queue_member_gone E i t a) = ra_token a"
  "ra_policy (queue_member_joined E m a) = ra_policy a" "ra_token (queue_member_joined E m a) = ra_token a"
  by (simp_all add: queue_member_gone_def queue_member_joined_def queue_member_snapshot_def Let_def)

lemma gone_introduces [simp]:
  "filter introduces (ra_pending_membership (queue_member_gone E i t a)) = filter introduces (ra_pending_membership a)"
  by (simp add: queue_member_gone_def Let_def)

lemma gone_all_policy [simp]:
  "ra_policy (gone_all E ids a) = ra_policy a" "ra_token (gone_all E ids a) = ra_token a"
  "filter introduces (ra_pending_membership (gone_all E ids a)) = filter introduces (ra_pending_membership a)"
  unfolding gone_all_def by (induction ids arbitrary: a) simp_all

lemma table_remove_subset: "set (mt_members (snd (table_remove i t))) \<subseteq> set (mt_members t)"
  by (auto simp: table_remove_def split: option.splits dest: take_first_Some)

lemma retains_remove_member: "retains a (snd (remove_member E i t a))"
proof -
  have m: "set (map m_member_id (mt_members (snd (table_remove i (ra_members a))))) \<subseteq> set (member_ids a)"
    using table_remove_subset [of i "ra_members a"] by (auto simp: member_ids_def)
  have b: "retains a b \<Longrightarrow> retains a (snd (begin_epoch_transition E b))" for b
    by (erule retains_trans) (simp add: retains_frame)
  have g: "retains a b \<Longrightarrow> retains a (queue_member_gone E i t b)" for b
    by (erule retains_trans) (simp add: retains_frame)
  show ?thesis
    using m by (cases "table_remove i (ra_members a)")
      (auto simp: remove_member_def retains_def [of _ "_\<lparr>ra_members := _, ra_connections := _, ra_rate_limits := _\<rparr>"] member_ids_def
        split: option.splits intro!: retains_tryS b g)
qed

lemma retains_evict: "retains a (snd (evict_members ids a))"
proof (induction ids a rule: evict_members.induct)
  case (2 i ids a)
  show ?case
  proof (cases "table_remove i (ra_members a)")
    case (Pair r M')
    show ?thesis
    proof (cases r)
      case None
      with 2 Pair show ?thesis by simp
    next
      case (Some m)
      let ?a = "a\<lparr>ra_members := M', ra_connections := conn_remove (m_connection m) (ra_connections a),
                  ra_rate_limits := (ra_rate_limits a)(i := None)\<rparr>"
      have "retains a ?a"
        using table_remove_subset [of i "ra_members a"] Pair by (auto simp: retains_def member_ids_def)
      with 2(2) [OF Pair [symmetric] Some] Pair Some show ?thesis
        by (auto simp: case_prod_beta elim: retains_trans)
    qed
  qed
qed simp

lemma retains_close: "retains a (snd (close_room E a))"
  by (simp add: close_room_def retains_frame)

lemma retains_epoch_ack:
  "ra_state (snd (on_epoch_ack c e a)) = RS_EpochTransition \<Longrightarrow> retains a (snd (on_epoch_ack c e a))"
  by (auto simp: retains_def member_ids_def on_epoch_ack_def Let_def split: option.splits if_splits)

lemma freezes_epoch_ack: "freezes a (snd (on_epoch_ack c e a))"
  by (simp add: freezes_def member_ids_def on_epoch_ack_def Let_def split: option.splits)

lemma retains_epoch_timeout: "retains a (snd (on_epoch_timeout E a))"
proof (cases "ra_pending_epoch a")
  case None
  then show ?thesis by (simp add: on_epoch_timeout_def)
next
  case (Some p)
  let ?a = "a\<lparr>ra_pending_epoch := None\<rparr>"
  have a: "retains a ?a" by (simp add: retains_frame)
  obtain removed acts b where e: "evict_members (pe_awaiting p) ?a = ((removed, acts), b)"
    by (metis surj_pair)
  have b: "retains a b" using retains_trans [OF a retains_evict [of ?a "pe_awaiting p"]] e by simp
  have beg: "retains a (snd (begin_epoch_transition E b))"
    by (rule retains_trans [OF b]) (simp add: retains_frame)
  have gone: "retains a c \<Longrightarrow> retains a (gone_all E removed c)" for c
    by (erule retains_trans) (simp add: retains_frame)
  have c: "retains a (snd (close_room E ?a))" using a by (rule retains_trans) (rule retains_close)
  have "retains a (snd (tryS (begin_epoch_transition E b)
      (\<lambda>wraps a3. (Inr (acts @ wraps), gone_all E removed a3))))"
    by (rule retains_tryS [OF beg]) (simp add: gone)
  with Some e c show ?thesis by (simp add: on_epoch_timeout_def Let_def gone_all_def)
qed

text \<open>The four ways in which a lost connection is handled.\<close>

definition without_timeouts :: "u64 \<Rightarrow> room_actor \<Rightarrow> room_actor" where
  "without_timeouts c a =
     a\<lparr>ra_timeout_requests := filter (\<lambda>t. pt_connection t \<noteq> c) (ra_timeout_requests a)\<rparr>"

definition forget :: "u64 \<Rightarrow> room_actor \<Rightarrow> room_actor" where
  "forget c a = a\<lparr>ra_connections := conn_remove c (ra_connections a)\<rparr>"

lemma connection_lost_cases:
  obtains (host) "c = ra_host_connection a" "on_connection_lost E c a = close_room E a"
  | (member) i f where "on_connection_lost E c a =
      tryS (remove_member E i MSG_MEMBER_LEFT (without_timeouts c a)) (\<lambda>(r, wraps) b. (Inr (f r wraps), forget c b))"
  | (request) q acts where "on_connection_lost E c a =
      (Inr acts, forget c ((without_timeouts c a)\<lparr>ra_requests := snd (queue_take q (ra_requests a))\<rparr>))"
  | (other) acts where "on_connection_lost E c a = (Inr acts, forget c (without_timeouts c a))"
proof (cases "c = ra_host_connection a")
  case True
  then show thesis by (intro host) (simp_all add: on_connection_lost_def)
next
  case False
  note defs = on_connection_lost_def without_timeouts_def forget_def Let_def
  let ?acts = "map (\<lambda>i. RA_NotifyHost (HN_TimeoutRequestRejected i))
    (map pt_request_id (filter (\<lambda>t. pt_connection t = c) (ra_timeout_requests a)))"
  let ?f = "\<lambda>i r wraps. ?acts @ wraps @ (case r of None \<Rightarrow> [] | Some m \<Rightarrow> [RA_NotifyHost (HN_MemberLeft i (m_nickname m))])"
  show thesis
  proof (cases "conn_member_id c (ra_connections a)")
    case (Some i)
    with False show thesis by (intro member [of i "?f i"]) (simp add: defs)
  next
    case none: None
    show thesis
    proof (cases "by_connection c (ra_members a)")
      case (Some m)
      with False none show thesis by (intro member [of "m_member_id m" "?f (m_member_id m)"]) (simp add: defs)
    next
      case no_member: None
      show thesis
      proof (cases "conn_request_id c (ra_connections a)")
        case None
        with False none no_member show thesis by (intro other [of ?acts]) (simp add: defs)
      next
        case (Some q)
        obtain r rq where q: "queue_take q (ra_requests a) = (r, rq)" by (metis surj_pair)
        show thesis
        proof (cases r)
          case (Inl e)
          with False none no_member Some q show thesis by (intro request [of ?acts q]) (simp add: defs)
        next
          case (Inr x)
          with False none no_member Some q show thesis
            by (intro request [of "?acts @ [RA_NotifyHost (HN_JoinRequestWithdrawn q)]" q]) (simp add: defs)
        qed
      qed
    qed
  qed
qed

lemma retains_connection_lost: "retains a (snd (on_connection_lost E c a))"
proof -
  have w: "retains a (without_timeouts c a)" by (simp add: retains_frame without_timeouts_def)
  have f: "retains a b \<Longrightarrow> retains a (forget c b)" for b
    by (erule retains_trans) (simp add: retains_frame forget_def)
  show ?thesis
  proof (rule connection_lost_cases [of c a E])
    assume "on_connection_lost E c a = close_room E a"
    then show ?thesis by (simp add: retains_close)
  next
    fix i g
    assume member: "on_connection_lost E c a = tryS (remove_member E i MSG_MEMBER_LEFT (without_timeouts c a))
      (\<lambda>(r, wraps) b. (Inr (g r wraps), forget c b))"
    have "retains a (snd (remove_member E i MSG_MEMBER_LEFT (without_timeouts c a)))"
      using w by (rule retains_trans) (rule retains_remove_member)
    then show ?thesis unfolding member by (rule retains_tryS) (simp add: f case_prod_beta)
  next
    fix q acts
    assume request: "on_connection_lost E c a =
      (Inr acts, forget c ((without_timeouts c a)\<lparr>ra_requests := snd (queue_take q (ra_requests a))\<rparr>))"
    have "retains (without_timeouts c a)
        ((without_timeouts c a)\<lparr>ra_requests := snd (queue_take q (ra_requests a))\<rparr>)"
      by (auto simp: retains_def member_ids_def without_timeouts_def queue_take_def
          split: option.splits dest: take_first_Some)
    from retains_trans [OF w this] show ?thesis unfolding request snd_conv by (rule f)
  next
    fix acts
    assume other: "on_connection_lost E c a = (Inr acts, forget c (without_timeouts c a))"
    show ?thesis unfolding other snd_conv using w by (rule f)
  qed
qed

lemma image_ids_color [simp]:
  "m_member_id ` set (mt_members (table_set_color i c t)) = m_member_id ` set (mt_members t)"
  by (metis member_ids_color set_map)

lemma retains_payload:
  "retains a (snd (on_color_payload c i env p a))"
  "retains a (snd (on_timeout_request_payload c i p a))"
  "retains a (snd (on_timeout_changed_payload c i env p a))"
  "retains a (snd (on_chat_payload c env p a))"
  by (simp_all add: on_color_payload_def on_timeout_request_payload_def retains_def member_ids_def
      on_timeout_changed_payload_def on_chat_payload_def relay_def queue_allocate_id_def Let_def
      split: sum.splits option.splits prod.splits)

lemma retains_relay_opened: "retains a (snd (relay_opened E c i t env a))"
proof -
  let ?a = "a\<lparr>ra_chat_replay := snd (replay_accept i (ra_epoch a) (env_sender_sequence env) (ra_chat_replay a))\<rparr>"
  have "retains ?a b \<Longrightarrow> retains a b" for b by (simp add: retains_def member_ids_def)
  then show ?thesis by (auto simp: relay_opened_def Let_def retains_payload split: sum.splits)
qed

lemma retains_chat_received: "retains a (snd (on_chat_received E c t env a))"
proof -
  have limits: "retains (a\<lparr>ra_rate_limits := rl\<rparr>) b \<Longrightarrow> retains a b" for rl b
    by (simp add: retains_def member_ids_def)
  have "retains b (snd (rate_limited E c i ab b))" for i ab b
    by (auto simp: rate_limited_def Let_def case_prod_beta retains_remove_member
        split: sum.splits intro!: retains_tryS)
  then have "retains a (snd (rate_limited E c i ab (a\<lparr>ra_rate_limits := rl\<rparr>)))"
    "retains a (snd (relay_opened E c i t env (a\<lparr>ra_rate_limits := rl\<rparr>)))" for i ab rl
    using limits retains_relay_opened by blast+
  then show ?thesis
    by (auto simp: on_chat_received_def Let_def retains_relay_opened split: option.splits prod.splits)
qed

lemma transition_step:
  assumes "ra_state a = RS_EpochTransition"
  shows "retains a (snd (handle_event_at E ev now a)) \<or>
    freezes a (snd (handle_event_at E ev now a)) \<and> ra_state (snd (handle_event_at E ev now a)) \<noteq> RS_EpochTransition"
proof -
  let ?a = "a\<lparr>ra_now := now\<rparr>"
  have h: "handle_event_at E ev now a = handle_in_transition E ev ?a"
    using assms by (simp add: handle_event_at_def Let_def)
  have a: "retains ?a b \<Longrightarrow> retains a b" "freezes ?a b \<Longrightarrow> freezes a b" for b
    by (simp_all add: retains_def freezes_def member_ids_def)
  show ?thesis
  proof (cases "\<exists>c e. ev = EV_EpochAck c e")
    case True
    then obtain c e where "handle_in_transition E ev ?a = on_epoch_ack c e ?a" by auto
    then show ?thesis unfolding h using a retains_epoch_ack [of c e ?a] freezes_epoch_ack [of ?a c e] by metis
  next
    case False
    then have "retains ?a (snd (handle_in_transition E ev ?a))"
      by (cases "(E, ev, ?a)" rule: handle_in_transition.cases)
        (auto simp: retains_connection_lost retains_epoch_timeout retains_close
          retains_chat_received reject_during_transition_def split: sum.splits)
    then show ?thesis unfolding h using a by blast
  qed
qed

text \<open>
  While an epoch transition is running, nobody is admitted and nothing about admission
  changes: whatever the event and its outcome, the members afterwards are among the members
  before, the join requests among the requests before, and the policy and the invitation token
  are the same.
\<close>

theorem transition_freezes_admission:
  assumes "ra_state a = RS_EpochTransition"
  shows "set (member_ids (snd (handle_event_at E ev now a))) \<subseteq> set (member_ids a) \<and>
    set (qu_requests (ra_requests (snd (handle_event_at E ev now a)))) \<subseteq> set (qu_requests (ra_requests a)) \<and>
    ra_policy (snd (handle_event_at E ev now a)) = ra_policy a \<and>
    ra_token (snd (handle_event_at E ev now a)) = ra_token a"
  using transition_step [OF assms, of E ev now] retains_freezes unfolding freezes_def by blast

lemma transition_freezes_admission_witness:
  "ra_state demo_rotating = RS_EpochTransition \<and>
   set (member_ids (snd (handle_event_at demo_env (EV_ConnectionLost 7) 1 demo_rotating))) \<subseteq> {0, 1}"
proof -
  have st: "ra_state demo_rotating = RS_EpochTransition" by (simp add: demo_rotating_def)
  have ids: "member_ids demo_rotating = [0, 1]"
    by (simp add: demo_rotating_def demo_defs member_ids_def)
  from transition_freezes_admission [OF st, of demo_env "EV_ConnectionLost 7" 1] st show ?thesis
    by (simp add: ids)
qed

section \<open>The deadline of a transition\<close>

lemma evict_ok:
  "table_ok (ra_members a) \<Longrightarrow> evict_members ids a = ((removed, acts), b) \<Longrightarrow>
   ra_members b = (ra_members a)\<lparr>mt_members := filter (\<lambda>m. m_member_id m \<notin> set ids) (mt_members (ra_members a))\<rparr> \<and>
   (\<forall>c. conn_role c (ra_connections a) = None \<longrightarrow> conn_role c (ra_connections b) = None) \<and>
   (\<forall>m \<in> set (mt_members (ra_members a)). m_member_id m \<in> set ids \<longrightarrow>
      RA_CloseConnection (m_connection m) \<in> set acts \<and> conn_role (m_connection m) (ra_connections b) = None)"
proof (induction ids a arbitrary: removed acts b rule: evict_members.induct)
  case (1 a)
  then show ?case by auto
next
  case (2 i ids a)
  have rm: "table_remove i (ra_members a) = (by_id i (ra_members a),
      (ra_members a)\<lparr>mt_members := filter (\<lambda>m. m_member_id m \<noteq> i) (mt_members (ra_members a))\<rparr>)"
    using 2(3) by (rule table_remove_filter)
  show ?case
  proof (cases "by_id i (ra_members a)")
    case None
    then have no: "\<forall>m \<in> set (mt_members (ra_members a)). m_member_id m \<noteq> i" by (simp add: by_id_None)
    then have "filter (\<lambda>m. m_member_id m \<notin> set (i # ids)) (mt_members (ra_members a)) =
        filter (\<lambda>m. m_member_id m \<notin> set ids) (mt_members (ra_members a))"
      by (auto intro: filter_cong)
    with 2(1) [OF rm [symmetric] None 2(3)] 2(4) no rm None show ?thesis by simp
  next
    case (Some m)
    let ?M = "(ra_members a)\<lparr>mt_members := filter (\<lambda>m. m_member_id m \<noteq> i) (mt_members (ra_members a))\<rparr>"
    let ?a = "a\<lparr>ra_members := ?M, ra_connections := conn_remove (m_connection m) (ra_connections a),
                ra_rate_limits := (ra_rate_limits a)(i := None)\<rparr>"
    have m: "m \<in> set (mt_members (ra_members a))" "m_member_id m = i" using Some by (auto dest: by_id_SomeD)
    have M: "table_ok ?M" using table_ok_remove [OF 2(3), of i] rm by simp
    obtain removed' acts' where e: "evict_members ids ?a = ((removed', acts'), b)"
      and acts: "acts = RA_CloseConnection (m_connection m) # RA_NotifyHost (HN_MemberLeft i (m_nickname m)) # acts'"
      using 2(4) rm Some by (auto split: prod.splits)
    have M': "table_ok (ra_members ?a)" using M by simp
    note ih = 2(2) [OF rm [symmetric] Some M' e]
    have "m' = m" if "m' \<in> set (mt_members (ra_members a))" "m_member_id m' = i" for m'
      using table_ok_eqI(1) [OF 2(3) that(1) m(1)] that m by simp
    with ih show ?thesis by (auto simp: acts conn_role_remove intro!: filter_cong)
  qed
qed

text \<open>
  The deadline of a transition. Before it, the maintenance tick changes nothing. After it, if
  the host itself has not acknowledged, the room is destroyed; otherwise a successful tick removes
  exactly the members that withheld their acknowledgement, closes their connections and forgets
  them, and rekeys for the others. The tick fails only for want of randomness or keys.
\<close>

theorem epoch_deadline:
  assumes "stores_ok a" and "ra_state a = RS_EpochTransition" and "ra_pending_epoch a = Some p"
    and "handle_event_at E EV_EpochMaintenance now a = (res, b)"
  shows "if now - pe_started_at p < timeouts_get (ra_timeouts a) TK_EpochAcknowledgement
    then res = Inr [] \<and> b = a\<lparr>ra_now := now\<rparr>
    else if 0 \<in> set (pe_awaiting p) then (\<exists>acts. res = Inr acts) \<and> ra_state b = RS_Destroyed
    else case res of
      Inl e \<Rightarrow> key_failure e
    | Inr acts \<Rightarrow> rekeyed a acts b \<and>
        member_ids b = filter (\<lambda>i. i \<notin> set (pe_awaiting p)) (member_ids a) \<and>
        (\<forall>m \<in> set (mt_members (ra_members a)). m_member_id m \<in> set (pe_awaiting p) \<longrightarrow>
           RA_CloseConnection (m_connection m) \<in> set acts \<and> conn_role (m_connection m) (ra_connections b) = None)"
proof -
  let ?a = "a\<lparr>ra_now := now\<rparr>" and ?a1 = "a\<lparr>ra_now := now, ra_pending_epoch := None\<rparr>"
  have h: "on_epoch_timeout E ?a = (res, b)" using assms(2,4) by (simp add: handle_event_at_def Let_def)
  show ?thesis
  proof (cases "now - pe_started_at p < timeouts_get (ra_timeouts a) TK_EpochAcknowledgement")
    case True
    with h assms(3) show ?thesis by (simp add: on_epoch_timeout_def)
  next
    case late: False
    show ?thesis
    proof (cases "0 \<in> set (pe_awaiting p)")
      case True
      with h late assms(2,3) show ?thesis by (auto simp: on_epoch_timeout_def Let_def close_room_def)
    next
      case False
      obtain removed acts b1 where e: "evict_members (pe_awaiting p) ?a1 = ((removed, acts), b1)"
        by (metis surj_pair)
      obtain bres c where beg: "begin_epoch_transition E b1 = (bres, c)" by (metis surj_pair)
      have M: "table_ok (ra_members ?a1)" using assms(1) by (simp add: stores_ok_def stores_wf_def)
      note ev = evict_ok [OF M e]
      have b1: "ra_epoch b1 = ra_epoch a" "epoch_wraps acts = []"
        using evict_frame [of "pe_awaiting p" ?a1] e by simp_all
      have res: "(res, b) = tryS (begin_epoch_transition E b1)
          (\<lambda>wraps a3. (Inr (acts @ wraps), gone_all E removed a3))"
        using h late False e assms(3) by (simp add: on_epoch_timeout_def Let_def gone_all_def)
      show ?thesis
      proof (cases bres)
        case (Inl x)
        with res beg late False show ?thesis by (auto dest: begin_fails)
      next
        case (Inr wraps)
        then have r: "rekeyed b1 wraps c" "member_ids c = member_ids b1"
          using begin_ok beg by blast+
        have b: "res = Inr (acts @ wraps)" "b = gone_all E removed c" using res beg Inr by simp_all
        have "rekeyed a (acts @ wraps) b"
          by (rule rekeyed_frame [OF r(1)]) (simp_all add: b b1)
        moreover have "member_ids b = filter (\<lambda>i. i \<notin> set (pe_awaiting p)) (member_ids a)"
          using ev r(2) by (simp add: b member_ids_def filter_map comp_def)
        moreover have "ra_connections b = ra_connections b1"
          using begin_frame(2) [of E b1] beg by (simp add: b)
        ultimately show ?thesis using ev late False by (auto simp: b(1))
      qed
    qed
  qed
qed

definition demo_stalled :: room_actor where
  "demo_stalled = demo_room\<lparr>ra_state := RS_EpochTransition, ra_epoch := 3, ra_pending_epoch := Some
     \<lparr>pe_epoch = 3, pe_key = replicate 32 6, pe_awaiting = [1], pe_started_at = 0\<rparr>\<rparr>"

lemma epoch_deadline_witness:
  "\<exists>res b. handle_event_at demo_env EV_EpochMaintenance (secs 3600) demo_stalled = (res, b) \<and>
     (\<forall>acts. res = Inr acts \<longrightarrow> member_ids b = [0] \<and> RA_CloseConnection 7 \<in> set acts)"
proof -
  obtain res b where h: "handle_event_at demo_env EV_EpochMaintenance (secs 3600) demo_stalled = (res, b)"
    by (metis surj_pair)
  let ?p = "\<lparr>pe_epoch = 3, pe_key = replicate 32 6, pe_awaiting = [1], pe_started_at = 0\<rparr>"
  have ok: "stores_ok demo_stalled" using demo_stores_ok by (simp add: stores_ok_def demo_stalled_def)
  have st: "ra_state demo_stalled = RS_EpochTransition" "ra_pending_epoch demo_stalled = Some ?p"
    by (simp_all add: demo_stalled_def)
  have late: "\<not> secs 3600 - pe_started_at ?p < timeouts_get (ra_timeouts demo_stalled) TK_EpochAcknowledgement"
    by (simp add: demo_stalled_def demo_room_def default_timeouts_def secs_def)
  have ids: "member_ids demo_stalled = [0, 1]" "demo_member 1 7 [97] 2 \<in> set (mt_members (ra_members demo_stalled))"
    by (simp_all add: demo_stalled_def demo_defs member_ids_def)
  have "member_ids b = [0] \<and> RA_CloseConnection 7 \<in> set acts" if "res = Inr acts" for acts
  proof -
    from epoch_deadline [OF ok st h] late that have "member_ids b = filter (\<lambda>i. i \<noteq> 1) (member_ids demo_stalled)"
      and all: "\<forall>m \<in> set (mt_members (ra_members demo_stalled)). m_member_id m = 1 \<longrightarrow>
        RA_CloseConnection (m_connection m) \<in> set acts" by auto
    with ids bspec [OF all ids(2)] show ?thesis by (simp add: demo_member_def)
  qed
  then show ?thesis using h by blast
qed

section \<open>Locking the room\<close>

lemma close_admissions_closes:
  assumes ok: "stores_ok a" and ord: "order_ok (en_order E)"
    and r: "conn_role c (ra_connections a) = Some r" "\<not> is_member_role r"
  shows "RA_CloseConnection c \<in> set (fst (close_admissions E a))"
proof -
  have wf: "stores_wf (ra_members a) (ra_connections a) (ra_requests a) (ra_timeout_requests a)
      (ra_host_connection a)" using ok by (simp add: stores_ok_def)
  note d = stores_wfD [OF wf]
  let ?ids = "map rq_connection (qu_requests (ra_requests a))"
  let ?cs = "foldl (\<lambda>cs c. conn_remove c cs) (ra_connections a) ?ids"
  have fold: "foldl (\<lambda>cs r. conn_remove (rq_connection r) cs) (ra_connections a) (qu_requests (ra_requests a)) = ?cs"
    by (simp add: foldl_map)
  have cs: "conn_ok ?cs" using d(2) by (rule conn_ok_remove_all)
  show ?thesis
  proof (cases "c \<in> set ?ids")
    case True
    then show ?thesis by (force simp: close_admissions_def queue_drain_def Let_def)
  next
    case False
    then have "c \<in> set (conn_non_member_ids (en_order E) ?cs)"
      using r by (simp add: set_conn_non_member_ids [OF ord cs] conn_remove_all)
    then show ?thesis by (simp add: close_admissions_def queue_drain_def fold Let_def)
  qed
qed

text \<open>After both commands: no application is left and only members are connected.\<close>

definition admission_closed :: "room_actor \<Rightarrow> room_action list \<Rightarrow> room_actor \<Rightarrow> bool" where
  "admission_closed a acts b \<longleftrightarrow>
     qu_requests (ra_requests b) = [] \<and>
     (\<forall>c. conn_role c (ra_connections b) =
        (case conn_role c (ra_connections a) of Some (CR_Member i) \<Rightarrow> Some (CR_Member i) | _ \<Rightarrow> None)) \<and>
     (\<forall>c r. conn_role c (ra_connections a) = Some r \<and> \<not> is_member_role r \<longrightarrow> RA_CloseConnection c \<in> set acts)"

lemma close_admissions_ok:
  assumes "stores_ok a" and "order_ok (en_order E)"
  shows "admission_closed a (fst (close_admissions E a)) (snd (close_admissions E a))"
proof -
  have "qu_requests (ra_requests (snd (close_admissions E a))) = []"
    by (simp add: close_admissions_def queue_drain_def Let_def)
  then show ?thesis
    using close_admissions_closes [OF assms] close_admissions_roles [OF assms]
    unfolding admission_closed_def by blast
qed

lemma admission_closed_frame:
  "admission_closed a acts b \<Longrightarrow> ra_connections a' = ra_connections a \<Longrightarrow> ra_requests b' = ra_requests b \<Longrightarrow>
   ra_connections b' = ra_connections b \<Longrightarrow> set acts \<subseteq> set acts' \<Longrightarrow> admission_closed a' acts' b'"
  by (auto simp: admission_closed_def)

text \<open>
  C24: \<open>/reqoff\<close> always succeeds on a settled room. Afterwards every application is withdrawn, every
  connection that is not a member's was closed and forgotten, the members keep theirs, the room is
  locked, and it answers every further join request with \<open>PolicyLocked\<close>, itself unchanged.
\<close>

theorem reqoff_locks_room:
  assumes "stores_ok a" and "settled a" and "order_ok (en_order E)"
  shows "\<exists>acts b. handle_event_at E (EV_HostCommand HC_ReqOff) now a = (Inr acts, b) \<and>
    admission_closed a acts b \<and> ra_policy b = JP_Locked \<and> ra_state b = RS_Locked \<and>
    mt_members (ra_members b) = mt_members (ra_members a) \<and>
    (\<forall>c application later. handle_event_at E (EV_JoinRequested c application) later b =
       (Inl RE_PolicyLocked, b\<lparr>ra_now := later\<rparr>))"
proof -
  let ?a = "a\<lparr>ra_now := now\<rparr>"
  have st: "ra_state a = RS_Open \<or> ra_state a = RS_Locked"
    using assms(2) by (auto simp: settled_def split: if_splits)
  have ok: "stores_ok ?a" using assms(1) by (simp add: stores_ok_def)
  obtain acts a1 where ca: "close_admissions E ?a = (acts, a1)" by (metis surj_pair)
  obtain acts' b where pol: "set_policy E JP_Locked ?a = (Inr acts', b)"
    and b: "ra_policy b = JP_Locked" "ra_state b = RS_Locked" "ra_requests b = ra_requests a1"
      "ra_connections b = ra_connections a1" "ra_members b = ra_members a1" "set acts \<subseteq> set acts'"
    by (simp add: set_policy_def ca Let_def) blast
  have m: "ra_members a1 = ra_members a" using close_admissions_frame(1) [of E ?a] ca by simp
  have "admission_closed a acts' b"
    by (rule admission_closed_frame [OF close_admissions_ok [OF ok assms(3)]]) (simp_all add: ca b)
  moreover have "handle_event_at E (EV_HostCommand HC_ReqOff) now a = (Inr acts', b)"
    using st pol by (auto simp: handle_event_at_def Let_def)
  moreover have "handle_event_at E (EV_JoinRequested c application) later b =
       (Inl RE_PolicyLocked, b\<lparr>ra_now := later\<rparr>)" for c application later
    using b by (simp add: handle_event_at_def on_join_requested_def allows_join_requests_def Let_def)
  ultimately show ?thesis using b m by (intro exI [of _ acts'] exI [of _ b]) simp
qed

lemma demo_settled: "settled demo_room"
  by (simp add: settled_def demo_defs EPOCH_KEY_LEN_def)

lemma reqoff_locks_room_witness:
  "stores_ok demo_room \<and> settled demo_room \<and>
   (\<exists>acts b. handle_event_at demo_env (EV_HostCommand HC_ReqOff) 3 demo_room = (Inr acts, b) \<and> ra_state b = RS_Locked)"
  using reqoff_locks_room [OF demo_stores_ok demo_settled demo_order, of 3] demo_stores_ok demo_settled
  by blast

text \<open>
  \<open>/newid\<close> on a settled room, when the random generator delivers, replaces the invitation
  token by fresh random bytes, which the host is told last, and closes admission as \<open>/reqoff\<close>
  does; the policy stays.
\<close>

theorem newid_rotates_invitation:
  assumes "stores_ok a" and "settled a" and "order_ok (en_order E)"
    and "fill_random 32 (ra_entropy a) = (Inr token, es)"
  shows "\<exists>acts b. handle_event_at E (EV_HostCommand HC_NewId) now a = (Inr acts, b) \<and>
    admission_closed a acts b \<and> ra_token b = token \<and> length token = 32 \<and>
    last acts = RA_NotifyHost (HN_InvitationRotated token) \<and>
    ra_policy b = ra_policy a \<and> mt_members (ra_members b) = mt_members (ra_members a)"
proof -
  let ?a = "a\<lparr>ra_now := now\<rparr>"
  let ?a1 = "a\<lparr>ra_now := now, ra_entropy := es, ra_token := token, ra_room_sequence := ra_room_sequence a + 1\<rparr>"
  have st: "ra_state a = RS_Open \<or> ra_state a = RS_Locked"
    using assms(2) by (auto simp: settled_def split: if_splits)
  have ok: "stores_ok ?a1" using assms(1) by (simp add: stores_ok_def)
  obtain acts b where ca: "close_admissions E ?a1 = (acts, b)" by (metis surj_pair)
  have h: "handle_event_at E (EV_HostCommand HC_NewId) now a =
      (Inr (acts @ [RA_NotifyHost (HN_InvitationRotated token)]), b)"
    using st ca assms(4) by (auto simp: handle_event_at_def on_new_id_def room_random_def Let_def)
  have "admission_closed a (acts @ [RA_NotifyHost (HN_InvitationRotated token)]) b"
    by (rule admission_closed_frame [OF close_admissions_ok [OF ok assms(3)]]) (auto simp: ca)
  moreover have "ra_token b = token"
    using ca by (auto simp: close_admissions_def Let_def split: prod.splits)
  moreover have "ra_members b = ra_members a" "ra_policy b = ra_policy a"
    using close_admissions_frame(1,7) [of E ?a1] ca by simp_all
  moreover have "length token = 32" using fill_random_length assms(4) by blast
  ultimately show ?thesis using h by (intro exI) auto
qed

lemma newid_rotates_invitation_witness:
  "\<exists>acts b. handle_event_at demo_env (EV_HostCommand HC_NewId) 3 demo_room = (Inr acts, b) \<and>
     last acts = RA_NotifyHost (HN_InvitationRotated (replicate 32 0))"
proof -
  have "fill_random 32 (ra_entropy demo_room) = (Inr (replicate 32 0), [Some [], Some [], Some []])"
    by (simp add: fill_random_def demo_room_def)
  from newid_rotates_invitation [OF demo_stores_ok demo_settled demo_order this, of 3]
  show ?thesis by blast
qed

end
