(* ===== verification/ActorAdmit.thy ===== *)
theory ActorAdmit
  imports ActorRules
begin

text \<open>
  Accepting an application, and when beginning an epoch transition succeeds or fails:
  \<open>accept_outcome\<close> gives the result of the host's decision on every branch, \<open>begin_succeeds\<close> the
  conditions under which rekeying cannot fail, and \<open>failed_rekey_strands_room\<close> what a failure of
  the random generator leaves behind.
\<close>

section \<open>Broadcasts about a new member\<close>

lemma queue_member_joined_pending:
  assumes "b = queue_member_joined E m a"
  shows "\<exists>s. RA_SendTo (m_connection m) (M_MemberSnapshot s) \<in> set (ra_pending_membership b) \<and>
      ms_epoch s = ra_epoch b \<and> ms_members s = map snapshot_member_from (mt_members (ra_members b))"
    and "\<forall>other \<in> set (mt_members (ra_members b)). m_member_id other \<noteq> m_member_id m \<longrightarrow>
      (\<exists>j. RA_SendTo (m_connection other) (M_MemberJoined j) \<in> set (ra_pending_membership b) \<and>
        mj_epoch j = ra_epoch b \<and> mj_member_id j = m_member_id m \<and> mj_nickname j = m_nickname m \<and>
        mj_ed25519_pubkey j = m_ed25519_pubkey m)"
  by (auto simp: assms queue_member_joined_def queue_member_snapshot_def Let_def)

section \<open>The decision on an application\<close>

lemma timeout_ids_differ:
  assumes "stores_ok a" and "r \<in> set (qu_requests (ra_requests a))"
  shows "take_first (\<lambda>t. pt_request_id t = rq_id r) (ra_timeout_requests a) = None"
proof -
  have "distinct (map rq_id (qu_requests (ra_requests a)) @ map pt_request_id (ra_timeout_requests a))"
    using assms(1) by (simp add: stores_ok_def stores_wf_def)
  with assms(2) show ?thesis by (force simp: take_first_None)
qed

lemma take_request_present:
  assumes "stores_ok a" and "r \<in> set (qu_requests (ra_requests a))"
  shows "take_request (rq_id r) a = (Inr r, a\<lparr>ra_requests := (ra_requests a)
    \<lparr>qu_requests := filter (\<lambda>r'. rq_id r' \<noteq> rq_id r) (qu_requests (ra_requests a))\<rparr>\<rparr>)"
proof -
  have q: "queue_ok (ra_requests a)" using assms(1) by (simp add: stores_ok_def stores_wf_def)
  from queue_take_present [OF assms(2) refl] obtain r' Q' where
    take: "queue_take (rq_id r) (ra_requests a) = (Inr r', Q')" by blast
  from queue_take_Inr [OF q take] assms(2) q have "r' = r"
    by (auto simp: queue_ok_def distinct_map dest: inj_onD)
  with take queue_take_Inr [OF q take] show ?thesis by (simp add: take_request_def)
qed

text \<open>
  The host's acceptance of a pending application, on every branch. If the table refuses the
  applicant (full, or the nickname, connection or one of the keys is taken) the applicant is sent
  the reason and disconnected, and the members and the epoch stay. Otherwise, unless rekeying
  fails, the applicant becomes the last member, with the keys and the name of the application, on
  the connection of the application; it is told so before anything else; the room rekeys; and the
  snapshot for the new member and the announcement for every other member are queued, with the
  new epoch.
\<close>

theorem accept_outcome:
  assumes "stores_ok a" and "settled a" and "r \<in> set (qu_requests (ra_requests a))"
    and "handle_event_at E (EV_HostAccepted (rq_id r)) now a = (res, b)"
  shows "case table_add (rq_connection r) (ap_nickname (rq_application r))
      (ap_ed25519_pubkey (rq_application r)) (ap_x25519_pubkey (rq_application r))
      (ra_epoch a + 1) (ra_members a) of
    (Inl e, _) \<Rightarrow> ra_members b = ra_members a \<and> ra_epoch b = ra_epoch a \<and>
      conn_role (rq_connection r) (ra_connections b) = None \<and>
      (\<exists>acts. res = Inr ([RA_SendTo (rq_connection r) (rejected_message (Some (member_error_text e))),
                          RA_CloseConnection (rq_connection r)] @ acts))
  | (Inr m, members) \<Rightarrow> ra_members b = members \<and>
      conn_role (rq_connection r) (ra_connections b) = Some (CR_Member (m_member_id m)) \<and>
      (case res of
         Inl e \<Rightarrow> key_failure e
       | Inr acts \<Rightarrow> rekeyed a acts b \<and>
           hd acts = RA_SendTo (rq_connection r) (M_JoinAccepted \<lparr>ja_member_id = m_member_id m\<rparr>) \<and>
           (\<exists>s. RA_SendTo (rq_connection r) (M_MemberSnapshot s) \<in> set (ra_pending_membership b) \<and>
              ms_epoch s = ra_epoch b \<and> ms_members s = map snapshot_member_from (mt_members members)) \<and>
           (\<forall>other \<in> set (mt_members (ra_members a)). \<exists>j.
              RA_SendTo (m_connection other) (M_MemberJoined j) \<in> set (ra_pending_membership b) \<and>
              mj_epoch j = ra_epoch b \<and> mj_member_id j = m_member_id m))"
proof -
  let ?a = "a\<lparr>ra_now := now\<rparr>" and ?c = "rq_connection r" and ?ap = "rq_application r"
  let ?Q = "(ra_requests a)\<lparr>qu_requests := filter (\<lambda>r'. rq_id r' \<noteq> rq_id r) (qu_requests (ra_requests a))\<rparr>"
  let ?a1 = "a\<lparr>ra_now := now, ra_requests := ?Q\<rparr>"
  have ok: "stores_ok ?a" "r \<in> set (qu_requests (ra_requests ?a))" using assms(1,3) by (simp_all add: stores_ok_def)
  have st: "ra_state a = RS_Open \<or> ra_state a = RS_Locked"
    using assms(2) by (auto simp: settled_def split: if_splits)
  have h: "on_accept E (rq_id r) ?a = (res, b)" using st assms(4) by (auto simp: handle_event_at_def Let_def)
  have none: "take_first (\<lambda>t. pt_request_id t = rq_id r) (ra_timeout_requests a) = None"
    using timeout_ids_differ [OF ok] by simp
  have tr: "take_request (rq_id r) ?a = (Inr r, ?a1)" using take_request_present [OF ok] by simp
  obtain ares M where add: "table_add ?c (ap_nickname ?ap) (ap_ed25519_pubkey ?ap) (ap_x25519_pubkey ?ap)
      (ra_epoch a + 1) (ra_members a) = (ares, M)" by (metis surj_pair)
  show ?thesis
  proof (cases ares)
    case (Inl e)
    with add have "M = ra_members a" by (simp add: table_add_Inl)
    with h none tr add Inl show ?thesis by (auto simp: on_accept_def Let_def conn_role_remove)
  next
    case (Inr m)
    note m = table_add_Inr [OF add [unfolded Inr]]
    let ?a2 = "?a1\<lparr>ra_members := M, ra_connections := snd (conn_promote ?c (m_member_id m)
          (conn_register ?c (ra_connections a)))\<rparr>"
    obtain bres d where beg: "begin_epoch_transition E ?a2 = (bres, d)" by (metis surj_pair)
    have d: "ra_members d = M" "ra_connections d = ra_connections ?a2"
      using begin_frame(1,2) [of E ?a2] beg by simp_all
    have role: "conn_role ?c (ra_connections d) = Some (CR_Member (m_member_id m))"
      unfolding d by (simp add: conn_role_laws)
    show ?thesis
    proof (cases bres)
      case (Inl e)
      with h none tr add Inr beg role d show ?thesis by (auto simp: on_accept_def Let_def dest: begin_fails)
    next
      case bres: (Inr wraps)
      let ?acts = "RA_SendTo ?c (M_JoinAccepted \<lparr>ja_member_id = m_member_id m\<rparr>) #
        RA_NotifyHost (HN_MemberJoined (m_member_id m) (m_nickname m)) # wraps"
      have res: "res = Inr ?acts" and b: "b = queue_member_joined E m d"
        using h none tr add Inr beg bres by (simp_all add: on_accept_def Let_def)
      have "rekeyed ?a2 wraps d" using begin_ok beg bres by blast
      then have rk: "rekeyed a ?acts b" by (rule rekeyed_frame) (simp_all add: b)
      have "m_member_id other \<noteq> m_member_id m" if "other \<in> set (mt_members (ra_members a))" for other
        using that assms(1) m(1) by (auto simp: stores_ok_def stores_wf_def table_ok_def)
      with queue_member_joined_pending [OF b] rk role d m add Inr res b show ?thesis by fastforce
    qed
  qed
qed

definition demo_application :: join_application where
  "demo_application = \<lparr>ap_nickname = [98], ap_introduction = None, ap_ed25519_pubkey = replicate 32 6,
     ap_x25519_pubkey = replicate 32 6, ap_signature = replicate 64 0\<rparr>"

definition demo_applied :: room_actor where
  "demo_applied = demo_room
     \<lparr>ra_connections := [demo_entry 0 (CR_Member 0), demo_entry 7 (CR_Member 1), demo_entry 9 (CR_Pending 0)],
      ra_requests := \<lparr>qu_limit = 8, qu_next_id = 1, qu_requests =
        [\<lparr>rq_id = 0, rq_connection = 9, rq_application = demo_application\<rparr>]\<rparr>\<rparr>"

lemma demo_applied_ok: "stores_ok demo_applied" "settled demo_applied"
  by (simp_all add: stores_ok_def stores_wf_def demo_applied_def demo_defs table_ok_def conn_ok_def
      queue_ok_def conn_role_def conn_get_def settled_def EPOCH_KEY_LEN_def)

lemma accept_outcome_witness:
  "\<exists>res b. handle_event_at demo_env (EV_HostAccepted 0) 4 demo_applied = (res, b) \<and>
     conn_role 9 (ra_connections b) = Some (CR_Member 2)"
proof -
  let ?r = "\<lparr>rq_id = 0, rq_connection = 9, rq_application = demo_application\<rparr>"
  obtain res b where h: "handle_event_at demo_env (EV_HostAccepted (rq_id ?r)) 4 demo_applied = (res, b)"
    by (metis surj_pair)
  have r: "?r \<in> set (qu_requests (ra_requests demo_applied))" by (simp add: demo_applied_def)
  obtain m M where add: "table_add 9 [98] (replicate 32 6) (replicate 32 6) (ra_epoch demo_applied + 1)
      (ra_members demo_applied) = (Inr m, M)" and m: "m_member_id m = 2"
    by (simp add: table_add_def table_is_full_def nickname_taken_def by_connection_def demo_applied_def
        demo_room_def demo_member_def Let_def)
  from accept_outcome [OF demo_applied_ok r h] add m h show ?thesis
    by (auto simp: demo_application_def)
qed

section \<open>When rekeying succeeds\<close>

text \<open>
  What a transition needs: one random outcome for the key and one for each member's nonce, and
  keys with which the host's key exchange is contributory.
\<close>

definition rekey_ready :: "room_env \<Rightarrow> room_actor \<Rightarrow> bool" where
  "rekey_ready E a \<longleftrightarrow>
     length (mt_members (ra_members a)) < length (ra_entropy a) \<and>
     list_all (\<lambda>e. e \<noteq> None) (ra_entropy a) \<and>
     list_all (\<lambda>m. c_x_contributory (en_crypto E)
       (c_x_dh (en_crypto E) (id_x25519 (ra_host_identity a)) (m_x25519_pubkey m))) (mt_members (ra_members a))"

lemma fill_random_succeeds: "fill_random n (Some x # es) = (Inr b, es') \<longleftrightarrow> b = pad n x \<and> es' = es"
  by (auto simp: fill_random_def pad_def)

lemma wrap_members_succeeds:
  assumes "crypto_ok C" and "length key = EPOCH_KEY_LEN"
  shows "list_all (\<lambda>m. c_x_contributory C (c_x_dh C (id_x25519 h) (m_x25519_pubkey m))) ms \<Longrightarrow>
    length ms \<le> length es \<Longrightarrow> list_all (\<lambda>e. e \<noteq> None) es \<Longrightarrow>
    \<exists>acts. wrap_members C h session key epoch ms es = (Inr acts, drop (length ms) es)"
proof (induction ms arbitrary: es)
  case Nil
  then show ?case by simp
next
  case (Cons m ms)
  then obtain x es1 where es: "es = Some x # es1" by (cases es) auto
  from Cons.prems obtain wk where wk: "try_wrap_key_for C h (m_x25519_pubkey m) session (m_member_id m) = Inr wk"
    by (simp add: try_wrap_key_for_def derive_checked_def)
  obtain nonce where n: "fill_random XCHACHA_NONCE_LEN es = (Inr nonce, es1)"
    by (simp add: es fill_random_succeeds)
  from assms(1) obtain c where "c_encrypt C wk nonce (epoch_aad epoch session) key = Some c"
    "length c = length key + XCHACHA_TAG_LEN" unfolding crypto_ok_def by blast
  then have w: "wrap_epoch_key C wk key epoch session es = (Inr (nonce, c), es1)"
    "epoch_wrap_new epoch nonce c = Inr \<lparr>ew_epoch = epoch, ew_nonce = nonce, ew_ciphertext = c\<rparr>"
    using n assms(2) by (simp_all add: wrap_epoch_key_def epoch_wrap_new_def EPOCH_WRAP_CIPHERTEXT_LEN_def)
  from Cons.IH [of es1] Cons.prems es obtain acts where
    "wrap_members C h session key epoch ms es1 = (Inr acts, drop (length ms) es1)" by auto
  with wk w es show ?case by auto
qed

lemma rekey_delivers:
  assumes "crypto_ok (en_crypto E)" and "rekey_ready E a"
  shows "\<exists>acts b p. begin_epoch_transition E a = (Inr acts, b) \<and> ra_pending_epoch b = Some p \<and>
    map fst (epoch_wraps acts) = member_connections a \<and>
    list_all2 (\<lambda>m cw. opens_wrap (en_crypto E) (identity_x25519_pubkey (en_crypto E) (ra_host_identity a))
      (ra_session_id a) (pe_key p) m (snd cw)) (mt_members (ra_members a)) (epoch_wraps acts) \<and>
    ra_entropy b = drop (Suc (length (mt_members (ra_members a)))) (ra_entropy a)"
proof -
  from assms(2) obtain x es where es: "ra_entropy a = Some x # es"
    by (cases "ra_entropy a") (auto simp: rekey_ready_def)
  let ?key = "pad EPOCH_KEY_LEN x"
  have kl: "length ?key = EPOCH_KEY_LEN" by simp
  let ?w = "wrap_members (en_crypto E) (ra_host_identity a) (ra_session_id a) ?key (ra_epoch a + 1)
    (mt_members (ra_members a)) es"
  have "\<exists>acts. ?w = (Inr acts, drop (length (mt_members (ra_members a))) es)"
    by (rule wrap_members_succeeds [OF assms(1) kl])
      (use assms(2) es in \<open>auto simp: rekey_ready_def\<close>)
  then obtain acts where w: "?w = (Inr acts, drop (length (mt_members (ra_members a))) es)" by blast
  have fill: "fill_random EPOCH_KEY_LEN (Some x # es) = (Inr ?key, es)" by (simp add: fill_random_succeeds)
  obtain b p where b: "begin_epoch_transition E a = (Inr acts, b)"
    "ra_pending_epoch b = Some p" "pe_key p = ?key"
    "ra_entropy b = drop (length (mt_members (ra_members a))) es"
    by (simp add: begin_epoch_transition_def room_random_def epoch_key_generate_def es fill w Let_def)
  have "map fst (epoch_wraps acts) = member_connections a"
    using wrap_members_ok [OF w] by (simp add: member_connections_def)
  with wrap_members_unwrap [OF assms(1) kl w] b es show ?thesis by (intro exI [of _ acts] exI [of _ b] exI [of _ p] conjI) simp_all
qed

section \<open>When rekeying fails\<close>

text \<open>
  A failure of the random generator while a member leaves strands the others. The event is
  reported as failed, but the member is already gone and the epoch already advanced, with no
  transition pending and the old key still installed, and nobody is told: until some later event
  rekeys, every message that a remaining member seals for the epoch it knows is refused as old.
\<close>

lemma failed_rekey_strands_room:
  assumes "settled a" and "table_ok (ra_members a)" and "i \<noteq> 0" and "by_id i (ra_members a) = Some m"
    and "fill_random EPOCH_KEY_LEN (ra_entropy a) = (Inl e, es)"
  shows "\<exists>b. handle_event_at E (EV_MemberLeft i) now a = (Inl (RE_Crypto e), b) \<and> settled b \<and>
    ra_epoch b = ra_epoch a + 1 \<and> ra_epoch_key b = ra_epoch_key a \<and>
    member_ids b = filter (\<lambda>j. j \<noteq> i) (member_ids a) \<and>
    ra_pending_membership b = ra_pending_membership a \<and>
    ra_members b = (ra_members a)\<lparr>mt_members := filter (\<lambda>m. m_member_id m \<noteq> i) (mt_members (ra_members a))\<rparr> \<and>
    ra_rate_limits b = (ra_rate_limits a)(i := None) \<and> ra_host_connection b = ra_host_connection a \<and>
    ra_requests b = ra_requests a \<and>
    (\<forall>c j t env. env_epoch env = ra_epoch a \<longrightarrow>
       relay_opened E c j t env b = (Inl (RE_OldEpoch (ra_epoch a) (ra_epoch a + 1)), b))"
proof -
  let ?a = "a\<lparr>ra_now := now\<rparr>"
  have st: "ra_state a = RS_Open \<or> ra_state a = RS_Locked"
    using assms(1) by (auto simp: settled_def split: if_splits)
  have rm: "table_remove i (ra_members a) = (Some m,
      (ra_members a)\<lparr>mt_members := filter (\<lambda>m. m_member_id m \<noteq> i) (mt_members (ra_members a))\<rparr>)"
    using table_remove_filter [OF assms(2), of i] assms(4) by simp
  define b where "b = snd (handle_event_at E (EV_MemberLeft i) now a)"
  have h: "handle_event_at E (EV_MemberLeft i) now a = (Inl (RE_Crypto e), b)"
    and b: "ra_epoch b = ra_epoch a + 1" "ra_epoch_key b = ra_epoch_key a" "ra_state b = ra_state a"
      "ra_pending_epoch b = ra_pending_epoch a" "ra_policy b = ra_policy a"
      "ra_pending_membership b = ra_pending_membership a"
      "member_ids b = filter (\<lambda>j. j \<noteq> i) (member_ids a)"
      "ra_members b = (ra_members a)\<lparr>mt_members := filter (\<lambda>m. m_member_id m \<noteq> i) (mt_members (ra_members a))\<rparr>"
      "ra_rate_limits b = (ra_rate_limits a)(i := None)" "ra_host_connection b = ra_host_connection a"
      "ra_requests b = ra_requests a"
    using st assms(3,5)
    by (auto simp: b_def handle_event_at_def on_member_left_def remove_member_def rm
        begin_epoch_transition_def room_random_def epoch_key_generate_def member_ids_def filter_map
        comp_def Let_def)
  have "ra_epoch a \<noteq> ra_epoch a + 1" by simp
  then have "relay_opened E c j t env b = (Inl (RE_OldEpoch (ra_epoch a) (ra_epoch a + 1)), b)"
    if "env_epoch env = ra_epoch a" for c j t env
    using that by (simp add: relay_opened_def b)
  with h b assms(1) show ?thesis by (auto simp: settled_def)
qed

section \<open>Timeout requests of removed members\<close>

lemma take_first_present:
  "distinct (map f xs) \<Longrightarrow> x \<in> set xs \<Longrightarrow> \<exists>ys. take_first (\<lambda>y. f y = f x) xs = Some (x, ys)"
  by (induction xs) (auto simp: rev_image_eqI)

lemma remove_member_timeouts:
  "ra_timeout_requests (snd (remove_member E i t a)) = ra_timeout_requests a"
  unfolding remove_member_def
  by (auto split: prod.split option.split
      intro!: tryS_inv [where P = "\<lambda>s. ra_timeout_requests s = ra_timeout_requests a"])

lemma timeout_removal:
  "ra_timeout_requests a = ts \<Longrightarrow> (\<And>x s. ra_timeout_requests (snd (f x s)) = ra_timeout_requests s) \<Longrightarrow>
   ra_timeout_requests (snd (tryS (remove_member E i t a) f)) = ts"
  by (rule tryS_inv [where P = "\<lambda>s. ra_timeout_requests s = ts"])
    (simp_all add: remove_member_timeouts)

text \<open>
  A timeout request outlives the membership of whoever made it, except when the connection
  is lost. Kicking the member leaves its request in the queue, where it counts against the shared
  capacity and stays acceptable by its id; a lost connection withdraws the requests made on it.
\<close>

theorem kick_keeps_timeout_request:
  assumes "stores_ok a" and "settled a" and "t \<in> set (ra_timeout_requests a)"
    and "handle_event_at E (EV_HostCommand (HC_Kick (MR_Id (pt_member_id t)))) now a = (Inr acts, b)"
  shows "t \<in> set (ra_timeout_requests b) \<and>
    (\<forall>s later. settled s \<and> ra_timeout_requests s = ra_timeout_requests b \<longrightarrow>
       fst (handle_event_at E (EV_HostAccepted (pt_request_id t)) later s) =
         Inr [RA_NotifyHost (HN_TimeoutRequestAccepted (pt_request_id t) (pt_seconds t))])"
proof -
  let ?a = "a\<lparr>ra_now := now\<rparr>"
  have st: "ra_state a = RS_Open \<or> ra_state a = RS_Locked"
    using assms(2) by (auto simp: settled_def split: if_splits)
  have "ra_timeout_requests (snd (on_kick E (MR_Id (pt_member_id t)) ?a)) = ra_timeout_requests ?a"
    by (auto simp: on_kick_def split: sum.split option.split intro!: timeout_removal)
  moreover have "on_kick E (MR_Id (pt_member_id t)) ?a = (Inr acts, b)"
    using assms(4) st by (auto simp: handle_event_at_def Let_def)
  ultimately have b: "ra_timeout_requests b = ra_timeout_requests a" by simp
  have "distinct (map pt_request_id (ra_timeout_requests a))"
    using assms(1) by (simp add: stores_ok_def stores_wf_def)
  from take_first_present [OF this assms(3)] obtain rest where
    first: "take_first (\<lambda>u. pt_request_id u = pt_request_id t) (ra_timeout_requests a) = Some (t, rest)"
    by blast
  have "fst (handle_event_at E (EV_HostAccepted (pt_request_id t)) later s) =
      Inr [RA_NotifyHost (HN_TimeoutRequestAccepted (pt_request_id t) (pt_seconds t))]"
    if "settled s" "ra_timeout_requests s = ra_timeout_requests b" for s later
  proof -
    have "ra_state s = RS_Open \<or> ra_state s = RS_Locked"
      using that(1) by (auto simp: settled_def split: if_splits)
    then show ?thesis using that(2) first b by (auto simp: handle_event_at_def on_accept_def Let_def)
  qed
  with assms(3) b show ?thesis by simp
qed

lemma kick_keeps_timeout_request_witness:
  "\<exists>a acts b. stores_ok a \<and> settled a \<and>
     handle_event_at demo_env (EV_HostCommand (HC_Kick (MR_Id 1))) 0 a = (Inr acts, b) \<and>
     ra_timeout_requests b \<noteq> []"
proof -
  let ?t = "\<lparr>pt_request_id = 0, pt_connection = 7, pt_member_id = 1, pt_nickname = [97], pt_seconds = 60\<rparr>"
  let ?a = "demo_room\<lparr>ra_timeout_requests := [?t]\<rparr>"
  have ok: "stores_ok ?a" "settled ?a" "?t \<in> set (ra_timeout_requests ?a)"
    by (simp_all add: stores_ok_def stores_wf_def demo_defs table_ok_def conn_ok_def
      queue_ok_def conn_role_def conn_get_def settled_def EPOCH_KEY_LEN_def)
  obtain acts b where h: "handle_event_at demo_env (EV_HostCommand (HC_Kick (MR_Id (pt_member_id ?t)))) 0 ?a = (Inr acts, b)"
    by (simp add: on_kick_def resolve_member_def by_id_def demo_run demo_defs)
  from kick_keeps_timeout_request [OF ok h] have "?t \<in> set (ra_timeout_requests b)" by blast
  then have "ra_timeout_requests b \<noteq> []" by auto
  moreover have "handle_event_at demo_env (EV_HostCommand (HC_Kick (MR_Id 1))) 0 ?a = (Inr acts, b)"
    using h by simp
  ultimately show ?thesis using ok(1,2) by blast
qed

end
