(* ===== verification/ActorChat.thy ===== *)
theory ActorChat
  imports ActorRules
begin

text \<open>
  The room actor as a relay: what it forwards is authentic, current and new, goes to the other
  members exactly, and no envelope takes effect twice in the whole life of the room.
\<close>

section \<open>What a batch of actions forwards\<close>

fun envelope_of :: "message \<Rightarrow> envelope option" where
  "envelope_of (M_ChatMessage env) = Some env"
| "envelope_of (M_ColorChange env) = Some env"
| "envelope_of (M_TimeoutRequest env) = Some env"
| "envelope_of (M_TimeoutChanged env) = Some env"
| "envelope_of _ = None"

fun relayed :: "room_action list \<Rightarrow> (u64 \<times> envelope) list" where
  "relayed [] = []"
| "relayed (RA_SendTo c msg # acts) =
     (case envelope_of msg of None \<Rightarrow> relayed acts | Some env \<Rightarrow> (c, env) # relayed acts)"
| "relayed (_ # acts) = relayed acts"

text \<open>A timeout request is not forwarded but shown to the host.\<close>

fun asks_host :: "room_action list \<Rightarrow> bool" where
  "asks_host [] \<longleftrightarrow> False"
| "asks_host (RA_NotifyHost (HN_TimeoutRequestPending _ _ _ _) # acts) \<longleftrightarrow> True"
| "asks_host (_ # acts) \<longleftrightarrow> asks_host acts"

lemma relayed_append [simp]: "relayed (xs @ ys) = relayed xs @ relayed ys"
  by (induction xs rule: relayed.induct) (auto split: option.splits)

lemma asks_append [simp]: "asks_host (xs @ ys) \<longleftrightarrow> asks_host xs \<or> asks_host ys"
  by (induction xs rule: asks_host.induct) auto

lemma relayed_notify [simp]: "relayed (map (\<lambda>x. RA_NotifyHost (f x)) xs) = []"
  by (induction xs) auto

text \<open>The other members of the room, by connection.\<close>

definition other_connections :: "u64 \<Rightarrow> room_actor \<Rightarrow> u64 list" where
  "other_connections c a = filter (\<lambda>d. d \<noteq> c) (member_connections a)"

lemma relayed_relay:
  "envelope_of msg = Some env \<Longrightarrow> relayed (map (\<lambda>m. RA_SendTo (m_connection m) msg)
     (filter (\<lambda>m. m_connection m \<noteq> c) ms)) = map (\<lambda>d. (d, env)) (filter (\<lambda>d. d \<noteq> c) (map m_connection ms))"
  by (induction ms) auto

lemma map_connection_color [simp]:
  "map m_connection (mt_members (table_set_color i col t)) = map m_connection (mt_members t)"
  by (simp add: table_set_color_def map_update_first)

text \<open>Key distribution forwards no envelope.\<close>

lemma relayed_wraps:
  "wrap_members C h session key epoch ms es = (Inr acts, es') \<Longrightarrow> relayed acts = [] \<and> \<not> asks_host acts"
  by (induction ms arbitrary: acts es)
    (auto split: sum.splits prod.splits elim!: tryS_cases)

lemma relayed_begin:
  "begin_epoch_transition E a = (Inr acts, b) \<Longrightarrow> relayed acts = [] \<and> \<not> asks_host acts"
  by (auto simp: begin_epoch_transition_def Let_def elim!: tryS_cases split: prod.splits sum.splits
      dest: relayed_wraps)

lemma relayed_remove_member:
  "remove_member E i t a = (Inr (r, acts), b) \<Longrightarrow> relayed acts = [] \<and> \<not> asks_host acts"
  by (auto simp: remove_member_def elim!: tryS_cases split: if_splits prod.splits option.splits
      dest: relayed_begin)

section \<open>Relaying an envelope\<close>

text \<open>
  What holds of an envelope that the room acts on: it is the sender's own, of the current epoch,
  newer than every accepted one, signed with the key the table has for the sender, and it decrypts
  under the key of the epoch.
\<close>

definition current_key :: "room_actor \<Rightarrow> bytes option" where
  "current_key a = (case ra_pending_epoch a of Some p \<Rightarrow> Some (pe_key p) | None \<Rightarrow> ra_epoch_key a)"

definition admissible :: "room_env \<Rightarrow> u64 \<Rightarrow> u8 \<Rightarrow> envelope \<Rightarrow> room_actor \<Rightarrow> bool" where
  "admissible E c t env a \<longleftrightarrow>
     env_epoch env = ra_epoch a \<and>
     (\<forall>l. replay_last_accepted (env_sender_id env) (ra_epoch a) (ra_chat_replay a) = Some l \<longrightarrow>
        l < env_sender_sequence env) \<and>
     conn_member_id c (ra_connections a) = Some (env_sender_id env) \<and>
     (\<exists>m key p. by_id (env_sender_id env) (ra_members a) = Some m \<and> current_key a = Some key \<and>
        verify_ed25519 (en_crypto E) (m_ed25519_pubkey m)
          (chat_transcript 1 (ra_session_id a) (ra_epoch a) (env_sender_id env) (env_sender_sequence env) t
             (env_nonce env) (env_ciphertext env)) (env_signature env) \<and>
        c_decrypt (en_crypto E) key (env_nonce env)
          (chat_aad 1 (ra_session_id a) (ra_epoch a) (env_sender_id env) (env_sender_sequence env) t)
          (env_ciphertext env) = Some p)"

definition acts_on :: "room_actor \<Rightarrow> u64 \<Rightarrow> envelope \<Rightarrow> room_result \<Rightarrow> bool" where
  "acts_on a c env res \<longleftrightarrow>
     (case res of
        (Inl _, _) \<Rightarrow> True
      | (Inr acts, b) \<Rightarrow>
          (relayed acts = [] \<or> relayed acts = map (\<lambda>d. (d, env)) (other_connections c a)) \<and>
          ra_epoch b = ra_epoch a \<and>
          ra_chat_replay b = (ra_chat_replay a)((env_sender_id env, ra_epoch a) \<mapsto> env_sender_sequence env))"

lemma payload_acts_on:
  assumes "ra_chat_replay a' = (ra_chat_replay a)((env_sender_id env, ra_epoch a) \<mapsto> env_sender_sequence env)"
    and "ra_members a' = ra_members a" and "ra_epoch a' = ra_epoch a"
  shows "acts_on a c env (on_color_payload c i env p a')"
    "acts_on a c env (on_timeout_request_payload c i p a')"
    "acts_on a c env (on_timeout_changed_payload c i env p a')"
    "acts_on a c env (on_chat_payload c env p a')"
proof -
  have r: "relayed (map (\<lambda>m. RA_SendTo (m_connection m) msg) (filter (\<lambda>m. m_connection m \<noteq> c) ms)) =
      map (\<lambda>d. (d, env)) (other_connections c a)"
    if "envelope_of msg = Some env" "map m_connection ms = member_connections a" for msg ms
    using that by (simp add: relayed_relay other_connections_def)
  show "acts_on a c env (on_color_payload c i env p a')"
    using assms by (auto simp: on_color_payload_def relay_def acts_on_def r member_connections_def
        split: option.splits)
  show "acts_on a c env (on_timeout_changed_payload c i env p a')"
    using assms by (simp add: on_timeout_changed_payload_def relay_def acts_on_def r member_connections_def Let_def)
  show "acts_on a c env (on_timeout_request_payload c i p a')"
    using assms by (simp add: on_timeout_request_payload_def acts_on_def Let_def split: prod.splits)
  show "acts_on a c env (on_chat_payload c env p a')"
    using assms by (auto simp: on_chat_payload_def relay_def acts_on_def r member_connections_def
        split: option.splits sum.splits)
qed

lemma chat_plaintext_Inr:
  assumes "chat_plaintext E i t env a = Inr p" and "epoch_ok a" and "ra_state a \<noteq> RS_Destroyed"
  shows "\<exists>m key. by_id i (ra_members a) = Some m \<and> current_key a = Some key \<and>
    verify_ed25519 (en_crypto E) (m_ed25519_pubkey m)
      (chat_transcript 1 (ra_session_id a) (ra_epoch a) (env_sender_id env) (env_sender_sequence env) t
         (env_nonce env) (env_ciphertext env)) (env_signature env) \<and>
    c_decrypt (en_crypto E) key (env_nonce env)
      (chat_aad 1 (ra_session_id a) (ra_epoch a) (env_sender_id env) (env_sender_sequence env) t)
      (env_ciphertext env) = Some p"
proof -
  have "pe_epoch q = ra_epoch a" if "ra_pending_epoch a = Some q" for q
    using assms(2,3) that by (auto simp: epoch_ok_def settled_def in_transition_def)
  with assms(1) show ?thesis
    by (auto simp: chat_plaintext_def current_key_def open_envelope_def
        split: option.splits if_splits chat_open_error.splits)
qed

text \<open>The checks that the relay makes before it acts.\<close>

definition fresh :: "room_env \<Rightarrow> u64 \<Rightarrow> u8 \<Rightarrow> envelope \<Rightarrow> room_actor \<Rightarrow> bool" where
  "fresh E c t env a \<longleftrightarrow>
     env_epoch env = ra_epoch a \<and>
     (\<forall>l. replay_last_accepted (env_sender_id env) (ra_epoch a) (ra_chat_replay a) = Some l \<longrightarrow>
        l < env_sender_sequence env) \<and>
     conn_member_id c (ra_connections a) = Some (env_sender_id env) \<and>
     (\<exists>p. chat_plaintext E (env_sender_id env) t env a = Inr p)"

lemma fresh_admissible:
  "fresh E c t env a \<Longrightarrow> epoch_ok a \<Longrightarrow> ra_state a \<noteq> RS_Destroyed \<Longrightarrow> admissible E c t env a"
  unfolding fresh_def admissible_def using chat_plaintext_Inr by blast

lemma relay_opened_outcome:
  assumes "relay_opened E c (env_sender_id env) t env a = (res, b)"
    and "conn_member_id c (ra_connections a) = Some (env_sender_id env)"
  shows "(\<exists>e. res = Inl e) \<or> fresh E c t env a \<and> acts_on a c env (res, b)"
proof (cases "env_epoch env \<noteq> ra_epoch a \<or>
    (\<exists>l. replay_last_accepted (env_sender_id env) (ra_epoch a) (ra_chat_replay a) = Some l \<and>
       env_sender_sequence env \<le> l)")
  case True
  with assms(1) show ?thesis by (auto simp: relay_opened_def split: if_splits option.splits)
next
  case False
  then have ep: "env_epoch env = ra_epoch a" and new: "\<forall>l. replay_last_accepted (env_sender_id env) (ra_epoch a)
      (ra_chat_replay a) = Some l \<longrightarrow> l < env_sender_sequence env" by (auto simp: not_le)
  let ?a = "a\<lparr>ra_chat_replay := snd (replay_accept (env_sender_id env) (ra_epoch a) (env_sender_sequence env) (ra_chat_replay a))\<rparr>"
  have rep: "ra_chat_replay ?a = (ra_chat_replay a)((env_sender_id env, ra_epoch a) \<mapsto> env_sender_sequence env)"
    using new by (auto simp: replay_accept_def replay_last_accepted_def split: option.splits)
  show ?thesis
  proof (cases "chat_plaintext E (env_sender_id env) t env a")
    case (Inl e)
    with assms(1) ep new show ?thesis by (auto simp: relay_opened_def split: if_splits option.splits)
  next
    case (Inr p)
    with ep new assms(2) have "fresh E c t env a" by (simp add: fresh_def)
    moreover have "acts_on a c env (relay_opened E c (env_sender_id env) t env a)"
      using ep new Inr payload_acts_on [OF rep]
      by (auto simp: relay_opened_def Let_def split: option.splits)
    ultimately show ?thesis using assms(1) by simp
  qed
qed

lemma rate_limits_irrelevant [simp]:
  "current_key (a\<lparr>ra_rate_limits := rl\<rparr>) = current_key a"
  "other_connections c (a\<lparr>ra_rate_limits := rl\<rparr>) = other_connections c a"
  "epoch_ok (a\<lparr>ra_rate_limits := rl\<rparr>) = epoch_ok a"
  by (simp_all add: current_key_def other_connections_def member_connections_def
      epoch_ok_def settled_def in_transition_def member_ids_def split: option.split)

lemma fresh_rate_limits [simp]:
  "fresh E c t env (a\<lparr>ra_rate_limits := rl\<rparr>) = fresh E c t env a"
  by (simp add: fresh_def chat_plaintext_def split: option.split)

lemma acts_on_rate_limits [simp]:
  "acts_on (a\<lparr>ra_rate_limits := rl\<rparr>) c env res = acts_on a c env res"
  by (simp add: acts_on_def split: prod.split sum.split)

lemma now_irrelevant [simp]:
  "fresh E c t env (a\<lparr>ra_now := now\<rparr>) = fresh E c t env a"
  "acts_on (a\<lparr>ra_now := now\<rparr>) c env res = acts_on a c env res"
  by (simp_all add: fresh_def chat_plaintext_def acts_on_def other_connections_def member_connections_def
      split: option.split prod.split sum.split)

lemma chat_received_cases:
  assumes "on_chat_received E c t env a = (Inr acts, b)"
  obtains (direct) "relay_opened E c (env_sender_id env) t env a = (Inr acts, b)"
      "conn_member_id c (ra_connections a) = Some (env_sender_id env)"
  | (limited) rl where "relay_opened E c (env_sender_id env) t env (a\<lparr>ra_rate_limits := rl\<rparr>) = (Inr acts, b)"
      "conn_member_id c (ra_connections a) = Some (env_sender_id env)"
  | (refused) ab rl where "rate_limited E c (env_sender_id env) ab (a\<lparr>ra_rate_limits := rl\<rparr>) = (Inr acts, b)"
proof -
  from assms have i: "conn_member_id c (ra_connections a) = Some (env_sender_id env)"
    "by_id (env_sender_id env) (ra_members a) \<noteq> None"
    "t \<in> {MSG_CHAT, MSG_COLOR, MSG_TIMEOUT_REQUEST, MSG_TIMEOUT_CHANGED}"
    by (auto simp: on_chat_received_def split: if_splits option.splits)
  let ?l = "case ra_rate_limits a (env_sender_id env) of Some l \<Rightarrow> l | None \<Rightarrow> rate_limiter_new 5 1"
  obtain allowed l' where l: "limiter_allow (ra_now a) ?l = (allowed, l')" by (metis surj_pair)
  let ?a = "a\<lparr>ra_rate_limits := (ra_rate_limits a)(env_sender_id env \<mapsto> l')\<rparr>"
  have run: "(if t = MSG_TIMEOUT_CHANGED then relay_opened E c (env_sender_id env) t env a
      else if allowed then relay_opened E c (env_sender_id env) t env ?a
      else rate_limited E c (env_sender_id env) (limiter_is_abusive RATE_LIMIT_TERMINATION l') ?a) = (Inr acts, b)"
    using assms i l unfolding on_chat_received_def Let_def by (auto split: if_splits)
  show thesis
  proof (cases "t = MSG_TIMEOUT_CHANGED")
    case True
    with run i(1) show thesis by (intro that(1)) simp_all
  next
    case False
    with run i(1) show thesis by (cases allowed) (intro that(2), simp, simp, intro that(3), simp)
  qed
qed

definition takes_effect :: "room_action list \<Rightarrow> bool" where
  "takes_effect acts \<longleftrightarrow> relayed acts \<noteq> [] \<or> asks_host acts"

lemma chat_received_outcome:
  assumes "on_chat_received E c t env a = (Inr acts, b)" and "takes_effect acts"
  shows "fresh E c t env a \<and> acts_on a c env (Inr acts, b)"
  using assms(1)
proof (cases rule: chat_received_cases)
  case direct
  with relay_opened_outcome show ?thesis by fastforce
next
  case (limited rl)
  with relay_opened_outcome [OF limited(1)] show ?thesis by simp
next
  case (refused ab rl)
  then show ?thesis
    using relayed_remove_member assms(2) unfolding takes_effect_def
    by (fastforce simp: rate_limited_def Let_def elim!: tryS_cases split: sum.splits if_splits option.splits)
qed

lemma chat_event_outcome:
  assumes "handle_event_at E (EV_ChatReceived c t env) now a = (Inr acts, b)" and "takes_effect acts"
  shows "fresh E c t env a \<and> acts_on a c env (Inr acts, b) \<and> ra_state a \<noteq> RS_Destroyed"
proof -
  let ?a = "a\<lparr>ra_now := now\<rparr>"
  have live: "ra_state a \<noteq> RS_Closing" "ra_state a \<noteq> RS_Destroyed"
    using assms(1) by (auto simp: handle_event_at_def Let_def)
  have "on_chat_received E c t env ?a = (Inr acts, b) \<or> reject_during_transition c ?a = (Inr acts, b)"
    using assms(1) live by (auto simp: handle_event_at_def Let_def split: if_splits)
  moreover have "\<not> takes_effect acts" if "reject_during_transition c ?a = (Inr acts, b)"
    using that by (auto simp: reject_during_transition_def takes_effect_def split: if_splits sum.splits)
  ultimately have "on_chat_received E c t env ?a = (Inr acts, b)" using assms(2) by blast
  from chat_received_outcome [OF this assms(2)] live show ?thesis by simp
qed


section \<open>No envelope takes effect twice\<close>

text \<open>Every event keeps the epoch and the accepted sequences, or advances the epoch.\<close>

definition replay_kept :: "room_actor \<Rightarrow> room_actor \<Rightarrow> bool" where
  "replay_kept a b \<longleftrightarrow>
     ra_epoch b = ra_epoch a \<and> ra_chat_replay b = ra_chat_replay a \<or> ra_epoch b = ra_epoch a + 1"

definition replay_grows :: "room_actor \<Rightarrow> room_actor \<Rightarrow> bool" where
  "replay_grows a b \<longleftrightarrow>
     ra_epoch b = ra_epoch a + 1 \<or>
     ra_epoch b = ra_epoch a \<and>
     (\<forall>i l. replay_last_accepted i (ra_epoch a) (ra_chat_replay a) = Some l \<longrightarrow>
        (\<exists>l'. l \<le> l' \<and> replay_last_accepted i (ra_epoch b) (ra_chat_replay b) = Some l'))"

lemma replay_kept_grows: "replay_kept a b \<Longrightarrow> replay_grows a b"
  by (auto simp: replay_kept_def replay_grows_def)

lemma replay_kept_frame:
  "ra_epoch b = ra_epoch a \<Longrightarrow> ra_chat_replay b = ra_chat_replay a \<Longrightarrow> replay_kept a b"
  by (simp add: replay_kept_def)

lemma replay_kept_tryS:
  assumes "replay_kept a (snd m)"
    and "\<And>x s. ra_epoch (snd (f x s)) = ra_epoch s \<and> ra_chat_replay (snd (f x s)) = ra_chat_replay s"
  shows "replay_kept a (snd (tryS m f))"
  using assms by (intro tryS_inv [where P = "replay_kept a"]) (simp_all add: replay_kept_def)

lemma replay_kept_begin:
  "ra_epoch b = ra_epoch a \<Longrightarrow> replay_kept a (snd (begin_epoch_transition E b))"
  by (simp add: replay_kept_def)

lemma replay_kept_remove_member:
  assumes "ra_epoch b = ra_epoch a" and "ra_chat_replay b = ra_chat_replay a"
  shows "replay_kept a (snd (remove_member E i t b))"
  unfolding remove_member_def
  by (auto simp: assms replay_kept_frame split: prod.split option.split
      intro!: replay_kept_tryS replay_kept_begin)

lemma replay_kept_removal:
  assumes "ra_epoch b = ra_epoch a" and "ra_chat_replay b = ra_chat_replay a"
    and "\<And>x s. ra_epoch (snd (f x s)) = ra_epoch s \<and> ra_chat_replay (snd (f x s)) = ra_chat_replay s"
  shows "replay_kept a (snd (tryS (remove_member E i t b) f))"
  by (rule replay_kept_tryS [OF replay_kept_remove_member [OF assms(1,2)] assms(3)])

lemma evict_replay: "ra_chat_replay (snd (evict_members ids a)) = ra_chat_replay a"
  by (induction ids a rule: evict_members.induct) (auto split: option.splits prod.splits)

lemma replay_kept_timeout: "replay_kept a (snd (on_epoch_timeout E a))"
proof (cases "ra_pending_epoch a")
  case None
  then show ?thesis by (simp add: on_epoch_timeout_def replay_kept_frame)
next
  case (Some p)
  let ?a = "a\<lparr>ra_pending_epoch := None\<rparr>"
  obtain removed acts b where e: "evict_members (pe_awaiting p) ?a = ((removed, acts), b)"
    by (metis surj_pair)
  have b: "ra_epoch b = ra_epoch a" using evict_frame(1) [of "pe_awaiting p" ?a] e by simp
  have "replay_kept a (snd (tryS (begin_epoch_transition E b)
      (\<lambda>wraps a3. (Inr (acts @ wraps), gone_all E removed a3))))"
    by (rule replay_kept_tryS [OF replay_kept_begin [OF b]]) simp
  with Some e show ?thesis
    by (simp add: on_epoch_timeout_def gone_all_def replay_kept_frame close_room_def Let_def)
qed

lemma replay_kept_connection_lost: "replay_kept a (snd (on_connection_lost E c a))"
proof (rule connection_lost_cases [of c a E])
  assume "on_connection_lost E c a = close_room E a"
  then show ?thesis by (simp add: replay_kept_frame close_room_def)
next
  fix i g
  assume "on_connection_lost E c a = tryS (remove_member E i MSG_MEMBER_LEFT (without_timeouts c a))
    (\<lambda>(r, wraps) b. (Inr (g r wraps), forget c b))"
  then show ?thesis
    by (simp, intro replay_kept_removal) (auto simp: without_timeouts_def forget_def)
qed (simp_all add: replay_kept_frame without_timeouts_def forget_def)

lemma replay_kept_accept: "replay_kept a (snd (on_accept E i a))"
proof -
  have tr: "ra_epoch (snd (take_request i a)) = ra_epoch a"
    "ra_chat_replay (snd (take_request i a)) = ra_chat_replay a"
    by (simp_all add: take_request_def split: prod.split)
  show ?thesis
  proof (cases "take_first (\<lambda>t. pt_request_id t = i) (ra_timeout_requests a)")
    case (Some p)
    then show ?thesis by (simp add: on_accept_def replay_kept_frame split: prod.split)
  next
    case None
    show ?thesis
    proof (cases "take_request i a")
      case (Pair res a1)
      with tr have a1: "ra_epoch a1 = ra_epoch a" "ra_chat_replay a1 = ra_chat_replay a" by simp_all
      show ?thesis
        using None Pair a1
        by (cases res)
          (auto simp: on_accept_def Let_def replay_kept_frame split: prod.split sum.split
            intro!: replay_kept_tryS replay_kept_begin)
    qed
  qed
qed

lemma replay_kept_handlers:
  "replay_kept a (snd (on_epoch_ack c e a))"
  "replay_kept a (snd (close_room E a))"
  "replay_kept a (snd (on_join_requested c ap a))"
  "replay_kept a (snd (on_reject i a))"
  "replay_kept a (snd (on_color c col a))"
  "replay_kept a (snd (on_leave E c a))"
  "replay_kept a (snd (on_member_left E m a))"
  "replay_kept a (snd (on_kick E target a))"
  "replay_kept a (snd (reject_during_transition c a))"
proof -
  show "replay_kept a (snd (on_epoch_ack c e a))"
    by (simp add: on_epoch_ack_def replay_kept_frame Let_def split: option.split)
  show "replay_kept a (snd (close_room E a))"
    by (simp add: close_room_def replay_kept_frame)
  show "replay_kept a (snd (on_join_requested c ap a))"
    by (simp add: on_join_requested_def replay_kept_frame split: option.split prod.split sum.split)
  show "replay_kept a (snd (on_reject i a))"
    by (simp add: on_reject_def take_request_def tryS_def replay_kept_frame split: option.split prod.split sum.split)
  show "replay_kept a (snd (on_color c col a))"
    by (simp add: on_color_def replay_kept_frame split: option.split)
  show "replay_kept a (snd (on_leave E c a))"
    by (auto simp: on_leave_def replay_kept_frame split: option.split intro!: replay_kept_removal)
  show "replay_kept a (snd (on_member_left E m a))"
    by (auto simp: on_member_left_def split: option.split intro!: replay_kept_removal)
  show "replay_kept a (snd (on_kick E target a))"
    by (auto simp: on_kick_def replay_kept_frame split: option.split sum.split intro!: replay_kept_removal)
  show "replay_kept a (snd (reject_during_transition c a))"
    by (simp add: reject_during_transition_def replay_kept_frame split: sum.split)
qed

lemma replay_kept_policy:
  "replay_kept a (snd (on_new_id E a))" "replay_kept a (snd (set_policy E p a))"
proof -
  show "replay_kept a (snd (on_new_id E a))"
    by (rule replay_kept_frame)
      (simp_all add: on_new_id_def room_random_def tryS_def case_prod_beta split: prod.splits sum.splits)
  show "replay_kept a (snd (set_policy E p a))"
    by (rule replay_kept_frame) (simp_all add: set_policy_def case_prod_beta Let_def)
qed

lemma payload_replay [simp]:
  "ra_epoch (snd (on_color_payload c i env p a)) = ra_epoch a"
  "ra_epoch (snd (on_timeout_request_payload c i p a)) = ra_epoch a"
  "ra_epoch (snd (on_timeout_changed_payload c i env p a)) = ra_epoch a"
  "ra_epoch (snd (on_chat_payload c env p a)) = ra_epoch a"
  "ra_chat_replay (snd (on_color_payload c i env p a)) = ra_chat_replay a"
  "ra_chat_replay (snd (on_timeout_request_payload c i p a)) = ra_chat_replay a"
  "ra_chat_replay (snd (on_timeout_changed_payload c i env p a)) = ra_chat_replay a"
  "ra_chat_replay (snd (on_chat_payload c env p a)) = ra_chat_replay a"
  by (simp_all add: on_color_payload_def on_timeout_request_payload_def
      on_timeout_changed_payload_def on_chat_payload_def relay_def Let_def
      split: sum.split option.split prod.split)

lemma replay_grows_relay: "replay_grows a (snd (relay_opened E c i t env a))"
proof -
  let ?t = "snd (replay_accept i (ra_epoch a) (env_sender_sequence env) (ra_chat_replay a))"
  have acc: "replay_grows a b" if "ra_epoch b = ra_epoch a" "ra_chat_replay b = ?t" for b
    using that
    by (auto simp: replay_grows_def replay_accept_def replay_last_accepted_def split: option.split)
  have "replay_grows a a" by (simp add: replay_kept_grows replay_kept_frame)
  with acc show ?thesis by (simp add: relay_opened_def Let_def split: sum.split option.split)
qed

lemma replay_grows_chat: "replay_grows a (snd (on_chat_received E c t env a))"
proof -
  have lim: "replay_grows a (snd (rate_limited E c i ab (a\<lparr>ra_rate_limits := rl\<rparr>)))" for i ab rl
    by (rule replay_kept_grows)
      (auto simp: rate_limited_def Let_def replay_kept_frame split: sum.split intro!: replay_kept_removal)
  have "replay_grows (a\<lparr>ra_rate_limits := rl\<rparr>) b \<Longrightarrow> replay_grows a b" for rl b
    by (simp add: replay_grows_def)
  then have "replay_grows a (snd (relay_opened E c i k env (a\<lparr>ra_rate_limits := rl\<rparr>)))" for i k rl
    using replay_grows_relay by blast
  moreover have "replay_grows a a" by (simp add: replay_kept_grows replay_kept_frame)
  ultimately show ?thesis
    using lim by (simp add: on_chat_received_def Let_def replay_grows_relay split: option.split prod.split)
qed

lemma replay_grows_host: "replay_grows a (snd (on_host_command E cmd a))"
  by (rule replay_kept_grows)
    (cases cmd; simp add: replay_kept_handlers replay_kept_policy replay_kept_accept replay_kept_frame)

lemma replay_grows_member: "replay_grows a (snd (on_member_command E c cmd a))"
  by (rule replay_kept_grows)
    (cases cmd; simp add: replay_kept_handlers replay_kept_frame split: sum.split)

lemmas replay_grows_handlers =
  replay_kept_handlers [THEN replay_kept_grows] replay_kept_accept [THEN replay_kept_grows]
  replay_kept_timeout [THEN replay_kept_grows] replay_kept_connection_lost [THEN replay_kept_grows]
  replay_kept_frame [THEN replay_kept_grows]
  replay_grows_chat replay_grows_host replay_grows_member

lemma event_replay_grows: "replay_grows a (snd (handle_event_at E ev now a))"
proof -
  let ?a = "a\<lparr>ra_now := now\<rparr>"
  have "replay_grows ?a (snd (handle_in_transition E ev ?a))"
    by (cases "(E, ev, ?a)" rule: handle_in_transition.cases) (simp_all add: replay_grows_handlers)
  moreover have "replay_grows ?a (snd (handle_settled E ev ?a))"
    by (cases ev) (simp_all add: replay_grows_handlers)
  moreover have "replay_grows ?a ?a" by (simp add: replay_grows_handlers)
  ultimately have "replay_grows ?a (snd (handle_event_at E ev now a))"
    by (simp add: handle_event_at_def Let_def)
  then show ?thesis by (simp add: replay_grows_def)
qed

text \<open>
  The envelopes that take effect in a run, each as its sender, epoch and sequence: forwarded, or,
  for a timeout request, shown to the host.
\<close>

fun effective :: "room_env \<Rightarrow> (room_event \<times> duration) list \<Rightarrow> room_actor \<Rightarrow> (u64 \<times> u64 \<times> u64) list" where
  "effective E [] a = []"
| "effective E ((ev, t) # evs) a =
     (case handle_event_at E ev t a of
        (res, b) \<Rightarrow>
          (case (ev, res) of
             (EV_ChatReceived c k env, Inr acts) \<Rightarrow>
               if takes_effect acts then [(env_sender_id env, env_epoch env, env_sender_sequence env)] else []
           | _ \<Rightarrow> []) @ effective E evs b)"

text \<open>An offer that the room can still accept.\<close>

definition ahead :: "room_actor \<Rightarrow> u64 \<times> u64 \<times> u64 \<Rightarrow> bool" where
  "ahead a k \<longleftrightarrow>
     (case k of (i, e, n) \<Rightarrow> ra_epoch a < e \<or> ra_epoch a = e \<and>
        (\<forall>l. replay_last_accepted i e (ra_chat_replay a) = Some l \<longrightarrow> l < n))"

lemma ahead_back:
  assumes "replay_grows a b" and "ra_epoch a + 1 \<noteq> 0" and "ahead b k"
  shows "ahead a k"
proof -
  obtain i e n where k: "k = (i, e, n)" by (cases k)
  show ?thesis
  proof (cases "ra_epoch b = ra_epoch a + 1")
    case True
    with word_less_inc [OF assms(2)] assms(3) show ?thesis
      by (auto simp: ahead_def k intro: less_trans)
  next
    case False
    with assms(1) have "ra_epoch b = ra_epoch a"
      and g: "\<And>l. replay_last_accepted i (ra_epoch a) (ra_chat_replay a) = Some l \<Longrightarrow>
        \<exists>l'. l \<le> l' \<and> replay_last_accepted i (ra_epoch b) (ra_chat_replay b) = Some l'"
      by (auto simp: replay_grows_def)
    with assms(3) show ?thesis by (auto simp: ahead_def k dest!: g intro: le_less_trans)
  qed
qed

lemma u64_room:
  fixes w :: u64
  assumes "unat w + Suc k < 2 ^ 64"
  shows "w + 1 \<noteq> 0" "unat (w + 1) + k < 2 ^ 64"
proof -
  have w: "unat (w + 1) = Suc (unat w)" using assms by (simp add: unat_word_ariths)
  then show "w + 1 \<noteq> 0" by (metis nat.distinct(1) unat_0)
  show "unat (w + 1) + k < 2 ^ 64" using assms by (simp add: w)
qed

lemma grows_room:
  assumes "unat (ra_epoch a) + length (x # evs) < 2 ^ 64" and "replay_grows a b"
  shows "ra_epoch a + 1 \<noteq> 0 \<and> unat (ra_epoch b) + length evs < 2 ^ 64"
  using u64_room [of "ra_epoch a" "length evs"] assms by (auto simp: replay_grows_def)

lemma effective_ahead:
  "unat (ra_epoch a) + length evs < 2 ^ 64 \<Longrightarrow>
   list_all (ahead a) (effective E evs a) \<and> distinct (effective E evs a)"
proof (induction evs arbitrary: a)
  case Nil
  show ?case by simp
next
  case (Cons x evs)
  obtain ev t where x: "x = (ev, t)" by (cases x)
  obtain res b where h: "handle_event_at E ev t a = (res, b)" by (metis surj_pair)
  have g: "replay_grows a b" using event_replay_grows [of a E ev t] h by simp
  define new where "new = (case (ev, res) of (EV_ChatReceived c k env, Inr acts) \<Rightarrow>
      if takes_effect acts then [(env_sender_id env, env_epoch env, env_sender_sequence env)] else [] | _ \<Rightarrow> [])"
  have eff: "effective E (x # evs) a = new @ effective E evs b"
    by (simp add: x h new_def)
  have new: "new = [] \<or> (\<exists>k. new = [k] \<and> ahead a k \<and> \<not> ahead b k)"
  proof (cases "new = []")
    case False
    then obtain c k env acts where ev: "ev = EV_ChatReceived c k env" and res: "res = Inr acts"
      and te: "takes_effect acts" and n: "new = [(env_sender_id env, env_epoch env, env_sender_sequence env)]"
      by (auto simp: new_def split: room_event.splits sum.splits if_splits)
    from chat_event_outcome [OF h [unfolded ev res] te]
    show ?thesis by (auto simp: n ahead_def fresh_def acts_on_def replay_last_accepted_def)
  qed simp
  from grows_room [OF Cons.prems g]
  have nz: "ra_epoch a + 1 \<noteq> 0" and len: "unat (ra_epoch b) + length evs < 2 ^ 64" by simp_all
  from Cons.IH [OF len] have ih: "\<forall>k \<in> set (effective E evs b). ahead b k" "distinct (effective E evs b)"
    by (simp_all add: list_all_iff)
  then have "\<forall>k \<in> set (effective E evs b). ahead a k" using ahead_back [OF g nz] by blast
  with new ih show ?case by (auto simp: eff list_all_iff)
qed

text \<open>
  C1: exactly-once relay, over the whole life of a room: in any sequence of events, whatever
  clients send or resend, across members joining and leaving and keys rotating, no envelope
  (sender, epoch, sequence) takes effect twice. The hypothesis bounds the run so that the 64-bit
  epoch counter does not wrap around.
\<close>

theorem no_envelope_twice:
  assumes "unat (ra_epoch a) + length evs < 2 ^ 64"
  shows "distinct (effective E evs a)"
  using effective_ahead [OF assms] by blast

end
