(* ===== verification/EndToEnd.thy ===== *)
theory EndToEnd
  imports ActorAdmit ActorChat ChatSession
begin

text \<open>
  The host's room actor and the participants' sessions together: a key that the room distributes is
  installed by the member it was wrapped for, a chat message that a member seals is relayed and
  read by the others, and a session that follows the signed broadcasts has the room's member list.
\<close>

section \<open>Sealing and opening\<close>

text \<open>What an envelope of a session satisfies.\<close>

definition sealed_by :: "crypto \<Rightarrow> identity \<Rightarrow> bytes \<Rightarrow> u64 \<Rightarrow> bytes \<Rightarrow> u8 \<Rightarrow> bytes \<Rightarrow> envelope \<Rightarrow> bool" where
  "sealed_by C i session epoch key t p env \<longleftrightarrow>
     env_epoch env = epoch \<and>
     open_envelope C key (identity_ed25519_pubkey C i) 1 session epoch (env_sender_id env)
       (env_sender_sequence env) t (env_nonce env) (env_ciphertext env) (env_signature env) = Inr p"

lemma session_seal_ok:
  assumes "crypto_ok C" and "cs_current_epoch s = Some (epoch, key)"
    and "fill_random XCHACHA_NONCE_LEN (cs_entropy s) = (Inr nonce, es)"
    and "1 \<le> length p" and "length p \<le> 4096"
  shows "\<exists>env. session_seal C i t p s =
      (Inr env, s\<lparr>cs_sender_sequence := cs_sender_sequence s + 1, cs_entropy := es\<rparr>) \<and>
    sealed_by C i (cs_room_session_id s) epoch key t p env \<and>
    env_sender_id env = cs_member_id s \<and> env_sender_sequence env = cs_sender_sequence s + 1"
proof -
  let ?seal = "seal_envelope C key i 1 (cs_room_session_id s) epoch (cs_member_id s)
    (cs_sender_sequence s + 1) t p (cs_entropy s)"
  obtain e where e: "?seal = (Inr e, es)"
    using seal_succeeds [OF assms(1)] assms(3) unfolding XCHACHA_NONCE_LEN_def by blast
  note o = open_sealed [OF assms(1) e]
  have "CHAT_MIN_CIPHERTEXT_LEN \<le> length (se_ciphertext e) \<and> length (se_ciphertext e) \<le> CHAT_MAX_CIPHERTEXT_LEN"
    using o assms(4,5) by (simp add: CHAT_MIN_CIPHERTEXT_LEN_def CHAT_MAX_CIPHERTEXT_LEN_def)
  with e o assms(2) show ?thesis
    by (simp add: session_seal_def envelope_new_def sealed_by_def Let_def)
qed

lemma chat_text_scalar_size:
  "validate_chat_text text default_limits = Inr () \<Longrightarrow> length (utf8 text) \<le> 4096"
  by (auto simp: validate_chat_text_def str_len_def default_limits_def split: if_splits)

lemma send_chat_ok:
  assumes "crypto_ok C" and "cs_current_epoch s = Some (epoch, key)"
    and "fill_random XCHACHA_NONCE_LEN (cs_entropy s) = (Inr nonce, es)"
    and "validate_chat_text text default_limits = Inr ()" and "utf8 text \<noteq> []"
  shows "\<exists>env. send_chat C i text s = (Inr (M_ChatMessage env),
      s\<lparr>cs_sender_sequence := cs_sender_sequence s + 1, cs_entropy := es\<rparr>) \<and>
    sealed_by C i (cs_room_session_id s) epoch key MSG_CHAT (utf8 text) env \<and>
    env_sender_id env = cs_member_id s \<and> env_sender_sequence env = cs_sender_sequence s + 1"
proof -
  have "1 \<le> length (utf8 text)" using assms(5) by (simp add: Suc_le_eq)
  from session_seal_ok [OF assms(1-3) this chat_text_scalar_size [OF assms(4)], of i MSG_CHAT] assms(4)
  show ?thesis by (auto simp: send_chat_def seal_message_def)
qed

lemma session_open_ok:
  assumes "sealed_by C i (cs_room_session_id r) epoch key t p env" and "cs_current_epoch r = Some (epoch, key)"
    and "session_member (env_sender_id env) r = Some v" and "mv_ed25519_pubkey v = identity_ed25519_pubkey C i"
    and "\<forall>l. replay_last_accepted (env_sender_id env) epoch (cs_replay r) = Some l \<longrightarrow> l < env_sender_sequence env"
  shows "\<exists>r'. session_open C t env r = (Inr p, r')"
  using assms by (auto simp: session_open_def sealed_by_def not_le split: option.splits)

section \<open>The room relays what its members seal\<close>

lemma relay_opened_chat:
  assumes "sealed_by C i (ra_session_id a) (ra_epoch a) key MSG_CHAT (utf8 text) env" and "C = en_crypto E"
    and "settled a" and "ra_epoch_key a = Some key"
    and "by_id (env_sender_id env) (ra_members a) = Some m" and "m_ed25519_pubkey m = identity_ed25519_pubkey C i"
    and "\<forall>l. replay_last_accepted (env_sender_id env) (ra_epoch a) (ra_chat_replay a) = Some l \<longrightarrow>
           l < env_sender_sequence env"
    and "validate_chat_text text default_limits = Inr ()" and "\<forall>c \<in> set text. scalar c"
  shows "\<exists>b. relay_opened E c (env_sender_id env) MSG_CHAT env a =
    (Inr (map (\<lambda>m. RA_SendTo (m_connection m) (M_ChatMessage env))
       (filter (\<lambda>m. m_connection m \<noteq> c) (mt_members (ra_members a)))), b)"
proof -
  have "chat_plaintext E (env_sender_id env) MSG_CHAT env a = Inr (utf8 text)"
    using assms(1-6) by (simp add: chat_plaintext_def settled_def sealed_by_def)
  then show ?thesis
    using assms(1,7-9)
    by (auto simp: relay_opened_def sealed_by_def msg_constants on_chat_payload_def relay_def
        from_utf8_utf8 not_le Let_def split: option.splits)
qed

text \<open>A member's session and the room agree: same room, epoch and key, and the member's identity.\<close>

definition in_sync :: "crypto \<Rightarrow> room_actor \<Rightarrow> member \<Rightarrow> identity \<Rightarrow> chat_session \<Rightarrow> bool" where
  "in_sync C a m i s \<longleftrightarrow>
     m \<in> set (mt_members (ra_members a)) \<and> m_ed25519_pubkey m = identity_ed25519_pubkey C i \<and>
     cs_room_session_id s = ra_session_id a \<and> cs_member_id s = m_member_id m \<and>
     cs_current_epoch s = map_option (Pair (ra_epoch a)) (ra_epoch_key a)"

definition limiter_of :: "u64 \<Rightarrow> room_actor \<Rightarrow> rate_limiter" where
  "limiter_of i a = (case ra_rate_limits a i of Some l \<Rightarrow> l | None \<Rightarrow> rate_limiter_new 5 1)"

definition newer :: "u64 \<Rightarrow> u64 \<Rightarrow> u64 \<Rightarrow> replay_tracker \<Rightarrow> bool" where
  "newer i epoch n t \<longleftrightarrow> (\<forall>l. replay_last_accepted i epoch t = Some l \<longrightarrow> l < n)"

lemma relayed_chat: "relayed (map (\<lambda>d. RA_SendTo d (M_ChatMessage env)) ds) = map (\<lambda>d. (d, env)) ds"
  by (induction ds) simp_all

lemma room_relays_chat:
  assumes "stores_ok a" and "settled a" and "in_sync (en_crypto E) a m i s"
    and "sealed_by (en_crypto E) i (cs_room_session_id s) (ra_epoch a) key MSG_CHAT (utf8 text) env"
    and "ra_epoch_key a = Some key" and "env_sender_id env = cs_member_id s"
    and "newer (cs_member_id s) (ra_epoch a) (env_sender_sequence env) (ra_chat_replay a)"
    and "fst (limiter_allow now (limiter_of (cs_member_id s) a))"
    and "validate_chat_text text default_limits = Inr ()" and "\<forall>c \<in> set text. scalar c"
  shows "\<exists>acts b. handle_event_at E (EV_ChatReceived (m_connection m) MSG_CHAT env) now a = (Inr acts, b) \<and>
    acts = map (\<lambda>d. RA_SendTo d (M_ChatMessage env)) (other_connections (m_connection m) a)"
proof -
  let ?a = "a\<lparr>ra_now := now\<rparr>"
  obtain l' where l: "limiter_allow now (limiter_of (cs_member_id s) a) = (True, l')"
    using assms(8) by (metis prod.collapse)
  let ?a1 = "?a\<lparr>ra_rate_limits := (ra_rate_limits a)(cs_member_id s \<mapsto> l')\<rparr>"
  from assms(3) have m: "m \<in> set (mt_members (ra_members a))" "cs_member_id s = m_member_id m"
    and key: "m_ed25519_pubkey m = identity_ed25519_pubkey (en_crypto E) i" and ses: "cs_room_session_id s = ra_session_id a"
    by (simp_all add: in_sync_def)
  have tab: "table_ok (ra_members a)" using assms(1) by (simp add: stores_ok_def stores_wf_def)
  have byid: "by_id (m_member_id m) (ra_members a) = Some m" using by_id_iff [OF tab] m by blast
  have "conn_role (m_connection m) (ra_connections a) = Some (CR_Member (m_member_id m))"
    using assms(1) m(1) unfolding stores_ok_def stores_wf_def by blast
  then have conn: "conn_member_id (m_connection m) (ra_connections a) = Some (m_member_id m)"
    by (simp add: conn_member_id_role)
  have "settled ?a1" using assms(2) by (simp add: settled_def)
  with relay_opened_chat [of "en_crypto E" i ?a1 key "text" env E m "m_connection m"]
    assms(4-7,9,10) ses byid m key
  obtain b where r: "relay_opened E (m_connection m) (m_member_id m) MSG_CHAT env ?a1 =
    (Inr (map (\<lambda>m. RA_SendTo (m_connection m) (M_ChatMessage env))
       (filter (\<lambda>m'. m_connection m' \<noteq> m_connection m) (mt_members (ra_members a)))), b)"
    by (auto simp: newer_def)
  have "on_chat_received E (m_connection m) MSG_CHAT env ?a = relay_opened E (m_connection m) (m_member_id m) MSG_CHAT env ?a1"
    using conn byid m assms(6) l
    by (simp add: on_chat_received_def msg_constants limiter_of_def Let_def)
  moreover have "ra_state a = RS_Open \<or> ra_state a = RS_Locked"
    using assms(2) by (auto simp: settled_def split: if_splits)
  ultimately show ?thesis
    using r by (auto simp: handle_event_at_def Let_def other_connections_def member_connections_def filter_map comp_def)
qed

text \<open>
  The relay without the wire: what a member in sync with a settled room seals is sent on to every other member, and
  every session that is in the room's epoch, knows the sender with its key and has accepted nothing newer from it
  reads the text that was sent.
\<close>

lemma chat_is_relayed:
  assumes "crypto_ok (en_crypto E)" and "stores_ok a" and "settled a" and "in_sync (en_crypto E) a m i s"
    and "validate_chat_text text default_limits = Inr ()" and "utf8 text \<noteq> []" and "\<forall>c \<in> set text. scalar c"
    and "fill_random XCHACHA_NONCE_LEN (cs_entropy s) = (Inr nonce, es)"
    and "newer (cs_member_id s) (ra_epoch a) (cs_sender_sequence s + 1) (ra_chat_replay a)"
    and "fst (limiter_allow now (limiter_of (cs_member_id s) a))"
  shows "\<exists>env s' acts b. send_chat (en_crypto E) i text s = (Inr (M_ChatMessage env), s') \<and>
    handle_event_at E (EV_ChatReceived (m_connection m) MSG_CHAT env) now a = (Inr acts, b) \<and>
    acts = map (\<lambda>d. RA_SendTo d (M_ChatMessage env)) (other_connections (m_connection m) a) \<and>
    (\<forall>r v. cs_room_session_id r = ra_session_id a \<and> cs_current_epoch r = cs_current_epoch s \<and>
       session_member (cs_member_id s) r = Some v \<and> mv_ed25519_pubkey v = m_ed25519_pubkey m \<and>
       newer (cs_member_id s) (ra_epoch a) (cs_sender_sequence s + 1) (cs_replay r) \<longrightarrow>
       (\<exists>r'. receive_chat (en_crypto E) env r = (Inr text, r')))"
proof -
  obtain key where key: "ra_epoch_key a = Some key" using assms(3) by (auto simp: settled_def)
  with assms(4) have ep: "cs_current_epoch s = Some (ra_epoch a, key)"
    and pk: "m_ed25519_pubkey m = identity_ed25519_pubkey (en_crypto E) i"
    and ses: "cs_room_session_id s = ra_session_id a" by (simp_all add: in_sync_def)
  from send_chat_ok [OF assms(1) ep assms(8) assms(5,6), of i] obtain env s' where
    send: "send_chat (en_crypto E) i text s = (Inr (M_ChatMessage env), s')" and
    env: "sealed_by (en_crypto E) i (cs_room_session_id s) (ra_epoch a) key MSG_CHAT (utf8 text) env"
      "env_sender_id env = cs_member_id s" "env_sender_sequence env = cs_sender_sequence s + 1" by blast
  have new: "newer (cs_member_id s) (ra_epoch a) (env_sender_sequence env) (ra_chat_replay a)"
    using assms(9) env(3) by simp
  from room_relays_chat [OF assms(2-4) env(1) key env(2) new assms(10,5,7)] obtain acts b where
    relay: "handle_event_at E (EV_ChatReceived (m_connection m) MSG_CHAT env) now a = (Inr acts, b)"
      "acts = map (\<lambda>d. RA_SendTo d (M_ChatMessage env)) (other_connections (m_connection m) a)" by blast
  have "\<exists>r'. receive_chat (en_crypto E) env r = (Inr text, r')"
    if r: "cs_room_session_id r = ra_session_id a" "cs_current_epoch r = cs_current_epoch s"
      "session_member (cs_member_id s) r = Some v" "mv_ed25519_pubkey v = m_ed25519_pubkey m"
      "newer (cs_member_id s) (ra_epoch a) (cs_sender_sequence s + 1) (cs_replay r)" for r v
  proof -
    have "\<exists>r'. session_open (en_crypto E) MSG_CHAT env r = (Inr (utf8 text), r')"
      by (rule session_open_ok [where i = i and epoch = "ra_epoch a" and key = key and v = v])
        (use r env ep pk ses in \<open>simp_all add: newer_def\<close>)
    then show ?thesis
      using assms(5,7) by (auto simp: receive_chat_def from_utf8_utf8)
  qed
  with send relay show ?thesis by blast
qed

text \<open>The session of member 1 of the concrete room, and of its host.\<close>

definition demo_view :: "u64 \<Rightarrow> rstring \<Rightarrow> u8 \<Rightarrow> member_view" where
  "demo_view i n b = \<lparr>mv_member_id = i, mv_nickname = n, mv_color = color_default, mv_is_host = (i = 0),
     mv_ed25519_pubkey = replicate 32 b\<rparr>"

definition demo_session :: "u64 \<Rightarrow> chat_session" where
  "demo_session i =
     (session_new (replicate 32 9) (replicate 32 4) (replicate 32 4) i [Some []])
       \<lparr>cs_current_epoch := Some (2, replicate 32 5), cs_members := [demo_view 0 [104] 1, demo_view 1 [97] 2]\<rparr>"

lemma demo_in_sync: "in_sync plain_crypto demo_room (demo_member 1 7 [97] 2) (demo_identity 2) (demo_session 1)"
  by (simp add: in_sync_def demo_defs demo_session_def session_new_def identity_ed25519_pubkey_def
      plain_crypto_def pad_def)

lemma demo_text: "validate_chat_text [104, 105] default_limits = Inr ()" "utf8 [104, 105] \<noteq> []"
    "\<forall>c \<in> set [104, 105]. scalar c"
  by (simp_all add: validate_chat_text_def contains_control_char_def is_unsafe_display_char_def
      char_is_control_def is_dangerous_format_char_def str_len_def utf8_def utf8_char_def
      default_limits_def scalar_def)

lemma demo_allowed: "fst (limiter_allow 0 (limiter_of 1 demo_room))"
  by (simp add: limiter_of_def demo_defs limiter_allow_def limiter_refill_def rate_limiter_new_def Let_def)

lemma demo_relayed:
  "\<exists>env acts b. handle_event_at demo_env (EV_ChatReceived 7 MSG_CHAT env) 0 demo_room = (Inr acts, b) \<and>
     relayed acts = [(0, env)]"
proof -
  let ?s = "demo_session 1"
  have c: "crypto_ok plain_crypto" by (rule plain_crypto_ok)
  have f: "cs_member_id ?s = 1" "cs_sender_sequence ?s + 1 = 1" "m_connection (demo_member 1 7 [97] 2) = 7"
    "en_crypto demo_env = plain_crypto" "cs_current_epoch ?s = Some (ra_epoch demo_room, replicate 32 5)"
    "ra_epoch_key demo_room = Some (replicate 32 5)" "other_connections 7 demo_room = [0]"
    by (simp_all add: demo_session_def session_new_def demo_defs other_connections_def member_connections_def)
  have rnd: "fill_random XCHACHA_NONCE_LEN (cs_entropy ?s) = (Inr (pad XCHACHA_NONCE_LEN []), [])"
    by (simp add: demo_session_def session_new_def fill_random_def pad_def)
  from send_chat_ok [OF c f(5) rnd demo_text(1,2), of "demo_identity 2"] obtain env where
    env: "sealed_by (en_crypto demo_env) (demo_identity 2) (cs_room_session_id ?s) (ra_epoch demo_room)
        (replicate 32 5) MSG_CHAT (utf8 [104, 105]) env"
      "env_sender_id env = cs_member_id ?s" "env_sender_sequence env = cs_sender_sequence ?s + 1"
    unfolding f(4) by blast
  have sync: "in_sync (en_crypto demo_env) demo_room (demo_member 1 7 [97] 2) (demo_identity 2) ?s"
    unfolding f(4) by (rule demo_in_sync)
  have new: "newer (cs_member_id ?s) (ra_epoch demo_room) (env_sender_sequence env) (ra_chat_replay demo_room)"
    by (simp add: newer_def demo_room_def replay_last_accepted_def replay_new_def)
  have lim: "fst (limiter_allow 0 (limiter_of (cs_member_id ?s) demo_room))"
    using demo_allowed by (simp add: f)
  from room_relays_chat [OF demo_stores_ok demo_settled sync env(1) f(6) env(2) new lim demo_text(1,3), unfolded f]
  obtain b where "handle_event_at demo_env (EV_ChatReceived 7 MSG_CHAT env) 0 demo_room = (Inr [RA_SendTo 0 (M_ChatMessage env)], b)"
    by auto
  then show ?thesis by (intro exI [of _ env] exI [of _ "[RA_SendTo 0 (M_ChatMessage env)]"]) simp
qed


text \<open>A relayed envelope that is offered again later takes effect once.\<close>

lemma no_envelope_twice_witness:
  "\<exists>env acts b. handle_event_at demo_env (EV_ChatReceived 7 MSG_CHAT env) 0 demo_room = (Inr acts, b) \<and>
     relayed acts = [(0, env)] \<and>
     distinct (effective demo_env [(EV_ChatReceived 7 MSG_CHAT env, 0), (EV_EpochMaintenance, 2),
       (EV_ChatReceived 7 MSG_CHAT env, 3)] demo_room)"
proof -
  obtain env acts b where "handle_event_at demo_env (EV_ChatReceived 7 MSG_CHAT env) 0 demo_room = (Inr acts, b)"
    "relayed acts = [(0, env)]" using demo_relayed by blast
  moreover have "distinct (effective demo_env [(EV_ChatReceived 7 MSG_CHAT env, 0), (EV_EpochMaintenance, 2),
       (EV_ChatReceived 7 MSG_CHAT env, 3)] demo_room)"
    by (rule no_envelope_twice) (simp add: demo_room_def)
  ultimately show ?thesis by blast
qed

section \<open>The session installs the key it was sent\<close>

lemma session_installs:
  assumes "opens_wrap C (cs_host_x25519_pubkey s) (cs_room_session_id s) key m w"
    and "identity_x25519_pubkey C i = m_x25519_pubkey m" and "cs_member_id s = m_member_id m"
    and "\<forall>e. session_epoch s = Some e \<longrightarrow> e < ew_epoch w"
  shows "\<exists>s'. set_epoch_from_wrap C i w s = (Inr (ew_epoch w), s') \<and>
    cs_current_epoch s' = Some (ew_epoch w, key) \<and> cs_members s' = cs_members s"
proof -
  from assms(1-3) obtain wk where
    "try_wrap_key_for C i (cs_host_x25519_pubkey s) (cs_room_session_id s) (cs_member_id s) = Inr wk"
    "unwrap_epoch_key C wk (ew_epoch w) (cs_room_session_id s) (ew_nonce w) (ew_ciphertext w) = Inr key"
    unfolding opens_wrap_def by metis
  with assms(4) show ?thesis
    by (auto simp: set_epoch_from_wrap_def install_epoch_def not_le split: option.splits)
qed

lemma epoch_wraps_in: "cw \<in> set (epoch_wraps acts) \<Longrightarrow> RA_SendTo (fst cw) (M_EpochWrap (snd cw)) \<in> set acts"
  by (induction acts rule: epoch_wraps.induct) auto

text \<open>
  C4: key agreement. When the room begins a transition (randomness delivering, keys contributory),
  it sends every member a wrap on the member's connection with which a session of that member, in
  an older epoch and with the host's keys pinned, moves to the new epoch and to the key the room
  is waiting to activate: the room and all its members end up with the same key.
\<close>

theorem members_install_room_key:
  assumes "crypto_ok (en_crypto E)" and "rekey_ready E a"
  shows "\<exists>acts b p. begin_epoch_transition E a = (Inr acts, b) \<and> ra_pending_epoch b = Some p \<and>
    pe_epoch p = ra_epoch a + 1 \<and>
    (\<forall>m \<in> set (mt_members (ra_members a)). \<exists>w.
       RA_SendTo (m_connection m) (M_EpochWrap w) \<in> set acts \<and>
       (\<forall>i s. identity_x25519_pubkey (en_crypto E) i = m_x25519_pubkey m \<and> cs_member_id s = m_member_id m \<and>
          cs_room_session_id s = ra_session_id a \<and>
          cs_host_x25519_pubkey s = identity_x25519_pubkey (en_crypto E) (ra_host_identity a) \<and>
          (\<forall>e. session_epoch s = Some e \<longrightarrow> e < pe_epoch p) \<longrightarrow>
          (\<exists>s'. set_epoch_from_wrap (en_crypto E) i w s = (Inr (pe_epoch p), s') \<and>
             cs_current_epoch s' = Some (pe_epoch p, pe_key p))))"
proof -
  obtain acts b p where b: "begin_epoch_transition E a = (Inr acts, b)" "ra_pending_epoch b = Some p"
    and conns: "map fst (epoch_wraps acts) = member_connections a"
    and opens: "list_all2 (\<lambda>m cw. opens_wrap (en_crypto E)
      (identity_x25519_pubkey (en_crypto E) (ra_host_identity a)) (ra_session_id a) (pe_key p) m (snd cw))
      (mt_members (ra_members a)) (epoch_wraps acts)"
    using rekey_delivers [OF assms] by blast
  from begin_ok [OF b(1)] b(2) have ep: "pe_epoch p = ra_epoch a + 1"
    "\<forall>cw \<in> set (epoch_wraps acts). ew_epoch (snd cw) = ra_epoch a + 1" by (auto simp: rekeyed_def)
  have "\<exists>w. RA_SendTo (m_connection m) (M_EpochWrap w) \<in> set acts \<and> ew_epoch w = pe_epoch p \<and>
      opens_wrap (en_crypto E) (identity_x25519_pubkey (en_crypto E) (ra_host_identity a)) (ra_session_id a)
        (pe_key p) m w" if m: "m \<in> set (mt_members (ra_members a))" for m
  proof -
    from m obtain k where k: "k < length (mt_members (ra_members a))" "mt_members (ra_members a) ! k = m"
      by (auto simp: in_set_conv_nth)
    with opens have len: "k < length (epoch_wraps acts)" by (auto simp: list_all2_conv_all_nth)
    let ?cw = "epoch_wraps acts ! k"
    have "fst ?cw = m_connection m"
      using k len arg_cong [OF conns, of "\<lambda>xs. xs ! k"] by (simp add: member_connections_def)
    moreover have "?cw \<in> set (epoch_wraps acts)" using len by simp
    ultimately show ?thesis
      using epoch_wraps_in [of ?cw acts] opens k ep by (auto simp: list_all2_conv_all_nth)
  qed
  with b ep session_installs show ?thesis by (metis (no_types, lifting))
qed

text \<open>The concrete room: the session of member 1, still in epoch 2, installs the key of epoch 3.\<close>

lemma members_install_room_key_witness:
  "\<exists>acts b p w s'. begin_epoch_transition demo_env demo_room = (Inr acts, b) \<and> ra_pending_epoch b = Some p \<and>
     RA_SendTo 7 (M_EpochWrap w) \<in> set acts \<and>
     set_epoch_from_wrap plain_crypto (demo_identity 2) w (demo_session 1) = (Inr (pe_epoch p), s') \<and>
     cs_current_epoch s' = Some (pe_epoch p, pe_key p) \<and> pe_epoch p = 3"
proof -
  have c: "crypto_ok (en_crypto demo_env)" by (simp add: demo_env_def plain_crypto_ok)
  have r: "rekey_ready demo_env demo_room" by (simp add: rekey_ready_def demo_defs plain_crypto_def)
  obtain acts b p where b: "begin_epoch_transition demo_env demo_room = (Inr acts, b)" "ra_pending_epoch b = Some p"
      "pe_epoch p = ra_epoch demo_room + 1"
    and all: "\<forall>m \<in> set (mt_members (ra_members demo_room)). \<exists>w.
       RA_SendTo (m_connection m) (M_EpochWrap w) \<in> set acts \<and>
       (\<forall>i s. identity_x25519_pubkey (en_crypto demo_env) i = m_x25519_pubkey m \<and> cs_member_id s = m_member_id m \<and>
          cs_room_session_id s = ra_session_id demo_room \<and>
          cs_host_x25519_pubkey s = identity_x25519_pubkey (en_crypto demo_env) (ra_host_identity demo_room) \<and>
          (\<forall>e. session_epoch s = Some e \<longrightarrow> e < pe_epoch p) \<longrightarrow>
          (\<exists>s'. set_epoch_from_wrap (en_crypto demo_env) i w s = (Inr (pe_epoch p), s') \<and>
             cs_current_epoch s' = Some (pe_epoch p, pe_key p)))"
    using members_install_room_key [OF c r] by blast
  have m: "demo_member 1 7 [97] 2 \<in> set (mt_members (ra_members demo_room))" by (simp add: demo_room_def)
  have e: "pe_epoch p = 3" using b(3) by (simp add: demo_room_def)
  have pre: "identity_x25519_pubkey (en_crypto demo_env) (demo_identity 2) = m_x25519_pubkey (demo_member 1 7 [97] 2)"
    "cs_member_id (demo_session 1) = m_member_id (demo_member 1 7 [97] 2)"
    "cs_room_session_id (demo_session 1) = ra_session_id demo_room"
    "cs_host_x25519_pubkey (demo_session 1) = identity_x25519_pubkey (en_crypto demo_env) (ra_host_identity demo_room)"
    "\<forall>e. session_epoch (demo_session 1) = Some e \<longrightarrow> e < pe_epoch p"
    unfolding e by (simp_all add: demo_defs demo_session_def session_new_def identity_x25519_pubkey_def
      plain_crypto_def pad_def session_epoch_def)
  from bspec [OF all m] pre obtain w s' where
    w: "RA_SendTo (m_connection (demo_member 1 7 [97] 2)) (M_EpochWrap w) \<in> set acts"
    "set_epoch_from_wrap (en_crypto demo_env) (demo_identity 2) w (demo_session 1) = (Inr (pe_epoch p), s')"
    "cs_current_epoch s' = Some (pe_epoch p, pe_key p)" by blast
  have f: "m_connection (demo_member 1 7 [97] 2) = 7" "en_crypto demo_env = plain_crypto"
    by (simp_all add: demo_member_def demo_env_def)
  from b w e show ?thesis unfolding f by blast
qed

end
