(* ===== verification/ChatWire.thy ===== *)
theory ChatWire
  imports EndToEnd CodecStream
begin

text \<open>
  Chat messages through the codec: which of the texts that a member may send are readable by the
  strict decoder on the other side, and the delivery of a chat message over both hops of its way.
\<close>

lemma session_seal_sizes:
  assumes "crypto_ok C" and "session_seal C i t p s = (Inr env, s')"
  shows "length (env_nonce env) = XCHACHA_NONCE_LEN \<and> length (env_signature env) = ED25519_SIGNATURE_LEN \<and>
    length (env_ciphertext env) = length p + XCHACHA_TAG_LEN \<and>
    CHAT_MIN_CIPHERTEXT_LEN \<le> length (env_ciphertext env) \<and> length (env_ciphertext env) \<le> CHAT_MAX_CIPHERTEXT_LEN"
proof -
  from assms(2) obtain epoch key e es where
    seal: "seal_envelope C key i 1 (cs_room_session_id s) epoch (cs_member_id s) (cs_sender_sequence s + 1)
      t p (cs_entropy s) = (Inr e, es)"
    and new: "envelope_new epoch (cs_member_id s) (cs_sender_sequence s + 1) (se_nonce e) (se_ciphertext e)
      (se_signature e) = Inr env"
    by (auto simp: session_seal_def Let_def split: option.splits sum.splits prod.splits)
  from seal obtain nonce es1 where "fill_random XCHACHA_NONCE_LEN (cs_entropy s) = (Inr nonce, es1)"
    "se_nonce e = nonce" and sig: "length (se_signature e) = 64"
    using assms(1) by (auto simp: seal_envelope_def tryS_eq_Inr crypto_ok_def identity_sign_def split: option.splits)
  with fill_random_length have "length (se_nonce e) = XCHACHA_NONCE_LEN" by blast
  with sig new open_sealed [OF assms(1) seal] show ?thesis
    by (auto simp: envelope_new_def ED25519_SIGNATURE_LEN_def split: if_splits)
qed

text \<open>A ciphertext over the byte-string limit is refused in the fifth field.\<close>

lemma strict_bytes_long:
  "cbor_ok B \<Longrightarrow> max_cbor_bytes_len l < length b \<Longrightarrow> length b < 2 ^ 64 \<Longrightarrow>
   strict_bytes B (sd_at l k (e_bytes B b @ r)) = (Inl (SE_BytesTooLong (length b) (max_cbor_bytes_len l)), sd_at l k r)"
  by (simp add: strict_bytes_def read_token_def cbor_ok_def)

lemma long_envelope_refused:
  assumes "cbor_ok B" and "roomy l" and "length (env_nonce env) = XCHACHA_NONCE_LEN"
    and "max_cbor_bytes_len l < length (env_ciphertext env)" and "length (env_ciphertext env) < 2 ^ 64"
  shows "\<exists>d. envelope_decode B (sd_at l 0 (envelope_encode B env)) =
    (Inl (PE_Cbor (SE_BytesTooLong (length (env_ciphertext env)) (max_cbor_bytes_len l))), d)"
  using assms
  by (simp add: envelope_decode_def envelope_encode_def reading roomy_def strict_bytes_long leave_container_def)

text \<open>
  C40: the byte-string limit of the strict decoder (4096 bytes) is below the longest ciphertext that
  the chat layer allows (4112 bytes): of the texts that a member can send, those of at most 4080
  bytes are decoded by every peer as sent, and the valid longer ones, up to 4096 bytes, are refused
  by the room's decoder as a protocol violation.
\<close>

theorem longest_readable_chat:
  assumes "cbor_ok B" and "crypto_ok C" and "send_chat C i text s = (Inr (M_ChatMessage env), s')"
  shows "decode_message nfc B
     \<lparr>frame_type = MT_ChatMessage, frame_payload = encode_body B (M_ChatMessage env)\<rparr> default_limits =
    (if str_len text \<le> 4080 then Inr (M_ChatMessage env)
     else Inl (PE_Cbor (SE_BytesTooLong (str_len text + 16) 4096)))"
proof -
  let ?f = "\<lparr>frame_type = MT_ChatMessage, frame_payload = encode_body B (M_ChatMessage env)\<rparr>"
  from assms(3) obtain s'' where "session_seal C i MSG_CHAT (utf8 text) s = (Inr env, s'')"
    by (auto simp: send_chat_def seal_message_def tryS_eq_Inr split: sum.splits)
  note sizes = session_seal_sizes [OF assms(2) this]
  have len: "length (env_ciphertext env) = str_len text + 16"
    using sizes by (simp add: str_len_def XCHACHA_TAG_LEN_def)
  have lim: "max_cbor_bytes_len default_limits = 4096" by (simp add: default_limits_def)
  show ?thesis
  proof (cases "str_len text \<le> 4080")
    case True
    then have "message_ok nfc default_limits (M_ChatMessage env)"
      using sizes len lim by (simp add: envelope_ok_def)
    with True decode_encoded [OF assms(1) default_roomy this, of ?f "[]"] show ?thesis by simp
  next
    case False
    moreover have "length (env_ciphertext env) \<le> 4112"
      using sizes by (simp add: CHAT_MAX_CIPHERTEXT_LEN_def XCHACHA_TAG_LEN_def)
    ultimately obtain d where "envelope_decode B (sd_at default_limits 0 (envelope_encode B env)) =
        (Inl (PE_Cbor (SE_BytesTooLong (str_len text + 16) 4096)), d)"
      using long_envelope_refused [OF assms(1) default_roomy, of env] sizes len lim by auto
    with False show ?thesis by (simp add: decode_message_def decode_message_body_def strict_new_def)
  qed
qed

lemma ascii_len: "\<forall>c \<in> set s. c < 128 \<Longrightarrow> str_len s = length s"
  by (induction s) (auto simp: str_len_def utf8_def utf8_char_def)

lemma longest_readable_chat_witness:
  "\<exists>env s'. send_chat plain_crypto (demo_identity 2) (replicate 4096 97) (demo_session 1) = (Inr (M_ChatMessage env), s') \<and>
    decode_message id rfc_cbor
      \<lparr>frame_type = MT_ChatMessage, frame_payload = encode_body rfc_cbor (M_ChatMessage env)\<rparr> default_limits =
    Inl (PE_Cbor (SE_BytesTooLong 4112 4096))"
proof -
  let ?s = "demo_session 1" and ?t = "replicate 4096 (97 :: nat)"
  have ep: "cs_current_epoch ?s = Some (2, replicate 32 5)" by (simp add: demo_session_def session_new_def)
  have rnd: "fill_random XCHACHA_NONCE_LEN (cs_entropy ?s) = (Inr (pad XCHACHA_NONCE_LEN []), [])"
    by (simp add: demo_session_def session_new_def fill_random_def pad_def)
  have len: "str_len ?t = 4096" by (subst ascii_len) auto
  have "\<not> is_unsafe_display_char 97"
    by (simp add: is_unsafe_display_char_def char_is_control_def is_dangerous_format_char_def)
  then have valid: "validate_chat_text ?t default_limits = Inr ()"
    by (simp add: validate_chat_text_def contains_control_char_def list_ex_iff len default_limits_def)
  have ne: "utf8 ?t \<noteq> []" using len unfolding str_len_def by (metis list.size(3) zero_neq_numeral)
  from send_chat_ok [OF plain_crypto_ok ep rnd valid ne, of "demo_identity 2"] obtain env s' where
    s: "send_chat plain_crypto (demo_identity 2) ?t ?s = (Inr (M_ChatMessage env), s')" by blast
  from longest_readable_chat [OF rfc_cbor_ok plain_crypto_ok s, of id] s show ?thesis by (auto simp: len)
qed

section \<open>Delivery\<close>

text \<open>The heads of the encoding take at most nine bytes each, as RFC 8949 has it.\<close>

definition cbor_small :: "cbor \<Rightarrow> bool" where
  "cbor_small B \<longleftrightarrow>
     (\<forall>n < 2 ^ 64. length (e_uint B n) \<le> 9) \<and> (\<forall>n < 2 ^ 64. length (e_map B n) \<le> 9) \<and>
     (\<forall>b. length b < 2 ^ 64 \<longrightarrow> length (e_bytes B b) \<le> 9 + length b)"

lemma rfc_cbor_small: "cbor_small rfc_cbor"
  by (simp add: cbor_small_def rfc_cbor_def cbor_head_def)

text \<open>
  One hop: the message is encoded, and whatever the chunks in which its bytes arrive, the frame decoder of the other
  side gets one frame, has nothing left, and the frame decodes to the message.
\<close>

definition crosses :: "(rstring \<Rightarrow> rstring) \<Rightarrow> cbor \<Rightarrow> message \<Rightarrow> bool" where
  "crosses nfc B m \<longleftrightarrow>
     (\<exists>bs. encode_message B m default_limits = Inr bs \<and>
        (\<forall>chunks. concat chunks = bs \<longrightarrow>
           (\<exists>f. feed_all (frame_decoder_new default_limits) chunks = (Inr [f], frame_decoder_new default_limits) \<and>
              decode_message nfc B f default_limits = Inr m)))"

lemma envelope_small:
  assumes "cbor_small B" and "length (env_nonce env) = 24" and "length (env_signature env) = 64"
    and "length (env_ciphertext env) \<le> 4096"
  shows "length (envelope_encode B env) \<le> 4301"
proof -
  have w: "length (put B w) \<le> 9" if "LENGTH('a) \<le> 64" for w :: "'a::len word"
  proof -
    have "unat w < 2 ^ LENGTH('a)" by simp
    also have "\<dots> \<le> 2 ^ 64" using that by (rule power_increasing) simp
    finally show ?thesis using assms(1) by (simp add: cbor_small_def put_def)
  qed
  have b: "length (e_bytes B bs) \<le> 9 + length bs" if "length bs \<le> 4096" for bs
    using assms(1) that by (simp add: cbor_small_def)
  have m: "length (e_map B 6) \<le> 9" using assms(1) by (simp add: cbor_small_def)
  note small = m w [of "1 :: u8"] w [of "2 :: u8"] w [of "3 :: u8"] w [of "4 :: u8"] w [of "5 :: u8"] w [of "6 :: u8"]
    w [of "env_epoch env"] w [of "env_sender_id env"] w [of "env_sender_sequence env"]
    b [of "env_nonce env"] b [of "env_ciphertext env"] b [of "env_signature env"]
  then show ?thesis
    using assms(2-4) by (simp add: envelope_encode_def)
qed

lemma chat_crosses:
  assumes "cbor_ok B" and "cbor_small B" and "crypto_ok C" and "send_chat C i text s = (Inr (M_ChatMessage env), s')"
    and "str_len text \<le> 4080"
  shows "crosses nfc B (M_ChatMessage env)"
proof -
  from assms(4) obtain s'' where "session_seal C i MSG_CHAT (utf8 text) s = (Inr env, s'')"
    by (auto simp: send_chat_def seal_message_def tryS_eq_Inr split: sum.splits)
  note sizes = session_seal_sizes [OF assms(3) this]
  then have len: "length (env_ciphertext env) \<le> 4096" "length (env_nonce env) = 24" "length (env_signature env) = 64"
    using assms(5) by (simp_all add: str_len_def XCHACHA_TAG_LEN_def XCHACHA_NONCE_LEN_def ED25519_SIGNATURE_LEN_def)
  have ok: "message_ok nfc default_limits (M_ChatMessage env)"
    using sizes len by (simp add: envelope_ok_def default_limits_def)
  have "length (encode_body B (M_ChatMessage env)) \<le> 4301"
    using envelope_small [OF assms(2) len(2,3,1)] by simp
  then obtain bs where bs: "encode_message B (M_ChatMessage env) default_limits = Inr bs"
    by (simp add: encode_message_def encode_frame_def default_limits_def MIN_FRAME_BODY_LEN_def Let_def)
  have "max_frame_size default_limits < 2 ^ 32" by (simp add: default_limits_def)
  from message_stream_frames [OF this, of B "[M_ChatMessage env]" "[bs]"] bs
    message_frame_decodes [OF assms(1) default_roomy ok]
  show ?thesis unfolding crosses_def by (intro exI [of _ bs]) simp
qed

text \<open>
  C3: delivery. In a settled room, take a text of at most 4080 bytes that passes validation and that a member in
  sync with the room seals, within the rate limit. The sealed message crosses the wire to the room, in whatever
  chunks, and comes out of its decoder unchanged; the room sends exactly this message to every other member; it
  crosses the wire to each of them in the same way; and every session that is in the room's epoch, knows the sender
  with its key and has accepted nothing newer from it reads exactly the text that was sent. (Longer texts are
  refused by the decoder, see \<open>longest_readable_chat\<close>.)
\<close>

theorem chat_is_delivered:
  assumes "crypto_ok (en_crypto E)" and "cbor_ok B" and "cbor_small B"
    and "stores_ok a" and "settled a" and "in_sync (en_crypto E) a m i s"
    and "validate_chat_text text default_limits = Inr ()" and "utf8 text \<noteq> []" and "\<forall>c \<in> set text. scalar c"
    and "str_len text \<le> 4080"
    and "fill_random XCHACHA_NONCE_LEN (cs_entropy s) = (Inr nonce, es)"
    and "newer (cs_member_id s) (ra_epoch a) (cs_sender_sequence s + 1) (ra_chat_replay a)"
    and "fst (limiter_allow now (limiter_of (cs_member_id s) a))"
  shows "\<exists>env s' acts b. send_chat (en_crypto E) i text s = (Inr (M_ChatMessage env), s') \<and>
    crosses nfc B (M_ChatMessage env) \<and>
    handle_event_at E (EV_ChatReceived (m_connection m) MSG_CHAT env) now a = (Inr acts, b) \<and>
    acts = map (\<lambda>d. RA_SendTo d (M_ChatMessage env)) (other_connections (m_connection m) a) \<and>
    (\<forall>r v. cs_room_session_id r = ra_session_id a \<and> cs_current_epoch r = cs_current_epoch s \<and>
       session_member (cs_member_id s) r = Some v \<and> mv_ed25519_pubkey v = m_ed25519_pubkey m \<and>
       newer (cs_member_id s) (ra_epoch a) (cs_sender_sequence s + 1) (cs_replay r) \<longrightarrow>
       (\<exists>r'. receive_chat (en_crypto E) env r = (Inr text, r')))"
  using chat_is_relayed [OF assms(1,4-9,11-13)] chat_crosses [OF assms(2,3,1) _ assms(10)] by meson

lemma demo_delivered:
  "\<exists>env acts b. handle_event_at demo_env (EV_ChatReceived 7 MSG_CHAT env) 0 demo_room = (Inr acts, b) \<and>
     acts = [RA_SendTo 0 (M_ChatMessage env)] \<and> crosses id rfc_cbor (M_ChatMessage env) \<and>
     (\<exists>r'. receive_chat plain_crypto env (demo_session 0) = (Inr [104, 105], r'))"
  if delivered: "\<exists>env s' acts b.
    send_chat plain_crypto (demo_identity 2) [104, 105] (demo_session 1) = (Inr (M_ChatMessage env), s') \<and> crosses id rfc_cbor (M_ChatMessage env) \<and>
    handle_event_at demo_env (EV_ChatReceived 7 MSG_CHAT env) 0 demo_room = (Inr acts, b) \<and>
    acts = map (\<lambda>d. RA_SendTo d (M_ChatMessage env)) (other_connections 7 demo_room) \<and>
    (\<forall>r v. cs_room_session_id r = ra_session_id demo_room \<and> cs_current_epoch r = cs_current_epoch (demo_session 1) \<and>
       session_member 1 r = Some v \<and> mv_ed25519_pubkey v = replicate 32 2 \<and>
       newer 1 (ra_epoch demo_room) 1 (cs_replay r) \<longrightarrow>
       (\<exists>r'. receive_chat plain_crypto env r = (Inr [104, 105], r')))"
proof -
  have other: "other_connections 7 demo_room = [0]"
    by (simp add: other_connections_def member_connections_def demo_defs)
  have host: "cs_room_session_id (demo_session 0) = ra_session_id demo_room \<and>
    cs_current_epoch (demo_session 0) = cs_current_epoch (demo_session 1) \<and>
    session_member 1 (demo_session 0) = Some (demo_view 1 [97] 2) \<and>
    mv_ed25519_pubkey (demo_view 1 [97] 2) = replicate 32 2 \<and>
    newer 1 (ra_epoch demo_room) 1 (cs_replay (demo_session 0))"
    by (simp add: demo_session_def session_new_def demo_room_def session_member_def demo_view_def newer_def
        replay_last_accepted_def replay_new_def)
  from delivered host other show ?thesis by force
qed

lemma chat_is_delivered_witness:
  "\<exists>env acts b. handle_event_at demo_env (EV_ChatReceived 7 MSG_CHAT env) 0 demo_room = (Inr acts, b) \<and>
     acts = [RA_SendTo 0 (M_ChatMessage env)] \<and> crosses id rfc_cbor (M_ChatMessage env) \<and>
     (\<exists>r'. receive_chat plain_crypto env (demo_session 0) = (Inr [104, 105], r'))"
proof (rule demo_delivered)
  let ?s = "demo_session 1"
  have c: "crypto_ok (en_crypto demo_env)" by (simp add: demo_env_def plain_crypto_ok)
  have sync: "in_sync (en_crypto demo_env) demo_room (demo_member 1 7 [97] 2) (demo_identity 2) ?s"
    using demo_in_sync by (simp add: demo_env_def)
  have rnd: "fill_random XCHACHA_NONCE_LEN (cs_entropy ?s) = (Inr (pad XCHACHA_NONCE_LEN []), [])"
    by (simp add: demo_session_def session_new_def fill_random_def pad_def)
  have new: "newer (cs_member_id ?s) (ra_epoch demo_room) (cs_sender_sequence ?s + 1) (ra_chat_replay demo_room)"
    by (simp add: newer_def demo_room_def replay_last_accepted_def replay_new_def)
  have lim: "fst (limiter_allow 0 (limiter_of (cs_member_id ?s) demo_room))"
    using demo_allowed by (simp add: demo_session_def session_new_def)
  have f: "cs_member_id ?s = 1" "cs_sender_sequence ?s + 1 = 1" "m_connection (demo_member 1 7 [97] 2) = 7"
    "m_ed25519_pubkey (demo_member 1 7 [97] 2) = replicate 32 2" "en_crypto demo_env = plain_crypto"
    by (simp_all add: demo_session_def session_new_def demo_member_def demo_env_def)
  have len: "str_len [104, 105] \<le> 4080" by (simp add: str_len_def utf8_def utf8_char_def)
  from chat_is_delivered [OF c rfc_cbor_ok rfc_cbor_small demo_stores_ok demo_settled sync demo_text len rnd new lim,
      of id, unfolded f]
  show "\<exists>env s' acts b.
    send_chat plain_crypto (demo_identity 2) [104, 105] ?s = (Inr (M_ChatMessage env), s') \<and> crosses id rfc_cbor (M_ChatMessage env) \<and>
    handle_event_at demo_env (EV_ChatReceived 7 MSG_CHAT env) 0 demo_room = (Inr acts, b) \<and>
    acts = map (\<lambda>d. RA_SendTo d (M_ChatMessage env)) (other_connections 7 demo_room) \<and>
    (\<forall>r v. cs_room_session_id r = ra_session_id demo_room \<and> cs_current_epoch r = cs_current_epoch ?s \<and>
       session_member 1 r = Some v \<and> mv_ed25519_pubkey v = replicate 32 2 \<and>
       newer 1 (ra_epoch demo_room) 1 (cs_replay r) \<longrightarrow>
       (\<exists>r'. receive_chat plain_crypto env r = (Inr [104, 105], r')))" .
qed

end
