(* ===== verification/Task.thy ===== *)
theory Task
  imports ActorAdmit ActorChat
begin

text \<open>
  The room task (\<open>room/task.rs\<close>): the loop that feeds events to the actor, decides what an error
  means for the connection that caused it, and closes the room when the event channel is closed.

  A run is the list of the events received, each with the two clock readings of its iteration. The
  receiver of the actions lives as long as the loop. \<open>err_text\<close> is \<open>RoomError::to_string\<close>, whose
  nested texts come from several crates.
\<close>

definition offender_of :: "room_event \<Rightarrow> u64 option" where
  "offender_of ev =
     (case ev of
        EV_JoinRequested c _ \<Rightarrow> Some c
      | EV_ChatReceived c _ _ \<Rightarrow> Some c
      | EV_MemberCommand c _ \<Rightarrow> Some c
      | EV_EpochAck c _ \<Rightarrow> Some c
      | _ \<Rightarrow> None)"

definition report_code :: "room_error \<Rightarrow> error_code" where
  "report_code e =
     (case e of RE_PolicyLocked \<Rightarrow> EC_RoomLocked | RE_RoomClosed \<Rightarrow> EC_RoomClosed | _ \<Rightarrow> EC_ProtocolViolation)"

definition report_message :: "(room_error \<Rightarrow> rstring) \<Rightarrow> room_error \<Rightarrow> message" where
  "report_message err_text e =
     M_Error (case error_message_new (report_code e) (Some (err_text e)) of
                Inr m \<Rightarrow> m
              | Inl _ \<Rightarrow> \<lparr>em_code = report_code e, em_reason = None\<rparr>)"

definition task_step :: "(room_error \<Rightarrow> rstring) \<Rightarrow> room_env \<Rightarrow> room_event \<Rightarrow> duration \<Rightarrow> duration \<Rightarrow>
    room_actor \<Rightarrow> room_action list \<times> room_actor" where
  "task_step err_text E ev now later a =
     (case handle_event_at E ev now a of
        (Inr acts, b) \<Rightarrow> (acts, b)
      | (Inl e, b) \<Rightarrow>
          if room_error_is_transient e then ([], b)
          else
            let notice = [RA_NotifyHost (HN_Error (err_text e))]
            in case offender_of ev of
                 None \<Rightarrow> (notice, b)
               | Some c \<Rightarrow>
                   if c = ra_host_connection b then (notice, b)
                   else
                     let acts = notice @ [RA_SendTo c (report_message err_text e), RA_CloseConnection c]
                     in case handle_event_at E (EV_ConnectionLost c) later b of
                          (Inr cleanup, d) \<Rightarrow> (acts @ cleanup, d)
                        | (Inl _, d) \<Rightarrow> (acts, d))"

text \<open>Only batches that are not empty are sent.\<close>

fun task_loop :: "(room_error \<Rightarrow> rstring) \<Rightarrow> room_env \<Rightarrow> (room_event \<times> duration \<times> duration) list \<Rightarrow>
    room_actor \<Rightarrow> room_action list list \<times> room_actor" where
  "task_loop err_text E [] a = ([], a)"
| "task_loop err_text E ((ev, now, later) # evs) a =
     (case task_step err_text E ev now later a of
        (outgoing, b) \<Rightarrow>
          (case task_loop err_text E evs b of
             (batches, d) \<Rightarrow> ((if outgoing = [] then [] else [outgoing]) @ batches, d)))"

definition task_run :: "(room_error \<Rightarrow> rstring) \<Rightarrow> room_env \<Rightarrow> (room_event \<times> duration \<times> duration) list \<Rightarrow>
    room_actor \<Rightarrow> room_action list list \<times> room_actor" where
  "task_run err_text E evs a =
     (case task_loop err_text E evs a of
        (batches, b) \<Rightarrow>
          (case close_room E b of
             (Inr acts, d) \<Rightarrow> (batches @ [acts], d)
           | (Inl _, d) \<Rightarrow> (batches @ [[]], d)))"

section \<open>The end of a run\<close>

text \<open>
  C21: the room task never leaves a room behind. Whatever events it received, with whatever errors,
  when the event channel closes the room is destroyed; and if it was still alive, the last batch
  tells every registered connection that the room is shut down, closes it, and notifies the host.
\<close>

theorem task_closes_room:
  assumes "order_ok (en_order E)"
  shows "\<exists>batches b last_batch d. task_loop err_text E evs a = (batches, b) \<and>
    task_run err_text E evs a = (batches @ [last_batch], d) \<and> ra_state d = RS_Destroyed \<and>
    (ra_state b \<noteq> RS_Destroyed \<longrightarrow>
      (\<forall>c. conn_role c (ra_connections b) \<noteq> None \<longrightarrow> subseq [RA_SendTo c M_Shutdown, RA_CloseConnection c] last_batch) \<and>
      last last_batch = RA_NotifyHost HN_RoomClosed)"
proof -
  obtain batches b where loop: "task_loop err_text E evs a = (batches, b)" by (metis surj_pair)
  show ?thesis
  proof (cases "ra_state b = RS_Destroyed")
    case True
    with loop show ?thesis by (simp add: task_run_def close_room_def)
  next
    case False
    let ?acts = "concat (map (\<lambda>c. [RA_SendTo c M_Shutdown, RA_CloseConnection c])
      (conn_ids (en_order E) (ra_connections b))) @ [RA_NotifyHost HN_RoomClosed]"
    have "subseq [RA_SendTo c M_Shutdown, RA_CloseConnection c] ?acts" if "conn_role c (ra_connections b) \<noteq> None" for c
      using that set_conn_ids [OF assms, of c] subseq_concat_map [of c "conn_ids (en_order E) (ra_connections b)"
        "\<lambda>c. [RA_SendTo c M_Shutdown, RA_CloseConnection c]"] by simp
    with False loop show ?thesis by (simp add: task_run_def close_room_def)
  qed
qed

lemma task_closes_room_witness:
  "\<exists>batches last_batch d. task_run (\<lambda>_. []) demo_env [(EV_MemberCommand 9 MCmd_Leave, 1, 1)] demo_room =
     (batches @ [last_batch], d) \<and> ra_state d = RS_Destroyed"
  using task_closes_room [OF demo_order, of "\<lambda>_. []" "[(EV_MemberCommand 9 MCmd_Leave, 1, 1)]" demo_room] by blast

section \<open>Errors\<close>

text \<open>Losing a connection removes every trace of it, also when the rekeying that follows fails.\<close>

lemma remove_member_forgets:
  assumes "stores_ok a" and "by_id i (ra_members a) = Some m" and "i \<noteq> 0"
  shows "conn_role (m_connection m) (ra_connections (snd (remove_member E i t a))) = None"
proof -
  have "table_ok (ra_members a)" using assms(1) by (simp add: stores_ok_def stores_wf_def)
  from table_remove_filter [OF this, of i] assms(2) obtain t' where t: "table_remove i (ra_members a) = (Some m, t')" by simp
  show ?thesis
    unfolding remove_member_def t prod.case option.case if_not_P [OF assms(3)]
    by (rule tryS_inv [where P = "\<lambda>b. conn_role (m_connection m) (ra_connections b) = None"])
      (simp_all add: conn_role_remove)
qed

text \<open>A connection with the role of a member belongs to exactly that member, who is not the host.\<close>

lemma guest_connection:
  assumes "stores_ok a" and "conn_member_id c (ra_connections a) = Some i" and "c \<noteq> ra_host_connection a"
  obtains m where "by_id i (ra_members a) = Some m" and "m_connection m = c" and "i \<noteq> 0"
proof -
  have wf: "stores_wf (ra_members a) (ra_connections a) (ra_requests a) (ra_timeout_requests a) (ra_host_connection a)"
    using assms(1) by (simp add: stores_ok_def)
  note tab = stores_wfD(1) [OF wf]
  from assms(2) obtain m where m: "m \<in> set (mt_members (ra_members a))" "m_member_id m = i" "m_connection m = c"
    using stores_wfD(5) [OF wf] by (auto simp: conn_member_id_role)
  from stores_wfD(4) [OF wf] obtain h where h: "h \<in> set (mt_members (ra_members a))" "m_member_id h = 0"
    "m_connection h = ra_host_connection a" by blast
  have "i \<noteq> 0"
  proof
    assume "i = 0"
    with m h by_id_iff [OF tab] have "Some m = Some h" by metis
    with m(3) h(3) assms(3) show False by simp
  qed
  moreover have "by_id i (ra_members a) = Some m" using m by_id_iff [OF tab] by blast
  ultimately show thesis using m(3) that by blast
qed

lemma connection_lost_forgets:
  assumes "stores_ok a" and "c \<noteq> ra_host_connection a"
  shows "conn_role c (ra_connections (snd (on_connection_lost E c a))) = None"
proof (cases "conn_member_id c (ra_connections a)")
  case (Some i)
  from guest_connection [OF assms(1) Some assms(2)] obtain m where
    m: "by_id i (ra_members a) = Some m" "m_connection m = c" "i \<noteq> 0" .
  let ?a = "without_timeouts c a"
  have "stores_ok ?a" using assms(1) by (simp add: without_timeouts_def stores_ok_def stores_wf_filter_timeouts)
  moreover have "by_id i (ra_members ?a) = Some m" using m(1) by (simp add: without_timeouts_def)
  ultimately have "conn_role c (ra_connections (snd (remove_member E i MSG_MEMBER_LEFT ?a))) = None"
    using remove_member_forgets [of ?a i m E MSG_MEMBER_LEFT] m(2,3) by simp
  then show ?thesis
    using Some assms(2) unfolding on_connection_lost_def without_timeouts_def Let_def
    by (auto simp: conn_role_remove intro!: tryS_inv [where P = "\<lambda>b. conn_role c (ra_connections b) = None"] split: prod.splits)
next
  case None
  have "by_connection c (ra_members a) = None"
    using None assms(1) stores_wfD(5) [of "ra_members a"] unfolding by_connection_None stores_ok_def
    by (metis conn_member_id_role not_None_eq)
  with None assms(2) show ?thesis
    by (auto simp: on_connection_lost_def Let_def conn_role_remove split: option.splits prod.splits sum.splits)
qed

lemma unregistered_no_member:
  assumes "stores_ok a" and "conn_role c (ra_connections a) = None"
  shows "by_connection c (ra_members a) = None"
  using assms stores_wfD(5) [of "ra_members a"] unfolding by_connection_None stores_ok_def
  by (metis option.distinct(1))

text \<open>No trace of a connection in the stores of the room: registry, members, join requests, timeout requests.\<close>

definition forgotten :: "u64 \<Rightarrow> room_actor \<Rightarrow> bool" where
  "forgotten c a \<longleftrightarrow>
     conn_role c (ra_connections a) = None \<and> by_connection c (ra_members a) = None \<and>
     list_all (\<lambda>r. rq_connection r \<noteq> c) (qu_requests (ra_requests a)) \<and>
     list_all (\<lambda>t. pt_connection t \<noteq> c) (ra_timeout_requests a)"

lemma unregistered_no_request:
  assumes "stores_ok a" and "conn_role c (ra_connections a) = None"
  shows "list_all (\<lambda>r. rq_connection r \<noteq> c) (qu_requests (ra_requests a))"
proof -
  have "conn_role c (ra_connections a) = Some (CR_Pending (rq_id r))"
    if "r \<in> set (qu_requests (ra_requests a))" "rq_connection r = c" for r
    using assms(1) that stores_wfD(6) [of "ra_members a"] unfolding stores_ok_def by blast
  with assms(2) show ?thesis by (auto simp: list_all_iff)
qed

lemma remove_member_limits:
  assumes "by_id i (ra_members a) = Some m" and "table_ok (ra_members a)" and "i \<noteq> 0"
  shows "ra_rate_limits (snd (remove_member E i t a)) i = None"
proof -
  from table_remove_filter [OF assms(2), of i] assms(1) obtain M where
    t: "table_remove i (ra_members a) = (Some m, M)" by simp
  show ?thesis
    unfolding remove_member_def t prod.case option.case if_not_P [OF assms(3)]
    by (rule tryS_inv [where P = "\<lambda>b. ra_rate_limits b i = None"]) (simp_all add: queue_member_gone_def Let_def)
qed

lemma connection_lost_clears:
  assumes "c \<noteq> ra_host_connection a"
  shows "list_all (\<lambda>t. pt_connection t \<noteq> c) (ra_timeout_requests (snd (on_connection_lost E c a)))"
proof -
  let ?P = "\<lambda>b. list_all (\<lambda>t. pt_connection t \<noteq> c) (ra_timeout_requests b)"
  have w: "?P (without_timeouts c a)" by (simp add: without_timeouts_def list_all_iff)
  show ?thesis
  proof (rule connection_lost_cases [of c a E])
    assume "c = ra_host_connection a"
    with assms show ?thesis by simp
  next
    fix i g
    assume member: "on_connection_lost E c a = tryS (remove_member E i MSG_MEMBER_LEFT (without_timeouts c a))
      (\<lambda>(r, wraps) b. (Inr (g r wraps), forget c b))"
    have "?P (snd (remove_member E i MSG_MEMBER_LEFT (without_timeouts c a)))"
      using w by (simp add: remove_member_timeouts)
    then show ?thesis unfolding member by (rule tryS_inv) (simp add: forget_def case_prod_beta)
  next
    fix q acts
    assume "on_connection_lost E c a =
      (Inr acts, forget c ((without_timeouts c a)\<lparr>ra_requests := snd (queue_take q (ra_requests a))\<rparr>))"
    then show ?thesis using w by (simp add: forget_def)
  next
    fix acts
    assume "on_connection_lost E c a = (Inr acts, forget c (without_timeouts c a))"
    then show ?thesis using w by (simp add: forget_def)
  qed
qed

text \<open>The rate limiter of the member that had the connection goes too.\<close>

lemma connection_lost_limits:
  assumes "stores_ok a" and "conn_member_id c (ra_connections a) = Some i" and "c \<noteq> ra_host_connection a"
  shows "ra_rate_limits (snd (on_connection_lost E c a)) i = None"
proof -
  from guest_connection [OF assms] obtain m where m: "by_id i (ra_members a) = Some m" "i \<noteq> 0" by blast
  have "table_ok (ra_members a)" using assms(1) by (simp add: stores_ok_def stores_wf_def)
  then have "ra_rate_limits (snd (remove_member E i MSG_MEMBER_LEFT (without_timeouts c a))) i = None"
    using m remove_member_limits [of i "without_timeouts c a" m E MSG_MEMBER_LEFT] by (simp add: without_timeouts_def)
  then show ?thesis
    using assms(2,3) unfolding on_connection_lost_def without_timeouts_def Let_def
    by (auto intro!: tryS_inv [where P = "\<lambda>b. ra_rate_limits b i = None"] split: prod.splits)
qed

lemma lost_event:
  assumes "live a"
  shows "handle_event_at E (EV_ConnectionLost c) t a = on_connection_lost E c (a\<lparr>ra_now := t\<rparr>)"
  using assms by (simp add: handle_event_at_def live_def Let_def)

lemma offender_removed:
  assumes "stores_ok a" and "ids_left a" and "order_ok (en_order E)"
    and "offender_of ev = Some c" and "handle_event_at E ev now a = (Inl e, b)" and "live b"
    and "c \<noteq> ra_host_connection b"
  shows "if room_error_is_transient e then task_step err_text E ev now later a = ([], b)
    else \<exists>acts d rest. task_step err_text E ev now later a = (acts, d) \<and>
      acts = RA_NotifyHost (HN_Error (err_text e)) # RA_SendTo c (report_message err_text e) # RA_CloseConnection c # rest \<and>
      stores_ok d \<and> forgotten c d \<and>
      (case conn_member_id c (ra_connections b) of None \<Rightarrow> True | Some i \<Rightarrow> ra_rate_limits d i = None)"
proof (cases "room_error_is_transient e")
  case True
  then show ?thesis using assms(5) by (simp add: task_step_def)
next
  case False
  let ?b = "b\<lparr>ra_now := later\<rparr>"
  obtain r d where d: "on_connection_lost E c ?b = (r, d)" by (metis surj_pair)
  have "stores_ok b" using handle_event_stores [OF assms(1-3), of ev now] assms(5) by simp
  then have b: "stores_ok ?b" by (simp add: stores_ok_def)
  have ok: "stores_ok d" using stores_ok_connection_lost [OF b, of E c] d by simp
  have role: "conn_role c (ra_connections d) = None" using connection_lost_forgets [OF b, of c E] assms(7) d by simp
  have "\<exists>rest. task_step err_text E ev now later a =
    (RA_NotifyHost (HN_Error (err_text e)) # RA_SendTo c (report_message err_text e) # RA_CloseConnection c # rest, d)"
    using False assms(4,5,7) lost_event [OF assms(6), of E c later] d
    by (cases r) (simp_all add: task_step_def)
  moreover have "forgotten c d"
    using role unregistered_no_member [OF ok role] unregistered_no_request [OF ok role]
      connection_lost_clears [of c ?b E] assms(7) d by (simp add: forgotten_def)
  moreover have "case conn_member_id c (ra_connections b) of None \<Rightarrow> True | Some i \<Rightarrow> ra_rate_limits d i = None"
    using connection_lost_limits [OF b, of c _ E] assms(7) d by (simp split: option.split)
  ultimately show ?thesis using False ok by auto
qed

text \<open>
  C22: a connection that provokes an error is removed. If an event of a connection other than the
  host's fails in a live room, and not merely because an epoch transition is in progress, the
  batch reports the error to the host, sends the connection an error message and closes it, and
  afterwards nothing of it is left: it is not registered, no member, join request or timeout request
  belongs to it, and the rate limiter of the member that had it is gone, even if rekeying for the
  remaining members fails. An error during a transition has no consequence at all.
\<close>

theorem offender_is_removed:
  assumes "stores_ok a" and "ids_left a" and "order_ok (en_order E)"
    and "offender_of ev = Some c" and "handle_event_at E ev now a = (Inl e, b)" and "live b"
    and "c \<noteq> ra_host_connection b"
  shows "if room_error_is_transient e then task_step err_text E ev now later a = ([], b)
    else \<exists>acts d rest. task_step err_text E ev now later a = (acts, d) \<and>
      acts = RA_NotifyHost (HN_Error (err_text e)) # RA_SendTo c (report_message err_text e) # RA_CloseConnection c # rest \<and>
      stores_ok d \<and> forgotten c d \<and>
      (case conn_member_id c (ra_connections b) of None \<Rightarrow> True | Some i \<Rightarrow> ra_rate_limits d i = None)"
  using assms by (rule offender_removed)

lemma offender_is_removed_witness:
  "\<exists>acts d. task_step (\<lambda>_. []) demo_env (EV_ChatReceived 7 0 \<lparr>env_epoch = 2, env_sender_id = 1, env_sender_sequence = 1,
      env_nonce = [], env_ciphertext = [], env_signature = []\<rparr>) 1 2 demo_room = (acts, d) \<and>
     RA_CloseConnection 7 \<in> set acts \<and> forgotten 7 d \<and> ra_rate_limits d 1 = None"
proof -
  let ?ev = "EV_ChatReceived 7 0 \<lparr>env_epoch = 2, env_sender_id = 1, env_sender_sequence = 1,
      env_nonce = [], env_ciphertext = [], env_signature = []\<rparr>"
  have ev: "handle_event_at demo_env ?ev 1 demo_room =
      (Inl (invalid_plaintext ''not a chat-type message''), demo_room\<lparr>ra_now := 1\<rparr>)"
    by (simp add: handle_event_at_def demo_room_def on_chat_received_def msg_constants Let_def)
  have "live (demo_room\<lparr>ra_now := 1\<rparr>)" "7 \<noteq> ra_host_connection (demo_room\<lparr>ra_now := 1\<rparr>)"
    by (simp_all add: live_def demo_room_def)
  with offender_is_removed [OF demo_stores_ok demo_ids_left demo_order _ ev, of 7 "\<lambda>_. []" 2]
  show ?thesis
    by (auto simp: offender_of_def room_error_is_transient_def invalid_plaintext_def demo_defs conn_member_id_def conn_get_def)
qed

section \<open>A failed rekeying costs the honest members their place\<close>

text \<open>
  The random generator fails once, while some member leaves. The departure is reported as an
  error and the room stays at an epoch whose key nobody has. The next message that another honest
  member sends, sealed for the epoch it knows, is then answered with a protocol violation, and the
  task closes that member's connection and removes it from the room.
\<close>

theorem failed_rekey_evicts_senders:
  assumes "stores_ok a" and "settled a" and "i \<noteq> 0" and "by_id i (ra_members a) = Some m"
    and "fill_random EPOCH_KEY_LEN (ra_entropy a) = (Inl e, es)" and "ids_left a" and "order_ok (en_order E)"
    and "by_id j (ra_members a) = Some s" and "j \<noteq> i" and "j \<noteq> 0"
    and "env_sender_id env = j" and "env_epoch env = ra_epoch a"
    and "fst (limiter_allow now2 (case ra_rate_limits a j of Some l \<Rightarrow> l | None \<Rightarrow> rate_limiter_new 5 1))"
  shows "\<exists>b acts d rest. handle_event_at E (EV_MemberLeft i) now a = (Inl (RE_Crypto e), b) \<and>
    task_step err_text E (EV_ChatReceived (m_connection s) MSG_CHAT env) now2 later b = (acts, d) \<and>
    acts = RA_NotifyHost (HN_Error (err_text (RE_OldEpoch (ra_epoch a) (ra_epoch a + 1)))) #
      RA_SendTo (m_connection s) (report_message err_text (RE_OldEpoch (ra_epoch a) (ra_epoch a + 1))) #
      RA_CloseConnection (m_connection s) # rest \<and>
    by_connection (m_connection s) (ra_members d) = None"
proof -
  have wf: "stores_wf (ra_members a) (ra_connections a) (ra_requests a) (ra_timeout_requests a) (ra_host_connection a)"
    using assms(1) by (simp add: stores_ok_def)
  note tab = stores_wfD(1) [OF wf]
  let ?old = "RE_OldEpoch (ra_epoch a) (ra_epoch a + 1)" and ?c = "m_connection s"
  from failed_rekey_strands_room [OF assms(2) tab assms(3-5), of E now] obtain b where
    b: "handle_event_at E (EV_MemberLeft i) now a = (Inl (RE_Crypto e), b)" "settled b" "ra_epoch b = ra_epoch a + 1"
      "ra_members b = (ra_members a)\<lparr>mt_members := filter (\<lambda>m. m_member_id m \<noteq> i) (mt_members (ra_members a))\<rparr>"
      "ra_rate_limits b = (ra_rate_limits a)(i := None)" "ra_requests b = ra_requests a" by blast
  have ok: "stores_ok b" using handle_event_stores [OF assms(1,6,7), of "EV_MemberLeft i" now] b(1) by simp
  then have wfb: "table_ok (ra_members b)"
    "\<exists>h \<in> set (mt_members (ra_members b)). m_member_id h = 0 \<and> m_connection h = ra_host_connection b"
    by (simp_all add: stores_ok_def stores_wf_def)
  have s: "s \<in> set (mt_members (ra_members b))" "m_member_id s = j"
    using assms(8,9) by_id_iff [OF tab] by (auto simp: b(4))
  have byid: "by_id j (ra_members b) = Some s" using s by_id_iff [OF wfb(1)] by blast
  have conn: "conn_member_id ?c (ra_connections b) = Some j"
    using ok s unfolding stores_ok_def stores_wf_def by (auto simp: conn_member_id_role)
  have host: "?c \<noteq> ra_host_connection b"
    using wfb(2) s assms(10) table_ok_eqI(2) [OF wfb(1) s(1)] by metis
  let ?lim = "case ra_rate_limits b j of Some l \<Rightarrow> l | None \<Rightarrow> rate_limiter_new 5 1"
  define l' where "l' = snd (limiter_allow now2 ?lim)"
  have "ra_rate_limits b j = ra_rate_limits a j" using assms(9) b(5) by simp
  with assms(13) have l: "limiter_allow now2 ?lim = (True, l')" by (simp add: l'_def prod_eq_iff)
  define b2 where "b2 = b\<lparr>ra_now := now2, ra_rate_limits := (ra_rate_limits b)(j \<mapsto> l')\<rparr>"
  have st: "ra_state b = RS_Open \<or> ra_state b = RS_Locked" using b(2) by (auto simp: settled_def split: if_splits)
  have "relay_opened E ?c j MSG_CHAT env b2 = (Inl ?old, b2)"
    using assms(12) b(3) by (simp add: relay_opened_def b2_def)
  then have ev: "handle_event_at E (EV_ChatReceived ?c MSG_CHAT env) now2 b = (Inl ?old, b2)"
    using st conn byid assms(11) l by (auto simp: handle_event_at_def on_chat_received_def msg_constants b2_def Let_def)
  have left: "ids_left b" using assms(6) b(4,6) by (simp add: ids_left_def)
  have live: "live b2" "?c \<noteq> ra_host_connection b2" using st host by (auto simp: live_def b2_def)
  have of: "offender_of (EV_ChatReceived ?c MSG_CHAT env) = Some ?c" and nt: "\<not> room_error_is_transient ?old"
    by (simp_all add: offender_of_def room_error_is_transient_def)
  from offender_removed [OF ok left assms(7) of ev live, of err_text later, unfolded if_not_P [OF nt]]
  obtain acts d rest where "task_step err_text E (EV_ChatReceived ?c MSG_CHAT env) now2 later b = (acts, d)"
    "acts = RA_NotifyHost (HN_Error (err_text ?old)) # RA_SendTo ?c (report_message err_text ?old) #
      RA_CloseConnection ?c # rest" "by_connection ?c (ra_members d) = None" unfolding forgotten_def by blast
  with b(1) show ?thesis by blast
qed

lemma failed_rekey_evicts_senders_witness:
  "\<exists>a b acts d. member_ids a = [0, 1, 2] \<and>
    handle_event_at demo_env (EV_MemberLeft 2) 0 a = (Inl (RE_Crypto CE_Randomness), b) \<and>
    task_step (\<lambda>_. []) demo_env (EV_ChatReceived 7 MSG_CHAT \<lparr>env_epoch = 2, env_sender_id = 1, env_sender_sequence = 1,
      env_nonce = [], env_ciphertext = [], env_signature = []\<rparr>) 0 0 b = (acts, d) \<and>
    RA_CloseConnection 7 \<in> set acts \<and> by_connection 7 (ra_members d) = None"
proof -
  let ?m = "demo_member 2 9 [98] 3"
  let ?a = "demo_room\<lparr>ra_entropy := [None], ra_connections := ra_connections demo_room @ [demo_entry 9 (CR_Member 2)],
    ra_members := (ra_members demo_room)\<lparr>mt_next_id := 3, mt_members := mt_members (ra_members demo_room) @ [?m]\<rparr>\<rparr>"
  let ?env = "\<lparr>env_epoch = 2, env_sender_id = 1, env_sender_sequence = 1,
      env_nonce = [], env_ciphertext = [], env_signature = []\<rparr>"
  have ok: "stores_ok ?a"
    by (simp add: stores_ok_def stores_wf_def demo_defs table_ok_def conn_ok_def queue_ok_def conn_role_def conn_get_def)
  have st: "settled ?a" using demo_settled by (simp add: settled_def)
  have rnd: "fill_random EPOCH_KEY_LEN (ra_entropy ?a) = (Inl CE_Randomness, [])" by (simp add: fill_random_def)
  have ids: "by_id 2 (ra_members ?a) = Some ?m" "by_id 1 (ra_members ?a) = Some (demo_member 1 7 [97] 2)" "ids_left ?a"
    by (simp_all add: by_id_def demo_defs ids_left_def)
  have lim: "fst (limiter_allow 0 (case ra_rate_limits ?a 1 of Some l \<Rightarrow> l | None \<Rightarrow> rate_limiter_new 5 1))"
    by (simp add: demo_defs limiter_allow_def limiter_refill_def rate_limiter_new_def Let_def)
  have f: "env_sender_id ?env = 1" "env_epoch ?env = ra_epoch ?a" "m_connection (demo_member 1 7 [97] 2) = 7"
    "member_ids ?a = [0, 1, 2]" by (simp_all add: demo_defs member_ids_def)
  have ne: "(2 :: u64) \<noteq> 0" "(1 :: u64) \<noteq> 2" "(1 :: u64) \<noteq> 0" by simp_all
  from failed_rekey_evicts_senders [OF ok st ne(1) ids(1) rnd ids(3) demo_order ids(2) ne(2,3) f(1,2) lim,
      of 0 "\<lambda>_. []" 0, unfolded f(3)]
  obtain b acts d rest where run: "handle_event_at demo_env (EV_MemberLeft 2) 0 ?a = (Inl (RE_Crypto CE_Randomness), b)"
    "task_step (\<lambda>_. []) demo_env (EV_ChatReceived 7 MSG_CHAT ?env) 0 0 b = (acts, d)"
    "acts = RA_NotifyHost (HN_Error []) # RA_SendTo 7 (report_message (\<lambda>_. []) (RE_OldEpoch (ra_epoch ?a) (ra_epoch ?a + 1))) #
      RA_CloseConnection 7 # rest" "by_connection 7 (ra_members d) = None" by blast
  from run(3) have "RA_CloseConnection 7 \<in> set acts" by simp
  with run(1,2,4) f(4) show ?thesis by blast
qed

end
