(* ===== verification/Interrupted.thy ===== *)
theory Interrupted
  imports EndToEnd
begin

text \<open>
  What happens to the introduction of a new member (\<open>MemberJoined\<close> to the others, \<open>MemberSnapshot\<close> to
  the newcomer) when the transition it waits for is superseded by another one: the room sends it
  late, signed for an epoch that every session refuses.
\<close>

fun broadcast_epoch :: "message \<Rightarrow> u64 option" where
  "broadcast_epoch (M_MemberJoined m) = Some (mj_epoch m)"
| "broadcast_epoch (M_MemberSnapshot m) = Some (ms_epoch m)"
| "broadcast_epoch _ = None"

text \<open>A room that goes through events without leaving the transition it is in.\<close>

inductive rotates :: "room_env \<Rightarrow> room_actor \<Rightarrow> room_actor \<Rightarrow> bool" for E where
  start: "ra_state a = RS_EpochTransition \<Longrightarrow> rotates E a a"
| event: "rotates E a b \<Longrightarrow> handle_event_at E ev now b = (res, c) \<Longrightarrow> ra_state c = RS_EpochTransition \<Longrightarrow> rotates E a c"

lemma rotates_retains: "rotates E a b \<Longrightarrow> retains a b \<and> ra_state b = RS_EpochTransition"
proof (induction rule: rotates.induct)
  case (event a b ev now res c)
  then show ?case using transition_step [of b E ev now] retains_trans [of a b c] by auto
qed simp

lemma stale_introduction_refused:
  assumes "session_epoch s = Some e" and "broadcast_epoch msg = Some e'" and "e' \<noteq> e"
  shows "\<exists>err. handle_membership_message nfc C msg s = (Inl err, s)"
proof -
  have v: "\<exists>err. verify_room_event C q e' t body sig s = (Inl err, s)" for q t body sig
    using assms(1,3) by (auto simp: verify_room_event_def)
  show ?thesis
  proof (cases msg)
    case (M_MemberJoined m)
    obtain err where "verify_room_event C (mj_sequence m) e' 0x20
        (member_joined_body (mj_member_id m) (mj_nickname m) (mj_ed25519_pubkey m)) (mj_signature m) s = (Inl err, s)"
      using v by blast
    with M_MemberJoined assms(2) show ?thesis
      by (simp add: handle_membership_message_def handle_member_joined_def split: sum.split)
  next
    case (M_MemberSnapshot m)
    obtain err where "verify_room_event C (ms_sequence m) e' 0x24 (member_snapshot_body (ms_members m))
        (ms_signature m) s = (Inl err, s)"
      using v by blast
    with M_MemberSnapshot assms(2) show ?thesis
      by (simp add: handle_membership_message_def handle_member_snapshot_def split: sum.split)
  qed (use assms(2) in simp_all)
qed

lemma timeout_never_settles:
  assumes "ra_state d = RS_EpochTransition" and "on_epoch_timeout E d = (Inr acts, e)"
  shows "ra_state e = RS_EpochTransition \<or> ra_state e = RS_Destroyed"
proof (cases "host_stalled d")
  case True
  with assms show ?thesis
    by (auto simp: host_stalled_def on_epoch_timeout_def close_room_def Let_def split: if_splits)
next
  case False
  from keeps_epoch_timeout [OF this, of E] assms show ?thesis
    by (auto simp: keeps_or_rekeys_def calm_def rekeyed_def)
qed

text \<open>A transition ends well only by an acknowledgement, which releases the queued broadcasts.\<close>

lemma release_actions:
  assumes "ra_state d = RS_EpochTransition" and "handle_event_at E ev now d = (Inr acts, e)" and "settled e"
  shows "filter introduces acts = filter introduces (ra_pending_membership d)"
proof -
  let ?d = "d\<lparr>ra_now := now\<rparr>"
  have h: "handle_in_transition E ev ?d = (Inr acts, e)" using assms(1,2) by (simp add: handle_event_at_def)
  have st: "ra_state e \<noteq> RS_EpochTransition" "ra_state e \<noteq> RS_Destroyed"
    using assms(3) by (auto simp: settled_def split: if_splits)
  have "\<exists>c epoch. ev = EV_EpochAck c epoch"
  proof (cases "lifecycle_event ?d ev")
    case False
    from keeps_dispatch(1) [OF this, of E] h st assms(1) show ?thesis
      by (auto simp: keeps_or_rekeys_def calm_def rekeyed_def)
  next
    case True
    then show ?thesis
      using h st assms(1) timeout_never_settles [of ?d E acts e]
      by (auto simp: lifecycle_event_def closes_def close_room_def on_connection_lost_def split: if_splits)
  qed
  then obtain c epoch where "on_epoch_ack c epoch ?d = (Inr acts, e)" using h by auto
  then show ?thesis
    using st(1) assms(1) by (auto simp: on_epoch_ack_def Let_def split: option.splits if_splits)
qed

text \<open>
  C16: a join whose transition is superseded is lost. Let introductions of a newcomer wait for the transition to the
  epoch they are signed for, and let any events follow under which the room never settles. When at last an event
  settles the room in another epoch, exactly those introductions are sent, still for the old epoch, and every
  session that follows the room, the newcomer's and the others', refuses each of them unchanged: the newcomer never
  learns the members, so it can read nobody, and nobody can read it. (The epoch counter is assumed not to have come
  round to the old value.)
\<close>

theorem interrupted_join_is_lost:
  assumes "ra_state a = RS_EpochTransition"
    and "\<forall>c msg. RA_SendTo c msg \<in> set (ra_pending_membership a) \<and> introduces (RA_SendTo c msg) \<longrightarrow>
      broadcast_epoch msg = Some (ra_epoch a)"
    and "rotates E a d" and "handle_event_at E ev now d = (Inr acts, e)" and "settled e"
    and "ra_epoch e \<noteq> ra_epoch a"
  shows "filter introduces acts = filter introduces (ra_pending_membership a) \<and>
    (\<forall>c msg s nfc C. RA_SendTo c msg \<in> set acts \<and> introduces (RA_SendTo c msg) \<and> session_epoch s = Some (ra_epoch e) \<longrightarrow>
      (\<exists>err. handle_membership_message nfc C msg s = (Inl err, s)))"
proof -
  have "retains a d" "ra_state d = RS_EpochTransition" using rotates_retains [OF assms(3)] by simp_all
  then have acts: "filter introduces acts = filter introduces (ra_pending_membership a)"
    using release_actions [OF _ assms(4,5)] by (simp add: retains_def)
  have "\<exists>err. handle_membership_message nfc C msg s = (Inl err, s)"
    if "RA_SendTo c msg \<in> set acts" "introduces (RA_SendTo c msg)" "session_epoch s = Some (ra_epoch e)" for c msg s nfc C
  proof -
    from that(1,2) have "RA_SendTo c msg \<in> set (filter introduces acts)" by simp
    then have "RA_SendTo c msg \<in> set (ra_pending_membership a)" unfolding acts by simp
    with assms(2) that(2) have "broadcast_epoch msg = Some (ra_epoch a)" by blast
    from stale_introduction_refused [OF that(3) this] assms(6) show ?thesis by metis
  qed
  with acts show ?thesis by blast
qed

text \<open>
  Member 2, on connection 9, has just been accepted; member 1, on connection 7, disappears before it
  has acknowledged; the host and member 2 acknowledge the epoch that follows.
\<close>

definition demo_joining :: room_actor where
  "demo_joining = queue_member_joined demo_env (demo_member 2 9 [98] 3)
     (demo_room\<lparr>ra_state := RS_EpochTransition, ra_epoch := 3,
        ra_pending_epoch := Some \<lparr>pe_epoch = 3, pe_key = replicate 32 6, pe_awaiting = [0, 1, 2], pe_started_at = 0\<rparr>,
        ra_members := \<lparr>mt_limit = 16, mt_next_id = 3,
          mt_members = [demo_member 0 0 [104] 1, demo_member 1 7 [97] 2, demo_member 2 9 [98] 3]\<rparr>,
        ra_connections := [demo_entry 0 (CR_Member 0), demo_entry 7 (CR_Member 1), demo_entry 9 (CR_Member 2)]\<rparr>)"

lemmas joining_defs = demo_joining_def queue_member_joined_def queue_member_snapshot_def

lemma demo_joining:
  "ra_state demo_joining = RS_EpochTransition" "ra_epoch demo_joining = 3"
  "\<forall>c msg. RA_SendTo c msg \<in> set (ra_pending_membership demo_joining) \<and> introduces (RA_SendTo c msg) \<longrightarrow>
     broadcast_epoch msg = Some (ra_epoch demo_joining)"
  by (auto simp: joining_defs demo_defs Let_def)

definition demo_lost :: room_actor where
  "demo_lost = snd (handle_event_at demo_env (EV_ConnectionLost 7) 1 demo_joining)"

lemma demo_lost:
  "ra_state demo_lost = RS_EpochTransition" "ra_epoch demo_lost = 4" "ra_policy demo_lost = JP_Open"
  "ra_pending_epoch demo_lost =
     Some \<lparr>pe_epoch = 4, pe_key = replicate 32 0, pe_awaiting = [0, 2], pe_started_at = 1\<rparr>"
  "conn_member_id 0 (ra_connections demo_lost) = Some 0" "conn_member_id 9 (ra_connections demo_lost) = Some 2"
  by (simp_all add: demo_lost_def joining_defs queue_member_gone_def conn_remove_def demo_run demo_defs)

lemma demo_joining_pending: "\<exists>sn. RA_SendTo 9 (M_MemberSnapshot sn) \<in> set (ra_pending_membership demo_joining)"
  by (simp add: joining_defs demo_defs Let_def)

definition demo_interrupted :: room_actor where
  "demo_interrupted = snd (handle_event_at demo_env (EV_EpochAck 0 4) 2 demo_lost)"

lemma demo_interrupted:
  "ra_state demo_interrupted = RS_EpochTransition" "ra_epoch demo_interrupted = 4" "ra_policy demo_interrupted = JP_Open"
  "ra_pending_epoch demo_interrupted =
     Some \<lparr>pe_epoch = 4, pe_key = replicate 32 0, pe_awaiting = [2], pe_started_at = 1\<rparr>"
  "conn_member_id 9 (ra_connections demo_interrupted) = Some 2"
  by (simp_all add: demo_interrupted_def handle_event_at_def on_epoch_ack_def Let_def demo_lost)

lemma interrupted_join_is_lost_witness:
  "\<exists>acts e sn err. rotates demo_env demo_joining demo_interrupted \<and>
     handle_event_at demo_env (EV_EpochAck 9 4) 3 demo_interrupted = (Inr acts, e) \<and> settled e \<and>
     RA_SendTo 9 (M_MemberSnapshot sn) \<in> set acts \<and>
     handle_membership_message id plain_crypto (M_MemberSnapshot sn) ((demo_session 2)\<lparr>cs_current_epoch := Some (4, [])\<rparr>) =
       (Inl err, (demo_session 2)\<lparr>cs_current_epoch := Some (4, [])\<rparr>)"
proof -
  have lost: "handle_event_at demo_env (EV_ConnectionLost 7) 1 demo_joining =
      (fst (handle_event_at demo_env (EV_ConnectionLost 7) 1 demo_joining), demo_lost)"
    and acked: "handle_event_at demo_env (EV_EpochAck 0 4) 2 demo_lost =
      (fst (handle_event_at demo_env (EV_EpochAck 0 4) 2 demo_lost), demo_interrupted)"
    by (simp_all add: demo_lost_def demo_interrupted_def)
  note rot = rotates.event [OF rotates.event [OF rotates.start [OF demo_joining(1)] lost demo_lost(1)]
      acked demo_interrupted(1)]
  obtain acts e where h: "handle_event_at demo_env (EV_EpochAck 9 4) 3 demo_interrupted = (Inr acts, e)"
    and e: "settled e" "ra_epoch e = 4"
    by (simp add: handle_event_at_def Let_def on_epoch_ack_def demo_interrupted(1-5) settled_def EPOCH_KEY_LEN_def)
  have "ra_epoch e \<noteq> ra_epoch demo_joining" by (simp add: e demo_joining(2))
  note lost_join = interrupted_join_is_lost [OF demo_joining(1,3) rot h e(1) this]
  obtain sn where "RA_SendTo 9 (M_MemberSnapshot sn) \<in> set (filter introduces (ra_pending_membership demo_joining))"
    using demo_joining_pending by auto
  then have sn: "RA_SendTo 9 (M_MemberSnapshot sn) \<in> set acts" using lost_join by (metis filter_is_subset subsetD)
  have "session_epoch ((demo_session 2)\<lparr>cs_current_epoch := Some (4, [])\<rparr>) = Some (ra_epoch e)"
    by (simp add: session_epoch_def e)
  then have "\<exists>err. handle_membership_message id plain_crypto (M_MemberSnapshot sn)
      ((demo_session 2)\<lparr>cs_current_epoch := Some (4, [])\<rparr>) = (Inl err, (demo_session 2)\<lparr>cs_current_epoch := Some (4, [])\<rparr>)"
    using lost_join sn by auto
  with rot h e sn show ?thesis by blast
qed

end
