(* ===== verification/Spec2Isabelle.thy ===== *)
theory Spec2Isabelle
  imports Outbound GateStages ControlRules Socks HostEntry JoinFlow RenderRules RenderAreas TorManagerRules HostSessionRules ChatWire Command Task AdmissionRules Interrupted
begin

text \<open>
  A verification library for Veilroom, an encrypted group chat over Tor onion services (a Rust program,
  sources under \<open>src/src\<close>). One participant hosts a room; the others join with an invitation URI and
  a password, are accepted by hand, and chat under a key that is renewed at every change of the
  membership. The theories model the host, the participant and the protocol between them as
  executable functions, and prove what makes them correct.

  \<^bold>\<open>The program and its model, from the bytes upwards.\<close>

  \<^item> \<open>Prelude\<close>: machine words, big-endian integers, UTF-8, the result combinators (\<open>bindE\<close> for values,
    \<open>tryS\<close> for methods on \<open>&mut self\<close>: an early return keeps the state as it then is), random outcomes,
    and the lemma collections that the other theories use. \<open>RoomLimits\<close> (\<open>constants.rs\<close>, \<open>limits.rs\<close>,
    \<open>error.rs\<close>), \<open>Ids\<close> (\<open>protocol/ids.rs\<close>, \<open>state.rs\<close>) and \<open>Validation\<close> (\<open>validation.rs\<close>,
    \<open>ui/sanitize.rs\<close>) hold the constants, the registries and the text rules.
  \<^item> \<open>Frame\<close> (\<open>protocol/frame.rs\<close>), \<open>Strict\<close> (\<open>protocol/strict.rs\<close>), \<open>Wire\<close> and \<open>Codec\<close> (the message
    records, constructors, encoders and decoders of \<open>protocol/*.rs\<close>): the wire format. \<open>Cbor\<close>
    states what the CBOR crate guarantees and gives an instance; \<open>CodecRules\<close> and \<open>CodecStream\<close> prove
    the round trips and the well-formedness of whatever is accepted. The locale \<open>schema\<close> is the
    contract between a message type and the dispatch on types; every message type interprets it.
  \<^item> \<open>Crypto\<close> (\<open>crypto/*.rs\<close>): transcripts, identities, key wrapping and envelopes over parameterised
    primitives; \<open>Password\<close> (\<open>crypto/password.rs\<close>, \<open>admission/guard.rs\<close>): proof of the password, and
    the lockout after failed proofs.
  \<^item> \<open>Replay\<close>, \<open>Outbound\<close>, \<open>RateLimit\<close> (\<open>chat/*.rs\<close>): replay tracker, outbound queue, token bucket.
    \<open>Members\<close> (\<open>room/member.rs\<close>, \<open>admission/queue.rs\<close>, \<open>room/connections.rs\<close>): the stores of a room.
  \<^item> \<open>Actor\<close> (\<open>room/actor.rs\<close>, \<open>room/action.rs\<close>, \<open>event.rs\<close>): the room, one definition for each handler;
    \<open>ActorStores\<close> proves the invariant of its stores, \<open>ActorEpoch\<close> the rekeying, \<open>ActorLife\<close> the
    lifecycle and the reachable rooms, \<open>ActorRules\<close> and \<open>ActorAdmit\<close> the commands and the admission,
    \<open>ActorChat\<close> what is relayed; \<open>Task\<close> (\<open>room/task.rs\<close>) is the loop around it, and what an error
    means for the connection that caused it.
  \<^item> \<open>ChatSession\<close> (\<open>chat/session.rs\<close>): the participant's end. \<open>EndToEnd\<close> composes it with the room
    (a sealed text is relayed and read, a rekeying reaches every session), \<open>ChatWire\<close> with the wire format on
    both hops (delivery of a text of at most 4080 bytes, and the refusal of longer ones), \<open>Interrupted\<close> follows
    a join whose transition is superseded.
  \<^item> \<open>Uri\<close> (\<open>uri.rs\<close>), \<open>Command\<close> (\<open>command.rs\<close>): invitations and slash commands.
  \<^item> \<open>Admission\<close> (\<open>admission/host.rs\<close>, \<open>admission/client.rs\<close>): both state machines of the handshake;
    \<open>AdmissionRules\<close> proves what each side may rely on, whatever the other sends.
  \<^item> \<open>Conn\<close> (\<open>net/conn.rs\<close>), \<open>HostNet\<close> (\<open>net/host.rs\<close>): the task of a connection, and the host's map of
    connections. \<open>Gate\<close> (the host session of \<open>app.rs\<close>): the supervisor loop between network and room;
    \<open>GateRules\<close>, \<open>GateBounds\<close> and \<open>GateStages\<close> prove that no peer skips a stage, how often it can guess
    and how long it may stay. \<open>HostSession\<close> is the whole host session, from its
    preparation to its end, with its keys and what every step shows; \<open>HostSessionRules\<close> proves that it refines
    the loop of \<open>Gate\<close>, that nothing makes it panic, and that the invitation on its screen is the current one.
  \<^item> \<open>Join\<close> (the join session and the menu of \<open>app.rs\<close>, and \<open>net/client.rs\<close>): the participant's supervisor, branch
    by branch; \<open>JoinRules\<close> proves that it speaks only in the order of the protocol, \<open>JoinFlow\<close> how
    joining goes for a user, also where it goes wrong.
  \<^item> \<open>Control\<close> (\<open>tor/parser.rs\<close>, \<open>tor/control.rs\<close>, and what \<open>tor/manager.rs\<close> asks Tor for) and \<open>Socks\<close>
    (\<open>net/socks.rs\<close>): the two line and byte protocols spoken with Tor; \<open>ControlRules\<close> proves that replies
    are read back however the socket cuts them, and that a command ends whatever the socket delivers.
  \<^item> \<open>Platform\<close> (\<open>platform.rs\<close>): the session directory, over a file system in which every call may fail;
    \<open>TorManager\<close> (\<open>tor/manager.rs\<close>): preparing, starting, watching and stopping the Tor process.
    \<open>TorManagerRules\<close> proves that the directory is private, that a started Tor is authenticated, and what a
    shutdown leaves behind.
  \<^item> \<open>TextInput\<close> (\<open>ui/input.rs\<close>): the input fields, with a byte cursor that may fall off a character; \<open>RoomView\<close>
    (\<open>ui/buffer.rs\<close>, \<open>ui/notice.rs\<close>, \<open>ui/room_view.rs\<close>): what the room screen shows and when a line expires;
    \<open>Screens\<close> (\<open>ui/screen.rs\<close>, \<open>ui/app.rs\<close>): the forms and keys. \<open>ScreenRules\<close> proves that no input panics and
    what every action carries; \<open>HostEntry\<close> that the setup form implements a specification over characters.
  \<^item> \<open>Render\<close> (\<open>ui/render.rs\<close>): every screen as the list of widgets that the terminal library is given, each with its
    rectangle. \<open>RenderRules\<close> proves that every reachable screen can be drawn, that what is drawn is free of
    control characters and that wrapping loses nothing; \<open>RenderAreas\<close> that no widget leaves the terminal.

  \<^bold>\<open>How they interact.\<close> Bytes of a peer are cut into frames and messages by its connection task, which
  hands them to the supervisor; the supervisor runs the admission flow of the connection and
  forwards events to the room task; the room task calls the actor and returns batches of actions;
  the supervisor sends, closes and admits accordingly. A participant's session opens what
  arrives and seals what it sends. The user's keys become actions of the supervisor only through the
  screens, and what peers write reaches the terminal only through the room view. State is passed explicitly; concurrency is the order of the events
  in the input lists, which every theorem about runs leaves open.

  \<^bold>\<open>What the properties show\<close> (each stands after its number, C1 to C40): authenticity, freshness and
  exactly-once relay of envelopes; rekeying at every change of membership with delivery of the key to
  exactly the remaining members, and what a failed rekeying leaves; the invariants of the room's stores and
  lifecycle over all reachable rooms, failed events included; authentication of host and applicant in every run of the handshake; round trips of every
  format; bounds on buffers, guesses and connections; the input fields, forms and message pane against
  reference definitions; what is drawn, and where; the privacy of the session directory and the
  authentication of Tor; delivery, completion and shutdown as liveness statements; and the behaviour on errors, among it several defects (see the findings of the
  manifest: interrupted joins, unreadable long texts, and, beside the numbered properties, early hellos, a
  failed rekeying, join forms that are refused without a word, requests of kicked members).

  \<^bold>\<open>Parameters.\<close> Third-party crates are arguments, with their documented laws as hypotheses and an
  instance that satisfies them: \<open>cbor\<close> with \<open>cbor_ok\<close>, for delivery also \<open>cbor_small\<close> (a head takes at most
  nine bytes), and \<open>rfc_cbor\<close>, \<open>crypto\<close> with \<open>crypto_ok\<close> and
  \<open>plain_crypto\<close>, \<open>uri_env\<close> with \<open>uri_env_ok\<close>, NFC normalization with \<open>nfc_ok\<close>; \<open>kdf\<close> has no laws. The
  random generator is the list of its outcomes, failures included. Hash map order is a function
  with \<open>order_ok\<close>. \<open>draw_env\<close> has the layout and the character widths of the terminal library, with \<open>layout_ok\<close>
  (a rectangle for every constraint, inside the area, or, with a margin that the area has no room for, empty)
  and an instance. The file system is a record whose list of faults says which calls fail. Clock readings are arguments. Texts of errors that come from \<open>Display\<close>
  implementations of several crates are functions.

  \<^bold>\<open>Integers and bounds.\<close> \<open>u8\<close> to \<open>u64\<close> are words and wrap as in a release build; \<open>usize\<close> and durations in
  nanoseconds are \<open>nat\<close>, with \<open>checked\<close> and \<open>saturating\<close> operations written out. No model needs fuel:
  loops recurse on their input, the frame loop on the length of its buffer, and the loops of the supervisors and
  of the reader of the control socket on the list of what they meet; that a reply of the control socket is complete, or refused,
  within 1026 lines of at most 4098 reads is proved, so no longer input is needed.

  \<^bold>\<open>Not modelled.\<close> Entering and leaving the terminal mode and the thread that reads the keys (\<open>ui/terminal.rs\<close>,
  \<open>main.rs\<close>, \<open>lib.rs\<close>), the commands of the clipboard (\<open>platform/clipboard.rs\<close>, whose outcome is an input), and the
  sockets, timers and processes themselves (what they deliver is an input of the models).
\<close>

end
